(* ===== verification/Prelude.thy ===== *)
theory Prelude
  imports Main "HOL-Library.Word" "HOL-Library.Monad_Syntax"
begin

text \<open>
  Shared vocabulary of the development: the machine integers of the C sources as words, the
  option monad that stands for a step which may hit an assertion or leave an array, and the
  generic lemmas on lists, options and words that the component theories share.
\<close>

unbundle bit_operations_syntax

subsection \<open>Machine integers and time\<close>

type_synonym u8 = "8 word"
type_synonym u16 = "16 word"
type_synonym u32 = "32 word"

text \<open>The OS timer of the SDK is an unsigned 32-bit tick counter read by \<open>os_timer_get()\<close>.\<close>

type_synonym os_timer = u32

text \<open>
  The calendar time of the SDK: the fields of \<open>rtc_t\<close> that the sources use, a byte each.
\<close>

record rtc =
  rtc_year :: u8
  rtc_month :: u8
  rtc_day :: u8
  rtc_hour :: u8
  rtc_minute :: u8
  rtc_second :: u8

named_theorems component_simps \<open>definitional equations a component unfolds together\<close>

subsection \<open>Assertions and array accesses in the option monad\<close>

text \<open>
  \<open>OS_ASSERT\<close> of the SDK stops the device; \<open>None\<close> is that outcome.  An access
  outside an array is \<open>None\<close> as well, so that a result \<open>Some\<close> says that the run met
  neither.
\<close>

definition os_assert :: "bool \<Rightarrow> unit option" where
  "os_assert c = (if c then Some () else None)"

definition arr_get :: "'a list \<Rightarrow> nat \<Rightarrow> 'a option" where
  "arr_get xs i = (if i < length xs then Some (xs ! i) else None)"

definition arr_set :: "'a list \<Rightarrow> nat \<Rightarrow> 'a \<Rightarrow> 'a list option" where
  "arr_set xs i x = (if i < length xs then Some (xs[i := x]) else None)"

lemma os_assert_simps [simp]:
  "os_assert True = Some ()" "os_assert False = None"
  by (simp_all add: os_assert_def)

lemma os_assert_True [simp]: "c \<Longrightarrow> os_assert c = Some ()"
  by (simp add: os_assert_def)

lemma arr_get_Some [simp]: "i < length xs \<Longrightarrow> arr_get xs i = Some (xs ! i)"
  by (simp add: arr_get_def)

lemma arr_set_Some [simp]: "i < length xs \<Longrightarrow> arr_set xs i x = Some (xs[i := x])"
  by (simp add: arr_set_def)

subsection \<open>Words\<close>

lemma unat_u8_less [simp]: "unat (x :: u8) < 256"
  using unsigned_less [of x] by simp

lemma unat_u16_less [simp]: "unat (x :: u16) < 65536"
  using unsigned_less [of x] by simp

lemma unat_Suc_no_wrap: "x < y \<Longrightarrow> unat (x + 1) = Suc (unat x)" for x y :: "'a::len word"
proof -
  assume "x < y"
  moreover have "unat y < 2 ^ LENGTH('a)"
    by (rule unsigned_less)
  ultimately have "unat x + 1 < 2 ^ LENGTH('a)"
    unfolding word_less_nat_alt by linarith
  then show ?thesis
    by (simp add: unat_word_ariths unsigned_1)
qed

lemma word_less_unat: "x < y \<longleftrightarrow> unat x < unat y" for x y :: "'a::len word"
  by (rule word_less_nat_alt)

lemma inj_unat_word [simp]: "unat x = unat y \<longleftrightarrow> x = y" for x y :: "'a::len word"
  by (rule word_unat_eq_iff [symmetric])

lemma unat_of_nat_u8 [simp]: "n < 256 \<Longrightarrow> unat (of_nat n :: u8) = n"
  by (simp add: unsigned_of_nat take_bit_nat_eq_self)

lemma unat_of_nat_u16 [simp]: "n < 65536 \<Longrightarrow> unat (of_nat n :: u16) = n"
  by (simp add: unsigned_of_nat take_bit_nat_eq_self)

lemma unat_of_nat_u32 [simp]: "n < 4294967296 \<Longrightarrow> unat (of_nat n :: u32) = n"
  by (simp add: unsigned_of_nat take_bit_nat_eq_self)

lemma unat_ucast_up: "LENGTH('a) \<le> LENGTH('b) \<Longrightarrow> unat (ucast x :: 'b::len word) = unat x"
  for x :: "'a::len word"
proof -
  assume "LENGTH('a) \<le> LENGTH('b)"
  then have "(2::nat) ^ LENGTH('a) \<le> 2 ^ LENGTH('b)" by (rule power_increasing) simp
  then have "unat x < 2 ^ LENGTH('b)" using unsigned_less [of x] by (rule order_less_le_trans [rotated])
  then show ?thesis by (simp add: unsigned_ucast_eq unsigned_take_bit_eq take_bit_nat_eq_self)
qed

lemma gt0_of_less: "x < y \<Longrightarrow> 0 < y" for x y :: "'a::len word"
  by (auto simp: word_less_nat_alt)

lemma card_below_u8: "card {j. j < sz} = unat sz" for sz :: u8
proof -
  have "unat ` {j. j < sz} = {..<unat sz}"
  proof (intro equalityI subsetI)
    fix n assume "n \<in> {..<unat sz}"
    moreover from this have "n < 256" using unat_u8_less [of sz] by (simp del: unat_u8_less)
    ultimately show "n \<in> unat ` {j. j < sz}"
      by (intro image_eqI [of _ _ "of_nat n"]) (auto simp: word_less_nat_alt)
  qed (auto simp: word_less_nat_alt)
  then show ?thesis by (metis card_image card_lessThan inj_on_def inj_unat_word)
qed

text \<open>Equality of bytes bit by bit, for the flag arithmetic.\<close>

lemma u8_bits: "x = y \<longleftrightarrow> bit x 0 = bit y 0 \<and> bit x 1 = bit y 1 \<and> bit x 2 = bit y 2 \<and> bit x 3 = bit y 3
   \<and> bit x 4 = bit y 4 \<and> bit x 5 = bit y 5 \<and> bit x 6 = bit y 6 \<and> bit x 7 = bit y 7"
  (is "_ \<longleftrightarrow> ?R") for x y :: u8
proof
  assume R: ?R
  show "x = y"
  proof (rule bit_word_eqI)
    fix n assume "n < LENGTH(8)"
    then have "n = 0 \<or> n = 1 \<or> n = 2 \<or> n = 3 \<or> n = 4 \<or> n = 5 \<or> n = 6 \<or> n = 7"
      by (simp, arith)
    with R show "bit x n = bit y n" by (elim disjE) simp_all
  qed
qed simp

lemma and_pow2: "x AND push_bit n 1 = 0 \<longleftrightarrow> \<not> bit x n" for x :: "'a::len word"
proof -
  have "x AND push_bit n 1 = (if bit x n then push_bit n 1 else 0)"
    by (rule bit_word_eqI) (auto simp: bit_simps bit_1_iff)
  moreover have "bit x n \<Longrightarrow> push_bit n (1 :: 'a word) \<noteq> 0"
    using bit_imp_le_length [of x n] by (simp add: push_bit_eq_mult word_neq_0_conv)
  ultimately show ?thesis by auto
qed

end
