(* ===== verification/EventTypes.thy ===== *)
theory EventTypes
  imports Prelude
begin

text \<open>
  The event record of \<open>app/event.h\<close> and its enumerations.  The enumerations are
  \<open>u8\<close> typedefs in the source (a value read from flash may lie outside them), so they are
  bytes here and their members are constants.  The calendar type \<open>rtc_t\<close> belongs to the
  SDK: it is the type parameter \<open>'rtc\<close>.
\<close>

record 'rtc event =
  ev_cnt :: u32
  ev_time :: 'rtc
  ev_id :: u8
  ev_source :: u8

abbreviation (input) EVENT_USER_NONE :: u16 where "EVENT_USER_NONE \<equiv> 0xFFFF"

subsection \<open>Event ids\<close>

abbreviation (input) EVENT_ID_BOOT_UP :: u8 where "EVENT_ID_BOOT_UP \<equiv> 0"
abbreviation (input) EVENT_ID_SHUT_DOWN :: u8 where "EVENT_ID_SHUT_DOWN \<equiv> 1"
abbreviation (input) EVENT_ID_POWER_FAIL :: u8 where "EVENT_ID_POWER_FAIL \<equiv> 2"
abbreviation (input) EVENT_ID_POWER_RECOVERY :: u8 where "EVENT_ID_POWER_RECOVERY \<equiv> 3"
abbreviation (input) EVENT_ID_LO_BATT :: u8 where "EVENT_ID_LO_BATT \<equiv> 4"
abbreviation (input) EVENT_ID_LO_BATT_RECOVERY :: u8 where "EVENT_ID_LO_BATT_RECOVERY \<equiv> 5"
abbreviation (input) EVENT_ID_SET :: u8 where "EVENT_ID_SET \<equiv> 6"
abbreviation (input) EVENT_ID_UNSET :: u8 where "EVENT_ID_UNSET \<equiv> 7"
abbreviation (input) EVENT_ID_ALARM :: u8 where "EVENT_ID_ALARM \<equiv> 8"
abbreviation (input) EVENT_ID_ALARM_CANCEL :: u8 where "EVENT_ID_ALARM_CANCEL \<equiv> 9"
abbreviation (input) EVENT_ID_ALARM_TIMEOUT :: u8 where "EVENT_ID_ALARM_TIMEOUT \<equiv> 10"
abbreviation (input) EVENT_ID_FAULT :: u8 where "EVENT_ID_FAULT \<equiv> 11"
abbreviation (input) EVENT_ID_FAULT_RECOVERY :: u8 where "EVENT_ID_FAULT_RECOVERY \<equiv> 12"
abbreviation (input) EVENT_ID_JAMMING_ACT :: u8 where "EVENT_ID_JAMMING_ACT \<equiv> 13"
abbreviation (input) EVENT_ID_JAMMING_DACT :: u8 where "EVENT_ID_JAMMING_DACT \<equiv> 14"
abbreviation (input) EVENT_ID_TRACKING :: u8 where "EVENT_ID_TRACKING \<equiv> 15"
abbreviation (input) EVENT_ID_SIZE :: u8 where "EVENT_ID_SIZE \<equiv> 16"

subsection \<open>Event sources\<close>

abbreviation (input) EVENT_SOURCE_UNKNOWN :: u8 where "EVENT_SOURCE_UNKNOWN \<equiv> 0"
abbreviation (input) EVENT_SOURCE_UNIT :: u8 where "EVENT_SOURCE_UNIT \<equiv> 1"
abbreviation (input) EVENT_SOURCE_KEY :: u8 where "EVENT_SOURCE_KEY \<equiv> 2"
abbreviation (input) EVENT_SOURCE_DOOR :: u8 where "EVENT_SOURCE_DOOR \<equiv> 3"
abbreviation (input) EVENT_SOURCE_INPUT1 :: u8 where "EVENT_SOURCE_INPUT1 \<equiv> 4"
abbreviation (input) EVENT_SOURCE_INPUT2 :: u8 where "EVENT_SOURCE_INPUT2 \<equiv> 5"
abbreviation (input) EVENT_SOURCE_INPUT3 :: u8 where "EVENT_SOURCE_INPUT3 \<equiv> 6"
abbreviation (input) EVENT_SOURCE_SHOCK :: u8 where "EVENT_SOURCE_SHOCK \<equiv> 7"
abbreviation (input) EVENT_SOURCE_LOCK :: u8 where "EVENT_SOURCE_LOCK \<equiv> 8"
abbreviation (input) EVENT_SOURCE_CELL :: u8 where "EVENT_SOURCE_CELL \<equiv> 9"
abbreviation (input) EVENT_SOURCE_BATTERY :: u8 where "EVENT_SOURCE_BATTERY \<equiv> 10"
abbreviation (input) EVENT_SOURCE_ADMIN :: u8 where "EVENT_SOURCE_ADMIN \<equiv> 11"
abbreviation (input) EVENT_SOURCE_USER1 :: u8 where "EVENT_SOURCE_USER1 \<equiv> 12"
abbreviation (input) EVENT_SOURCE_USER2 :: u8 where "EVENT_SOURCE_USER2 \<equiv> 13"
abbreviation (input) EVENT_SOURCE_USER3 :: u8 where "EVENT_SOURCE_USER3 \<equiv> 14"
abbreviation (input) EVENT_SOURCE_USER4 :: u8 where "EVENT_SOURCE_USER4 \<equiv> 15"
abbreviation (input) EVENT_SOURCE_SIZE :: u8 where "EVENT_SOURCE_SIZE \<equiv> 16"

subsection \<open>Groups and priorities\<close>

abbreviation (input) EVENT_GROUP_ALARM :: u8 where "EVENT_GROUP_ALARM \<equiv> 0"
abbreviation (input) EVENT_GROUP_FAULT :: u8 where "EVENT_GROUP_FAULT \<equiv> 1"
abbreviation (input) EVENT_GROUP_CONTROL :: u8 where "EVENT_GROUP_CONTROL \<equiv> 2"
abbreviation (input) EVENT_GROUP_INFO :: u8 where "EVENT_GROUP_INFO \<equiv> 3"

abbreviation (input) EVENT_PRIO_LO :: u8 where "EVENT_PRIO_LO \<equiv> 0"
abbreviation (input) EVENT_PRIO_STD :: u8 where "EVENT_PRIO_STD \<equiv> 1"
abbreviation (input) EVENT_PRIO_HI :: u8 where "EVENT_PRIO_HI \<equiv> 2"

subsection \<open>Validity of a stored event\<close>

text \<open>\<open>event_valid\<close> of \<open>app/event.c\<close>; \<open>rtc_valid\<close> is the SDK's calendar check.\<close>

definition event_valid :: "('rtc \<Rightarrow> bool) \<Rightarrow> 'rtc event \<Rightarrow> bool" where
  "event_valid rtc_valid e =
     (if \<not> rtc_valid (ev_time e) then False
      else if ev_id e \<ge> EVENT_ID_SIZE \<or> ev_source e \<ge> EVENT_SOURCE_SIZE then False
      else True)"

lemma event_valid_iff:
  "event_valid rv e \<longleftrightarrow> rv (ev_time e) \<and> ev_id e < EVENT_ID_SIZE \<and> ev_source e < EVENT_SOURCE_SIZE"
  by (auto simp: event_valid_def not_le)

end
