(* ===== verification/SystemInput.thy ===== *)
theory SystemInput
  imports EventTypes
begin

text \<open>
  \<open>app/system_input.c\<close>: the eight alarm inputs with their reaction, their postpone timer
  and the count of alarms each caused since the last reset.
\<close>

abbreviation (input) INP_KEY :: u8 where "INP_KEY \<equiv> 0"
abbreviation (input) INP_LOCK :: u8 where "INP_LOCK \<equiv> 1"
abbreviation (input) INP_UNLOCK :: u8 where "INP_UNLOCK \<equiv> 2"
abbreviation (input) INP_DOOR :: u8 where "INP_DOOR \<equiv> 3"
abbreviation (input) INP_INP1 :: u8 where "INP_INP1 \<equiv> 4"
abbreviation (input) INP_INP2 :: u8 where "INP_INP2 \<equiv> 5"
abbreviation (input) INP_INP3 :: u8 where "INP_INP3 \<equiv> 6"
abbreviation (input) INP_SHOCK :: u8 where "INP_SHOCK \<equiv> 7"
abbreviation (input) INP_SIZE :: u8 where "INP_SIZE \<equiv> 8"

abbreviation (input) ALARM_REACTION_NONE :: u8 where "ALARM_REACTION_NONE \<equiv> 0"
abbreviation (input) ALARM_REACTION_DELAY :: u8 where "ALARM_REACTION_DELAY \<equiv> 1"
abbreviation (input) ALARM_REACTION_INSTANT :: u8 where "ALARM_REACTION_INSTANT \<equiv> 2"
abbreviation (input) ALARM_REACTION_24H :: u8 where "ALARM_REACTION_24H \<equiv> 3"
abbreviation (input) ALARM_REACTION_TAMPER :: u8 where "ALARM_REACTION_TAMPER \<equiv> 4"

abbreviation (input) ALARM_MAX_CNT :: u8 where "ALARM_MAX_CNT \<equiv> 3"
abbreviation (input) TICK_SECOND :: u8 where "TICK_SECOND \<equiv> 10"

record system_input =
  si_nr :: u8
  si_reaction :: u8
  si_postpone :: u8
  si_tmr :: u8
  si_cnt :: u8

definition system_input_reset :: "system_input list \<Rightarrow> system_input list" where
  "system_input_reset inps = map (\<lambda>i. i\<lparr>si_tmr := 0, si_cnt := 0\<rparr>) inps"

definition system_input_init :: "system_input list" where
  "system_input_init =
     map (\<lambda>n. \<lparr>si_nr = of_nat n,
                si_reaction = (if n \<in> {unat INP_INP1, unat INP_INP2, unat INP_INP3}
                               then ALARM_REACTION_DELAY else ALARM_REACTION_INSTANT),
                si_postpone = 1 * TICK_SECOND, si_tmr = 0, si_cnt = 0\<rparr>) [0..<8]"

definition system_input_source :: "u8 \<Rightarrow> u8 option" where
  "system_input_source n =
     do { _ \<leftarrow> os_assert (n < INP_SIZE);
          arr_get [EVENT_SOURCE_KEY, EVENT_SOURCE_LOCK, EVENT_SOURCE_LOCK, EVENT_SOURCE_DOOR,
                   EVENT_SOURCE_INPUT1, EVENT_SOURCE_INPUT2, EVENT_SOURCE_INPUT3, EVENT_SOURCE_SHOCK] (unat n) }"

definition system_input_get :: "system_input list \<Rightarrow> u8 \<Rightarrow> system_input option" where
  "system_input_get inps n = do { _ \<leftarrow> os_assert (n < INP_SIZE); arr_get inps (unat n) }"

text \<open>\<open>system_input_alarm\<close>: the input is updated in place; the result says whether to signal now.\<close>

definition system_input_alarm :: "system_input \<Rightarrow> system_input \<times> bool" where
  "system_input_alarm inp =
     (if si_cnt inp \<ge> ALARM_MAX_CNT then (inp, False)
      else let inp = inp\<lparr>si_cnt := si_cnt inp + 1\<rparr>
           in if si_postpone inp \<noteq> 0
              then (if si_tmr inp = 0 then inp\<lparr>si_tmr := si_postpone inp\<rparr> else inp, False)
              else (inp, True))"

text \<open>
  The part of \<open>system_input_tick\<close> for one input: the new input, and whether its timer ran
  out, in which case the caller signals it.
\<close>

definition system_input_tick1 :: "system_input \<Rightarrow> system_input \<times> bool" where
  "system_input_tick1 inp =
     (if si_tmr inp \<noteq> 0 then (inp\<lparr>si_tmr := si_tmr inp - 1\<rparr>, si_tmr inp - 1 = 0) else (inp, False))"

subsection \<open>Well-formed inputs\<close>

definition inps_wf :: "system_input list \<Rightarrow> bool" where
  "inps_wf inps \<longleftrightarrow> length inps = 8 \<and> (\<forall>n < 8. si_nr (inps ! n) = of_nat n \<and> si_cnt (inps ! n) \<le> ALARM_MAX_CNT)"

lemma inps_wf_init: "inps_wf system_input_init"
  by (simp add: inps_wf_def system_input_init_def)

lemma inps_wf_reset: "inps_wf inps \<Longrightarrow> inps_wf (system_input_reset inps)"
  by (simp add: inps_wf_def system_input_reset_def)

lemma system_input_source_Some: "n < INP_SIZE \<Longrightarrow> \<exists>s. system_input_source n = Some s \<and> s < EVENT_SOURCE_SIZE"
proof -
  assume n: "n < INP_SIZE"
  then have "unat n < 8" by (simp add: word_less_nat_alt)
  then have "unat n = 0 \<or> unat n = 1 \<or> unat n = 2 \<or> unat n = 3 \<or> unat n = 4 \<or> unat n = 5 \<or> unat n = 6 \<or> unat n = 7"
    by auto
  with n show ?thesis by (elim disjE) (simp_all add: system_input_source_def)
qed

lemma system_input_get_Some: "inps_wf inps \<Longrightarrow> n < INP_SIZE \<Longrightarrow> system_input_get inps n = Some (inps ! unat n)"
  by (simp add: system_input_get_def inps_wf_def word_less_nat_alt)

lemma u8_le3_step: "(x :: u8) < 3 \<Longrightarrow> x + 1 \<le> 3"
  using unat_Suc_no_wrap [of x 3] by (simp add: word_less_nat_alt word_le_nat_alt)

lemma system_input_alarm_wf:
  "si_cnt inp \<le> ALARM_MAX_CNT \<Longrightarrow> system_input_alarm inp = (inp', r) \<Longrightarrow>
   si_nr inp' = si_nr inp \<and> si_cnt inp' \<le> ALARM_MAX_CNT \<and> si_reaction inp' = si_reaction inp
   \<and> (r \<longrightarrow> si_postpone inp = 0) \<and> (si_cnt inp = ALARM_MAX_CNT \<longrightarrow> inp' = inp \<and> \<not> r)"
  using u8_le3_step [of "si_cnt inp"]
  by (auto simp: system_input_alarm_def Let_def not_le split: if_splits)

lemma system_input_tick1_wf:
  "system_input_tick1 inp = (inp', r) \<Longrightarrow> si_nr inp' = si_nr inp \<and> si_cnt inp' = si_cnt inp \<and> si_reaction inp' = si_reaction inp"
  by (auto simp: system_input_tick1_def split: if_splits)

end
