(* ===== verification/EventQueue.thy ===== *)
theory EventQueue
  imports EventTypes
begin

text \<open>
  The primary event buffer of \<open>app/event.c\<close>: a ring of 32 events that
  \<open>event_create_ext\<close> fills from any task and \<open>event_task\<close> drains, with the event
  counter.  The static pointers are 32-bit integers.
\<close>

abbreviation (input) EVENT_BUF_SIZE :: nat where "EVENT_BUF_SIZE \<equiv> 32"

record 'rtc event_q =
  eq_buf :: "'rtc event list"
  eq_rd :: u32
  eq_wr :: u32
  eq_cnt :: u32

definition ring_inc :: "u32 \<Rightarrow> u32" where
  "ring_inc ptr = (let ptr = ptr + 1 in if ptr = 32 then 0 else ptr)"

text \<open>
  \<open>event_create_ext\<close>: \<open>now\<close> is what \<open>rtc_get_time\<close> would store.  The result is
  \<open>None\<close> for an access outside the ring.
\<close>

definition event_create_ext ::
    "'rtc \<Rightarrow> 'rtc event_q \<Rightarrow> u8 \<Rightarrow> u8 \<Rightarrow> 'rtc option \<Rightarrow> ('rtc event_q \<times> bool) option" where
  "event_create_ext now q e s event_time =
     (let wr = eq_wr q; ptr = ring_inc wr
      in if ptr = eq_wr q then Some (q, False)
         else do {
           let time = (case event_time of None \<Rightarrow> now | Some t \<Rightarrow> t);
           let cnt = eq_cnt q + 1;
           buf \<leftarrow> arr_set (eq_buf q) (unat wr) \<lparr>ev_cnt = cnt, ev_time = time, ev_id = e, ev_source = s\<rparr>;
           Some (q\<lparr>eq_buf := buf, eq_cnt := cnt, eq_wr := ptr\<rparr>, True) })"

definition event_create :: "'rtc \<Rightarrow> 'rtc event_q \<Rightarrow> u8 \<Rightarrow> u8 \<Rightarrow> ('rtc event_q \<times> bool) option" where
  "event_create now q e s = event_create_ext now q e s None"

text \<open>
  The ends of the loop body of \<open>event_task\<close>: the event at the read pointer, and the pointer
  update after it was processed.
\<close>

definition event_q_empty :: "'rtc event_q \<Rightarrow> bool" where
  "event_q_empty q \<longleftrightarrow> eq_rd q = eq_wr q"

definition event_q_head :: "'rtc event_q \<Rightarrow> 'rtc event option" where
  "event_q_head q = do { _ \<leftarrow> os_assert (eq_rd q < 32); arr_get (eq_buf q) (unat (eq_rd q)) }"

definition event_q_next :: "'rtc event_q \<Rightarrow> 'rtc event_q" where
  "event_q_next q = q\<lparr>eq_rd := ring_inc (eq_rd q)\<rparr>"

subsection \<open>The ring as a list of pending events\<close>

definition event_q_wf :: "'rtc event_q \<Rightarrow> bool" where
  "event_q_wf q \<longleftrightarrow> length (eq_buf q) = 32 \<and> eq_rd q < 32 \<and> eq_wr q < 32"

definition ring_at :: "nat \<Rightarrow> nat \<Rightarrow> nat" where
  "ring_at r k = (if r + k < 32 then r + k else r + k - 32)"

definition ring_len :: "nat \<Rightarrow> nat \<Rightarrow> nat" where
  "ring_len r w = (if r \<le> w then w - r else w + 32 - r)"

definition pending :: "'rtc event_q \<Rightarrow> 'rtc event list" where
  "pending q = map (\<lambda>k. eq_buf q ! ring_at (unat (eq_rd q)) k)
                   [0..<ring_len (unat (eq_rd q)) (unat (eq_wr q))]"

lemma wf_unat: "event_q_wf q \<Longrightarrow> unat (eq_rd q) < 32 \<and> unat (eq_wr q) < 32 \<and> length (eq_buf q) = 32"
  by (simp add: event_q_wf_def word_less_nat_alt)

lemma ring_succ: "x < 32 \<Longrightarrow> unat (ring_inc x) = (if unat x = 31 then 0 else Suc (unat x))"
proof -
  assume "x < 32"
  then have s: "unat (x + 1) = Suc (unat x)" by (rule unat_Suc_no_wrap)
  have "x + 1 = 32 \<longleftrightarrow> unat (x + 1) = unat (32 :: u32)" unfolding inj_unat_word ..
  also have "\<dots> \<longleftrightarrow> unat x = 31" using s by simp
  finally show ?thesis using s by (simp add: ring_inc_def Let_def)
qed

lemma ring_inc_less: "x < 32 \<Longrightarrow> ring_inc x < 32"
  using ring_succ [of x] by (auto simp: word_less_nat_alt)

lemma length_pending: "length (pending q) = ring_len (unat (eq_rd q)) (unat (eq_wr q))"
  by (simp add: pending_def)

definition queued :: "'rtc \<Rightarrow> 'rtc event_q \<Rightarrow> u8 \<Rightarrow> u8 \<Rightarrow> 'rtc option \<Rightarrow> 'rtc event" where
  "queued now q e s t = \<lparr>ev_cnt = eq_cnt q + 1, ev_time = (case t of None \<Rightarrow> now | Some t \<Rightarrow> t), ev_id = e, ev_source = s\<rparr>"

lemma create_ext_run:
  assumes "event_q_wf q"
  shows "event_create_ext now q e s t = Some (q\<lparr>eq_buf := (eq_buf q)[unat (eq_wr q) := queued now q e s t],
      eq_cnt := eq_cnt q + 1, eq_wr := ring_inc (eq_wr q)\<rparr>, True)"
proof -
  have "unat (ring_inc (eq_wr q)) \<noteq> unat (eq_wr q)"
    using ring_succ [of "eq_wr q"] assms by (simp add: event_q_wf_def)
  then have "ring_inc (eq_wr q) \<noteq> eq_wr q" by metis
  then show ?thesis using wf_unat [OF assms]
    by (simp add: event_create_ext_def Let_def queued_def)
qed

lemma create_ext_wf: "event_q_wf q \<Longrightarrow> event_create_ext now q e s t = Some (q', r) \<Longrightarrow> event_q_wf q' \<and> r"
  using create_ext_run [of q now e s t] ring_inc_less by (auto simp: event_q_wf_def)

lemma create_ext_pending:
  assumes q: "event_q_wf q" and run: "event_create_ext now q e s t = Some (q', r)"
  shows "pending q' = (if length (pending q) < 31 then pending q @ [queued now q e s t] else [])"
proof -
  define rd wr where "rd = unat (eq_rd q)" and "wr = unat (eq_wr q)"
  have b: "rd < 32" "wr < 32" "length (eq_buf q) = 32" using wf_unat [OF q] by (auto simp: rd_def wr_def)
  have q': "q' = q\<lparr>eq_buf := (eq_buf q)[wr := queued now q e s t], eq_cnt := eq_cnt q + 1,
      eq_wr := ring_inc (eq_wr q)\<rparr>"
    using run create_ext_run [OF q] by (simp add: wr_def)
  have wr': "unat (ring_inc (eq_wr q)) = (if wr = 31 then 0 else Suc wr)"
    using ring_succ [of "eq_wr q"] q by (simp add: event_q_wf_def wr_def)
  have at: "(eq_buf q)[wr := queued now q e s t] ! ring_at rd k = eq_buf q ! ring_at rd k" if "k < ring_len rd wr" for k
  proof -
    have "ring_at rd k \<noteq> wr" using that b by (auto simp: ring_at_def ring_len_def split: if_splits)
    then show ?thesis by simp
  qed
  show ?thesis
  proof (cases "ring_len rd wr < 31")
    case True
    then have len: "ring_len rd (if wr = 31 then 0 else Suc wr) = Suc (ring_len rd wr)"
      and new: "ring_at rd (ring_len rd wr) = wr"
      using b by (auto simp: ring_at_def ring_len_def)
    then show ?thesis using True at b
      by (auto simp: pending_def q' wr' rd_def [symmetric] wr_def [symmetric])
  next
    case False
    then have "ring_len rd (if wr = 31 then 0 else Suc wr) = 0"
      using b by (auto simp: ring_len_def split: if_splits)
    then show ?thesis using False
      by (simp add: pending_def q' wr' rd_def [symmetric] wr_def [symmetric])
  qed
qed

lemma event_q_take:
  assumes q: "event_q_wf q" and ne: "\<not> event_q_empty q"
  shows "\<exists>e. event_q_head q = Some e \<and> pending q = e # pending (event_q_next q) \<and> event_q_wf (event_q_next q)"
proof -
  define rd wr where "rd = unat (eq_rd q)" and "wr = unat (eq_wr q)"
  have b: "rd < 32" "wr < 32" "length (eq_buf q) = 32" using wf_unat [OF q] by (auto simp: rd_def wr_def)
  have ne': "rd \<noteq> wr" using ne by (simp add: event_q_empty_def rd_def wr_def)
  have rd': "unat (ring_inc (eq_rd q)) = (if rd = 31 then 0 else Suc rd)"
    using ring_succ [of "eq_rd q"] q by (simp add: event_q_wf_def rd_def)
  have len: "ring_len rd wr = Suc (ring_len (if rd = 31 then 0 else Suc rd) wr)"
    using b ne' by (auto simp: ring_len_def)
  have at: "ring_at rd (Suc k) = ring_at (if rd = 31 then 0 else Suc rd) k" if "k < 31" for k
    using b that by (auto simp: ring_at_def)
  have lt: "ring_len (if rd = 31 then 0 else Suc rd) wr \<le> 31" using b ne' by (auto simp: ring_len_def)
  have zero: "ring_at rd 0 = rd" using b by (simp add: ring_at_def)
  have "event_q_head q = Some (eq_buf q ! rd)"
    using q b by (simp add: event_q_head_def event_q_wf_def rd_def)
  moreover have "pending q = (eq_buf q ! rd) # pending (event_q_next q)"
    using zero lt at len
    by (simp add: pending_def event_q_next_def rd' rd_def [symmetric] wr_def [symmetric] upt_conv_Cons map_Suc_upt [symmetric]
        del: upt_Suc)
  moreover have "event_q_wf (event_q_next q)"
    using q ring_inc_less by (simp add: event_q_wf_def event_q_next_def)
  ultimately show ?thesis by blast
qed

subsection \<open>Properties\<close>

text \<open>With fewer than 31 pending events, \<open>event_create_ext\<close> appends one event at the end of
the pending list, with the next counter value and the given or current time, and \<open>event_task\<close> then
takes events from the front: the ring is a first-in first-out queue.\<close>

theorem event_create_appends:
  assumes "event_q_wf q" "length (pending q) < 31"
  shows "\<exists>q'. event_create_ext now q e s t = Some (q', True) \<and> event_q_wf q' \<and> eq_cnt q' = eq_cnt q + 1
     \<and> pending q' = pending q @ [\<lparr>ev_cnt = eq_cnt q + 1,
           ev_time = (case t of None \<Rightarrow> now | Some t \<Rightarrow> t), ev_id = e, ev_source = s\<rparr>]
     \<and> event_q_head q' = Some (hd (pending q')) \<and> pending (event_q_next q') = tl (pending q')"
proof -
  obtain q' where run: "event_create_ext now q e s t = Some (q', True)"
    using create_ext_run [OF assms(1)] by blast
  have wf: "event_q_wf q'" using create_ext_wf [OF assms(1) run] by simp
  have p: "pending q' = pending q @ [queued now q e s t]"
    using create_ext_pending [OF assms(1) run] assms(2) by simp
  then have "ring_len (unat (eq_rd q')) (unat (eq_wr q')) \<noteq> 0" using length_pending [of q'] by simp
  then have "\<not> event_q_empty q'" by (auto simp: event_q_empty_def ring_len_def)
  with event_q_take [OF wf] p have "event_q_head q' = Some (hd (pending q')) \<and> pending (event_q_next q') = tl (pending q')"
    by (auto simp: p)
  moreover have "eq_cnt q' = eq_cnt q + 1" using run create_ext_run [OF assms(1), of now e s t] by auto
  ultimately show ?thesis using run wf p by (auto simp: queued_def)
qed

definition ex_queue :: "nat event_q" where
  "ex_queue = \<lparr>eq_buf = replicate 32 \<lparr>ev_cnt = 0, ev_time = 0, ev_id = 0, ev_source = 0\<rparr>,
               eq_rd = 0, eq_wr = 0, eq_cnt = 0\<rparr>"

lemma ex_queue_simps [simp]: "event_q_wf ex_queue" "pending ex_queue = []" "eq_cnt ex_queue = 0"
  by (simp_all add: ex_queue_def event_q_wf_def pending_def ring_len_def)

theorem event_create_appends_witness:
  "\<exists>q'. event_create_ext 7 ex_queue EVENT_ID_ALARM EVENT_SOURCE_DOOR None = Some (q', True)
     \<and> pending q' = [\<lparr>ev_cnt = 1, ev_time = 7, ev_id = EVENT_ID_ALARM, ev_source = EVENT_SOURCE_DOOR\<rparr>]"
  using event_create_appends [of ex_queue 7 EVENT_ID_ALARM EVENT_SOURCE_DOOR None] by auto

text \<open>The overflow check of \<open>event_create_ext\<close> compares the advanced write pointer with the
write pointer itself and never fires: a creation is always reported as successful, and one with 31
pending events makes the ring look empty, so that all 32 events are lost.\<close>

theorem event_create_overflow_loses_all:
  assumes "event_q_wf q" "31 \<le> length (pending q)"
  shows "\<exists>q'. event_create_ext now q e s t = Some (q', True) \<and> event_q_empty q' \<and> pending q' = []"
proof -
  obtain q' where run: "event_create_ext now q e s t = Some (q', True)"
    using create_ext_run [OF assms(1)] by blast
  have p: "pending q' = []" using create_ext_pending [OF assms(1) run] assms(2) by simp
  have "event_q_wf q'" using create_ext_wf [OF assms(1) run] by simp
  then have "event_q_empty q'" using event_q_take [of q'] p by auto
  with run p show ?thesis by blast
qed

theorem event_create_overflow_loses_all_witness:
  "\<exists>q'. event_create 7 (ex_queue\<lparr>eq_wr := 31\<rparr>) EVENT_ID_ALARM EVENT_SOURCE_DOOR = Some (q', True)
     \<and> pending q' = []"
proof -
  have "event_q_wf (ex_queue\<lparr>eq_wr := 31\<rparr>)" "length (pending (ex_queue\<lparr>eq_wr := 31\<rparr>)) = 31"
    by (simp_all add: ex_queue_def event_q_wf_def pending_def ring_len_def)
  then show ?thesis
    using event_create_overflow_loses_all [of "ex_queue\<lparr>eq_wr := 31\<rparr>" 7 EVENT_ID_ALARM EVENT_SOURCE_DOOR None]
    by (auto simp: event_create_def)
qed

end
