(* ===== verification/Section.thy ===== *)
theory Section
  imports SystemInput EventQueue
begin

text \<open>
  \<open>app/section.c\<close>: the state machine of the guarded section with its exit and entry
  delays.  \<open>env\<close> holds what the operations read from outside: the OS timer, the clock for
  \<open>event_create\<close> and the ticks per second of the SDK.
\<close>

unbundle bit_operations_syntax

record 'rtc env =
  en_now :: u32
  en_rtc :: 'rtc
  en_second :: u32
  en_lock_in :: bool
  en_unlock_in :: bool

abbreviation (input) SECTION_ST_UNKNOWN :: u32 where "SECTION_ST_UNKNOWN \<equiv> 0"
abbreviation (input) SECTION_ST_UNSET :: u32 where "SECTION_ST_UNSET \<equiv> 1"
abbreviation (input) SECTION_ST_SET_PART :: u32 where "SECTION_ST_SET_PART \<equiv> 2"
abbreviation (input) SECTION_ST_SET :: u32 where "SECTION_ST_SET \<equiv> 3"
abbreviation (input) SECTION_ST_SERVICE :: u32 where "SECTION_ST_SERVICE \<equiv> 4"

abbreviation (input) SECTION_FLAG_TM_OUT :: u32 where "SECTION_FLAG_TM_OUT \<equiv> 2"
abbreviation (input) SECTION_FLAG_TM_IN :: u32 where "SECTION_FLAG_TM_IN \<equiv> 4"
abbreviation (input) SECTION_FLAG_ALARM :: u32 where "SECTION_FLAG_ALARM \<equiv> 8"

text \<open>
  The state is read with \<open>sscanf\<close> from the configuration, so it is a 32-bit word.  The
  pointer \<open>alarm_inp\<close> is the index of the input in the table of \<open>system_input.c\<close>.
\<close>

record section_data =
  sd_state_time :: u32
  sd_timer :: u32
  sd_state :: u32
  sd_flags :: u32
  sd_alarm_inp :: "u8 option"

record section_st =
  sc_data :: section_data
  sc_num :: u16
  sc_tm_out :: u16
  sc_tm_in :: u16

abbreviation (input) upd_data :: "(section_data \<Rightarrow> section_data) \<Rightarrow> section_st \<Rightarrow> section_st" where
  "upd_data f s \<equiv> s\<lparr>sc_data := f (sc_data s)\<rparr>"

definition section_event :: "'rtc env \<Rightarrow> 'rtc event_q \<Rightarrow> u8 \<Rightarrow> u8 \<Rightarrow> 'rtc event_q option" where
  "section_event env q e source = map_option fst (event_create (en_rtc env) q e source)"

definition set_timer :: "'rtc env \<Rightarrow> section_st \<Rightarrow> u32 \<Rightarrow> section_st" where
  "set_timer env s tm = upd_data (\<lambda>d. d\<lparr>sd_timer := en_now env + tm\<rparr>) s"

definition flag_set :: "section_st \<Rightarrow> u32 \<Rightarrow> section_st" where
  "flag_set s flag = upd_data (\<lambda>d. d\<lparr>sd_flags := sd_flags d OR flag\<rparr>) s"

definition flag_clr :: "section_st \<Rightarrow> u32 \<Rightarrow> section_st" where
  "flag_clr s flag = upd_data (\<lambda>d. d\<lparr>sd_flags := sd_flags d AND NOT flag\<rparr>) s"

definition set_state :: "'rtc env \<Rightarrow> section_st \<Rightarrow> 'rtc event_q \<Rightarrow> u32 \<Rightarrow> u8
    \<Rightarrow> (section_st \<times> 'rtc event_q \<times> bool) option" where
  "set_state env s q st source =
     (if st = sd_state (sc_data s) then Some (s, q, False)
      else if st = SECTION_ST_UNSET then do {
        let s = flag_clr s (SECTION_FLAG_TM_IN OR SECTION_FLAG_ALARM);
        let s = upd_data (\<lambda>d. d\<lparr>sd_timer := 0\<rparr>) s;
        q \<leftarrow> section_event env q EVENT_ID_UNSET source;
        Some (upd_data (\<lambda>d. d\<lparr>sd_state := st, sd_state_time := en_now env\<rparr>) s, q, True) }
      else if st = SECTION_ST_SET then do {
        let s = set_timer env s (ucast (sc_tm_out s));
        let s = flag_set s SECTION_FLAG_TM_OUT;
        let s = flag_clr s SECTION_FLAG_ALARM;
        q \<leftarrow> section_event env q EVENT_ID_SET source;
        Some (upd_data (\<lambda>d. d\<lparr>sd_state := st, sd_state_time := en_now env\<rparr>) s, q, True) }
      else Some (s, q, False))"

definition instant_alarm :: "'rtc env \<Rightarrow> system_input list \<Rightarrow> section_st \<Rightarrow> 'rtc event_q \<Rightarrow> u8
    \<Rightarrow> (section_st \<times> 'rtc event_q) option" where
  "instant_alarm env inps s q inp =
     do { let s = flag_set s SECTION_FLAG_ALARM;
          i \<leftarrow> arr_get inps (unat inp);
          src \<leftarrow> system_input_source (si_nr i);
          q \<leftarrow> section_event env q EVENT_ID_ALARM src;
          Some (s, q) }"

definition delay_alarm :: "'rtc env \<Rightarrow> section_st \<Rightarrow> u8 \<Rightarrow> section_st" where
  "delay_alarm env s inp =
     (if sd_timer (sc_data s) = 0
      then flag_set (set_timer env (upd_data (\<lambda>d. d\<lparr>sd_alarm_inp := Some inp\<rparr>) s) (ucast (sc_tm_in s))) SECTION_FLAG_TM_IN
      else s)"

definition section_init :: "section_st \<Rightarrow> section_st" where
  "section_init s = s\<lparr>sc_data := \<lparr>sd_state_time = 0, sd_timer = 0, sd_state = SECTION_ST_UNKNOWN,
      sd_flags = 0, sd_alarm_inp = None\<rparr>\<rparr>"

definition section_alarm_enabled :: "section_st \<Rightarrow> u8 \<Rightarrow> bool" where
  "section_alarm_enabled s signal =
     (let st = sd_state (sc_data s)
      in if st = SECTION_ST_UNSET then signal = ALARM_REACTION_24H
         else if st = SECTION_ST_SET_PART \<or> st = SECTION_ST_SET then signal \<noteq> ALARM_REACTION_NONE
         else False)"

definition section_signal :: "'rtc env \<Rightarrow> system_input list \<Rightarrow> section_st \<Rightarrow> 'rtc event_q \<Rightarrow> u8 \<Rightarrow> u8
    \<Rightarrow> (section_st \<times> 'rtc event_q) option" where
  "section_signal env inps s q inp signal =
     (let st = sd_state (sc_data s)
      in if st = SECTION_ST_SET_PART \<or> st = SECTION_ST_SET then
           (if signal = ALARM_REACTION_DELAY then Some (delay_alarm env s inp, q)
            else if signal = ALARM_REACTION_INSTANT \<or> signal = ALARM_REACTION_24H
            then instant_alarm env inps s q inp
            else Some (s, q))
         else if st = SECTION_ST_UNSET then
           (if signal = ALARM_REACTION_24H then instant_alarm env inps s q inp else Some (s, q))
         else Some (s, q))"

definition section_set :: "'rtc env \<Rightarrow> section_st \<Rightarrow> 'rtc event_q \<Rightarrow> u8 \<Rightarrow> (section_st \<times> 'rtc event_q \<times> bool) option" where
  "section_set env s q source = set_state env s q SECTION_ST_SET source"

definition section_unset :: "'rtc env \<Rightarrow> section_st \<Rightarrow> 'rtc event_q \<Rightarrow> u8 \<Rightarrow> (section_st \<times> 'rtc event_q \<times> bool) option" where
  "section_unset env s q source = set_state env s q SECTION_ST_UNSET source"

definition section_task :: "'rtc env \<Rightarrow> system_input list \<Rightarrow> section_st \<Rightarrow> 'rtc event_q
    \<Rightarrow> (section_st \<times> 'rtc event_q) option" where
  "section_task env inps s q =
     (if sd_timer (sc_data s) \<noteq> 0 \<and> en_now env > sd_timer (sc_data s) then do {
        let s = upd_data (\<lambda>d. d\<lparr>sd_timer := 0\<rparr>) s;
        let s = (if sd_flags (sc_data s) AND SECTION_FLAG_TM_OUT \<noteq> 0 then flag_clr s SECTION_FLAG_TM_OUT else s);
        if sd_flags (sc_data s) AND SECTION_FLAG_TM_IN \<noteq> 0 then do {
          inp \<leftarrow> sd_alarm_inp (sc_data s);
          (s, q) \<leftarrow> instant_alarm env inps s q inp;
          Some (flag_clr s SECTION_FLAG_TM_IN, q) }
        else Some (s, q) }
      else Some (s, q))"

subsection \<open>The invariant: a running entry delay knows its input\<close>

definition section_wf :: "section_st \<Rightarrow> bool" where
  "section_wf s \<longleftrightarrow> (sd_flags (sc_data s) AND SECTION_FLAG_TM_IN \<noteq> 0 \<longrightarrow>
                      (\<exists>i < INP_SIZE. sd_alarm_inp (sc_data s) = Some i))"

lemma and4: "x AND 4 = 0 \<longleftrightarrow> \<not> bit x 2" for x :: u32
  using and_pow2 [of x 2] by simp

lemma and8: "x AND 8 = 0 \<longleftrightarrow> \<not> bit x 3" for x :: u32
  using and_pow2 [of x 3] by simp

lemma event_q_create:
  "event_q_wf q \<Longrightarrow> \<exists>q'. section_event env q e s = Some q' \<and> event_q_wf q'
     \<and> (length (pending q) < 31 \<longrightarrow> pending q' = pending q @ [queued (en_rtc env) q e s None])"
  using create_ext_run [of q "en_rtc env" e s None] create_ext_wf [of q "en_rtc env" e s None]
    create_ext_pending [of q "en_rtc env" e s None]
  by (auto simp: section_event_def event_create_def)

lemma inps_nr: "inps_wf inps \<Longrightarrow> i < INP_SIZE \<Longrightarrow> arr_get inps (unat i) = Some (inps ! unat i) \<and> si_nr (inps ! unat i) = i"
  by (simp add: inps_wf_def word_less_nat_alt)

lemma instant_alarm_run:
  assumes "inps_wf inps" "event_q_wf q" "i < INP_SIZE"
  shows "\<exists>q' src. instant_alarm env inps s q i = Some (flag_set s SECTION_FLAG_ALARM, q') \<and> event_q_wf q'
     \<and> system_input_source i = Some src
     \<and> (length (pending q) < 31 \<longrightarrow> pending q' = pending q @ [queued (en_rtc env) q EVENT_ID_ALARM src None])"
proof -
  obtain src where src: "system_input_source i = Some src" using system_input_source_Some [OF assms(3)] by blast
  then show ?thesis
    using inps_nr [OF assms(1,3)] event_q_create [OF assms(2), of env EVENT_ID_ALARM src]
    by (auto simp: instant_alarm_def Let_def)
qed

lemma section_flags_simps [simp]:
  "sc_data (flag_set s f) = (sc_data s)\<lparr>sd_flags := sd_flags (sc_data s) OR f\<rparr>"
  "sc_data (flag_clr s f) = (sc_data s)\<lparr>sd_flags := sd_flags (sc_data s) AND NOT f\<rparr>"
  "sc_data (set_timer env s tm) = (sc_data s)\<lparr>sd_timer := en_now env + tm\<rparr>"
  by (simp_all add: flag_set_def flag_clr_def set_timer_def)

lemma section_signal_run:
  assumes "inps_wf inps" "event_q_wf q" "section_wf s" "i < INP_SIZE"
  shows "\<exists>s' q'. section_signal env inps s q i sig = Some (s', q') \<and> section_wf s' \<and> event_q_wf q'
     \<and> sd_state (sc_data s') = sd_state (sc_data s)"
proof -
  obtain q' where "instant_alarm env inps s q i = Some (flag_set s SECTION_FLAG_ALARM, q')" "event_q_wf q'"
    using instant_alarm_run [OF assms(1,2,4), of env s] by blast
  moreover have "section_wf (flag_set s SECTION_FLAG_ALARM)"
    using assms(3) by (simp add: section_wf_def and4 bit_simps)
  moreover have "section_wf (delay_alarm env s i)"
    using assms(3,4) by (auto simp: section_wf_def delay_alarm_def)
  moreover have "sd_state (sc_data (delay_alarm env s i)) = sd_state (sc_data s)" by (simp add: delay_alarm_def)
  ultimately show ?thesis using assms(2,3) by (auto simp: section_signal_def Let_def)
qed

lemma section_task_run:
  assumes "inps_wf inps" "event_q_wf q" "section_wf s"
  shows "\<exists>s' q'. section_task env inps s q = Some (s', q') \<and> section_wf s' \<and> event_q_wf q'
     \<and> sd_state (sc_data s') = sd_state (sc_data s)"
proof -
  define s1 where "s1 = upd_data (\<lambda>d. d\<lparr>sd_timer := 0\<rparr>) s"
  define s2 where "s2 = (if sd_flags (sc_data s1) AND SECTION_FLAG_TM_OUT \<noteq> 0 then flag_clr s1 SECTION_FLAG_TM_OUT else s1)"
  have wf2: "section_wf s2" "sd_state (sc_data s2) = sd_state (sc_data s)"
    using assms(3) by (auto simp: s1_def s2_def section_wf_def and4 bit_simps)
  have tin: "section_wf (flag_clr s' SECTION_FLAG_TM_IN)" for s'
    by (simp add: section_wf_def and4 bit_simps)
  show ?thesis
  proof (cases "sd_flags (sc_data s2) AND SECTION_FLAG_TM_IN \<noteq> 0")
    case True
    then obtain i where i: "i < INP_SIZE" "sd_alarm_inp (sc_data s2) = Some i" using wf2 by (auto simp: section_wf_def)
    obtain q' where "instant_alarm env inps s2 q i = Some (flag_set s2 SECTION_FLAG_ALARM, q')" "event_q_wf q'"
      using instant_alarm_run [OF assms(1,2) i(1), of env s2] by blast
    then show ?thesis using True i assms(2,3) tin wf2
      by (auto simp: section_task_def s1_def [symmetric] s2_def [symmetric] Let_def)
  next
    case False
    then show ?thesis using assms(2,3) wf2
      by (auto simp: section_task_def s1_def [symmetric] s2_def [symmetric] Let_def)
  qed
qed

lemma set_state_run:
  assumes "event_q_wf q" "section_wf s"
  shows "\<exists>s' q' r. set_state env s q st src = Some (s', q', r) \<and> section_wf s' \<and> event_q_wf q'
     \<and> (r \<longrightarrow> sd_state (sc_data s') = st) \<and> (\<not> r \<longrightarrow> s' = s \<and> q' = q)"
  using assms event_q_create [OF assms(1), of env EVENT_ID_SET src] event_q_create [OF assms(1), of env EVENT_ID_UNSET src]
  by (auto simp: set_state_def Let_def section_wf_def and4 bit_simps)

subsection \<open>Properties\<close>

text \<open>C12: the entry delay: a delay signal on an armed section with no timer running raises no alarm
at once; \<open>section_task\<close> changes nothing until the timer of \<open>tm_in\<close> has passed, and then queues
exactly one alarm event with the source of that input, sets the alarm flag and stops the timer (the
deadline must not wrap, and the queue has room for the event).\<close>

theorem section_entry_delay:
  assumes "inps_wf inps" "event_q_wf q" "length (pending q) < 31" "i < INP_SIZE"
    and "sd_state (sc_data s) = SECTION_ST_SET \<or> sd_state (sc_data s) = SECTION_ST_SET_PART"
    and "sd_timer (sc_data s) = 0" "0 < unat (en_now env) + unat (sc_tm_in s)"
    and "unat (en_now env) + unat (sc_tm_in s) < 2 ^ 32"
  shows "\<exists>s1. section_signal env inps s q i ALARM_REACTION_DELAY = Some (s1, q)
     \<and> (if unat (en_now env') \<le> unat (en_now env) + unat (sc_tm_in s)
        then section_task env' inps s1 q = Some (s1, q)
        else \<exists>s2 q2 src. section_task env' inps s1 q = Some (s2, q2) \<and> system_input_source i = Some src
               \<and> pending q2 = pending q @ [queued (en_rtc env') q EVENT_ID_ALARM src None]
               \<and> sd_timer (sc_data s2) = 0 \<and> sd_flags (sc_data s2) AND SECTION_FLAG_ALARM \<noteq> 0
               \<and> sd_flags (sc_data s2) AND SECTION_FLAG_TM_IN = 0)"
proof -
  define s1 where "s1 = delay_alarm env s i"
  have dl: "unat (en_now env + ucast (sc_tm_in s)) = unat (en_now env) + unat (sc_tm_in s)"
    using assms(8) by (simp add: unat_word_ariths unat_ucast_up)
  have s1: "sd_timer (sc_data s1) = en_now env + ucast (sc_tm_in s)" "sd_alarm_inp (sc_data s1) = Some i"
    "sd_flags (sc_data s1) = sd_flags (sc_data s) OR SECTION_FLAG_TM_IN"
    using assms(6) by (simp_all add: s1_def delay_alarm_def)
  have sig: "section_signal env inps s q i ALARM_REACTION_DELAY = Some (s1, q)"
    using assms(5) by (auto simp: section_signal_def s1_def)
  have nz: "sd_timer (sc_data s1) \<noteq> 0" using dl assms(7) s1(1) by (metis unat_0 less_irrefl)
  show ?thesis
  proof (cases "unat (en_now env') \<le> unat (en_now env) + unat (sc_tm_in s)")
    case True
    then have "\<not> en_now env' > sd_timer (sc_data s1)" using dl s1(1) by (simp add: word_less_nat_alt)
    then have "section_task env' inps s1 q = Some (s1, q)" by (simp add: section_task_def)
    then show ?thesis using True sig by auto
  next
    case False
    then have late: "en_now env' > sd_timer (sc_data s1)" using dl s1(1) by (simp add: word_less_nat_alt)
    define t1 where "t1 = upd_data (\<lambda>d. d\<lparr>sd_timer := 0\<rparr>) s1"
    define t2 where "t2 = (if sd_flags (sc_data t1) AND SECTION_FLAG_TM_OUT \<noteq> 0 then flag_clr t1 SECTION_FLAG_TM_OUT else t1)"
    have t2: "sd_flags (sc_data t2) AND SECTION_FLAG_TM_IN \<noteq> 0" "sd_alarm_inp (sc_data t2) = Some i"
      "sd_timer (sc_data t2) = 0"
      using s1 by (auto simp: t1_def t2_def and4 bit_simps)
    obtain q2 src where ia: "instant_alarm env' inps t2 q i = Some (flag_set t2 SECTION_FLAG_ALARM, q2)"
      "system_input_source i = Some src" "pending q2 = pending q @ [queued (en_rtc env') q EVENT_ID_ALARM src None]"
      using instant_alarm_run [OF assms(1,2,4), of env' t2] assms(3) by blast
    have "section_task env' inps s1 q = Some (flag_clr (flag_set t2 SECTION_FLAG_ALARM) SECTION_FLAG_TM_IN, q2)"
      using nz late t2 ia(1) by (simp add: section_task_def t1_def [symmetric] t2_def [symmetric] Let_def)
    moreover have "((x OR 8) AND NOT 4) AND 8 \<noteq> 0" "((x OR 8) AND NOT 4) AND 4 = 0" for x :: u32
      by (simp_all add: and4 and8 bit_simps)
    ultimately show ?thesis using False sig ia t2 by auto
  qed
qed

definition ex_env :: "u32 \<Rightarrow> nat env" where
  "ex_env t = \<lparr>en_now = t, en_rtc = 7, en_second = 1000, en_lock_in = True, en_unlock_in = True\<rparr>"

definition ex_section :: "u32 \<Rightarrow> section_st" where
  "ex_section st = \<lparr>sc_data = \<lparr>sd_state_time = 0, sd_timer = 0, sd_state = st, sd_flags = 0, sd_alarm_inp = None\<rparr>,
     sc_num = 0, sc_tm_out = 20000, sc_tm_in = 10000\<rparr>"

theorem section_entry_delay_witness:
  "\<exists>s1 s2 q2. section_signal (ex_env 100) system_input_init (ex_section SECTION_ST_SET) ex_queue INP_DOOR ALARM_REACTION_DELAY
       = Some (s1, ex_queue)
     \<and> section_task (ex_env 10100) system_input_init s1 ex_queue = Some (s1, ex_queue)
     \<and> section_task (ex_env 10101) system_input_init s1 ex_queue = Some (s2, q2) \<and> length (pending q2) = 1"
proof -
  have nums: "unat (en_now (ex_env t)) = unat t" "unat (sc_tm_in (ex_section st)) = 10000"
    "sd_state (sc_data (ex_section st)) = st" "sd_timer (sc_data (ex_section st)) = 0" for t st
    by (simp_all add: ex_env_def ex_section_def)
  note T = section_entry_delay [OF inps_wf_init ex_queue_simps(1), of INP_DOOR "ex_section SECTION_ST_SET" "ex_env 100"]
  show ?thesis using T [of "ex_env 10100"] T [of "ex_env 10101"] by (auto simp: nums)
qed

text \<open>Unsetting cancels everything but the 24-hour inputs: after \<open>section_unset\<close> of a section
that was not unset, one unset event is queued, no later \<open>section_task\<close> changes anything (a pending
entry delay raises no alarm), and no signal other than a 24-hour one has an effect.\<close>

theorem section_unset_cancels:
  assumes "event_q_wf q" "length (pending q) < 31" "sd_state (sc_data s) \<noteq> SECTION_ST_UNSET"
  shows "\<exists>s1 q1. section_unset env s q src = Some (s1, q1, True)
     \<and> pending q1 = pending q @ [queued (en_rtc env) q EVENT_ID_UNSET src None]
     \<and> section_task env' inps s1 q1 = Some (s1, q1)
     \<and> (\<forall>i sig. sig \<noteq> ALARM_REACTION_24H \<longrightarrow>
          section_signal env' inps s1 q1 i sig = Some (s1, q1) \<and> \<not> section_alarm_enabled s1 sig)"
proof -
  obtain q1 where q1: "section_event env q EVENT_ID_UNSET src = Some q1"
    "pending q1 = pending q @ [queued (en_rtc env) q EVENT_ID_UNSET src None]"
    using event_q_create [OF assms(1), of env EVENT_ID_UNSET src] assms(2) by auto
  then show ?thesis using assms(3)
    by (auto simp: section_unset_def set_state_def Let_def section_task_def section_signal_def section_alarm_enabled_def)
qed

theorem section_unset_cancels_witness:
  "\<exists>s1 q1. section_unset (ex_env 5) (ex_section SECTION_ST_SET) ex_queue EVENT_SOURCE_USER1 = Some (s1, q1, True)
     \<and> section_task (ex_env 99999) system_input_init s1 q1 = Some (s1, q1)"
  using section_unset_cancels [OF ex_queue_simps(1), of "ex_section SECTION_ST_SET" "ex_env 5" EVENT_SOURCE_USER1
      "ex_env 99999" system_input_init]
  by (auto simp: ex_section_def)

end
