(* ===== verification/CLib.thy ===== *)
theory CLib
  imports Prelude
begin

text \<open>
  The C standard library functions the sources use on text: strings as byte lists that end at
  the first zero byte, \<open>strncpy\<close>, and the \<open>%d\<close> conversions of \<open>sscanf\<close> and \<open>printf\<close>.
  A number out of the range of its variable is undefined in C; the conversion returns it as an
  integer and the caller's width decides.
\<close>

subsection \<open>Strings\<close>

definition str :: "string \<Rightarrow> u8 list" where
  "str s = map of_char s"

text \<open>The string in an array; \<open>None\<close>: no terminator, a reader would leave the array.\<close>

definition c_str :: "u8 list \<Rightarrow> u8 list option" where
  "c_str bs = (if 0 \<in> set bs then Some (takeWhile (\<lambda>b. b \<noteq> 0) bs) else None)"

definition strncpy :: "u8 list \<Rightarrow> nat \<Rightarrow> u8 list" where
  "strncpy s n = take n s @ replicate (n - length s) 0"

lemma c_str_append: "0 \<notin> set s \<Longrightarrow> c_str (s @ 0 # r) = Some s"
  by (simp add: c_str_def takeWhile_append2 [of s] takeWhile_append)

lemma c_str_pad: "0 \<notin> set s \<Longrightarrow> 0 < n \<Longrightarrow> c_str (s @ replicate n 0) = Some s"
  by (cases n) (simp_all add: c_str_append)

lemma length_strncpy [simp]: "length (strncpy s n) = n"
  by (simp add: strncpy_def)

lemma c_str_strncpy: "0 \<notin> set s \<Longrightarrow> length s < n \<Longrightarrow> c_str (strncpy s n) = Some s"
  by (simp add: strncpy_def c_str_pad)

subsection \<open>Numbers\<close>

definition is_digit :: "u8 \<Rightarrow> bool" where
  "is_digit c \<longleftrightarrow> 48 \<le> c \<and> c \<le> 57"

definition is_space :: "u8 \<Rightarrow> bool" where
  "is_space c \<longleftrightarrow> c = 32 \<or> (9 \<le> c \<and> c \<le> 13)"

fun scan_digits :: "int \<Rightarrow> u8 list \<Rightarrow> int \<times> u8 list" where
  "scan_digits v [] = (v, [])"
| "scan_digits v (c # cs) =
     (if is_digit c then scan_digits (10 * v + (uint c - 48)) cs else (v, c # cs))"

text \<open>One \<open>%d\<close>: white space, an optional sign, at least one digit.\<close>

definition scan_unsigned :: "u8 list \<Rightarrow> (int \<times> u8 list) option" where
  "scan_unsigned s = (case s of c # _ \<Rightarrow> if is_digit c then Some (scan_digits 0 s) else None | [] \<Rightarrow> None)"

definition scan_d :: "u8 list \<Rightarrow> (int \<times> u8 list) option" where
  "scan_d s =
     (case dropWhile is_space s of
        c # cs \<Rightarrow>
          if c = 45 then map_option (\<lambda>(v, r). (- v, r)) (scan_unsigned cs)
          else if c = 43 then scan_unsigned cs
          else scan_unsigned (c # cs)
      | [] \<Rightarrow> None)"

text \<open>\<open>sscanf(s, "%d,%d,...", ...)\<close>: the values assigned, whose number is the result.\<close>

fun scan_csv :: "nat \<Rightarrow> u8 list \<Rightarrow> int list" where
  "scan_csv 0 s = []"
| "scan_csv (Suc n) s =
     (case scan_d s of
        None \<Rightarrow> []
      | Some (v, r) \<Rightarrow> v # (case r of c # r' \<Rightarrow> if c = 44 then scan_csv n r' else [] | [] \<Rightarrow> []))"

text \<open>\<open>%d\<close> and \<open>%u\<close> of \<open>printf\<close>, and \<open>%02d\<close> style zero padding.\<close>

fun show_nat :: "nat \<Rightarrow> u8 list" where
  "show_nat n = (if n < 10 then [of_nat (48 + n)] else show_nat (n div 10) @ [of_nat (48 + n mod 10)])"

declare show_nat.simps [simp del]

definition show_int :: "int \<Rightarrow> u8 list" where
  "show_int i = (if i < 0 then 45 # show_nat (nat (- i)) else show_nat (nat i))"

definition pad0 :: "nat \<Rightarrow> u8 list \<Rightarrow> u8 list" where
  "pad0 w s = replicate (w - length s) 48 @ s"

lemma is_digit_show: "k < 10 \<Longrightarrow> is_digit (of_nat (48 + k))"
  unfolding is_digit_def word_le_nat_alt by (subst (1 2) unat_of_nat_u8) auto

lemma show_nat_digits: "c \<in> set (show_nat n) \<Longrightarrow> is_digit c"
proof (induction n arbitrary: c rule: show_nat.induct)
  case (1 n)
  show ?case
  proof (cases "n < 10")
    case True
    then show ?thesis using 1 is_digit_show [of n] by (simp add: show_nat.simps [of n])
  next
    case False
    then show ?thesis using 1 is_digit_show [of "n mod 10"] by (auto simp: show_nat.simps [of n])
  qed
qed

lemma show_nat_nonempty [simp]: "show_nat n \<noteq> []"
  by (simp add: show_nat.simps [of n])

lemma length_show_nat: "n < 10 ^ Suc k \<Longrightarrow> length (show_nat n) \<le> Suc k"
proof (induction k arbitrary: n)
  case (Suc k)
  then have "n div 10 < 10 ^ Suc k" by (simp add: less_mult_imp_div_less mult.commute)
  with Suc.IH show ?case by (subst show_nat.simps) auto
qed (simp add: show_nat.simps)

lemma scan_digits_append:
  "\<forall>c \<in> set s. is_digit c \<Longrightarrow> scan_digits v (s @ r) = scan_digits (fst (scan_digits v s)) r"
  by (induction s arbitrary: v) auto

lemma scan_digits_show: "fst (scan_digits v (show_nat n)) = v * 10 ^ length (show_nat n) + int n"
proof (induction n arbitrary: v rule: show_nat.induct)
  case (1 n)
  show ?case
  proof (cases "n < 10")
    case True
    then have "uint (of_nat (48 + n) :: u8) = 48 + int n"
      by (simp add: uint_nat unat_of_nat_u8 del: of_nat_add)
    then show ?thesis using True is_digit_show [of n] by (simp add: show_nat.simps [of n])
  next
    case False
    have "uint (of_nat (48 + n mod 10) :: u8) = 48 + int (n mod 10)"
      by (simp add: uint_nat unat_of_nat_u8 del: of_nat_add)
    moreover have "int n = 10 * int (n div 10) + int (n mod 10)" by presburger
    ultimately show ?thesis
      using False 1 [OF False] is_digit_show [of "n mod 10"] show_nat_digits
      by (subst (1 2) show_nat.simps) (simp add: scan_digits_append algebra_simps)
  qed
qed

text \<open>Printing and scanning an unsigned number before a non-digit give the number back.\<close>

lemma scan_show:
  assumes "r = [] \<or> \<not> is_digit (hd r)"
  shows "scan_d (show_nat n @ r) = Some (int n, r)"
proof -
  obtain c cs where s: "show_nat n = c # cs" by (cases "show_nat n") auto
  then have d: "is_digit c" using show_nat_digits [of c n] by simp
  then have "\<not> is_space c" "c \<noteq> 45" "c \<noteq> 43"
    by (auto simp: is_digit_def is_space_def word_le_nat_alt)
  moreover have "scan_digits v r = (v, r)" for v using assms by (cases r) auto
  ultimately show ?thesis
    using d s scan_digits_append [of "show_nat n" 0 r] show_nat_digits [of _ n] scan_digits_show [of 0 n]
    by (simp add: scan_d_def scan_unsigned_def)
qed

subsection \<open>Hexadecimal numbers\<close>

definition hex_char :: "nat \<Rightarrow> u8" where
  "hex_char d = (if d < 10 then of_nat (48 + d) else of_nat (55 + d))"

text \<open>\<open>%X\<close> of \<open>printf\<close>.\<close>

fun show_hex :: "nat \<Rightarrow> u8 list" where
  "show_hex n = (if n < 16 then [hex_char n] else show_hex (n div 16) @ [hex_char (n mod 16)])"

declare show_hex.simps [simp del]

definition hex_val :: "u8 \<Rightarrow> int option" where
  "hex_val c = (if 48 \<le> c \<and> c \<le> 57 then Some (uint c - 48)
     else if 65 \<le> c \<and> c \<le> 70 then Some (uint c - 55)
     else if 97 \<le> c \<and> c \<le> 102 then Some (uint c - 87) else None)"

fun hexrun :: "int \<Rightarrow> u8 list \<Rightarrow> int \<times> u8 list" where
  "hexrun v [] = (v, [])"
| "hexrun v (c # cs) = (case hex_val c of None \<Rightarrow> (v, c # cs) | Some d \<Rightarrow> hexrun (16 * v + d) cs)"

text \<open>One \<open>%x\<close> with a field width: white space, sign, an optional \<open>0x\<close>, at least one digit.\<close>

definition scan_xu :: "nat \<Rightarrow> u8 list \<Rightarrow> (int \<times> u8 list) option" where
  "scan_xu w s =
     (let t = (case take w s of
                 c # x # t \<Rightarrow> if c = 48 \<and> (x = 120 \<or> x = 88) then t else c # x # t
               | t \<Rightarrow> t)
      in case t of
           [] \<Rightarrow> None
         | c # _ \<Rightarrow> if hex_val c = None then None
                    else let (v, r) = hexrun 0 t in Some (v, r @ drop w s))"

definition scan_x :: "nat \<Rightarrow> u8 list \<Rightarrow> (int \<times> u8 list) option" where
  "scan_x w s =
     (case dropWhile is_space s of
        [] \<Rightarrow> None
      | c # cs \<Rightarrow>
          if c = 45 then map_option (\<lambda>(v, r). (- v, r)) (scan_xu (w - 1) cs)
          else if c = 43 then scan_xu (w - 1) cs
          else scan_xu w (c # cs))"

lemma unat_hex_char: "d < 16 \<Longrightarrow> unat (hex_char d) = (if d < 10 then 48 + d else 55 + d)"
  unfolding hex_char_def by (simp add: unat_of_nat_u8 del: of_nat_add)

lemma hex_val_char: "d < 16 \<Longrightarrow> hex_val (hex_char d) = Some (int d)"
  by (auto simp: hex_val_def word_le_nat_alt unat_hex_char uint_nat)

lemma hex_char_plain:
  assumes "d < 16"
  shows "\<not> is_space (hex_char d)" "hex_char d \<noteq> 45" "hex_char d \<noteq> 43" "hex_char d \<noteq> 120" "hex_char d \<noteq> 88"
    "hex_char d \<noteq> 0" "hex_char d \<noteq> 13"
proof -
  have u: "unat (hex_char d) = (if d < 10 then 48 + d else 55 + d)" by (rule unat_hex_char [OF assms])
  show "\<not> is_space (hex_char d)" "hex_char d \<noteq> 45" "hex_char d \<noteq> 43" "hex_char d \<noteq> 120" "hex_char d \<noteq> 88"
    "hex_char d \<noteq> 0" "hex_char d \<noteq> 13"
    using u assms by (auto simp: is_space_def word_le_nat_alt split: if_splits)
qed

lemma show_hex_chars: "c \<in> set (show_hex n) \<Longrightarrow> \<exists>d < 16. c = hex_char d"
proof (induction n arbitrary: c rule: show_hex.induct)
  case (1 n)
  show ?case
  proof (cases "n < 16")
    case False
    then consider "c \<in> set (show_hex (n div 16))" | "c = hex_char (n mod 16)"
      using 1(2) by (auto simp: show_hex.simps [of n])
    then show ?thesis using 1(1) False by cases (auto intro: exI [of _ "n mod 16"])
  qed (use 1(2) in \<open>auto simp: show_hex.simps [of n]\<close>)
qed

lemma show_hex_nonempty [simp]: "show_hex n \<noteq> []"
  by (simp add: show_hex.simps [of n])

lemma hexrun_append:
  "\<forall>c \<in> set s. hex_val c \<noteq> None \<Longrightarrow> hexrun v (s @ r) = hexrun (fst (hexrun v s)) r"
  by (induction s arbitrary: v) (auto split: option.splits)

lemma hexrun_show: "fst (hexrun v (show_hex n)) = v * 16 ^ length (show_hex n) + int n"
proof (induction n arbitrary: v rule: show_hex.induct)
  case (1 n)
  show ?case
  proof (cases "n < 16")
    case True
    then show ?thesis by (simp add: show_hex.simps [of n] hex_val_char)
  next
    case False
    have "\<forall>c \<in> set (show_hex (n div 16)). hex_val c \<noteq> None"
      using show_hex_chars hex_val_char by blast
    moreover have "int n = 16 * int (n div 16) + int (n mod 16)" by presburger
    ultimately show ?thesis
      using False 1 [OF False]
      by (subst (1 2) show_hex.simps) (simp add: hexrun_append hex_val_char algebra_simps)
  qed
qed

lemma hexrun_zeros: "hexrun 0 (replicate k 48 @ s) = hexrun 0 s"
  by (induction k) (simp_all add: hex_val_def word_le_nat_alt)

lemma length_show_hex: "n < 16 ^ Suc k \<Longrightarrow> length (show_hex n) \<le> Suc k"
proof (induction k arbitrary: n)
  case (Suc k)
  then have "n div 16 < 16 ^ Suc k" by (simp add: less_mult_imp_div_less mult.commute)
  with Suc.IH show ?case by (subst show_hex.simps) auto
qed (simp add: show_hex.simps)

text \<open>A padded hexadecimal number in a field of its width, or before a character that is no digit.\<close>

lemma scan_x_show:
  assumes s: "s = pad0 k (show_hex n)" and w: "length s = w \<or> length s < w \<and> (r = [] \<or> hex_val (hd r) = None)"
    and x: "r = [] \<or> hd r \<noteq> 120 \<and> hd r \<noteq> 88"
  shows "scan_x w (s @ r) = Some (int n, r)"
proof -
  have hc: "\<exists>d < 16. c = hex_char d" if "c \<in> set s" for c
  proof -
    have "c = hex_char 0 \<or> c \<in> set (show_hex n)" using that by (auto simp: s pad0_def hex_char_def)
    then show ?thesis using show_hex_chars [of c n] by (elim disjE) (auto intro: exI [of _ 0])
  qed
  have "s \<noteq> []" by (simp add: s pad0_def)
  then obtain c cs where sc: "s = c # cs" by (cases s) auto
  then obtain d where d: "d < 16" "c = hex_char d" using hc by auto
  note pl = hex_char_plain [OF d(1), folded d(2)]
  have hv: "\<forall>c \<in> set s. hex_val c \<noteq> None" using hc hex_val_char by blast
  define t where "t = take w (s @ r)"
  define r1 where "r1 = take (w - length s) r"
  have t: "t = s @ r1" and rr: "r1 @ drop w (s @ r) = r" using w by (auto simp: t_def r1_def)
  have second: "y \<noteq> 120 \<and> y \<noteq> 88" if "cs @ r1 = y # z" for y z
  proof (cases cs)
    case Nil
    then show ?thesis using that x by (cases r) (auto simp: r1_def take_Cons split: nat.splits)
  next
    case (Cons a b)
    then have "y \<in> set s" using sc that by simp
    then obtain d' where "d' < 16" "y = hex_char d'" using hc by blast
    then show ?thesis using hex_char_plain by auto
  qed
  have run: "hexrun 0 (s @ r1) = (int n, r1)"
  proof -
    have "fst (hexrun 0 s) = int n" using hexrun_zeros [of _ "show_hex n"] hexrun_show [of 0 n]
      by (simp add: s pad0_def)
    moreover have "hexrun v r1 = (v, r1)" for v
      using w by (cases r) (auto simp: r1_def take_Cons split: nat.splits)
    ultimately show ?thesis using hexrun_append [OF hv, of 0 r1] by simp
  qed
  have "(case t of c # x # t \<Rightarrow> if c = 48 \<and> (x = 120 \<or> x = 88) then t else c # x # t | t \<Rightarrow> t) = t"
    using second t sc by (auto split: list.splits)
  then have "scan_xu w (s @ r) = (case t of [] \<Rightarrow> None
      | c # _ \<Rightarrow> if hex_val c = None then None else let (v, q) = hexrun 0 t in Some (v, q @ drop w (s @ r)))"
    by (simp only: scan_xu_def t_def [symmetric] Let_def)
  also have "\<dots> = Some (int n, r)" using run rr hv t sc by (simp only: Let_def) (simp add: t)
  finally have "scan_xu w (s @ r) = Some (int n, r)" .
  then show ?thesis using pl(1-3) sc by (simp add: scan_x_def)
qed

end
