(* ===== verification/CfgTable.thy ===== *)
theory CfgTable
  imports CLib
begin

text \<open>
  \<open>app/cfg_table.c\<close>: the table of the configuration items with the access level to read
  and to write each and its default text.
\<close>

subsection \<open>Identifiers and access levels\<close>

abbreviation (input) CFG_ID_STATE :: u16 where "CFG_ID_STATE \<equiv> 0"
abbreviation (input) CFG_ID_PASSWD_SYSTEM :: u16 where "CFG_ID_PASSWD_SYSTEM \<equiv> 1"
abbreviation (input) CFG_ID_PASSWD_ADMIN :: u16 where "CFG_ID_PASSWD_ADMIN \<equiv> 2"
abbreviation (input) CFG_ID_MAIN_SETUP :: u16 where "CFG_ID_MAIN_SETUP \<equiv> 3"
abbreviation (input) CFG_ID_MAIN_SWITCH :: u16 where "CFG_ID_MAIN_SWITCH \<equiv> 4"
abbreviation (input) CFG_ID_OUT_MAP :: u16 where "CFG_ID_OUT_MAP \<equiv> 5"
abbreviation (input) CFG_ID_SIM_PIN :: u16 where "CFG_ID_SIM_PIN \<equiv> 10"
abbreviation (input) CFG_ID_APN :: u16 where "CFG_ID_APN \<equiv> 11"
abbreviation (input) CFG_ID_MODEM_BAND :: u16 where "CFG_ID_MODEM_BAND \<equiv> 12"
abbreviation (input) CFG_ID_CMS_ACCOUNT :: u16 where "CFG_ID_CMS_ACCOUNT \<equiv> 13"
abbreviation (input) CFG_ID_TRACER_ADDR :: u16 where "CFG_ID_TRACER_ADDR \<equiv> 20"
abbreviation (input) CFG_ID_TRACER_PARAM :: u16 where "CFG_ID_TRACER_PARAM \<equiv> 21"
abbreviation (input) CFG_ID_CMS_SERVER_ADDR :: u16 where "CFG_ID_CMS_SERVER_ADDR \<equiv> 22"
abbreviation (input) CFG_ID_CMS_SERVER_KEY :: u16 where "CFG_ID_CMS_SERVER_KEY \<equiv> 23"
abbreviation (input) CFG_ID_UPDATE_SERVER_ADDR :: u16 where "CFG_ID_UPDATE_SERVER_ADDR \<equiv> 24"
abbreviation (input) CFG_ID_UPDATE_SERVER_KEY :: u16 where "CFG_ID_UPDATE_SERVER_KEY \<equiv> 25"
abbreviation (input) CFG_ID_TIME_ZONE :: u16 where "CFG_ID_TIME_ZONE \<equiv> 30"
abbreviation (input) CFG_ID_DEVICE_NAME :: u16 where "CFG_ID_DEVICE_NAME \<equiv> 40"
abbreviation (input) CFG_ID_ADMIN_NAME :: u16 where "CFG_ID_ADMIN_NAME \<equiv> 50"
abbreviation (input) CFG_ID_USER1_NAME :: u16 where "CFG_ID_USER1_NAME \<equiv> 51"
abbreviation (input) CFG_ID_USER2_NAME :: u16 where "CFG_ID_USER2_NAME \<equiv> 52"
abbreviation (input) CFG_ID_USER3_NAME :: u16 where "CFG_ID_USER3_NAME \<equiv> 53"
abbreviation (input) CFG_ID_USER4_NAME :: u16 where "CFG_ID_USER4_NAME \<equiv> 54"
abbreviation (input) CFG_ID_USER1_PHONE :: u16 where "CFG_ID_USER1_PHONE \<equiv> 101"
abbreviation (input) CFG_ID_USER2_PHONE :: u16 where "CFG_ID_USER2_PHONE \<equiv> 102"
abbreviation (input) CFG_ID_USER3_PHONE :: u16 where "CFG_ID_USER3_PHONE \<equiv> 103"
abbreviation (input) CFG_ID_USER4_PHONE :: u16 where "CFG_ID_USER4_PHONE \<equiv> 104"
abbreviation (input) CFG_ID_USER1_PASS :: u16 where "CFG_ID_USER1_PASS \<equiv> 151"
abbreviation (input) CFG_ID_USER2_PASS :: u16 where "CFG_ID_USER2_PASS \<equiv> 152"
abbreviation (input) CFG_ID_USER3_PASS :: u16 where "CFG_ID_USER3_PASS \<equiv> 153"
abbreviation (input) CFG_ID_USER4_PASS :: u16 where "CFG_ID_USER4_PASS \<equiv> 154"
abbreviation (input) CFG_ID_EVENT_SETUP_000 :: u16 where "CFG_ID_EVENT_SETUP_000 \<equiv> 200"
abbreviation (input) CFG_ID_EVENT_SETUP_001 :: u16 where "CFG_ID_EVENT_SETUP_001 \<equiv> 201"
abbreviation (input) CFG_ID_EVENT_SETUP_002 :: u16 where "CFG_ID_EVENT_SETUP_002 \<equiv> 202"
abbreviation (input) CFG_ID_EVENT_SETUP_003 :: u16 where "CFG_ID_EVENT_SETUP_003 \<equiv> 203"
abbreviation (input) CFG_ID_EVENT_SETUP_004 :: u16 where "CFG_ID_EVENT_SETUP_004 \<equiv> 204"
abbreviation (input) CFG_ID_EVENT_SETUP_005 :: u16 where "CFG_ID_EVENT_SETUP_005 \<equiv> 205"
abbreviation (input) CFG_ID_EVENT_SETUP_006 :: u16 where "CFG_ID_EVENT_SETUP_006 \<equiv> 206"
abbreviation (input) CFG_ID_EVENT_SETUP_007 :: u16 where "CFG_ID_EVENT_SETUP_007 \<equiv> 207"
abbreviation (input) CFG_ID_TEXT_EVENT_NAME_000 :: u16 where "CFG_ID_TEXT_EVENT_NAME_000 \<equiv> 300"
abbreviation (input) CFG_ID_TEXT_EVENT_NAME_001 :: u16 where "CFG_ID_TEXT_EVENT_NAME_001 \<equiv> 301"
abbreviation (input) CFG_ID_TEXT_EVENT_NAME_002 :: u16 where "CFG_ID_TEXT_EVENT_NAME_002 \<equiv> 302"
abbreviation (input) CFG_ID_TEXT_EVENT_NAME_003 :: u16 where "CFG_ID_TEXT_EVENT_NAME_003 \<equiv> 303"
abbreviation (input) CFG_ID_TEXT_EVENT_NAME_004 :: u16 where "CFG_ID_TEXT_EVENT_NAME_004 \<equiv> 304"
abbreviation (input) CFG_ID_TEXT_EVENT_NAME_005 :: u16 where "CFG_ID_TEXT_EVENT_NAME_005 \<equiv> 305"
abbreviation (input) CFG_ID_TEXT_EVENT_NAME_006 :: u16 where "CFG_ID_TEXT_EVENT_NAME_006 \<equiv> 306"
abbreviation (input) CFG_ID_TEXT_EVENT_NAME_007 :: u16 where "CFG_ID_TEXT_EVENT_NAME_007 \<equiv> 307"
abbreviation (input) CFG_ID_TEXT_EVENT_NAME_008 :: u16 where "CFG_ID_TEXT_EVENT_NAME_008 \<equiv> 308"
abbreviation (input) CFG_ID_TEXT_EVENT_NAME_010 :: u16 where "CFG_ID_TEXT_EVENT_NAME_010 \<equiv> 310"
abbreviation (input) CFG_ID_TEXT_EVENT_NAME_011 :: u16 where "CFG_ID_TEXT_EVENT_NAME_011 \<equiv> 311"
abbreviation (input) CFG_ID_TEXT_EVENT_NAME_012 :: u16 where "CFG_ID_TEXT_EVENT_NAME_012 \<equiv> 312"
abbreviation (input) CFG_ID_TEXT_EVENT_NAME_013 :: u16 where "CFG_ID_TEXT_EVENT_NAME_013 \<equiv> 313"
abbreviation (input) CFG_ID_TEXT_EVENT_NAME_014 :: u16 where "CFG_ID_TEXT_EVENT_NAME_014 \<equiv> 314"
abbreviation (input) CFG_ID_TEXT_EVENT_NAME_015 :: u16 where "CFG_ID_TEXT_EVENT_NAME_015 \<equiv> 315"
abbreviation (input) CFG_ID_TEXT_EVENT_NAME_016 :: u16 where "CFG_ID_TEXT_EVENT_NAME_016 \<equiv> 316"
abbreviation (input) CFG_ID_TEXT_SOURCE_NAME_000 :: u16 where "CFG_ID_TEXT_SOURCE_NAME_000 \<equiv> 400"
abbreviation (input) CFG_ID_TEXT_SOURCE_NAME_001 :: u16 where "CFG_ID_TEXT_SOURCE_NAME_001 \<equiv> 401"
abbreviation (input) CFG_ID_TEXT_SOURCE_NAME_002 :: u16 where "CFG_ID_TEXT_SOURCE_NAME_002 \<equiv> 402"
abbreviation (input) CFG_ID_TEXT_SOURCE_NAME_003 :: u16 where "CFG_ID_TEXT_SOURCE_NAME_003 \<equiv> 403"
abbreviation (input) CFG_ID_TEXT_SOURCE_NAME_004 :: u16 where "CFG_ID_TEXT_SOURCE_NAME_004 \<equiv> 404"
abbreviation (input) CFG_ID_TEXT_SOURCE_NAME_005 :: u16 where "CFG_ID_TEXT_SOURCE_NAME_005 \<equiv> 405"
abbreviation (input) CFG_ID_TEXT_SOURCE_NAME_006 :: u16 where "CFG_ID_TEXT_SOURCE_NAME_006 \<equiv> 406"
abbreviation (input) CFG_ID_TEXT_SOURCE_NAME_007 :: u16 where "CFG_ID_TEXT_SOURCE_NAME_007 \<equiv> 407"
abbreviation (input) CFG_ID_TEXT_SOURCE_NAME_008 :: u16 where "CFG_ID_TEXT_SOURCE_NAME_008 \<equiv> 408"
abbreviation (input) CFG_ID_TEXT_SOURCE_NAME_009 :: u16 where "CFG_ID_TEXT_SOURCE_NAME_009 \<equiv> 409"
abbreviation (input) CFG_ID_TEXT_SOURCE_NAME_010 :: u16 where "CFG_ID_TEXT_SOURCE_NAME_010 \<equiv> 410"
abbreviation (input) CFG_ID_TEXT_SOURCE_NAME_011 :: u16 where "CFG_ID_TEXT_SOURCE_NAME_011 \<equiv> 411"
abbreviation (input) CFG_ID_TEXT_SOURCE_NAME_012 :: u16 where "CFG_ID_TEXT_SOURCE_NAME_012 \<equiv> 412"
abbreviation (input) CFG_ID_TEXT_SOURCE_NAME_013 :: u16 where "CFG_ID_TEXT_SOURCE_NAME_013 \<equiv> 413"
abbreviation (input) CFG_ID_TEXT_SOURCE_NAME_014 :: u16 where "CFG_ID_TEXT_SOURCE_NAME_014 \<equiv> 414"
abbreviation (input) CFG_ID_TEXT_SOURCE_NAME_015 :: u16 where "CFG_ID_TEXT_SOURCE_NAME_015 \<equiv> 415"
abbreviation (input) CFG_ID_END :: u16 where "CFG_ID_END \<equiv> 0xFFFF"

abbreviation (input) ACCESS_NONE :: u8 where "ACCESS_NONE \<equiv> 1"
abbreviation (input) ACCESS_USER :: u8 where "ACCESS_USER \<equiv> 2"
abbreviation (input) ACCESS_ADMIN :: u8 where "ACCESS_ADMIN \<equiv> 4"
abbreviation (input) ACCESS_SYSTEM :: u8 where "ACCESS_SYSTEM \<equiv> 8"

abbreviation (input) CFG_ITEM_SIZE :: nat where "CFG_ITEM_SIZE \<equiv> 62"

record cfg_table =
  ct_id :: u16
  ct_read :: u8
  ct_write :: u8
  ct_data :: "u8 list"

text \<open>The rows before the end marker, whose id is \<open>CFG_ID_END\<close>.\<close>

definition CFG_TABLE :: "cfg_table list" where
  "CFG_TABLE = [
   \<lparr>ct_id = CFG_ID_STATE, ct_read = ACCESS_SYSTEM, ct_write = ACCESS_SYSTEM, ct_data = str ''S1''\<rparr>,
   \<lparr>ct_id = CFG_ID_PASSWD_SYSTEM, ct_read = ACCESS_SYSTEM, ct_write = ACCESS_SYSTEM, ct_data = str ''uhlokRopnude''\<rparr>,
   \<lparr>ct_id = CFG_ID_PASSWD_ADMIN, ct_read = ACCESS_SYSTEM, ct_write = ACCESS_ADMIN, ct_data = str ''admin''\<rparr>,
   \<lparr>ct_id = CFG_ID_MAIN_SETUP, ct_read = ACCESS_USER, ct_write = ACCESS_ADMIN, ct_data = str ''5,0,0''\<rparr>,
   \<lparr>ct_id = CFG_ID_MAIN_SWITCH, ct_read = ACCESS_USER, ct_write = ACCESS_ADMIN, ct_data = str ''0''\<rparr>,
   \<lparr>ct_id = CFG_ID_OUT_MAP, ct_read = ACCESS_USER, ct_write = ACCESS_ADMIN, ct_data = str ''17,18,19''\<rparr>,
   \<lparr>ct_id = CFG_ID_SIM_PIN, ct_read = ACCESS_ADMIN, ct_write = ACCESS_ADMIN, ct_data = str ''1234''\<rparr>,
   \<lparr>ct_id = CFG_ID_APN, ct_read = ACCESS_USER, ct_write = ACCESS_ADMIN, ct_data = str ''internet''\<rparr>,
   \<lparr>ct_id = CFG_ID_MODEM_BAND, ct_read = ACCESS_USER, ct_write = ACCESS_SYSTEM, ct_data = str ''0xF,0x8080085,0x8080085''\<rparr>,
   \<lparr>ct_id = CFG_ID_CMS_ACCOUNT, ct_read = ACCESS_USER, ct_write = ACCESS_ADMIN, ct_data = str ''0''\<rparr>,
   \<lparr>ct_id = CFG_ID_TRACER_ADDR, ct_read = ACCESS_USER, ct_write = ACCESS_ADMIN, ct_data = str ''0.0.0.0:5013''\<rparr>,
   \<lparr>ct_id = CFG_ID_TRACER_PARAM, ct_read = ACCESS_USER, ct_write = ACCESS_ADMIN, ct_data = str ''000000,10,30,300,0,3,0,3''\<rparr>,
   \<lparr>ct_id = CFG_ID_CMS_SERVER_ADDR, ct_read = ACCESS_USER, ct_write = ACCESS_ADMIN, ct_data = str ''0.0.0.0:4444''\<rparr>,
   \<lparr>ct_id = CFG_ID_UPDATE_SERVER_ADDR, ct_read = ACCESS_USER, ct_write = ACCESS_ADMIN, ct_data = str ''0.0.0.0:3333''\<rparr>,
   \<lparr>ct_id = CFG_ID_UPDATE_SERVER_KEY, ct_read = ACCESS_SYSTEM, ct_write = ACCESS_ADMIN, ct_data = str ''80feb47cae3c19274f2408d35398514c''\<rparr>,
   \<lparr>ct_id = CFG_ID_TIME_ZONE, ct_read = ACCESS_USER, ct_write = ACCESS_USER, ct_data = str ''1,1''\<rparr>,
   \<lparr>ct_id = CFG_ID_DEVICE_NAME, ct_read = ACCESS_USER, ct_write = ACCESS_ADMIN, ct_data = str ''Your alarm reports: ''\<rparr>,
   \<lparr>ct_id = CFG_ID_ADMIN_NAME, ct_read = ACCESS_USER, ct_write = ACCESS_ADMIN, ct_data = str ''Admin''\<rparr>,
   \<lparr>ct_id = CFG_ID_USER1_NAME, ct_read = ACCESS_USER, ct_write = ACCESS_USER, ct_data = str ''User 1''\<rparr>,
   \<lparr>ct_id = CFG_ID_USER2_NAME, ct_read = ACCESS_USER, ct_write = ACCESS_USER, ct_data = str ''User 2''\<rparr>,
   \<lparr>ct_id = CFG_ID_USER3_NAME, ct_read = ACCESS_USER, ct_write = ACCESS_USER, ct_data = str ''User 3''\<rparr>,
   \<lparr>ct_id = CFG_ID_USER4_NAME, ct_read = ACCESS_USER, ct_write = ACCESS_USER, ct_data = str ''User 4''\<rparr>,
   \<lparr>ct_id = CFG_ID_USER1_PHONE, ct_read = ACCESS_USER, ct_write = ACCESS_USER, ct_data = str ''''\<rparr>,
   \<lparr>ct_id = CFG_ID_USER2_PHONE, ct_read = ACCESS_USER, ct_write = ACCESS_USER, ct_data = str ''''\<rparr>,
   \<lparr>ct_id = CFG_ID_USER3_PHONE, ct_read = ACCESS_USER, ct_write = ACCESS_USER, ct_data = str ''''\<rparr>,
   \<lparr>ct_id = CFG_ID_USER4_PHONE, ct_read = ACCESS_USER, ct_write = ACCESS_USER, ct_data = str ''''\<rparr>,
   \<lparr>ct_id = CFG_ID_USER1_PASS, ct_read = ACCESS_ADMIN, ct_write = ACCESS_ADMIN, ct_data = str ''''\<rparr>,
   \<lparr>ct_id = CFG_ID_USER2_PASS, ct_read = ACCESS_ADMIN, ct_write = ACCESS_ADMIN, ct_data = str ''''\<rparr>,
   \<lparr>ct_id = CFG_ID_USER3_PASS, ct_read = ACCESS_ADMIN, ct_write = ACCESS_ADMIN, ct_data = str ''''\<rparr>,
   \<lparr>ct_id = CFG_ID_USER4_PASS, ct_read = ACCESS_ADMIN, ct_write = ACCESS_ADMIN, ct_data = str ''''\<rparr>,
   \<lparr>ct_id = CFG_ID_EVENT_SETUP_000, ct_read = ACCESS_USER, ct_write = ACCESS_USER, ct_data = str ''''\<rparr>,
   \<lparr>ct_id = CFG_ID_EVENT_SETUP_001, ct_read = ACCESS_USER, ct_write = ACCESS_USER, ct_data = str ''''\<rparr>,
   \<lparr>ct_id = CFG_ID_EVENT_SETUP_002, ct_read = ACCESS_USER, ct_write = ACCESS_USER, ct_data = str ''''\<rparr>,
   \<lparr>ct_id = CFG_ID_EVENT_SETUP_003, ct_read = ACCESS_USER, ct_write = ACCESS_USER, ct_data = str ''''\<rparr>,
   \<lparr>ct_id = CFG_ID_EVENT_SETUP_004, ct_read = ACCESS_USER, ct_write = ACCESS_USER, ct_data = str ''''\<rparr>,
   \<lparr>ct_id = CFG_ID_EVENT_SETUP_005, ct_read = ACCESS_USER, ct_write = ACCESS_USER, ct_data = str ''''\<rparr>,
   \<lparr>ct_id = CFG_ID_EVENT_SETUP_006, ct_read = ACCESS_USER, ct_write = ACCESS_USER, ct_data = str ''''\<rparr>,
   \<lparr>ct_id = CFG_ID_EVENT_SETUP_007, ct_read = ACCESS_USER, ct_write = ACCESS_USER, ct_data = str ''''\<rparr>,
   \<lparr>ct_id = CFG_ID_TEXT_EVENT_NAME_000, ct_read = ACCESS_USER, ct_write = ACCESS_ADMIN, ct_data = str ''Boot up''\<rparr>,
   \<lparr>ct_id = CFG_ID_TEXT_EVENT_NAME_001, ct_read = ACCESS_USER, ct_write = ACCESS_ADMIN, ct_data = str ''Shut down''\<rparr>,
   \<lparr>ct_id = CFG_ID_TEXT_EVENT_NAME_002, ct_read = ACCESS_USER, ct_write = ACCESS_ADMIN, ct_data = str ''Power fail''\<rparr>,
   \<lparr>ct_id = CFG_ID_TEXT_EVENT_NAME_003, ct_read = ACCESS_USER, ct_write = ACCESS_ADMIN, ct_data = str ''Power recovery''\<rparr>,
   \<lparr>ct_id = CFG_ID_TEXT_EVENT_NAME_004, ct_read = ACCESS_USER, ct_write = ACCESS_ADMIN, ct_data = str ''Battery LOW''\<rparr>,
   \<lparr>ct_id = CFG_ID_TEXT_EVENT_NAME_005, ct_read = ACCESS_USER, ct_write = ACCESS_ADMIN, ct_data = str ''Battery OK''\<rparr>,
   \<lparr>ct_id = CFG_ID_TEXT_EVENT_NAME_006, ct_read = ACCESS_USER, ct_write = ACCESS_ADMIN, ct_data = str ''Set''\<rparr>,
   \<lparr>ct_id = CFG_ID_TEXT_EVENT_NAME_007, ct_read = ACCESS_USER, ct_write = ACCESS_ADMIN, ct_data = str ''Unset''\<rparr>,
   \<lparr>ct_id = CFG_ID_TEXT_EVENT_NAME_008, ct_read = ACCESS_USER, ct_write = ACCESS_ADMIN, ct_data = str ''Alarm''\<rparr>,
   \<lparr>ct_id = CFG_ID_TEXT_EVENT_NAME_010, ct_read = ACCESS_USER, ct_write = ACCESS_ADMIN, ct_data = str ''Alarm cancel''\<rparr>,
   \<lparr>ct_id = CFG_ID_TEXT_EVENT_NAME_011, ct_read = ACCESS_USER, ct_write = ACCESS_ADMIN, ct_data = str ''Alarm timeout''\<rparr>,
   \<lparr>ct_id = CFG_ID_TEXT_EVENT_NAME_012, ct_read = ACCESS_USER, ct_write = ACCESS_ADMIN, ct_data = str ''Fault''\<rparr>,
   \<lparr>ct_id = CFG_ID_TEXT_EVENT_NAME_013, ct_read = ACCESS_USER, ct_write = ACCESS_ADMIN, ct_data = str ''Fault recovery''\<rparr>,
   \<lparr>ct_id = CFG_ID_TEXT_EVENT_NAME_014, ct_read = ACCESS_USER, ct_write = ACCESS_ADMIN, ct_data = str ''Jamming''\<rparr>,
   \<lparr>ct_id = CFG_ID_TEXT_EVENT_NAME_015, ct_read = ACCESS_USER, ct_write = ACCESS_ADMIN, ct_data = str ''No jamming''\<rparr>,
   \<lparr>ct_id = CFG_ID_TEXT_EVENT_NAME_016, ct_read = ACCESS_USER, ct_write = ACCESS_ADMIN, ct_data = str ''Track point''\<rparr>,
   \<lparr>ct_id = CFG_ID_TEXT_SOURCE_NAME_000, ct_read = ACCESS_USER, ct_write = ACCESS_ADMIN, ct_data = str ''Unknown''\<rparr>,
   \<lparr>ct_id = CFG_ID_TEXT_SOURCE_NAME_001, ct_read = ACCESS_USER, ct_write = ACCESS_ADMIN, ct_data = str ''Unit''\<rparr>,
   \<lparr>ct_id = CFG_ID_TEXT_SOURCE_NAME_002, ct_read = ACCESS_USER, ct_write = ACCESS_ADMIN, ct_data = str ''Ignition key''\<rparr>,
   \<lparr>ct_id = CFG_ID_TEXT_SOURCE_NAME_003, ct_read = ACCESS_USER, ct_write = ACCESS_ADMIN, ct_data = str ''Door''\<rparr>,
   \<lparr>ct_id = CFG_ID_TEXT_SOURCE_NAME_004, ct_read = ACCESS_USER, ct_write = ACCESS_ADMIN, ct_data = str ''Input 1''\<rparr>,
   \<lparr>ct_id = CFG_ID_TEXT_SOURCE_NAME_005, ct_read = ACCESS_USER, ct_write = ACCESS_ADMIN, ct_data = str ''Shock detector''\<rparr>,
   \<lparr>ct_id = CFG_ID_TEXT_SOURCE_NAME_006, ct_read = ACCESS_USER, ct_write = ACCESS_ADMIN, ct_data = str ''Lock''\<rparr>,
   \<lparr>ct_id = CFG_ID_TEXT_SOURCE_NAME_007, ct_read = ACCESS_USER, ct_write = ACCESS_ADMIN, ct_data = str ''Network''\<rparr>,
   \<lparr>ct_id = CFG_ID_TEXT_SOURCE_NAME_008, ct_read = ACCESS_USER, ct_write = ACCESS_ADMIN, ct_data = str ''Battery''\<rparr>,
   \<lparr>ct_id = CFG_ID_TEXT_SOURCE_NAME_009, ct_read = ACCESS_USER, ct_write = ACCESS_ADMIN, ct_data = str ''Input 2''\<rparr>,
   \<lparr>ct_id = CFG_ID_TEXT_SOURCE_NAME_010, ct_read = ACCESS_USER, ct_write = ACCESS_ADMIN, ct_data = str ''Input 3''\<rparr>,
   \<lparr>ct_id = CFG_ID_TEXT_SOURCE_NAME_011, ct_read = ACCESS_USER, ct_write = ACCESS_ADMIN, ct_data = str ''''\<rparr>,
   \<lparr>ct_id = CFG_ID_TEXT_SOURCE_NAME_012, ct_read = ACCESS_USER, ct_write = ACCESS_ADMIN, ct_data = str ''''\<rparr>,
   \<lparr>ct_id = CFG_ID_TEXT_SOURCE_NAME_013, ct_read = ACCESS_USER, ct_write = ACCESS_ADMIN, ct_data = str ''''\<rparr>,
   \<lparr>ct_id = CFG_ID_TEXT_SOURCE_NAME_014, ct_read = ACCESS_USER, ct_write = ACCESS_ADMIN, ct_data = str ''''\<rparr>,
   \<lparr>ct_id = CFG_ID_TEXT_SOURCE_NAME_015, ct_read = ACCESS_USER, ct_write = ACCESS_ADMIN, ct_data = str ''''\<rparr>
  ]"

subsection \<open>Operations\<close>

fun table_find :: "cfg_table list \<Rightarrow> u16 \<Rightarrow> cfg_table option" where
  "table_find [] cfg_id = None"
| "table_find (t # ts) cfg_id = (if ct_id t = cfg_id then Some t else table_find ts cfg_id)"

definition table_get :: "u16 \<Rightarrow> cfg_table option" where
  "table_get cfg_id = table_find CFG_TABLE cfg_id"

text \<open>\<open>cfg_table_get_id\<close> counts the end marker as a row.\<close>

definition cfg_table_get_id :: "u32 \<Rightarrow> u16" where
  "cfg_table_get_id row =
     (if unat row \<ge> length CFG_TABLE + 1 then CFG_ID_END
      else if unat row = length CFG_TABLE then CFG_ID_END
      else ct_id (CFG_TABLE ! unat row))"

definition cfg_table_default :: "u16 \<Rightarrow> u8 list option" where
  "cfg_table_default cfg_id =
     (case table_get cfg_id of None \<Rightarrow> None | Some t \<Rightarrow> Some (strncpy (ct_data t) CFG_ITEM_SIZE))"

definition cfg_table_access_read :: "u16 \<Rightarrow> u8 \<Rightarrow> bool" where
  "cfg_table_access_read cfg_id auth =
     (case table_get cfg_id of None \<Rightarrow> False | Some t \<Rightarrow> auth \<ge> ct_read t)"

definition cfg_table_access_write :: "u16 \<Rightarrow> u8 \<Rightarrow> bool" where
  "cfg_table_access_write cfg_id auth =
     (case table_get cfg_id of None \<Rightarrow> False | Some t \<Rightarrow> auth \<ge> ct_write t)"

subsection \<open>What the table promises\<close>

lemma table_find_set: "table_find ts i = Some t \<Longrightarrow> t \<in> set ts \<and> ct_id t = i"
  by (induction ts) (auto split: if_splits)

lemma table_find_distinct:
  "distinct (map ct_id ts) \<Longrightarrow> t \<in> set ts \<Longrightarrow> table_find ts (ct_id t) = Some t"
  by (induction ts) auto

text \<open>The checks of every row, in one pass over the table.\<close>

definition row_ok :: "cfg_table \<Rightarrow> bool" where
  "row_ok t \<longleftrightarrow> 0 \<notin> set (ct_data t) \<and> length (ct_data t) < CFG_ITEM_SIZE
     \<and> unat (ct_id t) * 64 + 64 \<le> 0x20000 \<and> ct_id t \<noteq> CFG_ID_END
     \<and> ACCESS_NONE < ct_read t \<and> ct_read t \<le> ACCESS_SYSTEM \<and> ACCESS_NONE < ct_write t \<and> ct_write t \<le> ACCESS_SYSTEM"

lemma table_rows_ok: "list_all row_ok CFG_TABLE"
  by (simp add: CFG_TABLE_def row_ok_def str_def)

lemma table_ids_distinct: "distinct (map ct_id CFG_TABLE)"
  by (simp add: CFG_TABLE_def)

lemma table_get_ok: "table_get i = Some t \<Longrightarrow> row_ok t \<and> ct_id t = i"
  using table_rows_ok table_find_set [of CFG_TABLE i t] by (auto simp: table_get_def list_all_iff)

lemma table_default_str: "cfg_table_default i = Some d \<Longrightarrow>
   \<exists>t. table_get i = Some t \<and> length d = CFG_ITEM_SIZE \<and> c_str d = Some (ct_data t)"
  by (auto simp: cfg_table_default_def dest!: table_get_ok intro!: c_str_strncpy split: option.splits)
     (auto simp: row_ok_def)

end
