(* ===== verification/Storage.thy ===== *)
theory Storage
  imports Prelude
begin

text \<open>
  \<open>app/storage.c\<close> and the write path of \<open>bootloader/ext_storage.c\<close>: the partition of
  the external flash into the configuration, GPS, event and firmware regions, and the bounds
  checks in front of every access.  The flash driver is part of the SDK: a device is a value
  that carries the driver's state and its three calls, and \<open>flash_lawful\<close> states what the
  code relies on.  The mutex around the calls has no effect on one caller.
\<close>

unbundle bit_operations_syntax

subsection \<open>The flash device of the SDK\<close>

record 'f flash =
  fl_state :: 'f
  fl_init :: "'f \<Rightarrow> 'f \<times> bool"
  fl_write :: "'f \<Rightarrow> u32 \<Rightarrow> u8 list \<Rightarrow> 'f \<times> bool"
  fl_read :: "'f \<Rightarrow> u32 \<Rightarrow> u32 \<Rightarrow> 'f \<times> u8 list option"
  fl_flush :: "'f \<Rightarrow> 'f"
  fl_maintenance :: "'f \<Rightarrow> 'f"

definition flash_init :: "'f flash \<Rightarrow> 'f flash \<times> bool" where
  "flash_init d = (let (s, r) = fl_init d (fl_state d) in (d\<lparr>fl_state := s\<rparr>, r))"

definition flash_write_data :: "'f flash \<Rightarrow> u32 \<Rightarrow> u8 list \<Rightarrow> 'f flash \<times> bool" where
  "flash_write_data d addr src = (let (s, r) = fl_write d (fl_state d) addr src in (d\<lparr>fl_state := s\<rparr>, r))"

definition flash_read_data :: "'f flash \<Rightarrow> u32 \<Rightarrow> u32 \<Rightarrow> 'f flash \<times> u8 list option" where
  "flash_read_data d addr len = (let (s, r) = fl_read d (fl_state d) addr len in (d\<lparr>fl_state := s\<rparr>, r))"

definition flash_flush_cache :: "'f flash \<Rightarrow> 'f flash" where
  "flash_flush_cache d = d\<lparr>fl_state := fl_flush d (fl_state d)\<rparr>"

definition flash_maintenance_task :: "'f flash \<Rightarrow> 'f flash" where
  "flash_maintenance_task d = d\<lparr>fl_state := fl_maintenance d (fl_state d)\<rparr>"

abbreviation (input) FLASH_SIZE :: nat where "FLASH_SIZE \<equiv> 4096 * 1024"

text \<open>
  \<open>mem\<close> reads the contents of a driver state.  A write changes nothing outside its range and,
  when it succeeds, stores the bytes; a read that succeeds returns the contents; reads, the
  flush and the maintenance change none of them.
\<close>

definition mem_range :: "('f \<Rightarrow> nat \<Rightarrow> u8) \<Rightarrow> 'f \<Rightarrow> nat \<Rightarrow> nat \<Rightarrow> u8 list" where
  "mem_range mem s a n = map (\<lambda>i. mem s (a + i)) [0..<n]"

definition flash_lawful :: "('f \<Rightarrow> nat \<Rightarrow> u8) \<Rightarrow> 'f flash \<Rightarrow> bool" where
  "flash_lawful mem d \<longleftrightarrow>
     (\<forall>s addr src s' r. fl_write d s addr src = (s', r) \<longrightarrow> unat addr + length src \<le> FLASH_SIZE \<longrightarrow>
        (\<forall>i. i < unat addr \<or> unat addr + length src \<le> i \<longrightarrow> mem s' i = mem s i)
        \<and> (r \<longrightarrow> mem_range mem s' (unat addr) (length src) = src)) \<and>
     (\<forall>s addr len s' r. fl_read d s addr len = (s', r) \<longrightarrow> unat addr + unat len \<le> FLASH_SIZE \<longrightarrow>
        mem s' = mem s \<and> (\<forall>bs. r = Some bs \<longrightarrow> bs = mem_range mem s (unat addr) (unat len))) \<and>
     (\<forall>s. mem (fl_flush d s) = mem s) \<and> (\<forall>s. mem (fl_maintenance d s) = mem s)"

subsection \<open>Regions\<close>

abbreviation (input) STORAGE_CFG_SPACE :: u32 where "STORAGE_CFG_SPACE \<equiv> 0x20000"
abbreviation (input) STORAGE_GPS_RECORDS_SPACE :: u32 where "STORAGE_GPS_RECORDS_SPACE \<equiv> 0x100000"
abbreviation (input) STORAGE_EVENT_MEM_SPACE :: u32 where "STORAGE_EVENT_MEM_SPACE \<equiv> 0x80000"
abbreviation (input) ADDR_CFG :: u32 where "ADDR_CFG \<equiv> 0"
abbreviation (input) ADDR_GPS :: u32 where "ADDR_GPS \<equiv> 0x20000"
abbreviation (input) ADDR_EVENT_MEM :: u32 where "ADDR_EVENT_MEM \<equiv> 0x120000"
abbreviation (input) FW_MAX_SIZE :: u32 where "FW_MAX_SIZE \<equiv> 0x40000"
abbreviation (input) FW_ADDR :: u32 where "FW_ADDR \<equiv> 0x3C0000"

record 'f storage =
  st_ready :: bool
  st_dev :: "'f flash"

definition storage_init :: "'f storage \<Rightarrow> 'f storage \<times> bool" where
  "storage_init st = (let (d, r) = flash_init (st_dev st) in (st\<lparr>st_dev := d, st_ready := r\<rparr>, r))"

definition dev_write :: "'f storage \<Rightarrow> u32 \<Rightarrow> u8 list \<Rightarrow> 'f storage \<times> bool" where
  "dev_write st addr src = (let (d, r) = flash_write_data (st_dev st) addr src in (st\<lparr>st_dev := d\<rparr>, r))"

definition dev_read :: "'f storage \<Rightarrow> u32 \<Rightarrow> u32 \<Rightarrow> 'f storage \<times> u8 list option" where
  "dev_read st addr len = (let (d, r) = flash_read_data (st_dev st) addr len in (st\<lparr>st_dev := d\<rparr>, r))"

text \<open>The length argument of a write is the length of its byte list; sums are 32-bit.\<close>

definition storage_write_fw :: "'f storage \<Rightarrow> u32 \<Rightarrow> u8 list \<Rightarrow> 'f storage \<times> bool" where
  "storage_write_fw st offset src =
     (if \<not> st_ready st then (st, False)
      else if offset + of_nat (length src) > FW_MAX_SIZE then (st, False)
      else dev_write st (FW_ADDR + offset) src)"

definition storage_write_cfg :: "'f storage \<Rightarrow> u32 \<Rightarrow> u8 list \<Rightarrow> 'f storage \<times> bool" where
  "storage_write_cfg st offset src =
     (if \<not> st_ready st then (st, False)
      else if offset + of_nat (length src) > STORAGE_CFG_SPACE then (st, False)
      else dev_write st (ADDR_CFG + offset) src)"

definition storage_read_cfg :: "'f storage \<Rightarrow> u32 \<Rightarrow> u32 \<Rightarrow> 'f storage \<times> u8 list option" where
  "storage_read_cfg st offset len =
     (if \<not> st_ready st then (st, None)
      else if offset + len > STORAGE_CFG_SPACE then (st, None)
      else dev_read st (ADDR_CFG + offset) len)"

definition storage_save_gps_data :: "'f storage \<Rightarrow> u32 \<Rightarrow> u8 list \<Rightarrow> 'f storage \<times> bool" where
  "storage_save_gps_data st offset src =
     (if offset + of_nat (length src) > STORAGE_GPS_RECORDS_SPACE then (st, False)
      else dev_write st (ADDR_GPS + offset) src)"

definition storage_get_gps_data :: "'f storage \<Rightarrow> u32 \<Rightarrow> u32 \<Rightarrow> 'f storage \<times> u8 list option" where
  "storage_get_gps_data st offset len =
     (if offset + len > STORAGE_GPS_RECORDS_SPACE then (st, None)
      else dev_read st (ADDR_GPS + offset) len)"

definition storage_write_event :: "'f storage \<Rightarrow> u32 \<Rightarrow> u8 list \<Rightarrow> 'f storage \<times> bool" where
  "storage_write_event st offset src =
     (if offset + of_nat (length src) > STORAGE_EVENT_MEM_SPACE then (st, False)
      else dev_write st (ADDR_EVENT_MEM + offset) src)"

definition storage_read_event :: "'f storage \<Rightarrow> u32 \<Rightarrow> u32 \<Rightarrow> 'f storage \<times> u8 list option" where
  "storage_read_event st offset len =
     (if offset + len > STORAGE_EVENT_MEM_SPACE then (st, None)
      else dev_read st (ADDR_EVENT_MEM + offset) len)"

definition storage_flush_cache :: "'f storage \<Rightarrow> 'f storage" where
  "storage_flush_cache st = st\<lparr>st_dev := flash_flush_cache (st_dev st)\<rparr>"

definition storage_maintenance :: "'f storage \<Rightarrow> 'f storage" where
  "storage_maintenance st = st\<lparr>st_dev := flash_maintenance_task (st_dev st)\<rparr>"

text \<open>\<open>ext_storage_write_data\<close> of the bootloader: an absolute address inside the firmware region.\<close>

definition ext_storage_write_data :: "'f storage \<Rightarrow> u32 \<Rightarrow> u8 list \<Rightarrow> 'f storage \<times> bool" where
  "ext_storage_write_data st addr src =
     (if \<not> st_ready st then (st, False)
      else if addr < FW_ADDR \<or> addr + of_nat (length src) > FW_ADDR + FW_MAX_SIZE then (st, False)
      else dev_write st addr src)"

subsection \<open>The contract of a region\<close>

definition st_mem :: "('f \<Rightarrow> nat \<Rightarrow> u8) \<Rightarrow> 'f storage \<Rightarrow> nat \<Rightarrow> u8" where
  "st_mem mem st = mem (fl_state (st_dev st))"

definition st_bytes :: "('f \<Rightarrow> nat \<Rightarrow> u8) \<Rightarrow> 'f storage \<Rightarrow> nat \<Rightarrow> nat \<Rightarrow> u8 list" where
  "st_bytes mem st a n = map (\<lambda>i. st_mem mem st (a + i)) [0..<n]"

lemma length_st_bytes [simp]: "length (st_bytes mem st a n) = n"
  by (simp add: st_bytes_def)

lemma st_bytes_cong:
  "(\<And>i. a \<le> i \<Longrightarrow> i < a + n \<Longrightarrow> st_mem mem st i = st_mem mem st' i) \<Longrightarrow>
   st_bytes mem st a n = st_bytes mem st' a n"
  by (auto simp: st_bytes_def)

text \<open>Only the contents change: the driver's calls and the ready flag stay.\<close>

definition st_same :: "'f storage \<Rightarrow> 'f storage \<Rightarrow> bool" where
  "st_same st st' \<longleftrightarrow> st_ready st' = st_ready st \<and> (\<exists>s. st_dev st' = (st_dev st)\<lparr>fl_state := s\<rparr>)"

lemma st_same_refl [simp]: "st_same st st"
  unfolding st_same_def by (metis flash.surjective flash.update_convs(1))

lemma st_same_trans: "st_same a b \<Longrightarrow> st_same b c \<Longrightarrow> st_same a c"
  by (auto simp: st_same_def)

lemma flash_lawful_state [simp]: "flash_lawful mem (d\<lparr>fl_state := s\<rparr>) = flash_lawful mem d"
  by (simp add: flash_lawful_def)

lemma st_same_lawful: "st_same st st' \<Longrightarrow> flash_lawful mem (st_dev st') = flash_lawful mem (st_dev st)"
  by (auto simp: st_same_def)

lemma flash_lawful_writeD:
  assumes "flash_lawful mem d" "fl_write d s addr src = (s', r)" "unat addr + length src \<le> FLASH_SIZE"
  shows "(\<forall>i. i < unat addr \<or> unat addr + length src \<le> i \<longrightarrow> mem s' i = mem s i)
        \<and> (r \<longrightarrow> mem_range mem s' (unat addr) (length src) = src)"
  using assms unfolding flash_lawful_def by blast

lemma flash_lawful_readD:
  assumes "flash_lawful mem d" "fl_read d s addr len = (s', r)" "unat addr + unat len \<le> FLASH_SIZE"
  shows "mem s' = mem s \<and> (\<forall>bs. r = Some bs \<longrightarrow> bs = mem_range mem s (unat addr) (unat len))"
  using assms unfolding flash_lawful_def by blast

lemma dev_write_law:
  assumes "flash_lawful mem (st_dev st)" "unat addr + length src \<le> FLASH_SIZE"
    and "dev_write st addr src = (st', r)"
  shows "st_same st st'
     \<and> (\<forall>i. i < unat addr \<or> unat addr + length src \<le> i \<longrightarrow> st_mem mem st' i = st_mem mem st i)
     \<and> (r \<longrightarrow> st_bytes mem st' (unat addr) (length src) = src)"
proof -
  obtain s' where w: "fl_write (st_dev st) (fl_state (st_dev st)) addr src = (s', r)"
    and st': "st' = st\<lparr>st_dev := (st_dev st)\<lparr>fl_state := s'\<rparr>\<rparr>"
    using assms(3) by (auto simp: dev_write_def flash_write_data_def split: prod.splits)
  then show ?thesis
    using flash_lawful_writeD [OF assms(1) w assms(2)]
    by (auto simp: st_same_def st_mem_def st_bytes_def mem_range_def)
qed

lemma dev_read_law:
  assumes "flash_lawful mem (st_dev st)" "unat addr + unat len \<le> FLASH_SIZE"
    and "dev_read st addr len = (st', r)"
  shows "st_same st st' \<and> st_mem mem st' = st_mem mem st
     \<and> (\<forall>bs. r = Some bs \<longrightarrow> bs = st_bytes mem st (unat addr) (unat len))"
proof -
  obtain s' where w: "fl_read (st_dev st) (fl_state (st_dev st)) addr len = (s', r)"
    and st': "st' = st\<lparr>st_dev := (st_dev st)\<lparr>fl_state := s'\<rparr>\<rparr>"
    using assms(3) by (auto simp: dev_read_def flash_read_data_def split: prod.splits)
  then show ?thesis
    using flash_lawful_readD [OF assms(1) w assms(2)]
    by (auto simp: st_same_def st_mem_def st_bytes_def mem_range_def)
qed

locale flash_region =
  fixes wr :: "'f storage \<Rightarrow> u32 \<Rightarrow> u8 list \<Rightarrow> 'f storage \<times> bool"
    and rd :: "'f storage \<Rightarrow> u32 \<Rightarrow> u32 \<Rightarrow> 'f storage \<times> u8 list option"
    and base :: nat and space :: nat and mem :: "'f \<Rightarrow> nat \<Rightarrow> u8"
  assumes wr_law: "flash_lawful mem (st_dev st) \<Longrightarrow> unat off + length src \<le> space \<Longrightarrow>
      wr st off src = (st', r) \<Longrightarrow>
      st_same st st'
      \<and> (\<forall>i. i < base + unat off \<or> base + unat off + length src \<le> i \<longrightarrow> st_mem mem st' i = st_mem mem st i)
      \<and> (r \<longrightarrow> st_bytes mem st' (base + unat off) (length src) = src)"
    and rd_law: "flash_lawful mem (st_dev st) \<Longrightarrow> unat off + unat len \<le> space \<Longrightarrow>
      rd st off len = (st', res) \<Longrightarrow>
      st_same st st' \<and> st_mem mem st' = st_mem mem st
      \<and> (\<forall>bs. res = Some bs \<longrightarrow> bs = st_bytes mem st (base + unat off) (unat len))"
begin

text \<open>The bytes at an offset of the region.\<close>

definition at :: "'f storage \<Rightarrow> nat \<Rightarrow> nat \<Rightarrow> u8 list" where
  "at st off n = st_bytes mem st (base + off) n"

lemma read_at:
  assumes "flash_lawful mem (st_dev st)" "unat off + unat len \<le> space" "rd st off len = (st', Some bs)"
  shows "bs = at st (unat off) (unat len)"
  using rd_law [OF assms(1,2,3)] by (simp add: at_def)

lemma read_keeps:
  assumes "flash_lawful mem (st_dev st)" "unat off + unat len \<le> space" "rd st off len = (st', r)"
  shows "flash_lawful mem (st_dev st')" "at st' = at st" "st_same st st'"
  using rd_law [OF assms] assms(1) by (auto simp: at_def st_bytes_def fun_eq_iff st_same_lawful)

lemma write_at:
  assumes "flash_lawful mem (st_dev st)" "unat off + length src \<le> space" "wr st off src = (st', r)"
  shows "flash_lawful mem (st_dev st')" "st_same st st'"
    and "r \<Longrightarrow> at st' (unat off) (length src) = src"
    and "a + n \<le> unat off \<or> unat off + length src \<le> a \<Longrightarrow> at st' a n = at st a n"
    and "i < base \<or> base + space \<le> i \<Longrightarrow> st_mem mem st' i = st_mem mem st i"
  using wr_law [OF assms] assms(1,2)
  by (auto simp: at_def st_same_lawful intro!: st_bytes_cong)

end

lemma region_unat:
  "unat off + n \<le> space \<Longrightarrow> base + space \<le> FLASH_SIZE \<Longrightarrow> unat (of_nat base + off) = base + unat off"
  for off :: u32
  by (simp add: unat_word_ariths unsigned_of_nat take_bit_nat_eq_self)

lemma region_sum:
  "unat off + n \<le> space \<Longrightarrow> space \<le> FLASH_SIZE \<Longrightarrow> unat (off + of_nat n) = unat off + n" for off :: u32
  by (simp add: unat_word_ariths unsigned_of_nat take_bit_nat_eq_self)

lemma region_sum_u32:
  "unat off + unat len \<le> space \<Longrightarrow> space \<le> FLASH_SIZE \<Longrightarrow> unat (off + len) = unat off + unat len"
  for off len :: u32
  by (simp add: unat_word_ariths)

lemmas region_simps = word_less_nat_alt region_sum region_sum_u32

interpretation cfg_region: flash_region storage_write_cfg storage_read_cfg "0" "0x20000" mem for mem
proof
  fix st st' :: "'a storage" and off :: u32 and src r
  assume "flash_lawful mem (st_dev st)" "unat off + length src \<le> 0x20000" "storage_write_cfg st off src = (st', r)"
  then show "st_same st st'
      \<and> (\<forall>i. i < 0 + unat off \<or> 0 + unat off + length src \<le> i \<longrightarrow> st_mem mem st' i = st_mem mem st i)
      \<and> (r \<longrightarrow> st_bytes mem st' (0 + unat off) (length src) = src)"
    using dev_write_law [of mem st off src st' r]
    by (auto simp: storage_write_cfg_def region_sum split: if_splits)
next
  fix st st' :: "'a storage" and off len :: u32 and r
  assume "flash_lawful mem (st_dev st)" "unat off + unat len \<le> 0x20000" "storage_read_cfg st off len = (st', r)"
  then show "st_same st st' \<and> st_mem mem st' = st_mem mem st
      \<and> (\<forall>bs. r = Some bs \<longrightarrow> bs = st_bytes mem st (0 + unat off) (unat len))"
    using dev_read_law [of mem st off len st' r]
    by (auto simp: storage_read_cfg_def split: if_splits)
qed

interpretation gps_region: flash_region storage_save_gps_data storage_get_gps_data "0x20000" "0x100000" mem for mem
proof
  fix st st' :: "'a storage" and off :: u32 and src r
  assume a: "flash_lawful mem (st_dev st)" "unat off + length src \<le> 0x100000" "storage_save_gps_data st off src = (st', r)"
  have "unat (ADDR_GPS + off) = 0x20000 + unat off" using region_unat [OF a(2), of "0x20000"] by simp
  with a show "st_same st st'
      \<and> (\<forall>i. i < 0x20000 + unat off \<or> 0x20000 + unat off + length src \<le> i \<longrightarrow> st_mem mem st' i = st_mem mem st i)
      \<and> (r \<longrightarrow> st_bytes mem st' (0x20000 + unat off) (length src) = src)"
    using dev_write_law [of mem st "ADDR_GPS + off" src st' r]
    by (auto simp: storage_save_gps_data_def split: if_splits)
next
  fix st st' :: "'a storage" and off len :: u32 and r
  assume a: "flash_lawful mem (st_dev st)" "unat off + unat len \<le> 0x100000" "storage_get_gps_data st off len = (st', r)"
  have "unat (ADDR_GPS + off) = 0x20000 + unat off" using region_unat [OF a(2), of "0x20000"] by simp
  with a show "st_same st st' \<and> st_mem mem st' = st_mem mem st
      \<and> (\<forall>bs. r = Some bs \<longrightarrow> bs = st_bytes mem st (0x20000 + unat off) (unat len))"
    using dev_read_law [of mem st "ADDR_GPS + off" len st' r]
    by (auto simp: storage_get_gps_data_def split: if_splits)
qed

interpretation event_region: flash_region storage_write_event storage_read_event "0x120000" "0x80000" mem for mem
proof
  fix st st' :: "'a storage" and off :: u32 and src r
  assume a: "flash_lawful mem (st_dev st)" "unat off + length src \<le> 0x80000" "storage_write_event st off src = (st', r)"
  have "unat (ADDR_EVENT_MEM + off) = 0x120000 + unat off" using region_unat [OF a(2), of "0x120000"] by simp
  with a show "st_same st st'
      \<and> (\<forall>i. i < 0x120000 + unat off \<or> 0x120000 + unat off + length src \<le> i \<longrightarrow> st_mem mem st' i = st_mem mem st i)
      \<and> (r \<longrightarrow> st_bytes mem st' (0x120000 + unat off) (length src) = src)"
    using dev_write_law [of mem st "ADDR_EVENT_MEM + off" src st' r]
    by (auto simp: storage_write_event_def split: if_splits)
next
  fix st st' :: "'a storage" and off len :: u32 and r
  assume a: "flash_lawful mem (st_dev st)" "unat off + unat len \<le> 0x80000" "storage_read_event st off len = (st', r)"
  have "unat (ADDR_EVENT_MEM + off) = 0x120000 + unat off" using region_unat [OF a(2), of "0x120000"] by simp
  with a show "st_same st st' \<and> st_mem mem st' = st_mem mem st
      \<and> (\<forall>bs. r = Some bs \<longrightarrow> bs = st_bytes mem st (0x120000 + unat off) (unat len))"
    using dev_read_law [of mem st "ADDR_EVENT_MEM + off" len st' r]
    by (auto simp: storage_read_event_def split: if_splits)
qed


subsection \<open>A RAM-backed device\<close>

definition ram_flash :: "(nat \<Rightarrow> u8) \<Rightarrow> (nat \<Rightarrow> u8) flash" where
  "ram_flash m = \<lparr>fl_state = m, fl_init = \<lambda>s. (s, True),
     fl_write = \<lambda>s addr src. (\<lambda>i. if unat addr \<le> i \<and> i < unat addr + length src
                                  then src ! (i - unat addr) else s i, True),
     fl_read = \<lambda>s addr len. (s, Some (map (\<lambda>i. s (unat addr + i)) [0..<unat len])),
     fl_flush = id, fl_maintenance = id\<rparr>"

lemma ram_flash_lawful [simp]: "flash_lawful id (ram_flash m)"
  by (auto simp: flash_lawful_def ram_flash_def mem_range_def intro!: nth_equalityI)

definition ram_storage :: "(nat \<Rightarrow> u8) \<Rightarrow> (nat \<Rightarrow> u8) storage" where
  "ram_storage m = \<lparr>st_ready = True, st_dev = ram_flash m\<rparr>"

lemma ram_storage_simps [simp]: "st_ready (ram_storage m)" "st_dev (ram_storage m) = ram_flash m"
  by (simp_all add: ram_storage_def)

text \<open>A device that never reports an error inside its range.\<close>

definition flash_reliable :: "'f flash \<Rightarrow> bool" where
  "flash_reliable d \<longleftrightarrow>
     (\<forall>s addr src. unat addr + length src \<le> FLASH_SIZE \<longrightarrow> snd (fl_write d s addr src)) \<and>
     (\<forall>s addr len. unat addr + unat len \<le> FLASH_SIZE \<longrightarrow> snd (fl_read d s addr len) \<noteq> None)"

lemma ram_flash_reliable [simp]: "flash_reliable (ram_flash m)"
  by (simp add: flash_reliable_def ram_flash_def)

lemma st_same_reliable: "st_same st st' \<Longrightarrow> flash_reliable (st_dev st') = flash_reliable (st_dev st)"
  by (auto simp: st_same_def flash_reliable_def)

lemma gps_write_reliable:
  assumes "flash_reliable (st_dev st)" "unat off + length src \<le> 0x100000"
  shows "snd (storage_save_gps_data st off src)"
proof -
  have "unat (ADDR_GPS + off) = 0x20000 + unat off" using region_unat [OF assms(2), of "0x20000"] by simp
  then show ?thesis using assms region_sum [OF assms(2)]
    by (simp add: storage_save_gps_data_def word_less_nat_alt dev_write_def flash_write_data_def Let_def
        flash_reliable_def split_def)
qed

lemma gps_read_reliable:
  assumes "flash_reliable (st_dev st)" "unat off + unat len \<le> 0x100000"
  shows "snd (storage_get_gps_data st off len) \<noteq> None"
proof -
  have "unat (ADDR_GPS + off) = 0x20000 + unat off" using region_unat [OF assms(2), of "0x20000"] by simp
  then show ?thesis using assms region_sum_u32 [OF assms(2)]
    by (simp add: storage_get_gps_data_def word_less_nat_alt dev_read_def flash_read_data_def Let_def
        flash_reliable_def split_def)
qed

subsection \<open>Properties\<close>

text \<open>C32: a write through a region's function changes no byte outside that region, and a range
that does not fit is refused without touching the device (as long as offset + length does not
wrap in 32 bits); this holds for the configuration, GPS, event and firmware regions.\<close>

theorem storage_write_isolated:
  assumes lawful: "flash_lawful mem (st_dev st)" and nowrap: "unat off + length src < 2 ^ 32"
    and w: "(wr, base, space) \<in> {(storage_write_cfg, 0, 0x20000), (storage_save_gps_data, 0x20000, 0x100000),
       (storage_write_event, 0x120000, 0x80000), (storage_write_fw, 0x3C0000, 0x40000)}"
    and run: "wr st off src = (st', r)"
  shows "(unat off + length src > space \<longrightarrow> st' = st \<and> \<not> r)
     \<and> (\<forall>i. i < base \<or> base + space \<le> i \<longrightarrow> st_mem mem st' i = st_mem mem st i)
     \<and> flash_lawful mem (st_dev st')"
proof -
  have sum: "unat (off + of_nat (length src)) = unat off + length src"
    using nowrap by (simp add: unat_word_ariths unsigned_of_nat take_bit_nat_eq_self)
  have fw: "storage_write_fw st off src = (st', r) \<Longrightarrow> unat off + length src \<le> 0x40000 \<Longrightarrow>
     (\<forall>i. i < 0x3C0000 \<or> 0x400000 \<le> i \<longrightarrow> st_mem mem st' i = st_mem mem st i) \<and> st_same st st'"
    using dev_write_law [OF lawful, of "FW_ADDR + off" src st' r] region_unat [of off _ "0x40000" "0x3C0000"] lawful
    by (auto simp: storage_write_fw_def split: if_splits)
  have refuse: "st' = st \<and> \<not> r" if "\<not> unat off + length src \<le> space"
    using that w run by (auto simp: storage_write_cfg_def storage_save_gps_data_def storage_write_event_def
        storage_write_fw_def word_less_nat_alt sum split: if_splits)
  have inside: "(\<forall>i. i < base \<or> base + space \<le> i \<longrightarrow> st_mem mem st' i = st_mem mem st i) \<and> st_same st st'"
    if fit: "unat off + length src \<le> space"
  proof -
    consider "wr = storage_write_cfg" "base = 0" "space = 0x20000"
      | "wr = storage_save_gps_data" "base = 0x20000" "space = 0x100000"
      | "wr = storage_write_event" "base = 0x120000" "space = 0x80000"
      | "wr = storage_write_fw" "base = 0x3C0000" "space = 0x40000"
      using w by blast
    then show ?thesis
    proof cases
      case 1
      show ?thesis using cfg_region.write_at(2,5) [OF lawful, of off src st' r] run fit unfolding 1 by blast
    next
      case 2
      show ?thesis using gps_region.write_at(2,5) [OF lawful, of off src st' r] run fit unfolding 2 by blast
    next
      case 3
      show ?thesis using event_region.write_at(2,5) [OF lawful, of off src st' r] run fit unfolding 3 by blast
    next
      case 4
      show ?thesis using fw run fit unfolding 4 by auto
    qed
  qed
  show ?thesis
    using refuse inside lawful st_same_lawful [of st st' mem] by (cases "unat off + length src \<le> space") auto
qed

theorem storage_write_isolated_witness:
  "\<exists>st' r. storage_write_event (ram_storage (\<lambda>_. 0)) 64 [1, 2, 3] = (st', r) \<and> st_mem id st' 0 = 0"
proof -
  obtain st' r where run: "storage_write_event (ram_storage (\<lambda>_. 0)) 64 [1, 2, 3] = (st', r)"
    by fastforce
  have "(\<forall>i. i < 0x120000 \<or> 0x120000 + 0x80000 \<le> i \<longrightarrow> st_mem id st' i = st_mem id (ram_storage (\<lambda>_. 0)) i)"
    using storage_write_isolated [where mem = id and wr = storage_write_event and base = "0x120000" and space = "0x80000"
        and st = "ram_storage (\<lambda>_. 0)" and off = 64 and src = "[1, 2, 3]"] run by simp
  then have "st_mem id st' 0 = st_mem id (ram_storage (\<lambda>_. 0)) 0" by simp
  also have "\<dots> = 0" by (simp add: st_mem_def ram_flash_def)
  finally show ?thesis using run by blast
qed

text \<open>The bounds check of \<open>ext_storage_write_data\<close> is computed in 32 bits and wraps: a
write of one byte at 0xFFFFFFFF, outside the firmware region and the device, passes it and reaches the
driver.\<close>

theorem ext_storage_write_wraps:
  "ext_storage_write_data \<lparr>st_ready = True, st_dev = d\<rparr> 0xFFFFFFFF [b]
     = dev_write \<lparr>st_ready = True, st_dev = d\<rparr> 0xFFFFFFFF [b]"
  by (simp add: ext_storage_write_data_def)

end
