(* ===== verification/Cfg.thy ===== *)
theory Cfg
  imports CfgTable Storage
begin

text \<open>
  \<open>app/cfg.c\<close>: configuration items of 62 bytes with a 16-bit checksum in 64-byte slots of
  the configuration region, the access checks in front of them, and the fall-back to the
  default text when the stored item does not check.  \<open>char\<close> is unsigned and \<open>u16\<close> is
  little-endian, as on the target.  The semaphore around the static buffer has no effect on one
  caller.
\<close>

unbundle bit_operations_syntax

subsection \<open>State\<close>

text \<open>Every write requests a re-initialisation by id; the requests are kept in order.\<close>

record 'f cfg_st =
  cf_store :: "'f storage"
  cf_reinit :: "u16 list"

record cfg_item =
  ci_data :: "u8 list"
  ci_chsum :: u16

definition item_bytes :: "cfg_item \<Rightarrow> u8 list" where
  "item_bytes it = ci_data it @ [ucast (ci_chsum it), ucast (drop_bit 8 (ci_chsum it))]"

definition item_of :: "u8 list \<Rightarrow> cfg_item" where
  "item_of bs = \<lparr>ci_data = take 62 bs, ci_chsum = ucast (bs ! 62) OR push_bit 8 (ucast (bs ! 63))\<rparr>"

fun cfg_chsum_loop :: "u16 \<Rightarrow> u8 list \<Rightarrow> u16" where
  "cfg_chsum_loop chsum [] = chsum"
| "cfg_chsum_loop chsum (c # cs) = cfg_chsum_loop (chsum + ucast c) cs"

definition cfg_chsum :: "u8 list \<Rightarrow> u16" where
  "cfg_chsum data = cfg_chsum_loop 0xaabc data"

definition cfg_valid :: "cfg_item \<Rightarrow> bool" where
  "cfg_valid it \<longleftrightarrow> cfg_chsum (ci_data it) = ci_chsum it"

definition cfg_addr :: "u16 \<Rightarrow> u32" where
  "cfg_addr i = ucast i * 64"

subsection \<open>Writing and reading\<close>

definition cfg_write :: "'f cfg_st \<Rightarrow> u16 \<Rightarrow> u8 list \<Rightarrow> u8 \<Rightarrow> 'f cfg_st \<times> bool" where
  "cfg_write cf i src auth =
     (if length src > CFG_ITEM_SIZE then (cf, False)
      else if \<not> cfg_table_access_write i auth then (cf, False)
      else let data = src @ replicate (CFG_ITEM_SIZE - length src) 0;
               (st, result) = storage_write_cfg (cf_store cf) (cfg_addr i)
                                (item_bytes \<lparr>ci_data = data, ci_chsum = cfg_chsum data\<rparr>)
           in (cf\<lparr>cf_store := st, cf_reinit := cf_reinit cf @ [i]\<rparr>, result))"

text \<open>
  The result of a read: the flag and the text appended to the destination.  \<open>None\<close> is a
  stored text without terminator, read past its array.
\<close>

definition cfg_read :: "'f cfg_st \<Rightarrow> u16 \<Rightarrow> u8 \<Rightarrow> 'f cfg_st \<times> (bool \<times> u8 list) option" where
  "cfg_read cf i auth =
     (if \<not> cfg_table_access_read i auth then (cf, Some (False, []))
      else case storage_read_cfg (cf_store cf) (cfg_addr i) 64 of
             (st, None) \<Rightarrow> (cf\<lparr>cf_store := st\<rparr>, Some (False, []))
           | (st, Some bs) \<Rightarrow>
               (cf\<lparr>cf_store := st\<rparr>,
                let it = item_of bs
                in if cfg_valid it then map_option (\<lambda>s. (True, s)) (c_str (ci_data it))
                   else case cfg_table_default i of
                          Some tmp \<Rightarrow> map_option (\<lambda>s. (True, s)) (c_str tmp)
                        | None \<Rightarrow> Some (False, str ''<missing '' @ show_nat (unat i) @ str ''>'')))"

text \<open>\<open>cfg_read_nparam\<close>: skip \<open>n\<close> commas, then one decimal number (0 when there is none).\<close>

fun nparam_loop :: "u8 list \<Rightarrow> int \<Rightarrow> int" where
  "nparam_loop [] n = 0"
| "nparam_loop (c # cs) n =
     (if n \<le> 0 then (case scan_d (c # cs) of Some (v, _) \<Rightarrow> v | None \<Rightarrow> 0)
      else nparam_loop cs (if c = 44 then n - 1 else n))"

definition cfg_read_nparam :: "'f cfg_st \<Rightarrow> u16 \<Rightarrow> int \<Rightarrow> 'f cfg_st \<times> int option" where
  "cfg_read_nparam cf i n =
     (case cfg_read cf i ACCESS_SYSTEM of
        (cf, None) \<Rightarrow> (cf, None)
      | (cf, Some (False, _)) \<Rightarrow> (cf, Some 0)
      | (cf, Some (True, text)) \<Rightarrow> (cf, Some (nparam_loop text n)))"

definition cfg_read_static :: "'f cfg_st \<Rightarrow> u16 \<Rightarrow> 'f cfg_st \<times> u8 list option option" where
  "cfg_read_static cf i =
     (case cfg_read cf i ACCESS_SYSTEM of
        (cf, None) \<Rightarrow> (cf, None)
      | (cf, Some (r, text)) \<Rightarrow> (cf, Some (if r then Some text else None)))"

subsection \<open>The slot of an item\<close>

lemma item_of_bytes:
  assumes "length (ci_data it) = 62"
  shows "item_of (item_bytes it) = it"
proof -
  have "ucast (ucast x :: u8) OR push_bit 8 (ucast (ucast (drop_bit 8 x) :: u8)) = x" for x :: u16
    by (rule bit_word_eqI) (auto simp: bit_simps not_less)
  then show ?thesis using assms by (simp add: item_of_def item_bytes_def nth_append)
qed

lemma length_item_bytes: "length (ci_data it) = 62 \<Longrightarrow> length (item_bytes it) = 64"
  by (simp add: item_bytes_def)

lemma cfg_addr_unat: "unat (cfg_addr i) = 64 * unat i"
proof -
  have "unat (ucast i :: u32) = unat i" by (rule unat_ucast_up) simp
  then show ?thesis using unat_u16_less [of i]
    by (simp add: cfg_addr_def unat_word_ariths mult.commute del: unat_u16_less)
qed

text \<open>The item stored for an id.\<close>

definition cfg_item_at :: "('f \<Rightarrow> nat \<Rightarrow> u8) \<Rightarrow> 'f cfg_st \<Rightarrow> u16 \<Rightarrow> cfg_item" where
  "cfg_item_at mem cf i = item_of (cfg_region.at mem (cf_store cf) (64 * unat i) 64)"

definition in_space :: "u16 \<Rightarrow> bool" where
  "in_space i \<longleftrightarrow> unat i < 2048"

lemma table_in_space: "table_get i = Some t \<Longrightarrow> in_space i"
  by (auto dest!: table_get_ok simp: row_ok_def in_space_def)

lemma cfg_write_item:
  assumes lw: "flash_lawful mem (st_dev (cf_store cf))"
    and run: "cfg_write cf i src auth = (cf', True)"
  shows "flash_lawful mem (st_dev (cf_store cf')) \<and> st_same (cf_store cf) (cf_store cf')
     \<and> length src \<le> 62 \<and> cfg_table_access_write i auth
     \<and> cfg_item_at mem cf' i = \<lparr>ci_data = src @ replicate (62 - length src) 0,
           ci_chsum = cfg_chsum (src @ replicate (62 - length src) 0)\<rparr>
     \<and> (\<forall>k. k \<noteq> i \<longrightarrow> cfg_item_at mem cf' k = cfg_item_at mem cf k)
     \<and> cf_reinit cf' = cf_reinit cf @ [i]"
proof -
  have len: "length src \<le> 62" and acc: "cfg_table_access_write i auth"
    using run by (auto simp: cfg_write_def split: if_splits)
  define it where "it = \<lparr>ci_data = src @ replicate (62 - length src) 0,
      ci_chsum = cfg_chsum (src @ replicate (62 - length src) 0)\<rparr>"
  have il: "length (ci_data it) = 62" using len by (simp add: it_def)
  obtain st where w: "storage_write_cfg (cf_store cf) (cfg_addr i) (item_bytes it) = (st, True)"
    and cf': "cf' = cf\<lparr>cf_store := st, cf_reinit := cf_reinit cf @ [i]\<rparr>"
    using run len acc by (auto simp: cfg_write_def it_def Let_def split: prod.splits)
  obtain t where "table_get i = Some t" using acc by (auto simp: cfg_table_access_write_def split: option.splits)
  then have "unat i < 2048" using table_in_space by (simp add: in_space_def)
  then have fit: "unat (cfg_addr i) + length (item_bytes it) \<le> 0x20000"
    by (simp add: cfg_addr_unat length_item_bytes [OF il])
  note R = cfg_region.write_at [OF lw fit w]
  have "cfg_item_at mem cf' k = cfg_item_at mem cf k" if "k \<noteq> i" for k
  proof -
    have "unat k < unat i \<or> unat i < unat k" using that by (simp add: neq_iff [symmetric])
    then have "64 * unat k + 64 \<le> unat (cfg_addr i) \<or> unat (cfg_addr i) + length (item_bytes it) \<le> 64 * unat k"
      unfolding cfg_addr_unat length_item_bytes [OF il] by (elim disjE) simp_all
    from R(4) [OF this] show ?thesis by (simp add: cfg_item_at_def cf')
  qed
  moreover have "cfg_item_at mem cf' i = it"
    using R(3) item_of_bytes [OF il] by (simp add: cfg_item_at_def cf' cfg_addr_unat length_item_bytes [OF il])
  ultimately show ?thesis using len acc R(1,2) by (simp add: it_def cf')
qed

lemma cfg_read_item:
  assumes lw: "flash_lawful mem (st_dev (cf_store cf))"
    and run: "cfg_read cf i auth = (cf', r)"
  shows "flash_lawful mem (st_dev (cf_store cf')) \<and> cfg_item_at mem cf' = cfg_item_at mem cf
     \<and> cf_reinit cf' = cf_reinit cf
     \<and> (r = Some (False, [])
        \<or> (\<exists>t. table_get i = Some t \<and> auth \<ge> ct_read t
             \<and> r = (if cfg_valid (cfg_item_at mem cf i)
                    then map_option (\<lambda>s. (True, s)) (c_str (ci_data (cfg_item_at mem cf i)))
                    else Some (True, ct_data t))))"
proof (cases "cfg_table_access_read i auth")
  case False
  then show ?thesis using run lw by (simp add: cfg_read_def)
next
  case True
  then obtain t where t: "table_get i = Some t" "auth \<ge> ct_read t"
    by (auto simp: cfg_table_access_read_def split: option.splits)
  have fit: "unat (cfg_addr i) + unat (64 :: u32) \<le> 0x20000"
    using table_in_space [OF t(1)] by (simp add: cfg_addr_unat in_space_def)
  obtain st bs where rd: "storage_read_cfg (cf_store cf) (cfg_addr i) 64 = (st, bs)" by fastforce
  note K = cfg_region.read_keeps [OF lw fit rd]
  have cf': "cf' = cf\<lparr>cf_store := st\<rparr>"
    using run True rd by (auto simp: cfg_read_def split: option.splits)
  have same: "cfg_item_at mem cf' = cfg_item_at mem cf" using K(2) by (simp add: cfg_item_at_def cf' fun_eq_iff)
  obtain d where d: "cfg_table_default i = Some d" "c_str d = Some (ct_data t)"
    using t(1) table_default_str [of i] by (auto simp: cfg_table_default_def)
  show ?thesis
  proof (cases bs)
    case None
    then show ?thesis using run True rd same K(1) by (auto simp: cfg_read_def)
  next
    case (Some b)
    have "item_of b = cfg_item_at mem cf i"
      using cfg_region.read_at [OF lw fit, of st b] rd Some by (simp add: cfg_item_at_def cfg_addr_unat)
    then show ?thesis using run True rd Some same K(1) t d by (auto simp: cfg_read_def Let_def)
  qed
qed

text \<open>A driver that does not fail answers every read of a row's slot.\<close>

lemma cfg_slot_read:
  assumes "flash_reliable (st_dev st)" "st_ready st" "table_get i = Some t"
  shows "snd (storage_read_cfg st (cfg_addr i) 64) \<noteq> None"
proof -
  have fit: "unat (cfg_addr i) + unat (64 :: u32) \<le> 0x20000"
    using table_in_space [OF assms(3)] by (simp add: cfg_addr_unat in_space_def)
  then have "\<not> cfg_addr i + 64 > STORAGE_CFG_SPACE"
    using region_sum_u32 [OF fit] by (simp add: word_less_nat_alt)
  then show ?thesis
    using assms fit by (simp add: storage_read_cfg_def dev_read_def flash_read_data_def Let_def flash_reliable_def split_def)
qed

lemma cfg_read_answers:
  assumes "flash_reliable (st_dev (cf_store cf))" "st_ready (cf_store cf)" "table_get i = Some t" "ct_read t \<le> auth"
  shows "snd (cfg_read cf i auth) \<noteq> Some (False, [])"
  using cfg_slot_read [OF assms(1-3)] assms(3,4) table_default_str [of i]
  by (auto simp: cfg_read_def cfg_table_access_read_def cfg_table_default_def Let_def split: prod.splits option.splits)

lemma cfg_write_ready: "cfg_write cf i src auth = (cf', True) \<Longrightarrow> st_ready (cf_store cf)"
  by (auto simp: cfg_write_def storage_write_cfg_def Let_def split: if_splits prod.splits)

subsection \<open>Properties\<close>

text \<open>C13: an item written with the right to do so is read back unchanged by every reader
whose access level reaches the read level of its table row, unless the flash driver itself reports an
error on the read; every other reader is refused and gets no text. The item is shorter than 62
bytes and has no zero byte. No other item changes and a re-initialisation is requested for exactly
this id.\<close>

theorem cfg_write_read:
  assumes "flash_lawful mem (st_dev (cf_store cf))"
    and "cfg_write cf i src auth = (cf', True)" "length src < CFG_ITEM_SIZE" "0 \<notin> set src"
    and "cfg_read cf' i auth' = (cf'', r)"
  shows "(\<exists>t \<in> set CFG_TABLE. ct_id t = i \<and> ct_write t \<le> auth
       \<and> (if ct_read t \<le> auth'
          then r = Some (True, src) \<or> \<not> flash_reliable (st_dev (cf_store cf)) \<and> r = Some (False, [])
          else r = Some (False, [])))
     \<and> (\<forall>k. k \<noteq> i \<longrightarrow> cfg_item_at mem cf'' k = cfg_item_at mem cf k) \<and> cf_reinit cf'' = cf_reinit cf @ [i]"
proof -
  from cfg_write_item [OF assms(1,2)] have lw: "flash_lawful mem (st_dev (cf_store cf'))"
    and same: "st_same (cf_store cf) (cf_store cf')" and ready: "st_ready (cf_store cf)"
    and it: "cfg_item_at mem cf' i = \<lparr>ci_data = src @ replicate (62 - length src) 0,
           ci_chsum = cfg_chsum (src @ replicate (62 - length src) 0)\<rparr>"
    and rest: "cfg_table_access_write i auth" "\<forall>k. k \<noteq> i \<longrightarrow> cfg_item_at mem cf' k = cfg_item_at mem cf k"
      "cf_reinit cf' = cf_reinit cf @ [i]"
    using cfg_write_ready [OF assms(2)] by auto
  have valid: "cfg_valid (cfg_item_at mem cf' i)" "c_str (ci_data (cfg_item_at mem cf' i)) = Some src"
    using assms(3,4) by (simp_all add: it cfg_valid_def c_str_pad)
  obtain t where t: "table_get i = Some t" "ct_write t \<le> auth"
    using rest(1) by (auto simp: cfg_table_access_write_def split: option.splits)
  note R = cfg_read_item [OF lw assms(5)]
  have "r = Some (True, src) \<or> \<not> flash_reliable (st_dev (cf_store cf)) \<and> r = Some (False, [])"
    if "ct_read t \<le> auth'"
  proof -
    have "r \<noteq> Some (False, [])" if "flash_reliable (st_dev (cf_store cf))"
      using cfg_read_answers [OF _ _ t(1) \<open>ct_read t \<le> auth'\<close>, of cf'] assms(5) same ready that
        st_same_reliable [OF same] by (auto simp: st_same_def)
    then show ?thesis using R valid by auto
  qed
  moreover have "r = Some (False, [])" if "\<not> ct_read t \<le> auth'"
    using R t that by auto
  moreover have "t \<in> set CFG_TABLE \<and> ct_id t = i" using table_find_set t(1) by (auto simp: table_get_def)
  ultimately show ?thesis using t(2) R rest(2,3) by auto
qed

text \<open>A stored item whose checksum does not match is never returned: the read gives the
default text of the table; reading needs the access level of the row and an id of the table, and
changes nothing.\<close>

theorem cfg_read_default:
  assumes "flash_lawful mem (st_dev (cf_store cf))" "\<not> cfg_valid (cfg_item_at mem cf i)"
    and "cfg_read cf i auth = (cf', r)"
  shows "(r = Some (False, []) \<or> (\<exists>t. t \<in> set CFG_TABLE \<and> ct_id t = i \<and> auth \<ge> ct_read t \<and> r = Some (True, ct_data t)))
     \<and> cfg_item_at mem cf' = cfg_item_at mem cf \<and> cf_reinit cf' = cf_reinit cf"
  using cfg_read_item [OF assms(1,3)] assms(2) table_find_set [of CFG_TABLE i] by (auto simp: table_get_def)

text \<open>An item of exactly 62 bytes is accepted by \<open>cfg_write\<close> but has no terminator in its
array, so that \<open>cfg_read\<close> reads past it (into the checksum).\<close>

theorem cfg_full_item_overread:
  assumes "flash_lawful mem (st_dev (cf_store cf))"
    and "cfg_write cf i src auth = (cf', True)" "length src = CFG_ITEM_SIZE" "0 \<notin> set src"
    and "cfg_read cf' i auth' = (cf'', r)"
  shows "r = Some (False, []) \<or> r = None"
proof -
  from cfg_write_item [OF assms(1,2)] have lw: "flash_lawful mem (st_dev (cf_store cf'))"
    and it: "cfg_item_at mem cf' i = \<lparr>ci_data = src, ci_chsum = cfg_chsum src\<rparr>" using assms(3) by auto
  have "c_str src = None" using assms(4) by (simp add: c_str_def)
  then show ?thesis using cfg_read_item [OF lw assms(5)] it by (auto simp: cfg_valid_def)
qed

subsubsection \<open>Instances\<close>

definition ex_cfg :: "(nat \<Rightarrow> u8) \<Rightarrow> (nat \<Rightarrow> u8) cfg_st" where
  "ex_cfg m = \<lparr>cf_store = ram_storage m, cf_reinit = []\<rparr>"

lemma ram_write_cfg:
  "storage_write_cfg (ram_storage m) i src =
     (if i + of_nat (length src) > STORAGE_CFG_SPACE then (ram_storage m, False)
      else (ram_storage (\<lambda>k. if unat i \<le> k \<and> k < unat i + length src then src ! (k - unat i) else m k), True))"
  by (simp add: storage_write_cfg_def dev_write_def flash_write_data_def ram_storage_def ram_flash_def)

lemma ram_read_cfg:
  "storage_read_cfg (ram_storage m) i len = (ram_storage m,
     if i + len > STORAGE_CFG_SPACE then None else Some (map (\<lambda>k. m (unat i + k)) [0..<unat len]))"
  by (simp add: storage_read_cfg_def dev_read_def flash_read_data_def ram_storage_def ram_flash_def)

lemma table_get_apn: "table_get CFG_ID_APN =
   Some \<lparr>ct_id = CFG_ID_APN, ct_read = ACCESS_USER, ct_write = ACCESS_ADMIN, ct_data = str ''internet''\<rparr>"
  by (simp add: table_get_def CFG_TABLE_def)

lemma ex_cfg_written:
  assumes "length src \<le> CFG_ITEM_SIZE"
  obtains cf' where "cfg_write (ex_cfg (\<lambda>_. 0xFF)) CFG_ID_APN src ACCESS_ADMIN = (cf', True)" "\<exists>m. cf_store cf' = ram_storage m"
proof -
  have "length (item_bytes \<lparr>ci_data = src @ replicate (62 - length src) 0, ci_chsum = c\<rparr>) = 64" for c
    using assms by (simp add: item_bytes_def)
  then show ?thesis using assms that
    by (auto simp: cfg_write_def ex_cfg_def cfg_table_access_write_def table_get_apn ram_write_cfg cfg_addr_def Let_def)
qed

lemma ex_cfg_reads:
  assumes "cf_store cf = ram_storage m"
  shows "snd (cfg_read cf CFG_ID_APN ACCESS_USER) \<noteq> Some (False, [])"
  using assms
  by (auto simp: cfg_read_def cfg_table_access_read_def table_get_apn ram_read_cfg cfg_addr_def Let_def
      cfg_table_default_def split: option.splits)

theorem cfg_write_read_witness:
  "\<exists>cf' cf''. cfg_write (ex_cfg (\<lambda>_. 0xFF)) CFG_ID_APN (str ''net'') ACCESS_ADMIN = (cf', True)
     \<and> cfg_read cf' CFG_ID_APN ACCESS_USER = (cf'', Some (True, str ''net''))"
proof -
  obtain cf' where w: "cfg_write (ex_cfg (\<lambda>_. 0xFF)) CFG_ID_APN (str ''net'') ACCESS_ADMIN = (cf', True)"
    and s: "\<exists>m. cf_store cf' = ram_storage m"
    by (rule ex_cfg_written [of "str ''net''"]) (simp add: str_def)
  obtain cf'' r where rd: "cfg_read cf' CFG_ID_APN ACCESS_USER = (cf'', r)" by fastforce
  have "r \<noteq> Some (False, [])" using s ex_cfg_reads rd by fastforce
  moreover have "t \<in> set CFG_TABLE \<Longrightarrow> ct_id t = CFG_ID_APN \<Longrightarrow> ct_read t = ACCESS_USER" for t
    using table_find_distinct [OF table_ids_distinct, of t] table_get_apn by (simp add: table_get_def)
  ultimately have "r = Some (True, str ''net'')"
    using cfg_write_read [where mem = id, OF _ w _ _ rd] by (auto simp: ex_cfg_def str_def)
  then show ?thesis using w rd by blast
qed

theorem cfg_read_default_witness:
  "\<exists>cf'. cfg_read (ex_cfg (\<lambda>_. 0xFF)) CFG_ID_APN ACCESS_USER = (cf', Some (True, str ''internet''))"
proof -
  obtain cf' r where rd: "cfg_read (ex_cfg (\<lambda>_. 0xFF)) CFG_ID_APN ACCESS_USER = (cf', r)" by fastforce
  have "r \<noteq> Some (False, [])" using ex_cfg_reads [of "ex_cfg (\<lambda>_. 0xFF)" "\<lambda>_. 0xFF"] rd by (simp add: ex_cfg_def)
  moreover have "\<not> cfg_valid (cfg_item_at id (ex_cfg (\<lambda>_. 0xFF)) CFG_ID_APN)"
    by (simp add: cfg_valid_def cfg_item_at_def ex_cfg_def cfg_region.at_def st_bytes_def st_mem_def ram_flash_def
        item_of_def cfg_chsum_def upt_rec)
  moreover have "t \<in> set CFG_TABLE \<Longrightarrow> ct_id t = CFG_ID_APN \<Longrightarrow> ct_data t = str ''internet''" for t
    using table_find_distinct [OF table_ids_distinct, of t] table_get_apn by (simp add: table_get_def)
  ultimately show ?thesis using cfg_read_default [where mem = id, OF _ _ rd] rd by (auto simp: ex_cfg_def)
qed

theorem cfg_full_item_overread_witness:
  "\<exists>cf' cf''. cfg_write (ex_cfg (\<lambda>_. 0xFF)) CFG_ID_APN (replicate 62 65) ACCESS_ADMIN = (cf', True)
     \<and> cfg_read cf' CFG_ID_APN ACCESS_USER = (cf'', None)"
proof -
  obtain cf' where w: "cfg_write (ex_cfg (\<lambda>_. 0xFF)) CFG_ID_APN (replicate 62 65) ACCESS_ADMIN = (cf', True)"
    and s: "\<exists>m. cf_store cf' = ram_storage m"
    by (rule ex_cfg_written [of "replicate 62 65"]) simp
  obtain cf'' r where rd: "cfg_read cf' CFG_ID_APN ACCESS_USER = (cf'', r)" by fastforce
  have "r \<noteq> Some (False, [])" using s ex_cfg_reads rd by fastforce
  with cfg_full_item_overread [where mem = id, OF _ w _ _ rd] w rd show ?thesis by (auto simp: ex_cfg_def)
qed

end
