(* ===== verification/Out.thy ===== *)
theory Out
  imports Cfg
begin

text \<open>
  \<open>app/out.c\<close>: the three physical outputs (lock, unlock, siren), the table that exports bits
  of \<open>system_io_state\<close> to them, and its override by the configuration.  The pins are driven
  high when on; the levels of the lock and unlock sense inputs are parameters.
\<close>

unbundle bit_operations_syntax

subsection \<open>State\<close>

abbreviation (input) SYSTEM_IO_INP1 :: u32 where "SYSTEM_IO_INP1 \<equiv> 0x1"
abbreviation (input) SYSTEM_IO_INP2 :: u32 where "SYSTEM_IO_INP2 \<equiv> 0x2"
abbreviation (input) SYSTEM_IO_DOOR :: u32 where "SYSTEM_IO_DOOR \<equiv> 0x4"
abbreviation (input) SYSTEM_IO_KEY :: u32 where "SYSTEM_IO_KEY \<equiv> 0x8"
abbreviation (input) SYSTEM_IO_SHOCK :: u32 where "SYSTEM_IO_SHOCK \<equiv> 0x20"
abbreviation (input) SYSTEM_IO_INP3 :: u32 where "SYSTEM_IO_INP3 \<equiv> 0x40"
abbreviation (input) SYSTEM_IO_TRACING :: u32 where "SYSTEM_IO_TRACING \<equiv> 0x8000"
abbreviation (input) SYSTEM_IO_TRACK :: u32 where "SYSTEM_IO_TRACK \<equiv> 0x10000"
abbreviation (input) SYSTEM_IO_LOCK :: u32 where "SYSTEM_IO_LOCK \<equiv> 0x20000"
abbreviation (input) SYSTEM_IO_UNLOCK :: u32 where "SYSTEM_IO_UNLOCK \<equiv> 0x40000"
abbreviation (input) SYSTEM_IO_SIREN :: u32 where "SYSTEM_IO_SIREN \<equiv> 0x80000"

abbreviation (input) OUT_LOCK :: u8 where "OUT_LOCK \<equiv> 0"
abbreviation (input) OUT_UNLOCK :: u8 where "OUT_UNLOCK \<equiv> 1"
abbreviation (input) OUT_SIREN :: u8 where "OUT_SIREN \<equiv> 2"
abbreviation (input) OUT_SIZE :: u8 where "OUT_SIZE \<equiv> 3"

text \<open>The levels of the two sense inputs (\<open>HW_LOCK_IN\<close>, \<open>HW_UNLOCK_IN\<close>).\<close>

record hw_sense =
  hw_lock_in :: bool
  hw_unlock_in :: bool

record out_st =
  ou_table :: "u32 list"
  ou_state :: u32
  ou_lock :: bool
  ou_unlock :: bool
  ou_siren :: bool

definition out_table_default :: "u32 list" where
  "out_table_default = [SYSTEM_IO_LOCK, SYSTEM_IO_UNLOCK, SYSTEM_IO_SIREN]"

definition bit32 :: "nat \<Rightarrow> u32" where
  "bit32 n = push_bit n 1"

subsection \<open>Operations\<close>

definition out_bit_valid :: "int \<Rightarrow> bool" where
  "out_bit_valid b \<longleftrightarrow> b \<ge> 0 \<and> b < 32"

definition out_set :: "hw_sense \<Rightarrow> out_st \<Rightarrow> u8 \<Rightarrow> bool \<Rightarrow> out_st" where
  "out_set hw o' pin state =
     (if pin \<ge> OUT_SIZE then o'
      else if state then
        (if ou_state o' AND bit32 (unat pin) \<noteq> 0 then o'
         else if pin = OUT_LOCK then
           (if \<not> hw_unlock_in hw then o'
            else o'\<lparr>ou_lock := True, ou_state := ou_state o' OR bit32 (unat pin)\<rparr>)
         else if pin = OUT_UNLOCK then
           (if \<not> hw_lock_in hw then o'
            else o'\<lparr>ou_unlock := True, ou_state := ou_state o' OR bit32 (unat pin)\<rparr>)
         else o'\<lparr>ou_siren := True, ou_state := ou_state o' OR bit32 (unat pin)\<rparr>)
      else
        (if ou_state o' AND bit32 (unat pin) = 0 then o'
         else (if pin = OUT_LOCK then o'\<lparr>ou_lock := False\<rparr>
               else if pin = OUT_UNLOCK then o'\<lparr>ou_unlock := False\<rparr>
               else o'\<lparr>ou_siren := False\<rparr>)\<lparr>ou_state := ou_state o' AND NOT (bit32 (unat pin))\<rparr>))"

fun out_update_loop :: "hw_sense \<Rightarrow> u32 \<Rightarrow> nat \<Rightarrow> nat \<Rightarrow> out_st \<Rightarrow> out_st option" where
  "out_update_loop hw io 0 i o' = Some o'"
| "out_update_loop hw io (Suc n) i o' =
     do { m \<leftarrow> arr_get (ou_table o') i;
          out_update_loop hw io n (Suc i) (out_set hw o' (of_nat i) (io AND m \<noteq> 0)) }"

definition out_update :: "hw_sense \<Rightarrow> u32 \<Rightarrow> out_st \<Rightarrow> out_st option" where
  "out_update hw io o' = out_update_loop hw io 3 0 o'"

definition out_table_reinit :: "hw_sense \<Rightarrow> u32 \<Rightarrow> 'f cfg_st \<Rightarrow> out_st \<Rightarrow> ('f cfg_st \<times> out_st) option" where
  "out_table_reinit hw io cf o' =
     (let o' = o'\<lparr>ou_table := out_table_default\<rparr>; (cf, r) = cfg_read cf CFG_ID_OUT_MAP ACCESS_SYSTEM
      in do { (ok, text) \<leftarrow> r;
              let o' = (case (ok, scan_csv 3 text) of
                          (True, [l, u, s]) \<Rightarrow>
                            if out_bit_valid l \<and> out_bit_valid u \<and> out_bit_valid s
                            then o'\<lparr>ou_table := [bit32 (nat l), bit32 (nat u), bit32 (nat s)]\<rparr> else o'
                        | _ \<Rightarrow> o');
              o' \<leftarrow> out_update hw io o';
              Some (cf, o') })"

definition out_init :: "hw_sense \<Rightarrow> u32 \<Rightarrow> 'f cfg_st \<Rightarrow> out_st \<Rightarrow> ('f cfg_st \<times> out_st \<times> bool) option" where
  "out_init hw io cf o' =
     do { (cf, o') \<leftarrow> out_table_reinit hw io cf (o'\<lparr>ou_siren := False, ou_lock := False, ou_unlock := False, ou_state := 0\<rparr>);
          Some (cf, o', True) }"

definition out_name :: "int \<Rightarrow> u8 list" where
  "out_name pin =
     (if pin = 0 then str ''LOCK'' else if pin = 1 then str ''UNLOCK''
      else if pin = 2 then str ''SIREN'' else str ''unknown'')"

subsection \<open>The state word mirrors the pins\<close>

definition out_wf :: "out_st \<Rightarrow> bool" where
  "out_wf o' \<longleftrightarrow> length (ou_table o') = 3 \<and> bit (ou_state o') 0 = ou_lock o' \<and> bit (ou_state o') 1 = ou_unlock o'
     \<and> bit (ou_state o') 2 = ou_siren o' \<and> (\<forall>n \<ge> 3. \<not> bit (ou_state o') n)"

lemma and_bit32: "x AND bit32 n = 0 \<longleftrightarrow> \<not> bit x n" for x :: u32
  unfolding bit32_def by (rule and_pow2)

text \<open>The pin that \<open>out_set\<close> drives.\<close>

definition out_on :: "out_st \<Rightarrow> u8 \<Rightarrow> bool" where
  "out_on o' pin = (if pin = OUT_LOCK then ou_lock o' else if pin = OUT_UNLOCK then ou_unlock o' else ou_siren o')"

definition out_allowed :: "hw_sense \<Rightarrow> u8 \<Rightarrow> bool" where
  "out_allowed hw pin = (if pin = OUT_LOCK then hw_unlock_in hw else if pin = OUT_UNLOCK then hw_lock_in hw else True)"

lemma bit_bit32: "bit (bit32 n) m \<longleftrightarrow> m = n \<and> n < 32"
  by (auto simp: bit32_def bit_simps)

lemma pin_cases: "p < OUT_SIZE \<Longrightarrow> p = OUT_LOCK \<or> p = OUT_UNLOCK \<or> p = OUT_SIREN" for p :: u8
proof -
  assume "p < OUT_SIZE"
  then have "unat p < 3" by (simp add: word_less_nat_alt)
  then have "unat p = 0 \<or> unat p = 1 \<or> unat p = 2" by auto
  then show ?thesis by (auto simp: word_unat_eq_iff simp del: inj_unat_word)
qed

lemma out_set_spec:
  assumes wf: "out_wf o'" and p: "p < OUT_SIZE"
  shows "out_wf (out_set hw o' p st) \<and> ou_table (out_set hw o' p st) = ou_table o'
     \<and> out_on (out_set hw o' p st) p = (st \<and> (out_on o' p \<or> out_allowed hw p))
     \<and> (\<forall>q < OUT_SIZE. q \<noteq> p \<longrightarrow> out_on (out_set hw o' p st) q = out_on o' q)"
  using wf pin_cases [OF p] p [unfolded not_le [symmetric]]
  by (elim disjE) (auto simp: out_set_def out_wf_def out_on_def out_allowed_def and_bit32 bit_bit32 bit_simps
      dest: pin_cases)

lemma out_update_unfold:
  "out_update hw io o' =
     do { m0 \<leftarrow> arr_get (ou_table o') 0; let a = out_set hw o' 0 (io AND m0 \<noteq> 0);
          m1 \<leftarrow> arr_get (ou_table a) 1; let b = out_set hw a 1 (io AND m1 \<noteq> 0);
          m2 \<leftarrow> arr_get (ou_table b) 2; Some (out_set hw b 2 (io AND m2 \<noteq> 0)) }"
  by (simp add: out_update_def numeral_3_eq_3 numeral_2_eq_2 Let_def)

text \<open>\<open>out_update\<close> drives every output from its bit of \<open>system_io_state\<close>: an output whose
bit is clear goes off, one whose bit is set goes on unless the opposite sense line blocks it (lock by
an active unlock line, unlock by an active lock line), the state word mirrors the three pins, and the
table is unchanged.\<close>

theorem out_update_drives:
  assumes "out_wf o'"
  shows "\<exists>o''. out_update hw io o' = Some o'' \<and> out_wf o'' \<and> ou_table o'' = ou_table o'
     \<and> (\<forall>p < OUT_SIZE. out_on o'' p = (io AND ou_table o' ! unat p \<noteq> 0 \<and> (out_on o' p \<or> out_allowed hw p)))"
proof -
  define a where "a = out_set hw o' 0 (io AND ou_table o' ! 0 \<noteq> 0)"
  define b where "b = out_set hw a 1 (io AND ou_table o' ! 1 \<noteq> 0)"
  define c where "c = out_set hw b 2 (io AND ou_table o' ! 2 \<noteq> 0)"
  have len: "length (ou_table o') = 3" using assms by (simp add: out_wf_def)
  note A = out_set_spec [OF assms, of 0 hw "io AND ou_table o' ! 0 \<noteq> 0", folded a_def, simplified]
  note B = out_set_spec [of a 1 hw "io AND ou_table o' ! 1 \<noteq> 0", folded b_def, simplified]
  note C = out_set_spec [of b 2 hw "io AND ou_table o' ! 2 \<noteq> 0", folded c_def, simplified]
  have run: "out_update hw io o' = Some c"
    using len A B C by (simp add: out_update_unfold Let_def a_def [symmetric] b_def [symmetric, simplified] c_def [symmetric])
  have "out_on c p = (io AND ou_table o' ! unat p \<noteq> 0 \<and> (out_on o' p \<or> out_allowed hw p))" if "p < OUT_SIZE" for p
    using pin_cases [OF that] A B C by (elim disjE) simp_all
  with run A B C show ?thesis by auto
qed

definition ex_out :: out_st where
  "ex_out = \<lparr>ou_table = out_table_default, ou_state = 0, ou_lock = False, ou_unlock = False, ou_siren = False\<rparr>"

lemma ex_out_wf: "out_wf ex_out"
  by (simp add: ex_out_def out_wf_def out_table_default_def)

theorem out_update_drives_witness:
  "\<exists>o''. out_update \<lparr>hw_lock_in = True, hw_unlock_in = False\<rparr> (SYSTEM_IO_LOCK OR SYSTEM_IO_SIREN) ex_out = Some o''
     \<and> \<not> out_on o'' OUT_LOCK \<and> out_on o'' OUT_SIREN"
proof -
  let ?hw = "\<lparr>hw_lock_in = True, hw_unlock_in = False\<rparr>"
  obtain o'' where run: "out_update ?hw (SYSTEM_IO_LOCK OR SYSTEM_IO_SIREN) ex_out = Some o''"
    and on: "\<forall>p < OUT_SIZE. out_on o'' p = ((SYSTEM_IO_LOCK OR SYSTEM_IO_SIREN) AND ou_table ex_out ! unat p \<noteq> 0
       \<and> (out_on ex_out p \<or> out_allowed ?hw p))"
    using out_update_drives [OF ex_out_wf, of ?hw "SYSTEM_IO_LOCK OR SYSTEM_IO_SIREN"] by blast
  have "\<not> out_on o'' OUT_LOCK" "out_on o'' OUT_SIREN"
    using on [rule_format, of OUT_LOCK] on [rule_format, of OUT_SIREN]
    by (simp_all add: ex_out_def out_on_def out_allowed_def out_table_default_def)
  with run show ?thesis by blast
qed

end
