(* ===== verification/SystemState.thy ===== *)
theory SystemState
  imports Section Out
begin

text \<open>
  The shared state of the alarm system of \<open>app/system.c\<close>: the static variables of
  \<open>system.c\<close>, \<open>section.c\<close>, \<open>system_input.c\<close>, \<open>alarm.c\<close>, \<open>out.c\<close>, the event ring and the
  configuration, and the calls to the LED machine and the tracer in the order they are made.
\<close>

unbundle bit_operations_syntax

datatype sys_act =
    Led_single u32 u8
  | Siren_beep u32 u8
  | Tracer_key_start
  | Tracer_shock_start bool
  | Tracer_stop

record alarm_st =
  al_state :: u8
  al_siren_state :: bool
  al_siren_tmr :: int
  al_alarm_tmr :: int
  al_cnt :: u16

record ('f, 'rtc) sys =
  sy_io :: u32
  sy_int :: u32
  sy_sect :: section_st
  sy_inps :: "system_input list"
  sy_alarm :: alarm_st
  sy_out :: out_st
  sy_q :: "'rtc event_q"
  sy_cfg :: "'f cfg_st"
  sy_acts :: "sys_act list"

definition sense :: "'rtc env \<Rightarrow> hw_sense" where
  "sense env = \<lparr>hw_lock_in = en_lock_in env, hw_unlock_in = en_unlock_in env\<rparr>"

definition do_act :: "sys_act \<Rightarrow> ('f, 'rtc) sys \<Rightarrow> ('f, 'rtc) sys" where
  "do_act a y = y\<lparr>sy_acts := sy_acts y @ [a]\<rparr>"

definition system_io_activate :: "'rtc env \<Rightarrow> ('f, 'rtc) sys \<Rightarrow> u32 \<Rightarrow> ('f, 'rtc) sys option" where
  "system_io_activate env y b =
     do { let io = sy_io y OR b;
          o' \<leftarrow> out_update (sense env) io (sy_out y);
          Some (y\<lparr>sy_io := io, sy_out := o'\<rparr>) }"

definition system_io_deactivate :: "'rtc env \<Rightarrow> ('f, 'rtc) sys \<Rightarrow> u32 \<Rightarrow> ('f, 'rtc) sys option" where
  "system_io_deactivate env y b =
     do { let io = sy_io y AND NOT b;
          o' \<leftarrow> out_update (sense env) io (sy_out y);
          Some (y\<lparr>sy_io := io, sy_out := o'\<rparr>) }"

definition system_int_state_update :: "('f, 'rtc) sys \<Rightarrow> u32 \<Rightarrow> bool \<Rightarrow> ('f, 'rtc) sys" where
  "system_int_state_update y b status =
     (if status then y\<lparr>sy_int := sy_int y OR b\<rparr> else y\<lparr>sy_int := sy_int y AND NOT b\<rparr>)"

text \<open>The invariant of the whole state.\<close>

definition sys_wf :: "('f, 'rtc) sys \<Rightarrow> bool" where
  "sys_wf y \<longleftrightarrow> section_wf (sy_sect y) \<and> inps_wf (sy_inps y) \<and> out_wf (sy_out y) \<and> event_q_wf (sy_q y)"

lemma sys_wf_act [simp]: "sys_wf (do_act a y) = sys_wf y"
  by (simp add: sys_wf_def do_act_def)

text \<open>A successful call of the outputs changes nothing but the io word and the output state.\<close>

definition io_only :: "('f, 'rtc) sys \<Rightarrow> ('f, 'rtc) sys \<Rightarrow> bool" where
  "io_only y y' \<longleftrightarrow> (\<exists>io o'. out_wf o' \<and> y' = y\<lparr>sy_io := io, sy_out := o'\<rparr>)"

lemma io_onlyI: "out_wf o' \<Longrightarrow> io_only y (y\<lparr>sy_io := io, sy_out := o'\<rparr>)"
  unfolding io_only_def by blast

lemma io_only_refl: "sys_wf y \<Longrightarrow> io_only y y"
  using io_onlyI [of "sy_out y" y "sy_io y"] by (simp add: sys_wf_def)

lemma out_update_wf: "out_wf o' \<Longrightarrow> \<exists>o''. out_update hw io o' = Some o'' \<and> out_wf o''"
proof -
  assume wf: "out_wf o'"
  define a where "a = out_set hw o' 0 (io AND ou_table o' ! 0 \<noteq> 0)"
  define b where "b = out_set hw a 1 (io AND ou_table a ! 1 \<noteq> 0)"
  have "out_wf a" "out_wf b" "out_wf (out_set hw b 2 st)" for st
    using out_set_spec [OF wf, of 0] out_set_spec [of a 1] out_set_spec [of b 2] by (auto simp: a_def b_def)
  moreover from this have "length (ou_table a) = 3" "length (ou_table b) = 3" "length (ou_table o') = 3"
    using wf by (auto simp: out_wf_def)
  ultimately show ?thesis
    by (simp add: out_update_unfold Let_def a_def [symmetric] b_def [symmetric, simplified])
qed

lemma io_activate_run:
  assumes "sys_wf y"
  shows "\<exists>y'. system_io_activate env y b = Some y' \<and> io_only y y' \<and> sy_io y' = sy_io y OR b"
  using assms out_update_wf [of "sy_out y" "sense env" "sy_io y OR b"]
  by (auto simp: system_io_activate_def Let_def sys_wf_def intro!: io_onlyI)

lemma io_deactivate_run:
  assumes "sys_wf y"
  shows "\<exists>y'. system_io_deactivate env y b = Some y' \<and> io_only y y' \<and> sy_io y' = sy_io y AND NOT b"
  using assms out_update_wf [of "sy_out y" "sense env" "sy_io y AND NOT b"]
  by (auto simp: system_io_deactivate_def Let_def sys_wf_def intro!: io_onlyI)

lemma io_only_wf: "io_only y y' \<Longrightarrow> sys_wf y \<Longrightarrow> sys_wf y'"
  by (auto simp: io_only_def sys_wf_def)

lemma io_only_same: "io_only y y' \<Longrightarrow> sy_alarm y' = sy_alarm y \<and> sy_sect y' = sy_sect y \<and> sy_inps y' = sy_inps y
   \<and> sy_q y' = sy_q y \<and> sy_cfg y' = sy_cfg y \<and> sy_acts y' = sy_acts y \<and> sy_int y' = sy_int y"
  by (auto simp: io_only_def)

end
