(* ===== verification/Alarm.thy ===== *)
theory Alarm
  imports SystemState
begin

text \<open>
  \<open>app/alarm.c\<close>: the alarm and its siren, each with a timer of 100 ms ticks, and the limit of
  three alarms until they are stopped.
\<close>

unbundle bit_operations_syntax

abbreviation (input) ALARM_IDLE :: u8 where "ALARM_IDLE \<equiv> 0"
abbreviation (input) ALARM_ACTIVE :: u8 where "ALARM_ACTIVE \<equiv> 1"
abbreviation (input) ALARM_TIMEOUT :: u8 where "ALARM_TIMEOUT \<equiv> 2"

abbreviation (input) SIREN_TIME :: int where "SIREN_TIME \<equiv> 30 * 10"
abbreviation (input) ALARM_TIME :: int where "ALARM_TIME \<equiv> 120 * 10"
abbreviation (input) ALARMS_MAX :: u16 where "ALARMS_MAX \<equiv> 3"

abbreviation (input) upd_alarm :: "(alarm_st \<Rightarrow> alarm_st) \<Rightarrow> ('f, 'rtc) sys \<Rightarrow> ('f, 'rtc) sys" where
  "upd_alarm f y \<equiv> y\<lparr>sy_alarm := f (sy_alarm y)\<rparr>"

definition siren_on :: "'rtc env \<Rightarrow> ('f, 'rtc) sys \<Rightarrow> ('f, 'rtc) sys option" where
  "siren_on env y =
     (if al_siren_state (sy_alarm y) then Some y
      else system_io_activate env (upd_alarm (\<lambda>a. a\<lparr>al_siren_tmr := SIREN_TIME, al_siren_state := True\<rparr>) y)
             SYSTEM_IO_SIREN)"

definition siren_off :: "'rtc env \<Rightarrow> ('f, 'rtc) sys \<Rightarrow> ('f, 'rtc) sys option" where
  "siren_off env y =
     (if \<not> al_siren_state (sy_alarm y) then Some y
      else system_io_deactivate env (upd_alarm (\<lambda>a. a\<lparr>al_siren_tmr := 0, al_siren_state := False\<rparr>) y)
             SYSTEM_IO_SIREN)"

definition alarm_init :: "'rtc env \<Rightarrow> ('f, 'rtc) sys \<Rightarrow> ('f, 'rtc) sys option" where
  "alarm_init env y = siren_off env (upd_alarm (\<lambda>a. a\<lparr>al_state := ALARM_IDLE, al_cnt := 0, al_alarm_tmr := 0\<rparr>) y)"

definition alarm_state :: "('f, 'rtc) sys \<Rightarrow> u8" where
  "alarm_state y = al_state (sy_alarm y)"

definition alarm_tick :: "'rtc env \<Rightarrow> ('f, 'rtc) sys \<Rightarrow> ('f, 'rtc) sys option" where
  "alarm_tick env y =
     do { y \<leftarrow> (if al_siren_tmr (sy_alarm y) \<noteq> 0 then
                  let y = upd_alarm (\<lambda>a. a\<lparr>al_siren_tmr := al_siren_tmr a - 1\<rparr>) y
                  in if al_siren_tmr (sy_alarm y) = 0 then siren_off env y else Some y
                else Some y);
          if al_alarm_tmr (sy_alarm y) \<noteq> 0 then
            let y = upd_alarm (\<lambda>a. a\<lparr>al_alarm_tmr := al_alarm_tmr a - 1\<rparr>) y
            in Some (if al_alarm_tmr (sy_alarm y) = 0 then upd_alarm (\<lambda>a. a\<lparr>al_state := ALARM_TIMEOUT\<rparr>) y else y)
          else Some y }"

definition alarm_trigger :: "'rtc env \<Rightarrow> ('f, 'rtc) sys \<Rightarrow> ('f, 'rtc) sys option" where
  "alarm_trigger env y =
     (if al_state (sy_alarm y) = ALARM_ACTIVE then Some y
      else let y = upd_alarm (\<lambda>a. a\<lparr>al_cnt := al_cnt a + 1\<rparr>) y
           in if al_cnt (sy_alarm y) > ALARMS_MAX then Some y
              else siren_on env (upd_alarm (\<lambda>a. a\<lparr>al_state := ALARM_ACTIVE, al_alarm_tmr := ALARM_TIME\<rparr>) y))"

definition alarm_stop :: "'rtc env \<Rightarrow> ('f, 'rtc) sys \<Rightarrow> ('f, 'rtc) sys option" where
  "alarm_stop env y =
     do { y \<leftarrow> siren_off env y;
          Some (upd_alarm (\<lambda>a. a\<lparr>al_alarm_tmr := 0, al_cnt := 0, al_state := ALARM_IDLE\<rparr>) y) }"

subsection \<open>What the operations do\<close>

lemma siren_on_run:
  assumes "sys_wf y"
  shows "\<exists>y'. siren_on env y = Some y' \<and> io_only (upd_alarm (\<lambda>a. if al_siren_state a then a
       else a\<lparr>al_siren_tmr := SIREN_TIME, al_siren_state := True\<rparr>) y) y'
     \<and> (\<not> al_siren_state (sy_alarm y) \<longrightarrow> sy_io y' = sy_io y OR SYSTEM_IO_SIREN)"
proof (cases "al_siren_state (sy_alarm y)")
  case True
  then show ?thesis using io_only_refl [OF assms] by (simp add: siren_on_def)
next
  case False
  then show ?thesis
    using io_activate_run [of "upd_alarm (\<lambda>a. a\<lparr>al_siren_tmr := SIREN_TIME, al_siren_state := True\<rparr>) y" env SYSTEM_IO_SIREN] assms
    by (auto simp: siren_on_def sys_wf_def)
qed

lemma siren_off_run:
  assumes "sys_wf y"
  shows "\<exists>y'. siren_off env y = Some y' \<and> io_only (upd_alarm (\<lambda>a. if al_siren_state a
       then a\<lparr>al_siren_tmr := 0, al_siren_state := False\<rparr> else a) y) y'
     \<and> (al_siren_state (sy_alarm y) \<longrightarrow> sy_io y' = sy_io y AND NOT SYSTEM_IO_SIREN)"
proof (cases "al_siren_state (sy_alarm y)")
  case False
  then show ?thesis using io_only_refl [OF assms] by (simp add: siren_off_def)
next
  case True
  then show ?thesis
    using io_deactivate_run [of "upd_alarm (\<lambda>a. a\<lparr>al_siren_tmr := 0, al_siren_state := False\<rparr>) y" env SYSTEM_IO_SIREN] assms
    by (auto simp: siren_off_def sys_wf_def)
qed

lemma sys_wf_upd [simp]: "sys_wf (y\<lparr>sy_alarm := a\<rparr>) = sys_wf y"
  by (simp add: sys_wf_def)

text \<open>What a tick makes of the alarm state.\<close>

definition tick_alarm :: "alarm_st \<Rightarrow> alarm_st" where
  "tick_alarm a = a\<lparr>al_siren_tmr := (if al_siren_tmr a = 0 then 0 else al_siren_tmr a - 1),
     al_siren_state := (if al_siren_tmr a = 1 then False else al_siren_state a),
     al_alarm_tmr := (if al_alarm_tmr a = 0 then 0 else al_alarm_tmr a - 1),
     al_state := (if al_alarm_tmr a = 1 then ALARM_TIMEOUT else al_state a)\<rparr>"

lemma alarm_tick_run:
  assumes "sys_wf y" "al_siren_state (sy_alarm y) \<longleftrightarrow> al_siren_tmr (sy_alarm y) > 0"
  shows "\<exists>y'. alarm_tick env y = Some y' \<and> sys_wf y' \<and> sy_alarm y' = tick_alarm (sy_alarm y)
     \<and> sy_sect y' = sy_sect y \<and> sy_inps y' = sy_inps y \<and> sy_q y' = sy_q y
     \<and> sy_io y' = (if al_siren_tmr (sy_alarm y) = 1 then sy_io y AND NOT SYSTEM_IO_SIREN else sy_io y)"
proof (cases "al_siren_tmr (sy_alarm y) = 1")
  case True
  define y1 where "y1 = upd_alarm (\<lambda>a. a\<lparr>al_siren_tmr := al_siren_tmr a - 1\<rparr>) y"
  have "sys_wf y1" "al_siren_state (sy_alarm y1)" "al_siren_tmr (sy_alarm y1) = 0" using assms True by (auto simp: y1_def)
  with siren_off_run [of y1 env] obtain y2 where off: "siren_off env y1 = Some y2"
    "io_only (upd_alarm (\<lambda>a. a\<lparr>al_siren_tmr := 0, al_siren_state := False\<rparr>) y1) y2"
    "sy_io y2 = sy_io y1 AND NOT SYSTEM_IO_SIREN" by auto
  have "sys_wf y2" using io_only_wf [OF off(2)] \<open>sys_wf y1\<close> by simp
  then show ?thesis using True off io_only_same [OF off(2)]
    by (auto simp: alarm_tick_def y1_def [symmetric] Let_def tick_alarm_def) (simp_all add: y1_def)
next
  case False
  then show ?thesis using assms by (auto simp: alarm_tick_def Let_def tick_alarm_def)
qed

fun alarm_ticks :: "'rtc env \<Rightarrow> nat \<Rightarrow> ('f, 'rtc) sys \<Rightarrow> ('f, 'rtc) sys option" where
  "alarm_ticks env 0 y = Some y"
| "alarm_ticks env (Suc n) y = do { y \<leftarrow> alarm_ticks env n y; alarm_tick env y }"

lemma alarm_ticks_run:
  assumes "sys_wf y" "al_siren_state (sy_alarm y)" "al_siren_tmr (sy_alarm y) = SIREN_TIME"
    "al_alarm_tmr (sy_alarm y) = ALARM_TIME" "al_state (sy_alarm y) = ALARM_ACTIVE"
  shows "\<exists>y'. alarm_ticks env n y = Some y' \<and> sys_wf y' \<and> al_cnt (sy_alarm y') = al_cnt (sy_alarm y)
     \<and> al_siren_state (sy_alarm y') = (n < 300) \<and> al_siren_tmr (sy_alarm y') = (if n < 300 then 300 - int n else 0)
     \<and> al_alarm_tmr (sy_alarm y') = (if n < 1200 then 1200 - int n else 0)
     \<and> al_state (sy_alarm y') = (if n < 1200 then ALARM_ACTIVE else ALARM_TIMEOUT)
     \<and> sy_io y' = (if n < 300 then sy_io y else sy_io y AND NOT SYSTEM_IO_SIREN)"
proof (induction n)
  case 0
  show ?case using assms by simp
next
  case (Suc n)
  then obtain y' where y': "alarm_ticks env n y = Some y'" "sys_wf y'" "al_cnt (sy_alarm y') = al_cnt (sy_alarm y)"
    "al_siren_state (sy_alarm y') = (n < 300)" "al_siren_tmr (sy_alarm y') = (if n < 300 then 300 - int n else 0)"
    "al_alarm_tmr (sy_alarm y') = (if n < 1200 then 1200 - int n else 0)"
    "al_state (sy_alarm y') = (if n < 1200 then ALARM_ACTIVE else ALARM_TIMEOUT)"
    "sy_io y' = (if n < 300 then sy_io y else sy_io y AND NOT SYSTEM_IO_SIREN)" by blast
  have "al_siren_state (sy_alarm y') \<longleftrightarrow> al_siren_tmr (sy_alarm y') > 0" using y' by auto
  from alarm_tick_run [OF y'(2) this, of env] obtain y'' where t: "alarm_tick env y' = Some y''" "sys_wf y''"
    "sy_alarm y'' = tick_alarm (sy_alarm y')"
    "sy_io y'' = (if al_siren_tmr (sy_alarm y') = 1 then sy_io y' AND NOT SYSTEM_IO_SIREN else sy_io y')" by blast
  have 1: "al_siren_tmr (sy_alarm y') = 1 \<longleftrightarrow> n = 299" "al_alarm_tmr (sy_alarm y') = 1 \<longleftrightarrow> n = 1199"
    "al_siren_tmr (sy_alarm y') = 0 \<longleftrightarrow> \<not> n < 300" "al_alarm_tmr (sy_alarm y') = 0 \<longleftrightarrow> \<not> n < 1200"
    using y' by auto
  show ?case using t y' by (auto simp: tick_alarm_def 1)
qed

text \<open>A trigger that is not refused sounds the siren for exactly 300 ticks of 100 ms and keeps
the alarm active for exactly 1200, after which it is in the time-out state with the siren off; the
trigger counts, and it is refused while an alarm is active and after three alarms without a stop.\<close>

theorem alarm_trigger_times_out:
  assumes "sys_wf y" "\<not> al_siren_state (sy_alarm y)"
  shows "\<exists>y1. alarm_trigger env y = Some y1 \<and>
    (if al_state (sy_alarm y) = ALARM_ACTIVE then y1 = y
     else if al_cnt (sy_alarm y) + 1 > ALARMS_MAX
     then y1 = upd_alarm (\<lambda>a. a\<lparr>al_cnt := al_cnt a + 1\<rparr>) y
     else al_cnt (sy_alarm y1) = al_cnt (sy_alarm y) + 1 \<and>
       (\<forall>n. \<exists>y2. alarm_ticks env n y1 = Some y2
          \<and> al_siren_state (sy_alarm y2) = (n < 300)
          \<and> sy_io y2 = (if n < 300 then sy_io y OR SYSTEM_IO_SIREN else (sy_io y OR SYSTEM_IO_SIREN) AND NOT SYSTEM_IO_SIREN)
          \<and> al_state (sy_alarm y2) = (if n < 1200 then ALARM_ACTIVE else ALARM_TIMEOUT)))"
proof (cases "al_state (sy_alarm y) = ALARM_ACTIVE \<or> al_cnt (sy_alarm y) + 1 > ALARMS_MAX")
  case True
  then show ?thesis by (auto simp: alarm_trigger_def Let_def)
next
  case False
  define y0 where "y0 = upd_alarm (\<lambda>a. a\<lparr>al_cnt := al_cnt a + 1, al_state := ALARM_ACTIVE, al_alarm_tmr := ALARM_TIME\<rparr>) y"
  have y0: "sys_wf y0" "\<not> al_siren_state (sy_alarm y0)" "sy_io y0 = sy_io y" using assms by (auto simp: y0_def)
  from siren_on_run [OF y0(1), of env] y0 obtain y1 where on: "siren_on env y0 = Some y1"
    "io_only (upd_alarm (\<lambda>a. if al_siren_state a then a
       else a\<lparr>al_siren_tmr := SIREN_TIME, al_siren_state := True\<rparr>) y0) y1"
    "sy_io y1 = sy_io y OR SYSTEM_IO_SIREN" by auto
  have "alarm_trigger env y = siren_on env y0" using False by (simp add: alarm_trigger_def Let_def y0_def)
  moreover have a1: "sys_wf y1" "al_siren_state (sy_alarm y1)" "al_siren_tmr (sy_alarm y1) = SIREN_TIME"
    "al_alarm_tmr (sy_alarm y1) = ALARM_TIME" "al_state (sy_alarm y1) = ALARM_ACTIVE"
    "al_cnt (sy_alarm y1) = al_cnt (sy_alarm y) + 1"
    using io_only_wf [OF on(2)] io_only_same [OF on(2)] y0 by (simp_all add: y0_def)
  moreover have "\<exists>y2. alarm_ticks env n y1 = Some y2 \<and> al_siren_state (sy_alarm y2) = (n < 300)
      \<and> sy_io y2 = (if n < 300 then sy_io y OR SYSTEM_IO_SIREN else (sy_io y OR SYSTEM_IO_SIREN) AND NOT SYSTEM_IO_SIREN)
      \<and> al_state (sy_alarm y2) = (if n < 1200 then ALARM_ACTIVE else ALARM_TIMEOUT)" for n
  proof -
    obtain y2 where "alarm_ticks env n y1 = Some y2" "al_siren_state (sy_alarm y2) = (n < 300)"
      "al_state (sy_alarm y2) = (if n < 1200 then ALARM_ACTIVE else ALARM_TIMEOUT)"
      "sy_io y2 = (if n < 300 then sy_io y1 else sy_io y1 AND NOT SYSTEM_IO_SIREN)"
      using alarm_ticks_run [OF a1(1-5), of env n] by blast
    then show ?thesis unfolding on(3) by blast
  qed
  ultimately show ?thesis using False on(1) by (intro exI [of _ y1]) simp
qed

definition ex_sys :: "(nat \<Rightarrow> u8, nat) sys" where
  "ex_sys = \<lparr>sy_io = 0, sy_int = 0, sy_sect = ex_section SECTION_ST_SET, sy_inps = system_input_init,
     sy_alarm = \<lparr>al_state = ALARM_IDLE, al_siren_state = False, al_siren_tmr = 0, al_alarm_tmr = 0, al_cnt = 0\<rparr>,
     sy_out = ex_out, sy_q = ex_queue, sy_cfg = ex_cfg (\<lambda>_. 0xFF), sy_acts = []\<rparr>"

lemma ex_sys_wf: "sys_wf ex_sys"
  by (simp add: sys_wf_def ex_sys_def inps_wf_init ex_out_wf section_wf_def ex_section_def)

theorem alarm_trigger_times_out_witness:
  "\<exists>y1 y2. alarm_trigger (ex_env 0) ex_sys = Some y1 \<and> alarm_ticks (ex_env 0) 300 y1 = Some y2
     \<and> \<not> al_siren_state (sy_alarm y2) \<and> al_state (sy_alarm y2) = ALARM_ACTIVE"
proof -
  have e: "\<not> al_siren_state (sy_alarm ex_sys)" "al_state (sy_alarm ex_sys) = ALARM_IDLE" "al_cnt (sy_alarm ex_sys) = 0"
    by (simp_all add: ex_sys_def)
  obtain y1 where y1: "alarm_trigger (ex_env 0) ex_sys = Some y1"
    "\<forall>n. \<exists>y2. alarm_ticks (ex_env 0) n y1 = Some y2 \<and> al_siren_state (sy_alarm y2) = (n < 300)
       \<and> sy_io y2 = (if n < 300 then sy_io ex_sys OR SYSTEM_IO_SIREN else (sy_io ex_sys OR SYSTEM_IO_SIREN) AND NOT SYSTEM_IO_SIREN)
       \<and> al_state (sy_alarm y2) = (if n < 1200 then ALARM_ACTIVE else ALARM_TIMEOUT)"
    using alarm_trigger_times_out [OF ex_sys_wf e(1), of "ex_env 0"] e(2,3) by auto
  from y1(2) [rule_format, of 300] y1(1) show ?thesis by auto
qed

end
