(* ===== verification/SystemCore.thy ===== *)
theory SystemCore
  imports Alarm
begin

text \<open>
  \<open>app/system.c\<close>: the alarm system put together.  Inputs become signals of the section
  according to their reaction and postpone timer, setting and unsetting drive the section, the
  alarm and the stored state, and events raise the alarm.
\<close>

unbundle bit_operations_syntax

abbreviation (input) DELAY_TMOUT :: u32 where "DELAY_TMOUT \<equiv> 20"
abbreviation (input) DELAY_TMIN :: u32 where "DELAY_TMIN \<equiv> 10"

subsection \<open>Persistence of the section state\<close>

definition save_state :: "('f, 'rtc) sys \<Rightarrow> ('f, 'rtc) sys" where
  "save_state y =
     (let (cf, _) = cfg_write (sy_cfg y) CFG_ID_STATE
                      (str ''S'' @ show_int (sint (sd_state (sc_data (sy_sect y))))) ACCESS_SYSTEM
      in y\<lparr>sy_cfg := cf\<rparr>)"

text \<open>\<open>sscanf(text, "S%d", &state)\<close>.\<close>

definition scan_state :: "u8 list \<Rightarrow> int option" where
  "scan_state s = (case s of c # cs \<Rightarrow> if c = 83 then map_option fst (scan_d cs) else None | [] \<Rightarrow> None)"

definition system_init :: "'rtc env \<Rightarrow> ('f, 'rtc) sys \<Rightarrow> (('f, 'rtc) sys \<times> bool) option" where
  "system_init env y =
     (let y = y\<lparr>sy_inps := system_input_init\<rparr>; (cf, r) = cfg_read (sy_cfg y) CFG_ID_STATE ACCESS_SYSTEM;
          y = y\<lparr>sy_cfg := cf\<rparr>
      in do { (ok, text) \<leftarrow> r;
              if \<not> ok then Some (y, False)
              else do {
                let s = (sy_sect y)\<lparr>sc_num := 0, sc_tm_out := ucast (DELAY_TMOUT * en_second env),
                                    sc_tm_in := ucast (DELAY_TMIN * en_second env)\<rparr>;
                let s = section_init s;
                y \<leftarrow> alarm_init env (y\<lparr>sy_sect := s\<rparr>);
                let state = (case scan_state text of Some v \<Rightarrow> word_of_int v | None \<Rightarrow> SECTION_ST_UNSET);
                Some (y\<lparr>sy_sect := upd_data (\<lambda>d. d\<lparr>sd_state := state\<rparr>) (sy_sect y)\<rparr>, True) } })"

definition system_state :: "('f, 'rtc) sys \<Rightarrow> u32" where
  "system_state y = sd_state (sc_data (sy_sect y))"

subsection \<open>Inputs\<close>

definition inp_io_bit :: "u8 \<Rightarrow> u32" where
  "inp_io_bit n =
     (if n = INP_INP1 then SYSTEM_IO_INP1 else if n = INP_INP2 then SYSTEM_IO_INP2
      else if n = INP_INP3 then SYSTEM_IO_INP3 else if n = INP_DOOR then SYSTEM_IO_DOOR
      else if n = INP_KEY then SYSTEM_IO_KEY else if n = INP_SHOCK then SYSTEM_IO_SHOCK else 0)"

text \<open>The middle of \<open>system_inp_activated\<close>: the alarm check of the input and its signal.\<close>

definition inp_alarm :: "'rtc env \<Rightarrow> ('f, 'rtc) sys \<Rightarrow> u8 \<Rightarrow> system_input \<Rightarrow> ('f, 'rtc) sys option" where
  "inp_alarm env y n inp =
     (if section_alarm_enabled (sy_sect y) (si_reaction inp) then
        let (inp, now) = system_input_alarm inp; y = y\<lparr>sy_inps := (sy_inps y)[unat n := inp]\<rparr>
        in if now then do {
             (s, q) \<leftarrow> section_signal env (sy_inps y) (sy_sect y) (sy_q y) n (si_reaction inp);
             Some (y\<lparr>sy_sect := s, sy_q := q\<rparr>) }
           else Some y
      else Some y)"

definition system_inp_activated :: "'rtc env \<Rightarrow> ('f, 'rtc) sys \<Rightarrow> u8 \<Rightarrow> ('f, 'rtc) sys option" where
  "system_inp_activated env y n =
     do { inp \<leftarrow> system_input_get (sy_inps y) n;
          let y = y\<lparr>sy_io := sy_io y OR inp_io_bit n\<rparr>;
          let y = (if n = INP_SHOCK then do_act (Led_single 0x000F 15) y else y);
          y \<leftarrow> inp_alarm env y n inp;
          Some (if system_state y = SECTION_ST_UNSET then
                  (if n = INP_KEY then do_act Tracer_key_start y
                   else if n = INP_SHOCK then do_act (Tracer_shock_start True) y else y)
                else y) }"

definition system_inp_deactivated :: "('f, 'rtc) sys \<Rightarrow> u8 \<Rightarrow> ('f, 'rtc) sys" where
  "system_inp_deactivated y n =
     (let y = y\<lparr>sy_io := sy_io y AND NOT (inp_io_bit n)\<rparr>
      in if n = INP_KEY then do_act Tracer_stop y
         else if n = INP_SHOCK then do_act (Tracer_shock_start False) y else y)"

definition system_inp_signal :: "'rtc env \<Rightarrow> ('f, 'rtc) sys \<Rightarrow> u8 \<Rightarrow> u8 \<Rightarrow> ('f, 'rtc) sys option" where
  "system_inp_signal env y n signal =
     do { _ \<leftarrow> system_input_get (sy_inps y) n;
          (s, q) \<leftarrow> section_signal env (sy_inps y) (sy_sect y) (sy_q y) n signal;
          Some (y\<lparr>sy_sect := s, sy_q := q\<rparr>) }"

text \<open>\<open>system_input_tick\<close>: the loop over the inputs, from \<open>n\<close>.\<close>

fun system_input_tick_loop :: "'rtc env \<Rightarrow> nat \<Rightarrow> nat \<Rightarrow> ('f, 'rtc) sys \<Rightarrow> ('f, 'rtc) sys option" where
  "system_input_tick_loop env 0 n y = Some y"
| "system_input_tick_loop env (Suc k) n y =
     do { inp \<leftarrow> arr_get (sy_inps y) n;
          _ \<leftarrow> os_assert (si_nr inp = of_nat n);
          let (inp, fired) = system_input_tick1 inp;
          let y = y\<lparr>sy_inps := (sy_inps y)[n := inp]\<rparr>;
          y \<leftarrow> (if fired then system_inp_signal env y (of_nat n) (si_reaction inp) else Some y);
          system_input_tick_loop env k (Suc n) y }"

definition system_input_tick :: "'rtc env \<Rightarrow> ('f, 'rtc) sys \<Rightarrow> ('f, 'rtc) sys option" where
  "system_input_tick env y = system_input_tick_loop env 8 0 y"

definition system_tick :: "'rtc env \<Rightarrow> ('f, 'rtc) sys \<Rightarrow> ('f, 'rtc) sys option" where
  "system_tick env y = system_input_tick env y"

definition system_task :: "'rtc env \<Rightarrow> ('f, 'rtc) sys \<Rightarrow> ('f, 'rtc) sys option" where
  "system_task env y =
     do { (s, q) \<leftarrow> section_task env (sy_inps y) (sy_sect y) (sy_q y); Some (y\<lparr>sy_sect := s, sy_q := q\<rparr>) }"

subsection \<open>Setting, unsetting, events\<close>

definition system_set :: "'rtc env \<Rightarrow> ('f, 'rtc) sys \<Rightarrow> u8 \<Rightarrow> ('f, 'rtc) sys option" where
  "system_set env y source =
     do { (s, q, r) \<leftarrow> section_set env (sy_sect y) (sy_q y) source;
          let y = y\<lparr>sy_sect := s, sy_q := q\<rparr>;
          if r then
            let y = y\<lparr>sy_inps := system_input_reset (sy_inps y)\<rparr>
            in Some (save_state (do_act (Siren_beep 0x01 8) y))
          else Some y }"

definition system_unset :: "'rtc env \<Rightarrow> ('f, 'rtc) sys \<Rightarrow> u8 \<Rightarrow> ('f, 'rtc) sys option" where
  "system_unset env y source =
     do { (s, q, r) \<leftarrow> section_unset env (sy_sect y) (sy_q y) source;
          let y = y\<lparr>sy_sect := s, sy_q := q\<rparr>;
          if r then do {
            y \<leftarrow> (if alarm_state y = ALARM_ACTIVE
                  then do { q \<leftarrow> section_event env (sy_q y) EVENT_ID_ALARM_CANCEL source; Some (y\<lparr>sy_q := q\<rparr>) }
                  else Some y);
            let after_alarm = (alarm_state y \<noteq> ALARM_IDLE);
            y \<leftarrow> alarm_stop env y;
            let y = y\<lparr>sy_inps := system_input_reset (sy_inps y)\<rparr>;
            Some (save_state (do_act (Siren_beep 0x111 (if after_alarm then 12 else 8)) y)) }
          else Some y }"

definition system_event :: "'rtc env \<Rightarrow> ('f, 'rtc) sys \<Rightarrow> u8 \<Rightarrow> ('f, 'rtc) sys option" where
  "system_event env y e =
     (if e = EVENT_ID_SET then Some (do_act (Led_single 0xFF 8) y)
      else if e = EVENT_ID_UNSET then Some (do_act (Led_single 0xF0F 12) y)
      else if e = EVENT_ID_ALARM then alarm_trigger env y
      else Some y)"

subsection \<open>Runs of the system\<close>

text \<open>The calls the tasks of \<open>app.c\<close> make, with the environment of each call.\<close>

datatype sys_op =
    Inp_activated u8
  | Inp_deactivated u8
  | Sys_tick
  | Sys_task
  | Al_tick
  | Sys_set u8
  | Sys_unset u8
  | Sys_event u8

fun sys_step :: "sys_op \<Rightarrow> 'rtc env \<Rightarrow> ('f, 'rtc) sys \<Rightarrow> ('f, 'rtc) sys option" where
  "sys_step (Inp_activated n) env y = system_inp_activated env y n"
| "sys_step (Inp_deactivated n) env y = Some (system_inp_deactivated y n)"
| "sys_step Sys_tick env y = system_tick env y"
| "sys_step Sys_task env y = system_task env y"
| "sys_step Al_tick env y = alarm_tick env y"
| "sys_step (Sys_set src) env y = system_set env y src"
| "sys_step (Sys_unset src) env y = system_unset env y src"
| "sys_step (Sys_event e) env y = system_event env y e"

fun sys_run :: "(sys_op \<times> 'rtc env) list \<Rightarrow> ('f, 'rtc) sys \<Rightarrow> ('f, 'rtc) sys option" where
  "sys_run [] y = Some y"
| "sys_run ((op, env) # ops) y = do { y \<leftarrow> sys_step op env y; sys_run ops y }"

definition op_ok :: "sys_op \<Rightarrow> bool" where
  "op_ok op \<longleftrightarrow> (case op of Inp_activated n \<Rightarrow> n < INP_SIZE | _ \<Rightarrow> True)"

text \<open>The siren flag and its timer agree, as \<open>alarm_tick\<close> needs.\<close>

definition siren_ok :: "('f, 'rtc) sys \<Rightarrow> bool" where
  "siren_ok y \<longleftrightarrow> (al_siren_state (sy_alarm y) \<longleftrightarrow> al_siren_tmr (sy_alarm y) > 0) \<and> al_siren_tmr (sy_alarm y) \<ge> 0"

definition sys_inv :: "('f, 'rtc) sys \<Rightarrow> bool" where
  "sys_inv y \<longleftrightarrow> sys_wf y \<and> siren_ok y"

lemma sys_inv_simps [simp]:
  "sys_inv (y\<lparr>sy_io := io\<rparr>) = sys_inv y" "sys_inv (y\<lparr>sy_cfg := cf\<rparr>) = sys_inv y"
  "sys_inv (do_act a y) = sys_inv y" "sys_inv (save_state y) = sys_inv y"
  by (auto simp: sys_inv_def sys_wf_def siren_ok_def do_act_def save_state_def split: prod.splits)

lemma sys_inv_reset [simp]: "sys_inv y \<Longrightarrow> sys_inv (y\<lparr>sy_inps := system_input_reset (sy_inps y)\<rparr>)"
  by (simp add: sys_inv_def sys_wf_def siren_ok_def inps_wf_reset)

lemma inps_wf_update:
  assumes "inps_wf inps" "k < 8" "si_nr inp = of_nat k" "si_cnt inp \<le> ALARM_MAX_CNT"
  shows "inps_wf (inps[k := inp])"
  using assms by (auto simp: inps_wf_def nth_list_update)

lemma inp_alarm_run:
  assumes "sys_inv y" "n < INP_SIZE" "inp = sy_inps y ! unat n"
  shows "\<exists>y'. inp_alarm env y n inp = Some y' \<and> sys_inv y'"
proof -
  have wf: "inps_wf (sy_inps y)" "section_wf (sy_sect y)" "event_q_wf (sy_q y)"
    using assms(1) by (auto simp: sys_inv_def sys_wf_def)
  have un: "unat n < 8" using assms(2) by (simp add: word_less_nat_alt)
  have cnt: "si_cnt inp \<le> ALARM_MAX_CNT" "si_nr inp = n"
    using wf(1) un assms(3) by (auto simp: inps_wf_def)
  obtain inp' r where al: "system_input_alarm inp = (inp', r)" by fastforce
  have wf': "inps_wf ((sy_inps y)[unat n := inp'])"
    using inps_wf_update [OF wf(1) un] system_input_alarm_wf [OF cnt(1) al] cnt(2) by simp
  obtain s' q' where sg: "section_signal env ((sy_inps y)[unat n := inp']) (sy_sect y) (sy_q y) n (si_reaction inp') = Some (s', q')"
    "section_wf s'" "event_q_wf q'" using section_signal_run [OF wf' wf(3,2) assms(2)] by blast
  have "sys_inv (y\<lparr>sy_inps := (sy_inps y)[unat n := inp']\<rparr>)"
    "sys_inv (y\<lparr>sy_inps := (sy_inps y)[unat n := inp'], sy_sect := s', sy_q := q'\<rparr>)"
    using assms(1) wf' sg by (auto simp: sys_inv_def sys_wf_def siren_ok_def)
  then show ?thesis using assms(1) al sg by (simp add: inp_alarm_def Let_def)
qed

lemma activated_run:
  assumes "sys_inv y" "n < INP_SIZE"
  shows "\<exists>y'. system_inp_activated env y n = Some y' \<and> sys_inv y'"
proof -
  define y0 where "y0 = y\<lparr>sy_io := sy_io y OR inp_io_bit n\<rparr>"
  define y1 where "y1 = (if n = INP_SHOCK then do_act (Led_single 0x000F 15) y0 else y0)"
  have y1: "sys_inv y1" using assms(1) by (simp add: y1_def y0_def)
  have y1': "sy_inps y1 = sy_inps y" by (simp add: y1_def y0_def do_act_def)
  have "inps_wf (sy_inps y)" using assms(1) by (auto simp: sys_inv_def sys_wf_def)
  note get = system_input_get_Some [OF this assms(2)]
  from inp_alarm_run [OF y1 assms(2) refl, of env] obtain y2 where
    "inp_alarm env y1 n (sy_inps y ! unat n) = Some y2" "sys_inv y2" by (auto simp: y1')
  then show ?thesis by (simp add: system_inp_activated_def get y0_def [symmetric] y1_def [symmetric] Let_def)
qed

lemma inp_signal_run:
  assumes "sys_inv y" "n < INP_SIZE"
  shows "\<exists>y'. system_inp_signal env y n sig = Some y' \<and> sys_inv y' \<and> sy_inps y' = sy_inps y"
proof -
  have wf: "inps_wf (sy_inps y)" "section_wf (sy_sect y)" "event_q_wf (sy_q y)"
    using assms(1) by (auto simp: sys_inv_def sys_wf_def)
  obtain s' q' where "section_signal env (sy_inps y) (sy_sect y) (sy_q y) n sig = Some (s', q')"
    "section_wf s'" "event_q_wf q'" using section_signal_run [OF wf(1,3,2) assms(2)] by blast
  then show ?thesis using assms(1) system_input_get_Some [OF wf(1) assms(2)]
    by (auto simp: system_inp_signal_def sys_inv_def sys_wf_def siren_ok_def)
qed

lemma tick_step_run:
  assumes "sys_inv y" "n < 8" "system_input_tick1 (sy_inps y ! n) = (inp', fired)"
  shows "sys_inv (y\<lparr>sy_inps := (sy_inps y)[n := inp']\<rparr>)" "si_nr (sy_inps y ! n) = of_nat n" "n < length (sy_inps y)"
proof -
  have wf: "inps_wf (sy_inps y)" using assms(1) by (auto simp: sys_inv_def sys_wf_def)
  then show "si_nr (sy_inps y ! n) = of_nat n" "n < length (sy_inps y)" using assms(2) by (auto simp: inps_wf_def)
  have "inps_wf ((sy_inps y)[n := inp'])"
    using inps_wf_update [OF wf assms(2)] system_input_tick1_wf [OF assms(3)] wf assms(2) by (simp add: inps_wf_def)
  then show "sys_inv (y\<lparr>sy_inps := (sy_inps y)[n := inp']\<rparr>)"
    using assms(1) by (simp add: sys_inv_def sys_wf_def siren_ok_def)
qed

lemma tick_loop_run:
  assumes "sys_inv y" "n + k \<le> 8"
  shows "\<exists>y'. system_input_tick_loop env k n y = Some y' \<and> sys_inv y'"
  using assms
proof (induction k arbitrary: n y)
  case (Suc k)
  obtain inp' fired where t: "system_input_tick1 (sy_inps y ! n) = (inp', fired)" by fastforce
  have n: "n < 8" using Suc.prems by simp
  note S = tick_step_run [OF Suc.prems(1) n t]
  define y1 where "y1 = y\<lparr>sy_inps := (sy_inps y)[n := inp']\<rparr>"
  have "of_nat n < (INP_SIZE :: u8)" using n by (simp add: word_less_nat_alt)
  from inp_signal_run [OF S(1) this, folded y1_def] obtain y2 where
    y2: "system_inp_signal env y1 (of_nat n) (si_reaction inp') = Some y2" "sys_inv y2" by blast
  show ?case
    using t S n y2 Suc.IH [of y2 "Suc n"] Suc.IH [of y1 "Suc n"] Suc.prems
    by (auto simp: y1_def [symmetric] Let_def)
qed simp

lemma set_unset_run:
  assumes "sys_inv y"
  shows "\<exists>y'. system_set env y src = Some y' \<and> sys_inv y'" "\<exists>y'. system_unset env y src = Some y' \<and> sys_inv y'"
proof -
  have wf: "section_wf (sy_sect y)" "event_q_wf (sy_q y)" using assms by (auto simp: sys_inv_def sys_wf_def)
  obtain s q r where s: "section_set env (sy_sect y) (sy_q y) src = Some (s, q, r)" "section_wf s" "event_q_wf q"
    using set_state_run [OF wf(2,1), of env SECTION_ST_SET src] by (auto simp: section_set_def)
  have i1: "sys_inv (y\<lparr>sy_sect := s, sy_q := q\<rparr>)" using assms s by (simp add: sys_inv_def sys_wf_def siren_ok_def)
  show "\<exists>y'. system_set env y src = Some y' \<and> sys_inv y'"
    using s i1 sys_inv_reset [OF i1] by (auto simp: system_set_def Let_def)
  obtain s q r where s: "section_unset env (sy_sect y) (sy_q y) src = Some (s, q, r)" "section_wf s" "event_q_wf q"
    using set_state_run [OF wf(2,1), of env SECTION_ST_UNSET src] by (auto simp: section_unset_def)
  obtain q' where q': "section_event env q EVENT_ID_ALARM_CANCEL src = Some q'" "event_q_wf q'"
    using event_q_create [OF s(3)] by blast
  define y1 where "y1 = y\<lparr>sy_sect := s, sy_q := (if alarm_state y = ALARM_ACTIVE then q' else q)\<rparr>"
  have i1: "sys_inv y1" using assms s q' by (simp add: y1_def sys_inv_def sys_wf_def siren_ok_def)
  then have "sys_wf y1" by (simp add: sys_inv_def)
  from siren_off_run [OF this, of env] obtain y2 where y2: "siren_off env y1 = Some y2"
    "io_only (upd_alarm (\<lambda>a. if al_siren_state a then a\<lparr>al_siren_tmr := 0, al_siren_state := False\<rparr> else a) y1) y2"
    by blast
  define y3 where "y3 = upd_alarm (\<lambda>a. a\<lparr>al_alarm_tmr := 0, al_cnt := 0, al_state := ALARM_IDLE\<rparr>) y2"
  have st: "alarm_stop env y1 = Some y3" using y2(1) by (simp add: alarm_stop_def y3_def)
  have "sys_wf y2" using io_only_wf [OF y2(2)] i1 by (simp add: sys_inv_def)
  then have i3: "sys_inv y3"
    using io_only_same [OF y2(2)] i1 by (auto simp: y3_def sys_inv_def siren_ok_def split: if_splits)
  have as: "alarm_state (y\<lparr>sy_sect := s, sy_q := q\<rparr>) = alarm_state y" by (simp add: alarm_state_def)
  show "\<exists>y'. system_unset env y src = Some y' \<and> sys_inv y'"
  proof (cases r)
    case False
    then have "s = sy_sect y \<and> q = sy_q y"
      using set_state_run [OF wf(2,1), of env SECTION_ST_UNSET src] s by (auto simp: section_unset_def)
    then show ?thesis using False s assms by (simp add: system_unset_def Let_def)
  next
    case True
    have "y\<lparr>sy_sect := s, sy_q := q, sy_q := q'\<rparr> = y\<lparr>sy_sect := s, sy_q := q'\<rparr>" by simp
    then show ?thesis using True s q' st i3 as sys_inv_reset [OF i3]
      by (cases "alarm_state y = ALARM_ACTIVE") (auto simp: system_unset_def Let_def y1_def alarm_state_def)
  qed
qed

lemma alarm_ops_run:
  assumes "sys_inv y"
  shows "\<exists>y'. alarm_tick env y = Some y' \<and> sys_inv y'" "\<exists>y'. alarm_trigger env y = Some y' \<and> sys_inv y'"
proof -
  have wf: "sys_wf y" "al_siren_state (sy_alarm y) \<longleftrightarrow> al_siren_tmr (sy_alarm y) > 0" "al_siren_tmr (sy_alarm y) \<ge> 0"
    using assms by (auto simp: sys_inv_def siren_ok_def)
  show "\<exists>y'. alarm_tick env y = Some y' \<and> sys_inv y'"
    using alarm_tick_run [OF wf(1,2), of env] wf(2,3) by (auto simp: sys_inv_def siren_ok_def tick_alarm_def)
  define y0 where "y0 = upd_alarm (\<lambda>a. a\<lparr>al_cnt := al_cnt a + 1, al_state := ALARM_ACTIVE, al_alarm_tmr := ALARM_TIME\<rparr>) y"
  have "sys_wf y0" using wf by (simp add: y0_def)
  from siren_on_run [OF this, of env] obtain y1 where y1: "siren_on env y0 = Some y1"
    "io_only (upd_alarm (\<lambda>a. if al_siren_state a then a
       else a\<lparr>al_siren_tmr := SIREN_TIME, al_siren_state := True\<rparr>) y0) y1" by blast
  have "sys_inv y1" using io_only_wf [OF y1(2)] io_only_same [OF y1(2)] wf
    by (auto simp: sys_inv_def siren_ok_def y0_def)
  moreover have "alarm_trigger env y = (if al_state (sy_alarm y) = ALARM_ACTIVE then Some y
     else if al_cnt (sy_alarm y) + 1 > ALARMS_MAX then Some (upd_alarm (\<lambda>a. a\<lparr>al_cnt := al_cnt a + 1\<rparr>) y)
     else siren_on env y0)" by (simp add: alarm_trigger_def Let_def y0_def)
  ultimately show "\<exists>y'. alarm_trigger env y = Some y' \<and> sys_inv y'"
    using y1 assms by (auto simp: sys_inv_def siren_ok_def)
qed

lemma sys_step_inv:
  assumes "sys_inv y" "op_ok op"
  shows "\<exists>y'. sys_step op env y = Some y' \<and> sys_inv y'"
proof (cases op)
  case (Inp_activated n)
  then show ?thesis using activated_run [OF assms(1)] assms(2) by (simp add: op_ok_def)
next
  case (Inp_deactivated n)
  then show ?thesis using assms(1) by (simp add: system_inp_deactivated_def Let_def)
next
  case Sys_tick
  then show ?thesis using tick_loop_run [OF assms(1), of 0 8 env] by (simp add: system_tick_def system_input_tick_def)
next
  case Sys_task
  then show ?thesis
    using section_task_run [of "sy_inps y" "sy_q y" "sy_sect y" env] assms(1)
    by (auto simp: system_task_def sys_inv_def sys_wf_def siren_ok_def)
next
  case Al_tick
  then show ?thesis using alarm_ops_run(1) [OF assms(1)] by simp
next
  case (Sys_set src)
  then show ?thesis using set_unset_run(1) [OF assms(1)] by simp
next
  case (Sys_unset src)
  then show ?thesis using set_unset_run(2) [OF assms(1)] by simp
next
  case (Sys_event e)
  then show ?thesis using alarm_ops_run(2) [OF assms(1), of env] assms(1) by (auto simp: system_event_def)
qed

lemma sys_run_inv:
  "sys_inv y \<Longrightarrow> \<forall>(op, env) \<in> set ops. op_ok op \<Longrightarrow> \<exists>y'. sys_run ops y = Some y' \<and> sys_inv y'"
proof (induction ops arbitrary: y)
  case (Cons p ops)
  obtain op env where p: "p = (op, env)" by (cases p)
  from sys_step_inv [OF Cons.prems(1), of op env] Cons.prems(2) p obtain y1 where
    "sys_step op env y = Some y1" "sys_inv y1" by auto
  with Cons.IH [of y1] Cons.prems(2) p show ?case by auto
qed simp

subsection \<open>A disarmed system\<close>

text \<open>Unset, nothing pending, no input that alarms around the clock.\<close>

definition quiet :: "('f, 'rtc) sys \<Rightarrow> bool" where
  "quiet y \<longleftrightarrow> sys_inv y \<and> system_state y = SECTION_ST_UNSET \<and> sd_timer (sc_data (sy_sect y)) = 0
     \<and> (\<forall>i \<in> set (sy_inps y). si_reaction i \<noteq> ALARM_REACTION_24H)"

definition sensor_op :: "sys_op \<Rightarrow> bool" where
  "sensor_op op \<longleftrightarrow> (case op of Inp_activated n \<Rightarrow> n < INP_SIZE | Inp_deactivated n \<Rightarrow> True
      | Sys_tick \<Rightarrow> True | Sys_task \<Rightarrow> True | Al_tick \<Rightarrow> True | _ \<Rightarrow> False)"

lemma quiet_signal: "quiet y \<Longrightarrow> sig \<noteq> ALARM_REACTION_24H \<Longrightarrow>
   section_signal env inps (sy_sect y) q n sig = Some (sy_sect y, q)"
  by (simp add: quiet_def section_signal_def system_state_def)

lemma quiet_tick_loop:
  assumes "quiet y" "n + k \<le> 8"
  shows "\<exists>y'. system_input_tick_loop env k n y = Some y' \<and> quiet y' \<and> sy_q y' = sy_q y"
  using assms
proof (induction k arbitrary: n y)
  case (Suc k)
  obtain inp' fired where t: "system_input_tick1 (sy_inps y ! n) = (inp', fired)" by fastforce
  have n: "n < 8" and inv: "sys_inv y" using Suc.prems by (auto simp: quiet_def)
  note S = tick_step_run [OF inv n t]
  have r: "si_reaction inp' \<noteq> ALARM_REACTION_24H"
    using system_input_tick1_wf [OF t] Suc.prems(1) S(3) by (auto simp: quiet_def)
  define y1 where "y1 = y\<lparr>sy_inps := (sy_inps y)[n := inp']\<rparr>"
  have y1: "quiet y1" "sy_q y1 = sy_q y"
    using S(1) r Suc.prems(1) set_update_subset_insert [of "sy_inps y" n inp']
    by (auto simp: quiet_def y1_def system_state_def)
  have "of_nat n < (INP_SIZE :: u8)" using n by (simp add: word_less_nat_alt)
  moreover have "inps_wf (sy_inps y1)" using y1(1) by (simp add: quiet_def sys_inv_def sys_wf_def)
  ultimately have "system_inp_signal env y1 (of_nat n) (si_reaction inp') = Some y1"
    using quiet_signal [OF y1(1) r, of env "sy_inps y1" "sy_q y1" "of_nat n"] by (simp add: system_inp_signal_def system_input_get_Some)
  then show ?case using t S y1 Suc.IH [of y1 "Suc n"] Suc.prems by (auto simp: y1_def [symmetric] Let_def)
qed simp

lemma quiet_step:
  assumes "quiet y" "sensor_op op"
  shows "\<exists>y'. sys_step op env y = Some y' \<and> quiet y' \<and> sy_q y' = sy_q y"
proof -
  have inv: "sys_inv y" using assms(1) by (simp add: quiet_def)
  show ?thesis
  proof (cases op)
    case (Inp_activated n)
    then have n: "n < INP_SIZE" using assms(2) by (simp add: sensor_op_def)
    have wf: "inps_wf (sy_inps y)" using inv by (simp add: sys_inv_def sys_wf_def)
    have "sy_inps y ! unat n \<in> set (sy_inps y)"
      using wf n by (intro nth_mem) (simp add: inps_wf_def word_less_nat_alt)
    then have "\<not> section_alarm_enabled (sy_sect y) (si_reaction (sy_inps y ! unat n))"
      using assms(1) by (auto simp: quiet_def section_alarm_enabled_def system_state_def)
    then show ?thesis using Inp_activated system_input_get_Some [OF wf n] assms(1)
      by (auto simp: system_inp_activated_def inp_alarm_def Let_def do_act_def quiet_def system_state_def
          sys_inv_def sys_wf_def siren_ok_def)
  next
    case (Inp_deactivated n)
    then show ?thesis using assms(1)
      by (auto simp: system_inp_deactivated_def Let_def do_act_def quiet_def system_state_def
          sys_inv_def sys_wf_def siren_ok_def)
  next
    case Sys_tick
    then show ?thesis using quiet_tick_loop [OF assms(1), of 0 8 env] by (simp add: system_tick_def system_input_tick_def)
  next
    case Sys_task
    then show ?thesis using assms(1) by (simp add: system_task_def section_task_def quiet_def)
  next
    case Al_tick
    have wf: "sys_wf y" "al_siren_state (sy_alarm y) \<longleftrightarrow> al_siren_tmr (sy_alarm y) > 0"
      using inv by (auto simp: sys_inv_def siren_ok_def)
    from alarm_tick_run [OF wf, of env] alarm_ops_run(1) [OF inv, of env] show ?thesis using Al_tick assms(1)
      by (auto simp: quiet_def system_state_def)
  qed (use assms(2) in \<open>auto simp: sensor_op_def\<close>)
qed

lemma quiet_run:
  "quiet y \<Longrightarrow> \<forall>(op, env) \<in> set ops. sensor_op op \<Longrightarrow> \<exists>y'. sys_run ops y = Some y' \<and> sy_q y' = sy_q y \<and> quiet y'"
proof (induction ops arbitrary: y)
  case (Cons p ops)
  obtain op env where p: "p = (op, env)" by (cases p)
  from quiet_step [OF Cons.prems(1), of op env] Cons.prems(2) p obtain y1 where
    y1: "sys_step op env y = Some y1" "quiet y1" "sy_q y1 = sy_q y" by auto
  have "\<forall>(op, env) \<in> set ops. sensor_op op" using Cons.prems(2) by simp
  with Cons.IH [OF y1(2)] y1 p show ?case by auto
qed simp

subsection \<open>Properties\<close>

text \<open>C14: from a well-formed state, every sequence of the calls the tasks make (inputs 0 to 7
activated or deactivated, ticks, tasks, setting, unsetting, events) runs without a failed assertion or
an access outside a table, and keeps the invariant of section, inputs, outputs, siren and event ring.\<close>

theorem system_run_safe:
  assumes "sys_inv y" "\<forall>(op, env) \<in> set ops. op_ok op"
  shows "\<exists>y'. sys_run ops y = Some y' \<and> sys_inv y'"
  using sys_run_inv [OF assms] .

lemma ex_sys_inv: "sys_inv ex_sys"
  using ex_sys_wf by (simp add: sys_inv_def siren_ok_def ex_sys_def)

theorem system_run_safe_witness:
  "\<exists>y'. sys_run [(Inp_activated INP_DOOR, ex_env 1), (Sys_tick, ex_env 2), (Sys_unset EVENT_SOURCE_USER1, ex_env 3)] ex_sys = Some y'
     \<and> sys_inv y'"
  by (rule system_run_safe [OF ex_sys_inv]) (simp add: op_ok_def)

text \<open>C8: a disarmed system raises no alarm: after \<open>system_unset\<close> of an armed section, when no
input is configured to alarm around the clock, no sequence of input changes, ticks and section tasks
queues any event.\<close>

theorem system_unset_no_alarm:
  assumes "sys_inv y" "\<forall>i \<in> set (sy_inps y). si_reaction i \<noteq> ALARM_REACTION_24H"
    and "system_state y \<noteq> SECTION_ST_UNSET" "system_unset env y src = Some y1"
    and "\<forall>(op, env) \<in> set ops. sensor_op op"
  shows "\<exists>y2. sys_run ops y1 = Some y2 \<and> pending (sy_q y2) = pending (sy_q y1) \<and> system_state y2 = SECTION_ST_UNSET"
proof -
  have wf: "section_wf (sy_sect y)" "event_q_wf (sy_q y)" using assms(1) by (auto simp: sys_inv_def sys_wf_def)
  obtain s q where s: "section_unset env (sy_sect y) (sy_q y) src = Some (s, q, True)"
    "sd_state (sc_data s) = SECTION_ST_UNSET" "sd_timer (sc_data s) = 0" "event_q_wf q"
    using event_q_create [OF wf(2), of env EVENT_ID_UNSET src] assms(3)
    by (auto simp: section_unset_def set_state_def Let_def system_state_def)
  obtain q' where q': "section_event env q EVENT_ID_ALARM_CANCEL src = Some q'"
    using event_q_create [OF s(4)] by blast
  have y1: "sys_inv y1" using set_unset_run(2) [OF assms(1), of env src] assms(4) by auto
  define y0 where "y0 = y\<lparr>sy_sect := s, sy_q := (if alarm_state y = ALARM_ACTIVE then q' else q)\<rparr>"
  have "sys_wf y0" using assms(1) event_q_create [OF s(4), of env EVENT_ID_ALARM_CANCEL src] q' s
      set_state_run [OF wf(2,1), of env SECTION_ST_UNSET src]
    by (auto simp: y0_def sys_inv_def sys_wf_def section_unset_def)
  from siren_off_run [OF this, of env] obtain y2 where y2: "siren_off env y0 = Some y2"
    "io_only (upd_alarm (\<lambda>a. if al_siren_state a then a\<lparr>al_siren_tmr := 0, al_siren_state := False\<rparr> else a) y0) y2"
    by blast
  have "alarm_stop env y0 = Some (upd_alarm (\<lambda>a. a\<lparr>al_alarm_tmr := 0, al_cnt := 0, al_state := ALARM_IDLE\<rparr>) y2)"
    using y2(1) by (simp add: alarm_stop_def)
  then have "sy_sect y1 = s \<and> sy_inps y1 = system_input_reset (sy_inps y)"
    using assms(4) s(1) q' io_only_same [OF y2(2)]
    by (cases "alarm_state y = ALARM_ACTIVE")
       (auto simp: system_unset_def Let_def y0_def alarm_state_def save_state_def do_act_def split: prod.splits)
  then have "quiet y1" using y1 s assms(2)
    by (auto simp: quiet_def system_state_def system_input_reset_def)
  from quiet_run [OF this assms(5)] show ?thesis by (auto simp: quiet_def)
qed

lemma ex_sys_reactions: "\<forall>i \<in> set (sy_inps ex_sys). si_reaction i \<noteq> ALARM_REACTION_24H"
  by (auto simp: ex_sys_def system_input_init_def)

theorem system_unset_no_alarm_witness:
  "\<exists>y1 y2. system_unset (ex_env 3) ex_sys EVENT_SOURCE_USER1 = Some y1
     \<and> sys_run [(Inp_activated INP_DOOR, ex_env 4), (Sys_tick, ex_env 5), (Sys_task, ex_env 6)] y1 = Some y2
     \<and> pending (sy_q y2) = pending (sy_q y1)"
proof -
  obtain y1 where y1: "system_unset (ex_env 3) ex_sys EVENT_SOURCE_USER1 = Some y1"
    using set_unset_run(2) [OF ex_sys_inv] by blast
  have "system_state ex_sys \<noteq> SECTION_ST_UNSET" by (simp add: ex_sys_def system_state_def ex_section_def)
  from system_unset_no_alarm [OF ex_sys_inv ex_sys_reactions this y1,
      of "[(Inp_activated INP_DOOR, ex_env 4), (Sys_tick, ex_env 5), (Sys_task, ex_env 6)]"] y1
  show ?thesis by (auto simp: sensor_op_def)
qed

lemma saved_state_read:
  assumes "flash_lawful mem (st_dev (cf_store (sy_cfg y)))" "sd_state (sc_data (sy_sect y)) = of_nat k" "k < 5"
    and "snd (cfg_write (sy_cfg y) CFG_ID_STATE (str ''S'' @ show_int (sint (sd_state (sc_data (sy_sect y))))) ACCESS_SYSTEM)"
    and "cfg_read (sy_cfg (save_state y)) CFG_ID_STATE ACCESS_SYSTEM = (cf', r)"
  shows "(r = Some (False, []) \<or> r = Some (True, str ''S'' @ show_nat k)) \<and> scan_state (str ''S'' @ show_nat k) = Some (int k)"
proof -
  have st: "sint (of_nat k :: u32) = int k"
    using assms(3) by (simp add: signed_of_nat signed_take_bit_int_eq_self)
  define tx where "tx = str ''S'' @ show_nat k"
  have tx_eq: "str ''S'' @ show_int (sint (sd_state (sc_data (sy_sect y)))) = tx"
    using assms(2) st by (simp add: tx_def show_int_def)
  have kk: "k = 0 \<or> k = 1 \<or> k = 2 \<or> k = 3 \<or> k = 4" using assms(3) by arith
  have len: "length tx \<le> 61" "0 \<notin> set tx"
    using kk by (auto simp: tx_def str_def show_nat.simps [of k])
  obtain cf where w: "cfg_write (sy_cfg y) CFG_ID_STATE tx ACCESS_SYSTEM = (cf, True)"
    using assms(4) tx_eq by (metis prod.collapse)
  have cf: "sy_cfg (save_state y) = cf" using w tx_eq by (simp add: save_state_def)
  from cfg_write_item [OF assms(1) w] have lw: "flash_lawful mem (st_dev (cf_store cf))"
    and it: "cfg_item_at mem cf CFG_ID_STATE = \<lparr>ci_data = tx @ replicate (62 - length tx) 0,
           ci_chsum = cfg_chsum (tx @ replicate (62 - length tx) 0)\<rparr>" by auto
  have rd: "cfg_read cf CFG_ID_STATE ACCESS_SYSTEM = (cf', r)" using assms(5) cf by simp
  have "c_str (ci_data (cfg_item_at mem cf CFG_ID_STATE)) = Some tx"
    using len by (simp add: it c_str_pad)
  moreover have "cfg_valid (cfg_item_at mem cf CFG_ID_STATE)" by (simp add: it cfg_valid_def)
  ultimately have r: "r = Some (False, []) \<or> r = Some (True, tx)" using cfg_read_item [OF lw rd] by auto
  have sc: "scan_state tx = Some (int k)"
    using scan_show [of "[]" k] by (simp add: scan_state_def tx_def str_def)
  show ?thesis using r sc by (simp add: tx_def)
qed

text \<open>C16: the section state survives a restart: when \<open>save_state\<close> could write the configuration
and \<open>system_init\<close> can read it, the restarted system is in the saved state, with no timer, no flag
and the alarm idle.\<close>

theorem system_state_survives:
  assumes "flash_lawful mem (st_dev (cf_store (sy_cfg y)))" "sys_wf y" "sd_state (sc_data (sy_sect y)) = of_nat k" "k < 5"
    and "snd (cfg_write (sy_cfg y) CFG_ID_STATE (str ''S'' @ show_int (sint (sd_state (sc_data (sy_sect y))))) ACCESS_SYSTEM)"
    and "sys_wf y0" "system_init env (y0\<lparr>sy_cfg := sy_cfg (save_state y)\<rparr>) = Some (y', True)"
  shows "system_state y' = system_state y \<and> sd_timer (sc_data (sy_sect y')) = 0 \<and> sd_flags (sc_data (sy_sect y')) = 0
     \<and> alarm_state y' = ALARM_IDLE"
proof -
  define cf where "cf = sy_cfg (save_state y)"
  obtain cf' r where rd: "cfg_read cf CFG_ID_STATE ACCESS_SYSTEM = (cf', r)" by fastforce
  from saved_state_read [OF assms(1,3,4,5) rd [unfolded cf_def]]
  have r: "r = Some (False, []) \<or> r = Some (True, str ''S'' @ show_nat k)"
    and sc: "scan_state (str ''S'' @ show_nat k) = Some (int k)" by auto
  define y1 where "y1 = y0\<lparr>sy_inps := system_input_init, sy_cfg := cf',
     sy_sect := section_init ((sy_sect y0)\<lparr>sc_num := 0, sc_tm_out := ucast (DELAY_TMOUT * en_second env),
                                    sc_tm_in := ucast (DELAY_TMIN * en_second env)\<rparr>)\<rparr>"
  define y2 where "y2 = upd_alarm (\<lambda>a. a\<lparr>al_state := ALARM_IDLE, al_cnt := 0, al_alarm_tmr := 0\<rparr>) y1"
  have "sys_wf y2" using assms(6) by (simp add: y2_def y1_def sys_wf_def inps_wf_init section_wf_def section_init_def)
  from siren_off_run [OF this, of env] obtain y3 where y3: "siren_off env y2 = Some y3"
    "io_only (upd_alarm (\<lambda>a. if al_siren_state a then a\<lparr>al_siren_tmr := 0, al_siren_state := False\<rparr> else a) y2) y3"
    by blast
  have "alarm_init env y1 = Some y3" using y3(1) by (simp add: alarm_init_def y2_def)
  then have "y' = y3\<lparr>sy_sect := upd_data (\<lambda>d. d\<lparr>sd_state := of_nat k\<rparr>) (sy_sect y3)\<rparr>"
    using assms(7) r rd sc by (auto simp: system_init_def cf_def [symmetric] Let_def y1_def)
  then show ?thesis using io_only_same [OF y3(2)] assms(3)
    by (auto simp: system_state_def alarm_state_def y2_def y1_def section_init_def)
qed

lemma table_get_state: "table_get CFG_ID_STATE =
   Some \<lparr>ct_id = CFG_ID_STATE, ct_read = ACCESS_SYSTEM, ct_write = ACCESS_SYSTEM, ct_data = str ''S1''\<rparr>"
  by (simp add: table_get_def CFG_TABLE_def)

theorem system_state_survives_witness:
  "\<exists>y'. system_init (ex_env 9) (ex_sys\<lparr>sy_cfg := sy_cfg (save_state ex_sys)\<rparr>) = Some (y', True)
     \<and> system_state y' = SECTION_ST_SET"
proof -
  let ?tx = "str ''S'' @ show_int (sint (sd_state (sc_data (sy_sect ex_sys))))"
  have st: "sd_state (sc_data (sy_sect ex_sys)) = of_nat 3" by (simp add: ex_sys_def ex_section_def)
  have tx: "?tx = str ''S3''" by (simp add: st show_int_def show_nat.simps str_def)
  have items: "length (item_bytes \<lparr>ci_data = str ''S3'' @ replicate 60 0, ci_chsum = c\<rparr>) = 64" for c
    by (simp add: item_bytes_def str_def)
  have len: "length (str ''S3'') = 2" by (simp add: str_def)
  have w: "snd (cfg_write (sy_cfg ex_sys) CFG_ID_STATE ?tx ACCESS_SYSTEM)"
    and m: "\<exists>m. cf_store (sy_cfg (save_state ex_sys)) = ram_storage m"
    unfolding save_state_def tx
    by (auto simp: cfg_write_def ex_sys_def ex_cfg_def cfg_table_access_write_def table_get_state ram_write_cfg
        cfg_addr_def Let_def items len)
  obtain m where m': "cf_store (sy_cfg (save_state ex_sys)) = ram_storage m" using m by blast
  obtain cf' r where rd: "cfg_read (sy_cfg (save_state ex_sys)) CFG_ID_STATE ACCESS_SYSTEM = (cf', r)" by fastforce
  have "r \<noteq> Some (False, [])"
    using rd m' by (auto simp: cfg_read_def cfg_table_access_read_def table_get_state ram_read_cfg cfg_addr_def Let_def
        cfg_table_default_def split: option.splits if_splits)
  with saved_state_read [where mem = id, OF _ st _ w rd] have r: "r = Some (True, str ''S'' @ show_nat 3)"
    by (auto simp: ex_sys_def ex_cfg_def)
  have init: "\<exists>y'. alarm_init env y = Some y'" if "sys_wf y" for env and y :: "('b, 'c) sys"
    using siren_off_run [of "upd_alarm (\<lambda>a. a\<lparr>al_state := ALARM_IDLE, al_cnt := 0, al_alarm_tmr := 0\<rparr>) y" env] that
    by (auto simp: alarm_init_def)
  let ?y = "ex_sys\<lparr>sy_inps := system_input_init, sy_cfg := cf', sy_sect := section_init ((sy_sect ex_sys)\<lparr>sc_num := 0,
     sc_tm_out := ucast (DELAY_TMOUT * en_second (ex_env 9)), sc_tm_in := ucast (DELAY_TMIN * en_second (ex_env 9))\<rparr>)\<rparr>"
  have "sys_wf ?y" using ex_sys_wf by (simp add: sys_wf_def inps_wf_init section_wf_def section_init_def)
  then obtain y3 where "alarm_init (ex_env 9) ?y = Some y3" using init by blast
  then obtain y' where run: "system_init (ex_env 9) (ex_sys\<lparr>sy_cfg := sy_cfg (save_state ex_sys)\<rparr>) = Some (y', True)"
    using rd r by (simp add: system_init_def Let_def)
  with system_state_survives [where mem = id, OF _ ex_sys_wf st _ w ex_sys_wf run] st show ?thesis
    by (auto simp: ex_sys_def ex_cfg_def system_state_def ex_section_def)
qed

end
