(* ===== verification/EventMemory.thy ===== *)
theory EventMemory
  imports EventTypes Storage
begin

text \<open>
  \<open>app/event_memory.c\<close>: the log of the last events in the event region of the external
  flash, a ring of 8192 slots of 64 bytes, with its write pointer and the event counter
  that it hands to \<open>event_set_cnt\<close>.
\<close>

unbundle bit_operations_syntax

subsection \<open>The stored form of an event\<close>

text \<open>
  An \<open>event_t\<close> is written as its object representation.  The layout of \<open>rtc_t\<close> belongs to
  the SDK, so the representation is a parameter; \<open>codec_ok\<close> is what \<open>memcpy\<close> of an object
  gives, with the static assertion on its size.
\<close>

record 'rtc ev_codec =
  ec_enc :: "'rtc event \<Rightarrow> u8 list"
  ec_dec :: "u8 list \<Rightarrow> 'rtc event"
  ec_size :: u32
  ec_rtc_valid :: "'rtc \<Rightarrow> bool"

abbreviation (input) EVENT_MEM_SIZE :: u32 where "EVENT_MEM_SIZE \<equiv> 64"

definition codec_ok :: "'rtc ev_codec \<Rightarrow> bool" where
  "codec_ok C \<longleftrightarrow> (\<forall>e. length (ec_enc C e) = unat (ec_size C) \<and> ec_dec C (ec_enc C e) = e)
     \<and> ec_size C \<le> EVENT_MEM_SIZE"

subsection \<open>State and operations\<close>

record ('f, 'rtc) event_mem =
  em_st :: "'f storage"
  em_ptr :: u32
  em_cnt :: u32

definition ptr_inc :: "u32 \<Rightarrow> u32" where
  "ptr_inc ptr =
     (let ptr = ptr + EVENT_MEM_SIZE
      in if ptr > STORAGE_EVENT_MEM_SPACE - EVENT_MEM_SIZE then 0 else ptr)"

definition ptr_dec :: "u32 \<Rightarrow> u32" where
  "ptr_dec ptr =
     (if ptr \<ge> EVENT_MEM_SIZE then ptr - EVENT_MEM_SIZE else STORAGE_EVENT_MEM_SPACE - EVENT_MEM_SIZE)"

definition event_set_cnt :: "('f, 'rtc) event_mem \<Rightarrow> u32 \<Rightarrow> ('f, 'rtc) event_mem" where
  "event_set_cnt em cnt = em\<lparr>em_cnt := cnt\<rparr>"

lemma em_step_less: "i < STORAGE_EVENT_MEM_SPACE - EVENT_MEM_SIZE \<Longrightarrow> unat (i + EVENT_MEM_SIZE) = unat i + 64"
  for i :: u32
  by (simp add: word_less_nat_alt unat_word_ariths)

text \<open>The scan of \<open>event_memory_init\<close>; it fails, stops at the first invalid slot, or ends.\<close>

datatype scan_result = Scan_failed | Scan_empty u32 u32 | Scan_full u32 u32

function em_scan :: "'rtc ev_codec \<Rightarrow> 'f storage \<Rightarrow> u32 \<Rightarrow> u32 \<Rightarrow> u32 \<Rightarrow> 'f storage \<times> scan_result" where
  "em_scan C st i cnt_max ptr_max =
     (if i < STORAGE_EVENT_MEM_SPACE - EVENT_MEM_SIZE then
        (case storage_read_event st i (ec_size C) of
           (st, None) \<Rightarrow> (st, Scan_failed)
         | (st, Some bs) \<Rightarrow>
             let e = ec_dec C bs
             in if \<not> event_valid (ec_rtc_valid C) e then (st, Scan_empty i cnt_max)
                else if ev_cnt e > cnt_max then em_scan C st (i + EVENT_MEM_SIZE) (ev_cnt e) i
                else em_scan C st (i + EVENT_MEM_SIZE) cnt_max ptr_max)
      else (st, Scan_full cnt_max ptr_max))"
  by pat_completeness auto
termination
  by (relation "measure (\<lambda>(C, st, i, c, p). 0x80000 - unat i)")
     (auto simp: em_step_less [simplified] word_less_nat_alt)

declare em_scan.simps [simp del]

definition event_memory_init :: "'rtc ev_codec \<Rightarrow> ('f, 'rtc) event_mem \<Rightarrow> ('f, 'rtc) event_mem \<times> bool" where
  "event_memory_init C em =
     (case em_scan C (em_st em) 0 0 0 of
        (st, Scan_failed) \<Rightarrow> (em\<lparr>em_st := st\<rparr>, False)
      | (st, Scan_empty i cnt_max) \<Rightarrow> (event_set_cnt (em\<lparr>em_st := st, em_ptr := i\<rparr>) cnt_max, True)
      | (st, Scan_full cnt_max ptr_max) \<Rightarrow>
          ((event_set_cnt (em\<lparr>em_st := st\<rparr>) cnt_max)\<lparr>em_ptr := ptr_inc ptr_max\<rparr>, True))"

definition event_memory_store :: "'rtc ev_codec \<Rightarrow> ('f, 'rtc) event_mem \<Rightarrow> 'rtc event
    \<Rightarrow> (('f, 'rtc) event_mem \<times> bool) option" where
  "event_memory_store C em event =
     (let ptr = em_ptr em; em = em\<lparr>em_ptr := ptr_inc (em_ptr em)\<rparr>
      in do { _ \<leftarrow> os_assert (ptr \<le> STORAGE_EVENT_MEM_SPACE - EVENT_MEM_SIZE);
              let (st, r) = storage_write_event (em_st em) ptr (ec_enc C event)
              in Some (em\<lparr>em_st := st\<rparr>, r) })"

function em_read_loop :: "'rtc ev_codec \<Rightarrow> 'f storage \<Rightarrow> u32 \<Rightarrow> u32 \<Rightarrow> u32
    \<Rightarrow> 'f storage \<times> 'rtc event option \<times> bool" where
  "em_read_loop C st i ptr back_index =
     (if i < STORAGE_EVENT_MEM_SPACE - EVENT_MEM_SIZE then
        let ptr = ptr_dec ptr
        in if back_index = 0
           then (case storage_read_event st ptr (ec_size C) of
                   (st, Some bs) \<Rightarrow> (st, Some (ec_dec C bs), event_valid (ec_rtc_valid C) (ec_dec C bs))
                 | (st, None) \<Rightarrow> (st, None, False))
           else em_read_loop C st (i + EVENT_MEM_SIZE) ptr (back_index - 1)
      else (st, None, False))"
  by pat_completeness auto
termination
  by (relation "measure (\<lambda>(C, st, i, p, b). 0x80000 - unat i)")
     (auto simp: em_step_less [simplified] word_less_nat_alt)

declare em_read_loop.simps [simp del]

definition event_memory_read :: "'rtc ev_codec \<Rightarrow> ('f, 'rtc) event_mem \<Rightarrow> u32
    \<Rightarrow> ('f, 'rtc) event_mem \<times> 'rtc event option \<times> bool" where
  "event_memory_read C em back_index =
     (case em_read_loop C (em_st em) 0 (em_ptr em) back_index of (st, e, r) \<Rightarrow> (em\<lparr>em_st := st\<rparr>, e, r))"

subsection \<open>Slots\<close>

definition slot_ptr :: "nat \<Rightarrow> u32" where
  "slot_ptr j = of_nat (64 * j)"

lemma unat_slot_ptr [simp]: "j < 8192 \<Longrightarrow> unat (slot_ptr j) = 64 * j"
  by (simp add: slot_ptr_def unsigned_of_nat take_bit_nat_eq_self del: of_nat_mult)

lemma slot_ptr_eq [simp]: "i < 8192 \<Longrightarrow> j < 8192 \<Longrightarrow> slot_ptr i = slot_ptr j \<longleftrightarrow> i = j"
  by (metis unat_slot_ptr mult_cancel1 zero_neq_numeral)

lemma slot_ptr_less: "j < 8192 \<Longrightarrow> slot_ptr j < 0x7FFC0 \<longleftrightarrow> j < 8191"
  by (auto simp: word_less_nat_alt)

lemma slot_ptr_step: "slot_ptr j + EVENT_MEM_SIZE = slot_ptr (Suc j)"
  by (simp add: slot_ptr_def)

text \<open>The slot after \<open>p\<close>, and the one \<open>k + 1\<close> steps before it, round the ring.\<close>

definition slot_next :: "nat \<Rightarrow> nat" where
  "slot_next p = (if p = 8191 then 0 else Suc p)"

definition slot_back :: "nat \<Rightarrow> nat \<Rightarrow> nat" where
  "slot_back p k = (if k < p then p - Suc k else p + 8191 - k)"

lemma slot_next_less: "p < 8192 \<Longrightarrow> slot_next p < 8192"
  by (simp add: slot_next_def)

lemma slot_back_less: "p < 8192 \<Longrightarrow> k < 8192 \<Longrightarrow> slot_back p k < 8192"
  by (auto simp: slot_back_def)

lemma slot_back_next:
  assumes "p < 8192" "k < 8192"
  shows "slot_back (slot_next p) k = (case k of 0 \<Rightarrow> p | Suc m \<Rightarrow> slot_back p m)"
  using assms by (cases k) (auto simp: slot_back_def slot_next_def)

lemma slot_back_back: "p < 8192 \<Longrightarrow> Suc k < 8192 \<Longrightarrow> slot_back (slot_back p 0) k = slot_back p (Suc k)"
  by (auto simp: slot_back_def)

lemma slot_back_neq: "p < 8192 \<Longrightarrow> k < 8191 \<Longrightarrow> slot_back p k \<noteq> p"
  by (auto simp: slot_back_def)

lemma ptr_inc_slot: "j < 8192 \<Longrightarrow> ptr_inc (slot_ptr j) = slot_ptr (slot_next j)"
proof -
  assume j: "j < 8192"
  have u: "unat (slot_ptr (Suc j)) = 64 * Suc j"
    unfolding slot_ptr_def by (rule unat_of_nat_u32) (use j in simp)
  have "ptr_inc (slot_ptr j) = (if slot_ptr (Suc j) > 0x7FFC0 then 0 else slot_ptr (Suc j))"
    by (simp add: ptr_inc_def Let_def slot_ptr_step [simplified])
  also have "\<dots> = slot_ptr (slot_next j)"
    using j u by (auto simp: word_less_nat_alt slot_next_def) (simp_all add: slot_ptr_def)
  finally show ?thesis .
qed

lemma ptr_dec_slot: "j < 8192 \<Longrightarrow> ptr_dec (slot_ptr j) = slot_ptr (slot_back j 0)"
proof (cases j)
  case 0
  then show ?thesis by (simp add: ptr_dec_def slot_ptr_def slot_back_def)
next
  case (Suc m)
  assume j: "j < 8192"
  have "unat (slot_ptr j) = 64 * j" using j by simp
  moreover have "slot_ptr j - 64 = slot_ptr m" using Suc by (simp add: slot_ptr_step [of m, symmetric])
  ultimately show ?thesis using Suc by (simp add: ptr_dec_def word_le_nat_alt slot_back_def)
qed

definition slot_event :: "('f \<Rightarrow> nat \<Rightarrow> u8) \<Rightarrow> 'rtc ev_codec \<Rightarrow> 'f storage \<Rightarrow> nat \<Rightarrow> 'rtc event" where
  "slot_event mem C st j = ec_dec C (event_region.at mem st (64 * j) (unat (ec_size C)))"

lemma codec_size: "codec_ok C \<Longrightarrow> unat (ec_size C) \<le> 64"
  by (simp add: codec_ok_def word_le_nat_alt)

lemma read_slot:
  assumes "codec_ok C" "flash_lawful mem (st_dev st)" "j < 8192"
    "storage_read_event st (slot_ptr j) (ec_size C) = (st', r)"
  shows "flash_lawful mem (st_dev st')" "slot_event mem C st' = slot_event mem C st" "st_same st st'"
    and "r = Some bs \<Longrightarrow> ec_dec C bs = slot_event mem C st j"
proof -
  have fit: "unat (slot_ptr j) + unat (ec_size C) \<le> 0x80000"
    using codec_size [OF assms(1)] assms(3) by simp
  note k = event_region.read_keeps [OF assms(2) fit assms(4)]
  show "flash_lawful mem (st_dev st')" "slot_event mem C st' = slot_event mem C st" "st_same st st'"
    using k by (simp_all add: slot_event_def fun_eq_iff)
  show "r = Some bs \<Longrightarrow> ec_dec C bs = slot_event mem C st j"
    using event_region.read_at [OF assms(2) fit] assms(3,4) by (simp add: slot_event_def)
qed

lemma write_slot:
  assumes "codec_ok C" "flash_lawful mem (st_dev st)" "j < 8192"
    "storage_write_event st (slot_ptr j) (ec_enc C e) = (st', r)"
  shows "flash_lawful mem (st_dev st')" "st_same st st'" "r \<Longrightarrow> slot_event mem C st' j = e"
    and "k \<noteq> j \<Longrightarrow> slot_event mem C st' k = slot_event mem C st k"
proof -
  have len: "length (ec_enc C e) = unat (ec_size C)" and dec: "ec_dec C (ec_enc C e) = e"
    using assms(1) by (auto simp: codec_ok_def)
  have fit: "unat (slot_ptr j) + length (ec_enc C e) \<le> 0x80000"
    using codec_size [OF assms(1)] assms(3) len by simp
  note w = event_region.write_at [OF assms(2) fit assms(4)]
  show "flash_lawful mem (st_dev st')" "st_same st st'" using w(1,2) .
  show "r \<Longrightarrow> slot_event mem C st' j = e" using w(3) len dec assms(3) by (simp add: slot_event_def)
  assume "k \<noteq> j"
  then have "64 * k + unat (ec_size C) \<le> unat (slot_ptr j) \<or> unat (slot_ptr j) + length (ec_enc C e) \<le> 64 * k"
    using codec_size [OF assms(1)] assms(3) len by auto
  from w(4) [OF this] show "slot_event mem C st' k = slot_event mem C st k"
    by (simp add: slot_event_def)
qed

subsection \<open>The log as a list, newest first\<close>

text \<open>
  \<open>em_log mem C em p xs\<close>: the pointer stands at slot \<open>p\<close> and the slots below it, going
  down and round the ring, hold \<open>xs\<close>.
\<close>

definition em_log :: "('f \<Rightarrow> nat \<Rightarrow> u8) \<Rightarrow> 'rtc ev_codec \<Rightarrow> ('f, 'rtc) event_mem \<Rightarrow> nat \<Rightarrow> 'rtc event list \<Rightarrow> bool" where
  "em_log mem C em p xs \<longleftrightarrow> p < 8192 \<and> em_ptr em = slot_ptr p \<and> flash_lawful mem (st_dev (em_st em))
     \<and> (\<forall>k < min (length xs) 8192. slot_event mem C (em_st em) (slot_back p k) = xs ! k)"

lemma em_logD:
  "em_log mem C em p xs \<Longrightarrow> p < 8192"
  "em_log mem C em p xs \<Longrightarrow> em_ptr em = slot_ptr p"
  "em_log mem C em p xs \<Longrightarrow> flash_lawful mem (st_dev (em_st em))"
  "em_log mem C em p xs \<Longrightarrow> k < length xs \<Longrightarrow> k < 8192 \<Longrightarrow>
     slot_event mem C (em_st em) (slot_back p k) = xs ! k"
  by (auto simp: em_log_def)

lemma store_log:
  assumes "codec_ok C" and L: "em_log mem C em p xs"
  shows "\<exists>em' r. event_memory_store C em e = Some (em', r)
     \<and> (r \<longrightarrow> em_log mem C em' (slot_next p) (e # xs))
     \<and> em_ptr em' = slot_ptr (slot_next p) \<and> em_cnt em' = em_cnt em
     \<and> (\<forall>k. k \<noteq> p \<longrightarrow> slot_event mem C (em_st em') k = slot_event mem C (em_st em) k)
     \<and> flash_lawful mem (st_dev (em_st em'))"
proof -
  have p: "p < 8192" and ptr: "em_ptr em = slot_ptr p" and lw: "flash_lawful mem (st_dev (em_st em))"
    using em_logD [OF L] by auto
  obtain st r where w: "storage_write_event (em_st em) (slot_ptr p) (ec_enc C e) = (st, r)" by fastforce
  note ws = write_slot [OF assms(1) lw p w]
  define em' where "em' = em\<lparr>em_ptr := slot_ptr (slot_next p), em_st := st\<rparr>"
  have "slot_ptr p \<le> 0x7FFC0" using p by (simp add: word_le_nat_alt)
  then have run: "event_memory_store C em e = Some (em', r)"
    using w p by (simp add: event_memory_store_def Let_def ptr ptr_inc_slot em'_def)
  have "em_log mem C em' (slot_next p) (e # xs)" if r
  proof -
    have "slot_event mem C st (slot_back (slot_next p) k) = (e # xs) ! k"
      if k: "k < Suc (length xs)" "k < 8192" for k
    proof (cases k)
      case 0
      then show ?thesis using ws(3) \<open>r\<close> p slot_back_next [OF p] by simp
    next
      case (Suc m)
      then show ?thesis
        using ws(4) slot_back_neq [OF p, of m] slot_back_next [OF p, of k] em_logD(4) [OF L, of m] k by simp
    qed
    then show ?thesis using ws(1) slot_next_less [OF p] by (auto simp: em_log_def em'_def)
  qed
  then show ?thesis using run ws by (auto simp: em'_def)
qed

lemma em_read_loop_slot:
  assumes "p < 8192" "j + unat k < 8191"
  shows "em_read_loop C st (slot_ptr j) (slot_ptr p) k =
     (case storage_read_event st (slot_ptr (slot_back p (unat k))) (ec_size C) of
        (st, Some bs) \<Rightarrow> (st, Some (ec_dec C bs), event_valid (ec_rtc_valid C) (ec_dec C bs))
      | (st, None) \<Rightarrow> (st, None, False))"
  using assms
proof (induction "unat k" arbitrary: k j p)
  case 0
  then have "k = 0" by (simp add: unat_eq_0)
  then show ?case using 0 by (simp add: em_read_loop.simps [of C st "slot_ptr j"] slot_ptr_less ptr_dec_slot Let_def)
next
  case (Suc n)
  then have k: "k \<noteq> 0" by auto
  then have k1: "unat (k - 1) = n" using Suc.hyps(2) by (simp add: unat_minus_one)
  have "slot_back (slot_back p 0) n = slot_back p (Suc n)" "slot_back p 0 < 8192"
    using Suc.prems Suc.hyps(2) slot_back_back [of p n] slot_back_less [of p 0] by auto
  then show ?case
    using Suc.hyps(1) [of "k - 1" "slot_back p 0" "Suc j"] Suc.prems Suc.hyps(2) k k1
    by (simp add: em_read_loop.simps [of C st "slot_ptr j"] slot_ptr_less ptr_dec_slot slot_ptr_step [simplified] Let_def)
qed

lemma em_read_loop_far:
  assumes "p < 8192" "j \<le> 8191" "8191 \<le> j + unat k"
  shows "em_read_loop C st (slot_ptr j) (slot_ptr p) k = (st, None, False)"
  using assms
proof (induction "8191 - j" arbitrary: j k p)
  case 0
  then have "\<not> slot_ptr j < 0x7FFC0" by (simp add: word_less_nat_alt)
  then show ?case by (simp add: em_read_loop.simps [of C st "slot_ptr j"])
next
  case (Suc n)
  then have k: "k \<noteq> 0" by auto
  then have "unat (k - 1) = unat k - 1" by (simp add: unat_minus_one)
  moreover have "slot_back p 0 < 8192" using Suc.prems slot_back_less by simp
  ultimately show ?case
    using Suc.hyps(1) [of "Suc j" "slot_back p 0" "k - 1"] Suc.prems Suc.hyps(2) k
    by (simp add: em_read_loop.simps [of C st "slot_ptr j"] slot_ptr_less ptr_dec_slot slot_ptr_step [simplified] Let_def)
qed

lemma slot_ptr_0: "slot_ptr 0 = 0"
  by (simp add: slot_ptr_def)

lemma read_log:
  assumes "codec_ok C" and L: "em_log mem C em p xs"
  shows "\<exists>em'. event_memory_read C em k = (em',
      if unat k \<ge> 8191 then (None, False)
      else case snd (storage_read_event (em_st em) (slot_ptr (slot_back p (unat k))) (ec_size C)) of
             None \<Rightarrow> (None, False)
           | Some _ \<Rightarrow> (let e = slot_event mem C (em_st em) (slot_back p (unat k))
                       in (Some e, event_valid (ec_rtc_valid C) e)))
      \<and> em_log mem C em' p xs"
proof -
  have p: "p < 8192" and ptr: "em_ptr em = slot_ptr p" and lw: "flash_lawful mem (st_dev (em_st em))"
    using em_logD [OF L] by auto
  show ?thesis
  proof (cases "unat k < 8191")
    case False
    then show ?thesis using em_read_loop_far [OF p, of 0 k C "em_st em"] L ptr
      by (simp add: event_memory_read_def slot_ptr_0)
  next
    case True
    define q where "q = slot_back p (unat k)"
    have q: "q < 8192" using p True slot_back_less by (simp add: q_def)
    obtain st r where rd: "storage_read_event (em_st em) (slot_ptr q) (ec_size C) = (st, r)" by fastforce
    note rs = read_slot [OF assms(1) lw q rd]
    have "em_log mem C (em\<lparr>em_st := st\<rparr>) p xs" using L rs(1,2) by (auto simp: em_log_def)
    moreover have "em_read_loop C (em_st em) 0 (slot_ptr p) k =
       (case r of Some bs \<Rightarrow> (st, Some (ec_dec C bs), event_valid (ec_rtc_valid C) (ec_dec C bs))
        | None \<Rightarrow> (st, None, False))"
      using em_read_loop_slot [OF p, of 0 k C "em_st em"] True rd by (simp add: slot_ptr_0 q_def)
    ultimately show ?thesis using True rs(4) ptr rd
      by (cases r) (auto simp: event_memory_read_def q_def [symmetric] Let_def)
  qed
qed

subsection \<open>Recovery at boot\<close>

abbreviation (input) slot_valid :: "('f \<Rightarrow> nat \<Rightarrow> u8) \<Rightarrow> 'rtc ev_codec \<Rightarrow> 'f storage \<Rightarrow> nat \<Rightarrow> bool" where
  "slot_valid mem C st j \<equiv> event_valid (ec_rtc_valid C) (slot_event mem C st j)"

abbreviation (input) slot_cnt :: "('f \<Rightarrow> nat \<Rightarrow> u8) \<Rightarrow> 'rtc ev_codec \<Rightarrow> 'f storage \<Rightarrow> nat \<Rightarrow> u32" where
  "slot_cnt mem C st j \<equiv> ev_cnt (slot_event mem C st j)"

text \<open>\<open>m\<close> is the largest of \<open>c\<close> and the values of \<open>f\<close> on \<open>A\<close>.\<close>

definition top_of :: "u32 \<Rightarrow> u32 \<Rightarrow> (nat \<Rightarrow> u32) \<Rightarrow> nat set \<Rightarrow> bool" where
  "top_of m c f A \<longleftrightarrow> c \<le> m \<and> (\<forall>l \<in> A. f l \<le> m) \<and> (m = c \<or> (\<exists>l \<in> A. f l = m))"

lemma top_of_empty [simp]: "top_of m c f {} \<longleftrightarrow> m = c"
  by (auto simp: top_of_def)

lemma top_of_step:
  assumes "j < n" "top_of m (if f j > c then f j else c) f {Suc j..<n}"
  shows "top_of m c f {j..<n}"
proof -
  have "{j..<n} = insert j {Suc j..<n}" using assms(1) by auto
  then show ?thesis using assms(2) by (auto simp: top_of_def split: if_splits)
qed

lemma all_from_step: "P j \<Longrightarrow> \<forall>l \<in> {Suc j..<n}. P l \<Longrightarrow> \<forall>l \<in> {j..<n}. P l"
  by (auto simp: Suc_le_eq le_less)

definition scan_ok :: "('f \<Rightarrow> nat \<Rightarrow> u8) \<Rightarrow> 'rtc ev_codec \<Rightarrow> 'f storage \<Rightarrow> nat \<Rightarrow> u32 \<Rightarrow> u32 \<Rightarrow> scan_result \<Rightarrow> bool" where
  "scan_ok mem C st j c q res \<longleftrightarrow>
     (case res of
        Scan_failed \<Rightarrow> True
      | Scan_empty i m \<Rightarrow> \<exists>n. j \<le> n \<and> n < 8191 \<and> i = slot_ptr n \<and> \<not> slot_valid mem C st n
           \<and> (\<forall>l \<in> {j..<n}. slot_valid mem C st l) \<and> top_of m c (slot_cnt mem C st) {j..<n}
      | Scan_full m q' \<Rightarrow> (\<forall>l \<in> {j..<8191}. slot_valid mem C st l)
           \<and> top_of m c (slot_cnt mem C st) {j..<8191}
           \<and> (m = c \<and> q' = q \<or> (\<exists>l \<in> {j..<8191}. q' = slot_ptr l \<and> slot_cnt mem C st l = m)))"

lemma scan_ok_step:
  assumes "j < 8191" "slot_valid mem C st j"
    and "slot_cnt mem C st j > c \<Longrightarrow> scan_ok mem C st (Suc j) (slot_cnt mem C st j) (slot_ptr j) res"
    and "\<not> slot_cnt mem C st j > c \<Longrightarrow> scan_ok mem C st (Suc j) c q res"
  shows "scan_ok mem C st j c q res"
proof (cases res)
  case (Scan_empty i m)
  have "scan_ok mem C st (Suc j) (if slot_cnt mem C st j > c then slot_cnt mem C st j else c)
         (if slot_cnt mem C st j > c then slot_ptr j else q) res"
    using assms(3,4) by simp
  then obtain n where n: "Suc j \<le> n" "n < 8191" "i = slot_ptr n" "\<not> slot_valid mem C st n"
    "\<forall>l \<in> {Suc j..<n}. slot_valid mem C st l"
    "top_of m (if slot_cnt mem C st j > c then slot_cnt mem C st j else c) (slot_cnt mem C st) {Suc j..<n}"
    by (auto simp: scan_ok_def Scan_empty)
  have "\<forall>l \<in> {j..<n}. slot_valid mem C st l"
    using all_from_step [of "slot_valid mem C st", OF assms(2) n(5)] .
  moreover have "top_of m c (slot_cnt mem C st) {j..<n}" 
    by (rule top_of_step [OF _ n(6)]) (use n(1) in simp)
  ultimately show ?thesis using n by (auto simp: scan_ok_def Scan_empty intro!: exI [of _ n])
next
  case (Scan_full m q')
  have s: "scan_ok mem C st (Suc j) (if slot_cnt mem C st j > c then slot_cnt mem C st j else c)
         (if slot_cnt mem C st j > c then slot_ptr j else q) res"
    using assms(3,4) by simp
  then have "\<forall>l \<in> {Suc j..<8191}. slot_valid mem C st l" by (auto simp: scan_ok_def Scan_full)
  then have "\<forall>l \<in> {j..<8191}. slot_valid mem C st l"
    by (rule all_from_step [of "slot_valid mem C st", OF assms(2)])
  moreover have "top_of m c (slot_cnt mem C st) {j..<8191}"
    using s by (intro top_of_step [OF assms(1)]) (simp only: scan_ok_def Scan_full scan_result.case)
  moreover have "m = c \<and> q' = q \<or> (\<exists>l \<in> {j..<8191}. q' = slot_ptr l \<and> slot_cnt mem C st l = m)"
    using s assms(1) by (fastforce simp: scan_ok_def Scan_full split: if_splits)
  ultimately show ?thesis by (simp add: scan_ok_def Scan_full)
qed (simp add: scan_ok_def)

lemma scan_spec:
  assumes C: "codec_ok C" and "flash_lawful mem (st_dev st)" "j \<le> 8191"
    and "em_scan C st (slot_ptr j) c q = (st', res)"
  shows "flash_lawful mem (st_dev st') \<and> slot_event mem C st' = slot_event mem C st \<and> scan_ok mem C st j c q res"
  using assms(2-)
proof (induction "8191 - j" arbitrary: j st c q)
  case 0
  then have "j = 8191" "\<not> slot_ptr j < 0x7FFC0" by (auto simp: word_less_nat_alt)
  then show ?case using 0 by (auto simp: em_scan.simps [of C st] scan_ok_def)
next
  case (Suc n)
  then have j: "j < 8191" by simp
  obtain st1 r where rd: "storage_read_event st (slot_ptr j) (ec_size C) = (st1, r)" by fastforce
  have j': "j < 8192" using j by simp
  note rs = read_slot [OF C Suc.prems(1) j' rd]
  show ?case
  proof (cases r)
    case None
    then show ?thesis using Suc.prems rd rs j by (auto simp: em_scan.simps [of C st] slot_ptr_less scan_ok_def)
  next
    case (Some bs)
    have e: "ec_dec C bs = slot_event mem C st j" using rs(4) Some by simp
    show ?thesis
    proof (cases "slot_valid mem C st j")
      case False
      then have "(st', res) = (st1, Scan_empty (slot_ptr j) c)"
        using Suc.prems(3) rd Some e j by (simp add: em_scan.simps [of C st] slot_ptr_less)
      then show ?thesis using rs False j by (auto simp: scan_ok_def intro!: exI [of _ j])
    next
      case True
      then have "em_scan C st1 (slot_ptr (Suc j)) (if slot_cnt mem C st j > c then slot_cnt mem C st j else c)
          (if slot_cnt mem C st j > c then slot_ptr j else q) = (st', res)"
        using Suc.prems(3) rd Some e j
        by (simp add: em_scan.simps [of C st] slot_ptr_less slot_ptr_step [simplified] Let_def split: if_splits)
      from Suc.hyps(1) [OF _ rs(1) _ this] Suc.hyps(2) rs(2)
      have IH: "flash_lawful mem (st_dev st')" "slot_event mem C st' = slot_event mem C st"
        "scan_ok mem C st1 (Suc j) (if slot_cnt mem C st j > c then slot_cnt mem C st j else c)
          (if slot_cnt mem C st j > c then slot_ptr j else q) res" by auto
      have "scan_ok mem C st (Suc j) (if slot_cnt mem C st j > c then slot_cnt mem C st j else c)
          (if slot_cnt mem C st j > c then slot_ptr j else q) res"
        using IH(3) by (simp only: scan_ok_def rs(2))
      then have "scan_ok mem C st j c q res" using scan_ok_step [OF j True] by (auto split: if_splits)
      with IH show ?thesis by blast
    qed
  qed
qed

lemma init_continues:
  assumes "codec_ok C" "flash_lawful mem (st_dev (em_st em))" "event_memory_init C em = (em', True)"
  shows "slot_event mem C (em_st em') = slot_event mem C (em_st em)
     \<and> (if \<exists>n < 8191. \<not> slot_valid mem C (em_st em) n
        then \<exists>n < 8191. em_ptr em' = slot_ptr n \<and> \<not> slot_valid mem C (em_st em) n
               \<and> (\<forall>l < n. slot_valid mem C (em_st em) l)
               \<and> top_of (em_cnt em') 0 (slot_cnt mem C (em_st em)) {0..<n}
        else top_of (em_cnt em') 0 (slot_cnt mem C (em_st em)) {0..<8191}
             \<and> (\<exists>l < 8191. em_ptr em' = slot_ptr (Suc l)
                  \<and> (em_cnt em' > 0 \<longrightarrow> slot_cnt mem C (em_st em) l = em_cnt em')))"
proof -
  obtain st res where sc: "em_scan C (em_st em) (slot_ptr 0) 0 (slot_ptr 0) = (st, res)" by fastforce
  from scan_spec [OF assms(1,2) _ sc]
  have S: "slot_event mem C st = slot_event mem C (em_st em)" "scan_ok mem C (em_st em) 0 0 (slot_ptr 0) res"
    by auto
  show ?thesis
  proof (cases res)
    case (Scan_empty i m)
    then obtain n where n: "n < 8191" "i = slot_ptr n" "\<not> slot_valid mem C (em_st em) n"
      "\<forall>l < n. slot_valid mem C (em_st em) l" "top_of m 0 (slot_cnt mem C (em_st em)) {0..<n}"
      using S(2) by (auto simp: scan_ok_def)
    have "em_st em' = st" "em_ptr em' = i" "em_cnt em' = m"
      using assms(3) sc Scan_empty by (auto simp: event_memory_init_def slot_ptr_0 event_set_cnt_def)
    then show ?thesis using n S(1) by auto
  next
    case (Scan_full m q)
    then have f: "\<forall>l < 8191. slot_valid mem C (em_st em) l" "top_of m 0 (slot_cnt mem C (em_st em)) {0..<8191}"
      "m = 0 \<and> q = slot_ptr 0 \<or> (\<exists>l < 8191. q = slot_ptr l \<and> slot_cnt mem C (em_st em) l = m)"
      using S(2) by (auto simp: scan_ok_def)
    have e: "em_st em' = st" "em_ptr em' = ptr_inc q" "em_cnt em' = m"
      using assms(3) sc Scan_full by (auto simp: event_memory_init_def slot_ptr_0 event_set_cnt_def)
    obtain l where l: "l < 8191" "q = slot_ptr l" "m > 0 \<longrightarrow> slot_cnt mem C (em_st em) l = m"
      using f(3) by fastforce
    then have "ptr_inc q = slot_ptr (Suc l)" by (simp add: ptr_inc_slot slot_next_def)
    then show ?thesis using f(1,2) e l S(1) by auto
  qed (use assms(3) sc in \<open>auto simp: event_memory_init_def slot_ptr_0\<close>)
qed

subsection \<open>Properties\<close>

fun em_store_all :: "'rtc ev_codec \<Rightarrow> ('f, 'rtc) event_mem \<Rightarrow> 'rtc event list
    \<Rightarrow> (('f, 'rtc) event_mem \<times> bool) option" where
  "em_store_all C em [] = Some (em, True)"
| "em_store_all C em (e # es) =
     do { (em, r) \<leftarrow> event_memory_store C em e;
          (em, r') \<leftarrow> em_store_all C em es;
          Some (em, r \<and> r') }"

lemma em_store_all_log:
  assumes "codec_ok C" "em_log mem C em p xs"
  shows "\<exists>em' r. em_store_all C em es = Some (em', r) \<and> em_cnt em' = em_cnt em
     \<and> (r \<longrightarrow> em_log mem C em' ((slot_next ^^ length es) p) (rev es @ xs))"
  using assms(2)
proof (induction es arbitrary: em p xs)
  case (Cons e es)
  from store_log [OF assms(1) Cons.prems, of e] obtain em1 r1 where s: "event_memory_store C em e = Some (em1, r1)"
    "r1 \<longrightarrow> em_log mem C em1 (slot_next p) (e # xs)" "em_cnt em1 = em_cnt em"
    "em_ptr em1 = slot_ptr (slot_next p)" "flash_lawful mem (st_dev (em_st em1))" by blast
  have "em_log mem C em1 (slot_next p) []"
    using s slot_next_less em_logD(1) [OF Cons.prems] by (auto simp: em_log_def)
  then have "em_log mem C em1 (slot_next p) (if r1 then e # xs else [])" using s(2) by auto
  from Cons.IH [OF this] s show ?case by (cases r1) (auto simp: funpow_swap1)
qed auto

text \<open>C7: after any run of \<open>event_memory_store\<close> from a slot-aligned write pointer, no assertion
fails, and, if all the writes succeeded, \<open>event_memory_read\<close> with a back index below both the
number of stored events and 8191 returns the event stored that many places before the last, with its
validity (or fails when the driver's read does); a back index of 8191 or more is refused.\<close>

theorem event_memory_last_events:
  assumes "codec_ok C" "flash_lawful mem (st_dev (em_st em))" "em_ptr em = slot_ptr p" "p < 8192"
  shows "\<exists>em' r. em_store_all C em es = Some (em', r)
     \<and> (r \<longrightarrow> (\<forall>k. snd (event_memory_read C em' k) =
          (if unat k \<ge> 8191 then (None, False)
           else case snd (storage_read_event (em_st em')
                     (slot_ptr (slot_back ((slot_next ^^ length es) p) (unat k))) (ec_size C)) of
                  None \<Rightarrow> (None, False)
                | Some _ \<Rightarrow> let e = (if unat k < length es then rev es ! unat k
                       else slot_event mem C (em_st em') (slot_back ((slot_next ^^ length es) p) (unat k)))
                       in (Some e, event_valid (ec_rtc_valid C) e))))"
proof -
  have "em_log mem C em p []" using assms by (simp add: em_log_def)
  from em_store_all_log [OF assms(1) this, of es] obtain em' r where
    run: "em_store_all C em es = Some (em', r)"
    and L: "r \<longrightarrow> em_log mem C em' ((slot_next ^^ length es) p) (rev es)" by auto
  have "snd (event_memory_read C em' k) =
          (if unat k \<ge> 8191 then (None, False)
           else case snd (storage_read_event (em_st em')
                     (slot_ptr (slot_back ((slot_next ^^ length es) p) (unat k))) (ec_size C)) of
                  None \<Rightarrow> (None, False)
                | Some _ \<Rightarrow> let e = (if unat k < length es then rev es ! unat k
                       else slot_event mem C (em_st em') (slot_back ((slot_next ^^ length es) p) (unat k)))
                       in (Some e, event_valid (ec_rtc_valid C) e))" if r for k
  proof -
    have log: "em_log mem C em' ((slot_next ^^ length es) p) (rev es)" using L that by blast
    have "unat k < length es \<Longrightarrow> unat k < 8191 \<Longrightarrow>
       slot_event mem C (em_st em') (slot_back ((slot_next ^^ length es) p) (unat k)) = rev es ! unat k"
      using em_logD(4) [OF log, of "unat k"] by simp
    then show ?thesis using read_log [OF assms(1) log, of k] by (auto simp: Let_def split: option.splits)
  qed
  with run show ?thesis by blast
qed


subsubsection \<open>A concrete codec and log\<close>

definition ex_codec :: "unit ev_codec" where
  "ex_codec = \<lparr>ec_enc = \<lambda>e. [ucast (drop_bit 24 (ev_cnt e)), ucast (drop_bit 16 (ev_cnt e)),
        ucast (drop_bit 8 (ev_cnt e)), ucast (ev_cnt e), ev_id e, ev_source e],
     ec_dec = \<lambda>bs. \<lparr>ev_cnt = push_bit 24 (ucast (bs ! 0)) OR push_bit 16 (ucast (bs ! 1))
                        OR push_bit 8 (ucast (bs ! 2)) OR ucast (bs ! 3),
                    ev_time = (), ev_id = bs ! 4, ev_source = bs ! 5\<rparr>,
     ec_size = 6, ec_rtc_valid = \<lambda>_. True\<rparr>"

lemma u32_bytes:
  "push_bit 24 (ucast (ucast (drop_bit 24 x) :: u8)) OR push_bit 16 (ucast (ucast (drop_bit 16 x) :: u8))
     OR push_bit 8 (ucast (ucast (drop_bit 8 x) :: u8)) OR ucast (ucast x :: u8) = x" (is "?l = x") for x :: u32
proof (rule bit_word_eqI)
  fix n assume "n < LENGTH(32)"
  then consider "n < 8" | "8 \<le> n" "n < 16" | "16 \<le> n" "n < 24" | "24 \<le> n" "n < 32" by force
  then show "bit ?l n = bit x n"
    by cases (auto simp: bit_simps)
qed

lemma ex_codec_valid [simp]: "ec_rtc_valid ex_codec = (\<lambda>_. True)"
  by (simp add: ex_codec_def)

lemma ex_codec_ok [simp]: "codec_ok ex_codec"
proof -
  have "ec_dec ex_codec (ec_enc ex_codec e) = e" for e
    by (cases e) (simp add: ex_codec_def u32_bytes)
  then show ?thesis by (auto simp: codec_ok_def) (simp_all add: ex_codec_def)
qed

definition ex_log :: "(nat \<Rightarrow> u8) \<Rightarrow> (nat \<Rightarrow> u8, unit) event_mem" where
  "ex_log m = \<lparr>em_st = ram_storage m, em_ptr = slot_ptr 0, em_cnt = 0\<rparr>"

lemma ex_log_simps [simp]:
  "em_st (ex_log m) = ram_storage m" "em_ptr (ex_log m) = slot_ptr 0"
  by (simp_all add: ex_log_def)

abbreviation (input) ex_ev :: "u32 \<Rightarrow> unit event" where
  "ex_ev n \<equiv> \<lparr>ev_cnt = n, ev_time = (), ev_id = EVENT_ID_ALARM, ev_source = EVENT_SOURCE_DOOR\<rparr>"

lemma ram_read_event:
  "storage_read_event (ram_storage m) i len = (ram_storage m,
     if i + len > STORAGE_EVENT_MEM_SPACE then None
     else Some (map (\<lambda>k. m (unat (ADDR_EVENT_MEM + i) + k)) [0..<unat len]))"
  by (simp add: storage_read_event_def dev_read_def flash_read_data_def ram_storage_def ram_flash_def)

lemma ram_write_event:
  "storage_write_event (ram_storage m) i src =
     (if i + of_nat (length src) > STORAGE_EVENT_MEM_SPACE then (ram_storage m, False)
      else (ram_storage (\<lambda>k. if unat (ADDR_EVENT_MEM + i) \<le> k \<and> k < unat (ADDR_EVENT_MEM + i) + length src
                             then src ! (k - unat (ADDR_EVENT_MEM + i)) else m k), True))"
  by (simp add: storage_write_event_def dev_write_def flash_write_data_def ram_storage_def ram_flash_def)

lemma ram_scan:
  assumes "codec_ok C" "unat i mod 64 = 0" "unat i \<le> 0x7FFC0"
  shows "fst (em_scan C (ram_storage m) i c q) = ram_storage m \<and> snd (em_scan C (ram_storage m) i c q) \<noteq> Scan_failed"
  using assms(2-)
proof (induction "0x80000 - unat i" arbitrary: i c q rule: less_induct)
  case less
  show ?case
  proof (cases "i < 0x7FFC0")
    case False
    then show ?thesis by (simp add: em_scan.simps)
  next
    case True
    have "unat (i + ec_size C) = unat i + unat (ec_size C)"
      using codec_size [OF assms(1)] less.prems(2) by (simp add: unat_word_ariths)
    then have "\<not> i + ec_size C > 0x80000"
      using codec_size [OF assms(1)] less.prems(2) by (simp add: word_less_nat_alt)
    moreover have "unat (i + 64) = unat i + 64" using em_step_less True by simp
    moreover have "unat i < 0x7FFC0" using True by (simp add: word_less_nat_alt)
    moreover from this have "unat i \<le> 524160" using less.prems(1) by presburger
    ultimately show ?thesis
      using less.hyps [of "i + 64"] less.prems True
      by (simp add: em_scan.simps [of C _ i] ram_read_event Let_def)
  qed
qed

lemma ram_init: "codec_ok C \<Longrightarrow> snd (event_memory_init C (ex_log m))" for C :: "unit ev_codec"
  using ram_scan [of C 0 m 0 0]
  by (auto simp: event_memory_init_def split: prod.splits scan_result.splits)

theorem event_memory_last_events_witness:
  "\<exists>em'. em_store_all ex_codec (ex_log (\<lambda>_. 0)) [ex_ev 1, ex_ev 2] = Some (em', True)
     \<and> snd (event_memory_read ex_codec em' 1) = (Some (ex_ev 1), True)"
proof -
  let ?em = "ex_log (\<lambda>_. 0)"
  obtain em' r where run: "em_store_all ex_codec ?em [ex_ev 1, ex_ev 2] = Some (em', r)"
    and rd: "r \<longrightarrow> (\<forall>k. snd (event_memory_read ex_codec em' k) =
          (if unat k \<ge> 8191 then (None, False)
           else case snd (storage_read_event (em_st em')
                     (slot_ptr (slot_back ((slot_next ^^ length [ex_ev 1, ex_ev 2]) 0) (unat k))) (ec_size ex_codec)) of
                  None \<Rightarrow> (None, False)
                | Some _ \<Rightarrow> let e = (if unat k < length [ex_ev 1, ex_ev 2] then rev [ex_ev 1, ex_ev 2] ! unat k
                       else slot_event id ex_codec (em_st em') (slot_back ((slot_next ^^ length [ex_ev 1, ex_ev 2]) 0) (unat k)))
                       in (Some e, event_valid (ec_rtc_valid ex_codec) e)))"
    using event_memory_last_events [of ex_codec id ?em 0 "[ex_ev 1, ex_ev 2]"] by auto
  have "r \<and> (\<exists>m. em_st em' = ram_storage m)"
    using run by (auto simp: event_memory_store_def ram_write_event ex_log_def slot_ptr_0 ex_codec_def Let_def
        ptr_inc_def)
  with run spec [OF rd [THEN mp], of 1] show ?thesis
    by (auto simp: ram_read_event slot_back_def slot_next_def slot_ptr_def ex_codec_def event_valid_def)
qed

text \<open>\<open>event_memory_init\<close> that succeeds leaves the log unchanged and continues it: when some
slot but the last is invalid, the write pointer is the first such slot; otherwise it is the slot after
one of the largest counter; the event counter is the largest counter of the valid slots before that
point (of all slots but the last when none is invalid).\<close>

theorem event_memory_init_continues:
  assumes "codec_ok C" "flash_lawful mem (st_dev (em_st em))" "event_memory_init C em = (em', True)"
  shows "slot_event mem C (em_st em') = slot_event mem C (em_st em)
     \<and> (if \<exists>n < 8191. \<not> slot_valid mem C (em_st em) n
        then \<exists>n < 8191. em_ptr em' = slot_ptr n \<and> \<not> slot_valid mem C (em_st em) n
               \<and> (\<forall>l < n. slot_valid mem C (em_st em) l)
               \<and> top_of (em_cnt em') 0 (slot_cnt mem C (em_st em)) {0..<n}
        else top_of (em_cnt em') 0 (slot_cnt mem C (em_st em)) {0..<8191}
             \<and> (\<exists>l < 8191. em_ptr em' = slot_ptr (Suc l)
                  \<and> (em_cnt em' > 0 \<longrightarrow> slot_cnt mem C (em_st em) l = em_cnt em')))"
  using assms by (rule init_continues)

theorem event_memory_init_continues_witness:
  "\<exists>em'. event_memory_init ex_codec (ex_log (\<lambda>_. 0)) = (em', True)
     \<and> em_cnt em' = 0 \<and> em_ptr em' \<noteq> slot_ptr 0"
proof -
  obtain em' where run: "event_memory_init ex_codec (ex_log (\<lambda>_. 0)) = (em', True)"
    using ram_init [of ex_codec "\<lambda>_. 0"] by (cases "event_memory_init ex_codec (ex_log (\<lambda>_. 0))") auto
  have zero: "slot_event id ex_codec (ram_storage (\<lambda>_. 0)) j = \<lparr>ev_cnt = 0, ev_time = (), ev_id = 0, ev_source = 0\<rparr>"
    for j
    by (simp add: slot_event_def event_region.at_def st_bytes_def st_mem_def ram_flash_def ex_codec_def upt_rec)
  from event_memory_init_continues [where mem = id, OF ex_codec_ok _ run] obtain l where
    "top_of (em_cnt em') 0 (\<lambda>_. 0) {0..<8191}" "l < 8191" "em_ptr em' = slot_ptr (Suc l)"
    by (auto simp: zero event_valid_def)
  moreover from this have "slot_ptr (Suc l) \<noteq> slot_ptr 0" by simp
  ultimately show ?thesis using run by (auto simp: top_of_def)
qed

text \<open>The scan of \<open>event_memory_init\<close> never looks at the last slot: when the newest event of a
full log is stored there, the counter restarts below that event's counter and the write pointer is not
set after it, so that the newest event is overwritten or no longer the last one.\<close>

theorem event_memory_init_misses_last_slot:
  assumes "codec_ok C" "flash_lawful mem (st_dev (em_st em))" "event_memory_init C em = (em', True)"
    and "\<forall>j < 8191. slot_valid mem C (em_st em) j \<and> slot_cnt mem C (em_st em) j < slot_cnt mem C (em_st em) 8191"
  shows "em_cnt em' < slot_cnt mem C (em_st em) 8191 \<and> em_ptr em' \<noteq> slot_ptr (slot_next 8191)"
proof -
  have "\<not> (\<exists>n < 8191. \<not> slot_valid mem C (em_st em) n)" using assms(4) by blast
  with init_continues [OF assms(1-3)] obtain l where
    t: "top_of (em_cnt em') 0 (slot_cnt mem C (em_st em)) {0..<8191}"
    and l: "l < 8191" "em_ptr em' = slot_ptr (Suc l)" by auto
  have "slot_cnt mem C (em_st em) 0 < slot_cnt mem C (em_st em) 8191" using assms(4) by auto
  then have "0 < slot_cnt mem C (em_st em) 8191" by (rule gt0_of_less)
  then have "em_cnt em' < slot_cnt mem C (em_st em) 8191" using t assms(4) by (auto simp: top_of_def)
  moreover have "slot_ptr (Suc l) \<noteq> slot_ptr (slot_next 8191)"
    using l by (simp add: slot_next_def)
  ultimately show ?thesis using l by auto
qed

definition ex_full :: "nat \<Rightarrow> u8" where
  "ex_full i = (if i = 0x120000 + 64 * 8191 + 3 then 1 else 0)"

lemma ex_full_slot: "slot_event id ex_codec (ram_storage ex_full) j =
   (if j < 8191 then \<lparr>ev_cnt = 0, ev_time = (), ev_id = 0, ev_source = 0\<rparr>
    else if j = 8191 then \<lparr>ev_cnt = 1, ev_time = (), ev_id = 0, ev_source = 0\<rparr>
    else slot_event id ex_codec (ram_storage ex_full) j)"
  by (auto simp: slot_event_def event_region.at_def st_bytes_def st_mem_def ram_flash_def ex_codec_def ex_full_def
      upt_rec)

theorem event_memory_init_misses_last_slot_witness:
  "\<exists>em'. event_memory_init ex_codec (ex_log ex_full) = (em', True)
     \<and> em_cnt em' < 1 \<and> em_ptr em' \<noteq> slot_ptr (slot_next 8191)"
proof -
  obtain em' where run: "event_memory_init ex_codec (ex_log ex_full) = (em', True)"
    using ram_init [of ex_codec ex_full] by (cases "event_memory_init ex_codec (ex_log ex_full)") auto
  have "slot_cnt id ex_codec (ram_storage ex_full) 8191 = 1" by (simp add: ex_full_slot)
  with event_memory_init_misses_last_slot [where mem = id, OF ex_codec_ok _ run] run show ?thesis
    by (auto simp: ex_full_slot event_valid_def)
qed

end
