(* ===== verification/CmsSia.thy ===== *)
theory CmsSia
  imports EventTypes CLib
begin

text \<open>
  \<open>app/cms/cms_sia_ip.c\<close>: the SIA-DC-09 codec of the security-center communication: the
  tables of event codes and zones, the checksum, the frames it builds, and the replies it
  accepts.

  The text buffer \<open>buf_t\<close> belongs to the SDK: \<open>buf_api\<close> carries the two calls used, on the
  text in the buffer, and \<open>buf_api_ok\<close> states that a text that fits is appended.  The names of
  events and sources come from \<open>cfg_read_static\<close>: the argument \<open>names\<close>.  The current time is
  the argument \<open>now\<close>.
\<close>

unbundle bit_operations_syntax

subsection \<open>The text buffer of the SDK\<close>

record buf_api =
  bf_append :: "u8 list \<Rightarrow> u8 list \<Rightarrow> u8 list"
  bf_adjust :: "u8 list \<Rightarrow> nat \<Rightarrow> u8 list"

definition buf_api_ok :: "buf_api \<Rightarrow> nat \<Rightarrow> bool" where
  "buf_api_ok B cap \<longleftrightarrow> (\<forall>b s. length b + length s < cap \<longrightarrow> bf_append B b s = b @ s)
     \<and> (\<forall>k. k < cap \<longrightarrow> length (bf_adjust B [] k) = k)"

definition list_buf :: buf_api where
  "list_buf = \<lparr>bf_append = (@), bf_adjust = (\<lambda>b k. take k b @ replicate (k - length b) 0)\<rparr>"

lemma list_buf_ok [simp]: "buf_api_ok list_buf cap"
  by (simp add: buf_api_ok_def list_buf_def)

subsection \<open>Tables\<close>

abbreviation (input) SIA_IDX_CRC :: nat where "SIA_IDX_CRC \<equiv> 1"
abbreviation (input) SIA_IDX_LEN :: nat where "SIA_IDX_LEN \<equiv> 5"
abbreviation (input) SIA_IDX_DATA :: nat where "SIA_IDX_DATA \<equiv> 9"
abbreviation (input) CMS_SIA_IP_MAX_MSG_LEN :: nat where "CMS_SIA_IP_MAX_MSG_LEN \<equiv> 240"
abbreviation (input) CMS_SIA_IP_MAX_PACKET_LEN :: nat where "CMS_SIA_IP_MAX_PACKET_LEN \<equiv> 249"

definition SIA_EVENT_TABLE :: "(u8 \<times> u8 list option) list" where
  "SIA_EVENT_TABLE = [
     (EVENT_ID_BOOT_UP, Some (str ''RR'')), (EVENT_ID_SHUT_DOWN, None),
     (EVENT_ID_POWER_FAIL, Some (str ''AT'')), (EVENT_ID_POWER_RECOVERY, Some (str ''AR'')),
     (EVENT_ID_LO_BATT, Some (str ''YT'')), (EVENT_ID_LO_BATT_RECOVERY, Some (str ''YR'')),
     (EVENT_ID_SET, Some (str ''CL'')), (EVENT_ID_UNSET, Some (str ''OP'')),
     (EVENT_ID_ALARM, Some (str ''BA'')), (EVENT_ID_ALARM_CANCEL, Some (str ''BC'')),
     (EVENT_ID_ALARM_TIMEOUT, None), (EVENT_ID_FAULT, Some (str ''UT'')),
     (EVENT_ID_FAULT_RECOVERY, Some (str ''UR'')), (EVENT_ID_JAMMING_ACT, Some (str ''XQ'')),
     (EVENT_ID_JAMMING_DACT, Some (str ''XH'')), (EVENT_ID_TRACKING, Some (str ''TL''))]"

definition SIA_SOURCE_TABLE :: "(u8 \<times> u8) list" where
  "SIA_SOURCE_TABLE = [
     (EVENT_SOURCE_UNKNOWN, 0x0), (EVENT_SOURCE_UNIT, 0x0), (EVENT_SOURCE_KEY, 0x1),
     (EVENT_SOURCE_DOOR, 0x2), (EVENT_SOURCE_INPUT1, 0x3), (EVENT_SOURCE_INPUT2, 0xD),
     (EVENT_SOURCE_INPUT3, 0xE), (EVENT_SOURCE_SHOCK, 0x4), (EVENT_SOURCE_LOCK, 0x5),
     (EVENT_SOURCE_CELL, 0x6), (EVENT_SOURCE_BATTERY, 0x7), (EVENT_SOURCE_ADMIN, 0x8),
     (EVENT_SOURCE_USER1, 0x9), (EVENT_SOURCE_USER2, 0xA), (EVENT_SOURCE_USER3, 0xB),
     (EVENT_SOURCE_USER4, 0xC)]"

definition EVENT_TEXT_ID :: "u16 list" where
  "EVENT_TEXT_ID = [300, 301, 302, 303, 304, 305, 306, 307, 308, 310, 311, 312, 313, 314, 315, 316]"

definition SOURCE_TEXT_ID :: "u16 list" where
  "SOURCE_TEXT_ID = [400, 401, 402, 403, 404, 409, 410, 405, 406, 407, 408, 50, 51, 52, 53, 54]"

fun table_find :: "('k \<times> 'v) list \<Rightarrow> 'k \<Rightarrow> 'v option" where
  "table_find [] k = None"
| "table_find ((k', v) # t) k = (if k' = k then Some v else table_find t k)"

definition sia_event_code :: "u8 \<Rightarrow> u8 list option" where
  "sia_event_code i = (case table_find SIA_EVENT_TABLE i of Some c \<Rightarrow> c | None \<Rightarrow> None)"

definition sia_zone :: "u8 \<Rightarrow> u8" where
  "sia_zone source = (case table_find SIA_SOURCE_TABLE source of Some z \<Rightarrow> z | None \<Rightarrow> 0)"

subsection \<open>Checksum\<close>

definition SIA_IP_CRC_TABLE :: "u16 list" where
  "SIA_IP_CRC_TABLE = [
     0x0000, 0xc0c1, 0xc181, 0x0140, 0xc301, 0x03c0, 0x0280, 0xc241,
     0xc601, 0x06c0, 0x0780, 0xc741, 0x0500, 0xc5c1, 0xc481, 0x0440,
     0xcc01, 0x0cc0, 0x0d80, 0xcd41, 0x0f00, 0xcfc1, 0xce81, 0x0e40,
     0x0a00, 0xcac1, 0xcb81, 0x0b40, 0xc901, 0x09c0, 0x0880, 0xc841,
     0xd801, 0x18c0, 0x1980, 0xd941, 0x1b00, 0xdbc1, 0xda81, 0x1a40,
     0x1e00, 0xdec1, 0xdf81, 0x1f40, 0xdd01, 0x1dc0, 0x1c80, 0xdc41,
     0x1400, 0xd4c1, 0xd581, 0x1540, 0xd701, 0x17c0, 0x1680, 0xd641,
     0xd201, 0x12c0, 0x1380, 0xd341, 0x1100, 0xd1c1, 0xd081, 0x1040,
     0xf001, 0x30c0, 0x3180, 0xf141, 0x3300, 0xf3c1, 0xf281, 0x3240,
     0x3600, 0xf6c1, 0xf781, 0x3740, 0xf501, 0x35c0, 0x3480, 0xf441,
     0x3c00, 0xfcc1, 0xfd81, 0x3d40, 0xff01, 0x3fc0, 0x3e80, 0xfe41,
     0xfa01, 0x3ac0, 0x3b80, 0xfb41, 0x3900, 0xf9c1, 0xf881, 0x3840,
     0x2800, 0xe8c1, 0xe981, 0x2940, 0xeb01, 0x2bc0, 0x2a80, 0xea41,
     0xee01, 0x2ec0, 0x2f80, 0xef41, 0x2d00, 0xedc1, 0xec81, 0x2c40,
     0xe401, 0x24c0, 0x2580, 0xe541, 0x2700, 0xe7c1, 0xe681, 0x2640,
     0x2200, 0xe2c1, 0xe381, 0x2340, 0xe101, 0x21c0, 0x2080, 0xe041,
     0xa001, 0x60c0, 0x6180, 0xa141, 0x6300, 0xa3c1, 0xa281, 0x6240,
     0x6600, 0xa6c1, 0xa781, 0x6740, 0xa501, 0x65c0, 0x6480, 0xa441,
     0x6c00, 0xacc1, 0xad81, 0x6d40, 0xaf01, 0x6fc0, 0x6e80, 0xae41,
     0xaa01, 0x6ac0, 0x6b80, 0xab41, 0x6900, 0xa9c1, 0xa881, 0x6840,
     0x7800, 0xb8c1, 0xb981, 0x7940, 0xbb01, 0x7bc0, 0x7a80, 0xba41,
     0xbe01, 0x7ec0, 0x7f80, 0xbf41, 0x7d00, 0xbdc1, 0xbc81, 0x7c40,
     0xb401, 0x74c0, 0x7580, 0xb541, 0x7700, 0xb7c1, 0xb681, 0x7640,
     0x7200, 0xb2c1, 0xb381, 0x7340, 0xb101, 0x71c0, 0x7080, 0xb041,
     0x5000, 0x90c1, 0x9181, 0x5140, 0x9301, 0x53c0, 0x5280, 0x9241,
     0x9601, 0x56c0, 0x5780, 0x9741, 0x5500, 0x95c1, 0x9481, 0x5440,
     0x9c01, 0x5cc0, 0x5d80, 0x9d41, 0x5f00, 0x9fc1, 0x9e81, 0x5e40,
     0x5a00, 0x9ac1, 0x9b81, 0x5b40, 0x9901, 0x59c0, 0x5880, 0x9841,
     0x8801, 0x48c0, 0x4980, 0x8941, 0x4b00, 0x8bc1, 0x8a81, 0x4a40,
     0x4e00, 0x8ec1, 0x8f81, 0x4f40, 0x8d01, 0x4dc0, 0x4c80, 0x8c41,
     0x4400, 0x84c1, 0x8581, 0x4540, 0x8701, 0x47c0, 0x4680, 0x8641,
     0x8201, 0x42c0, 0x4380, 0x8341, 0x4100, 0x81c1, 0x8081, 0x4040]"

text \<open>The loop over at most 240 bytes; \<open>None\<close>: the data ended without a terminator.\<close>

fun crc_loop :: "nat \<Rightarrow> u16 \<Rightarrow> u8 list \<Rightarrow> u16 option" where
  "crc_loop 0 crc data = Some crc"
| "crc_loop (Suc n) crc [] = None"
| "crc_loop (Suc n) crc (ch # data) =
     (if ch = 0 \<or> ch = 0x0D then Some crc
      else crc_loop n (drop_bit 8 crc XOR SIA_IP_CRC_TABLE ! unat (ch XOR ucast (crc AND 0xFF))) data)"

definition crc_calc :: "u8 list \<Rightarrow> u16 option" where
  "crc_calc data = crc_loop CMS_SIA_IP_MAX_MSG_LEN 0 data"

subsection \<open>Building a message\<close>

record sia_state =
  sia_account :: u32
  sia_cnt :: u16
  sia_prefix :: u16
  sia_event_name :: bool
  sia_event_time :: bool
  sia_time_stamp :: bool

definition cms_sia_ip_init :: sia_state where
  "cms_sia_ip_init = \<lparr>sia_account = 0, sia_cnt = 0, sia_prefix = 0, sia_event_name = True,
     sia_event_time = True, sia_time_stamp = True\<rparr>"

definition show2 :: "u8 \<Rightarrow> u8 list" where
  "show2 x = pad0 2 (show_nat (unat x))"

definition sia_msg_add_event :: "buf_api \<Rightarrow> (u16 \<Rightarrow> u8 list option) \<Rightarrow> u8 list \<Rightarrow> rtc event
    \<Rightarrow> (u8 list \<times> bool) option" where
  "sia_msg_add_event B names dest e =
     (case sia_event_code (ev_id e) of
        None \<Rightarrow> Some (dest, False)
      | Some code \<Rightarrow>
          let zone = sia_zone (ev_source e);
              dest = bf_append B dest (str ''|Nri01/'' @ code @ show_hex (unat zone) @ str ''^'')
          in do { i \<leftarrow> arr_get SOURCE_TEXT_ID (unat (ev_source e));
                  let dest = (case names i of Some t \<Rightarrow> bf_append B dest t | None \<Rightarrow> dest)
                  in Some (bf_append B dest (str ''^''), True) })"

definition sia_msg_add_eventname :: "buf_api \<Rightarrow> (u16 \<Rightarrow> u8 list option) \<Rightarrow> u8 list \<Rightarrow> rtc event
    \<Rightarrow> u8 list option" where
  "sia_msg_add_eventname B names dest e =
     (let dest = bf_append B dest (str ''[I'')
      in do { i \<leftarrow> arr_get EVENT_TEXT_ID (unat (ev_id e));
              let dest = (case names i of Some t \<Rightarrow> bf_append B dest t | None \<Rightarrow> dest)
              in Some (bf_append B dest (str '']'')) })"

definition sia_msg_add_eventtime :: "buf_api \<Rightarrow> u8 list \<Rightarrow> rtc event \<Rightarrow> u8 list" where
  "sia_msg_add_eventtime B dest e =
     bf_append B dest (str ''[H'' @ show_nat (unat (rtc_hour (ev_time e))) @ str '':'' @
       show2 (rtc_minute (ev_time e)) @ str '':'' @ show2 (rtc_second (ev_time e)) @ str '']'')"

definition sia_msg_add_timestamp :: "buf_api \<Rightarrow> u8 list \<Rightarrow> rtc \<Rightarrow> u8 list" where
  "sia_msg_add_timestamp B dest t =
     bf_append B dest (str ''_'' @ show2 (rtc_hour t) @ str '':'' @ show2 (rtc_minute t) @ str '':'' @
       show2 (rtc_second t) @ str '','' @ show2 (rtc_month t) @ str ''-'' @ show2 (rtc_day t) @ str ''-'' @
       show_nat (2000 + unat (rtc_year t)))"

text \<open>\<open>sprintf\<close> into the packet at an index, with the terminator it writes.\<close>

definition put_text :: "u8 list \<Rightarrow> nat \<Rightarrow> u8 list \<Rightarrow> u8 list" where
  "put_text b i s = take i b @ (s @ [0]) @ drop (i + length s + 1) b"

definition sia_frame :: "buf_api \<Rightarrow> u8 list \<Rightarrow> u16 \<Rightarrow> nat \<Rightarrow> u8 list" where
  "sia_frame B b crc out_len =
     (let b = b[0 := 0x0A];
          b = put_text b SIA_IDX_CRC (pad0 4 (show_hex (unat crc)));
          b = put_text b SIA_IDX_LEN (str ''0'' @ pad0 3 (show_hex out_len));
          b = b[SIA_IDX_DATA := 34]
      in bf_append B b [0x0D])"

text \<open>
  The result is the packet and the returned length (0: not reportable); \<open>None\<close> is a failed
  assertion.  The message in the buffer ends with the terminator of \<open>buf_t\<close>.
\<close>

definition cms_sia_ip_build_msg :: "buf_api \<Rightarrow> (u16 \<Rightarrow> u8 list option) \<Rightarrow> rtc \<Rightarrow> sia_state \<Rightarrow> u8 list
    \<Rightarrow> rtc event \<Rightarrow> u8 list option \<Rightarrow> (u8 list \<times> nat) option" where
  "cms_sia_ip_build_msg B names now s dataout e data =
     (let b = bf_adjust B dataout SIA_IDX_DATA;
          b = bf_append B b (str [CHR 0x22] @ str ''SIA-DCS'' @ str [CHR 0x22] @ pad0 4 (show_nat (unat (sia_cnt s))) @
                str ''L'' @ show_hex (unat (sia_prefix s)) @ str ''#'' @ show_hex (unat (sia_account s)) @ str ''['')
      in do {
        (b, ok) \<leftarrow> sia_msg_add_event B names b e;
        if \<not> ok then Some (b, 0)
        else do {
          b \<leftarrow> Some (bf_append B b (str '']''));
          b \<leftarrow> (if sia_event_name s then sia_msg_add_eventname B names b e else Some b);
          b \<leftarrow> Some (case data of Some t \<Rightarrow> bf_append B b t | None \<Rightarrow> b);
          b \<leftarrow> Some (if sia_event_time s then sia_msg_add_eventtime B b e else b);
          b \<leftarrow> Some (if sia_time_stamp s then sia_msg_add_timestamp B b now else b);
          crc \<leftarrow> crc_calc (drop SIA_IDX_DATA b @ [0]);
          _ \<leftarrow> os_assert (SIA_IDX_DATA + (length b - SIA_IDX_DATA) < CMS_SIA_IP_MAX_MSG_LEN);
          b \<leftarrow> Some (sia_frame B b crc (length b - SIA_IDX_DATA));
          Some (b, length b)
        } })"

subsection \<open>Receiving\<close>

text \<open>The text at an index of a received frame, up to its terminator.\<close>

definition text_at :: "u8 list \<Rightarrow> nat \<Rightarrow> u8 list" where
  "text_at b i = takeWhile (\<lambda>c. c \<noteq> 0) (drop i b)"

definition cms_sia_ip_rx :: "u8 list \<Rightarrow> nat \<Rightarrow> bool option" where
  "cms_sia_ip_rx udpdata len =
     (if len < 20 then Some False
      else if udpdata ! 0 \<noteq> 0x0A then Some False
      else if len > CMS_SIA_IP_MAX_MSG_LEN then Some False
      else
        let d = take len udpdata @ [0]
        in case scan_x 4 (text_at d SIA_IDX_CRC) of
             None \<Rightarrow> Some False
           | Some (crc, _) \<Rightarrow>
               (case scan_x 4 (text_at d SIA_IDX_LEN) of
                  None \<Rightarrow> Some False
                | Some (msg_len, _) \<Rightarrow>
                    if (word_of_int msg_len :: u16) AND 0xF000 \<noteq> 0 then Some False
                    else do {
                      c \<leftarrow> crc_calc (drop SIA_IDX_DATA d);
                      if (word_of_int crc :: u16) \<noteq> c then Some False
                      else if int len - 9 - 1 \<noteq> uint ((word_of_int msg_len :: u16) AND 0x0FFF) then Some False
                      else Some True }))"

text \<open>\<open>%uL%x\<close> behind the tag, and \<open>#%x\<close> for an ACK: the numbers converted.\<close>

definition scan_seq_prefix :: "u8 list \<Rightarrow> (int \<times> int \<times> u8 list) option" where
  "scan_seq_prefix t =
     (case scan_d t of
        Some (a, c # r) \<Rightarrow>
          if c = 76 then map_option (\<lambda>(b, r). (a, b, r)) (scan_x (length r) r) else None
      | _ \<Rightarrow> None)"

definition scan_account :: "u8 list \<Rightarrow> int option" where
  "scan_account t = (case t of c # r \<Rightarrow> if c = 35 then map_option fst (scan_x (length r) r) else None | [] \<Rightarrow> None)"

text \<open>The result: \<open>None\<close> inside is false; otherwise the sequence number and \<open>is_nak\<close>.\<close>

definition cms_sia_ip_rx_ack :: "sia_state \<Rightarrow> u8 list \<Rightarrow> nat \<Rightarrow> (u16 \<times> bool) option option" where
  "cms_sia_ip_rx_ack s udpdata len =
     do {
       ok \<leftarrow> cms_sia_ip_rx udpdata len;
       if \<not> ok then Some None
       else
         let t = text_at (take len udpdata @ [0]) SIA_IDX_DATA
         in if take 5 t = [34, 65, 67, 75, 34]
            then Some (case scan_seq_prefix (drop 5 t) of
                         None \<Rightarrow> None
                       | Some (a, b, r) \<Rightarrow>
                           (case scan_account r of
                              None \<Rightarrow> None
                            | Some c \<Rightarrow>
                                if (word_of_int b :: u32) = ucast (sia_prefix s) \<and> word_of_int c = sia_account s
                                then Some (word_of_int a AND 0xFFFF, False) else None))
            else if take 5 t = [34, 78, 65, 75, 34]
            then Some (case scan_seq_prefix (drop 5 t) of
                         None \<Rightarrow> None
                       | Some (a, b, r) \<Rightarrow>
                           if (word_of_int b :: u32) = ucast (sia_prefix s)
                           then Some (word_of_int a AND 0xFFFF, True) else None)
            else Some None
     }"

subsection \<open>The protocol interface\<close>

datatype cms_reply = CMS_REPLY_NONE | CMS_REPLY_ACK | CMS_REPLY_NAK

record sia_proto =
  sp_state :: sia_state
  sp_packet :: "u8 list"
  sp_ok :: bool

definition sia_proto_reinit :: "u32 \<Rightarrow> sia_proto \<Rightarrow> sia_proto" where
  "sia_proto_reinit account p =
     p\<lparr>sp_state := cms_sia_ip_init\<lparr>sia_account := account\<rparr>, sp_ok := False\<rparr>"

definition next_cnt :: "u16 \<Rightarrow> u16" where
  "next_cnt cnt = (if cnt + 1 > 9999 then 1 else cnt + 1)"

definition sia_proto_new_event :: "buf_api \<Rightarrow> (u16 \<Rightarrow> u8 list option) \<Rightarrow> rtc \<Rightarrow> sia_proto \<Rightarrow> rtc event
    \<Rightarrow> (sia_proto \<times> bool) option" where
  "sia_proto_new_event B names now p e =
     (if sp_ok p then Some (p, False)
      else
        let p = p\<lparr>sp_state := (sp_state p)\<lparr>sia_cnt := next_cnt (sia_cnt (sp_state p))\<rparr>\<rparr>
        in do {
          (packet, n) \<leftarrow> cms_sia_ip_build_msg B names now (sp_state p) [] e None;
          if n = 0 then Some (p\<lparr>sp_packet := packet\<rparr>, False)
          else Some (p\<lparr>sp_packet := packet, sp_ok := True\<rparr>, True) })"

definition sia_proto_packet_reply :: "sia_proto \<Rightarrow> u8 list \<Rightarrow> nat \<Rightarrow> cms_reply option" where
  "sia_proto_packet_reply p data len =
     do {
       r \<leftarrow> cms_sia_ip_rx_ack (sp_state p) data len;
       Some (case r of
               None \<Rightarrow> CMS_REPLY_NONE
             | Some (ack_seq, is_nak) \<Rightarrow>
                 if ack_seq \<noteq> sia_cnt (sp_state p) then CMS_REPLY_NONE
                 else if is_nak then CMS_REPLY_NAK else CMS_REPLY_ACK) }"

end
