(* ===== verification/NetTarget.thy ===== *)
theory NetTarget
  imports CLib
begin

text \<open>
  \<open>net/net_target.c\<close> and the target functions of \<open>app/net.c\<close>: the parser of the
  configured \<open>host:port\<close> strings, that tells a literal IPv4 address from a name to resolve.
  A target string is its text without the terminator.
\<close>

unbundle bit_operations_syntax

subsection \<open>The parser\<close>

datatype net_target_type = NET_TARGET_INVALID | NET_TARGET_IP | NET_TARGET_NAME

abbreviation (input) NET_TARGET_HOST_MAX :: nat where "NET_TARGET_HOST_MAX \<equiv> 64"

definition is_alpha :: "u8 \<Rightarrow> bool" where
  "is_alpha c \<longleftrightarrow> (65 \<le> c \<and> c \<le> 90) \<or> (97 \<le> c \<and> c \<le> 122)"

fun is_ip_chars :: "u8 list \<Rightarrow> bool" where
  "is_ip_chars [] = True"
| "is_ip_chars (c # s) = (if \<not> is_digit c \<and> c \<noteq> 46 then False else is_ip_chars s)"

fun has_alpha :: "u8 list \<Rightarrow> bool" where
  "has_alpha [] = False"
| "has_alpha (c # s) = (if is_alpha c then True else has_alpha s)"

text \<open>\<open>sscanf\<close> of numbers with a separator between them.\<close>

fun scan_sep :: "u8 \<Rightarrow> nat \<Rightarrow> u8 list \<Rightarrow> int list" where
  "scan_sep sep 0 s = []"
| "scan_sep sep (Suc n) s =
     (case scan_d s of
        None \<Rightarrow> []
      | Some (v, r) \<Rightarrow> v # (case r of c # r' \<Rightarrow> if c = sep then scan_sep sep n r' else [] | [] \<Rightarrow> []))"

definition ipv4_parse :: "u8 list \<Rightarrow> u32 option" where
  "ipv4_parse s =
     (case scan_sep 46 4 s of
        [a, b, c, d] \<Rightarrow>
          if a > 255 \<or> b > 255 \<or> c > 255 \<or> d > 255 then None
          else if a = 0 \<or> d = 0 then None
          else Some (word_of_int a + push_bit 8 (word_of_int b) + push_bit 16 (word_of_int c)
                     + push_bit 24 (word_of_int d))
      | _ \<Rightarrow> None)"

text \<open>\<open>strrchr(url, ':')\<close>: the text before the last colon and the text behind it.\<close>

definition last_colon :: "u8 list \<Rightarrow> (u8 list \<times> u8 list) option" where
  "last_colon url =
     (if 58 \<in> set url
      then Some (rev (tl (dropWhile (\<lambda>c. c \<noteq> 58) (rev url))), rev (takeWhile (\<lambda>c. c \<noteq> 58) (rev url)))
      else None)"

text \<open>
  The out-parameters: \<open>None\<close> is one that is not written.  \<open>*ip\<close> is zeroed unless a
  pointer is null; \<open>None\<close> as \<open>url\<close> is the null pointer.
\<close>

record target =
  tg_type :: net_target_type
  tg_host :: "u8 list option"
  tg_port :: "u16 option"
  tg_ip :: "u32 option"

definition net_target_parse :: "u8 list option \<Rightarrow> nat \<Rightarrow> target" where
  "net_target_parse url host_size =
     (let invalid = \<lparr>tg_type = NET_TARGET_INVALID, tg_host = None, tg_port = None, tg_ip = Some 0\<rparr>
      in case url of
           None \<Rightarrow> invalid\<lparr>tg_ip := None\<rparr>
         | Some url \<Rightarrow>
             (case last_colon url of
                None \<Rightarrow> invalid
              | Some (host, rest) \<Rightarrow>
                  if length host = 0 \<or> length host \<ge> host_size then invalid
                  else case scan_d rest of
                         None \<Rightarrow> invalid
                       | Some (p, _) \<Rightarrow>
                           if p \<le> 0 \<or> p > 65535 then invalid
                           else if is_ip_chars host
                           then (case ipv4_parse host of
                                   Some ip \<Rightarrow> \<lparr>tg_type = NET_TARGET_IP, tg_host = Some host,
                                               tg_port = Some (word_of_int p), tg_ip = Some ip\<rparr>
                                 | None \<Rightarrow> invalid\<lparr>tg_host := Some host\<rparr>)
                           else if has_alpha host
                           then \<lparr>tg_type = NET_TARGET_NAME, tg_host = Some host,
                                 tg_port = Some (word_of_int p), tg_ip = Some 0\<rparr>
                           else invalid\<lparr>tg_host := Some host\<rparr>))"

subsection \<open>The target functions of \<open>app/net.c\<close>\<close>

text \<open>The results: the flag, \<open>*ip\<close> and \<open>*port\<close> (\<open>None\<close>: not written).\<close>

definition net_parse_target_ip :: "u8 list \<Rightarrow> bool \<times> u32 \<times> u16 option" where
  "net_parse_target_ip url =
     (let t = net_target_parse (Some url) NET_TARGET_HOST_MAX
      in (tg_type t \<noteq> NET_TARGET_INVALID, (case tg_ip t of Some ip \<Rightarrow> ip | None \<Rightarrow> 0), tg_port t))"

text \<open>\<open>dns\<close> is the resolver of the modem: its result and the address it stored.\<close>

definition net_get_target_ip :: "(u8 list \<Rightarrow> bool \<times> u32) \<Rightarrow> u8 list \<Rightarrow> bool \<times> u32 \<times> u16 option" where
  "net_get_target_ip dns url =
     (let t = net_target_parse (Some url) NET_TARGET_HOST_MAX
      in case tg_type t of
           NET_TARGET_IP \<Rightarrow> (True, (case tg_ip t of Some ip \<Rightarrow> ip | None \<Rightarrow> 0), tg_port t)
         | NET_TARGET_NAME \<Rightarrow>
             let (r, addr) = dns (case tg_host t of Some h \<Rightarrow> h | None \<Rightarrow> [])
             in if r \<and> addr \<noteq> 0 then (True, addr, tg_port t) else (False, 0, tg_port t)
         | NET_TARGET_INVALID \<Rightarrow> (False, 0, tg_port t))"

subsection \<open>UDP dispatch, \<open>net/udp.c\<close> and \<open>net_udp_rx\<close>\<close>

record udp_packet =
  up_dst_ip :: u32
  up_src_ip :: u32
  up_data :: "u8 list"
  up_dst_port :: u16
  up_src_port :: u16
  up_datalen :: u16

record udp_st =
  udp_data_tx :: u32
  udp_data_rx :: u32

text \<open>The registered callback is an argument: \<open>None\<close> before the registration.\<close>

definition udp_rx :: "(udp_packet \<Rightarrow> 's \<Rightarrow> 's) option \<Rightarrow> udp_st \<Rightarrow> 's \<Rightarrow> u8 list \<Rightarrow> u16 \<Rightarrow> u32 \<Rightarrow> u16
    \<Rightarrow> udp_st \<times> 's" where
  "udp_rx rx_callback u s data len addr port =
     (let u = u\<lparr>udp_data_rx := udp_data_rx u + ucast len\<rparr>
      in if port = 53 then (u, s)
         else case rx_callback of
                None \<Rightarrow> (u, s)
              | Some cb \<Rightarrow>
                  (u, cb \<lparr>up_dst_ip = 0, up_src_ip = addr, up_data = data, up_dst_port = 0,
                          up_src_port = port, up_datalen = len\<rparr> s))"

definition udp_count_tx :: "udp_st \<Rightarrow> u16 \<Rightarrow> udp_st" where
  "udp_count_tx u len = u\<lparr>udp_data_tx := udp_data_tx u + ucast len\<rparr>"

text \<open>The receivers of the tracer, the update and the CMS are asked in this order.\<close>

definition net_udp_rx ::
    "(u8 list \<Rightarrow> u16 \<Rightarrow> u16 \<Rightarrow> 's \<Rightarrow> 's \<times> bool) \<Rightarrow> (u8 list \<Rightarrow> u16 \<Rightarrow> u16 \<Rightarrow> 's \<Rightarrow> 's \<times> bool)
     \<Rightarrow> (u8 list \<Rightarrow> u16 \<Rightarrow> u16 \<Rightarrow> 's \<Rightarrow> 's \<times> bool) \<Rightarrow> udp_packet \<Rightarrow> 's \<Rightarrow> 's" where
  "net_udp_rx tracer_packet_rx update_packet_rx cms_udp_rx pkt s =
     (let (s, r) = tracer_packet_rx (up_data pkt) (up_datalen pkt) (up_src_port pkt) s
      in if r then s
         else let (s, r) = update_packet_rx (up_data pkt) (up_datalen pkt) (up_src_port pkt) s
              in if r then s
                 else fst (cms_udp_rx (up_data pkt) (up_datalen pkt) (up_src_port pkt) s))"

subsection \<open>The address word\<close>

definition ip_word :: "int \<Rightarrow> int \<Rightarrow> int \<Rightarrow> int \<Rightarrow> u32" where
  "ip_word a b c d = word_of_int a + push_bit 8 (word_of_int b) + push_bit 16 (word_of_int c)
     + push_bit 24 (word_of_int d)"

definition octet :: "int \<Rightarrow> bool" where
  "octet a \<longleftrightarrow> 0 \<le> a \<and> a \<le> 255"

lemma uint_ip_word:
  assumes "octet a" "octet b" "octet c" "octet d"
  shows "uint (ip_word a b c d) = a + 256 * b + 65536 * c + 16777216 * d"
proof -
  define k where "k = a + 256 * b + 65536 * c + 16777216 * d"
  have "ip_word a b c d = word_of_int k"
    by (simp add: ip_word_def push_bit_eq_mult k_def)
  moreover have "0 \<le> k" "k < 4294967296"
    using assms by (auto simp: octet_def k_def)
  ultimately show ?thesis by (simp add: uint_word_of_int flip: k_def)
qed

lemma ip_word_neq_0: "octet a \<Longrightarrow> octet b \<Longrightarrow> octet c \<Longrightarrow> octet d \<Longrightarrow> a \<noteq> 0 \<Longrightarrow> ip_word a b c d \<noteq> 0"
  using uint_ip_word [of a b c d] by (auto simp: octet_def)

subsection \<open>What the scanner returns on digits and dots\<close>

lemma scan_digits_ge: "0 \<le> v \<Longrightarrow> 0 \<le> fst (scan_digits v s)"
proof (induction s arbitrary: v)
  case (Cons c s)
  have "is_digit c \<Longrightarrow> 48 \<le> uint c" by (simp add: is_digit_def word_le_def)
  then show ?case using Cons.IH [of "10 * v + (uint c - 48)"] Cons.prems by auto
qed simp

lemma is_ip_chars_iff: "is_ip_chars s \<longleftrightarrow> (\<forall>c \<in> set s. is_digit c \<or> c = 46)"
  by (induction s) auto

lemma scan_digits_suffix: "set (snd (scan_digits v s)) \<subseteq> set s"
  by (induction s arbitrary: v) (auto split: if_splits)

lemma scan_d_ip:
  assumes "is_ip_chars s" "scan_d s = Some (v, r)"
  shows "0 \<le> v" "is_ip_chars r"
proof -
  have "dropWhile is_space s = s"
    using assms(1) by (cases s) (auto simp: is_space_def is_digit_def word_le_nat_alt split: if_splits)
  moreover have "c \<noteq> 45 \<and> c \<noteq> 43" if "c \<in> set s" for c
    using assms(1) that by (auto simp: is_ip_chars_iff is_digit_def word_le_nat_alt)
  ultimately have "scan_digits 0 s = (v, r)"
    using assms(2) by (auto simp: scan_d_def scan_unsigned_def split: list.splits if_splits)
  then show "0 \<le> v" "is_ip_chars r"
    using scan_digits_ge [of 0 s] scan_digits_suffix [of 0 s] assms(1) by (auto simp: is_ip_chars_iff)
qed

lemma scan_sep_ip: "is_ip_chars s \<Longrightarrow> v \<in> set (scan_sep 46 n s) \<Longrightarrow> 0 \<le> v"
proof (induction n arbitrary: s)
  case (Suc n)
  show ?case
  proof (cases "scan_d s")
    case (Some p)
    obtain w r where p: "scan_d s = Some (w, r)" using Some by (cases p) auto
    note q = scan_d_ip [OF Suc.prems(1) p]
    show ?thesis
    proof (cases r)
      case (Cons c r')
      then have "is_ip_chars r'" using q(2) by (simp split: if_splits)
      then show ?thesis using Suc.IH [of r'] Suc.prems(2) p q(1) Cons by (auto split: if_splits)
    qed (use Suc.prems(2) p q in auto)
  qed (use Suc.prems in auto)
qed simp

lemma ipv4_parse_ip:
  assumes "is_ip_chars s" "ipv4_parse s = Some ip"
  shows "\<exists>a b c d. ip = ip_word a b c d \<and> octet a \<and> octet b \<and> octet c \<and> octet d \<and> a \<noteq> 0 \<and> d \<noteq> 0"
proof -
  obtain a b c d where s: "scan_sep 46 4 s = [a, b, c, d]" and r: "a \<le> 255" "b \<le> 255" "c \<le> 255" "d \<le> 255"
      "a \<noteq> 0" "d \<noteq> 0" "ip = ip_word a b c d"
    using assms(2) by (auto simp: ipv4_parse_def ip_word_def split: list.splits if_splits)
  have "0 \<le> v" if "v \<in> {a, b, c, d}" for v
    using scan_sep_ip [OF assms(1), of v 4] s that by auto
  then have "octet a" "octet b" "octet c" "octet d" using r by (auto simp: octet_def)
  then show ?thesis using r by blast
qed

subsection \<open>Properties\<close>

text \<open>What the target parser accepts is usable: an address is four octets of which the first
and the last are not zero, in little-endian order, with a port that is not zero; a name is not empty,
shorter than the host buffer and holds a letter that is no digit or dot, and leaves the address
zero; an invalid target sets neither port nor address.  So an unconfigured \<open>0.0.0.0:4444\<close> never
reaches the resolver.\<close>

theorem net_target_parse_sound:
  "case tg_type (net_target_parse (Some url) n) of
     NET_TARGET_IP \<Rightarrow>
       (\<exists>a b c d ip port. tg_ip (net_target_parse (Some url) n) = Some ip \<and> tg_port (net_target_parse (Some url) n) = Some port
          \<and> octet a \<and> octet b \<and> octet c \<and> octet d \<and> a \<noteq> 0 \<and> d \<noteq> 0 \<and> port \<noteq> 0
          \<and> uint ip = a + 256 * b + 65536 * c + 16777216 * d)
   | NET_TARGET_NAME \<Rightarrow>
       (\<exists>host port. tg_host (net_target_parse (Some url) n) = Some host \<and> tg_port (net_target_parse (Some url) n) = Some port
          \<and> host \<noteq> [] \<and> length host < n \<and> has_alpha host \<and> \<not> is_ip_chars host \<and> port \<noteq> 0
          \<and> tg_ip (net_target_parse (Some url) n) = Some 0)
   | NET_TARGET_INVALID \<Rightarrow>
       tg_port (net_target_parse (Some url) n) = None \<and> tg_ip (net_target_parse (Some url) n) = Some 0"
proof -
  have port: "(word_of_int p :: u16) \<noteq> 0" if "0 < p" "p \<le> 65535" for p
  proof -
    have "uint (word_of_int p :: u16) = p" using that by (simp add: uint_word_of_int)
    then show ?thesis using that by auto
  qed
  show ?thesis
  proof (cases "last_colon url")
    case None
    then show ?thesis by (simp add: net_target_parse_def)
  next
    case (Some hr)
    obtain host rest where h: "last_colon url = Some (host, rest)" using Some by (cases hr) auto
    show ?thesis
    proof (cases "is_ip_chars host")
      case True
      show ?thesis
      proof (cases "ipv4_parse host")
        case None
        then show ?thesis using True
          by (simp add: net_target_parse_def h Let_def split: option.splits prod.splits)
      next
        case (Some ip)
        obtain a b c d where "ip = ip_word a b c d" "octet a" "octet b" "octet c" "octet d" "a \<noteq> 0" "d \<noteq> 0"
          using ipv4_parse_ip [OF True Some] by blast
        moreover from this have "uint ip = a + 256 * b + 65536 * c + 16777216 * d" by (simp add: uint_ip_word)
        ultimately show ?thesis using True Some port
          by (auto simp: net_target_parse_def h Let_def split: option.splits prod.splits)
      qed
    next
      case False
      then show ?thesis using port
        by (auto simp: net_target_parse_def h Let_def split: option.splits prod.splits)
    qed
  qed
qed

lemma literal_target:
  assumes "a \<le> 255" "b \<le> 255" "c \<le> 255" "d \<le> 255" "0 < a" "0 < d" "0 < p" "p \<le> 65535"
    and "url = show_nat a @ [46] @ show_nat b @ [46] @ show_nat c @ [46] @ show_nat d @ [58] @ show_nat p"
  shows "net_get_target_ip dns url = (True, ip_word (int a) (int b) (int c) (int d), Some (of_nat p))"
proof -
  have dg: "x \<in> set (show_nat n) \<Longrightarrow> x \<noteq> 58 \<and> x \<noteq> 46 \<and> is_digit x" for x n
    using show_nat_digits [of x n] by (auto simp: is_digit_def word_le_nat_alt)
  define host where "host = show_nat a @ [46] @ show_nat b @ [46] @ show_nat c @ [46] @ show_nat d"
  have url: "url = host @ 58 # show_nat p" by (simp add: assms(9) host_def)
  have len: "length (show_nat n) \<le> 3" if "n \<le> 255" for n
    using that by (simp add: show_nat.simps)
  have "takeWhile (\<lambda>c. c \<noteq> 58) (rev (show_nat p) @ 58 # rev host) = rev (show_nat p)"
    "dropWhile (\<lambda>c. c \<noteq> 58) (rev (show_nat p) @ 58 # rev host) = 58 # rev host"
    using dg [of _ p] by (auto simp: takeWhile_append dropWhile_append takeWhile_eq_all_conv)
  then have lc: "last_colon url = Some (host, show_nat p)" by (simp add: last_colon_def url)
  have ic: "is_ip_chars host" using dg by (auto simp: is_ip_chars_iff host_def)
  have lh: "length host < 64" "length host \<noteq> 0"
    using len [OF assms(1)] len [OF assms(2)] len [OF assms(3)] len [OF assms(4)] by (simp_all add: host_def)
  have sc: "scan_sep 46 4 host = [int a, int b, int c, int d]"
  proof -
    have dot: "scan_d (show_nat n @ 46 # r) = Some (int n, 46 # r)" for n r
      by (rule scan_show) (simp add: is_digit_def word_le_nat_alt)
    show ?thesis using scan_show [of "[]" d] by (simp add: host_def eval_nat_numeral dot)
  qed
  then have "ipv4_parse host = Some (ip_word (int a) (int b) (int c) (int d))"
    using assms(1-6) by (simp add: ipv4_parse_def ip_word_def)
  moreover have "scan_d (show_nat p) = Some (int p, [])" using scan_show [of "[]" p] by simp
  ultimately show ?thesis
    using lc ic lh assms(7,8) by (simp add: net_get_target_ip_def net_target_parse_def Let_def)
qed

text \<open>A literal target is parsed back: the text of four octets with dots, a colon and a port
gives that address and port, and is used without asking the resolver.\<close>

theorem net_target_literal:
  assumes "a \<le> 255" "b \<le> 255" "c \<le> 255" "d \<le> 255" "0 < a" "0 < d" "0 < p" "p \<le> 65535"
    and "url = show_nat a @ [46] @ show_nat b @ [46] @ show_nat c @ [46] @ show_nat d @ [58] @ show_nat p"
  shows "net_get_target_ip dns url = (True, ip_word (int a) (int b) (int c) (int d), Some (of_nat p))"
  using assms by (rule literal_target)

theorem net_target_literal_witness:
  "net_get_target_ip (\<lambda>_. (False, 0)) (str ''192.168.0.1:8080'') = (True, 0x0100A8C0, Some 8080)"
proof -
  have "str ''192.168.0.1:8080'' = show_nat 192 @ [46] @ show_nat 168 @ [46] @ show_nat 0 @ [46] @ show_nat 1 @ [58] @ show_nat 8080"
    by (simp add: str_def show_nat.simps)
  from net_target_literal [OF _ _ _ _ _ _ _ _ this, of "\<lambda>_. (False, 0)"] show ?thesis
    by (simp add: ip_word_def)
qed

end
