(* ===== verification/EventBuf.thy ===== *)
theory EventBuf
  imports EventTypes
begin

text \<open>
  \<open>app/event_buf.c\<close>: the fixed-size event buffer, a doubly linked list threaded through
  an array of items.  Indices are bytes and \<open>0xFF\<close> is the null index.  Every operation
  is in the option monad: \<open>None\<close> means a failed \<open>OS_ASSERT\<close> or an access outside
  the item array.
\<close>

unbundle bit_operations_syntax

subsection \<open>Data\<close>

abbreviation (input) EVENT_BUF_FLAG_USED :: u8 where "EVENT_BUF_FLAG_USED \<equiv> 1"
abbreviation (input) EVENT_BUF_FLAG_ACTIVE :: u8 where "EVENT_BUF_FLAG_ACTIVE \<equiv> 2"
abbreviation (input) EVENT_BUF_FLAG_PROCESSING :: u8 where "EVENT_BUF_FLAG_PROCESSING \<equiv> 4"
abbreviation (input) EVENT_BUF_FLAG_ZOMBIE :: u8 where "EVENT_BUF_FLAG_ZOMBIE \<equiv> 8"

abbreviation (input) EVENT_BUF_INDEX_NIL :: u8 where "EVENT_BUF_INDEX_NIL \<equiv> 0xFF"
abbreviation (input) EVENT_BUF_UNLIMITED :: u8 where "EVENT_BUF_UNLIMITED \<equiv> 0xFF"

record 'rtc eb_item =
  it_event :: "'rtc event"
  it_next :: u8
  it_prev :: u8
  it_prio :: u8
  it_flag :: u8
  it_user :: u16
  it_cnt :: u8

record 'rtc event_buf =
  eb_size :: u8
  eb_start :: u8
  eb_last :: u8
  eb_test :: u8
  eb_items :: "'rtc eb_item list"

text \<open>The 4-bit bit-fields \<open>prio\<close> and \<open>flag\<close> keep the low nibble of what is stored.\<close>

definition bits4 :: "u8 \<Rightarrow> u8" where
  "bits4 x = x AND 0xF"

definition eb_at :: "'rtc event_buf \<Rightarrow> u8 \<Rightarrow> 'rtc eb_item option" where
  "eb_at b i = arr_get (eb_items b) (unat i)"

definition eb_upd :: "'rtc event_buf \<Rightarrow> u8 \<Rightarrow> ('rtc eb_item \<Rightarrow> 'rtc eb_item) \<Rightarrow> 'rtc event_buf option" where
  "eb_upd b i f =
     do { it \<leftarrow> eb_at b i;
          its \<leftarrow> arr_set (eb_items b) (unat i) (f it);
          Some (b\<lparr>eb_items := its\<rparr>) }"

subsection \<open>Initialisation and search for a free item\<close>

definition eb_reset_item :: "'rtc eb_item \<Rightarrow> 'rtc eb_item" where
  "eb_reset_item it = it\<lparr>it_flag := 0, it_next := EVENT_BUF_INDEX_NIL, it_prev := EVENT_BUF_INDEX_NIL\<rparr>"

definition event_buf_init :: "'rtc eb_item list \<Rightarrow> u8 \<Rightarrow> 'rtc event_buf option" where
  "event_buf_init items sz =
     (if unat sz \<le> length items
      then Some \<lparr>eb_size = sz, eb_start = 0, eb_last = EVENT_BUF_INDEX_NIL, eb_test = 0xFF,
                 eb_items = map eb_reset_item (take (unat sz) items) @ drop (unat sz) items\<rparr>
      else None)"

fun buf_find_free :: "nat \<Rightarrow> 'rtc event_buf \<Rightarrow> ('rtc event_buf \<times> u8) option" where
  "buf_find_free 0 b = Some (b, EVENT_BUF_INDEX_NIL)"
| "buf_find_free (Suc n) b =
     (let t = eb_test b + 1;
          b = b\<lparr>eb_test := (if t \<ge> eb_size b then 0 else t)\<rparr>
      in do { it \<leftarrow> eb_at b (eb_test b);
              if it_flag it = 0 then Some (b, eb_test b) else buf_find_free n b })"

definition item_active :: "'rtc eb_item \<Rightarrow> bool" where
  "item_active it \<longleftrightarrow>
     it_flag it AND (EVENT_BUF_FLAG_USED OR EVENT_BUF_FLAG_ACTIVE)
       = EVENT_BUF_FLAG_USED OR EVENT_BUF_FLAG_ACTIVE"

definition in_comm :: "'rtc eb_item \<Rightarrow> bool" where
  "in_comm it \<longleftrightarrow> it_flag it AND (EVENT_BUF_FLAG_PROCESSING OR EVENT_BUF_FLAG_ZOMBIE) \<noteq> 0"

subsection \<open>The traversal loop\<close>

text \<open>
  Every operation walks the chain with the same loop: at most \<open>size\<close> rounds, the body, a
  \<open>break\<close> at a null \<open>next_index\<close> (read after the body), then the next index, which
  some loops check with \<open>OS_ASSERT\<close> (\<open>chk\<close>).  The accumulator holds the locals; a
  body that returns \<open>True\<close> leaves the function.
\<close>

fun eb_walk :: "bool \<Rightarrow> nat
    \<Rightarrow> ('rtc event_buf \<Rightarrow> 'acc \<Rightarrow> u8 \<Rightarrow> ('rtc event_buf \<times> 'acc \<times> bool) option)
    \<Rightarrow> 'rtc event_buf \<Rightarrow> 'acc \<Rightarrow> u8 \<Rightarrow> ('rtc event_buf \<times> 'acc) option" where
  "eb_walk chk 0 body b acc i = Some (b, acc)"
| "eb_walk chk (Suc n) body b acc i =
     do { (b, acc, stop) \<leftarrow> body b acc i;
          if stop then Some (b, acc)
          else do { it \<leftarrow> eb_at b i;
                    if it_next it = EVENT_BUF_INDEX_NIL then Some (b, acc)
                    else do { _ \<leftarrow> os_assert (chk \<longrightarrow> it_next it < eb_size b);
                              eb_walk chk n body b acc (it_next it) } } }"

subsection \<open>Deletion\<close>

definition delete_item :: "'rtc event_buf \<Rightarrow> u8 \<Rightarrow> 'rtc event_buf option" where
  "delete_item b index =
     do { _ \<leftarrow> os_assert (index < eb_size b);
          it \<leftarrow> eb_at b index;
          if it_flag it = 0 then Some b
          else do {
            b \<leftarrow> eb_upd b index (\<lambda>p. p\<lparr>it_flag := 0\<rparr>);
            if index \<noteq> eb_start b then do {
              _ \<leftarrow> os_assert (it_prev it < eb_size b);
              b \<leftarrow> eb_upd b (it_prev it) (\<lambda>p. p\<lparr>it_next := it_next it\<rparr>);
              it \<leftarrow> eb_at b index;
              if eb_last b = index then do {
                _ \<leftarrow> os_assert (it_next it = EVENT_BUF_INDEX_NIL);
                Some (b\<lparr>eb_last := it_prev it\<rparr>) }
              else do {
                _ \<leftarrow> os_assert (it_next it < eb_size b);
                eb_upd b (it_next it) (\<lambda>p. p\<lparr>it_prev := it_prev it\<rparr>) } }
            else if index \<noteq> eb_last b then do {
              b \<leftarrow> Some (b\<lparr>eb_start := it_next it\<rparr>);
              nx \<leftarrow> eb_at b (eb_start b);
              _ \<leftarrow> os_assert (it_prev nx = index);
              eb_upd b (eb_start b) (\<lambda>p. p\<lparr>it_prev := EVENT_BUF_INDEX_NIL\<rparr>) }
            else Some (b\<lparr>eb_last := EVENT_BUF_INDEX_NIL\<rparr>) } }"

subsection \<open>The operations\<close>

definition empty_body :: "'rtc event_buf \<Rightarrow> bool \<Rightarrow> u8 \<Rightarrow> ('rtc event_buf \<times> bool \<times> bool) option" where
  "empty_body b acc i =
     do { it \<leftarrow> eb_at b i;
          if item_active it \<and> \<not> in_comm it then Some (b, False, True) else Some (b, acc, False) }"

definition event_buf_empty :: "'rtc event_buf \<Rightarrow> bool option" where
  "event_buf_empty b =
     map_option snd (eb_walk True (unat (eb_size b)) empty_body b True (eb_start b))"

text \<open>\<open>_buf_replace_prio\<close>: its two loops, with the index to return as the second local.\<close>

definition lowest_body :: "'rtc event_buf \<Rightarrow> u8 \<times> u8 option \<Rightarrow> u8
    \<Rightarrow> ('rtc event_buf \<times> (u8 \<times> u8 option) \<times> bool) option" where
  "lowest_body b acc i =
     do { it \<leftarrow> eb_at b i;
          if it_flag it = 0 then Some (b, (fst acc, Some i), True)
          else Some (b, (if it_prio it < fst acc then it_prio it else fst acc, snd acc), False) }"

definition oldest_body :: "u8 \<Rightarrow> 'rtc event_buf \<Rightarrow> u8 option \<Rightarrow> u8
    \<Rightarrow> ('rtc event_buf \<times> u8 option \<times> bool) option" where
  "oldest_body lowest b acc i =
     do { it \<leftarrow> eb_at b i;
          if it_prio it = lowest then Some (b, Some i, True) else Some (b, acc, False) }"

definition buf_replace_prio :: "'rtc event_buf \<Rightarrow> u8 \<Rightarrow> u8 option" where
  "buf_replace_prio b prio =
     do { (_, (lowest, bad)) \<leftarrow>
            eb_walk False (unat (eb_size b)) lowest_body b (EVENT_PRIO_HI, None) (eb_start b);
          case bad of
            Some i \<Rightarrow> Some i
          | None \<Rightarrow>
              if lowest > prio then Some EVENT_BUF_INDEX_NIL
              else if lowest = prio then Some (eb_start b)
              else do { (_, found) \<leftarrow>
                          eb_walk False (unat (eb_size b)) (oldest_body lowest) b None (eb_start b);
                        Some (case found of Some i \<Rightarrow> i | None \<Rightarrow> EVENT_BUF_INDEX_NIL) } }"

definition new_item :: "'rtc event \<Rightarrow> u8 \<Rightarrow> u16 \<Rightarrow> u8 \<Rightarrow> 'rtc eb_item" where
  "new_item event prio user prev =
     \<lparr>it_event = event, it_next = EVENT_BUF_INDEX_NIL, it_prev = prev, it_prio = bits4 prio,
      it_flag = EVENT_BUF_FLAG_USED OR EVENT_BUF_FLAG_ACTIVE, it_user = user, it_cnt = 0\<rparr>"

text \<open>The index to write to: an empty buffer, a free item, or a replaced one (\<open>NIL\<close>: full).\<close>

definition add_slot :: "'rtc event_buf \<Rightarrow> u8 \<Rightarrow> ('rtc event_buf \<times> u8) option" where
  "add_slot b prio =
     (if eb_last b = EVENT_BUF_INDEX_NIL
      then do { _ \<leftarrow> os_assert (eb_start b \<noteq> EVENT_BUF_INDEX_NIL); Some (b, eb_start b) }
      else do { (b, wr) \<leftarrow> buf_find_free (unat (eb_size b)) b;
                if wr \<noteq> EVENT_BUF_INDEX_NIL then Some (b, wr)
                else do { wr \<leftarrow> buf_replace_prio b prio;
                          if wr \<noteq> EVENT_BUF_INDEX_NIL
                          then do { b \<leftarrow> delete_item b wr; Some (b, wr) }
                          else Some (b, EVENT_BUF_INDEX_NIL) } })"

definition add_link :: "'rtc event_buf \<Rightarrow> u8 \<Rightarrow> 'rtc event \<Rightarrow> u8 \<Rightarrow> u16 \<Rightarrow> 'rtc event_buf option" where
  "add_link b wr event prio user =
     do { b \<leftarrow> eb_upd b wr (\<lambda>_. new_item event prio user 0);
          b \<leftarrow> (if eb_last b \<noteq> EVENT_BUF_INDEX_NIL
                then eb_upd b (eb_last b) (\<lambda>p. p\<lparr>it_next := wr\<rparr>) else Some b);
          b \<leftarrow> eb_upd b wr (\<lambda>p. p\<lparr>it_prev := eb_last b\<rparr>);
          b \<leftarrow> Some (b\<lparr>eb_last := wr\<rparr>);
          it \<leftarrow> eb_at b wr;
          _ \<leftarrow> os_assert (it_prev it \<noteq> wr);
          _ \<leftarrow> os_assert (it_next it \<noteq> wr);
          Some b }"

definition event_buf_add_event ::
    "'rtc event_buf \<Rightarrow> 'rtc event option \<Rightarrow> u8 \<Rightarrow> u16 \<Rightarrow> ('rtc event_buf \<times> bool) option" where
  "event_buf_add_event b event prio user =
     (case event of
        None \<Rightarrow> Some (b, False)
      | Some e \<Rightarrow>
          if user = EVENT_USER_NONE then Some (b, False)
          else do { (b, wr) \<leftarrow> add_slot b prio;
                    if wr = EVENT_BUF_INDEX_NIL then Some (b, False)
                    else do { b \<leftarrow> add_link b wr e prio user; Some (b, True) } })"

definition restore_body :: "u8 \<Rightarrow> 'rtc event_buf \<Rightarrow> bool \<Rightarrow> u8 \<Rightarrow> ('rtc event_buf \<times> bool \<times> bool) option" where
  "restore_body retry_limit b result i =
     do { it \<leftarrow> eb_at b i;
          if in_comm it then do {
            b \<leftarrow> eb_upd b i (\<lambda>it. it\<lparr>it_flag :=
                   bits4 (it_flag it AND NOT (EVENT_BUF_FLAG_PROCESSING OR EVENT_BUF_FLAG_ZOMBIE))\<rparr>);
            it \<leftarrow> eb_at b i;
            if item_active it \<and> retry_limit \<noteq> EVENT_BUF_UNLIMITED then do {
              b \<leftarrow> eb_upd b i (\<lambda>it. it\<lparr>it_cnt := it_cnt it + 1\<rparr>);
              it \<leftarrow> eb_at b i;
              if it_cnt it \<ge> retry_limit
              then do { b \<leftarrow> delete_item b i; Some (b, False, False) }
              else Some (b, result, False) }
            else Some (b, result, False) }
          else Some (b, result, False) }"

definition event_buf_restore_events :: "'rtc event_buf \<Rightarrow> u8 \<Rightarrow> ('rtc event_buf \<times> bool) option" where
  "event_buf_restore_events b retry_limit =
     eb_walk False (unat (eb_size b)) (restore_body retry_limit) b True (eb_start b)"

definition done_body :: "bool \<Rightarrow> 'rtc event_buf \<Rightarrow> unit \<Rightarrow> u8 \<Rightarrow> ('rtc event_buf \<times> unit \<times> bool) option" where
  "done_body delivered b acc i =
     do { it \<leftarrow> eb_at b i;
          if it_flag it AND EVENT_BUF_FLAG_PROCESSING \<noteq> 0 then do {
            b \<leftarrow> eb_upd b i (\<lambda>it. it\<lparr>it_flag := bits4 (it_flag it AND NOT EVENT_BUF_FLAG_PROCESSING)\<rparr>);
            it \<leftarrow> eb_at b i;
            if item_active it then
              if delivered then do { b \<leftarrow> delete_item b i; Some (b, (), False) }
              else do { b \<leftarrow> eb_upd b i (\<lambda>it. it\<lparr>it_flag := bits4 (it_flag it OR EVENT_BUF_FLAG_ZOMBIE)\<rparr>);
                        Some (b, (), False) }
            else Some (b, (), False) }
          else Some (b, (), False) }"

definition event_buf_done_events :: "'rtc event_buf \<Rightarrow> bool \<Rightarrow> 'rtc event_buf option" where
  "event_buf_done_events b delivered =
     map_option fst (eb_walk False (unat (eb_size b)) (done_body delivered) b () (eb_start b))"

text \<open>
  \<open>event_buf_get_event\<close>: the out-parameters \<open>event\<close>, \<open>user\<close> and \<open>prio\<close> are the
  accumulator, written on the way even when no record is returned.
\<close>

record 'rtc eb_get =
  gt_event :: "'rtc event option"
  gt_user :: u16
  gt_prio :: "u8 option"
  gt_found :: bool

definition get_body :: "'rtc event_buf \<Rightarrow> 'rtc eb_get \<Rightarrow> u8 \<Rightarrow> ('rtc event_buf \<times> 'rtc eb_get \<times> bool) option" where
  "get_body b acc i =
     do { it \<leftarrow> eb_at b i;
          if item_active it \<and> \<not> in_comm it then
            let user = (if gt_user acc = EVENT_USER_NONE then it_user it else gt_user acc);
                acc = acc\<lparr>gt_event := Some (it_event it), gt_prio := Some (it_prio it), gt_user := user\<rparr>
            in if user = it_user it
               then do { b \<leftarrow> eb_upd b i (\<lambda>it. it\<lparr>it_flag := bits4 (it_flag it OR EVENT_BUF_FLAG_PROCESSING)\<rparr>);
                         Some (b, acc\<lparr>gt_found := True\<rparr>, True) }
               else Some (b, acc, False)
          else Some (b, acc, False) }"

definition event_buf_get_event ::
    "'rtc event_buf \<Rightarrow> u16 option \<Rightarrow> ('rtc event_buf \<times> 'rtc eb_get) option" where
  "event_buf_get_event b user =
     (case user of
        None \<Rightarrow> Some (b, \<lparr>gt_event = None, gt_user = 0, gt_prio = None, gt_found = False\<rparr>)
      | Some u \<Rightarrow>
          eb_walk False (unat (eb_size b)) get_body b
            \<lparr>gt_event = None, gt_user = u, gt_prio = None, gt_found = False\<rparr> (eb_start b))"

text \<open>
  \<open>event_buf_for_each\<close>: the callback is a parameter; it may change the event in place and
  answers whether to keep the record.  Its own state is the accumulator.
\<close>

definition for_each_body :: "('rtc event \<Rightarrow> 'acc \<Rightarrow> 'rtc event \<times> 'acc \<times> bool) \<Rightarrow>
    'rtc event_buf \<Rightarrow> 'acc \<Rightarrow> u8 \<Rightarrow> ('rtc event_buf \<times> 'acc \<times> bool) option" where
  "for_each_body pfunc b acc i =
     do { it \<leftarrow> eb_at b i;
          if it_flag it AND EVENT_BUF_FLAG_USED \<noteq> 0 then
            let (e, acc, keep) = pfunc (it_event it) acc
            in do { b \<leftarrow> eb_upd b i (\<lambda>p. p\<lparr>it_event := e\<rparr>);
                    if keep then Some (b, acc, False)
                    else do { b \<leftarrow> delete_item b i; Some (b, acc, False) } }
          else Some (b, acc, False) }"

definition event_buf_for_each :: "'rtc event_buf \<Rightarrow> ('rtc event \<Rightarrow> 'acc \<Rightarrow> 'rtc event \<times> 'acc \<times> bool)
    \<Rightarrow> 'acc \<Rightarrow> ('rtc event_buf \<times> 'acc) option" where
  "event_buf_for_each b pfunc acc =
     eb_walk True (unat (eb_size b)) (for_each_body pfunc) b acc (eb_start b)"

end
