(* ===== verification/EventBufRep.thy ===== *)
theory EventBufRep
  imports EventBuf
begin

text \<open>
  The representation of the event buffer: which list of indices the two chains of
  \<open>next_index\<close> and \<open>prev_index\<close> spell out (\<open>eb_rep\<close>), that deletion removes one index
  from it, and a locale for the bodies of the traversal loops, in which the loop over the
  array is proved to be a fold over that list.
\<close>

unbundle bit_operations_syntax

fun dseg :: "'rtc eb_item list \<Rightarrow> u8 \<Rightarrow> u8 list \<Rightarrow> u8 \<Rightarrow> bool" where
  "dseg its p [] n = True"
| "dseg its p (i # is) n =
     (it_prev (its ! unat i) = p \<and> it_next (its ! unat i) = hd (is @ [n]) \<and> dseg its i is n)"

lemma dseg_append:
  "dseg its p (xs @ ys) n \<longleftrightarrow> dseg its p xs (hd (ys @ [n])) \<and> dseg its (last (p # xs)) ys n"
proof (induction xs arbitrary: p)
  case (Cons x xs)
  then show ?case by (cases xs) auto
qed simp

lemma dseg_cong:
  assumes "\<And>i. i \<in> set is \<Longrightarrow> it_next (its ! unat i) = it_next (its' ! unat i)"
    and "\<And>i. i \<in> set is \<Longrightarrow> it_prev (its ! unat i) = it_prev (its' ! unat i)"
  shows "dseg its p is n \<longleftrightarrow> dseg its' p is n"
  using assms by (induction "is" arbitrary: p) auto

definition eb_rep :: "'rtc event_buf \<Rightarrow> u8 list \<Rightarrow> bool" where
  "eb_rep b is \<longleftrightarrow>
     unat (eb_size b) \<le> length (eb_items b) \<and> eb_start b < eb_size b \<and>
     distinct is \<and> (\<forall>i \<in> set is. i < eb_size b \<and> item_active (eb_items b ! unat i)) \<and>
     (\<forall>i < eb_size b. it_flag (eb_items b ! unat i) \<noteq> 0 \<longleftrightarrow> i \<in> set is) \<and>
     dseg (eb_items b) EVENT_BUF_INDEX_NIL is EVENT_BUF_INDEX_NIL \<and>
     (if is = [] then eb_last b = EVENT_BUF_INDEX_NIL
                    \<and> it_next (eb_items b ! unat (eb_start b)) = EVENT_BUF_INDEX_NIL
      else eb_start b = hd is \<and> eb_last b = last is)"

definition it_core :: "'rtc eb_item \<Rightarrow> 'rtc eb_item" where
  "it_core it = it\<lparr>it_next := 0, it_prev := 0\<rparr>"

lemma it_core_simps [simp]:
  "it_event (it_core it) = it_event it" "it_prio (it_core it) = it_prio it"
  "it_flag (it_core it) = it_flag it" "it_user (it_core it) = it_user it"
  "it_cnt (it_core it) = it_cnt it"
  "it_core (it_next_update f it) = it_core it" "it_core (it_prev_update f it) = it_core it"
  "it_core (it_flag_update g it) = it_flag_update g (it_core it)"
  "it_core (it_cnt_update g it) = it_cnt_update g (it_core it)"
  "it_core (it_event_update h it) = it_event_update h (it_core it)"
  by (simp_all add: it_core_def)

lemma item_active_iff: "item_active it \<longleftrightarrow> bit (it_flag it) 0 \<and> bit (it_flag it) 1"
proof -
  have "it_flag it AND 3 = 3 \<longleftrightarrow> bit (it_flag it) 0 \<and> bit (it_flag it) 1"
    by (simp add: u8_bits bit_simps)
  then show ?thesis by (simp add: item_active_def)
qed

lemma item_active_flag: "item_active it \<Longrightarrow> it_flag it \<noteq> 0"
  by (auto simp: item_active_iff)

lemma item_active_core [simp]: "item_active (it_core it) = item_active it"
  by (simp add: item_active_def)

lemma item_active_links [simp]:
  "item_active (it_next_update f it) = item_active it"
  "item_active (it_prev_update f it) = item_active it"
  by (simp_all add: item_active_def)

lemma less_not_NIL: "i < s \<Longrightarrow> i \<noteq> EVENT_BUF_INDEX_NIL" for i :: u8
  using unat_u8_less [of s] by (auto simp: word_less_nat_alt simp del: unat_u8_less)

lemma eb_rep_index:
  assumes "eb_rep b is" "i < eb_size b"
  shows "unat i < length (eb_items b)" "i \<noteq> EVENT_BUF_INDEX_NIL"
  using assms less_not_NIL by (auto simp: eb_rep_def word_less_nat_alt)

lemma eb_at_Some: "unat i < length (eb_items b) \<Longrightarrow> eb_at b i = Some (eb_items b ! unat i)"
  by (simp add: eb_at_def)

lemma eb_upd_Some:
  "unat i < length (eb_items b) \<Longrightarrow>
   eb_upd b i f = Some (b\<lparr>eb_items := (eb_items b)[unat i := f (eb_items b ! unat i)]\<rparr>)"
  by (simp add: eb_upd_def eb_at_Some)

lemma nth_unat_update [simp]:
  "unat j < length xs \<Longrightarrow> xs[unat i := x] ! unat j = (if i = j then x else xs ! unat j)" for i j :: u8
  by (auto simp: nth_list_update nth_list_update_neq)

lemma delete_item_rep:
  assumes rep: "eb_rep b is" and i: "i \<in> set is"
  shows "\<exists>b'. delete_item b i = Some b' \<and> eb_rep b' (remove1 i is)
           \<and> (\<forall>j < eb_size b. j \<noteq> i \<longrightarrow> it_core (eb_items b' ! unat j) = it_core (eb_items b ! unat j))
           \<and> it_next (eb_items b' ! unat i) = it_next (eb_items b ! unat i)
           \<and> eb_size b' = eb_size b \<and> eb_test b' = eb_test b
           \<and> length (eb_items b') = length (eb_items b)"
proof -
  obtain xs ys where split: "is = xs @ i # ys"
    using i by (meson split_list)
  have d: "distinct (xs @ i # ys)" and sz: "\<forall>j \<in> set (xs @ i # ys). j < eb_size b \<and> item_active (eb_items b ! unat j)"
    and lenb: "unat (eb_size b) \<le> length (eb_items b)"
    and fl: "\<forall>j < eb_size b. it_flag (eb_items b ! unat j) \<noteq> 0 \<longleftrightarrow> j \<in> set (xs @ i # ys)"
    and seg: "dseg (eb_items b) 255 (xs @ i # ys) 255"
    and st: "eb_start b = hd (xs @ i # ys)" "eb_last b = last (xs @ i # ys)"
    using rep by (auto simp: eb_rep_def split split: if_splits)
  have rm: "remove1 i is = xs @ ys"
    using d by (simp add: split remove1_append)
  have len: "\<And>j. j \<in> set (xs @ i # ys) \<Longrightarrow> unat j < length (eb_items b)"
    using sz lenb by (fastforce simp: word_less_nat_alt)
  have len': "\<And>j. j < eb_size b \<Longrightarrow> unat j < length (eb_items b)"
    using lenb by (simp add: word_less_nat_alt)
  have li: "unat i < length (eb_items b)" and isz: "i < eb_size b" using len sz by auto
  have nxt: "it_next (eb_items b ! unat i) = hd (ys @ [255])"
    and prv: "it_prev (eb_items b ! unat i) = last (255 # xs)"
    and segx: "dseg (eb_items b) 255 xs i" and segy: "dseg (eb_items b) i ys 255"
    using seg by (auto simp: dseg_append)
  have flag: "it_flag (eb_items b ! unat i) \<noteq> 0" using fl isz by auto
  note S = delete_item_def eb_at_Some eb_upd_Some li isz nxt prv flag
  show ?thesis
  proof (cases ys)
    case Nil
    show ?thesis
    proof (cases xs rule: rev_cases)
      case Nil
      then show ?thesis
        using \<open>ys = []\<close> st d fl len' lenb isz nxt by (auto simp add: S rm eb_rep_def)
    next
      case (snoc zs z)
      have z: "z \<noteq> i" "z < eb_size b" "unat z < length (eb_items b)" "z \<noteq> 255"
        using d sz len snoc less_not_NIL by auto
      have "eb_start b \<noteq> i" using st d snoc by (cases zs) auto
      have s: "dseg (eb_items b) 255 zs z" "it_prev (eb_items b ! unat z) = last (255 # zs)"
        using segx snoc by (auto simp: dseg_append)
      let ?its = "(eb_items b)[unat i := it_flag_update (\<lambda>_. 0) (eb_items b ! unat i),
         unat z := it_next_update (\<lambda>_. 255) (eb_items b ! unat z)]"
      have "dseg ?its 255 zs z"
        using s(1) d snoc len by (subst dseg_cong [of _ _ "eb_items b"]) auto
      then have "dseg ?its 255 (zs @ [z]) 255"
        using s(2) z by (simp add: dseg_append)
      then show ?thesis
        using snoc \<open>ys = []\<close> st d fl len' lenb isz z sz \<open>eb_start b \<noteq> i\<close>
        by (auto simp add: S rm eb_rep_def hd_append split: if_splits)
    qed
  next
    case (Cons y ws)
    have y: "y \<noteq> i" "y < eb_size b" "unat y < length (eb_items b)" "y \<noteq> 255" "y \<notin> set ws"
      using d sz len Cons less_not_NIL by auto
    have lst: "eb_last b \<noteq> i" "last (i # ys) = last ys"
      using st d Cons by (auto simp: last_in_set)
    show ?thesis
    proof (cases xs rule: rev_cases)
      case Nil
      let ?its = "(eb_items b)[unat i := it_flag_update (\<lambda>_. 0) (eb_items b ! unat i),
         unat y := it_prev_update (\<lambda>_. 255) (eb_items b ! unat y)]"
      have "dseg ?its y ws 255 \<longleftrightarrow> dseg (eb_items b) y ws 255"
        using d Cons len by (intro dseg_cong) auto
      then have "dseg ?its 255 ys 255"
        using segy y Cons by auto
      then show ?thesis
        using Nil Cons st d fl len' lenb isz y sz lst segy
        by (auto simp add: S rm eb_rep_def)
    next
      case (snoc zs z)
      have z: "z \<noteq> i" "z \<noteq> y" "z < eb_size b" "unat z < length (eb_items b)" "z \<noteq> 255"
        using d sz len snoc Cons less_not_NIL by auto
      have "eb_start b \<noteq> i" using st d snoc by (cases zs) auto
      have s: "dseg (eb_items b) 255 zs z" "it_prev (eb_items b ! unat z) = last (255 # zs)"
        using segx snoc by (auto simp: dseg_append)
      let ?its = "(eb_items b)[unat i := it_flag_update (\<lambda>_. 0) (eb_items b ! unat i),
         unat z := it_next_update (\<lambda>_. y) (eb_items b ! unat z),
         unat y := it_prev_update (\<lambda>_. z) (eb_items b ! unat y)]"
      have 1: "dseg ?its 255 zs z \<longleftrightarrow> dseg (eb_items b) 255 zs z"
        using d snoc Cons len by (intro dseg_cong) auto
      have 2: "dseg ?its y ws 255 \<longleftrightarrow> dseg (eb_items b) y ws 255"
        using d snoc Cons len by (intro dseg_cong) auto
      have "dseg ?its 255 (zs @ [z] @ y # ws) 255"
        using s z y Cons segy 1 2 by (simp add: dseg_append)
      then show ?thesis
        using snoc Cons st d fl len' lenb isz z y sz lst \<open>eb_start b \<noteq> i\<close>
        by (auto simp add: S rm eb_rep_def hd_append split: if_splits)
    qed
  qed
qed

definition eb_effect :: "'rtc event_buf \<Rightarrow> u8 list \<Rightarrow> u8 \<Rightarrow> 'rtc eb_item option \<Rightarrow> 'rtc event_buf \<Rightarrow> bool" where
  "eb_effect b is i co b' \<longleftrightarrow>
     eb_size b' = eb_size b \<and> eb_test b' = eb_test b
     \<and> it_next (eb_items b' ! unat i) = it_next (eb_items b ! unat i)
     \<and> (\<forall>j < eb_size b. j \<noteq> i \<longrightarrow> it_core (eb_items b' ! unat j) = it_core (eb_items b ! unat j))
     \<and> (case co of None \<Rightarrow> eb_rep b' (remove1 i is)
                 | Some c \<Rightarrow> eb_rep b' is \<and> it_core (eb_items b' ! unat i) = c)"

lemma eb_rep_memberD:
  assumes "eb_rep b is" "i \<in> set is"
  shows "i < eb_size b" "unat i < length (eb_items b)" "i \<noteq> EVENT_BUF_INDEX_NIL"
    "it_flag (eb_items b ! unat i) \<noteq> 0" "eb_at b i = Some (eb_items b ! unat i)"
    "eb_upd b i f = Some (b\<lparr>eb_items := (eb_items b)[unat i := f (eb_items b ! unat i)]\<rparr>)"
proof -
  show 1: "i < eb_size b" using assms by (auto simp: eb_rep_def)
  from eb_rep_index [OF assms(1) this]
  show 2: "unat i < length (eb_items b)" "i \<noteq> EVENT_BUF_INDEX_NIL" by auto
  show "it_flag (eb_items b ! unat i) \<noteq> 0" using assms 1 by (auto simp: eb_rep_def)
  show "eb_at b i = Some (eb_items b ! unat i)"
    "eb_upd b i f = Some (b\<lparr>eb_items := (eb_items b)[unat i := f (eb_items b ! unat i)]\<rparr>)"
    using 2 by (simp_all add: eb_at_Some eb_upd_Some)
qed

lemma eb_effect_upd:
  assumes rep: "eb_rep b is" and i: "i \<in> set is"
    and f: "\<And>it. it_next (f it) = it_next it" "\<And>it. it_prev (f it) = it_prev it"
    and fl: "item_active (f (eb_items b ! unat i))"
  shows "eb_effect b is i (Some (it_core (f (eb_items b ! unat i))))
           (b\<lparr>eb_items := (eb_items b)[unat i := f (eb_items b ! unat i)]\<rparr>)"
proof -
  note m = eb_rep_memberD [OF rep i]
  let ?its = "(eb_items b)[unat i := f (eb_items b ! unat i)]"
  have len: "\<And>j. j < eb_size b \<Longrightarrow> unat j < length (eb_items b)"
    using rep by (rule eb_rep_index)
  have seg: "dseg ?its p is n \<longleftrightarrow> dseg (eb_items b) p is n" for p n
    using f m rep by (intro dseg_cong) (auto simp: eb_rep_def nth_list_update)
  show ?thesis
    using rep m fl item_active_flag [OF fl] len f seg unfolding eb_effect_def eb_rep_def by (auto split: if_splits)
qed

lemma eb_effect_delete:
  assumes "eb_rep b is" "i \<in> set is"
  shows "\<exists>b'. delete_item b i = Some b' \<and> eb_effect b is i None b'"
  using delete_item_rep [OF assms] by (auto simp: eb_effect_def)

lemma eb_effect_trans:
  assumes "eb_effect b is i (Some c) b1" "eb_effect b1 is i co b2"
  shows "eb_effect b is i co b2"
  using assms by (auto simp: eb_effect_def split: option.splits)

fun walk_list :: "(u8 \<Rightarrow> 'i \<Rightarrow> 'acc \<Rightarrow> 'i option \<times> 'acc \<times> bool) \<Rightarrow> (u8 \<times> 'i) list \<Rightarrow> 'acc
    \<Rightarrow> (u8 \<times> 'i) list \<times> 'acc" where
  "walk_list g [] acc = ([], acc)"
| "walk_list g ((i, c) # cs) acc =
     (let (co, acc', stop) = g i c acc;
          keep = (case co of None \<Rightarrow> [] | Some c' \<Rightarrow> [(i, c')])
      in if stop then (keep @ cs, acc')
         else let (r, acc'') = walk_list g cs acc' in (keep @ r, acc''))"

definition eb_pairs :: "'rtc event_buf \<Rightarrow> u8 list \<Rightarrow> (u8 \<times> 'rtc eb_item) list" where
  "eb_pairs b is = map (\<lambda>i. (i, it_core (eb_items b ! unat i))) is"

lemma eb_pairs_simps [simp]:
  "eb_pairs b [] = []" "eb_pairs b (i # is) = (i, it_core (eb_items b ! unat i)) # eb_pairs b is"
  "eb_pairs b (xs @ ys) = eb_pairs b xs @ eb_pairs b ys"
  "map fst (eb_pairs b is) = is" "length (eb_pairs b is) = length is"
  by (simp_all add: eb_pairs_def o_def)

lemma eb_pairs_cong:
  "(\<And>i. i \<in> set is \<Longrightarrow> it_core (eb_items b ! unat i) = it_core (eb_items b' ! unat i)) \<Longrightarrow>
   eb_pairs b is = eb_pairs b' is"
  by (simp add: eb_pairs_def)

lemma eb_rep_length: "eb_rep b is \<Longrightarrow> length is \<le> unat (eb_size b)"
proof -
  assume rep: "eb_rep b is"
  then have d: "distinct (map unat is)"
    by (auto simp: eb_rep_def distinct_map inj_on_def)
  have "set (map unat is) \<subseteq> {..<unat (eb_size b)}"
    using rep by (auto simp: eb_rep_def word_less_nat_alt)
  then have "card (set (map unat is)) \<le> unat (eb_size b)"
    by (metis card_lessThan card_mono finite_lessThan)
  then show ?thesis by (simp only: distinct_card [OF d] length_map)
qed

locale eb_body =
  fixes body :: "'rtc event_buf \<Rightarrow> 'acc \<Rightarrow> u8 \<Rightarrow> ('rtc event_buf \<times> 'acc \<times> bool) option"
    and g :: "u8 \<Rightarrow> 'rtc eb_item \<Rightarrow> 'acc \<Rightarrow> 'rtc eb_item option \<times> 'acc \<times> bool"
  assumes body_step: "eb_rep b is \<Longrightarrow> i \<in> set is \<Longrightarrow>
    g i (it_core (eb_items b ! unat i)) acc = (co, acc', stop) \<Longrightarrow>
    \<exists>b'. body b acc i = Some (b', acc', stop) \<and> eb_effect b is i co b'"
begin

lemma walk_from:
  assumes "eb_rep b (ds @ ys)" "ys \<noteq> []" "length ys \<le> n"
    and "walk_list g (eb_pairs b ys) acc = (zs, acc')"
  shows "\<exists>b'. eb_walk chk n body b acc (hd ys) = Some (b', acc') \<and> eb_rep b' (ds @ map fst zs)
           \<and> eb_pairs b' (map fst zs) = zs \<and> eb_pairs b' ds = eb_pairs b ds
           \<and> eb_size b' = eb_size b \<and> eb_test b' = eb_test b"
  using assms
proof (induction ys arbitrary: b ds acc n zs)
  case Nil
  then show ?case by simp
next
  case (Cons i ys)
  obtain m where n: "n = Suc m" using Cons.prems(3) by (cases n) auto
  have i: "i \<in> set (ds @ i # ys)" by simp
  obtain co acc1 stop where g: "g i (it_core (eb_items b ! unat i)) acc = (co, acc1, stop)"
    by (metis prod_cases3)
  obtain b1 where b1: "body b acc i = Some (b1, acc1, stop)" and ef: "eb_effect b (ds @ i # ys) i co b1"
    using body_step [OF Cons.prems(1) i g] by blast
  define keep where "keep = (case co of None \<Rightarrow> [] | Some c' \<Rightarrow> [(i, c')])"
  have d: "distinct (ds @ i # ys)" and sub: "\<And>j. j \<in> set (ds @ i # ys) \<Longrightarrow> j < eb_size b"
    using Cons.prems(1) by (auto simp: eb_rep_def)
  have rep1: "eb_rep b1 (ds @ map fst keep @ ys)"
    using ef d by (auto simp: eb_effect_def keep_def remove1_append split: option.splits)
  have others: "j \<in> set (ds @ i # ys) \<Longrightarrow> j \<noteq> i \<Longrightarrow>
      it_core (eb_items b1 ! unat j) = it_core (eb_items b ! unat j)" for j
    using ef sub [of j] by (auto simp: eb_effect_def)
  have pys: "eb_pairs b1 ys = eb_pairs b ys" and pds: "eb_pairs b1 ds = eb_pairs b ds"
    using others d by (auto intro!: eb_pairs_cong)
  have pk: "eb_pairs b1 (map fst keep) = keep"
    using ef by (auto simp: eb_effect_def keep_def split: option.splits)
  have sz: "eb_size b1 = eb_size b" "eb_test b1 = eb_test b" using ef by (auto simp: eb_effect_def)
  have nx: "it_next (eb_items b1 ! unat i) = hd (ys @ [255])"
    using ef Cons.prems(1) by (auto simp: eb_effect_def eb_rep_def dseg_append)
  have "i < eb_size b1" using sub sz by auto
  then have at: "eb_at b1 i = Some (eb_items b1 ! unat i)"
    using eb_rep_index(1) [OF rep1] by (intro eb_at_Some)
  show ?case
  proof (cases stop)
    case True
    then have "zs = keep @ eb_pairs b ys" "acc' = acc1"
      using Cons.prems(4) g by (auto simp: keep_def)
    then show ?thesis
      using n b1 True rep1 pys pds pk sz by simp
  next
    case False
    obtain r where r: "walk_list g (eb_pairs b1 ys) acc1 = (r, acc')" and zs: "zs = keep @ r"
      using Cons.prems(4) g False by (auto simp: keep_def pys Let_def split: prod.splits)
    show ?thesis
    proof (cases ys)
      case Nil
      then show ?thesis using n b1 False rep1 r zs at nx pds pk sz by simp
    next
      case (Cons y ws)
      have "y < eb_size b1" "y \<noteq> 255"
        using sub sz Cons less_not_NIL by auto
      moreover obtain b2 where "eb_walk chk m body b1 acc1 y = Some (b2, acc')"
        "eb_rep b2 ((ds @ map fst keep) @ map fst r)" "eb_pairs b2 (map fst r) = r"
        "eb_pairs b2 (ds @ map fst keep) = eb_pairs b1 (ds @ map fst keep)"
        "eb_size b2 = eb_size b1" "eb_test b2 = eb_test b1"
        using Cons.IH [of b1 "ds @ map fst keep" m acc1 r] rep1 r n Cons.prems(3) Cons by auto
      moreover from this have "eb_pairs b2 ds = eb_pairs b1 ds"
        "eb_pairs b2 (map fst keep) = eb_pairs b1 (map fst keep)" by auto
      ultimately show ?thesis
        using n b1 False at nx Cons zs pds pk sz by auto
    qed
  qed
qed

lemma walk_nonempty:
  assumes "eb_rep b is" "is \<noteq> []" and "walk_list g (eb_pairs b is) acc = (zs, acc')"
  shows "\<exists>b'. eb_walk chk (unat (eb_size b)) body b acc (eb_start b) = Some (b', acc')
           \<and> eb_rep b' (map fst zs) \<and> eb_pairs b' (map fst zs) = zs
           \<and> eb_size b' = eb_size b \<and> eb_test b' = eb_test b"
proof -
  have "eb_start b = hd is" using assms by (auto simp: eb_rep_def)
  then show ?thesis
    using walk_from [of b "[]" "is" "unat (eb_size b)" acc zs acc' chk] assms eb_rep_length by auto
qed

end

locale eb_body_idle = eb_body +
  assumes body_idle: "eb_rep b [] \<Longrightarrow> body b acc (eb_start b) = Some (b, acc, False)"
begin

lemma walk_all:
  assumes rep: "eb_rep b is" and w: "walk_list g (eb_pairs b is) acc = (zs, acc')"
  shows "\<exists>b'. eb_walk chk (unat (eb_size b)) body b acc (eb_start b) = Some (b', acc')
           \<and> eb_rep b' (map fst zs) \<and> eb_pairs b' (map fst zs) = zs
           \<and> eb_size b' = eb_size b \<and> eb_test b' = eb_test b"
proof (cases "is = []")
  case True
  have st: "eb_start b < eb_size b" and nx: "it_next (eb_items b ! unat (eb_start b)) = 255"
    using rep True by (auto simp: eb_rep_def)
  obtain m where "unat (eb_size b) = Suc m"
    using st by (cases "unat (eb_size b)") (auto simp: word_less_nat_alt)
  moreover have "eb_at b (eb_start b) = Some (eb_items b ! unat (eb_start b))"
    using eb_rep_index(1) [OF rep st] by (rule eb_at_Some)
  ultimately show ?thesis
    using body_idle [of b acc] rep w True nx by auto
next
  case False
  then show ?thesis using walk_nonempty assms by blast
qed

end

end
