(* ===== verification/EventBufBodies.thy ===== *)
theory EventBufBodies
  imports EventBufRep
begin

text \<open>
  The six loop bodies of \<open>app/event_buf.c\<close> as instances of the traversal contract: for
  each, what it makes of one record of the chain, and the interpretation that discharges the
  contract on the body of the code.
\<close>

unbundle bit_operations_syntax

subsection \<open>What each body does to one record\<close>

definition item_ready :: "'rtc eb_item \<Rightarrow> bool" where
  "item_ready c \<longleftrightarrow> item_active c \<and> \<not> in_comm c"

definition empty_spec :: "u8 \<Rightarrow> 'rtc eb_item \<Rightarrow> bool \<Rightarrow> 'rtc eb_item option \<times> bool \<times> bool" where
  "empty_spec i c acc = (if item_ready c then (Some c, False, True) else (Some c, acc, False))"

definition lowest_spec :: "u8 \<Rightarrow> 'rtc eb_item \<Rightarrow> u8 \<times> u8 option \<Rightarrow> 'rtc eb_item option \<times> (u8 \<times> u8 option) \<times> bool" where
  "lowest_spec i c acc = (Some c, (min (it_prio c) (fst acc), snd acc), False)"

definition oldest_spec :: "u8 \<Rightarrow> u8 \<Rightarrow> 'rtc eb_item \<Rightarrow> u8 option \<Rightarrow> 'rtc eb_item option \<times> u8 option \<times> bool" where
  "oldest_spec lowest i c acc = (if it_prio c = lowest then (Some c, Some i, True) else (Some c, acc, False))"

text \<open>What \<open>event_buf_restore_events\<close> makes of a record (\<open>None\<close>: discarded).\<close>

definition restore_item :: "u8 \<Rightarrow> 'rtc eb_item \<Rightarrow> 'rtc eb_item option" where
  "restore_item limit c =
     (if in_comm c then
        let c = c\<lparr>it_flag := bits4 (it_flag c AND NOT (EVENT_BUF_FLAG_PROCESSING OR EVENT_BUF_FLAG_ZOMBIE))\<rparr>
        in if limit = EVENT_BUF_UNLIMITED then Some c
           else if it_cnt c + 1 \<ge> limit then None else Some (c\<lparr>it_cnt := it_cnt c + 1\<rparr>)
      else Some c)"

definition done_item :: "bool \<Rightarrow> 'rtc eb_item \<Rightarrow> 'rtc eb_item option" where
  "done_item delivered c =
     (if it_flag c AND EVENT_BUF_FLAG_PROCESSING \<noteq> 0 then
        if delivered then None
        else Some (c\<lparr>it_flag := bits4 (bits4 (it_flag c AND NOT EVENT_BUF_FLAG_PROCESSING)
                                          OR EVENT_BUF_FLAG_ZOMBIE)\<rparr>)
      else Some c)"

definition restore_spec :: "u8 \<Rightarrow> u8 \<Rightarrow> 'rtc eb_item \<Rightarrow> bool \<Rightarrow> 'rtc eb_item option \<times> bool \<times> bool" where
  "restore_spec limit i c acc =
     (restore_item limit c, if restore_item limit c = None then False else acc, False)"

definition done_spec :: "bool \<Rightarrow> u8 \<Rightarrow> 'rtc eb_item \<Rightarrow> unit \<Rightarrow> 'rtc eb_item option \<times> unit \<times> bool" where
  "done_spec delivered i c acc = (done_item delivered c, (), False)"

definition get_spec :: "u8 \<Rightarrow> 'rtc eb_item \<Rightarrow> 'rtc eb_get \<Rightarrow> 'rtc eb_item option \<times> 'rtc eb_get \<times> bool" where
  "get_spec i c acc =
     (if item_ready c then
        let user = (if gt_user acc = EVENT_USER_NONE then it_user c else gt_user acc);
            acc = acc\<lparr>gt_event := Some (it_event c), gt_prio := Some (it_prio c), gt_user := user\<rparr>
        in if user = it_user c
           then (Some (c\<lparr>it_flag := bits4 (it_flag c OR EVENT_BUF_FLAG_PROCESSING)\<rparr>),
                 acc\<lparr>gt_found := True\<rparr>, True)
           else (Some c, acc, False)
      else (Some c, acc, False))"

definition for_each_spec :: "('rtc event \<Rightarrow> 'acc \<Rightarrow> 'rtc event \<times> 'acc \<times> bool) \<Rightarrow> u8 \<Rightarrow>
    'rtc eb_item \<Rightarrow> 'acc \<Rightarrow> 'rtc eb_item option \<times> 'acc \<times> bool" where
  "for_each_spec pfunc i c acc =
     (let (e, acc, keep) = pfunc (it_event c) acc
      in (if keep then Some (c\<lparr>it_event := e\<rparr>) else None, acc, False))"

subsection \<open>The bodies meet the contract of the traversal\<close>

lemma eb_effect_same:
  assumes "eb_rep b is" "i \<in> set is"
  shows "eb_effect b is i (Some (it_core (eb_items b ! unat i))) b"
  using assms by (auto simp: eb_effect_def)

lemma in_comm_core [simp]: "in_comm (it_core it) = in_comm it"
  by (simp add: in_comm_def)

lemma item_active_flag_update [simp]:
  "item_active (it\<lparr>it_flag := bits4 (it_flag it AND - 13)\<rparr>) = item_active it"
  "item_active (it\<lparr>it_flag := bits4 (it_flag it AND - 5)\<rparr>) = item_active it"
  "item_active (it\<lparr>it_flag := bits4 (it_flag it OR 8)\<rparr>) = item_active it"
  "item_active (it\<lparr>it_flag := bits4 (it_flag it OR 4)\<rparr>) = item_active it"
  by (simp_all add: item_active_iff bits4_def bit_simps)

lemma item_active_other_update [simp]:
  "item_active (it_cnt_update g it) = item_active it"
  "item_active (it_event_update h it) = item_active it"
  by (simp_all add: item_active_def)

lemmas eb_member = eb_rep_memberD(5,6)

lemma item_active_member: "eb_rep b is \<Longrightarrow> i \<in> set is \<Longrightarrow> item_active (eb_items b ! unat i)"
  by (simp add: eb_rep_def)

text \<open>A body that only rewrites its own record by \<open>f\<close>.\<close>

lemma eb_effect_upd':
  assumes "eb_rep b is" "i \<in> set is" "eb_items b ! unat i = it"
    and "\<And>it. it_next (f it) = it_next it" "\<And>it. it_prev (f it) = it_prev it"
    and "item_active (f it)" "it_core (f it) = c"
  shows "\<exists>b'. eb_upd b i f = Some b' \<and> eb_at b' i = Some (f it) \<and> eb_effect b is i (Some c) b'"
  using eb_effect_upd [of b "is" i f] assms eb_rep_memberD [OF assms(1,2)]
  by (simp add: eb_at_Some)

lemma eb_effect_rep: "eb_effect b is i (Some c) b' \<Longrightarrow> eb_rep b' is"
  by (simp add: eb_effect_def)

lemma eb_idle:
  assumes "eb_rep b []"
  shows "\<exists>it. eb_at b (eb_start b) = Some it \<and> it_flag it = 0 \<and> \<not> item_active it \<and> \<not> in_comm it"
proof -
  have "eb_start b < eb_size b" "it_flag (eb_items b ! unat (eb_start b)) = 0"
    using assms by (auto simp: eb_rep_def)
  moreover from this have "eb_at b (eb_start b) = Some (eb_items b ! unat (eb_start b))"
    using eb_rep_index(1) [OF assms] by (intro eb_at_Some)
  ultimately show ?thesis by (auto simp: item_active_def in_comm_def)
qed

interpretation eb_empty: eb_body_idle empty_body empty_spec
proof
  fix b :: "'a event_buf" and "is" i acc co acc' stop
  assume "eb_rep b is" "i \<in> set is" "empty_spec i (it_core (eb_items b ! unat i)) acc = (co, acc', stop)"
  then show "\<exists>b'. empty_body b acc i = Some (b', acc', stop) \<and> eb_effect b is i co b'"
    by (auto simp: empty_body_def empty_spec_def item_ready_def eb_member eb_effect_same split: if_splits)
next
  fix b :: "'a event_buf" and acc
  assume "eb_rep b []"
  from eb_idle [OF this] show "empty_body b acc (eb_start b) = Some (b, acc, False)"
    by (auto simp: empty_body_def)
qed

interpretation eb_lowest: eb_body lowest_body lowest_spec
proof
  fix b :: "'a event_buf" and "is" i and acc :: "u8 \<times> u8 option" and co acc' stop
  assume "eb_rep b is" "i \<in> set is" "lowest_spec i (it_core (eb_items b ! unat i)) acc = (co, acc', stop)"
  then show "\<exists>b'. lowest_body b acc i = Some (b', acc', stop) \<and> eb_effect b is i co b'"
    by (auto simp: lowest_body_def lowest_spec_def eb_member eb_effect_same min_def
        dest: item_active_member item_active_flag split: if_splits)
qed

interpretation eb_oldest: eb_body "oldest_body lowest" "oldest_spec lowest" for lowest
proof
  fix b :: "'a event_buf" and "is" i and acc :: "u8 option" and co acc' stop
  assume "eb_rep b is" "i \<in> set is" "oldest_spec lowest i (it_core (eb_items b ! unat i)) acc = (co, acc', stop)"
  then show "\<exists>b'. oldest_body lowest b acc i = Some (b', acc', stop) \<and> eb_effect b is i co b'"
    by (auto simp: oldest_body_def oldest_spec_def eb_member eb_effect_same split: if_splits)
qed

interpretation eb_get: eb_body_idle get_body get_spec
proof
  fix b :: "'a event_buf" and "is" i and acc :: "'a eb_get" and co acc' stop
  assume rep: "eb_rep b is" "i \<in> set is"
    and g: "get_spec i (it_core (eb_items b ! unat i)) acc = (co, acc', stop)"
  have a: "item_active (eb_items b ! unat i)" using rep by (rule item_active_member)
  show "\<exists>b'. get_body b acc i = Some (b', acc', stop) \<and> eb_effect b is i co b'"
    using g a eb_effect_upd' [OF rep refl, of "\<lambda>it. it\<lparr>it_flag := bits4 (it_flag it OR 4)\<rparr>"] rep
    by (auto simp: get_body_def get_spec_def item_ready_def eb_member eb_effect_same Let_def
        split: if_splits)
next
  fix b :: "'a event_buf" and acc :: "'a eb_get"
  assume "eb_rep b []"
  from eb_idle [OF this] show "get_body b acc (eb_start b) = Some (b, acc, False)"
    by (auto simp: get_body_def)
qed

lemma delete_after:
  assumes "eb_effect b is i (Some c) b1" "i \<in> set is"
  shows "\<exists>b'. delete_item b1 i = Some b' \<and> eb_effect b is i None b'"
  using eb_effect_delete [OF eb_effect_rep [OF assms(1)] assms(2)] eb_effect_trans [OF assms(1)]
  by blast

lemma upd_after:
  assumes ef: "eb_effect b is i (Some c) b1" and i: "i \<in> set is" and at: "eb_at b1 i = Some it"
    and f: "\<And>it. it_next (f it) = it_next it" "\<And>it. it_prev (f it) = it_prev it"
    and act: "item_active (f it)" and c': "it_core (f it) = c'"
  shows "\<exists>b'. eb_upd b1 i f = Some b' \<and> eb_at b' i = Some (f it) \<and> eb_effect b is i (Some c') b'"
proof -
  note rep = eb_effect_rep [OF ef]
  have it: "eb_items b1 ! unat i = it" using at eb_member(1) [OF rep i] by simp
  from eb_effect_upd' [OF rep i this f act c'] eb_effect_trans [OF ef] show ?thesis by blast
qed

interpretation eb_done: eb_body_idle "done_body delivered" "done_spec delivered" for delivered
proof
  fix b :: "'a event_buf" and "is" i and acc :: unit and co acc' stop
  assume rep: "eb_rep b is" "i \<in> set is"
    and g: "done_spec delivered i (it_core (eb_items b ! unat i)) acc = (co, acc', stop)"
  define it where "it = eb_items b ! unat i"
  have a: "item_active it" unfolding it_def using rep by (rule item_active_member)
  define it1 where "it1 = it\<lparr>it_flag := bits4 (it_flag it AND - 5)\<rparr>"
  obtain b1 where b1: "eb_upd b i (\<lambda>it. it\<lparr>it_flag := bits4 (it_flag it AND - 5)\<rparr>) = Some b1"
    "eb_at b1 i = Some it1" "eb_effect b is i (Some (it_core it1)) b1"
    using eb_effect_upd' [OF rep refl, of "\<lambda>it. it\<lparr>it_flag := bits4 (it_flag it AND - 5)\<rparr>"] a
    by (auto simp: it_def it1_def)
  have a1: "item_active it1" using a by (simp add: it1_def)
  obtain b2 where b2: "eb_upd b1 i (\<lambda>it. it\<lparr>it_flag := bits4 (it_flag it OR 8)\<rparr>) = Some b2"
    "eb_effect b is i (Some (it_core (it1\<lparr>it_flag := bits4 (it_flag it1 OR 8)\<rparr>))) b2"
    using upd_after [OF b1(3) rep(2) b1(2), of "\<lambda>it. it\<lparr>it_flag := bits4 (it_flag it OR 8)\<rparr>"] a1 by auto
  show "\<exists>b'. done_body delivered b acc i = Some (b', acc', stop) \<and> eb_effect b is i co b'"
    using g a a1 b1(1,2) b2 delete_after [OF b1(3) rep(2)] eb_effect_same [OF rep]
    by (auto simp: done_body_def done_spec_def done_item_def eb_member(1) [OF rep] it_def [symmetric]
        it1_def Let_def split: if_splits)
next
  fix b :: "'a event_buf" and acc :: unit
  assume "eb_rep b []"
  from eb_idle [OF this] show "done_body delivered b acc (eb_start b) = Some (b, acc, False)"
    by (auto simp: done_body_def)
qed

interpretation eb_restore: eb_body_idle "restore_body limit" "restore_spec limit" for limit
proof
  fix b :: "'a event_buf" and "is" i and acc :: bool and co acc' stop
  assume rep: "eb_rep b is" "i \<in> set is"
    and g: "restore_spec limit i (it_core (eb_items b ! unat i)) acc = (co, acc', stop)"
  define it where "it = eb_items b ! unat i"
  have a: "item_active it" unfolding it_def using rep by (rule item_active_member)
  define it1 where "it1 = it\<lparr>it_flag := bits4 (it_flag it AND - 13)\<rparr>"
  obtain b1 where b1: "eb_upd b i (\<lambda>it. it\<lparr>it_flag := bits4 (it_flag it AND - 13)\<rparr>) = Some b1"
    "eb_at b1 i = Some it1" "eb_effect b is i (Some (it_core it1)) b1"
    using eb_effect_upd' [OF rep refl, of "\<lambda>it. it\<lparr>it_flag := bits4 (it_flag it AND - 13)\<rparr>"] a
    by (auto simp: it_def it1_def)
  have a1: "item_active it1" using a by (simp add: it1_def)
  obtain b2 where b2: "eb_upd b1 i (\<lambda>it. it\<lparr>it_cnt := it_cnt it + 1\<rparr>) = Some b2"
    "eb_at b2 i = Some (it1\<lparr>it_cnt := it_cnt it1 + 1\<rparr>)"
    "eb_effect b is i (Some (it_core (it1\<lparr>it_cnt := it_cnt it1 + 1\<rparr>))) b2"
    using upd_after [OF b1(3) rep(2) b1(2), of "\<lambda>it. it\<lparr>it_cnt := it_cnt it + 1\<rparr>"] a1 by auto
  show "\<exists>b'. restore_body limit b acc i = Some (b', acc', stop) \<and> eb_effect b is i co b'"
    using g a a1 b1 b2 delete_after [OF b2(3) rep(2)] eb_effect_same [OF rep]
    by (auto simp: restore_body_def restore_spec_def restore_item_def eb_member(1) [OF rep] it_def [symmetric]
        it1_def Let_def split: if_splits)
next
  fix b :: "'a event_buf" and acc :: bool
  assume "eb_rep b []"
  from eb_idle [OF this] show "restore_body limit b acc (eb_start b) = Some (b, acc, False)"
    by (auto simp: restore_body_def)
qed

interpretation eb_each: eb_body_idle "for_each_body pfunc" "for_each_spec pfunc" for pfunc
proof
  fix b :: "'a event_buf" and "is" i and acc :: 'b and co acc' stop
  assume rep: "eb_rep b is" "i \<in> set is"
    and g: "for_each_spec pfunc i (it_core (eb_items b ! unat i)) acc = (co, acc', stop)"
  define it where "it = eb_items b ! unat i"
  have a: "item_active it" unfolding it_def using rep by (rule item_active_member)
  then have used: "it_flag it AND 1 \<noteq> 0" by (auto simp: item_active_iff u8_bits bit_simps)
  obtain e acc1 keep where p: "pfunc (it_event it) acc = (e, acc1, keep)" by (metis prod_cases3)
  obtain b1 where b1: "eb_upd b i (\<lambda>p. p\<lparr>it_event := e\<rparr>) = Some b1"
    "eb_effect b is i (Some (it_core (it\<lparr>it_event := e\<rparr>))) b1"
    using eb_effect_upd' [OF rep refl, of "\<lambda>p. p\<lparr>it_event := e\<rparr>"] a by (auto simp: it_def)
  show "\<exists>b'. for_each_body pfunc b acc i = Some (b', acc', stop) \<and> eb_effect b is i co b'"
    using g p used b1 delete_after [OF b1(2) rep(2)]
    by (auto simp: for_each_body_def for_each_spec_def eb_member [OF rep] it_def [symmetric] Let_def
        split: if_splits)
next
  fix b :: "'a event_buf" and acc :: 'b
  assume "eb_rep b []"
  from eb_idle [OF this] show "for_each_body pfunc b acc (eb_start b) = Some (b, acc, False)"
    by (auto simp: for_each_body_def)
qed

end
