(* ===== verification/EventBufSpec.thy ===== *)
theory EventBufSpec
  imports EventBufBodies
begin
unbundle bit_operations_syntax

text \<open>
  The abstract view of the event buffer: the queue of records that a buffer represents
  (\<open>eb_abs\<close>), and the operations of \<open>app/event_buf.c\<close> as folds over that queue.
\<close>

definition eb_list :: "'rtc event_buf \<Rightarrow> u8 list \<Rightarrow> 'rtc eb_item list" where
  "eb_list b is = map snd (eb_pairs b is)"

definition eb_abs :: "'rtc event_buf \<Rightarrow> 'rtc eb_item list \<Rightarrow> bool" where
  "eb_abs b xs \<longleftrightarrow> (\<exists>is. eb_rep b is \<and> eb_list b is = xs)"

lemma eb_absI: "eb_rep b is \<Longrightarrow> eb_list b is = xs \<Longrightarrow> eb_abs b xs"
  by (auto simp: eb_abs_def)

lemma length_eb_list [simp]: "length (eb_list b is) = length is"
  by (simp add: eb_list_def)

lemma eb_abs_length: "eb_abs b xs \<Longrightarrow> length xs \<le> unat (eb_size b)"
  using eb_rep_length by (auto simp: eb_abs_def)

lemma eb_abs_active: "eb_abs b xs \<Longrightarrow> \<forall>c \<in> set xs. item_active c"
  by (auto simp: eb_abs_def eb_list_def eb_pairs_def eb_rep_def)

text \<open>The fold by its two projections.\<close>

lemma walk_list_Cons:
  "fst (walk_list g (p # ps) acc) =
     (case fst (g (fst p) (snd p) acc) of None \<Rightarrow> [] | Some c \<Rightarrow> [(fst p, c)])
     @ (if snd (snd (g (fst p) (snd p) acc)) then ps
        else fst (walk_list g ps (fst (snd (g (fst p) (snd p) acc)))))"
  "snd (walk_list g (p # ps) acc) =
     (if snd (snd (g (fst p) (snd p) acc)) then fst (snd (g (fst p) (snd p) acc))
      else snd (walk_list g ps (fst (snd (g (fst p) (snd p) acc)))))"
proof -
  obtain i c where p: "p = (i, c)" by (cases p)
  obtain co a stop where g: "g i c acc = (co, a, stop)" by (metis prod_cases3)
  obtain r a' where w: "walk_list g ps a = (r, a')" by (metis prod.exhaust)
  show "fst (walk_list g (p # ps) acc) =
     (case fst (g (fst p) (snd p) acc) of None \<Rightarrow> [] | Some c \<Rightarrow> [(fst p, c)])
     @ (if snd (snd (g (fst p) (snd p) acc)) then ps
        else fst (walk_list g ps (fst (snd (g (fst p) (snd p) acc)))))"
    "snd (walk_list g (p # ps) acc) =
     (if snd (snd (g (fst p) (snd p) acc)) then fst (snd (g (fst p) (snd p) acc))
      else snd (walk_list g ps (fst (snd (g (fst p) (snd p) acc)))))"
    by (simp_all add: p g w split: option.split)
qed

declare walk_list.simps(2) [simp del]
declare walk_list_Cons [simp]

text \<open>A traversal that rewrites every record by \<open>h\<close> and drops those it maps to \<open>None\<close>.\<close>

lemma walk_list_filter:
  assumes "\<And>i c acc. fst (g i c acc) = h c" "\<And>i c acc. \<not> snd (snd (g i c acc))"
  shows "map snd (fst (walk_list g ps acc)) = List.map_filter h (map snd ps)"
  using assms(2)
  by (induction ps arbitrary: acc) (auto simp: assms(1) List.map_filter_def split: option.splits)

lemma walk_abs:
  assumes "eb_body_idle body g" and abs: "eb_abs b xs"
  shows "\<exists>b' ps acc'. eb_walk chk (unat (eb_size b)) body b acc (eb_start b) = Some (b', acc')
      \<and> map snd ps = xs \<and> acc' = snd (walk_list g ps acc)
      \<and> eb_abs b' (map snd (fst (walk_list g ps acc)))
      \<and> eb_size b' = eb_size b"
proof -
  obtain "is" where rep: "eb_rep b is" and xs: "eb_list b is = xs"
    using abs by (auto simp: eb_abs_def)
  obtain zs acc' where w: "walk_list g (eb_pairs b is) acc = (zs, acc')" by fastforce
  from eb_body_idle.walk_all [OF assms(1) rep w, of chk]
  obtain b' where "eb_walk chk (unat (eb_size b)) body b acc (eb_start b) = Some (b', acc')"
    "eb_rep b' (map fst zs)" "eb_pairs b' (map fst zs) = zs" "eb_size b' = eb_size b" by blast
  then show ?thesis
    using w xs by (intro exI [of _ b'] exI [of _ "eb_pairs b is"] exI [of _ acc'])
      (auto simp: eb_list_def intro!: eb_absI)
qed

lemma done_abs:
  assumes "eb_abs b xs"
  shows "\<exists>b'. event_buf_done_events b d = Some b' \<and> eb_abs b' (List.map_filter (done_item d) xs)
           \<and> eb_size b' = eb_size b"
proof -
  have "map snd (fst (walk_list (done_spec d) ps ())) = List.map_filter (done_item d) (map snd ps)" for ps :: "(u8 \<times> 'a eb_item) list"
    by (rule walk_list_filter) (simp_all add: done_spec_def)
  moreover obtain b' ps where "eb_walk False (unat (eb_size b)) (done_body d) b () (eb_start b) = Some (b', ())"
    "map snd ps = xs" "eb_abs b' (map snd (fst (walk_list (done_spec d) ps ())))" "eb_size b' = eb_size b"
    using walk_abs [OF eb_done.eb_body_idle_axioms [of d] assms, where chk = False and acc = "()"] by auto
  ultimately show ?thesis by (simp add: event_buf_done_events_def)
qed

lemma restore_acc:
  "snd (walk_list (restore_spec limit) ps acc) \<longleftrightarrow> acc \<and> (\<forall>c \<in> set (map snd ps). restore_item limit c \<noteq> None)"
  by (induction ps arbitrary: acc)
     (simp_all add: restore_spec_def)

lemma restore_abs:
  assumes "eb_abs b xs"
  shows "\<exists>b'. event_buf_restore_events b limit
             = Some (b', \<forall>c \<in> set xs. restore_item limit c \<noteq> None)
           \<and> eb_abs b' (List.map_filter (restore_item limit) xs) \<and> eb_size b' = eb_size b"
proof -
  have "map snd (fst (walk_list (restore_spec limit) ps True)) = List.map_filter (restore_item limit) (map snd ps)"
    for ps :: "(u8 \<times> 'a eb_item) list"
    by (rule walk_list_filter) (simp_all add: restore_spec_def)
  moreover obtain b' ps where "eb_walk False (unat (eb_size b)) (restore_body limit) b True (eb_start b)
        = Some (b', snd (walk_list (restore_spec limit) ps True))"
    "map snd ps = xs" "eb_abs b' (map snd (fst (walk_list (restore_spec limit) ps True)))" "eb_size b' = eb_size b"
    using walk_abs [OF eb_restore.eb_body_idle_axioms [of limit] assms, where chk = False and acc = True] by blast
  ultimately show ?thesis by (simp add: event_buf_restore_events_def restore_acc)
qed

lemma empty_acc:
  "snd (walk_list empty_spec ps acc) \<longleftrightarrow> (acc \<or> (\<exists>c \<in> set (map snd ps). item_ready c)) \<and> \<not> (\<exists>c \<in> set (map snd ps). item_ready c)"
  by (induction ps arbitrary: acc)
     (auto simp add: empty_spec_def)

lemma empty_abs:
  assumes "eb_abs b xs"
  shows "event_buf_empty b = Some (\<forall>c \<in> set xs. \<not> item_ready c)"
  using walk_abs [OF eb_empty.eb_body_idle_axioms assms, where chk = True and acc = True]
  by (auto simp: event_buf_empty_def empty_acc)

subsection \<open>Taking a record\<close>

text \<open>The first ready record of the user (or of anyone) is marked as in communication.\<close>

fun get_list :: "u16 \<Rightarrow> 'rtc eb_item list \<Rightarrow> ('rtc eb_item \<times> 'rtc eb_item list) option" where
  "get_list u [] = None"
| "get_list u (c # cs) =
     (if item_ready c \<and> (u = EVENT_USER_NONE \<or> u = it_user c)
      then Some (c, c\<lparr>it_flag := bits4 (it_flag c OR EVENT_BUF_FLAG_PROCESSING)\<rparr> # cs)
      else map_option (\<lambda>(x, r). (x, c # r)) (get_list u cs))"

lemma get_walk:
  assumes "\<not> gt_found acc"
  shows "case get_list (gt_user acc) (map snd ps) of
      None \<Rightarrow> \<not> gt_found (snd (walk_list get_spec ps acc))
             \<and> map snd (fst (walk_list get_spec ps acc)) = map snd ps
             \<and> gt_user (snd (walk_list get_spec ps acc)) = gt_user acc
    | Some (c, cs) \<Rightarrow>
        snd (walk_list get_spec ps acc) = \<lparr>gt_event = Some (it_event c), gt_user = it_user c,
            gt_prio = Some (it_prio c), gt_found = True\<rparr>
        \<and> map snd (fst (walk_list get_spec ps acc)) = cs"
  using assms
proof (induction ps arbitrary: acc)
  case (Cons p ps)
  define acc1 where "acc1 = acc\<lparr>gt_event := Some (it_event (snd p)), gt_prio := Some (it_prio (snd p))\<rparr>"
  have acc1: "gt_user acc1 = gt_user acc" "\<not> gt_found acc1" using Cons.prems by (auto simp: acc1_def)
  consider "\<not> item_ready (snd p)"
    | "item_ready (snd p)" "gt_user acc = EVENT_USER_NONE \<or> gt_user acc = it_user (snd p)"
    | "item_ready (snd p)" "gt_user acc \<noteq> EVENT_USER_NONE" "gt_user acc \<noteq> it_user (snd p)"
    by blast
  then show ?case
  proof cases
    case 1
    then have "get_spec (fst p) (snd p) acc = (Some (snd p), acc, False)" by (simp add: get_spec_def)
    then show ?thesis using Cons.IH [OF Cons.prems] 1 by (auto split: option.splits)
  next
    case 2
    then show ?thesis by (cases acc) (auto simp: get_spec_def Let_def)
  next
    case 3
    then have "get_spec (fst p) (snd p) acc = (Some (snd p), acc1, False)"
      by (cases acc) (simp add: get_spec_def Let_def acc1_def)
    then show ?thesis using Cons.IH [of acc1] acc1 3 by (auto split: option.splits)
  qed
qed simp

lemma get_abs:
  assumes "eb_abs b xs"
  shows "\<exists>b' r. event_buf_get_event b (Some u) = Some (b', r) \<and> eb_size b' = eb_size b
     \<and> (case get_list u xs of
          None \<Rightarrow> \<not> gt_found r \<and> eb_abs b' xs
        | Some (c, xs') \<Rightarrow> r = \<lparr>gt_event = Some (it_event c), gt_user = it_user c,
              gt_prio = Some (it_prio c), gt_found = True\<rparr> \<and> eb_abs b' xs')"
proof -
  let ?acc = "\<lparr>gt_event = None, gt_user = u, gt_prio = None, gt_found = False\<rparr> :: 'a eb_get"
  from walk_abs [OF eb_get.eb_body_idle_axioms assms, where chk = False and acc = ?acc] obtain b' ps where
    "eb_walk False (unat (eb_size b)) get_body b ?acc (eb_start b) = Some (b', snd (walk_list get_spec ps ?acc))"
    "map snd ps = xs" "eb_abs b' (map snd (fst (walk_list get_spec ps ?acc)))" "eb_size b' = eb_size b"
    by auto
  with get_walk [of ?acc ps] show ?thesis
    by (auto simp: event_buf_get_event_def split: option.splits prod.splits)
qed

end
