(* ===== verification/EventBufAdd.thy ===== *)
theory EventBufAdd
  imports EventBufSpec
begin

text \<open>
  \<open>event_buf_add_event\<close> of \<open>app/event_buf.c\<close> against the queue of records: the search for
  a free item goes round the whole array, a full buffer gives up the record of
  \<open>_buf_replace_prio\<close>, and the new record is linked at the end.
\<close>

unbundle bit_operations_syntax

subsection \<open>Adding a record\<close>

definition eb_succ :: "u8 \<Rightarrow> u8 \<Rightarrow> u8" where
  "eb_succ sz t = (if t + 1 \<ge> sz then 0 else t + 1)"

lemma eb_succ_less: "0 < sz \<Longrightarrow> eb_succ sz t < sz"
  by (auto simp: eb_succ_def not_le)

lemma unat_eb_succ:
  assumes "t < sz"
  shows "unat (eb_succ sz t) = (unat t + 1) mod unat sz"
proof -
  have s: "unat (t + 1) = Suc (unat t)" using assms by (rule unat_Suc_no_wrap)
  have "Suc (unat t) = unat sz \<or> Suc (unat t) < unat sz"
    using assms by (auto simp: word_less_nat_alt)
  then show ?thesis using s by (auto simp: eb_succ_def word_le_nat_alt)
qed

lemma unat_eb_succ_pow:
  assumes "t < sz"
  shows "unat ((eb_succ sz ^^ k) t) = (unat t + k) mod unat sz"
proof (induction k)
  case 0
  then show ?case using assms by (simp add: word_less_nat_alt)
next
  case (Suc k)
  have "(eb_succ sz ^^ k) t < sz"
    using assms gt0_of_less [OF assms] by (cases k) (auto intro: eb_succ_less)
  then have "unat ((eb_succ sz ^^ Suc k) t) = (unat ((eb_succ sz ^^ k) t) + 1) mod unat sz"
    by (simp add: unat_eb_succ)
  then show ?case by (simp add: Suc mod_Suc_eq)
qed

lemma eb_succ_covers:
  assumes "j < sz"
  shows "\<exists>k < unat sz. (eb_succ sz ^^ Suc k) t = j"
proof -
  define u where "u = eb_succ sz t"
  have u: "u < sz" unfolding u_def using gt0_of_less [OF assms] by (rule eb_succ_less)
  define k where "k = (unat j + (unat sz - unat u)) mod unat sz"
  have lt: "unat j < unat sz" "unat u < unat sz" using assms u by (auto simp: word_less_nat_alt)
  have "(unat u + k) mod unat sz = (unat u + (unat j + (unat sz - unat u))) mod unat sz"
    by (simp add: k_def mod_add_right_eq)
  also have "unat u + (unat j + (unat sz - unat u)) = unat j + unat sz" using lt by simp
  finally have "unat ((eb_succ sz ^^ k) u) = unat j"
    using lt by (simp add: unat_eb_succ_pow [OF u])
  moreover have "k < unat sz" using lt by (auto simp: k_def)
  ultimately show ?thesis by (auto simp: u_def funpow_swap1 intro!: exI [of _ k])
qed

lemma find_free_step:
  assumes "0 < eb_size b" "unat (eb_size b) \<le> length (eb_items b)"
  shows "\<exists>t r. buf_find_free n b = Some (b\<lparr>eb_test := t\<rparr>, r)
     \<and> (r \<noteq> EVENT_BUF_INDEX_NIL \<longrightarrow> r < eb_size b \<and> it_flag (eb_items b ! unat r) = 0)
     \<and> (r = EVENT_BUF_INDEX_NIL \<longrightarrow>
          (\<forall>k < n. it_flag (eb_items b ! unat ((eb_succ (eb_size b) ^^ Suc k) (eb_test b))) \<noteq> 0))"
  using assms
proof (induction n arbitrary: b)
  case 0
  have "b = b\<lparr>eb_test := eb_test b\<rparr>" by simp
  then show ?case by (metis buf_find_free.simps(1) not_less_zero)
next
  case (Suc n)
  define t where "t = eb_succ (eb_size b) (eb_test b)"
  have t: "t < eb_size b" using Suc.prems by (simp add: t_def eb_succ_less)
  then have at: "eb_at (b\<lparr>eb_test := t\<rparr>) t = Some (eb_items b ! unat t)"
    using Suc.prems by (intro eb_at_Some [THEN trans]) (auto simp: word_less_nat_alt)
  have step: "buf_find_free (Suc n) b =
      (if it_flag (eb_items b ! unat t) = 0 then Some (b\<lparr>eb_test := t\<rparr>, t)
       else buf_find_free n (b\<lparr>eb_test := t\<rparr>))"
    using at by (simp add: t_def eb_succ_def Let_def)
  show ?case
  proof (cases "it_flag (eb_items b ! unat t) = 0")
    case True
    then show ?thesis using step t less_not_NIL [OF t] by auto
  next
    case False
    obtain t' r where IH: "buf_find_free n (b\<lparr>eb_test := t\<rparr>) = Some (b\<lparr>eb_test := t'\<rparr>, r)"
      "r \<noteq> EVENT_BUF_INDEX_NIL \<longrightarrow> r < eb_size b \<and> it_flag (eb_items b ! unat r) = 0"
      "r = EVENT_BUF_INDEX_NIL \<longrightarrow>
          (\<forall>k < n. it_flag (eb_items b ! unat ((eb_succ (eb_size b) ^^ Suc k) t)) \<noteq> 0)"
      using Suc.IH [of "b\<lparr>eb_test := t\<rparr>"] Suc.prems by auto
    have "it_flag (eb_items b ! unat ((eb_succ (eb_size b) ^^ Suc k) (eb_test b))) \<noteq> 0"
      if "r = EVENT_BUF_INDEX_NIL" "k < Suc n" for k
      using IH(3) that False by (cases k) (auto simp: t_def funpow_swap1)
    then show ?thesis using step False IH by auto
  qed
qed

lemma eb_rep_test [simp]: "eb_rep (b\<lparr>eb_test := t\<rparr>) is = eb_rep b is"
  by (simp add: eb_rep_def)

lemma find_free_rep:
  assumes rep: "eb_rep b is"
  shows "\<exists>t r. buf_find_free (unat (eb_size b)) b = Some (b\<lparr>eb_test := t\<rparr>, r)
     \<and> (if length is < unat (eb_size b) then r < eb_size b \<and> r \<notin> set is
        else r = EVENT_BUF_INDEX_NIL)"
proof -
  have sz: "0 < eb_size b" "unat (eb_size b) \<le> length (eb_items b)"
    using rep gt0_of_less by (auto simp: eb_rep_def)
  obtain t r where ff: "buf_find_free (unat (eb_size b)) b = Some (b\<lparr>eb_test := t\<rparr>, r)"
    "r \<noteq> EVENT_BUF_INDEX_NIL \<longrightarrow> r < eb_size b \<and> it_flag (eb_items b ! unat r) = 0"
    "r = EVENT_BUF_INDEX_NIL \<longrightarrow>
      (\<forall>k < unat (eb_size b). it_flag (eb_items b ! unat ((eb_succ (eb_size b) ^^ Suc k) (eb_test b))) \<noteq> 0)"
    using find_free_step [OF sz] by blast
  have fin: "length is = card (set is)" using rep by (simp add: eb_rep_def distinct_card)
  have card: "card {j. j < eb_size b} = unat (eb_size b)"
    by (rule card_below_u8)
  have sub: "set is \<subseteq> {j. j < eb_size b}" using rep by (auto simp: eb_rep_def)
  show ?thesis
  proof (cases "r = EVENT_BUF_INDEX_NIL")
    case True
    then have "\<forall>j < eb_size b. it_flag (eb_items b ! unat j) \<noteq> 0"
      using ff(3) eb_succ_covers by metis
    then have "set is = {j. j < eb_size b}" using rep sub by (auto simp: eb_rep_def)
    then show ?thesis using ff(1) True fin card by auto
  next
    case False
    then have r: "r < eb_size b" "r \<notin> set is" using ff(2) rep by (auto simp: eb_rep_def)
    then have "set is \<subset> {j. j < eb_size b}" using sub by auto
    then have "length is < unat (eb_size b)"
      using fin card by (metis psubset_card_mono finite)
    then show ?thesis using ff(1) r by auto
  qed
qed


text \<open>The record a full buffer gives up for a new one of priority \<open>prio\<close>, by its place.\<close>

fun lowest_prio :: "u8 \<Rightarrow> 'rtc eb_item list \<Rightarrow> u8" where
  "lowest_prio lo [] = lo"
| "lowest_prio lo (c # cs) = lowest_prio (min (it_prio c) lo) cs"

fun first_with :: "u8 \<Rightarrow> 'rtc eb_item list \<Rightarrow> nat option" where
  "first_with p [] = None"
| "first_with p (c # cs) = (if it_prio c = p then Some 0 else map_option Suc (first_with p cs))"

definition victim :: "u8 \<Rightarrow> 'rtc eb_item list \<Rightarrow> nat option" where
  "victim prio xs =
     (let lo = lowest_prio EVENT_PRIO_HI xs
      in if lo > prio then None else if lo = prio then Some 0 else first_with lo xs)"

lemma first_with_less: "first_with p xs = Some k \<Longrightarrow> k < length xs"
  by (induction xs arbitrary: k) (auto split: if_splits)

lemma victim_less: "victim prio xs = Some k \<Longrightarrow> xs \<noteq> [] \<Longrightarrow> k < length xs"
  by (auto simp: victim_def Let_def first_with_less split: if_splits)

lemma lowest_walk: "walk_list lowest_spec ps (lo, x) = (ps, (lowest_prio lo (map snd ps), x))"
  by (induction ps arbitrary: lo) (auto simp: lowest_spec_def prod_eq_iff)

lemma oldest_walk:
  "snd (walk_list (oldest_spec lo) ps None) = map_option (\<lambda>k. fst (ps ! k)) (first_with lo (map snd ps))"
  by (induction ps) (auto simp: oldest_spec_def option.map_comp comp_def)

lemma nth_fst_pairs: "k < length is \<Longrightarrow> fst (eb_pairs b is ! k) = is ! k"
  by (simp add: eb_pairs_def)

lemma replace_prio_rep:
  assumes rep: "eb_rep b is" and ne: "is \<noteq> []"
  shows "buf_replace_prio b prio =
    Some (case victim prio (eb_list b is) of None \<Rightarrow> EVENT_BUF_INDEX_NIL | Some k \<Rightarrow> is ! k)"
proof -
  let ?lo = "lowest_prio EVENT_PRIO_HI (eb_list b is)"
  obtain b1 where w1: "eb_walk False (unat (eb_size b)) lowest_body b (EVENT_PRIO_HI, None) (eb_start b)
      = Some (b1, (?lo, None))"
    using eb_lowest.walk_nonempty [OF rep ne lowest_walk, of False] by (auto simp: eb_list_def)
  obtain zs f where w: "walk_list (oldest_spec ?lo) (eb_pairs b is) None = (zs, f)" by fastforce
  obtain b2 where w2: "eb_walk False (unat (eb_size b)) (oldest_body ?lo) b None (eb_start b) = Some (b2, f)"
    using eb_oldest.walk_nonempty [OF rep ne w, of False] by auto
  have f: "f = map_option ((!) is) (first_with ?lo (eb_list b is))"
    using oldest_walk [of ?lo "eb_pairs b is"] w first_with_less [of ?lo "eb_list b is"]
    by (auto simp: eb_list_def nth_fst_pairs split: option.splits intro!: option.map_cong)
  have "eb_start b = is ! 0" using rep ne by (simp add: eb_rep_def hd_conv_nth)
  then show ?thesis
    using w1 w2 f by (auto simp: buf_replace_prio_def victim_def Let_def split: option.splits)
qed

definition eb_room :: "u8 \<Rightarrow> u8 \<Rightarrow> 'rtc eb_item list \<Rightarrow> 'rtc eb_item list option" where
  "eb_room sz prio xs =
     (if length xs < unat sz then Some xs
      else map_option (\<lambda>k. take k xs @ drop (Suc k) xs) (victim prio xs))"

lemma remove1_nth: "distinct is \<Longrightarrow> k < length is \<Longrightarrow> remove1 (is ! k) is = take k is @ drop (Suc k) is"
  by (subst id_take_nth_drop [of k "is"]) (auto simp: remove1_append in_set_conv_nth nth_eq_iff_index_eq)

lemma add_slot_rep:
  assumes rep: "eb_rep b is"
  shows "\<exists>b1 wr is1. add_slot b prio = Some (b1, wr) \<and> eb_size b1 = eb_size b \<and> eb_rep b1 is1
     \<and> (case eb_room (eb_size b) prio (eb_list b is) of
          None \<Rightarrow> wr = EVENT_BUF_INDEX_NIL \<and> eb_list b1 is1 = eb_list b is
        | Some xs \<Rightarrow> wr < eb_size b \<and> wr \<notin> set is1 \<and> eb_list b1 is1 = xs
                     \<and> (is1 = [] \<longrightarrow> wr = eb_start b1))"
proof (cases "is = []")
  case True
  then have b: "eb_last b = EVENT_BUF_INDEX_NIL" "eb_start b < eb_size b"
    using rep by (auto simp: eb_rep_def)
  then have "0 < unat (eb_size b)" by (auto simp: word_less_nat_alt)
  then show ?thesis
    using True rep b less_not_NIL [OF b(2)]
    by (auto simp: add_slot_def eb_room_def eb_list_def intro!: exI [of _ b] exI [of _ "eb_start b"])
next
  case False
  have "last is < eb_size b" using rep False by (auto simp: eb_rep_def)
  from less_not_NIL [OF this] have last: "eb_last b \<noteq> EVENT_BUF_INDEX_NIL"
    using rep False by (auto simp: eb_rep_def)
  obtain t r where ff: "buf_find_free (unat (eb_size b)) b = Some (b\<lparr>eb_test := t\<rparr>, r)"
    and r: "if length is < unat (eb_size b) then r < eb_size b \<and> r \<notin> set is else r = EVENT_BUF_INDEX_NIL"
    using find_free_rep [OF rep] by blast
  let ?b = "b\<lparr>eb_test := t\<rparr>"
  have rep': "eb_rep ?b is" and lst: "eb_list ?b is = eb_list b is"
    using rep by (simp_all add: eb_list_def eb_pairs_def)
  show ?thesis
  proof (cases "length is < unat (eb_size b)")
    case True
    then show ?thesis using last ff r rep' lst less_not_NIL False
      by (auto simp: add_slot_def eb_room_def intro!: exI [of _ ?b] exI [of _ r] exI [of _ "is"])
  next
    case full: False
    note rp = replace_prio_rep [OF rep' False, of prio, unfolded lst]
    show ?thesis
    proof (cases "victim prio (eb_list b is)")
      case None
      then show ?thesis using last ff r rep' lst full rp
        by (auto simp: add_slot_def eb_room_def intro!: exI [of _ ?b] exI [of _ "is"])
    next
      case (Some k)
      have "eb_list b is \<noteq> []" using False by (simp add: eb_list_def eb_pairs_def)
      then have k: "k < length is" using victim_less [OF Some] by simp
      obtain b1 where d: "delete_item ?b (is ! k) = Some b1" "eb_effect ?b is (is ! k) None b1"
        using eb_effect_delete [OF rep', of "is ! k"] k by auto
      have dist: "distinct is" and wr: "is ! k < eb_size b" using rep k by (auto simp: eb_rep_def)
      have rm: "remove1 (is ! k) is = take k is @ drop (Suc k) is"
        using remove1_nth [OF dist k] .
      have rep1: "eb_rep b1 (take k is @ drop (Suc k) is)" using d(2) rm by (simp add: eb_effect_def)
      have notin: "is ! k \<notin> set (take k is @ drop (Suc k) is)"
        using dist rm by (metis set_remove1_eq DiffD2 insertI1)
      have "eb_pairs b1 (take k is @ drop (Suc k) is) = eb_pairs b (take k is @ drop (Suc k) is)"
      proof (rule eb_pairs_cong)
        fix i assume i: "i \<in> set (take k is @ drop (Suc k) is)"
        then have "i \<in> set is" by (auto dest: in_set_takeD in_set_dropD)
        then have "i < eb_size b" using rep by (auto simp: eb_rep_def)
        then show "it_core (eb_items b1 ! unat i) = it_core (eb_items b ! unat i)"
          using d(2) i notin by (auto simp: eb_effect_def)
      qed
      then have l1: "eb_list b1 (take k is @ drop (Suc k) is)
          = take k (eb_list b is) @ drop (Suc k) (eb_list b is)"
        by (simp add: eb_list_def eb_pairs_def take_map drop_map)
      have "is ! k = eb_start b1" if "take k is @ drop (Suc k) is = []"
      proof -
        have "length is = 1" using that k by (cases "is") auto
        then have "unat (eb_size b) = 1" using full wr by (auto simp: word_less_nat_alt)
        moreover have "eb_start b1 < eb_size b"
          using rep1 d(2) by (auto simp: eb_rep_def eb_effect_def)
        ultimately show ?thesis using wr by (simp add: word_less_nat_alt) (metis inj_unat_word)
      qed
      then show ?thesis using last ff r rp full Some d rep1 notin l1 wr less_not_NIL [OF wr]
        by (auto simp: add_slot_def eb_room_def eb_effect_def
            intro!: exI [of _ b1] exI [of _ "take k is @ drop (Suc k) is"])
    qed
  qed
qed

lemma add_link_rep:
  assumes rep: "eb_rep b is" and wr: "wr < eb_size b" "wr \<notin> set is" "is = [] \<longrightarrow> wr = eb_start b"
  shows "\<exists>b'. add_link b wr e prio user = Some b' \<and> eb_rep b' (is @ [wr]) \<and> eb_size b' = eb_size b
     \<and> eb_list b' (is @ [wr]) = eb_list b is @ [it_core (new_item e prio user 0)]"
proof -
  have len: "\<And>j. j < eb_size b \<Longrightarrow> unat j < length (eb_items b)"
    using eb_rep_index [OF rep] by simp
  have lw: "unat wr < length (eb_items b)" and wN: "wr \<noteq> 255" using len wr less_not_NIL by auto
  have act: "item_active (new_item e prio user p)" for p by (simp add: item_active_def new_item_def)
  then have fl: "it_flag (new_item e prio user p) \<noteq> 0" for p using item_active_flag by blast
  note S = add_link_def eb_upd_Some eb_at_Some lw
  show ?thesis
  proof (cases "is = []")
    case True
    then show ?thesis
      using rep wr len lw wN act fl
      by (auto simp: S eb_rep_def eb_list_def new_item_def it_core_def)
  next
    case False
    define z where "z = last is"
    have z: "z \<in> set is" "z < eb_size b" "z \<noteq> 255" "z \<noteq> wr" "unat z < length (eb_items b)" "eb_last b = z"
      using rep False wr len less_not_NIL unfolding z_def eb_rep_def by auto (metis last_in_set)
    let ?its = "(eb_items b)[unat wr := new_item e prio user 0,
       unat z := (eb_items b ! unat z)\<lparr>it_next := wr\<rparr>,
       unat wr := (new_item e prio user 0)\<lparr>it_prev := z\<rparr>]"
    obtain ds where ds: "is = ds @ [z]" using False by (metis append_butlast_last_id z_def)
    have mem: "unat j < length (eb_items b)" "j \<noteq> wr" if "j \<in> set is" for j
      using that rep wr len by (auto simp: eb_rep_def)
    have dd: "z \<notin> set ds" "dseg (eb_items b) 255 ds z" "it_prev (eb_items b ! unat z) = last (255 # ds)"
      using rep ds by (auto simp: eb_rep_def dseg_append)
    have "dseg ?its 255 ds z \<longleftrightarrow> dseg (eb_items b) 255 ds z"
      using mem ds dd by (intro dseg_cong) auto
    then have seg: "dseg ?its 255 (is @ [wr]) 255"
      using dd z lw by (simp add: ds dseg_append new_item_def)
    have "eb_pairs (b\<lparr>eb_items := ?its, eb_last := wr\<rparr>) is = eb_pairs b is"
      using mem z by (intro eb_pairs_cong) auto
    moreover have "eb_rep (b\<lparr>eb_items := ?its, eb_last := wr\<rparr>) (is @ [wr])"
      using rep wr False len lw act fl seg z mem
      by (auto simp: eb_rep_def new_item_def)
    ultimately show ?thesis
      using z lw wN by (auto simp: S eb_list_def new_item_def it_core_def)
  qed
qed

lemma add_abs:
  assumes "eb_abs b xs" "user \<noteq> EVENT_USER_NONE"
  shows "\<exists>b' r. event_buf_add_event b (Some e) prio user = Some (b', r) \<and> eb_size b' = eb_size b
     \<and> (case eb_room (eb_size b) prio xs of
          None \<Rightarrow> \<not> r \<and> eb_abs b' xs
        | Some ys \<Rightarrow> r \<and> eb_abs b' (ys @ [it_core (new_item e prio user 0)]))"
proof -
  obtain "is" where rep: "eb_rep b is" and xs: "eb_list b is = xs"
    using assms by (auto simp: eb_abs_def)
  from add_slot_rep [OF rep, of prio] obtain b1 wr is1 where s: "add_slot b prio = Some (b1, wr)"
    "eb_size b1 = eb_size b" "eb_rep b1 is1"
    "case eb_room (eb_size b) prio xs of
       None \<Rightarrow> wr = EVENT_BUF_INDEX_NIL \<and> eb_list b1 is1 = xs
     | Some ys \<Rightarrow> wr < eb_size b \<and> wr \<notin> set is1 \<and> eb_list b1 is1 = ys \<and> (is1 = [] \<longrightarrow> wr = eb_start b1)"
    unfolding xs by blast
  show ?thesis
  proof (cases "eb_room (eb_size b) prio xs")
    case None
    then show ?thesis using s assms(2) by (auto simp: event_buf_add_event_def intro: eb_absI)
  next
    case (Some ys)
    then have "wr < eb_size b1" "wr \<notin> set is1" "is1 = [] \<longrightarrow> wr = eb_start b1" "eb_list b1 is1 = ys"
      "wr \<noteq> EVENT_BUF_INDEX_NIL"
      using s less_not_NIL by auto
    with add_link_rep [OF s(3), of wr e prio user] s Some assms(2) show ?thesis
      by (auto simp: event_buf_add_event_def intro: eb_absI)
  qed
qed

end
