(* ===== verification/EventBufQueue.thy ===== *)
theory EventBufQueue
  imports EventBufAdd
begin

text \<open>
  The buffer of \<open>app/event_buf.c\<close> as a queue: initialisation, the callback traversal, runs
  of arbitrary operations, the life cycle of a record that waits, is taken and is delivered or
  restored, and the choice of the record a full buffer gives up.
\<close>

unbundle bit_operations_syntax

subsection \<open>Initialisation and the callback traversal\<close>

lemma init_rep:
  assumes "0 < sz" "unat sz \<le> length items"
  shows "\<exists>b. event_buf_init items sz = Some b \<and> eb_rep b [] \<and> eb_size b = sz"
proof -
  have "(map eb_reset_item (take (unat sz) items) @ drop (unat sz) items) ! unat j = eb_reset_item (items ! unat j)"
    if "j < sz" for j
    using that assms by (auto simp: nth_append word_less_nat_alt)
  note at = this
  show ?thesis using assms at at [of 0]
    by (auto simp: event_buf_init_def eb_rep_def eb_reset_item_def)
qed

lemma init_abs:
  assumes "0 < sz" "unat sz \<le> length items"
  shows "\<exists>b. event_buf_init items sz = Some b \<and> eb_abs b [] \<and> eb_size b = sz"
  using init_rep [OF assms] by (auto simp: eb_abs_def eb_list_def eb_pairs_def)

text \<open>The callback of \<open>event_buf_for_each\<close> over the queue.\<close>

fun each_list :: "('rtc event \<Rightarrow> 'acc \<Rightarrow> 'rtc event \<times> 'acc \<times> bool) \<Rightarrow> 'rtc eb_item list \<Rightarrow> 'acc
    \<Rightarrow> 'rtc eb_item list \<times> 'acc" where
  "each_list f [] acc = ([], acc)"
| "each_list f (c # cs) acc =
     (let (e, acc, keep) = f (it_event c) acc; (r, acc) = each_list f cs acc
      in (if keep then c\<lparr>it_event := e\<rparr> # r else r, acc))"

lemma each_walk:
  "each_list f (map snd ps) acc =
     (map snd (fst (walk_list (for_each_spec f) ps acc)), snd (walk_list (for_each_spec f) ps acc))"
  by (induction ps arbitrary: acc) (auto simp: for_each_spec_def split: prod.split)

lemma for_each_abs:
  assumes "eb_abs b xs"
  shows "\<exists>b'. event_buf_for_each b f acc = Some (b', snd (each_list f xs acc))
     \<and> eb_abs b' (fst (each_list f xs acc)) \<and> eb_size b' = eb_size b"
  using walk_abs [OF eb_each.eb_body_idle_axioms assms, where chk = True and acc = acc and pfunc1 = f]
  by (auto simp: event_buf_for_each_def each_walk)

subsection \<open>Sequences of operations\<close>

datatype 'rtc eb_op =
    Op_add "'rtc event option" u8 u16
  | Op_get "u16 option"
  | Op_done bool
  | Op_restore u8
  | Op_empty
  | Op_each "'rtc event \<Rightarrow> 'rtc event \<times> bool"

fun eb_step :: "'rtc eb_op \<Rightarrow> 'rtc event_buf \<Rightarrow> 'rtc event_buf option" where
  "eb_step (Op_add e prio user) b = map_option fst (event_buf_add_event b e prio user)"
| "eb_step (Op_get u) b = map_option fst (event_buf_get_event b u)"
| "eb_step (Op_done d) b = event_buf_done_events b d"
| "eb_step (Op_restore limit) b = map_option fst (event_buf_restore_events b limit)"
| "eb_step Op_empty b = map_option (\<lambda>_. b) (event_buf_empty b)"
| "eb_step (Op_each f) b =
     map_option fst (event_buf_for_each b (\<lambda>e acc. let (e, keep) = f e in (e, acc, keep)) ())"

fun eb_run :: "'rtc eb_op list \<Rightarrow> 'rtc event_buf \<Rightarrow> 'rtc event_buf option" where
  "eb_run [] b = Some b"
| "eb_run (op # ops) b = do { b \<leftarrow> eb_step op b; eb_run ops b }"

lemma eb_step_abs:
  assumes "eb_abs b xs"
  shows "\<exists>b' ys. eb_step op b = Some b' \<and> eb_abs b' ys \<and> eb_size b' = eb_size b"
proof (cases op)
  case (Op_add e prio user)
  show ?thesis
  proof (cases "e = None \<or> user = EVENT_USER_NONE")
    case True
    then show ?thesis using Op_add assms
      by (cases e) (auto simp: event_buf_add_event_def)
  next
    case False
    then obtain e' where "e = Some e'" "user \<noteq> EVENT_USER_NONE" by auto
    with add_abs [OF assms, of user e' prio] show ?thesis
      using Op_add by (auto split: option.splits)
  qed
next
  case (Op_get u)
  then show ?thesis using assms get_abs [OF assms]
    by (cases u) (fastforce simp: event_buf_get_event_def split: option.splits)+
next
  case (Op_done d)
  then show ?thesis using done_abs [OF assms, of d] by auto
next
  case (Op_restore limit)
  then show ?thesis using restore_abs [OF assms, of limit] by auto
next
  case Op_empty
  then show ?thesis using assms empty_abs [OF assms] by auto
next
  case (Op_each f)
  then show ?thesis
    using for_each_abs [OF assms, of "\<lambda>e acc. let (e, keep) = f e in (e, acc, keep)" "()"] by auto
qed

lemma eb_run_abs:
  assumes "eb_abs b xs"
  shows "\<exists>b' ys. eb_run ops b = Some b' \<and> eb_abs b' ys \<and> eb_size b' = eb_size b"
  using assms
proof (induction ops arbitrary: b xs)
  case (Cons op ops)
  from eb_step_abs [OF Cons.prems, of op] obtain b1 ys where
    "eb_step op b = Some b1" "eb_abs b1 ys" "eb_size b1 = eb_size b" by blast
  with Cons.IH [of b1 ys] show ?case by auto
qed auto


subsection \<open>The life cycle of a record\<close>

text \<open>A record that waits: used, active, not handed out.\<close>

definition waiting :: "'rtc eb_item \<Rightarrow> bool" where
  "waiting c \<longleftrightarrow> it_flag c = EVENT_BUF_FLAG_USED OR EVENT_BUF_FLAG_ACTIVE"

lemma waiting_ready: "waiting c \<Longrightarrow> item_ready c"
  by (simp add: waiting_def item_ready_def item_active_def in_comm_def)

lemma waiting_core_new [simp]: "waiting (it_core (new_item e prio user p))"
  by (simp add: waiting_def new_item_def)

lemma done_waiting: "waiting c \<Longrightarrow> done_item d c = Some c"
  by (simp add: waiting_def done_item_def)

lemma restore_waiting: "waiting c \<Longrightarrow> restore_item l c = Some c"
  by (simp add: waiting_def restore_item_def in_comm_def)

definition taken :: "'rtc eb_item \<Rightarrow> 'rtc eb_item" where
  "taken c = c\<lparr>it_flag := bits4 (it_flag c OR EVENT_BUF_FLAG_PROCESSING)\<rparr>"

lemma done_taken: "waiting c \<Longrightarrow> done_item True (taken c) = None"
  by (simp add: waiting_def done_item_def taken_def bits4_def)

text \<open>A record handed out by an earlier call and not taken back.\<close>

definition handed :: "'rtc eb_item \<Rightarrow> bool" where
  "handed c \<longleftrightarrow> it_flag c = EVENT_BUF_FLAG_USED OR EVENT_BUF_FLAG_ACTIVE OR EVENT_BUF_FLAG_PROCESSING"

lemma handed_taken: "waiting c \<Longrightarrow> handed (taken c)"
  by (simp add: waiting_def handed_def taken_def bits4_def)

lemma handed_not_ready: "handed c \<Longrightarrow> \<not> item_ready c" "handed c \<Longrightarrow> \<not> waiting c"
  by (simp_all add: handed_def waiting_def item_ready_def in_comm_def)

lemma done_handed: "handed c \<Longrightarrow> done_item True c = None"
  by (simp add: handed_def done_item_def)

lemma get_list_first:
  assumes "\<forall>c \<in> set xs. waiting c \<or> handed c"
  shows "get_list EVENT_USER_NONE xs = (case dropWhile handed xs of [] \<Rightarrow> None
     | c # zs \<Rightarrow> Some (c, takeWhile handed xs @ taken c # zs))"
  using assms by (induction xs) (auto simp: waiting_ready handed_not_ready taken_def simp del: dropWhile_eq_Nil_conv split: list.splits)

lemma restore_taken: "waiting c \<Longrightarrow> restore_item EVENT_BUF_UNLIMITED (taken c) = Some c"
  by (cases c) (simp add: waiting_def restore_item_def taken_def bits4_def in_comm_def)

lemma map_filter_all: "(\<And>c. c \<in> set xs \<Longrightarrow> h c = Some c) \<Longrightarrow> List.map_filter h xs = xs"
  by (induction xs) (auto simp: List.map_filter_def)

lemma map_filter_append: "List.map_filter h (xs @ ys) = List.map_filter h xs @ List.map_filter h ys"
  by (simp add: List.map_filter_def)

lemma get_list_waiting:
  assumes "\<forall>c \<in> set xs. waiting c" "get_list u xs = Some (c, xs')"
  shows "\<exists>ys zs. xs = ys @ c # zs \<and> xs' = ys @ taken c # zs
           \<and> (u = EVENT_USER_NONE \<or> it_user c = u)
           \<and> (\<forall>y \<in> set ys. u \<noteq> EVENT_USER_NONE \<and> it_user y \<noteq> u)"
  using assms
proof (induction xs arbitrary: xs')
  case (Cons x xs)
  show ?case
  proof (cases "u = EVENT_USER_NONE \<or> u = it_user x")
    case True
    then show ?thesis using Cons.prems waiting_ready [of x]
      by (intro exI [of _ "[]"] exI [of _ xs]) (auto simp: taken_def)
  next
    case False
    then obtain r where r: "get_list u xs = Some (c, r)" "xs' = x # r"
      using Cons.prems by (auto simp: waiting_ready split: if_splits)
    with Cons obtain ys zs where "xs = ys @ c # zs" "r = ys @ taken c # zs"
      "u = EVENT_USER_NONE \<or> it_user c = u" "\<forall>y \<in> set ys. u \<noteq> EVENT_USER_NONE \<and> it_user y \<noteq> u"
      by auto
    with r False show ?thesis by (intro exI [of _ "x # ys"] exI [of _ zs]) auto
  qed
qed simp

lemma get_list_None: "\<forall>c \<in> set xs. waiting c \<Longrightarrow>
   get_list u xs = None \<longleftrightarrow> (\<forall>c \<in> set xs. u \<noteq> EVENT_USER_NONE \<and> it_user c \<noteq> u)"
  by (induction xs) (auto simp: waiting_ready)

text \<open>What a full buffer gives up.\<close>

lemma lowest_prio_iff: "p < lowest_prio lo xs \<longleftrightarrow> p < lo \<and> (\<forall>c \<in> set xs. p < it_prio c)"
  by (induction xs arbitrary: lo) auto

lemma lowest_prio_le: "lowest_prio lo xs \<le> lo"
  using lowest_prio_iff [of lo lo xs] by auto

lemma lowest_prio_in: "lowest_prio lo xs = lo \<or> (\<exists>c \<in> set xs. it_prio c = lowest_prio lo xs)"
proof (induction xs arbitrary: lo)
  case (Cons a xs)
  show ?case using Cons.IH [of "min (it_prio a) lo"] by (cases "it_prio a \<le> lo") (auto simp: min_def)
qed simp

lemma first_with_Some: "c \<in> set xs \<Longrightarrow> it_prio c = p \<Longrightarrow> \<exists>k. first_with p xs = Some k"
  by (induction xs) auto

lemma victim_None:
  assumes "\<exists>c \<in> set xs. it_prio c \<le> EVENT_PRIO_HI"
  shows "victim prio xs = None \<longleftrightarrow> prio < EVENT_PRIO_HI \<and> (\<forall>c \<in> set xs. prio < it_prio c)"
proof (cases "prio < lowest_prio EVENT_PRIO_HI xs")
  case True
  then show ?thesis by (auto simp: victim_def Let_def lowest_prio_iff)
next
  case False
  have "\<exists>c \<in> set xs. it_prio c = lowest_prio EVENT_PRIO_HI xs"
    using assms lowest_prio_in [of EVENT_PRIO_HI xs] lowest_prio_iff
    by (metis leD order_le_imp_less_or_eq lowest_prio_le)
  then have "first_with (lowest_prio EVENT_PRIO_HI xs) xs \<noteq> None" using first_with_Some by blast
  then show ?thesis using False by (auto simp: victim_def Let_def lowest_prio_iff)
qed


end
