(* ===== verification/EventBufProps.thy ===== *)
theory EventBufProps
  imports EventBufQueue
begin

text \<open>The properties of the event buffer (\<open>app/event_buf.c\<close>) and their instances.\<close>

unbundle bit_operations_syntax

definition ex_event :: "nat \<Rightarrow> nat event" where
  "ex_event k = \<lparr>ev_cnt = of_nat k, ev_time = 0, ev_id = EVENT_ID_ALARM, ev_source = EVENT_SOURCE_DOOR\<rparr>"

definition ex_item :: "nat \<Rightarrow> u8 \<Rightarrow> nat eb_item" where
  "ex_item k prio = it_core (new_item (ex_event k) prio 0 0)"

lemma ex_item_simps [simp]:
  "waiting (ex_item k prio)" "it_user (ex_item k prio) = 0" "it_event (ex_item k prio) = ex_event k"
  "it_prio (ex_item k prio) = bits4 prio"
  by (simp_all add: ex_item_def new_item_def waiting_def)

definition ex_items :: "nat eb_item list" where
  "ex_items = replicate 2 (new_item (ex_event 0) 0 0 0)"

definition ex_buf :: "nat event_buf" where
  "ex_buf = \<lparr>eb_size = 2, eb_start = 0, eb_last = EVENT_BUF_INDEX_NIL, eb_test = 0xFF,
             eb_items = map eb_reset_item ex_items\<rparr>"

lemma length_ex_items [simp]: "length ex_items = 2"
  by (simp add: ex_items_def)

lemma ex_buf_init: "event_buf_init ex_items 2 = Some ex_buf"
  by (simp add: event_buf_init_def ex_items_def ex_buf_def)

lemma ex_buf_abs: "eb_abs ex_buf []"
  using init_abs [of 2 ex_items] by (simp add: ex_buf_init length_ex_items)

lemma ex_buf_one: "\<exists>b. eb_abs b [ex_item 1 EVENT_PRIO_STD] \<and> eb_size b = 2"
proof -
  have "eb_size ex_buf = 2" by (simp add: ex_buf_def)
  with add_abs [OF ex_buf_abs, of 0 "ex_event 1" EVENT_PRIO_STD] show ?thesis
    by (auto simp: eb_room_def ex_item_def)
qed

lemma eb_abs_pos: "eb_abs b xs \<Longrightarrow> 0 < unat (eb_size b)"
  by (auto simp: eb_abs_def eb_rep_def word_less_nat_alt)

lemma first_with_spec:
  "first_with p xs = Some k \<Longrightarrow> k < length xs \<and> it_prio (xs ! k) = p \<and> (\<forall>j < k. it_prio (xs ! j) \<noteq> p)"
proof (induction xs arbitrary: k)
  case (Cons c cs)
  show ?case
  proof (cases k)
    case (Suc m)
    with Cons show ?thesis by (auto simp: less_Suc_eq_0_disj split: if_splits)
  qed (use Cons.prems in \<open>auto split: if_splits\<close>)
qed simp

lemma victim_Some:
  assumes "victim prio xs = Some k" "c \<in> set xs" "it_prio c < prio" "prio \<le> EVENT_PRIO_HI"
  shows "k < length xs \<and> (\<forall>c \<in> set xs. it_prio (xs ! k) \<le> it_prio c)
     \<and> (\<forall>j < k. it_prio (xs ! j) \<noteq> it_prio (xs ! k))"
proof -
  let ?lo = "lowest_prio EVENT_PRIO_HI xs"
  have le: "?lo \<le> it_prio c" if "c \<in> set xs" for c
    using lowest_prio_iff [of "it_prio c" EVENT_PRIO_HI xs] that by (meson not_le order_less_irrefl)
  then have "?lo < prio" using assms by (meson order_le_less_trans)
  then have "first_with ?lo xs = Some k"
    using assms(1) by (auto simp: victim_def Let_def split: if_splits)
  from first_with_spec [OF this] le show ?thesis by auto
qed

text \<open>C1: after \<open>event_buf_init\<close> on a large enough item array, every sequence of the
operations of \<open>event_buf.c\<close> runs without a failed \<open>OS_ASSERT\<close> and
without an access outside the item array, and the buffer always represents a queue of at most
size records (so no record is lost from the chain or shared).\<close>

theorem event_buf_run_safe:
  assumes "0 < sz" "unat sz \<le> length items" "event_buf_init items sz = Some b"
  shows "\<exists>b' xs. eb_run ops b = Some b' \<and> eb_abs b' xs \<and> length xs \<le> unat sz"
proof -
  have "eb_abs b []" "eb_size b = sz" using init_abs [OF assms(1,2)] assms(3) by auto
  with eb_run_abs [of b "[]" ops] show ?thesis using eb_abs_length by metis
qed

theorem event_buf_run_safe_witness:
  "\<exists>b' xs. eb_run [Op_add (Some (ex_event 1)) EVENT_PRIO_STD 0, Op_get (Some 0), Op_done True] ex_buf = Some b'
     \<and> eb_abs b' xs \<and> length xs \<le> unat (2 :: u8)"
  by (rule event_buf_run_safe [OF _ _ ex_buf_init]) (simp_all add: ex_items_def)

text \<open>C11: \<open>event_buf_add_event\<close> refines appending to the queue: a null event or
\<open>EVENT_USER_NONE\<close> is refused, a buffer with room appends the record at the end with
fresh flags, a full one first gives up the record of \<open>_buf_replace_prio\<close>, and a
refusal leaves the queue unchanged.\<close>

theorem event_buf_add_refines:
  assumes "eb_abs b xs"
  shows "\<exists>b' r. event_buf_add_event b e prio user = Some (b', r)
     \<and> (case (if e = None \<or> user = EVENT_USER_NONE then None else eb_room (eb_size b) prio xs) of
          None \<Rightarrow> \<not> r \<and> eb_abs b' xs
        | Some ys \<Rightarrow> r \<and> eb_abs b' (ys @ [it_core (new_item (the e) prio user 0)]))"
proof (cases "e = None \<or> user = EVENT_USER_NONE")
  case True
  then show ?thesis using assms by (cases e) (auto simp: event_buf_add_event_def)
next
  case False
  then obtain e' where "e = Some e'" "user \<noteq> EVENT_USER_NONE" by auto
  with add_abs [OF assms, of user e' prio] show ?thesis by (auto split: option.splits)
qed

theorem event_buf_add_refines_witness:
  "\<exists>b' r. event_buf_add_event ex_buf (Some (ex_event 1)) EVENT_PRIO_STD 0 = Some (b', r)
     \<and> r \<and> eb_abs b' [ex_item 1 EVENT_PRIO_STD]"
  using event_buf_add_refines [OF ex_buf_abs, of "Some (ex_event 1)" EVENT_PRIO_STD 0]
  by (auto simp: eb_room_def ex_buf_def ex_item_def)

text \<open>A full buffer refuses a new record exactly when all its records have a higher priority;
otherwise it gives up exactly one, and when some record is below the new priority it is the
oldest of those of the lowest priority.\<close>

theorem event_buf_full_replaces:
  assumes "eb_abs b xs" "length xs = unat (eb_size b)" "\<forall>c \<in> set xs. it_prio c \<le> EVENT_PRIO_HI"
    and "user \<noteq> EVENT_USER_NONE" "prio \<le> EVENT_PRIO_HI"
  shows "\<exists>b' r. event_buf_add_event b (Some e) prio user = Some (b', r)
     \<and> (if \<forall>c \<in> set xs. prio < it_prio c then \<not> r \<and> eb_abs b' xs
        else r \<and> (\<exists>k < length xs. eb_abs b' (take k xs @ drop (Suc k) xs @ [it_core (new_item e prio user 0)])
                   \<and> ((\<exists>c \<in> set xs. it_prio c < prio) \<longrightarrow>
                        (\<forall>c \<in> set xs. it_prio (xs ! k) \<le> it_prio c)
                        \<and> (\<forall>j < k. it_prio (xs ! j) \<noteq> it_prio (xs ! k)))))"
proof (cases "victim prio xs")
  case None
  have "0 < length xs" using assms(2) eb_abs_pos [OF assms(1)] by simp
  then have ne: "xs \<noteq> []" by auto
  have ex: "\<exists>c \<in> set xs. it_prio c \<le> EVENT_PRIO_HI" using assms(3) ne by (cases xs) auto
  with None have "\<forall>c \<in> set xs. prio < it_prio c" using victim_None by blast
  then show ?thesis using add_abs [OF assms(1,4), of e prio] None assms(2)
    by (auto simp: eb_room_def)
next
  case (Some k)
  have "0 < length xs" using assms(2) eb_abs_pos [OF assms(1)] by simp
  then have ne: "xs \<noteq> []" by auto
  have ex: "\<exists>c \<in> set xs. it_prio c \<le> EVENT_PRIO_HI" using assms(3) ne by (cases xs) auto
  have "k < length xs" using victim_less [OF Some ne] .
  have low: "\<not> (\<forall>c \<in> set xs. prio < it_prio c)"
    using Some victim_None [OF ex, of prio] assms(3) ex by (auto intro: order_less_le_trans)
  have "eb_room (eb_size b) prio xs = Some (take k xs @ drop (Suc k) xs)"
    using Some assms(2) by (simp add: eb_room_def)
  then obtain b' where "event_buf_add_event b (Some e) prio user = Some (b', True)"
    "eb_abs b' (take k xs @ drop (Suc k) xs @ [it_core (new_item e prio user 0)])"
    using add_abs [OF assms(1,4), of e prio] by auto
  moreover have "(\<exists>c \<in> set xs. it_prio c < prio) \<longrightarrow>
      (\<forall>c \<in> set xs. it_prio (xs ! k) \<le> it_prio c) \<and> (\<forall>j < k. it_prio (xs ! j) \<noteq> it_prio (xs ! k))"
    using victim_Some [OF Some _ _ assms(5)] by blast
  ultimately show ?thesis using low \<open>k < length xs\<close> by auto
qed

theorem event_buf_full_replaces_witness:
  "\<exists>b xs b' r. eb_abs b xs \<and> length xs = unat (eb_size b)
     \<and> event_buf_add_event b (Some (ex_event 3)) EVENT_PRIO_HI 0 = Some (b', r) \<and> r"
proof -
  obtain b where b: "eb_abs b [ex_item 1 EVENT_PRIO_STD]" "eb_size b = 2"
    using ex_buf_one by blast
  obtain b2 where b2: "eb_abs b2 [ex_item 1 EVENT_PRIO_STD,
       ex_item 2 EVENT_PRIO_LO]" "eb_size b2 = 2"
    using add_abs [OF b(1), of 0 "ex_event 2" EVENT_PRIO_LO] b(2) by (auto simp: eb_room_def ex_item_def)
  have "\<exists>b' r. event_buf_add_event b2 (Some (ex_event 3)) EVENT_PRIO_HI 0 = Some (b', r) \<and> r"
    using event_buf_full_replaces [OF b2(1), of 0 EVENT_PRIO_HI "ex_event 3"] b2(2)
    by (auto simp: bits4_def)
  then obtain b' where "event_buf_add_event b2 (Some (ex_event 3)) EVENT_PRIO_HI 0 = Some (b', True)" by auto
  with b2 show ?thesis by force
qed

text \<open>\<open>event_buf_get_event\<close> hands out the oldest waiting record of the user (of
anyone for \<open>EVENT_USER_NONE\<close>) with its owner, and
\<open>event_buf_done_events\<close> with delivery then removes exactly that record and keeps
the order of the others; it finds nothing only when the user has no record.\<close>

theorem event_buf_get_done:
  assumes "eb_abs b xs" "\<forall>c \<in> set xs. waiting c" "event_buf_get_event b (Some u) = Some (b1, r)"
  shows "if gt_found r
     then \<exists>ys c zs b2. xs = ys @ c # zs \<and> gt_event r = Some (it_event c) \<and> gt_user r = it_user c
            \<and> (u = EVENT_USER_NONE \<or> it_user c = u)
            \<and> (\<forall>y \<in> set ys. u \<noteq> EVENT_USER_NONE \<and> it_user y \<noteq> u)
            \<and> event_buf_done_events b1 True = Some b2 \<and> eb_abs b2 (ys @ zs)
     else eb_abs b1 xs \<and> (\<forall>c \<in> set xs. u \<noteq> EVENT_USER_NONE \<and> it_user c \<noteq> u)"
proof (cases "get_list u xs")
  case None
  then have "\<forall>c \<in> set xs. u \<noteq> EVENT_USER_NONE \<and> it_user c \<noteq> u"
    using get_list_None [OF assms(2), of u] by blast
  moreover have "\<not> gt_found r \<and> eb_abs b1 xs" using get_abs [OF assms(1), of u] assms(3) None by auto
  ultimately show ?thesis by simp
next
  case (Some p)
  then obtain c xs' where g: "get_list u xs = Some (c, xs')" by (cases p) auto
  from get_list_waiting [OF assms(2) g] obtain ys zs where split: "xs = ys @ c # zs"
    "xs' = ys @ taken c # zs" "u = EVENT_USER_NONE \<or> it_user c = u"
    "\<forall>y \<in> set ys. u \<noteq> EVENT_USER_NONE \<and> it_user y \<noteq> u" by blast
  from get_abs [OF assms(1), of u] g assms(3) have r: "gt_found r" "gt_event r = Some (it_event c)"
    "gt_user r = it_user c" and b1: "eb_abs b1 xs'" by auto
  have "List.map_filter (done_item True) xs' = ys @ zs"
    using split assms(2) by (simp add: map_filter_append map_filter_all done_waiting done_taken map_filter_simps)
  then obtain b2 where "event_buf_done_events b1 True = Some b2" "eb_abs b2 (ys @ zs)"
    using done_abs [OF b1, of True] by auto
  with r split show ?thesis by auto
qed

theorem event_buf_get_done_witness:
  "\<exists>b b1 r. event_buf_get_event b (Some 0) = Some (b1, r) \<and> gt_event r = Some (ex_event 1)
     \<and> (\<exists>b2. event_buf_done_events b1 True = Some b2 \<and> eb_abs b2 [])"
proof -
  let ?c = "ex_item 1 EVENT_PRIO_STD"
  obtain b where b: "eb_abs b [?c]" using ex_buf_one by blast
  obtain b1 r where g: "event_buf_get_event b (Some 0) = Some (b1, r)"
    using get_abs [OF b, of 0] by blast
  have "gt_event r = Some (ex_event 1) \<and> (\<exists>b2. event_buf_done_events b1 True = Some b2 \<and> eb_abs b2 [])"
    using event_buf_get_done [OF b _ g] by (auto simp: Cons_eq_append_conv split: if_splits)
  with g show ?thesis by blast
qed

text \<open>A record that was handed out and not delivered comes back:
\<open>event_buf_restore_events\<close> without a retry limit after
\<open>event_buf_get_event\<close> gives the queue as it was.\<close>

theorem event_buf_get_restore:
  assumes "eb_abs b xs" "\<forall>c \<in> set xs. waiting c" "event_buf_get_event b (Some u) = Some (b1, r)"
  shows "\<exists>b2. event_buf_restore_events b1 EVENT_BUF_UNLIMITED = Some (b2, True) \<and> eb_abs b2 xs"
proof -
  obtain xs' where "eb_abs b1 xs'" "List.map_filter (restore_item EVENT_BUF_UNLIMITED) xs' = xs"
    "\<forall>c \<in> set xs'. restore_item EVENT_BUF_UNLIMITED c \<noteq> None"
  proof (cases "get_list u xs")
    case None
    then have "eb_abs b1 xs" using get_abs [OF assms(1), of u] assms(3) by auto
    with that [of xs] assms(2) show ?thesis by (auto simp: map_filter_all restore_waiting)
  next
    case (Some p)
    then obtain c xs' where g: "get_list u xs = Some (c, xs')" by (cases p) auto
    from get_list_waiting [OF assms(2) g] obtain ys zs where "xs = ys @ c # zs" "xs' = ys @ taken c # zs"
      by blast
    moreover have "eb_abs b1 xs'" using get_abs [OF assms(1), of u] g assms(3) by auto
    ultimately show ?thesis using that [of xs'] assms(2)
      by (auto simp: map_filter_append map_filter_all restore_waiting restore_taken map_filter_simps)
  qed
  with restore_abs [of b1 xs' EVENT_BUF_UNLIMITED] show ?thesis by auto
qed

theorem event_buf_get_restore_witness:
  "\<exists>b b1 b2 r. event_buf_get_event b (Some 0) = Some (b1, r)
     \<and> event_buf_restore_events b1 EVENT_BUF_UNLIMITED = Some (b2, True)
     \<and> eb_abs b2 [ex_item 1 EVENT_PRIO_STD]"
proof -
  obtain b where b: "eb_abs b [ex_item 1 EVENT_PRIO_STD]" using ex_buf_one by blast
  obtain b1 r where g: "event_buf_get_event b (Some 0) = Some (b1, r)"
    using get_abs [OF b, of 0] by blast
  from event_buf_get_restore [OF b _ g] g show ?thesis by auto
qed

text \<open>\<open>event_buf_restore_events\<close> acts on every record of the queue: those in
communication lose the mark, count the attempt and are discarded once the count reaches the
retry limit; the result says whether every record was kept.\<close>

theorem event_buf_restore_refines:
  assumes "eb_abs b xs"
  shows "\<exists>b'. event_buf_restore_events b limit = Some (b', \<forall>c \<in> set xs. restore_item limit c \<noteq> None)
     \<and> eb_abs b' (List.map_filter (restore_item limit) xs)"
  using restore_abs [OF assms] by blast

theorem event_buf_restore_refines_witness:
  "\<exists>(b :: nat event_buf) b'. event_buf_restore_events b 1 = Some (b', True) \<and> eb_size b = 2"
proof -
  obtain b where b: "eb_abs b [ex_item 1 EVENT_PRIO_STD]" "eb_size b = 2"
    using ex_buf_one by blast
  have "\<exists>b'. event_buf_restore_events b 1 = Some (b', True)"
    using event_buf_restore_refines [OF b(1), of 1] by (auto simp: restore_waiting)
  with b(2) show ?thesis by blast
qed

definition ex_prios :: "nat event_buf \<Rightarrow> (u8 \<times> u32) list" where
  "ex_prios b = map (\<lambda>it. (it_prio it, ev_cnt (it_event it))) (eb_items b)"

text \<open>\<open>_buf_replace_prio\<close> gives up the first record when the lowest priority equals
the new one, even if that first record has a higher priority (two slots holding high and
standard, a standard event replaces the high one).\<close>

theorem event_buf_replaces_higher:
  "map_option ex_prios (eb_run [Op_add (Some (ex_event 1)) EVENT_PRIO_HI 0,
      Op_add (Some (ex_event 2)) EVENT_PRIO_STD 0, Op_add (Some (ex_event 3)) EVENT_PRIO_STD 0] ex_buf)
     = Some [(EVENT_PRIO_STD, 3), (EVENT_PRIO_STD, 2)]"
  by code_simp

end
