(* ===== verification/CmsMain.thy ===== *)
theory CmsMain
  imports CmsSia NetTarget EventBufProps
begin

text \<open>
  \<open>app/cms/cms_main.c\<close>: the reporting of events to the security center: a buffer of events,
  one packet at a time with five repetitions, and the replies.  The protocol is the SIA codec, the
  only one \<open>_proto_select\<close> knows.

  What a call reads from its surroundings is the record \<open>cms_env\<close>: the time, whether the modem
  accepts a packet or connects, the resolver, the two configuration texts (\<open>None\<close>: the read
  failed), the names, and the value of the variable \<open>user\<close> that \<open>cms_main_process\<close> leaves
  uninitialised.  \<open>cm_out\<close> collects the packets handed to \<open>net_udp_tx\<close>.
\<close>

unbundle bit_operations_syntax

record cms_env =
  ce_now :: os_timer
  ce_tx :: bool
  ce_connect :: bool
  ce_dns :: "u8 list \<Rightarrow> bool \<times> u32"
  ce_server :: "u8 list option"
  ce_account :: "u8 list option"
  ce_names :: "u16 \<Rightarrow> u8 list option"
  ce_time :: rtc
  ce_user :: u16
  ce_buf :: buf_api

record cms_st =
  cm_server_ip :: u32
  cm_server_port :: u16
  cm_account :: u32
  cm_wait_tmr :: os_timer
  cm_retry :: u8
  cm_waiting :: bool
  cm_resolve_tmr :: os_timer
  cm_buf :: "rtc event_buf"
  cm_packet_buf :: "u8 list"
  cm_packet_len :: nat
  cm_proto :: sia_proto
  cm_out :: "udp_packet list"

abbreviation (input) CMS_BUF_SIZE :: u8 where "CMS_BUF_SIZE \<equiv> 32"
abbreviation (input) CMS_RETRY_DEFAULT :: u8 where "CMS_RETRY_DEFAULT \<equiv> 5"

text \<open>A tick is a millisecond: \<open>OS_TIMER_SECOND\<close> is a constant of the SDK, here a parameter \<open>sec\<close>.\<close>

definition cms_wait_tmout :: "os_timer \<Rightarrow> os_timer" where
  "cms_wait_tmout sec = 10 * sec"

definition cms_reinit :: "cms_env \<Rightarrow> cms_st \<Rightarrow> cms_st \<times> bool" where
  "cms_reinit env s =
     (let s = (case ce_server env of
                 None \<Rightarrow> s
               | Some cfg \<Rightarrow>
                   let (_, ip, port) = net_get_target_ip (ce_dns env) cfg
                   in s\<lparr>cm_server_ip := ip,
                        cm_server_port := (case port of Some p \<Rightarrow> p | None \<Rightarrow> cm_server_port s)\<rparr>);
          s = (case ce_account env of
                 None \<Rightarrow> s
               | Some cfg \<Rightarrow>
                   (case scan_x (length cfg) cfg of
                      Some (account, _) \<Rightarrow> s\<lparr>cm_account := word_of_int account\<rparr>
                    | None \<Rightarrow> s));
          s = s\<lparr>cm_proto := sia_proto_reinit (cm_account s) (cm_proto s)\<rparr>
      in (s, cm_server_ip s \<noteq> 0 \<and> cm_server_port s \<noteq> 0))"

definition cms_init :: "cms_env \<Rightarrow> rtc eb_item list \<Rightarrow> cms_st \<Rightarrow> (cms_st \<times> bool) option" where
  "cms_init env items s =
     do { buf \<leftarrow> event_buf_init items CMS_BUF_SIZE;
          Some (cms_reinit env (s\<lparr>cm_buf := buf, cm_waiting := False, cm_retry := 0\<rparr>)) }"

definition cms_new_event :: "cms_st \<Rightarrow> rtc event option \<Rightarrow> (cms_st \<times> bool) option" where
  "cms_new_event s event =
     (if cm_server_ip s = 0 \<or> cm_server_port s = 0 then Some (s, False)
      else do { (buf, r) \<leftarrow> event_buf_add_event (cm_buf s) event EVENT_PRIO_STD EVENT_USER_NONE;
                Some (s\<lparr>cm_buf := buf\<rparr>, r) })"

definition cms_send_packet :: "cms_env \<Rightarrow> cms_st \<Rightarrow> cms_st \<times> bool" where
  "cms_send_packet env s =
     (let packet = \<lparr>up_dst_ip = cm_server_ip s, up_src_ip = 0, up_data = cm_packet_buf s,
                    up_dst_port = cm_server_port s, up_src_port = cm_server_port s,
                    up_datalen = of_nat (cm_packet_len s)\<rparr>
      in (s\<lparr>cm_out := cm_out s @ [packet]\<rparr>, ce_tx env))"

text \<open>\<open>packet_done\<close> of the protocol, then the flags of the main state.\<close>

definition cms_packet_done :: "cms_st \<Rightarrow> bool \<Rightarrow> cms_st option" where
  "cms_packet_done s delivered =
     do { buf \<leftarrow> event_buf_done_events (cm_buf s) delivered;
          Some (s\<lparr>cm_buf := buf, cm_proto := (cm_proto s)\<lparr>sp_ok := False\<rparr>, cm_waiting := False, cm_retry := 0\<rparr>) }"

definition cms_fail :: "cms_st \<Rightarrow> cms_st option" where
  "cms_fail s = cms_packet_done s False"

definition cms_udp_rx :: "cms_st \<Rightarrow> u8 list \<Rightarrow> u16 \<Rightarrow> u16 \<Rightarrow> (cms_st \<times> bool) option" where
  "cms_udp_rx s data len port =
     (if port \<noteq> cm_server_port s then Some (s, False)
      else do {
        reply \<leftarrow> sia_proto_packet_reply (cm_proto s) data (unat len);
        if reply = CMS_REPLY_NONE then Some (s, False)
        else if \<not> cm_waiting s then Some (s, True)
        else if reply = CMS_REPLY_NAK then do { s \<leftarrow> cms_fail s; Some (s, True) }
        else do { s \<leftarrow> cms_packet_done s True; Some (s, True) } })"

text \<open>The idle branch: prepare the next event (\<open>False\<close>: leave), then send the prepared packet.\<close>

definition cms_prepare :: "cms_env \<Rightarrow> cms_st \<Rightarrow> (cms_st \<times> bool) option" where
  "cms_prepare env s =
     (if sp_ok (cm_proto s) then Some (s, True)
      else do {
        (buf, g) \<leftarrow> event_buf_get_event (cm_buf s) (Some (ce_user env));
        s \<leftarrow> Some (s\<lparr>cm_buf := buf\<rparr>);
        case (if gt_found g then gt_event g else None) of
          None \<Rightarrow> Some (s, False)
        | Some event \<Rightarrow> do {
            (p, ok) \<leftarrow> sia_proto_new_event (ce_buf env) (ce_names env) (ce_time env) (cm_proto s) event;
            s \<leftarrow> Some (s\<lparr>cm_proto := p\<rparr>);
            if \<not> ok then do { buf \<leftarrow> event_buf_done_events (cm_buf s) False; Some (s\<lparr>cm_buf := buf\<rparr>, False) }
            else Some (s, True) } })"

definition cms_send_prepared :: "os_timer \<Rightarrow> cms_env \<Rightarrow> cms_st \<Rightarrow> cms_st" where
  "cms_send_prepared sec env s =
     (let s = s\<lparr>cm_packet_len := length (sp_packet (cm_proto s)), cm_packet_buf := sp_packet (cm_proto s)\<rparr>;
          (s, r) = cms_send_packet env s
      in if \<not> r then s else s\<lparr>cm_waiting := True, cm_wait_tmr := ce_now env + cms_wait_tmout sec\<rparr>)"

definition cms_main_process :: "os_timer \<Rightarrow> cms_env \<Rightarrow> cms_st \<Rightarrow> cms_st option" where
  "cms_main_process sec env s =
     (let now = ce_now env
      in if cm_server_ip s = 0 \<or> cm_server_port s = 0
         then Some (if cm_server_port s \<noteq> 0 \<and> now \<ge> cm_resolve_tmr s
                    then let s = s\<lparr>cm_resolve_tmr := now + 60 * sec\<rparr>
                         in if ce_connect env then fst (cms_reinit env s) else s
                    else s)
         else if cm_waiting s
         then if now < cm_wait_tmr s then Some s
              else if cm_retry s < CMS_RETRY_DEFAULT
              then let s = s\<lparr>cm_retry := cm_retry s + 1\<rparr>;
                       (s, _) = cms_send_packet env s
                   in Some (s\<lparr>cm_wait_tmr := now + cms_wait_tmout sec\<rparr>)
              else cms_fail s
         else do { (s, go) \<leftarrow> cms_prepare env s;
                   Some (if go then cms_send_prepared sec env s else s) })"

end
