(* ===== verification/EventTask.thy ===== *)
theory EventTask
  imports SystemCore EventMemory CmsMain
begin

text \<open>
  The consumers of \<open>app/event.c\<close>: \<open>event_task\<close> takes the events from the ring, stores
  each in the log, distributes it to the destinations of its group and passes it to the alarm
  system; \<open>event_comm_task\<close> collects the waiting events of one user into a text message, which
  \<open>sms_send_to_user\<close> of \<open>app/sms_processing.c\<close> sends.

  The parser of numbers, the text buffers and the check of a phone number belong to the SDK: they
  are arguments, with the time of the clock, whether the allocation of a buffer succeeds, and
  whether the log output is on (only then its arguments, the two names, are evaluated).
\<close>

unbundle bit_operations_syntax

subsection \<open>State\<close>

record ev_env =
  ee_codec :: "rtc ev_codec"
  ee_sys :: "rtc env"
  ee_number :: "u8 list \<Rightarrow> (int \<times> u8 list) option"
  ee_log :: bool
  ee_now :: rtc
  ee_alloc :: bool
  ee_buf :: buf_api
  ee_tel_buf :: buf_api
  ee_phone_ok :: "u8 list \<Rightarrow> bool"
  ee_nl :: "u8 list"

text \<open>
  The state the tasks share: the alarm system with the ring and the configuration, the pointer
  of the event log (whose flash is the one of the configuration), the events that wait for a
  text message, the security center, and the messages handed to the modem.
\<close>

record 'f ev_st =
  es_sys :: "('f, rtc) sys"
  es_em_ptr :: u32
  es_sms :: "rtc event_buf"
  es_cms :: cms_st
  es_sent :: "(u8 list \<times> u8 list) list"

abbreviation (input) es_q :: "'f ev_st \<Rightarrow> rtc event_q" where
  "es_q st \<equiv> sy_q (es_sys st)"

abbreviation (input) es_cfg :: "'f ev_st \<Rightarrow> 'f cfg_st" where
  "es_cfg st \<equiv> sy_cfg (es_sys st)"

definition es_cfg_read :: "'f ev_st \<Rightarrow> u16 \<Rightarrow> ('f ev_st \<times> bool \<times> u8 list) option" where
  "es_cfg_read st i =
     (case cfg_read (es_cfg st) i ACCESS_SYSTEM of
        (cf, r) \<Rightarrow> map_option (\<lambda>r. (st\<lparr>es_sys := (es_sys st)\<lparr>sy_cfg := cf\<rparr>\<rparr>, r)) r)"

definition es_log_store :: "ev_env \<Rightarrow> 'f ev_st \<Rightarrow> rtc event \<Rightarrow> 'f ev_st option" where
  "es_log_store env st e =
     do { (em, _) \<leftarrow> event_memory_store (ee_codec env)
             \<lparr>em_st = cf_store (es_cfg st), em_ptr = es_em_ptr st, em_cnt = eq_cnt (es_q st)\<rparr> e;
          Some (st\<lparr>es_sys := (es_sys st)\<lparr>sy_cfg := (es_cfg st)\<lparr>cf_store := em_st em\<rparr>\<rparr>, es_em_ptr := em_ptr em\<rparr>) }"

subsection \<open>Tables and names\<close>

record event_setup =
  et_id :: u8
  et_group :: u8
  et_text :: u16

definition EVENT_SETUP :: "event_setup list" where
  "EVENT_SETUP = map (\<lambda>(i, g, t). \<lparr>et_id = i, et_group = g, et_text = t\<rparr>)
    [(EVENT_ID_BOOT_UP, EVENT_GROUP_INFO, 300), (EVENT_ID_SHUT_DOWN, EVENT_GROUP_INFO, 301),
     (EVENT_ID_POWER_FAIL, EVENT_GROUP_FAULT, 302), (EVENT_ID_POWER_RECOVERY, EVENT_GROUP_FAULT, 303),
     (EVENT_ID_LO_BATT, EVENT_GROUP_FAULT, 304), (EVENT_ID_LO_BATT_RECOVERY, EVENT_GROUP_FAULT, 305),
     (EVENT_ID_SET, EVENT_GROUP_CONTROL, 306), (EVENT_ID_UNSET, EVENT_GROUP_CONTROL, 307),
     (EVENT_ID_ALARM, EVENT_GROUP_ALARM, 308), (EVENT_ID_ALARM_CANCEL, EVENT_GROUP_ALARM, 310),
     (EVENT_ID_ALARM_TIMEOUT, EVENT_GROUP_ALARM, 311), (EVENT_ID_FAULT, EVENT_GROUP_FAULT, 312),
     (EVENT_ID_FAULT_RECOVERY, EVENT_GROUP_FAULT, 313), (EVENT_ID_JAMMING_ACT, EVENT_GROUP_INFO, 314),
     (EVENT_ID_JAMMING_DACT, EVENT_GROUP_INFO, 315), (EVENT_ID_TRACKING, EVENT_GROUP_INFO, 316)]"

definition EVENT_SOURCE_SETUP :: "(u8 \<times> u16) list" where
  "EVENT_SOURCE_SETUP =
    [(EVENT_SOURCE_UNKNOWN, 400), (EVENT_SOURCE_UNIT, 401), (EVENT_SOURCE_KEY, 402), (EVENT_SOURCE_DOOR, 403),
     (EVENT_SOURCE_INPUT1, 404), (EVENT_SOURCE_INPUT2, 409), (EVENT_SOURCE_INPUT3, 410), (EVENT_SOURCE_SHOCK, 405),
     (EVENT_SOURCE_LOCK, 406), (EVENT_SOURCE_CELL, 407), (EVENT_SOURCE_BATTERY, 408),
     (EVENT_SOURCE_ADMIN, CFG_ID_ADMIN_NAME), (EVENT_SOURCE_USER1, CFG_ID_USER1_NAME),
     (EVENT_SOURCE_USER2, CFG_ID_USER2_NAME), (EVENT_SOURCE_USER3, CFG_ID_USER3_NAME),
     (EVENT_SOURCE_USER4, CFG_ID_USER4_NAME)]"

definition event_name :: "'f ev_st \<Rightarrow> u8 \<Rightarrow> ('f ev_st \<times> u8 list) option" where
  "event_name st i =
     do { _ \<leftarrow> os_assert (i < EVENT_ID_SIZE);
          s \<leftarrow> arr_get EVENT_SETUP (unat i);
          _ \<leftarrow> os_assert (i = et_id s);
          (st, r, t) \<leftarrow> es_cfg_read st (et_text s);
          Some (st, if r then t else str ''error'') }"

definition source_name :: "'f ev_st \<Rightarrow> u8 \<Rightarrow> ('f ev_st \<times> u8 list) option" where
  "source_name st i =
     do { _ \<leftarrow> os_assert (i < EVENT_SOURCE_SIZE);
          s \<leftarrow> arr_get EVENT_SOURCE_SETUP (unat i);
          _ \<leftarrow> os_assert (i = fst s);
          (st, r, t) \<leftarrow> es_cfg_read st (snd s);
          Some (st, if r then t else str ''error'') }"

definition event_init :: "ev_env \<Rightarrow> rtc eb_item list \<Rightarrow> 'f ev_st \<Rightarrow> ('f ev_st \<times> bool) option" where
  "event_init env items st =
     do { let zero = \<lparr>ev_cnt = 0, ev_time = \<lparr>rtc_year = 0, rtc_month = 0, rtc_day = 0, rtc_hour = 0,
                rtc_minute = 0, rtc_second = 0\<rparr>, ev_id = 0, ev_source = 0\<rparr>;
          b \<leftarrow> event_buf_init items 20;
          let (em, _) = event_memory_init (ee_codec env)
                \<lparr>em_st = cf_store (es_cfg st), em_ptr = es_em_ptr st, em_cnt = eq_cnt (es_q st)\<rparr>;
          Some (st\<lparr>es_sys := (es_sys st)\<lparr>sy_cfg := (es_cfg st)\<lparr>cf_store := em_st em\<rparr>,
                   sy_q := (es_q st)\<lparr>eq_buf := replicate EVENT_BUF_SIZE zero, eq_cnt := em_cnt em\<rparr>\<rparr>,
                   es_em_ptr := em_ptr em, es_sms := b\<rparr>, True) }"

subsection \<open>Processing the ring\<close>

text \<open>
  The loop over the setup text of a group, at most 30 rounds: \<open>S\<close> and a number add the event for
  a user, \<open>V\<close> (a call) is not implemented, \<open>C\<close> passes it to the security center.
\<close>

fun event_setup_run :: "ev_env \<Rightarrow> rtc event \<Rightarrow> nat \<Rightarrow> u8 list \<Rightarrow> 'f ev_st \<Rightarrow> 'f ev_st option" where
  "event_setup_run env e 0 p st = Some st"
| "event_setup_run env e (Suc limit) [] st = Some st"
| "event_setup_run env e (Suc limit) (c # p) st =
     (if c = 83 then
        (case ee_number env p of
           Some (user, p) \<Rightarrow> do {
             (b, _) \<leftarrow> event_buf_add_event (es_sms st) (Some e) EVENT_PRIO_STD (word_of_int user);
             event_setup_run env e limit p (st\<lparr>es_sms := b\<rparr>) }
         | None \<Rightarrow> event_setup_run env e limit p st)
      else if c = 86 then
        (case ee_number env p of
           Some (user, p) \<Rightarrow> event_setup_run env e limit p st
         | None \<Rightarrow> event_setup_run env e limit p st)
      else if c = 67 then do {
        (cms, _) \<leftarrow> cms_new_event (es_cms st) (Some e);
        event_setup_run env e limit p (st\<lparr>es_cms := cms\<rparr>) }
      else if c = 44 then event_setup_run env e limit p st
      else Some st)"

text \<open>The arguments of the log line at the end of the loop body.\<close>

definition event_log_names :: "ev_env \<Rightarrow> rtc event \<Rightarrow> 'f ev_st \<Rightarrow> 'f ev_st option" where
  "event_log_names env e st =
     (if ee_log env then do {
        (st, _) \<leftarrow> event_name st (ev_id e);
        (st, _) \<leftarrow> source_name st (ev_source e);
        Some st }
      else Some st)"

definition event_process :: "ev_env \<Rightarrow> rtc event \<Rightarrow> 'f ev_st \<Rightarrow> 'f ev_st option" where
  "event_process env e st =
     do { _ \<leftarrow> os_assert (ev_id e < EVENT_ID_SIZE);
          s \<leftarrow> arr_get EVENT_SETUP (unat (ev_id e));
          st \<leftarrow> es_log_store env st e;
          (st, r, cfg) \<leftarrow> es_cfg_read st (200 + ucast (et_group s));
          st \<leftarrow> (if r then event_setup_run env e 30 cfg st else Some st);
          st \<leftarrow> event_log_names env e st;
          y \<leftarrow> system_event (ee_sys env) (es_sys st) (ev_id e);
          Some (st\<lparr>es_sys := y\<rparr>) }"

text \<open>The loop ends when the pointer meets the write pointer; a run that does not end is \<open>None\<close>.\<close>

partial_function (option) event_task_loop :: "ev_env \<Rightarrow> u32 \<Rightarrow> 'f ev_st \<Rightarrow> 'f ev_st option" where
  "event_task_loop env ptr st =
     (if ptr = eq_wr (es_q st) then Some st
      else do {
        e \<leftarrow> event_q_head (es_q st);
        st \<leftarrow> event_process env e st;
        let ptr = ring_inc ptr;
        event_task_loop env ptr (st\<lparr>es_sys := (es_sys st)\<lparr>sy_q := (es_q st)\<lparr>eq_rd := ptr\<rparr>\<rparr>\<rparr>) })"

definition event_task :: "ev_env \<Rightarrow> 'f ev_st \<Rightarrow> 'f ev_st option" where
  "event_task env st =
     do { let ptr = eq_rd (es_q st);
          _ \<leftarrow> os_assert (eq_wr (es_q st) < 32);
          event_task_loop env ptr st }"

subsection \<open>Reports by text message\<close>

definition fmt_time :: "rtc \<Rightarrow> rtc \<Rightarrow> u8 list" where
  "fmt_time now t =
     (let hms = show_nat (unat (rtc_hour t)) @ [58] @ pad0 2 (show_nat (unat (rtc_minute t)))
                @ [58] @ pad0 2 (show_nat (unat (rtc_second t)))
      in if rtc_day now = rtc_day t \<or> rtc_month now = rtc_month t then hms
         else pad0 2 (show_nat (unat (rtc_year t))) @ [47] @ show_nat (unat (rtc_month t)) @ [47]
              @ show_nat (unat (rtc_day t)) @ [32] @ hms)"

definition buf_add_event :: "ev_env \<Rightarrow> 'f ev_st \<Rightarrow> u8 list \<Rightarrow> rtc event \<Rightarrow> ('f ev_st \<times> u8 list) option" where
  "buf_add_event env st buf e =
     do { let add = bf_append (ee_buf env);
          let buf = add (add buf (fmt_time (ee_now env) (ev_time e))) [32];
          (st, n) \<leftarrow> event_name st (ev_id e);
          let buf = add (add buf n) (str '', '');
          (st, n) \<leftarrow> source_name st (ev_source e);
          Some (st, add buf n) }"

definition event_description :: "ev_env \<Rightarrow> 'f ev_st \<Rightarrow> u8 list \<Rightarrow> rtc event \<Rightarrow> ('f ev_st \<times> u8 list) option" where
  "event_description env st buf e = buf_add_event env st buf e"

definition sms_send_to_user :: "ev_env \<Rightarrow> 'f ev_st \<Rightarrow> u16 \<Rightarrow> u8 list \<Rightarrow> ('f ev_st \<times> bool) option" where
  "sms_send_to_user env st user data =
     do { _ \<leftarrow> os_assert (user < 4);
          (st, r, t) \<leftarrow> es_cfg_read st (CFG_ID_USER1_PHONE + user);
          if \<not> r then Some (st, False)
          else let tel = bf_append (ee_tel_buf env) [] t
               in if \<not> ee_phone_ok env tel then Some (st, True)
                  else Some (st\<lparr>es_sent := es_sent st @ [(tel, data)]\<rparr>, True) }"

text \<open>The further events of the user; each round hands one record out, so that the loop ends.\<close>

partial_function (option) event_collect :: "ev_env \<Rightarrow> u16 \<Rightarrow> u8 list \<Rightarrow> 'f ev_st \<Rightarrow> ('f ev_st \<times> u8 list) option" where
  "event_collect env user buf st =
     do { (b, g) \<leftarrow> event_buf_get_event (es_sms st) (Some user);
          let st = st\<lparr>es_sms := b\<rparr>;
          case (if gt_found g then gt_event g else None) of
            None \<Rightarrow> Some (st, buf)
          | Some e \<Rightarrow> do {
              (st, buf) \<leftarrow> buf_add_event env st (bf_append (ee_buf env) buf (59 # ee_nl env)) e;
              event_collect env (gt_user g) buf st } }"

definition event_comm_task :: "ev_env \<Rightarrow> 'f ev_st \<Rightarrow> 'f ev_st option" where
  "event_comm_task env st =
     do { (b, g) \<leftarrow> event_buf_get_event (es_sms st) (Some EVENT_USER_NONE);
          let st = st\<lparr>es_sms := b\<rparr>;
          case (if gt_found g then gt_event g else None) of
            None \<Rightarrow> Some st
          | Some e \<Rightarrow>
              if \<not> ee_alloc env then Some st
              else do {
                (st, _, t) \<leftarrow> es_cfg_read st CFG_ID_DEVICE_NAME;
                (st, buf) \<leftarrow> buf_add_event env st (bf_append (ee_buf env) [] t) e;
                (st, buf) \<leftarrow> event_collect env (gt_user g) buf st;
                (st, r) \<leftarrow> sms_send_to_user env st (gt_user g) buf;
                if r then do { b \<leftarrow> event_buf_done_events (es_sms st) True; Some (st\<lparr>es_sms := b\<rparr>) }
                else Some st } }"

end
