(* ===== verification/CfgText.thy ===== *)
theory CfgText
  imports Cfg
begin

text \<open>
  The configuration as the rest of the program sees it on a working flash: a text for every id of
  the table, the stored one or the default; reading and writing it always succeed.
\<close>

subsection \<open>The texts of the configuration\<close>

text \<open>On a working flash a read of a table id gives the stored text, or the default.\<close>

definition cfg_text :: "('f \<Rightarrow> nat \<Rightarrow> u8) \<Rightarrow> 'f cfg_st \<Rightarrow> u16 \<Rightarrow> u8 list" where
  "cfg_text mem cf i =
     (if cfg_valid (cfg_item_at mem cf i) then the (c_str (ci_data (cfg_item_at mem cf i)))
      else case table_get i of Some t \<Rightarrow> ct_data t | None \<Rightarrow> [])"

definition cfg_sound :: "('f \<Rightarrow> nat \<Rightarrow> u8) \<Rightarrow> 'f cfg_st \<Rightarrow> bool" where
  "cfg_sound mem cf \<longleftrightarrow> flash_lawful mem (st_dev (cf_store cf)) \<and> flash_reliable (st_dev (cf_store cf))
     \<and> st_ready (cf_store cf)
     \<and> (\<forall>i. table_get i \<noteq> None \<longrightarrow> cfg_valid (cfg_item_at mem cf i) \<longrightarrow> 0 \<in> set (ci_data (cfg_item_at mem cf i)))"

text \<open>A change of the store that keeps the contents of the configuration region.\<close>

lemma cfg_item_keep:
  assumes "\<And>i. i < 0x20000 \<Longrightarrow> st_mem mem (cf_store cf') i = st_mem mem (cf_store cf) i"
    and "table_get k \<noteq> None"
  shows "cfg_item_at mem cf' k = cfg_item_at mem cf k"
proof -
  have "unat k < 2048" using assms(2) table_in_space by (auto simp: in_space_def)
  then have "st_bytes mem (cf_store cf') (0 + 64 * unat k) 64 = st_bytes mem (cf_store cf) (0 + 64 * unat k) 64"
    by (intro st_bytes_cong assms(1)) linarith
  then show ?thesis by (simp add: cfg_item_at_def cfg_region.at_def)
qed

lemma cfg_keep:
  assumes S: "cfg_sound mem cf" and same: "st_same (cf_store cf) (cf_store cf')"
    and keep: "\<And>i. i < 0x20000 \<Longrightarrow> st_mem mem (cf_store cf') i = st_mem mem (cf_store cf) i"
  shows "cfg_sound mem cf'" "table_get k \<noteq> None \<Longrightarrow> cfg_text mem cf' k = cfg_text mem cf k"
proof -
  have item: "table_get k \<noteq> None \<Longrightarrow> cfg_item_at mem cf' k = cfg_item_at mem cf k" for k
    by (rule cfg_item_keep [of mem cf' cf k, OF keep])
  have "st_ready (cf_store cf')" using same S by (simp add: st_same_def cfg_sound_def)
  then show "cfg_sound mem cf'"
    using S item st_same_lawful [OF same, of mem] st_same_reliable [OF same]
    unfolding cfg_sound_def by metis
  show "table_get k \<noteq> None \<Longrightarrow> cfg_text mem cf' k = cfg_text mem cf k"
    using item [of k] by (simp add: cfg_text_def)
qed

lemma cfg_read_text:
  assumes S: "cfg_sound mem cf" and t: "table_get i = Some t"
  shows "\<exists>cf'. cfg_read cf i ACCESS_SYSTEM = (cf', Some (True, cfg_text mem cf i))
     \<and> st_same (cf_store cf) (cf_store cf') \<and> st_mem mem (cf_store cf') = st_mem mem (cf_store cf)"
proof -
  have ok: "flash_lawful mem (st_dev (cf_store cf))" "flash_reliable (st_dev (cf_store cf))" "st_ready (cf_store cf)"
    using S by (auto simp: cfg_sound_def)
  have acc: "cfg_table_access_read i ACCESS_SYSTEM"
    using table_get_ok [OF t] t by (auto simp: cfg_table_access_read_def row_ok_def)
  have fit: "unat (cfg_addr i) + unat (64 :: u32) \<le> 0x20000"
    using table_in_space [OF t] by (simp add: cfg_addr_unat in_space_def)
  have "snd (storage_read_cfg (cf_store cf) (cfg_addr i) 64) \<noteq> None"
    using cfg_slot_read [OF ok(2,3) t] .
  then obtain st bs where rd: "storage_read_cfg (cf_store cf) (cfg_addr i) 64 = (st, Some bs)"
    by (metis option.exhaust prod.collapse)
  have law: "st_same (cf_store cf) st \<and> st_mem mem st = st_mem mem (cf_store cf)"
    using cfg_region.rd_law [OF ok(1) fit rd] by simp
  have bs: "item_of bs = cfg_item_at mem cf i"
    using cfg_region.read_at [OF ok(1) fit rd] by (simp add: cfg_item_at_def cfg_addr_unat)
  obtain d where d: "cfg_table_default i = Some d" "c_str d = Some (ct_data t)"
    using t table_default_str [of i] by (auto simp: cfg_table_default_def)
  have "cfg_valid (cfg_item_at mem cf i) \<Longrightarrow> c_str (ci_data (cfg_item_at mem cf i)) \<noteq> None"
    using S t by (simp add: cfg_sound_def c_str_def)
  then have "cfg_read cf i ACCESS_SYSTEM = (cf\<lparr>cf_store := st\<rparr>, Some (True, cfg_text mem cf i))"
    using acc rd bs d t by (auto simp: cfg_read_def cfg_text_def Let_def)
  with law show ?thesis by auto
qed

lemma table_get_iff: "table_get i \<noteq> None \<longleftrightarrow> i \<in> set (map ct_id CFG_TABLE)"
proof -
  have "CfgTable.table_find ts i \<noteq> None \<longleftrightarrow> i \<in> set (map ct_id ts)" for ts
    by (induction ts) auto
  then show ?thesis by (simp add: table_get_def)
qed

lemma write_cfg_reliable:
  assumes "flash_reliable (st_dev st)" "st_ready st" "unat addr + length src \<le> 0x20000"
  shows "snd (storage_write_cfg st addr src)"
proof -
  have "\<not> addr + of_nat (length src) > STORAGE_CFG_SPACE"
    using region_sum [OF assms(3)] assms(3) by (simp add: word_less_nat_alt)
  then show ?thesis
    using assms by (simp add: storage_write_cfg_def dev_write_def flash_write_data_def Let_def flash_reliable_def split_def)
qed

text \<open>A text without terminator that leaves room for one is written and replaces the old one.\<close>

lemma cfg_write_text:
  assumes S: "cfg_sound mem cf" and acc: "cfg_table_access_write i auth" and src: "length src < 62" "0 \<notin> set src"
  shows "\<exists>cf'. cfg_write cf i src auth = (cf', True) \<and> cfg_sound mem cf' \<and> cf_reinit cf' = cf_reinit cf @ [i]
     \<and> cfg_text mem cf' i = src \<and> (\<forall>k. k \<noteq> i \<longrightarrow> cfg_text mem cf' k = cfg_text mem cf k)"
proof -
  define it where "it = \<lparr>ci_data = src @ replicate (62 - length src) 0,
      ci_chsum = cfg_chsum (src @ replicate (62 - length src) 0)\<rparr>"
  have il: "length (ci_data it) = 62" using src by (simp add: it_def)
  obtain t where "table_get i = Some t" using acc by (auto simp: cfg_table_access_write_def split: option.splits)
  then have "unat i < 2048" using table_in_space by (simp add: in_space_def)
  then have "unat (cfg_addr i) + length (item_bytes it) \<le> 0x20000"
    by (simp add: cfg_addr_unat length_item_bytes [OF il])
  then have "snd (storage_write_cfg (cf_store cf) (cfg_addr i) (item_bytes it))"
    using S by (intro write_cfg_reliable) (simp_all add: cfg_sound_def)
  then obtain st where "storage_write_cfg (cf_store cf) (cfg_addr i) (item_bytes it) = (st, True)"
    by (metis prod.collapse)
  then obtain cf' where w: "cfg_write cf i src auth = (cf', True)"
    using acc src by (auto simp: cfg_write_def it_def Let_def)
  from cfg_write_item [OF _ w] S
  have R: "flash_lawful mem (st_dev (cf_store cf'))" "st_same (cf_store cf) (cf_store cf')" "cfg_item_at mem cf' i = it"
    "\<And>k. k \<noteq> i \<Longrightarrow> cfg_item_at mem cf' k = cfg_item_at mem cf k" "cf_reinit cf' = cf_reinit cf @ [i]"
    by (auto simp: cfg_sound_def it_def)
  have v: "cfg_valid it" "c_str (ci_data it) = Some src" "0 \<in> set (ci_data it)"
    using src by (simp_all add: it_def cfg_valid_def c_str_pad)
  have "st_ready (cf_store cf')" "flash_reliable (st_dev (cf_store cf'))"
    using S R(2) st_same_reliable [OF R(2)] by (simp_all add: st_same_def cfg_sound_def)
  moreover have "0 \<in> set (ci_data (cfg_item_at mem cf' k))" if "table_get k \<noteq> None" "cfg_valid (cfg_item_at mem cf' k)" for k
    using that S v(3) R(3,4) by (cases "k = i") (auto simp: cfg_sound_def)
  ultimately have "cfg_sound mem cf'" using R(1) by (simp add: cfg_sound_def)
  moreover have "cfg_text mem cf' i = src" using v R(3) by (simp add: cfg_text_def)
  moreover have "\<forall>k. k \<noteq> i \<longrightarrow> cfg_text mem cf' k = cfg_text mem cf k" using R(4) by (simp add: cfg_text_def)
  ultimately show ?thesis using w R(5) by blast
qed

subsection \<open>A blank flash\<close>

lemma ex_blank_item: "cfg_item_at id (ex_cfg (\<lambda>_. 0xFF)) i = \<lparr>ci_data = replicate 62 0xFF, ci_chsum = 0xFFFF\<rparr>"
proof -
  have "cfg_region.at id (cf_store (ex_cfg (\<lambda>_. 0xFF))) (64 * unat i) 64 = replicate 64 0xFF"
    by (simp add: ex_cfg_def cfg_region.at_def st_bytes_def st_mem_def ram_flash_def map_replicate_const)
  then show ?thesis by (simp add: cfg_item_at_def item_of_def)
qed

lemma ex_blank_invalid: "\<not> cfg_valid \<lparr>ci_data = replicate 62 0xFF, ci_chsum = 0xFFFF\<rparr>"
  by code_simp

lemma ex_blank_sound: "cfg_sound id (ex_cfg (\<lambda>_. 0xFF))"
  using ex_blank_invalid by (simp add: cfg_sound_def ex_blank_item) (simp add: ex_cfg_def)

lemma ex_blank_text: "cfg_text id (ex_cfg (\<lambda>_. 0xFF)) i = (case table_get i of Some t \<Rightarrow> ct_data t | None \<Rightarrow> [])"
  using ex_blank_invalid by (simp add: cfg_text_def ex_blank_item)

end
