(* ===== verification/EventTaskRun.thy ===== *)
theory EventTaskRun
  imports EventTask CfgText
begin

text \<open>
  The processing of the event ring against an abstract view of the state: the configuration
  texts on a working flash, the log of events as a list, the queue of records that wait for a message.
\<close>

unbundle bit_operations_syntax

subsection \<open>The tables\<close>

lemma event_ids_in_table:
  "set (map et_text EVENT_SETUP @ map snd EVENT_SOURCE_SETUP
      @ [200, 201, 202, 203, CFG_ID_DEVICE_NAME, 101, 102, 103, 104]) \<subseteq> set (map ct_id CFG_TABLE)"
  by code_simp

lemma event_setup_rows:
  "map et_id EVENT_SETUP = map of_nat [0..<16]" "set (map et_group EVENT_SETUP) \<subseteq> {0, 1, 2, 3}"
  "map fst EVENT_SOURCE_SETUP = map of_nat [0..<16]"
  by code_simp+

lemma length_event_setup: "length EVENT_SETUP = 16" "length EVENT_SOURCE_SETUP = 16"
  by (simp_all add: EVENT_SETUP_def EVENT_SOURCE_SETUP_def)

lemma event_setup_nth:
  assumes "n < 16"
  shows "et_id (EVENT_SETUP ! n) = of_nat n" "table_get (et_text (EVENT_SETUP ! n)) \<noteq> None"
    "table_get (200 + ucast (et_group (EVENT_SETUP ! n))) \<noteq> None"
    "fst (EVENT_SOURCE_SETUP ! n) = of_nat n" "table_get (snd (EVENT_SOURCE_SETUP ! n)) \<noteq> None"
proof -
  have len: "n < length EVENT_SETUP" "n < length EVENT_SOURCE_SETUP" "n < length [0..<16]"
    using assms by (simp_all add: length_event_setup)
  show "et_id (EVENT_SETUP ! n) = of_nat n"
    using arg_cong [OF event_setup_rows(1), of "\<lambda>xs. xs ! n"] len by simp
  show "fst (EVENT_SOURCE_SETUP ! n) = of_nat n"
    using arg_cong [OF event_setup_rows(3), of "\<lambda>xs. xs ! n"] len by simp
  have "et_text (EVENT_SETUP ! n) \<in> set (map et_text EVENT_SETUP)"
    "snd (EVENT_SOURCE_SETUP ! n) \<in> set (map snd EVENT_SOURCE_SETUP)"
    "et_group (EVENT_SETUP ! n) \<in> set (map et_group EVENT_SETUP)"
    using nth_mem [OF len(1)] nth_mem [OF len(2)] by auto
  with event_ids_in_table event_setup_rows(2)
  show "table_get (et_text (EVENT_SETUP ! n)) \<noteq> None" "table_get (snd (EVENT_SOURCE_SETUP ! n)) \<noteq> None"
    "table_get (200 + ucast (et_group (EVENT_SETUP ! n))) \<noteq> None"
    unfolding table_get_iff set_append by auto
qed

subsection \<open>The state of the tasks, abstractly\<close>

definition em_of :: "'f ev_st \<Rightarrow> ('f, rtc) event_mem" where
  "em_of st = \<lparr>em_st = cf_store (es_cfg st), em_ptr = es_em_ptr st, em_cnt = eq_cnt (es_q st)\<rparr>"

text \<open>
  \<open>es_rep mem C T sz st p lg xs\<close>: the configuration texts are \<open>T\<close>, the event log holds \<open>lg\<close>
  (newest first) below slot \<open>p\<close>, and the records \<open>xs\<close> wait for a text message.
\<close>

definition es_rep :: "('f \<Rightarrow> nat \<Rightarrow> u8) \<Rightarrow> rtc ev_codec \<Rightarrow> (u16 \<Rightarrow> u8 list) \<Rightarrow> u8 \<Rightarrow> 'f ev_st \<Rightarrow> nat
    \<Rightarrow> rtc event list \<Rightarrow> rtc eb_item list \<Rightarrow> bool" where
  "es_rep mem C T sz st p lg xs \<longleftrightarrow> codec_ok C \<and> cfg_sound mem (es_cfg st)
     \<and> (\<forall>i. table_get i \<noteq> None \<longrightarrow> cfg_text mem (es_cfg st) i = T i)
     \<and> em_log mem C (em_of st) p lg \<and> eb_abs (es_sms st) xs \<and> eb_size (es_sms st) = sz"

lemma slot_event_mem:
  "st_mem mem st' = st_mem mem st \<Longrightarrow> slot_event mem C st' = slot_event mem C st"
  by (simp add: slot_event_def event_region.at_def st_bytes_def fun_eq_iff)

lemma em_of_simps [simp]:
  "em_st (em_of st) = cf_store (es_cfg st)" "em_ptr (em_of st) = es_em_ptr st"
  by (simp_all add: em_of_def)

text \<open>What does not touch the flash and the buffer of messages keeps the representation.\<close>

lemma es_rep_sys: "sy_cfg y = es_cfg st \<Longrightarrow> es_rep mem C T sz (st\<lparr>es_sys := y\<rparr>) p lg xs = es_rep mem C T sz st p lg xs"
  by (simp add: es_rep_def em_log_def)

lemma es_rep_sent [simp]: "es_rep mem C T sz (st\<lparr>es_sent := m\<rparr>) p lg xs = es_rep mem C T sz st p lg xs"
  by (simp add: es_rep_def em_log_def)

lemma es_rep_sms: "es_rep mem C T sz st p lg xs \<Longrightarrow> eb_abs b ys \<Longrightarrow> eb_size b = sz \<Longrightarrow>
    es_rep mem C T sz (st\<lparr>es_sms := b\<rparr>) p lg ys"
  by (simp add: es_rep_def em_log_def)

text \<open>Two states that differ in the contents of the configuration record alone.\<close>

definition cfg_only :: "'f ev_st \<Rightarrow> 'f ev_st \<Rightarrow> bool" where
  "cfg_only st st' \<longleftrightarrow> (\<exists>cf. st' = st\<lparr>es_sys := (es_sys st)\<lparr>sy_cfg := cf\<rparr>\<rparr>)"

lemma cfg_only_refl [simp]: "cfg_only st st"
  unfolding cfg_only_def by (rule exI [of _ "es_cfg st"]) simp

lemma cfg_only_trans: "cfg_only a b \<Longrightarrow> cfg_only b c \<Longrightarrow> cfg_only a c"
  by (auto simp: cfg_only_def)

lemma cfg_only_same: "cfg_only st st' \<Longrightarrow> es_em_ptr st' = es_em_ptr st \<and> es_sms st' = es_sms st
   \<and> es_cms st' = es_cms st \<and> es_sent st' = es_sent st \<and> es_q st' = es_q st"
  by (auto simp: cfg_only_def)

lemma es_cfg_read_rep:
  assumes R: "es_rep mem C T sz st p lg xs" and i: "table_get i \<noteq> None"
  shows "\<exists>st'. es_cfg_read st i = Some (st', True, T i) \<and> es_rep mem C T sz st' p lg xs \<and> cfg_only st st'"
proof -
  have S: "cfg_sound mem (es_cfg st)" and log: "em_log mem C (em_of st) p lg"
    using R by (auto simp: es_rep_def)
  obtain t where t: "table_get i = Some t" using i by auto
  from cfg_read_text [OF S t] R i obtain cf where
    cf: "cfg_read (es_cfg st) i ACCESS_SYSTEM = (cf, Some (True, T i))"
      "st_same (cf_store (es_cfg st)) (cf_store cf)" "st_mem mem (cf_store cf) = st_mem mem (cf_store (es_cfg st))"
    by (auto simp: es_rep_def)
  define st' where "st' = st\<lparr>es_sys := (es_sys st)\<lparr>sy_cfg := cf\<rparr>\<rparr>"
  note keep = cfg_keep [OF S cf(2), unfolded cf(3), OF refl]
  have "em_log mem C (em_of st') p lg"
    using log slot_event_mem [OF cf(3), of C] st_same_lawful [OF cf(2), of mem] by (simp add: em_log_def st'_def)
  then have "es_rep mem C T sz st' p lg xs" using R keep by (simp add: es_rep_def st'_def)
  moreover have "es_cfg_read st i = Some (st', True, T i)" using cf by (simp add: es_cfg_read_def st'_def)
  moreover have "cfg_only st st'" by (auto simp: cfg_only_def st'_def)
  ultimately show ?thesis by blast
qed

lemma event_name_rep:
  assumes "es_rep mem C T sz st p lg xs" "i < EVENT_ID_SIZE"
  shows "\<exists>st'. event_name st i = Some (st', T (et_text (EVENT_SETUP ! unat i)))
     \<and> es_rep mem C T sz st' p lg xs \<and> cfg_only st st'"
proof -
  have n: "unat i < 16" using assms(2) by (simp add: word_less_nat_alt)
  from es_cfg_read_rep [OF assms(1) event_setup_nth(2) [OF n]] obtain st' where
    "es_cfg_read st (et_text (EVENT_SETUP ! unat i)) = Some (st', True, T (et_text (EVENT_SETUP ! unat i)))"
    "es_rep mem C T sz st' p lg xs" "cfg_only st st'" by blast
  then show ?thesis using assms(2) n event_setup_nth(1) [OF n]
    by (simp add: event_name_def length_event_setup)
qed

lemma source_name_rep:
  assumes "es_rep mem C T sz st p lg xs" "i < EVENT_SOURCE_SIZE"
  shows "\<exists>st'. source_name st i = Some (st', T (snd (EVENT_SOURCE_SETUP ! unat i)))
     \<and> es_rep mem C T sz st' p lg xs \<and> cfg_only st st'"
proof -
  have n: "unat i < 16" using assms(2) by (simp add: word_less_nat_alt)
  from es_cfg_read_rep [OF assms(1) event_setup_nth(5) [OF n]] obtain st' where
    "es_cfg_read st (snd (EVENT_SOURCE_SETUP ! unat i)) = Some (st', True, T (snd (EVENT_SOURCE_SETUP ! unat i)))"
    "es_rep mem C T sz st' p lg xs" "cfg_only st st'" by blast
  then show ?thesis using assms(2) n event_setup_nth(4) [OF n]
    by (simp add: source_name_def length_event_setup)
qed

subsection \<open>The steps of processing one event\<close>

lemma event_write_reliable:
  assumes "flash_reliable (st_dev st)" "unat off + length src \<le> 0x80000"
  shows "snd (storage_write_event st off src)"
proof -
  have "unat (ADDR_EVENT_MEM + off) = 0x120000 + unat off" using region_unat [OF assms(2), of "0x120000"] by simp
  then show ?thesis using assms region_sum [OF assms(2)]
    by (simp add: storage_write_event_def word_less_nat_alt dev_write_def flash_write_data_def Let_def
        flash_reliable_def split_def)
qed

lemma es_log_store_rep:
  assumes R: "es_rep mem C T sz st p lg xs" and C: "ee_codec env = C"
  shows "\<exists>st'. es_log_store env st e = Some st' \<and> es_rep mem C T sz st' (slot_next p) (e # lg) xs
     \<and> (\<exists>ptr. cfg_only (st\<lparr>es_em_ptr := ptr\<rparr>) st')"
proof -
  have ok: "codec_ok C" and S: "cfg_sound mem (es_cfg st)" and log: "em_log mem C (em_of st) p lg"
    using R by (auto simp: es_rep_def)
  have p: "p < 8192" and ptr: "es_em_ptr st = slot_ptr p" and lw: "flash_lawful mem (st_dev (cf_store (es_cfg st)))"
    using em_logD(1-3) [OF log] by auto
  obtain s r where w: "storage_write_event (cf_store (es_cfg st)) (slot_ptr p) (ec_enc C e) = (s, r)" by fastforce
  have len: "length (ec_enc C e) \<le> 64" using ok codec_size [OF ok] by (simp add: codec_ok_def)
  have fit: "unat (slot_ptr p) + length (ec_enc C e) \<le> 0x80000" using len p by simp
  have r using event_write_reliable [OF _ fit, of "cf_store (es_cfg st)"] S w by (simp add: cfg_sound_def)
  note wa = event_region.write_at [OF lw fit w]
  have "slot_ptr p \<le> 0x7FFC0" using p by (simp add: word_le_nat_alt)
  then have run: "event_memory_store C (em_of st) e = Some ((em_of st)\<lparr>em_ptr := slot_ptr (slot_next p), em_st := s\<rparr>, r)"
    using w p by (simp add: event_memory_store_def Let_def ptr ptr_inc_slot)
  with store_log [OF ok log, of e] \<open>r\<close>
  have log': "em_log mem C ((em_of st)\<lparr>em_ptr := slot_ptr (slot_next p), em_st := s\<rparr>) (slot_next p) (e # lg)" by auto
  define cf where "cf = (es_cfg st)\<lparr>cf_store := s\<rparr>"
  define st' where "st' = st\<lparr>es_em_ptr := slot_ptr (slot_next p), es_sys := (es_sys st)\<lparr>sy_cfg := cf\<rparr>\<rparr>"
  have "es_log_store env st e = Some st'"
    using run C unfolding es_log_store_def em_of_def [symmetric] by (simp add: st'_def cf_def)
  moreover have same: "st_same (cf_store (es_cfg st)) (cf_store cf)" using wa(2) by (simp add: cf_def)
  have keep: "st_mem mem (cf_store cf) i = st_mem mem (cf_store (es_cfg st)) i" if "i < 0x20000" for i
    using wa(5) [of i] that by (simp add: cf_def)
  note cfg_keep [OF S same keep]
  moreover have "em_log mem C (em_of st') (slot_next p) (e # lg)"
    using log' by (simp add: em_log_def st'_def cf_def)
  ultimately have "es_rep mem C T sz st' (slot_next p) (e # lg) xs" using R
    by (simp add: es_rep_def st'_def)
  moreover have "cfg_only (st\<lparr>es_em_ptr := slot_ptr (slot_next p)\<rparr>) st'" by (auto simp: cfg_only_def st'_def)
  ultimately show ?thesis using \<open>es_log_store env st e = Some st'\<close> by blast
qed

text \<open>The users a setup text names, and the effect of an addition on the waiting records.\<close>

fun setup_users :: "(u8 list \<Rightarrow> (int \<times> u8 list) option) \<Rightarrow> nat \<Rightarrow> u8 list \<Rightarrow> u16 list" where
  "setup_users num 0 p = []"
| "setup_users num (Suc n) [] = []"
| "setup_users num (Suc n) (c # p) =
     (if c = 83 then (case num p of Some (u, p) \<Rightarrow> word_of_int u # setup_users num n p | None \<Rightarrow> setup_users num n p)
      else if c = 86 then (case num p of Some (_, p) \<Rightarrow> setup_users num n p | None \<Rightarrow> setup_users num n p)
      else if c = 67 \<or> c = 44 then setup_users num n p
      else [])"

definition eb_put :: "u8 \<Rightarrow> 'rtc event \<Rightarrow> u16 \<Rightarrow> 'rtc eb_item list \<Rightarrow> 'rtc eb_item list" where
  "eb_put sz e user xs =
     (if user = EVENT_USER_NONE then xs
      else case eb_room sz EVENT_PRIO_STD xs of None \<Rightarrow> xs
           | Some ys \<Rightarrow> ys @ [it_core (new_item e EVENT_PRIO_STD user 0)])"

lemma eb_put_abs:
  assumes "eb_abs b xs"
  shows "\<exists>b' r. event_buf_add_event b (Some e) EVENT_PRIO_STD user = Some (b', r)
     \<and> eb_abs b' (eb_put (eb_size b) e user xs) \<and> eb_size b' = eb_size b"
proof (cases "user = EVENT_USER_NONE")
  case True
  then show ?thesis using assms by (intro exI [of _ b] exI [of _ False]) (simp add: event_buf_add_event_def eb_put_def)
next
  case False
  with add_abs [OF assms False, of e EVENT_PRIO_STD] show ?thesis
    by (auto simp: eb_put_def split: option.splits)
qed

lemma cms_new_event_same: "\<exists>r. cms_new_event s (Some e) = Some (s, r)"
  by (auto simp: cms_new_event_def event_buf_add_event_def)

lemma event_setup_run_rep:
  assumes "eb_abs (es_sms st) xs" "eb_size (es_sms st) = sz"
  shows "\<exists>b. event_setup_run env e n p st = Some (st\<lparr>es_sms := b\<rparr>) \<and> eb_size b = sz
     \<and> eb_abs b (fold (eb_put sz e) (setup_users (ee_number env) n p) xs)"
  using assms
proof (induction env e n p st arbitrary: xs rule: event_setup_run.induct)
  case (1 env e p st)
  then show ?case by (intro exI [of _ "es_sms st"]) simp
next
  case (2 env e limit st)
  then show ?case by (intro exI [of _ "es_sms st"]) simp
next
  case (3 env e limit c p st)
  consider (S) u q where "c = 83" "ee_number env p = Some (u, q)" | (S_none) "c = 83" "ee_number env p = None"
    | (V) u q where "c = 86" "ee_number env p = Some (u, q)" | (V_none) "c = 86" "ee_number env p = None"
    | (cms) "c = 67" | (comma) "c = 44" | (other) "c \<notin> {83, 86, 67, 44}"
    by (cases "ee_number env p") auto
  then show ?case
  proof cases
    case S
    from eb_put_abs [OF "3.prems"(1), of e "word_of_int u"] "3.prems"(2) obtain b r where
      b: "event_buf_add_event (es_sms st) (Some e) EVENT_PRIO_STD (word_of_int u) = Some (b, r)"
        "eb_abs b (eb_put sz e (word_of_int u) xs)" "eb_size b = sz" by auto
    with "3.IH"(2) [OF S refl b(1) refl, of "eb_put sz e (word_of_int u) xs"] S show ?thesis by simp
  next
    case cms
    obtain r where "cms_new_event (es_cms st) (Some e) = Some (es_cms st, r)" using cms_new_event_same by blast
    with "3.IH"(5) [of "(es_cms st, r)" "es_cms st" r xs] cms "3.prems" show ?thesis by simp
  next
    case other
    then show ?thesis using "3.prems" by (intro exI [of _ "es_sms st"]) simp
  qed (use "3.IH" "3.prems" in auto)
qed

subsection \<open>The alarm system\<close>

text \<open>Processing an event reads and changes neither the ring nor the configuration.\<close>

definition sys_with :: "('f, rtc) sys \<Rightarrow> 'f cfg_st \<Rightarrow> rtc event_q \<Rightarrow> ('f, rtc) sys" where
  "sys_with y cf q = y\<lparr>sy_cfg := cf, sy_q := q\<rparr>"

lemma sys_with_self [simp]: "sys_with y (sy_cfg y) (sy_q y) = y"
  by (simp add: sys_with_def)

lemma system_event_with:
  "system_event env (sys_with y cf q) e = map_option (\<lambda>y. sys_with y cf q) (system_event env y e)"
proof -
  have io: "system_io_activate env (sys_with y cf q) b = map_option (\<lambda>y. sys_with y cf q) (system_io_activate env y b)"
    for y b by (cases "out_update (sense env) (sy_io y OR b) (sy_out y)") (simp_all add: system_io_activate_def sys_with_def Let_def)
  have al: "(sys_with y cf q)\<lparr>sy_alarm := f\<rparr> = sys_with (y\<lparr>sy_alarm := f\<rparr>) cf q" "sy_alarm (sys_with y cf q) = sy_alarm y"
    "do_act a (sys_with y cf q) = sys_with (do_act a y) cf q" for f y a
    by (simp_all add: sys_with_def do_act_def)
  have "siren_on env (sys_with y cf q) = map_option (\<lambda>y. sys_with y cf q) (siren_on env y)" for y
    by (simp add: siren_on_def al io)
  then have "alarm_trigger env (sys_with y cf q) = map_option (\<lambda>y. sys_with y cf q) (alarm_trigger env y)" for y
    by (simp add: alarm_trigger_def al Let_def)
  then show ?thesis by (simp add: system_event_def al)
qed

lemma system_event_run:
  assumes "sys_inv y"
  shows "\<exists>z. system_event env y e = Some z \<and> sys_inv z"
  using sys_step_inv [OF assms, of "Sys_event e" env] by (simp add: op_ok_def)

lemma system_event_keeps:
  fixes y z :: "('f, rtc) sys"
  assumes "system_event env y e = Some z"
  shows "sy_cfg z = sy_cfg y" "sy_q z = sy_q y"
proof -
  have "map_option (\<lambda>z. sys_with z (sy_cfg y) (sy_q y)) (Some z) = Some z"
    using assms system_event_with [of env y "sy_cfg y" "sy_q y" e] by simp
  then have "sys_with z (sy_cfg y) (sy_q y) = z" by simp
  then show "sy_cfg z = sy_cfg y" "sy_q z = sy_q y"
    by (metis sys_with_def sys.select_convs(7,8) sys.update_convs(7,8) sys.surjective)+
qed

text \<open>
  \<open>es_sys_ok st y\<close>: the alarm system of \<open>st\<close> is \<open>y\<close>, apart from the ring and the configuration
  record, and keeps its invariant.
\<close>

definition es_sys_ok :: "'f ev_st \<Rightarrow> ('f, rtc) sys \<Rightarrow> bool" where
  "es_sys_ok st y \<longleftrightarrow> sys_inv y \<and> (\<exists>cf q. es_sys st = sys_with y cf q)"

lemma es_sys_ok_q:
  assumes "es_sys_ok st y"
  shows "es_sys_ok (st\<lparr>es_sys := (es_sys st)\<lparr>sy_q := q\<rparr>\<rparr>) y"
proof -
  obtain cf q' where "sys_inv y" "es_sys st = sys_with y cf q'" using assms by (auto simp: es_sys_ok_def)
  then have "sys_inv y \<and> (es_sys st)\<lparr>sy_q := q\<rparr> = sys_with y cf q" by (simp add: sys_with_def)
  then show ?thesis by (auto simp: es_sys_ok_def)
qed

subsection \<open>One event, and the whole ring\<close>

definition group_users :: "ev_env \<Rightarrow> (u16 \<Rightarrow> u8 list) \<Rightarrow> rtc event \<Rightarrow> u16 list" where
  "group_users env T e = setup_users (ee_number env) 30 (T (200 + ucast (et_group (EVENT_SETUP ! unat (ev_id e)))))"

definition event_ok :: "rtc event \<Rightarrow> bool" where
  "event_ok e \<longleftrightarrow> ev_id e < EVENT_ID_SIZE \<and> ev_source e < EVENT_SOURCE_SIZE"

lemma event_log_names_rep:
  assumes R: "es_rep mem C T sz st p lg xs" and e: "event_ok e"
  shows "\<exists>st'. event_log_names env e st = Some st' \<and> es_rep mem C T sz st' p lg xs \<and> cfg_only st st'"
proof (cases "ee_log env")
  case True
  have ids: "ev_id e < 16" "ev_source e < 16" using e by (auto simp: event_ok_def)
  from event_name_rep [OF R ids(1)] obtain sa where a: "event_name st (ev_id e) = Some (sa, T (et_text (EVENT_SETUP ! unat (ev_id e))))"
    "es_rep mem C T sz sa p lg xs" "cfg_only st sa" by blast
  from source_name_rep [OF a(2) ids(2)] obtain sb where
    "source_name sa (ev_source e) = Some (sb, T (snd (EVENT_SOURCE_SETUP ! unat (ev_source e))))"
    "es_rep mem C T sz sb p lg xs" "cfg_only sa sb" by blast
  with a True cfg_only_trans [of st sa sb] show ?thesis by (simp add: event_log_names_def)
qed (use R in \<open>simp add: event_log_names_def\<close>)

lemma event_process_rep:
  assumes R: "es_rep mem (ee_codec env) T sz st p lg xs" and e: "event_ok e" and y: "es_sys_ok st y"
  shows "\<exists>st' y'. event_process env e st = Some st'
     \<and> es_rep mem (ee_codec env) T sz st' (slot_next p) (e # lg) (fold (eb_put sz e) (group_users env T e) xs)
     \<and> es_q st' = es_q st \<and> es_cms st' = es_cms st \<and> es_sent st' = es_sent st
     \<and> system_event (ee_sys env) y (ev_id e) = Some y' \<and> es_sys_ok st' y'"
proof -
  have n: "unat (ev_id e) < 16" and ids: "ev_id e < 16" "ev_source e < 16"
    using e by (auto simp: event_ok_def word_less_nat_alt)
  let ?g = "200 + ucast (et_group (EVENT_SETUP ! unat (ev_id e)))"
  from es_log_store_rep [OF R refl, of e] obtain st1 ptr where
    1: "es_log_store env st e = Some st1" "es_rep mem (ee_codec env) T sz st1 (slot_next p) (e # lg) xs"
      "cfg_only (st\<lparr>es_em_ptr := ptr\<rparr>) st1" by blast
  from es_cfg_read_rep [OF 1(2) event_setup_nth(3) [OF n]] obtain st2 where
    2: "es_cfg_read st1 ?g = Some (st2, True, T ?g)" "es_rep mem (ee_codec env) T sz st2 (slot_next p) (e # lg) xs"
      "cfg_only st1 st2" by blast
  have "eb_abs (es_sms st2) xs" "eb_size (es_sms st2) = sz" using 2(2) by (auto simp: es_rep_def)
  from event_setup_run_rep [OF this, of env e 30 "T ?g"] obtain b where
    3: "event_setup_run env e 30 (T ?g) st2 = Some (st2\<lparr>es_sms := b\<rparr>)" "eb_size b = sz"
      "eb_abs b (fold (eb_put sz e) (group_users env T e) xs)" by (auto simp: group_users_def)
  define st3 where "st3 = st2\<lparr>es_sms := b\<rparr>"
  have R3: "es_rep mem (ee_codec env) T sz st3 (slot_next p) (e # lg) (fold (eb_put sz e) (group_users env T e) xs)"
    unfolding st3_def using es_rep_sms [OF 2(2) 3(3,2)] .
  obtain st4 where 4: "event_log_names env e st3 = Some st4"
      "es_rep mem (ee_codec env) T sz st4 (slot_next p) (e # lg) (fold (eb_put sz e) (group_users env T e) xs)"
      "cfg_only st3 st4"
    using event_log_names_rep [OF R3 e, of env] by blast
  have same: "es_q st4 = es_q st" "es_cms st4 = es_cms st" "es_sent st4 = es_sent st"
    using cfg_only_same [OF 1(3)] cfg_only_same [OF 2(3)] cfg_only_same [OF 4(3)] by (auto simp: st3_def)
  obtain cf where sys4: "es_sys st4 = (es_sys st)\<lparr>sy_cfg := cf\<rparr>"
    using 1(3) 2(3) 4(3) by (auto simp: cfg_only_def st3_def)
  obtain cf0 q0 where y: "sys_inv y" "es_sys st = sys_with y cf0 q0" using y by (auto simp: es_sys_ok_def)
  then have sys4': "es_sys st4 = sys_with y cf q0" using sys4 by (simp add: sys_with_def)
  from system_event_run [OF y(1), of "ee_sys env" "ev_id e"] obtain y' where
    y': "system_event (ee_sys env) y (ev_id e) = Some y'" "sys_inv y'" by blast
  have ev: "system_event (ee_sys env) (es_sys st4) (ev_id e) = Some (sys_with y' cf q0)"
    using y'(1) by (simp add: sys4' system_event_with)
  define st' where "st' = st4\<lparr>es_sys := sys_with y' cf q0\<rparr>"
  have "event_process env e st = Some st'"
    using ids n 1(1) 2(1) 3(1) 4(1) ev
    by (simp add: event_process_def length_event_setup st'_def st3_def)
  moreover have "es_rep mem (ee_codec env) T sz st' (slot_next p) (e # lg) (fold (eb_put sz e) (group_users env T e) xs)"
    unfolding st'_def using 4(2) es_rep_sys [of "sys_with y' cf q0" st4] sys4' by (simp add: sys_with_def)
  moreover have "es_q st' = es_q st" using same(1) sys4' by (simp add: st'_def sys_with_def)
  moreover have "es_sys_ok st' y'" using y'(2) by (auto simp: es_sys_ok_def st'_def)
  ultimately show ?thesis using same(2,3) y'(1) by (auto simp: st'_def)
qed

text \<open>The effect of a list of events on the waiting records.\<close>

definition put_all :: "ev_env \<Rightarrow> (u16 \<Rightarrow> u8 list) \<Rightarrow> u8 \<Rightarrow> rtc event list \<Rightarrow> rtc eb_item list \<Rightarrow> rtc eb_item list" where
  "put_all env T sz es xs = fold (\<lambda>e. fold (eb_put sz e) (group_users env T e)) es xs"

definition event_ops :: "ev_env \<Rightarrow> rtc event list \<Rightarrow> (sys_op \<times> rtc env) list" where
  "event_ops env es = map (\<lambda>e. (Sys_event (ev_id e), ee_sys env)) es"

lemma pending_empty: "event_q_wf q \<Longrightarrow> pending q = [] \<longleftrightarrow> event_q_empty q"
  using event_q_take [of q] wf_unat [of q] by (auto simp: event_q_empty_def pending_def ring_len_def split: if_splits)

lemma event_task_loop_run:
  assumes "es_rep mem (ee_codec env) T sz st p lg xs" "event_q_wf (es_q st)" "pending (es_q st) = es"
    "\<forall>e \<in> set es. event_ok e" "es_sys_ok st y"
  shows "\<exists>st' y'. event_task_loop env (eq_rd (es_q st)) st = Some st'
     \<and> es_rep mem (ee_codec env) T sz st' ((slot_next ^^ length es) p) (rev es @ lg) (put_all env T sz es xs)
     \<and> pending (es_q st') = [] \<and> es_cms st' = es_cms st \<and> es_sent st' = es_sent st
     \<and> sys_run (event_ops env es) y = Some y' \<and> es_sys_ok st' y'"
  using assms
proof (induction es arbitrary: st p lg xs y)
  case Nil
  have "eq_rd (es_q st) = eq_wr (es_q st)" using pending_empty [OF Nil(2)] Nil(3) by (simp add: event_q_empty_def)
  then have "event_task_loop env (eq_rd (es_q st)) st = Some st" by (simp add: event_task_loop.simps)
  then show ?case using Nil.prems by (auto simp: put_all_def event_ops_def)
next
  case (Cons e es)
  let ?q = "es_q st"
  have ne: "\<not> event_q_empty ?q" using pending_empty [OF Cons.prems(2)] Cons.prems(3) by simp
  from event_q_take [OF Cons.prems(2) ne] Cons.prems(3) have q: "event_q_head ?q = Some e"
    "pending (event_q_next ?q) = es" "event_q_wf (event_q_next ?q)" by auto
  from event_process_rep [OF Cons.prems(1) _ Cons.prems(5), of e] Cons.prems(4) obtain st1 y1 where
    1: "event_process env e st = Some st1"
      "es_rep mem (ee_codec env) T sz st1 (slot_next p) (e # lg) (fold (eb_put sz e) (group_users env T e) xs)"
      "es_q st1 = ?q" "es_cms st1 = es_cms st" "es_sent st1 = es_sent st"
      "system_event (ee_sys env) y (ev_id e) = Some y1" "es_sys_ok st1 y1" by auto
  define st2 where "st2 = st1\<lparr>es_sys := (es_sys st1)\<lparr>sy_q := event_q_next ?q\<rparr>\<rparr>"
  have R2: "es_rep mem (ee_codec env) T sz st2 (slot_next p) (e # lg) (fold (eb_put sz e) (group_users env T e) xs)"
    unfolding st2_def using 1(2) by (subst es_rep_sys) simp_all
  have ok2: "es_sys_ok st2 y1" unfolding st2_def using 1(7) by (rule es_sys_ok_q)
  have q2: "es_q st2 = event_q_next ?q" by (simp add: st2_def)
  from Cons.IH [OF R2 _ _ _ ok2] q Cons.prems(4) obtain st' y' where
    2: "event_task_loop env (eq_rd (es_q st2)) st2 = Some st'"
      "es_rep mem (ee_codec env) T sz st' ((slot_next ^^ length es) (slot_next p)) (rev es @ e # lg)
         (put_all env T sz es (fold (eb_put sz e) (group_users env T e) xs))"
      "pending (es_q st') = []" "es_cms st' = es_cms st2" "es_sent st' = es_sent st2"
      "sys_run (event_ops env es) y1 = Some y'" "es_sys_ok st' y'" by (auto simp: q2)
  have "event_task_loop env (eq_rd ?q) st = event_task_loop env (eq_rd (es_q st2)) st2"
    using ne q(1) 1(1,3) by (subst event_task_loop.simps)
      (simp add: event_q_empty_def Let_def st2_def event_q_next_def)
  then show ?case using 1 2 by (auto simp: put_all_def event_ops_def funpow_swap1 st2_def)
qed

end
