(* ===== verification/EventTaskProps.thy ===== *)
theory EventTaskProps
  imports EventTaskRun
begin

text \<open>
  The reports of waiting events, and the properties of the two event tasks: \<open>event_task\<close> empties
  the ring into the log and the buffers, \<open>event_comm_task\<close> reports the events of one user.
\<close>

unbundle bit_operations_syntax

subsection \<open>A report\<close>

definition report_line :: "ev_env \<Rightarrow> (u16 \<Rightarrow> u8 list) \<Rightarrow> u8 list \<Rightarrow> rtc event \<Rightarrow> u8 list" where
  "report_line env T buf e =
     (let add = bf_append (ee_buf env)
      in add (add (add (add (add buf (fmt_time (ee_now env) (ev_time e))) [32]) (T (et_text (EVENT_SETUP ! unat (ev_id e)))))
           (str '', '')) (T (snd (EVENT_SOURCE_SETUP ! unat (ev_source e)))))"

definition report_next :: "ev_env \<Rightarrow> (u16 \<Rightarrow> u8 list) \<Rightarrow> rtc eb_item \<Rightarrow> u8 list \<Rightarrow> u8 list" where
  "report_next env T c buf = report_line env T (bf_append (ee_buf env) buf (59 # ee_nl env)) (it_event c)"

lemma buf_add_event_rep:
  assumes R: "es_rep mem C T sz st p lg xs" and e: "event_ok e"
  shows "\<exists>st'. buf_add_event env st buf e = Some (st', report_line env T buf e)
     \<and> es_rep mem C T sz st' p lg xs \<and> cfg_only st st'"
proof -
  have ids: "ev_id e < 16" "ev_source e < 16" using e by (auto simp: event_ok_def)
  from event_name_rep [OF R ids(1)] obtain sa where a: "event_name st (ev_id e) = Some (sa, T (et_text (EVENT_SETUP ! unat (ev_id e))))"
    "es_rep mem C T sz sa p lg xs" "cfg_only st sa" by blast
  from source_name_rep [OF a(2) ids(2)] obtain sb where
    "source_name sa (ev_source e) = Some (sb, T (snd (EVENT_SOURCE_SETUP ! unat (ev_source e))))"
    "es_rep mem C T sz sb p lg xs" "cfg_only sa sb" by blast
  with a cfg_only_trans [of st sa sb] show ?thesis by (simp add: buf_add_event_def report_line_def Let_def)
qed

text \<open>The ready records of a user, and the queue with all of them handed out.\<close>

definition ready_of :: "u16 \<Rightarrow> 'rtc eb_item list \<Rightarrow> 'rtc eb_item list" where
  "ready_of u xs = filter (\<lambda>c. item_ready c \<and> it_user c = u) xs"

definition hand_out :: "u16 \<Rightarrow> 'rtc eb_item list \<Rightarrow> 'rtc eb_item list" where
  "hand_out u xs = map (\<lambda>c. if item_ready c \<and> it_user c = u then taken c else c) xs"

lemma taken_not_ready [simp]: "\<not> item_ready (taken c)" "it_user (taken c) = it_user c"
proof -
  have "bits4 (it_flag c OR EVENT_BUF_FLAG_PROCESSING) AND EVENT_BUF_FLAG_PROCESSING \<noteq> 0"
    by (simp add: bits4_def u8_bits bit_simps)
  then show "\<not> item_ready (taken c)" by (auto simp: item_ready_def taken_def in_comm_def u8_bits bit_simps)
  show "it_user (taken c) = it_user c" by (simp add: taken_def)
qed

lemma get_list_user:
  assumes "u \<noteq> EVENT_USER_NONE"
  shows "case get_list u xs of
      None \<Rightarrow> ready_of u xs = [] \<and> hand_out u xs = xs
    | Some (c, xs') \<Rightarrow> it_user c = u \<and> ready_of u xs = c # ready_of u xs' \<and> hand_out u xs = hand_out u xs'"
  using assms by (induction xs) (auto simp: ready_of_def hand_out_def taken_def [symmetric] split: option.splits)

lemma get_user:
  assumes R: "es_rep mem C T sz st p lg xs" and u: "u \<noteq> EVENT_USER_NONE"
  shows "\<exists>b g. event_buf_get_event (es_sms st) (Some u) = Some (b, g)
     \<and> (case ready_of u xs of
          [] \<Rightarrow> \<not> gt_found g \<and> es_rep mem C T sz (st\<lparr>es_sms := b\<rparr>) p lg xs \<and> hand_out u xs = xs
        | c # cs \<Rightarrow> gt_found g \<and> gt_event g = Some (it_event c) \<and> gt_user g = u
            \<and> (\<exists>ys. es_rep mem C T sz (st\<lparr>es_sms := b\<rparr>) p lg ys \<and> ready_of u ys = cs \<and> hand_out u ys = hand_out u xs))"
proof -
  have abs: "eb_abs (es_sms st) xs" "eb_size (es_sms st) = sz" using R by (auto simp: es_rep_def)
  from get_abs [OF abs(1), of u] obtain b g where g: "event_buf_get_event (es_sms st) (Some u) = Some (b, g)"
    "eb_size b = sz" "case get_list u xs of None \<Rightarrow> \<not> gt_found g \<and> eb_abs b xs
        | Some (c, xs') \<Rightarrow> g = \<lparr>gt_event = Some (it_event c), gt_user = it_user c,
              gt_prio = Some (it_prio c), gt_found = True\<rparr> \<and> eb_abs b xs'"
    unfolding abs(2) by blast
  show ?thesis
  proof (cases "get_list u xs")
    case None
    then show ?thesis using g get_list_user [OF u, of xs] es_rep_sms [OF R _ g(2)] by auto
  next
    case (Some r)
    then obtain c xs' where r: "get_list u xs = Some (c, xs')" by (cases r) auto
    then have "eb_abs b xs'" "g = \<lparr>gt_event = Some (it_event c), gt_user = it_user c,
              gt_prio = Some (it_prio c), gt_found = True\<rparr>" using g(3) by auto
    moreover have "it_user c = u" "ready_of u xs = c # ready_of u xs'" "hand_out u xs = hand_out u xs'"
      using get_list_user [OF u, of xs] r by auto
    ultimately show ?thesis using g(1) es_rep_sms [OF R _ g(2), of xs'] by auto
  qed
qed

text \<open>Two states that differ in the configuration record and the buffer of messages.\<close>

definition comm_only :: "'f ev_st \<Rightarrow> 'f ev_st \<Rightarrow> bool" where
  "comm_only st st' \<longleftrightarrow> (\<exists>b. cfg_only (st\<lparr>es_sms := b\<rparr>) st')"

lemma comm_only_sms [simp]: "comm_only st (st\<lparr>es_sms := b\<rparr>)"
  unfolding comm_only_def using cfg_only_refl by blast

lemma comm_only_trans: "comm_only a b \<Longrightarrow> comm_only b c \<Longrightarrow> comm_only a c"
proof -
  assume "comm_only a b" "comm_only b c"
  then obtain x y cf cf' where "b = (a\<lparr>es_sms := x\<rparr>)\<lparr>es_sys := (es_sys a)\<lparr>sy_cfg := cf\<rparr>\<rparr>"
    "c = (b\<lparr>es_sms := y\<rparr>)\<lparr>es_sys := (es_sys b)\<lparr>sy_cfg := cf'\<rparr>\<rparr>" by (auto simp: comm_only_def cfg_only_def)
  then have "c = (a\<lparr>es_sms := y\<rparr>)\<lparr>es_sys := (es_sys a)\<lparr>sy_cfg := cf'\<rparr>\<rparr>" by simp
  then show ?thesis unfolding comm_only_def cfg_only_def by auto
qed

lemma comm_only_cfg: "cfg_only st st' \<Longrightarrow> comm_only st st'"
proof -
  have "st\<lparr>es_sms := es_sms st\<rparr> = st" by simp
  then show "cfg_only st st' \<Longrightarrow> comm_only st st'" unfolding comm_only_def by metis
qed

lemma comm_only_same: "comm_only st st' \<Longrightarrow> es_em_ptr st' = es_em_ptr st \<and> es_cms st' = es_cms st
   \<and> es_sent st' = es_sent st \<and> es_q st' = es_q st"
  unfolding comm_only_def using cfg_only_same by fastforce

lemma event_collect_run:
  assumes "es_rep mem C T sz st p lg xs" "u \<noteq> EVENT_USER_NONE"
    "ready_of u xs = cs" "\<forall>c \<in> set cs. event_ok (it_event c)"
  shows "\<exists>st'. event_collect env u buf st = Some (st', fold (report_next env T) cs buf)
     \<and> es_rep mem C T sz st' p lg (hand_out u xs) \<and> comm_only st st'"
  using assms
proof (induction cs arbitrary: st xs buf)
  case Nil
  from get_user [OF Nil.prems(1,2)] obtain b g where
    "event_buf_get_event (es_sms st) (Some u) = Some (b, g)" "\<not> gt_found g"
    "es_rep mem C T sz (st\<lparr>es_sms := b\<rparr>) p lg (hand_out u xs)" by (auto simp: Nil.prems(3))
  then show ?case by (subst event_collect.simps) (auto simp: Let_def)
next
  case (Cons c cs)
  from get_user [OF Cons.prems(1,2)] obtain b g ys where
    1: "event_buf_get_event (es_sms st) (Some u) = Some (b, g)" "gt_found g"
      "gt_event g = Some (it_event c)" "gt_user g = u"
      "es_rep mem C T sz (st\<lparr>es_sms := b\<rparr>) p lg ys" "ready_of u ys = cs" "hand_out u ys = hand_out u xs"
    by (auto simp: Cons.prems(3))
  have "event_ok (it_event c)" using Cons.prems(4) by simp
  from buf_add_event_rep [OF 1(5) this, of env "bf_append (ee_buf env) buf (59 # ee_nl env)"] obtain st1 where
    2: "buf_add_event env (st\<lparr>es_sms := b\<rparr>) (bf_append (ee_buf env) buf (59 # ee_nl env)) (it_event c)
        = Some (st1, report_next env T c buf)"
      "es_rep mem C T sz st1 p lg ys" "cfg_only (st\<lparr>es_sms := b\<rparr>) st1" by (auto simp: report_next_def)
  from Cons.IH [OF 2(2) Cons.prems(2) 1(6), of "report_next env T c buf"] Cons.prems(4) obtain st' where
    3: "event_collect env u (report_next env T c buf) st1 = Some (st', fold (report_next env T) cs (report_next env T c buf))"
      "es_rep mem C T sz st' p lg (hand_out u xs)" "comm_only st1 st'" by (auto simp: 1(7))
  have "comm_only st st'" using comm_only_trans [OF comm_only_sms comm_only_trans [OF comm_only_cfg [OF 2(3)] 3(3)]] .
  with 1 2(1) 3 show ?case by (subst event_collect.simps) (simp add: Let_def)
qed

lemma done_hand_out:
  assumes "\<forall>c \<in> set xs. waiting c \<or> handed c"
  shows "List.map_filter (done_item True) (hand_out u xs) = filter (\<lambda>c. waiting c \<and> it_user c \<noteq> u) xs"
  using assms
proof (induction xs)
  case (Cons c xs)
  then have "waiting c \<and> item_ready c \<and> \<not> handed c \<or> handed c \<and> \<not> item_ready c \<and> \<not> waiting c"
    using waiting_ready handed_not_ready by fastforce
  then show ?case using Cons
    by (auto simp: hand_out_def done_waiting done_taken done_handed map_filter_simps)
qed (simp add: hand_out_def map_filter_simps)

lemma ready_of_waiting:
  assumes "\<forall>c \<in> set xs. waiting c \<or> handed c"
  shows "ready_of u xs = filter (\<lambda>c. waiting c \<and> it_user c = u) xs"
  unfolding ready_of_def using assms waiting_ready handed_not_ready by (intro filter_cong) fastforce+

text \<open>The message for the first record and the others of its user.\<close>

fun report_text :: "ev_env \<Rightarrow> (u16 \<Rightarrow> u8 list) \<Rightarrow> rtc eb_item list \<Rightarrow> u8 list" where
  "report_text env T [] = []"
| "report_text env T (c # cs) =
     fold (report_next env T) cs (report_line env T (bf_append (ee_buf env) [] (T CFG_ID_DEVICE_NAME)) (it_event c))"

subsection \<open>Properties\<close>

text \<open>C5: \<open>event_task\<close> always returns, without a failed assertion, on a working flash with
terminated configuration texts: the ring is empty afterwards, every pending event is in the event log, in
order, every event waits once for each user the setup text of its group names (while the buffer has
room, with the replacement rule of the buffer), the alarm system has processed each event, and
nothing else has changed; no event reaches the security center.\<close>

theorem event_task_drains:
  assumes "es_rep mem (ee_codec env) T sz st p lg xs" "sys_inv (es_sys st)"
    and "\<forall>e \<in> set (pending (es_q st)). event_ok e"
  shows "\<exists>st' y. event_task env st = Some st' \<and> pending (es_q st') = []
     \<and> es_rep mem (ee_codec env) T sz st' ((slot_next ^^ length (pending (es_q st))) p)
         (rev (pending (es_q st)) @ lg) (put_all env T sz (pending (es_q st)) xs)
     \<and> es_cms st' = es_cms st \<and> es_sent st' = es_sent st
     \<and> sys_run (event_ops env (pending (es_q st))) (es_sys st) = Some y
     \<and> es_sys st' = y\<lparr>sy_cfg := es_cfg st', sy_q := es_q st'\<rparr>"
proof -
  have wf: "event_q_wf (es_q st)" using assms(2) by (simp add: sys_inv_def sys_wf_def)
  have "es_sys_ok st (es_sys st)" unfolding es_sys_ok_def using assms(2) sys_with_self by metis
  from event_task_loop_run [OF assms(1) wf refl assms(3) this] obtain st' y where
    "event_task_loop env (eq_rd (es_q st)) st = Some st'"
    "es_rep mem (ee_codec env) T sz st' ((slot_next ^^ length (pending (es_q st))) p)
       (rev (pending (es_q st)) @ lg) (put_all env T sz (pending (es_q st)) xs)"
    "pending (es_q st') = []" "es_cms st' = es_cms st" "es_sent st' = es_sent st"
    "sys_run (event_ops env (pending (es_q st))) (es_sys st) = Some y" "es_sys_ok st' y" by blast
  moreover from this(7) have "es_sys st' = y\<lparr>sy_cfg := es_cfg st', sy_q := es_q st'\<rparr>"
    by (auto simp: es_sys_ok_def sys_with_def)
  moreover have "eq_wr (es_q st) < 32" using wf by (simp add: event_q_wf_def)
  ultimately show ?thesis by (auto simp: event_task_def)
qed

subsubsection \<open>A concrete unit\<close>

text \<open>A codec of twelve bytes, a flash that holds the setup text \<open>S1\<close> for alarms, and one alarm event.\<close>

definition ex_rtc_codec :: "rtc ev_codec" where
  "ex_rtc_codec = \<lparr>ec_enc = \<lambda>e. [ucast (drop_bit 24 (ev_cnt e)), ucast (drop_bit 16 (ev_cnt e)),
        ucast (drop_bit 8 (ev_cnt e)), ucast (ev_cnt e), ev_id e, ev_source e,
        rtc_year (ev_time e), rtc_month (ev_time e), rtc_day (ev_time e),
        rtc_hour (ev_time e), rtc_minute (ev_time e), rtc_second (ev_time e)],
     ec_dec = \<lambda>bs. \<lparr>ev_cnt = push_bit 24 (ucast (bs ! 0)) OR push_bit 16 (ucast (bs ! 1))
                        OR push_bit 8 (ucast (bs ! 2)) OR ucast (bs ! 3),
        ev_time = \<lparr>rtc_year = bs ! 6, rtc_month = bs ! 7, rtc_day = bs ! 8,
                   rtc_hour = bs ! 9, rtc_minute = bs ! 10, rtc_second = bs ! 11\<rparr>,
        ev_id = bs ! 4, ev_source = bs ! 5\<rparr>,
     ec_size = 12, ec_rtc_valid = \<lambda>_. True\<rparr>"

lemma ex_rtc_codec_ok: "codec_ok ex_rtc_codec"
proof -
  have "ec_dec ex_rtc_codec (ec_enc ex_rtc_codec e) = e" for e
    by (cases e) (simp add: ex_rtc_codec_def u32_bytes)
  then show ?thesis by (auto simp: codec_ok_def) (simp_all add: ex_rtc_codec_def)
qed

definition ex_alarm :: "rtc event" where
  "ex_alarm = \<lparr>ev_cnt = 1, ev_time = \<lparr>rtc_year = 24, rtc_month = 5, rtc_day = 7, rtc_hour = 8,
     rtc_minute = 9, rtc_second = 10\<rparr>, ev_id = EVENT_ID_ALARM, ev_source = EVENT_SOURCE_DOOR\<rparr>"

definition ex_ev_env :: ev_env where
  "ex_ev_env = \<lparr>ee_codec = ex_rtc_codec,
     ee_sys = \<lparr>en_now = 0, en_rtc = ev_time ex_alarm, en_second = 1, en_lock_in = False, en_unlock_in = False\<rparr>,
     ee_number = (\<lambda>s. case s of [] \<Rightarrow> None | c # r \<Rightarrow> Some (uint c - 48, r)), ee_log = True,
     ee_now = ev_time ex_alarm, ee_alloc = True, ee_buf = list_buf, ee_tel_buf = list_buf,
     ee_phone_ok = (\<lambda>t. True), ee_nl = [13, 10]\<rparr>"

definition ex_sms_buf :: "rtc event_buf" where
  "ex_sms_buf = the (event_buf_init (replicate 20 (new_item ex_alarm 0 0 0)) 20)"

definition ex_ev_st :: "(nat \<Rightarrow> u8) cfg_st \<Rightarrow> cms_st \<Rightarrow> (nat \<Rightarrow> u8) ev_st" where
  "ex_ev_st cf cms = \<lparr>es_sys = \<lparr>sy_io = 0, sy_int = 0, sy_sect = ex_section SECTION_ST_SET, sy_inps = system_input_init,
       sy_alarm = \<lparr>al_state = ALARM_IDLE, al_siren_state = False, al_siren_tmr = 0, al_alarm_tmr = 0, al_cnt = 0\<rparr>,
       sy_out = ex_out, sy_q = \<lparr>eq_buf = replicate 32 ex_alarm, eq_rd = 0, eq_wr = 1, eq_cnt = 1\<rparr>,
       sy_cfg = cf, sy_acts = []\<rparr>,
     es_em_ptr = slot_ptr 0, es_sms = ex_sms_buf, es_cms = cms, es_sent = []\<rparr>"

lemma ex_sms_buf: "eb_abs ex_sms_buf []" "eb_size ex_sms_buf = 20"
  using init_abs [of 20 "replicate 20 (new_item ex_alarm 0 0 0)"] by (auto simp: ex_sms_buf_def)

lemma ex_ev_st_inv: "sys_inv (es_sys (ex_ev_st cf cms))"
  by (simp add: sys_inv_def siren_ok_def sys_wf_def ex_ev_st_def inps_wf_init ex_out_wf section_wf_def
      ex_section_def event_q_wf_def)

lemma ex_pending: "pending (es_q (ex_ev_st cf cms)) = [ex_alarm]"
  by (simp add: pending_def ex_ev_st_def ring_len_def ring_at_def)

lemma ex_setup_written:
  obtains cf where "cfg_sound id cf" "cfg_text id cf 200 = str ''S1''"
    "\<And>i. i \<noteq> 200 \<Longrightarrow> cfg_text id cf i = (case table_get i of Some t \<Rightarrow> ct_data t | None \<Rightarrow> [])"
proof -
  have "cfg_table_access_write 200 ACCESS_ADMIN" by code_simp
  from cfg_write_text [OF ex_blank_sound this, of "str ''S1''"] show ?thesis
    using that by (auto simp: str_def ex_blank_text)
qed

lemma ex_rep:
  assumes "cfg_sound id cf"
  shows "es_rep id ex_rtc_codec (cfg_text id cf) 20 (ex_ev_st cf cms) 0 [] []"
  using assms by (simp add: es_rep_def ex_rtc_codec_ok ex_sms_buf ex_ev_st_def em_log_def cfg_sound_def)

text \<open>The alarm waits for user 1 afterwards.\<close>

definition ex_waiting :: "rtc eb_item" where
  "ex_waiting = it_core (new_item ex_alarm EVENT_PRIO_STD 1 0)"

lemma ex_put:
  assumes "cfg_text id cf 200 = str ''S1''"
  shows "put_all ex_ev_env (cfg_text id cf) 20 [ex_alarm] [] = [ex_waiting]"
proof -
  have "200 + ucast (et_group (EVENT_SETUP ! unat (ev_id ex_alarm))) = (200 :: u16)" by code_simp
  then have "group_users ex_ev_env (cfg_text id cf) ex_alarm = setup_users (ee_number ex_ev_env) 30 (str ''S1'')"
    using assms by (simp add: group_users_def)
  also have "\<dots> = [1]" by code_simp
  finally show ?thesis by (simp add: put_all_def eb_put_def eb_room_def ex_waiting_def)
qed

lemma ex_event_ok: "event_ok ex_alarm" "ee_codec ex_ev_env = ex_rtc_codec" "ee_alloc ex_ev_env"
  by (simp_all add: event_ok_def ex_alarm_def ex_ev_env_def)

theorem event_task_drains_witness:
  "\<exists>cf T. \<forall>cms. \<exists>st'. event_task ex_ev_env (ex_ev_st cf cms) = Some st' \<and> pending (es_q st') = []
     \<and> es_rep id ex_rtc_codec T 20 st' (slot_next 0) [ex_alarm] [ex_waiting]"
proof -
  from ex_setup_written obtain cf where cf: "cfg_sound id cf" "cfg_text id cf 200 = str ''S1''" by blast
  have "\<exists>st'. event_task ex_ev_env (ex_ev_st cf cms) = Some st' \<and> pending (es_q st') = []
     \<and> es_rep id ex_rtc_codec (cfg_text id cf) 20 st' (slot_next 0) [ex_alarm] [ex_waiting]" for cms
    using event_task_drains [of id ex_ev_env "cfg_text id cf" 20 "ex_ev_st cf cms" 0 "[]" "[]"]
      ex_rep [OF cf(1), of cms] ex_ev_st_inv ex_event_ok ex_pending ex_put [OF cf(2)] by auto
  then show ?thesis by blast
qed

text \<open>The rest of the queue once the first waiting record is handed out.\<close>

lemma hand_out_first:
  assumes "\<forall>c \<in> set xs. waiting c \<or> handed c" "dropWhile handed xs = c # zs"
  defines "ys \<equiv> takeWhile handed xs @ taken c # zs"
  shows "waiting c" "c \<in> set xs" "ready_of (it_user c) xs = c # ready_of (it_user c) ys"
    "hand_out (it_user c) ys = hand_out (it_user c) xs"
proof -
  have xs: "xs = takeWhile handed xs @ c # zs" using assms(2) by (metis takeWhile_dropWhile_id)
  have c: "\<not> handed c" using assms(2) by (metis hd_dropWhile list.distinct(1) list.sel(1))
  show "c \<in> set xs" by (subst xs) simp
  then show w: "waiting c" using c assms(1) by blast
  have none: "filter (\<lambda>d. item_ready d \<and> it_user d = it_user c) (takeWhile handed xs) = []"
    using handed_not_ready(1) set_takeWhileD by (fastforce simp: filter_empty_conv)
  show "ready_of (it_user c) xs = c # ready_of (it_user c) ys"
    by (subst xs) (simp add: ready_of_def ys_def none waiting_ready [OF w])
  show "hand_out (it_user c) ys = hand_out (it_user c) xs"
    unfolding arg_cong [OF xs, of "hand_out (it_user c)"] by (simp add: hand_out_def ys_def waiting_ready [OF w])
qed

text \<open>A setup text may name a user above 3: the report then fails the assertion of
\<open>sms_send_to_user\<close>.\<close>

lemma sms_send_to_user_stops: "4 \<le> user \<Longrightarrow> sms_send_to_user env st user data = None"
  by (auto simp: sms_send_to_user_def os_assert_def not_less [symmetric])

lemma user_phone_in_table:
  assumes "u < (4 :: u16)"
  shows "table_get (CFG_ID_USER1_PHONE + u) \<noteq> None" "u \<noteq> EVENT_USER_NONE"
proof -
  have "unat u < 4" using assms by (simp add: word_less_nat_alt)
  then have "unat u \<in> {0, 1, 2, 3}" by auto
  then have "u \<in> {0, 1, 2, 3}" by (auto simp: word_unat_eq_iff)
  then have "CFG_ID_USER1_PHONE + u \<in> {101, 102, 103, 104}" by auto
  then show "table_get (CFG_ID_USER1_PHONE + u) \<noteq> None" using event_ids_in_table unfolding table_get_iff by auto
  show "u \<noteq> EVENT_USER_NONE" using assms by auto
qed

text \<open>The report of one user, from the state with the first record handed out.\<close>

lemma report_run:
  assumes R1: "es_rep mem (ee_codec env) T sz st1 p lg ys"
    and u: "u < 4" and c: "event_ok e"
    and ok: "\<forall>d \<in> set (ready_of u ys). event_ok (it_event d)"
    and shape: "hand_out u ys = hand_out u xs" "\<forall>d \<in> set xs. waiting d \<or> handed d"
  shows "\<exists>st2 st3 st4 st5 b'. es_cfg_read st1 CFG_ID_DEVICE_NAME = Some (st2, True, T CFG_ID_DEVICE_NAME)
     \<and> buf_add_event env st2 (bf_append (ee_buf env) [] (T CFG_ID_DEVICE_NAME)) e
         = Some (st3, report_line env T (bf_append (ee_buf env) [] (T CFG_ID_DEVICE_NAME)) e)
     \<and> event_collect env u (report_line env T (bf_append (ee_buf env) [] (T CFG_ID_DEVICE_NAME)) e) st3
         = Some (st4, fold (report_next env T) (ready_of u ys)
             (report_line env T (bf_append (ee_buf env) [] (T CFG_ID_DEVICE_NAME)) e))
     \<and> es_cfg_read st4 (CFG_ID_USER1_PHONE + u) = Some (st5, True, T (CFG_ID_USER1_PHONE + u))
     \<and> event_buf_done_events (es_sms st5) True = Some b' \<and> es_sent st5 = es_sent st1
     \<and> (\<forall>sent. es_rep mem (ee_codec env) T sz (st5\<lparr>es_sent := sent, es_sms := b'\<rparr>) p lg
          (filter (\<lambda>d. waiting d \<and> it_user d \<noteq> u) xs))"
proof -
  define t0 where "t0 = bf_append (ee_buf env) [] (T CFG_ID_DEVICE_NAME)"
  from es_cfg_read_rep [OF R1, of CFG_ID_DEVICE_NAME] event_ids_in_table obtain st2 where
    2: "es_cfg_read st1 CFG_ID_DEVICE_NAME = Some (st2, True, T CFG_ID_DEVICE_NAME)"
      "es_rep mem (ee_codec env) T sz st2 p lg ys" "cfg_only st1 st2"
    unfolding table_get_iff by auto
  from buf_add_event_rep [OF 2(2) c, of env t0] obtain st3 where
    3: "buf_add_event env st2 t0 e = Some (st3, report_line env T t0 e)"
      "es_rep mem (ee_codec env) T sz st3 p lg ys" "cfg_only st2 st3" by blast
  from event_collect_run [OF 3(2) user_phone_in_table(2) [OF u] refl ok, of env "report_line env T t0 e"] obtain st4 where
    4: "event_collect env u (report_line env T t0 e) st3
          = Some (st4, fold (report_next env T) (ready_of u ys) (report_line env T t0 e))"
      "es_rep mem (ee_codec env) T sz st4 p lg (hand_out u ys)" "comm_only st3 st4" by blast
  from es_cfg_read_rep [OF 4(2) user_phone_in_table(1) [OF u]] obtain st5 where
    5: "es_cfg_read st4 (CFG_ID_USER1_PHONE + u) = Some (st5, True, T (CFG_ID_USER1_PHONE + u))"
      "es_rep mem (ee_codec env) T sz st5 p lg (hand_out u ys)" "cfg_only st4 st5" by blast
  have same: "es_sent st5 = es_sent st1"
    using cfg_only_same [OF 2(3)] cfg_only_same [OF 3(3)] comm_only_same [OF 4(3)] cfg_only_same [OF 5(3)] by simp
  have "eb_abs (es_sms st5) (hand_out u xs)" "eb_size (es_sms st5) = sz" using 5(2) shape(1) by (auto simp: es_rep_def)
  from done_abs [OF this(1), of True] this(2) done_hand_out [OF shape(2)] obtain b' where
    6: "event_buf_done_events (es_sms st5) True = Some b'"
      "eb_abs b' (filter (\<lambda>d. waiting d \<and> it_user d \<noteq> u) xs)" "eb_size b' = sz" by auto
  have "es_rep mem (ee_codec env) T sz (st5\<lparr>es_sent := sent, es_sms := b'\<rparr>) p lg
      (filter (\<lambda>d. waiting d \<and> it_user d \<noteq> u) xs)" for sent
    using 5(2) by (intro es_rep_sms [OF _ 6(2,3), where xs = "hand_out u ys"]) simp
  then show ?thesis using 2(1) 3(1) 4(1) 5(1) 6(1) same unfolding t0_def by blast
qed

text \<open>C6: one call of \<open>event_comm_task\<close>, over records that wait or were handed out by an
earlier call. Without a waiting record nothing happens. Without memory for the text nothing is sent
and the first waiting record stays handed out. With memory, when this record names a user above 3, the
device stops at the assertion of \<open>sms_send_to_user\<close>. Otherwise one message goes to the modem: the
report of all waiting events of this user, in order, to the user's phone number (none if the number is
not valid); the waiting records of the other users stay, in order. The records left over from calls
without memory are dropped then. The configuration is readable and the waiting events have valid
codes.\<close>

theorem event_comm_reports:
  assumes R: "es_rep mem (ee_codec env) T sz st p lg xs"
    and xs: "\<forall>d \<in> set xs. waiting d \<or> handed d"
    and ok: "\<forall>d \<in> set xs. waiting d \<longrightarrow> event_ok (it_event d)"
  shows "case dropWhile handed xs of
      [] \<Rightarrow> \<exists>st'. event_comm_task env st = Some st'
           \<and> es_rep mem (ee_codec env) T sz st' p lg xs \<and> es_sent st' = es_sent st
    | c # zs \<Rightarrow>
        if \<not> ee_alloc env then \<exists>st'. event_comm_task env st = Some st' \<and> es_sent st' = es_sent st
           \<and> handed (taken c) \<and> es_rep mem (ee_codec env) T sz st' p lg (takeWhile handed xs @ taken c # zs)
        else if 4 \<le> it_user c then event_comm_task env st = None
        else \<exists>st'. event_comm_task env st = Some st'
           \<and> es_rep mem (ee_codec env) T sz st' p lg (filter (\<lambda>d. waiting d \<and> it_user d \<noteq> it_user c) xs)
           \<and> (let tel = bf_append (ee_tel_buf env) [] (T (CFG_ID_USER1_PHONE + it_user c))
              in es_sent st' = es_sent st @ (if ee_phone_ok env tel
                   then [(tel, report_text env T (filter (\<lambda>d. waiting d \<and> it_user d = it_user c) xs))] else []))"
proof -
  have abs: "eb_abs (es_sms st) xs" "eb_size (es_sms st) = sz" using R by (auto simp: es_rep_def)
  show ?thesis
  proof (cases "dropWhile handed xs")
    case Nil
    with get_abs [OF abs(1), of EVENT_USER_NONE] abs(2) get_list_first [OF xs] obtain b g where
      g: "event_buf_get_event (es_sms st) (Some EVENT_USER_NONE) = Some (b, g)" "\<not> gt_found g" "eb_abs b xs" "eb_size b = sz"
      by auto
    have "es_rep mem (ee_codec env) T sz (st\<lparr>es_sms := b\<rparr>) p lg xs" using es_rep_sms [OF R g(3,4)] .
    then show ?thesis using g unfolding Nil by (simp add: event_comm_task_def Let_def)
  next
    case (Cons c zs)
    let ?u = "it_user c" and ?ys = "takeWhile handed xs @ taken c # zs"
    note F = hand_out_first [OF xs Cons]
    from get_abs [OF abs(1), of EVENT_USER_NONE] abs(2) get_list_first [OF xs] Cons obtain b g where
      g: "event_buf_get_event (es_sms st) (Some EVENT_USER_NONE) = Some (b, g)" "gt_found g"
        "gt_event g = Some (it_event c)" "gt_user g = ?u" "eb_abs b ?ys" "eb_size b = sz" by auto
    note R1 = es_rep_sms [OF R g(5,6)]
    consider "\<not> ee_alloc env" | "ee_alloc env" "4 \<le> ?u" | "ee_alloc env" "?u < 4" by fastforce
    then show ?thesis
    proof cases
      case 1
      then show ?thesis using g R1 Cons handed_taken [OF F(1)] by (simp add: event_comm_task_def Let_def)
    next
      case 2
      then show ?thesis using g(1-4) Cons
        by (simp add: event_comm_task_def Let_def sms_send_to_user_stops [OF 2(2)] split_def)
    next
      case 3
      have mine: "filter (\<lambda>d. waiting d \<and> it_user d = ?u) xs = c # ready_of ?u ?ys"
        using F(3) ready_of_waiting [OF xs] by simp
      have "set (ready_of ?u ?ys) \<subseteq> set (filter (\<lambda>d. waiting d \<and> it_user d = ?u) xs)" unfolding mine by auto
      then have "\<forall>d \<in> set (ready_of ?u ?ys). event_ok (it_event d)" using ok by auto
      from report_run [OF R1 3(2) _ this F(4) xs, of "it_event c"] ok F(1,2) obtain st2 st3 st4 st5 b' where
        5: "es_cfg_read (st\<lparr>es_sms := b\<rparr>) CFG_ID_DEVICE_NAME = Some (st2, True, T CFG_ID_DEVICE_NAME)"
          "buf_add_event env st2 (bf_append (ee_buf env) [] (T CFG_ID_DEVICE_NAME)) (it_event c)
            = Some (st3, report_line env T (bf_append (ee_buf env) [] (T CFG_ID_DEVICE_NAME)) (it_event c))"
          "event_collect env ?u (report_line env T (bf_append (ee_buf env) [] (T CFG_ID_DEVICE_NAME)) (it_event c)) st3
            = Some (st4, report_text env T (c # ready_of ?u ?ys))"
          "es_cfg_read st4 (CFG_ID_USER1_PHONE + ?u) = Some (st5, True, T (CFG_ID_USER1_PHONE + ?u))"
          "event_buf_done_events (es_sms st5) True = Some b'" "es_sent st5 = es_sent st"
          "\<And>sent. es_rep mem (ee_codec env) T sz (st5\<lparr>es_sent := sent, es_sms := b'\<rparr>) p lg
            (filter (\<lambda>d. waiting d \<and> it_user d \<noteq> ?u) xs)"
        by auto
      define tel where "tel = bf_append (ee_tel_buf env) [] (T (CFG_ID_USER1_PHONE + ?u))"
      define sent where "sent = es_sent st @ (if ee_phone_ok env tel then [(tel, report_text env T (c # ready_of ?u ?ys))] else [])"
      have "sms_send_to_user env st4 ?u (report_text env T (c # ready_of ?u ?ys)) = Some (st5\<lparr>es_sent := sent\<rparr>, True)"
        using 3(2) 5(4,6) by (simp add: sms_send_to_user_def os_assert_def tel_def [symmetric] sent_def)
      then have "event_comm_task env st = Some (st5\<lparr>es_sent := sent, es_sms := b'\<rparr>)"
        using g(1-4) 3(1) 5(1-3,5) by (simp add: event_comm_task_def Let_def)
      then show ?thesis using 3 5(7) [of sent] Cons
        by (auto simp: sent_def tel_def not_le mine)
    qed
  qed
qed

text \<open>An event of user 1 is sent as one message to the number configured for that user.\<close>

theorem event_comm_reports_witness:
  "\<exists>(st :: (nat \<Rightarrow> u8) ev_st) st' tel msg. event_comm_task ex_ev_env st = Some st'
     \<and> es_sent st' = es_sent st @ [(tel, msg)] \<and> eb_abs (es_sms st') []"
proof -
  from ex_setup_written obtain cf where cf: "cfg_sound id cf" by blast
  from add_abs [OF ex_sms_buf(1), of 1 ex_alarm EVENT_PRIO_STD] obtain b where
    b: "eb_abs b [ex_waiting]" "eb_size b = 20" by (auto simp: ex_sms_buf(2) eb_room_def ex_waiting_def)
  define st where "st = (ex_ev_st cf undefined)\<lparr>es_sms := b\<rparr>"
  have R: "es_rep id (ee_codec ex_ev_env) (cfg_text id cf) 20 st 0 [] [ex_waiting]"
    unfolding st_def ex_event_ok(2) by (rule es_rep_sms [OF ex_rep [OF cf] b])
  have ok: "waiting ex_waiting" "event_ok (it_event ex_waiting)" "it_user ex_waiting = 1" "\<not> handed ex_waiting"
    using ex_event_ok(1) by (simp_all add: ex_waiting_def new_item_def waiting_def handed_def)
  have tel: "ee_phone_ok ex_ev_env t" for t by (simp add: ex_ev_env_def)
  from event_comm_reports [OF R] show ?thesis
    by (auto simp: Let_def tel es_rep_def ok ex_event_ok(3) word_le_nat_alt split: if_splits)
qed

end
