(* ===== verification/Inp.thy ===== *)
theory Inp
  imports SystemInput
begin

text \<open>
  \<open>app/inp.c\<close>: the debounce filter of the eight inputs.  The levels of the pins (and the
  shock detector) and the supply voltage are read from outside: \<open>lo\<close> answers whether an input
  is at its active level, before inversion.
\<close>

unbundle bit_operations_syntax

record inp_filter =
  if_timer :: u32
  if_limit :: u32
  if_limit_dact :: u32

record inp_st =
  in_enabled :: bool
  in_direction :: u32
  in_state :: u32
  in_check_needed :: u32
  in_bypass :: u32
  in_now :: u32
  in_filter :: "inp_filter list"

definition mask :: "u8 \<Rightarrow> u32" where
  "mask pin_id = push_bit (unat pin_id) 1"

definition inp_inverted :: "inp_st \<Rightarrow> u8 \<Rightarrow> bool" where
  "inp_inverted p pin_id \<longleftrightarrow> in_direction p AND mask pin_id \<noteq> 0"

definition inp_power_needed :: "u8 \<Rightarrow> bool" where
  "inp_power_needed pin_id \<longleftrightarrow> \<not> (pin_id = INP_SHOCK \<or> pin_id = INP_INP2 \<or> pin_id = INP_INP3)"

definition set_filter_timer :: "inp_st \<Rightarrow> u8 \<Rightarrow> (inp_filter \<Rightarrow> u32) \<Rightarrow> inp_st option" where
  "set_filter_timer p pin_id f =
     do { fl \<leftarrow> arr_get (in_filter p) (unat pin_id);
          Some (p\<lparr>in_filter := (in_filter p)[unat pin_id := fl\<lparr>if_timer := f fl\<rparr>]\<rparr>) }"

definition inp_active :: "inp_st \<Rightarrow> u8 \<Rightarrow> inp_st option" where
  "inp_active p pin_id =
     (if in_state p AND mask pin_id \<noteq> 0
      then set_filter_timer p pin_id (\<lambda>fl. in_now p + if_limit_dact fl)
      else do { fl \<leftarrow> arr_get (in_filter p) (unat pin_id);
                if in_now p < if_timer fl then Some p
                else if in_check_needed p AND mask pin_id \<noteq> 0 then Some p
                else set_filter_timer (p\<lparr>in_state := in_state p OR mask pin_id,
                                         in_check_needed := in_check_needed p OR mask pin_id\<rparr>)
                       pin_id (\<lambda>fl. in_now p + if_limit fl) })"

definition inp_inactive :: "inp_st \<Rightarrow> u8 \<Rightarrow> inp_st option" where
  "inp_inactive p pin_id =
     (if in_state p AND mask pin_id = 0
      then set_filter_timer p pin_id (\<lambda>fl. in_now p + if_limit fl)
      else do { fl \<leftarrow> arr_get (in_filter p) (unat pin_id);
                if in_now p < if_timer fl then Some p
                else if in_check_needed p AND mask pin_id \<noteq> 0 then Some p
                else set_filter_timer (p\<lparr>in_state := in_state p AND NOT (mask pin_id),
                                         in_check_needed := in_check_needed p OR mask pin_id\<rparr>)
                       pin_id (\<lambda>fl. in_now p + if_limit_dact fl) })"

text \<open>\<open>inp_init\<close>; \<open>ms\<close> is the number of timer ticks of a millisecond.\<close>

definition inp_init :: "u32 \<Rightarrow> (u8 \<Rightarrow> bool) \<Rightarrow> inp_st \<Rightarrow> inp_st \<times> bool" where
  "inp_init ms lo p =
     (let dir = mask INP_LOCK OR mask INP_UNLOCK OR mask INP_DOOR OR mask INP_INP1 OR mask INP_INP2 OR mask INP_INP3;
          p = p\<lparr>in_direction := dir, in_bypass := 0\<rparr>;
          state = foldl (\<lambda>st i. if inp_inverted p (of_nat i) \<noteq> lo (of_nat i) then st OR mask (of_nat i) else st)
                    0 [0..<8];
          filters = map (\<lambda>i. if i = unat INP_SHOCK then \<lparr>if_timer = 0, if_limit = 0, if_limit_dact = 0\<rparr>
                             else \<lparr>if_timer = 0, if_limit = 100 * ms, if_limit_dact = 500 * ms\<rparr>) [0..<8]
      in (p\<lparr>in_state := state, in_filter := filters\<rparr>, True))"

definition inp_state :: "inp_st \<Rightarrow> u32" where
  "inp_state p = in_state p"

definition inp_get :: "inp_st \<Rightarrow> inp_st \<times> u32" where
  "inp_get p = (let state = in_state p in (p\<lparr>in_check_needed := 0\<rparr>, state))"

definition inp_enable :: "inp_st \<Rightarrow> bool \<Rightarrow> inp_st" where
  "inp_enable p state = p\<lparr>in_enabled := state\<rparr>"

definition inp_set_bypass :: "inp_st \<Rightarrow> u8 \<Rightarrow> bool \<Rightarrow> inp_st" where
  "inp_set_bypass p inp state =
     (if inp \<ge> INP_SIZE then p
      else if state then p\<lparr>in_bypass := in_bypass p OR mask inp\<rparr>
      else p\<lparr>in_bypass := in_bypass p AND NOT (mask inp)\<rparr>)"

definition inp_is_bypass :: "inp_st \<Rightarrow> u8 \<Rightarrow> bool" where
  "inp_is_bypass p inp \<longleftrightarrow> in_bypass p AND mask inp \<noteq> 0"

text \<open>The loop body of \<open>inp_task\<close> for one input.\<close>

definition inp_pin :: "bool \<Rightarrow> (u8 \<Rightarrow> bool) \<Rightarrow> inp_st \<Rightarrow> u8 \<Rightarrow> inp_st option" where
  "inp_pin enabled lo p i =
     (if \<not> enabled \<and> inp_power_needed i then Some p
      else if inp_is_bypass p i then Some p
      else if lo i = inp_inverted p i then inp_inactive p i
      else inp_active p i)"

fun inp_task_loop :: "bool \<Rightarrow> (u8 \<Rightarrow> bool) \<Rightarrow> nat \<Rightarrow> nat \<Rightarrow> inp_st \<Rightarrow> inp_st option" where
  "inp_task_loop enabled lo 0 i p = Some p"
| "inp_task_loop enabled lo (Suc n) i p =
     do { p \<leftarrow> inp_pin enabled lo p (of_nat i); inp_task_loop enabled lo n (Suc i) p }"

text \<open>\<open>now\<close> is the OS timer and \<open>mv\<close> the main supply in millivolts.\<close>

definition inp_task :: "u32 \<Rightarrow> int \<Rightarrow> (u8 \<Rightarrow> bool) \<Rightarrow> inp_st \<Rightarrow> inp_st option" where
  "inp_task now mv lo p =
     (let enabled = in_enabled p \<and> \<not> mv < 7000
      in inp_task_loop enabled lo 8 0 (p\<lparr>in_now := now\<rparr>))"

subsection \<open>One input at a time\<close>

definition inp_wf :: "inp_st \<Rightarrow> bool" where
  "inp_wf p \<longleftrightarrow> length (in_filter p) = 8"

definition pin_on :: "inp_st \<Rightarrow> u8 \<Rightarrow> bool" where
  "pin_on p i \<longleftrightarrow> bit (in_state p) (unat i)"

definition pin_unread :: "inp_st \<Rightarrow> u8 \<Rightarrow> bool" where
  "pin_unread p i \<longleftrightarrow> bit (in_check_needed p) (unat i)"

definition pin_filter :: "inp_st \<Rightarrow> u8 \<Rightarrow> inp_filter" where
  "pin_filter p i = in_filter p ! unat i"

lemma mask_and: "x AND mask i = 0 \<longleftrightarrow> \<not> bit x (unat i)"
  unfolding mask_def by (rule and_pow2)

lemma bit_mask: "i < INP_SIZE \<Longrightarrow> bit (mask i) m \<longleftrightarrow> m = unat i"
  by (auto simp: mask_def bit_simps word_less_nat_alt)

text \<open>What one body does to its own input, and that it leaves the others alone.\<close>

definition pin_step :: "bool \<Rightarrow> u32 \<Rightarrow> (bool \<times> bool \<times> inp_filter) \<Rightarrow> bool \<times> bool \<times> inp_filter" where
  "pin_step raw now s = (case s of (on, unread, fl) \<Rightarrow>
     if raw = on then (on, unread, fl\<lparr>if_timer := now + (if on then if_limit_dact fl else if_limit fl)\<rparr>)
     else if now < if_timer fl \<or> unread then (on, unread, fl)
     else (raw, True, fl\<lparr>if_timer := now + (if raw then if_limit fl else if_limit_dact fl)\<rparr>))"

definition pin_of :: "inp_st \<Rightarrow> u8 \<Rightarrow> bool \<times> bool \<times> inp_filter" where
  "pin_of p i = (pin_on p i, pin_unread p i, pin_filter p i)"

lemma inp_pin_step:
  assumes "inp_wf p" "i < INP_SIZE" "enabled \<or> \<not> inp_power_needed i" "\<not> inp_is_bypass p i"
  shows "\<exists>p'. inp_pin enabled lo p i = Some p' \<and> inp_wf p' \<and> in_now p' = in_now p
     \<and> in_direction p' = in_direction p \<and> in_bypass p' = in_bypass p
     \<and> pin_of p' i = pin_step (lo i \<noteq> inp_inverted p i) (in_now p) (pin_of p i)
     \<and> (\<forall>j < INP_SIZE. j \<noteq> i \<longrightarrow> pin_of p' j = pin_of p j)"
proof -
  have u: "unat i < length (in_filter p)" "\<And>j. j < INP_SIZE \<Longrightarrow> unat j < length (in_filter p)"
    using assms(1,2) by (auto simp: inp_wf_def word_less_nat_alt)
  have b: "\<And>n. bit (in_state p) n \<Longrightarrow> n < 32" using bit_imp_le_length [of "in_state p"] by simp
  show ?thesis using assms u
    by (auto dest: b simp: inp_pin_def inp_active_def inp_inactive_def set_filter_timer_def pin_of_def pin_on_def pin_unread_def
        pin_filter_def pin_step_def mask_and bit_mask inp_wf_def bit_simps split: if_splits)
qed

lemma inp_pin_skip:
  "\<not> (enabled \<or> \<not> inp_power_needed i) \<or> inp_is_bypass p i \<Longrightarrow> inp_pin enabled lo p i = Some p"
  by (auto simp: inp_pin_def)

definition sampled :: "bool \<Rightarrow> inp_st \<Rightarrow> u8 \<Rightarrow> bool" where
  "sampled enabled p i \<longleftrightarrow> (enabled \<or> \<not> inp_power_needed i) \<and> \<not> inp_is_bypass p i"

lemma inp_task_loop_run:
  assumes "inp_wf p" "n + k \<le> 8"
  shows "\<exists>p'. inp_task_loop enabled lo k n p = Some p' \<and> inp_wf p' \<and> in_now p' = in_now p
     \<and> in_direction p' = in_direction p \<and> in_bypass p' = in_bypass p
     \<and> (\<forall>i < INP_SIZE. pin_of p' i =
          (if sampled enabled p i \<and> n \<le> unat i \<and> unat i < n + k
           then pin_step (lo i \<noteq> inp_inverted p i) (in_now p) (pin_of p i) else pin_of p i))"
  using assms
proof (induction k arbitrary: n p)
  case (Suc k)
  define i0 where "i0 = (of_nat n :: u8)"
  have ui: "unat i0 = n" using Suc.prems(2) by (simp add: i0_def)
  have n: "i0 < INP_SIZE" using Suc.prems(2) ui by (simp add: word_less_nat_alt)
  obtain p1 where p1: "inp_pin enabled lo p i0 = Some p1" "inp_wf p1" "in_now p1 = in_now p"
     "in_direction p1 = in_direction p" "in_bypass p1 = in_bypass p"
     "pin_of p1 i0 = (if sampled enabled p i0 then pin_step (lo i0 \<noteq> inp_inverted p i0) (in_now p) (pin_of p i0) else pin_of p i0)"
     "\<forall>j < INP_SIZE. j \<noteq> i0 \<longrightarrow> pin_of p1 j = pin_of p j"
  proof (cases "sampled enabled p i0")
    case True
    then show ?thesis using inp_pin_step [OF Suc.prems(1) n, of enabled lo] that by (auto simp: sampled_def)
  next
    case False
    then have "inp_pin enabled lo p i0 = Some p" by (intro inp_pin_skip) (auto simp: sampled_def)
    then show ?thesis using that [of p] False Suc.prems(1) by simp
  qed
  have same: "sampled enabled p1 i = sampled enabled p i" "inp_inverted p1 i = inp_inverted p i" for i
    using p1 by (simp_all add: sampled_def inp_is_bypass_def inp_inverted_def)
  from Suc.IH [OF p1(2), of "Suc n"] Suc.prems(2) obtain p' where
    p': "inp_task_loop enabled lo k (Suc n) p1 = Some p'" "inp_wf p'" "in_now p' = in_now p1"
     "in_direction p' = in_direction p1" "in_bypass p' = in_bypass p1"
     "\<forall>i < INP_SIZE. pin_of p' i =
          (if sampled enabled p1 i \<and> Suc n \<le> unat i \<and> unat i < Suc n + k
           then pin_step (lo i \<noteq> inp_inverted p1 i) (in_now p1) (pin_of p1 i) else pin_of p1 i)" by auto
  have "pin_of p' i = (if sampled enabled p i \<and> n \<le> unat i \<and> unat i < n + Suc k
           then pin_step (lo i \<noteq> inp_inverted p i) (in_now p) (pin_of p i) else pin_of p i)"
    if "i < INP_SIZE" for i
  proof (cases "i = i0")
    case True
    then show ?thesis using p'(6) that p1(6) ui by simp
  next
    case False
    then have "unat i \<noteq> n" using ui by auto
    then have "n \<le> unat i \<longleftrightarrow> Suc n \<le> unat i" by auto
    then show ?thesis using p'(6) that False p1(3,7) same by simp
  qed
  then show ?case using p1 p' by (auto simp: i0_def)
qed auto

lemma inp_task_run:
  assumes "inp_wf p"
  shows "\<exists>p'. inp_task now mv lo p = Some p' \<and> inp_wf p' \<and> in_direction p' = in_direction p \<and> in_bypass p' = in_bypass p
     \<and> in_enabled p' = in_enabled p"
proof -
  have en: "in_enabled p' = in_enabled p" if "inp_task_loop e lo k n p = Some p'" for e k n and p p' :: inp_st
    using that
  proof (induction k arbitrary: n p)
    case (Suc k)
    then obtain p1 where "inp_pin e lo p (of_nat n) = Some p1" "inp_task_loop e lo k (Suc n) p1 = Some p'"
      by (auto split: bind_splits)
    moreover from this have "in_enabled p1 = in_enabled p"
      by (auto simp: inp_pin_def inp_active_def inp_inactive_def set_filter_timer_def split: if_splits bind_splits)
    ultimately show ?case using Suc.IH by auto
  qed auto
  have "inp_wf (p\<lparr>in_now := now\<rparr>)" using assms by (simp add: inp_wf_def)
  from inp_task_loop_run [OF this, of 0 8 "in_enabled p \<and> \<not> mv < 7000" lo] en show ?thesis
    by (fastforce simp: inp_task_def)
qed

lemma inp_task_pin:
  assumes "inp_wf p" "inp_task now mv lo p = Some p'" "i < INP_SIZE"
  shows "pin_of p' i = (if sampled (in_enabled p \<and> \<not> mv < 7000) p i
           then pin_step (lo i \<noteq> inp_inverted p i) now (pin_of p i) else pin_of p i)"
proof -
  have wf: "inp_wf (p\<lparr>in_now := now\<rparr>)" using assms by (simp add: inp_wf_def)
  have "sampled e (p\<lparr>in_now := now\<rparr>) i = sampled e p i" "inp_inverted (p\<lparr>in_now := now\<rparr>) i = inp_inverted p i"
    "pin_of (p\<lparr>in_now := now\<rparr>) i = pin_of p i" for e
    by (simp_all add: sampled_def inp_is_bypass_def inp_inverted_def pin_of_def pin_on_def pin_unread_def pin_filter_def)
  moreover have "unat i < 8" using assms(3) by (simp add: word_less_nat_alt)
  ultimately show ?thesis
    using inp_task_loop_run [OF wf, of 0 8 "in_enabled p \<and> \<not> mv < 7000" lo] assms(2,3)
    by (auto simp: inp_task_def)
qed

subsection \<open>Properties\<close>

fun inp_samples :: "(u32 \<times> int \<times> (u8 \<Rightarrow> bool)) list \<Rightarrow> inp_st \<Rightarrow> inp_st option" where
  "inp_samples [] p = Some p"
| "inp_samples ((now, mv, lo) # ss) p = do { p \<leftarrow> inp_task now mv lo p; inp_samples ss p }"

text \<open>A sample that \<open>inp_task\<close> takes from input \<open>i\<close>, at level \<open>raw\<close>.\<close>

definition reads :: "inp_st \<Rightarrow> u8 \<Rightarrow> bool \<Rightarrow> u32 \<times> int \<times> (u8 \<Rightarrow> bool) \<Rightarrow> bool" where
  "reads p i raw s = (case s of (now, mv, lo) \<Rightarrow>
     sampled (in_enabled p \<and> \<not> mv < 7000) p i \<and> (lo i \<noteq> inp_inverted p i) = raw)"

definition hold_time :: "inp_st \<Rightarrow> u8 \<Rightarrow> u32" where
  "hold_time p i = (if pin_on p i then if_limit_dact (pin_filter p i) else if_limit (pin_filter p i))"

lemma inp_task_same:
  assumes "inp_wf p" "inp_task now mv lo p = Some p'"
  shows "inp_wf p'" "reads p' i raw s = reads p i raw s"
  using inp_task_run [OF assms(1), of now mv lo] assms(2)
  by (auto simp: reads_def sampled_def inp_is_bypass_def inp_inverted_def)

lemma inp_samples_hold:
  assumes "inp_wf p" "i < INP_SIZE" "\<forall>s \<in> set ss. reads p i (\<not> pin_on p i) s \<and> fst s < if_timer (pin_filter p i)"
  shows "\<exists>p'. inp_samples ss p = Some p' \<and> inp_wf p' \<and> pin_of p' i = pin_of p i
     \<and> (\<forall>raw s. reads p' i raw s = reads p i raw s)"
  using assms(1,3)
proof (induction ss arbitrary: p)
  case (Cons s ss)
  obtain now mv lo where s: "s = (now, mv, lo)" by (cases s)
  obtain p1 where p1: "inp_task now mv lo p = Some p1" "inp_wf p1"
    using inp_task_run [OF Cons.prems(1), of now mv lo] by blast
  have pin: "pin_of p1 i = pin_of p i"
    using inp_task_pin [OF Cons.prems(1) p1(1) assms(2)] Cons.prems(2)
    by (auto simp: s reads_def pin_step_def pin_of_def)
  note same = inp_task_same(2) [OF Cons.prems(1) p1(1)]
  have "\<forall>s \<in> set ss. reads p1 i (\<not> pin_on p1 i) s \<and> fst s < if_timer (pin_filter p1 i)"
    using Cons.prems(2) pin same by (simp add: pin_of_def)
  from Cons.IH [OF p1(2) this] show ?case using p1(1) pin same by (auto simp: s)
qed simp

text \<open>C33: debouncing: once \<open>inp_task\<close> has seen input \<open>i\<close> at its registered level at time t, samples at
the other level change nothing of it until the hold time has passed (the filter limit of its state), and
the first such sample after that registers the change and marks it as unread, provided the previous
change was read by \<open>inp_get\<close> (the deadline must not wrap).\<close>

theorem inp_debounce:
  assumes "inp_wf p" "i < INP_SIZE" "reads p i (pin_on p i) (t, mv, lo)"
    and "unat t + unat (hold_time p i) < 2 ^ 32"
    and "\<forall>s \<in> set ss. reads p i (\<not> pin_on p i) s \<and> unat (fst s) < unat t + unat (hold_time p i)"
    and "reads p i (\<not> pin_on p i) (t', mv', lo')" "unat t + unat (hold_time p i) \<le> unat t'"
  shows "\<exists>p1 p2. inp_samples ((t, mv, lo) # ss) p = Some p1 \<and> pin_on p1 i = pin_on p i \<and> pin_unread p1 i = pin_unread p i
     \<and> inp_task t' mv' lo' p1 = Some p2
     \<and> (if pin_unread p i then pin_on p2 i = pin_on p i
        else pin_on p2 i = (\<not> pin_on p i) \<and> pin_unread p2 i)"
proof -
  obtain p0 where p0: "inp_task t mv lo p = Some p0" "inp_wf p0"
    using inp_task_run [OF assms(1), of t mv lo] by blast
  note same = inp_task_same(2) [OF assms(1) p0(1)]
  have f0: "pin_of p0 i = (pin_on p i, pin_unread p i, (pin_filter p i)\<lparr>if_timer := t + hold_time p i\<rparr>)"
    using inp_task_pin [OF assms(1) p0(1) assms(2)] assms(3)
    by (simp add: reads_def pin_step_def pin_of_def hold_time_def)
  have dl: "unat (t + hold_time p i) = unat t + unat (hold_time p i)"
    using assms(4) by (simp add: unat_word_ariths)
  have "\<forall>s \<in> set ss. reads p0 i (\<not> pin_on p0 i) s \<and> fst s < if_timer (pin_filter p0 i)"
    using assms(5) f0 same dl by (simp add: pin_of_def word_less_nat_alt)
  from inp_samples_hold [OF p0(2) assms(2) this] obtain p1 where
    p1: "inp_samples ss p0 = Some p1" "inp_wf p1" "pin_of p1 i = pin_of p0 i" "\<forall>raw s. reads p1 i raw s = reads p0 i raw s"
    by blast
  obtain p2 where p2: "inp_task t' mv' lo' p1 = Some p2" using inp_task_run [OF p1(2)] by blast
  have "\<not> t' < t + hold_time p i" using assms(7) dl by (simp add: word_less_nat_alt)
  then have late: "(t' < t + hold_time p i) = False" by simp
  have "reads p1 i (\<not> pin_on p i) (t', mv', lo')" using assms(6) p1(4) same by simp
  then have "pin_of p2 i = pin_step (\<not> pin_on p i) t' (pin_of p0 i)"
    using inp_task_pin [OF p1(2) p2 assms(2)] p1(3) by (simp add: reads_def)
  then have "fst (pin_of p2 i) = fst (pin_step (\<not> pin_on p i) t' (pin_of p0 i))"
    "fst (snd (pin_of p2 i)) = fst (snd (pin_step (\<not> pin_on p i) t' (pin_of p0 i)))" by simp_all
  then have "pin_on p2 i = fst (pin_step (\<not> pin_on p i) t' (pin_of p0 i))"
    "pin_unread p2 i = fst (snd (pin_step (\<not> pin_on p i) t' (pin_of p0 i)))"
    unfolding pin_of_def [of p2] by simp_all
  then have "if pin_unread p i then pin_on p2 i = pin_on p i else pin_on p2 i = (\<not> pin_on p i) \<and> pin_unread p2 i"
    unfolding f0 pin_step_def using late by (cases "pin_unread p i") simp_all
  moreover have "pin_on p1 i = pin_on p i" "pin_unread p1 i = pin_unread p i" using p1(3) f0 by (simp_all add: pin_of_def)
  ultimately show ?thesis using p0 p1(1) p2 by simp
qed

definition ex_inp :: inp_st where
  "ex_inp = fst (inp_init 1 (\<lambda>i. i \<in> {1, 2, 3, 4, 5, 6}) \<lparr>in_enabled = True, in_direction = 0, in_state = 0,
     in_check_needed = 0, in_bypass = 0, in_now = 0, in_filter = []\<rparr>)"

lemma ex_inp_eval: "ex_inp = \<lparr>in_enabled = True, in_direction = 126, in_state = 0, in_check_needed = 0, in_bypass = 0,
   in_now = 0, in_filter = replicate 7 \<lparr>if_timer = 0, if_limit = 100, if_limit_dact = 500\<rparr>
     @ [\<lparr>if_timer = 0, if_limit = 0, if_limit_dact = 0\<rparr>]\<rparr>"
  by code_simp

theorem inp_debounce_witness:
  "\<exists>p1 p2. inp_samples [(1000, 12000, \<lambda>_. False), (1099, 12000, \<lambda>_. True)] ex_inp = Some p1 \<and> \<not> pin_on p1 INP_KEY
     \<and> inp_task 1100 12000 (\<lambda>_. True) p1 = Some p2 \<and> pin_on p2 INP_KEY"
proof -
  have on: "\<not> pin_on ex_inp INP_KEY" "\<not> pin_unread ex_inp INP_KEY" "hold_time ex_inp INP_KEY = 100" "inp_wf ex_inp"
    by (simp_all add: ex_inp_eval pin_on_def pin_unread_def hold_time_def pin_filter_def inp_wf_def nth_append)
  have rd: "reads ex_inp INP_KEY raw (t, 12000, \<lambda>_. l) = (l = raw)" for raw t l
    by (simp add: reads_def sampled_def inp_is_bypass_def inp_inverted_def inp_power_needed_def ex_inp_eval mask_def)
  from inp_debounce [of ex_inp INP_KEY 1000 12000 "\<lambda>_. False" "[(1099, 12000, \<lambda>_. True)]" 1100 12000 "\<lambda>_. True"]
  show ?thesis using on rd by auto
qed

end
