(* ===== verification/Nmea.thy ===== *)
theory Nmea
  imports CLib
begin

text \<open>
  \<open>lib/nmea/nmea.c\<close>: the fields of an NMEA sentence and the position, time and speed in the GGA,
  RMC and GSV sentences.  A sentence is its text without the terminator, from the type on
  (\<open>"GGA,..."\<close>).
\<close>

unbundle bit_operations_syntax

subsection \<open>Fields\<close>

definition atoi :: "u8 list \<Rightarrow> int" where
  "atoi s = (case scan_d s of None \<Rightarrow> 0 | Some (v, _) \<Rightarrow> v)"

text \<open>Integer division of C, towards zero, by a positive number.\<close>

definition cquot :: "int \<Rightarrow> int \<Rightarrow> int" where
  "cquot a b = (if a < 0 then - ((- a) div b) else a div b)"

text \<open>\<open>param_pos\<close>: the position behind the \<open>n\<close>th comma, or -1.\<close>

fun param_pos_loop :: "u8 list \<Rightarrow> int \<Rightarrow> int \<Rightarrow> int \<times> int" where
  "param_pos_loop [] n l = (n, l)"
| "param_pos_loop (c # src) n l =
     (if n = 0 then (n, l)
      else let l = l + 1; n = (if c = 44 then n - 1 else n)
           in if n \<le> 0 then (n, l) else param_pos_loop src n l)"

definition param_pos :: "u8 list \<Rightarrow> int \<Rightarrow> int" where
  "param_pos src n = (let (n, l) = param_pos_loop src n 0 in if n = 0 then l else -1)"

text \<open>\<open>get_param\<close>: the text of the field, at most \<open>limit\<close> characters, and its length or -1.\<close>

fun get_param_loop :: "u8 list \<Rightarrow> int \<Rightarrow> bool \<Rightarrow> nat \<Rightarrow> u8 list \<Rightarrow> u8 list \<times> bool" where
  "get_param_loop [] n copy limit dest = (dest, copy)"
| "get_param_loop (c # src) n copy limit dest =
     (let copy = (copy \<or> n = 0)
      in if c = 44
         then (if n - 1 < 0 then (dest, copy) else get_param_loop src (n - 1) copy limit dest)
         else if copy
         then (if limit > 0 then get_param_loop src n copy (limit - 1) (dest @ [c]) else (dest, copy))
         else get_param_loop src n copy limit dest)"

definition get_param :: "u8 list \<Rightarrow> int \<Rightarrow> nat \<Rightarrow> u8 list \<times> int" where
  "get_param src n limit =
     (let (dest, copy) = get_param_loop src n False limit [] in (dest, if copy then int (length dest) else -1))"

text \<open>\<open>sscanf(s, "%d.%1d", ...)\<close> and the speed in 0.1 km/h.\<close>

definition knots_to_10kmh :: "u8 list \<Rightarrow> u16" where
  "knots_to_10kmh s =
     (case scan_d s of
        None \<Rightarrow> 0
      | Some (a, r) \<Rightarrow>
          let b = (case r of
                     c # r \<Rightarrow> if c = 46
                              then (case dropWhile is_space r of d # _ \<Rightarrow> if is_digit d then uint d - 48 else 0 | [] \<Rightarrow> 0)
                              else 0
                   | [] \<Rightarrow> 0)
          in word_of_int (cquot ((b + 10 * a) * 1852) 1000))"

subsection \<open>Sentences\<close>

text \<open>Longitude and latitude are signed 32-bit, the altitude signed 16-bit; speed and angle are bit fields.\<close>

record nmea_data =
  nm_lon_sec :: "32 word"
  nm_lat_sec :: "32 word"
  nm_speed :: u16
  nm_angle :: u16
  nm_accuracy :: u8
  nm_alt :: "16 word"
  nm_fix :: u8
  nm_nbsat :: u8
  nm_time :: rtc

abbreviation (input) PARAM_LIMIT :: nat where "PARAM_LIMIT \<equiv> 31"

definition nmea_parse_u32 :: "u8 list \<Rightarrow> int \<Rightarrow> u32" where
  "nmea_parse_u32 sentence param_n =
     (let pos = param_pos sentence param_n
      in if pos > 0 then word_of_int (atoi (drop (nat pos) sentence)) else 0)"

text \<open>Degrees of \<open>deg\<close> digits, two digits of minutes, a point, four digits of fractions; in 1/100 of a second.\<close>

definition nmea_angle :: "nat \<Rightarrow> u8 list \<Rightarrow> int" where
  "nmea_angle deg buf =
     (let buf = take (deg + 7) buf
      in atoi (drop deg buf) * (60 * 100) + cquot (atoi (drop (deg + 3) buf) * 6) 10
         + atoi (take deg buf) * (60 * 60 * 100))"

definition nmea_parse_gga :: "nmea_data \<Rightarrow> u8 list \<Rightarrow> nmea_data \<times> bool" where
  "nmea_parse_gga stamp sentence =
     (let (buf, len) = get_param sentence 2 PARAM_LIMIT
      in if len \<le> 8 then (stamp, False)
         else let lat = nmea_angle 2 buf;
                  (buf, len) = get_param sentence 3 PARAM_LIMIT;
                  lat = (if len > 0 \<and> hd buf \<noteq> of_char CHR ''N'' then - lat else lat);
                  (buf, len) = get_param sentence 4 PARAM_LIMIT
              in if len \<le> 9 then (stamp, False)
                 else let lon = nmea_angle 3 buf;
                          (buf, len) = get_param sentence 5 PARAM_LIMIT;
                          lon = (if len > 0 \<and> hd buf \<noteq> of_char CHR ''E'' then - lon else lon)
                      in (stamp\<lparr>nm_lat_sec := word_of_int lat, nm_lon_sec := word_of_int lon,
                                nm_fix := ucast (nmea_parse_u32 sentence 6), nm_nbsat := ucast (nmea_parse_u32 sentence 7),
                                nm_accuracy := ucast (nmea_parse_u32 sentence 8), nm_alt := ucast (nmea_parse_u32 sentence 9)\<rparr>,
                          True))"

definition nmea_parse_rmc :: "nmea_data \<Rightarrow> u8 list \<Rightarrow> nmea_data \<times> bool" where
  "nmea_parse_rmc stamp sentence =
     (let (buf, len) = get_param sentence 1 PARAM_LIMIT;
          stamp = (if len \<ge> 6
                   then stamp\<lparr>nm_time := (nm_time stamp)\<lparr>rtc_second := word_of_int (atoi (drop 4 buf)),
                          rtc_minute := word_of_int (atoi (drop 2 (take 4 buf))), rtc_hour := word_of_int (atoi (take 2 buf))\<rparr>\<rparr>
                   else stamp);
          (buf, len) = get_param sentence 7 PARAM_LIMIT;
          stamp = (if len > 0 then stamp\<lparr>nm_speed := take_bit 15 (knots_to_10kmh buf)\<rparr> else stamp);
          (buf, len) = get_param sentence 9 PARAM_LIMIT;
          stamp = (if len = 6
                   then stamp\<lparr>nm_time := (nm_time stamp)\<lparr>rtc_year := word_of_int (atoi (drop 4 buf)),
                          rtc_month := word_of_int (atoi (drop 2 (take 4 buf))), rtc_day := word_of_int (atoi (take 2 buf))\<rparr>\<rparr>
                   else stamp)
      in (stamp\<lparr>nm_angle := take_bit 9 (ucast (nmea_parse_u32 sentence 8))\<rparr>, True))"

text \<open>The number of visible satellites and the GLONASS flag.\<close>

definition nmea_parse_gsv :: "u8 \<Rightarrow> u8 list \<Rightarrow> u8 \<times> bool" where
  "nmea_parse_gsv protocol_id sentence =
     (ucast (nmea_parse_u32 sentence 3), protocol_id = of_char CHR ''L'')"

definition nmea_checksum_compute :: "u8 list \<Rightarrow> u8" where
  "nmea_checksum_compute s = foldl (XOR) 0 s"

subsection \<open>Fields of a comma-separated sentence\<close>

fun join :: "u8 list list \<Rightarrow> u8 list" where
  "join [] = []"
| "join [f] = f"
| "join (f # g # fs) = f @ 44 # join (g # fs)"

lemma get_param_loop_copy:
  "44 \<notin> set f \<Longrightarrow> get_param_loop (f @ 44 # r) 0 True limit dest = (dest @ take limit f, True)"
  by (induction f arbitrary: limit dest) (auto simp: Let_def take_Cons split: nat.splits)

lemma get_param_loop_skip:
  "44 \<notin> set f \<Longrightarrow> 0 < n \<Longrightarrow> get_param_loop (f @ 44 # r) n False limit dest = get_param_loop r (n - 1) False limit dest"
  by (induction f) (auto simp: Let_def)

lemma get_param_loop_start:
  "get_param_loop (f @ 44 # r) 0 False limit dest = get_param_loop (f @ 44 # r) 0 True limit dest"
  by (cases f) (auto simp: Let_def)

lemma join_drop:
  "k < length fs - 1 \<Longrightarrow> join (drop k fs) = fs ! k @ 44 # join (drop (Suc k) fs)"
proof -
  assume k: "k < length fs - 1"
  then have "drop k fs = fs ! k # fs ! Suc k # drop (Suc (Suc k)) fs" by (simp add: Cons_nth_drop_Suc)
  moreover have "drop (Suc k) fs = fs ! Suc k # drop (Suc (Suc k)) fs" using k by (simp add: Cons_nth_drop_Suc)
  ultimately show ?thesis by simp
qed

lemma get_param_join:
  assumes "\<forall>f \<in> set fs. 44 \<notin> set f" "n < length fs - 1"
  shows "get_param (join fs) (int n) limit = (take limit (fs ! n), int (length (take limit (fs ! n))))"
proof -
  have f: "44 \<notin> set (fs ! k)" if "k \<le> n" for k using assms that by auto
  have "get_param_loop (join fs) (int n) False limit [] = get_param_loop (join (drop k fs)) (int (n - k)) False limit []"
    if "k \<le> n" for k
    using that
  proof (induction k)
    case (Suc k)
    have "int (n - k) - 1 = int (n - Suc k)" "0 < int (n - k)" using Suc.prems by auto
    then show ?case
      using Suc join_drop [of k fs] get_param_loop_skip [OF f [of k], of "int (n - k)" "join (drop (Suc k) fs)" limit "[]"] assms(2)
      by (simp add: diff_diff_eq add.commute)
  qed simp
  from this [of n] have "get_param_loop (join fs) (int n) False limit [] = get_param_loop (join (drop n fs)) 0 False limit []" by simp
  also have "\<dots> = (take limit (fs ! n), True)"
    using join_drop [OF assms(2)] get_param_loop_copy [OF f [of n]] by (simp add: get_param_loop_start)
  finally show ?thesis by (simp add: get_param_def)
qed

lemma param_pos_loop_skip:
  "44 \<notin> set f \<Longrightarrow> 0 < n \<Longrightarrow> param_pos_loop (f @ 44 # r) n l =
     (if n = 1 then (0, l + int (length f) + 1) else param_pos_loop r (n - 1) (l + int (length f) + 1))"
  by (induction f arbitrary: l) (auto simp: Let_def algebra_simps)

lemma param_pos_join:
  assumes "\<forall>f \<in> set fs. 44 \<notin> set f" "0 < n" "n < length fs"
  shows "param_pos (join fs) (int n) > 0 \<and> drop (nat (param_pos (join fs) (int n))) (join fs) = join (drop n fs)"
proof -
  have f: "44 \<notin> set (fs ! k)" if "k < n" for k using assms that by auto
  have "\<exists>p. 0 \<le> p \<and> (k < n \<longrightarrow> param_pos_loop (join fs) (int n) 0 = param_pos_loop (join (drop k fs)) (int (n - k)) (int p))
      \<and> (k = n \<longrightarrow> 0 < p \<and> param_pos_loop (join fs) (int n) 0 = (0, int p)) \<and> drop p (join fs) = join (drop k fs)"
    if "k \<le> n" for k
    using that
  proof (induction k)
    case 0
    then show ?case using assms(2) by (intro exI [of _ 0]) simp
  next
    case (Suc k)
    then obtain p where p: "param_pos_loop (join fs) (int n) 0 = param_pos_loop (join (drop k fs)) (int (n - k)) (int p)"
      "drop p (join fs) = join (drop k fs)" by auto
    have j: "join (drop k fs) = fs ! k @ 44 # join (drop (Suc k) fs)" using Suc.prems assms(3) by (intro join_drop) simp
    define q where "q = p + length (fs ! k) + 1"
    have d: "drop q (join fs) = join (drop (Suc k) fs)"
    proof -
      have "drop q (join fs) = drop (length (fs ! k) + 1) (drop p (join fs))" by (simp add: q_def add.commute add.left_commute)
      then show ?thesis by (simp add: p(2) j)
    qed
    have "param_pos_loop (join (drop k fs)) (int (n - k)) (int p) =
        (if int (n - k) = 1 then (0, int q) else param_pos_loop (join (drop (Suc k) fs)) (int (n - k) - 1) (int q))"
      using param_pos_loop_skip [OF f [of k], of "int (n - k)" "join (drop (Suc k) fs)" "int p"] Suc.prems
      by (simp add: j q_def add.assoc add.commute add.left_commute)
    moreover have "int (n - k) - 1 = int (n - Suc k)" using Suc.prems by simp
    ultimately show ?case using p(1) d Suc.prems by (intro exI [of _ q]) (auto simp: q_def diff_diff_eq add.commute)
  qed
  from this [of n] show ?thesis by (auto simp: param_pos_def)
qed

subsection \<open>Positions\<close>

text \<open>The character of a digit.\<close>

definition dgt :: "nat \<Rightarrow> u8" where "dgt d = of_nat (48 + d)"

lemma dgt_digit: "d < 10 \<Longrightarrow> is_digit (dgt d)" "d < 10 \<Longrightarrow> uint (dgt d) = 48 + int d"
  using is_digit_show [of d] by (simp_all add: dgt_def uint_nat unat_of_nat_u8 del: of_nat_add)

definition dgts :: "nat list \<Rightarrow> u8 list" where "dgts ds = map dgt ds"

definition dval :: "nat list \<Rightarrow> int" where "dval ds = foldl (\<lambda>v d. 10 * v + int d) 0 ds"

lemma scan_digits_dgts:
  "\<forall>d \<in> set ds. d < 10 \<Longrightarrow> r = [] \<or> \<not> is_digit (hd r) \<Longrightarrow>
   scan_digits v (map dgt ds @ r) = (foldl (\<lambda>v d. 10 * v + int d) v ds, r)"
  by (induction ds arbitrary: v) (cases r, auto simp: dgt_digit)

lemma atoi_dgts:
  assumes "ds \<noteq> []" "\<forall>d \<in> set ds. d < 10" "r = [] \<or> \<not> is_digit (hd r)"
  shows "atoi (dgts ds @ r) = dval ds"
proof -
  obtain d ds' where ds: "ds = d # ds'" using assms(1) by (cases ds) auto
  then have d: "is_digit (dgt d)" using assms(2) by (simp add: dgt_digit)
  then have "\<not> is_space (dgt d)" "dgt d \<noteq> 45" "dgt d \<noteq> 43"
    by (auto simp: is_digit_def is_space_def word_le_nat_alt)
  moreover have "scan_digits 0 (map dgt ds @ r) = (dval ds, r)"
    using scan_digits_dgts [OF assms(2,3), of 0] by (simp add: dval_def)
  ultimately show ?thesis using d by (simp add: atoi_def scan_d_def scan_unsigned_def dgts_def ds)
qed

text \<open>The text of an angle: degrees, two digits of minutes, a point, four or more digits.\<close>

definition angle_text :: "nat list \<Rightarrow> nat list \<Rightarrow> nat list \<Rightarrow> u8 list \<Rightarrow> u8 list" where
  "angle_text deg mins frac rest = dgts deg @ dgts mins @ [46] @ dgts frac @ rest"

lemma nmea_angle_text:
  assumes "deg \<noteq> []" "\<forall>d \<in> set (deg @ mins @ frac). d < 10" "length mins = 2" "length frac = 4"
  shows "nmea_angle (length deg) (angle_text deg mins frac rest)
     = dval deg * 360000 + dval mins * 6000 + dval frac * 6 div 10"
proof -
  have l: "length (dgts xs) = length xs" for xs by (simp add: dgts_def)
  have t: "take (length deg + 7) (angle_text deg mins frac rest) = dgts deg @ dgts mins @ [46] @ dgts frac"
    using assms(3,4) by (simp add: angle_text_def l)
  have ne: "mins \<noteq> []" "frac \<noteq> []" using assms(3,4) by auto
  have "\<not> is_digit 46" by (simp add: is_digit_def)
  then have m: "atoi (drop (length deg) (dgts deg @ dgts mins @ [46] @ dgts frac)) = dval mins"
    using atoi_dgts [of mins "46 # dgts frac"] assms ne by (auto simp: l)
  have f: "atoi (drop (length deg + 3) (dgts deg @ dgts mins @ [46] @ dgts frac)) = dval frac"
    using atoi_dgts [of frac "[]"] assms ne by (auto simp: l)
  have d: "atoi (take (length deg) (dgts deg @ dgts mins @ [46] @ dgts frac)) = dval deg"
    using atoi_dgts [of deg "[]"] assms by (simp add: l)
  have "0 \<le> dval ds" for ds
  proof -
    have "0 \<le> foldl (\<lambda>v d. 10 * v + int d) v ds" if "0 \<le> v" for v using that by (induction ds arbitrary: v) auto
    then show ?thesis by (simp add: dval_def)
  qed
  from this [of frac] have "cquot (dval frac * 6) 10 = dval frac * 6 div 10" by (simp add: cquot_def)
  then show ?thesis unfolding nmea_angle_def t Let_def m f d by simp
qed

lemma nmea_gga_lemma:
  assumes "\<forall>f \<in> set fs. 44 \<notin> set f" "11 \<le> length fs"
    and lat: "fs ! 2 = angle_text latd latm latf m1" "length latd = 2" "length latm = 2" "length latf = 4" "length m1 \<le> 10"
    and lon: "fs ! 4 = angle_text lond lonm lonf m2" "length lond = 3" "length lonm = 2" "length lonf = 4" "length m2 \<le> 10"
    and dig: "\<forall>d \<in> set (latd @ latm @ latf @ lond @ lonm @ lonf). d < 10"
    and hem: "fs ! 3 = [ns]" "fs ! 5 = [ew]" and fx: "fs ! 6 = [dgt q]" "q < 10"
  shows "\<exists>st'. nmea_parse_gga st (join fs) = (st', True)
     \<and> nm_lat_sec st' = word_of_int ((if ns = of_char CHR ''N'' then 1 else -1)
          * (dval latd * 360000 + dval latm * 6000 + dval latf * 6 div 10))
     \<and> nm_lon_sec st' = word_of_int ((if ew = of_char CHR ''E'' then 1 else -1)
          * (dval lond * 360000 + dval lonm * 6000 + dval lonf * 6 div 10))
     \<and> nm_fix st' = of_nat q \<and> nm_speed st' = nm_speed st \<and> nm_time st' = nm_time st"
proof -
  have g: "get_param (join fs) (int n) 31 = (take 31 (fs ! n), int (length (take 31 (fs ! n))))" if "n < 10" for n
    using get_param_join [OF assms(1), of n 31] that assms(2) by simp
  have l: "length (angle_text d m f r) = length d + length m + length f + 1 + length r" for d m f r
    by (simp add: angle_text_def dgts_def)
  have p: "get_param (join fs) 2 31 = (fs ! 2, int (9 + length m1))" "get_param (join fs) 3 31 = ([ns], 1)"
    "get_param (join fs) 4 31 = (fs ! 4, int (10 + length m2))" "get_param (join fs) 5 31 = ([ew], 1)"
    using g [of 2] g [of 3] g [of 4] g [of 5] lat lon hem by (simp_all add: l)
  have a: "nmea_angle 2 (fs ! 2) = dval latd * 360000 + dval latm * 6000 + dval latf * 6 div 10"
    "nmea_angle 3 (fs ! 4) = dval lond * 360000 + dval lonm * 6000 + dval lonf * 6 div 10"
  proof -
    have "latd \<noteq> []" "lond \<noteq> []" using lat(2) lon(2) by auto
    moreover have "\<forall>d \<in> set (latd @ latm @ latf). d < 10" "\<forall>d \<in> set (lond @ lonm @ lonf). d < 10" using dig by auto
    ultimately show "nmea_angle 2 (fs ! 2) = dval latd * 360000 + dval latm * 6000 + dval latf * 6 div 10"
      "nmea_angle 3 (fs ! 4) = dval lond * 360000 + dval lonm * 6000 + dval lonf * 6 div 10"
      using nmea_angle_text [of latd latm latf m1] nmea_angle_text [of lond lonm lonf m2] lat lon by simp_all
  qed
  have "join (drop 6 fs) = dgts [q] @ 44 # join (drop 7 fs)"
    using join_drop [of 6 fs] assms(2) fx(1) by (simp add: dgts_def)
  moreover have "\<not> is_digit 44" by (simp add: is_digit_def)
  ultimately have "atoi (join (drop 6 fs)) = int q"
    using atoi_dgts [of "[q]" "44 # join (drop 7 fs)"] fx(2) by (simp add: dval_def)
  then have f: "nmea_parse_u32 (join fs) 6 = of_nat q"
    using param_pos_join [OF assms(1), of 6] assms(2) by (simp add: nmea_parse_u32_def Let_def)
  have "ucast (of_nat q :: u32) = (of_nat q :: u8)"
    using fx(2) by (simp add: word_unat_eq_iff unsigned_ucast_eq unsigned_take_bit_eq take_bit_nat_eq_self del: inj_unat_word)
  then show ?thesis using p a f by (simp add: nmea_parse_gga_def Let_def)
qed

text \<open>A position. For a GGA sentence with the fields of a receiver (latitude of two digits of degrees, two of
  minutes, a point and four or more digits of fractions; longitude with three digits of degrees), nmea_parse_gga stores
  exactly the position in 1/100 of a second, negative on the southern and western side, the fix digit, and
  leaves speed and time alone.\<close>

theorem nmea_gga_position:
  assumes "\<forall>f \<in> set fs. 44 \<notin> set f" "11 \<le> length fs"
    and "fs ! 2 = angle_text latd latm latf m1" "length latd = 2" "length latm = 2" "length latf = 4" "length m1 \<le> 10"
    and "fs ! 4 = angle_text lond lonm lonf m2" "length lond = 3" "length lonm = 2" "length lonf = 4" "length m2 \<le> 10"
    and "\<forall>d \<in> set (latd @ latm @ latf @ lond @ lonm @ lonf). d < 10"
    and "fs ! 3 = [ns]" "fs ! 5 = [ew]" "fs ! 6 = [dgt q]" "q < 10"
  shows "\<exists>st'. nmea_parse_gga st (join fs) = (st', True)
     \<and> nm_lat_sec st' = word_of_int ((if ns = of_char CHR ''N'' then 1 else -1)
          * (dval latd * 360000 + dval latm * 6000 + dval latf * 6 div 10))
     \<and> nm_lon_sec st' = word_of_int ((if ew = of_char CHR ''E'' then 1 else -1)
          * (dval lond * 360000 + dval lonm * 6000 + dval lonf * 6 div 10))
     \<and> nm_fix st' = of_nat q \<and> nm_speed st' = nm_speed st \<and> nm_time st' = nm_time st"
  by (rule nmea_gga_lemma [OF assms])

text \<open>The zero record of \<open>memset\<close>, and 50 degrees 5.1234 minutes north, 14 degrees 25.5 minutes west.\<close>

definition nmea_zero :: nmea_data where
  "nmea_zero = \<lparr>nm_lon_sec = 0, nm_lat_sec = 0, nm_speed = 0, nm_angle = 0, nm_accuracy = 0, nm_alt = 0, nm_fix = 0,
     nm_nbsat = 0, nm_time = \<lparr>rtc_year = 0, rtc_month = 0, rtc_day = 0, rtc_hour = 0, rtc_minute = 0, rtc_second = 0\<rparr>\<rparr>"

definition example_gga :: "u8 list list" where
  "example_gga = [str ''GGA'', str ''123519.000'', angle_text [5, 0] [0, 5] [1, 2, 3, 4] [], str ''N'',
     angle_text [0, 1, 4] [2, 5] [5, 0, 0, 0] (dgts [0]), str ''W'', [dgt 1], str ''08'', str ''0.9'', str ''545.4'', str ''M'']"

theorem nmea_gga_position_witness:
  "\<exists>st'. nmea_parse_gga nmea_zero (join example_gga) = (st', True) \<and> nm_fix st' = 1
     \<and> nm_lat_sec st' = 18030740 \<and> nm_lon_sec st' = - 5193000"
proof -
  have c: "\<forall>f \<in> set example_gga. 44 \<notin> set f"
    by (simp add: example_gga_def str_def angle_text_def dgts_def dgt_def)
  have "dval [5, 0] * 360000 + dval [0, 5] * 6000 + dval [1, 2, 3, 4] * 6 div 10 = 18030740"
    "dval [0, 1, 4] * 360000 + dval [2, 5] * 6000 + dval [5, 0, 0, 0] * 6 div 10 = 5193000"
    by (simp_all add: dval_def)
  then show ?thesis
    using nmea_gga_position [OF c, of "[5, 0]" "[0, 5]" "[1, 2, 3, 4]" "[]" "[0, 1, 4]" "[2, 5]" "[5, 0, 0, 0]" "dgts [0]"
        "of_char CHR ''N''" "of_char CHR ''W''" 1 nmea_zero]
    by (auto simp: example_gga_def str_def dgts_def)
qed

end
