(* ===== verification/TracerProto.thy ===== *)
theory TracerProto
  imports CmsSia Nmea
begin

text \<open>
  The protocols of the tracking: \<open>app/tracer/tracer_h02.c\<close>, \<open>app/tracer/tracer_sia.c\<close> and their
  common interface \<open>app/tracer/tracer_proto.h\<close>, selected by \<open>pfunc_reinit\<close> of
  \<open>app/tracer/tracer.c\<close>.

  The text buffer and the parser functions belong to the SDK and are arguments (\<open>buf_api\<close>,
  \<open>parse_api\<close>).  \<open>tracer_packet_buffer\<close> is the text in it; both protocols write from its start.
\<close>

unbundle bit_operations_syntax

subsection \<open>The parser of the SDK\<close>

text \<open>\<open>pa_number\<close>: the number and the rest of the text; \<open>pa_pattern s p\<close>: the rest behind the pattern.\<close>

record parse_api =
  pa_number :: "u8 list \<Rightarrow> (int \<times> u8 list) option"
  pa_separator :: "u8 list \<Rightarrow> u8 list option"
  pa_pattern :: "u8 list \<Rightarrow> u8 list \<Rightarrow> u8 list option"

text \<open>
  What \<open>tests/test_parse.c\<close> and the callers rely on: a decimal number is read up to the first
  character that is no digit, nothing is read from a text that does not start with one, a separator
  is a comma.
\<close>

definition parse_api_ok :: "parse_api \<Rightarrow> bool" where
  "parse_api_ok P \<longleftrightarrow>
     (\<forall>n r. n < 2 ^ 31 \<longrightarrow> (r = [] \<or> \<not> is_digit (hd r)) \<longrightarrow> pa_number P (show_nat n @ r) = Some (int n, r))
     \<and> pa_number P [] = None
     \<and> pa_separator P [] = None
     \<and> (\<forall>r. (r = [] \<or> \<not> is_space (hd r)) \<longrightarrow> pa_separator P (44 # r) = Some r)
     \<and> (\<forall>p r. pa_pattern P (p @ r) p = Some r)"

definition list_parse :: parse_api where
  "list_parse = \<lparr>pa_number = scan_d,
     pa_separator = (\<lambda>s. case dropWhile is_space s of c # r \<Rightarrow> if c = 44 then Some r else None | [] \<Rightarrow> None),
     pa_pattern = (\<lambda>s p. if take (length p) s = p then Some (drop (length p) s) else None)\<rparr>"

lemma list_parse_ok [simp]: "parse_api_ok list_parse"
proof -
  have "scan_d [] = None" by (simp add: scan_d_def)
  then show ?thesis
    using scan_show [of "[]"] by (auto simp: parse_api_ok_def list_parse_def scan_show is_space_def)
qed

subsection \<open>The information word of a point\<close>

text \<open>The bit fields of \<open>track_info_t\<close>, from the least significant bit.\<close>

abbreviation (input) TRACER_INP_PANIC :: u8 where "TRACER_INP_PANIC \<equiv> 1"
abbreviation (input) TRACER_INP_KEY :: u8 where "TRACER_INP_KEY \<equiv> 8"
abbreviation (input) TRACER_INP_DOOR :: u8 where "TRACER_INP_DOOR \<equiv> 16"
abbreviation (input) TRACER_INP_SHOCK :: u8 where "TRACER_INP_SHOCK \<equiv> 32"

definition track_info :: "u8 \<Rightarrow> bool \<Rightarrow> u8 \<Rightarrow> u8 \<Rightarrow> u8 \<Rightarrow> u32" where
  "track_info driver_id track_type inputs outputs res =
     (ucast driver_id AND 0x7F) OR push_bit 7 (of_bool track_type) OR push_bit 8 (ucast inputs)
     OR push_bit 16 (ucast outputs) OR push_bit 24 (ucast res)"

definition ti_driver_id :: "u32 \<Rightarrow> u8" where
  "ti_driver_id dw = ucast dw AND 0x7F"

definition ti_track_type :: "u32 \<Rightarrow> bool" where
  "ti_track_type dw = bit dw 7"

definition ti_inputs :: "u32 \<Rightarrow> u8" where
  "ti_inputs dw = ucast (drop_bit 8 dw)"

definition ti_res :: "u32 \<Rightarrow> u8" where
  "ti_res dw = ucast (drop_bit 24 dw)"

subsection \<open>H02\<close>

record h02 =
  h2_unit_id :: u32
  h2_packet_len :: nat

abbreviation (input) H02_STATUS_VIBRATION :: u32 where "H02_STATUS_VIBRATION \<equiv> 1"
abbreviation (input) H02_STATUS_IGNITION :: u32 where "H02_STATUS_IGNITION \<equiv> 0x400"
abbreviation (input) H02_STATUS_DOOR :: u32 where "H02_STATUS_DOOR \<equiv> 0x10000"
abbreviation (input) H02_STATUS_POWER_CUT :: u32 where "H02_STATUS_POWER_CUT \<equiv> 0x80000"
abbreviation (input) TRACK_RES_POWER_FAIL :: u8 where "TRACK_RES_POWER_FAIL \<equiv> 2"

definition status_build :: "u32 \<Rightarrow> u32" where
  "status_build info =
     (let status = 0xFFFFFFFF;
          status = status AND NOT (H02_STATUS_IGNITION OR H02_STATUS_DOOR);
          status = (if ti_inputs info AND (TRACER_INP_PANIC OR TRACER_INP_SHOCK) \<noteq> 0
                    then status AND NOT H02_STATUS_VIBRATION else status);
          status = (if ti_inputs info AND TRACER_INP_KEY \<noteq> 0 then status OR H02_STATUS_IGNITION else status);
          status = (if ti_inputs info AND TRACER_INP_DOOR \<noteq> 0 then status OR H02_STATUS_DOOR else status);
          status = (if ti_res info AND TRACK_RES_POWER_FAIL \<noteq> 0 then status AND NOT H02_STATUS_POWER_CUT else status)
      in status)"

text \<open>
  The speed in 1/100 knots.  The source computes \<open>10 * f / 1.852\<close> in a \<open>float\<close> and cuts the
  fraction off: the quotient 2500 v / 463 is rounded to 24 significant bits, \<open>k\<close> of them behind
  the point.  (A tie cannot occur, as 463 is odd, and the double precision of the division is too
  fine to matter.)
\<close>

fun bitlen :: "nat \<Rightarrow> nat" where
  "bitlen n = (if n = 0 then 0 else Suc (bitlen (n div 2)))"

declare bitlen.simps [simp del]

definition knots :: "u16 \<Rightarrow> nat" where
  "knots speed =
     (let n = 2500 * unat speed;
          k = 24 - bitlen (n div 463);
          m = (2 * n * 2 ^ k + 463) div (2 * 463)
      in m div 2 ^ k)"

text \<open>The text of an angle: degrees of \<open>w\<close> digits, minutes, 1/10000 minutes, hemisphere.\<close>

definition h02_angle :: "nat \<Rightarrow> int \<Rightarrow> char \<Rightarrow> char \<Rightarrow> u8 list" where
  "h02_angle w a pos neg =
     (let symbol = (if a \<ge> 0 then pos else neg);
          sec = nat \<bar>a\<bar>;
          dg = sec div (6000 * 60);
          sec = sec mod (6000 * 60);
          min = sec div 6000;
          sec = sec mod 6000;
          sub_min = 10000 * sec div 6000
      in pad0 w (show_nat dg) @ pad0 2 (show_nat min) @ str ''.'' @ pad0 4 (show_nat sub_min) @ str '','' @ str [symbol]
         @ str '','')"

definition h02_packet :: "buf_api \<Rightarrow> u32 \<Rightarrow> nmea_data \<Rightarrow> u32 \<Rightarrow> u8 list" where
  "h02_packet B unit_id pos info =
     (let t = nm_time pos; s = knots (nm_speed pos)
      in foldl (bf_append B) []
          [str ''*HQ,'' @ show_nat (unat unit_id) @ str '',V1,'',
           show2 (rtc_hour t) @ show2 (rtc_minute t) @ show2 (rtc_second t) @ str '','',
           str [if nm_fix pos = 0 then CHR ''V'' else CHR ''A''] @ str '','',
           h02_angle 2 (sint (nm_lat_sec pos)) CHR ''N'' CHR ''S'',
           h02_angle 3 (sint (nm_lon_sec pos)) CHR ''E'' CHR ''W'',
           pad0 3 (show_nat (s div 100)) @ str ''.'' @ pad0 2 (show_nat (s mod 100)) @ str '','',
           pad0 3 (show_nat (unat (nm_angle pos))) @ str '','',
           (if nm_fix pos = 0 then str ''010100,''
            else show2 (rtc_day t) @ show2 (rtc_month t) @ show2 (rtc_year t) @ str '',''),
           pad0 8 (show_hex (unat (status_build info))),
           str ''#''])"

definition tracer_h02_reinit :: "u32 \<Rightarrow> h02 \<Rightarrow> h02" where
  "tracer_h02_reinit unit_id h = h\<lparr>h2_unit_id := unit_id, h2_packet_len := 0\<rparr>"

definition tracer_h02_packet_size :: "h02 \<Rightarrow> u16" where
  "tracer_h02_packet_size h = of_nat (h2_packet_len h + 1)"

definition tracer_h02_packet_ready :: "h02 \<Rightarrow> bool" where
  "tracer_h02_packet_ready h \<longleftrightarrow> h2_packet_len h \<noteq> 0"

definition tracer_h02_packet_done :: "h02 \<Rightarrow> h02" where
  "tracer_h02_packet_done h = h\<lparr>h2_packet_len := 0\<rparr>"

text \<open>The subtraction from the length is the one of the source, in \<open>size_t\<close>; the text is never empty.\<close>

definition tracer_h02_new_point :: "buf_api \<Rightarrow> nmea_data \<Rightarrow> u32 \<Rightarrow> h02 \<Rightarrow> u8 list \<times> h02" where
  "tracer_h02_new_point B pos info h =
     (let buf = h02_packet B (h2_unit_id h) pos info
      in (buf, h\<lparr>h2_packet_len := length buf - 1\<rparr>))"

definition tracer_h02_packet_reply_ok :: "parse_api \<Rightarrow> h02 \<Rightarrow> u8 list \<Rightarrow> u16 \<Rightarrow> bool" where
  "tracer_h02_packet_reply_ok P h data len =
     (if len < 11 then False
      else case pa_pattern P data (str ''*HQ,'') of
             None \<Rightarrow> False
           | Some p \<Rightarrow>
               (case pa_number P p of
                  None \<Rightarrow> False
                | Some (i, p) \<Rightarrow>
                    if (word_of_int i :: u32) \<noteq> h2_unit_id h then False
                    else case pa_pattern P p (str '',V4,V1'') of None \<Rightarrow> False | Some _ \<Rightarrow> True))"

subsection \<open>SIA-DC-09\<close>

text \<open>The record \<open>sia_proto\<close> of the protocol in \<open>CmsSia\<close>, here on the buffer of the tracer.\<close>

definition tr_sia_reinit :: "u32 \<Rightarrow> sia_proto \<Rightarrow> sia_proto" where
  "tr_sia_reinit unit_id p =
     p\<lparr>sp_state := cms_sia_ip_init\<lparr>sia_account := unit_id\<rparr>, sp_packet := [], sp_ok := False\<rparr>"

definition tr_sia_packet_size :: "sia_proto \<Rightarrow> u16" where
  "tr_sia_packet_size p = of_nat (length (sp_packet p))"

definition tr_sia_packet_done :: "buf_api \<Rightarrow> sia_proto \<Rightarrow> sia_proto" where
  "tr_sia_packet_done B p = p\<lparr>sp_packet := bf_adjust B (sp_packet p) 0, sp_ok := False\<rparr>"

definition tr_sia_packet_reply_ok :: "sia_proto \<Rightarrow> u8 list \<Rightarrow> u16 \<Rightarrow> bool option" where
  "tr_sia_packet_reply_ok p data len =
     do { r \<leftarrow> cms_sia_ip_rx_ack (sp_state p) data (unat len);
          Some (case r of None \<Rightarrow> False | Some (ack_seq, is_nak) \<Rightarrow> ack_seq = sia_cnt (sp_state p)) }"

text \<open>\<open>%0<w>d\<close> of a signed number: the sign counts.\<close>

definition pad0_int :: "nat \<Rightarrow> int \<Rightarrow> u8 list" where
  "pad0_int w i = (if i < 0 then 45 # pad0 (w - 1) (show_nat (nat (- i))) else pad0 w (show_nat (nat i)))"

text \<open>Degrees, hemisphere, minutes with two decimals and a zero.\<close>

definition sia_angle :: "nat \<Rightarrow> int \<Rightarrow> char \<Rightarrow> char \<Rightarrow> u8 list" where
  "sia_angle w a pos neg =
     (let c = (if a < 0 then neg else pos);
          a = nat \<bar>a\<bar>;
          s = a div (60 * 60 * 100); a = a mod (60 * 60 * 100);
          m = a div (60 * 100); a = a mod (60 * 100);
          f = a div 60
      in pad0 w (show_nat s) @ str [c] @ pad0 2 (show_nat m) @ str ''.'' @ pad0 2 (show_nat f) @ str ''0]'')"

definition sia_location :: "buf_api \<Rightarrow> nmea_data \<Rightarrow> u8 list" where
  "sia_location B pos = foldl (bf_append B) []
     [str ''[X'' @ sia_angle 3 (sint (nm_lon_sec pos)) CHR ''E'' CHR ''W'',
      str ''[Y'' @ sia_angle 2 (sint (nm_lat_sec pos)) CHR ''N'' CHR ''S'',
      str ''[Z'' @ pad0_int 4 (sint (nm_alt pos)) @ str ''M]'']"

text \<open>
  The event that carries the point; its counter is not set by the source and not used.  \<open>BD\<close> is
  the local buffer of 48 bytes, \<open>names\<close> and \<open>now\<close> as in \<open>CmsSia\<close>.
\<close>

definition tracking_event :: "rtc \<Rightarrow> rtc event" where
  "tracking_event t = \<lparr>ev_cnt = 0, ev_time = t, ev_id = EVENT_ID_TRACKING, ev_source = EVENT_SOURCE_UNIT\<rparr>"

definition tr_sia_new_point :: "buf_api \<Rightarrow> buf_api \<Rightarrow> (u16 \<Rightarrow> u8 list option) \<Rightarrow> rtc \<Rightarrow> nmea_data \<Rightarrow> sia_proto
    \<Rightarrow> sia_proto option" where
  "tr_sia_new_point B BD names now pos p =
     (if sp_ok p then Some p
      else
        let p = p\<lparr>sp_state := (sp_state p)\<lparr>sia_cnt := next_cnt (sia_cnt (sp_state p))\<rparr>\<rparr>
        in do { (packet, _) \<leftarrow> cms_sia_ip_build_msg B names now (sp_state p) (sp_packet p)
                   (tracking_event (nm_time pos)) (Some (sia_location BD pos));
                Some (p\<lparr>sp_packet := packet, sp_ok := True\<rparr>) })"

subsection \<open>The interface and its selection\<close>

datatype tracer_proto = TRACER_PROTO_H02 | TRACER_PROTO_SIA

text \<open>The SDK calls and the texts a protocol uses.\<close>

record proto_env =
  pe_buf :: buf_api
  pe_data_buf :: buf_api
  pe_parse :: parse_api
  pe_names :: "u16 \<Rightarrow> u8 list option"
  pe_now :: rtc

text \<open>The selected protocol, the common buffer, and the statics of the protocols.\<close>

record tproto =
  tp_sel :: tracer_proto
  tp_buffer :: "u8 list"
  tp_h02 :: h02
  tp_sia :: sia_proto

text \<open>\<open>sia\<close> tells whether the build option \<open>TRACER_SIA\<close> is on.\<close>

definition pfunc_reinit :: "bool \<Rightarrow> u8 \<Rightarrow> tproto \<Rightarrow> tproto" where
  "pfunc_reinit sia protocol p =
     p\<lparr>tp_sel := if sia \<and> protocol = 1 then TRACER_PROTO_SIA else TRACER_PROTO_H02\<rparr>"

definition proto_reinit :: "u32 \<Rightarrow> tproto \<Rightarrow> tproto" where
  "proto_reinit unit_id p =
     (case tp_sel p of
        TRACER_PROTO_H02 \<Rightarrow> p\<lparr>tp_h02 := tracer_h02_reinit unit_id (tp_h02 p)\<rparr>
      | TRACER_PROTO_SIA \<Rightarrow> p\<lparr>tp_sia := tr_sia_reinit unit_id (tp_sia p)\<rparr>)"

definition proto_packet_ready :: "tproto \<Rightarrow> bool" where
  "proto_packet_ready p =
     (case tp_sel p of
        TRACER_PROTO_H02 \<Rightarrow> tracer_h02_packet_ready (tp_h02 p)
      | TRACER_PROTO_SIA \<Rightarrow> sp_ok (tp_sia p))"

definition proto_packet_done :: "proto_env \<Rightarrow> tproto \<Rightarrow> tproto" where
  "proto_packet_done env p =
     (case tp_sel p of
        TRACER_PROTO_H02 \<Rightarrow> p\<lparr>tp_h02 := tracer_h02_packet_done (tp_h02 p)\<rparr>
      | TRACER_PROTO_SIA \<Rightarrow>
          let s = tr_sia_packet_done (pe_buf env) (tp_sia p) in p\<lparr>tp_sia := s, tp_buffer := sp_packet s\<rparr>)"

definition proto_packet_size :: "tproto \<Rightarrow> u16" where
  "proto_packet_size p =
     (case tp_sel p of
        TRACER_PROTO_H02 \<Rightarrow> tracer_h02_packet_size (tp_h02 p)
      | TRACER_PROTO_SIA \<Rightarrow> tr_sia_packet_size (tp_sia p))"

definition proto_packet_reply_ok :: "proto_env \<Rightarrow> tproto \<Rightarrow> u8 list \<Rightarrow> u16 \<Rightarrow> bool option" where
  "proto_packet_reply_ok env p data len =
     (case tp_sel p of
        TRACER_PROTO_H02 \<Rightarrow> Some (tracer_h02_packet_reply_ok (pe_parse env) (tp_h02 p) data len)
      | TRACER_PROTO_SIA \<Rightarrow> tr_sia_packet_reply_ok (tp_sia p) data len)"

definition proto_new_point :: "proto_env \<Rightarrow> nmea_data \<Rightarrow> u32 \<Rightarrow> tproto \<Rightarrow> tproto option" where
  "proto_new_point env pos info p =
     (case tp_sel p of
        TRACER_PROTO_H02 \<Rightarrow>
          (case tracer_h02_new_point (pe_buf env) pos info (tp_h02 p) of
             (buf, h) \<Rightarrow> Some (p\<lparr>tp_buffer := buf, tp_h02 := h\<rparr>))
      | TRACER_PROTO_SIA \<Rightarrow>
          do { s \<leftarrow> tr_sia_new_point (pe_buf env) (pe_data_buf env) (pe_names env) (pe_now env) pos (tp_sia p);
               Some (p\<lparr>tp_buffer := sp_packet s, tp_sia := s\<rparr>) })"

end
