(* ===== verification/TracerBuffer.thy ===== *)
theory TracerBuffer
  imports Storage
begin

text \<open>
  \<open>app/tracer/tracer_buffer.c\<close>: the ring of 32768 track points of 32 bytes in the GPS region
  of the external flash.  Points are stored at \<open>buf_save_ptr\<close>, handed to the server protocol
  from \<open>buf_read_ptr\<close> and flagged as delivered from \<open>buf_last_undelivered\<close>; after a restart
  two binary searches find the pointers again.

  A \<open>gps_stamp_t\<close> is only copied here, so that it is its 22 bytes.  The packed structure of a
  point is laid out little endian.  The argument \<open>alloc\<close> of an operation says whether
  \<open>OS_MEM_ALLOC\<close> gave it its buffer.
\<close>

unbundle bit_operations_syntax

subsection \<open>The stored form of a point\<close>

record tracer_buf_t =
  tb_track :: u16
  tb_point :: u16
  tb_position :: "u8 list"
  tb_info :: u32
  tb_flags :: u8
  tb_chsum :: u8

abbreviation (input) POSITION_SIZE :: nat where "POSITION_SIZE \<equiv> 22"
abbreviation (input) SAVE_GRID_SIZE :: nat where "SAVE_GRID_SIZE \<equiv> 32"
abbreviation (input) BUF_STORE_LIMIT :: u16 where "BUF_STORE_LIMIT \<equiv> 32768"
abbreviation (input) PTR_INVALID :: u16 where "PTR_INVALID \<equiv> 0xFFFF"
abbreviation (input) TRACER_FLAG_DELIVERED :: u8 where "TRACER_FLAG_DELIVERED \<equiv> 1"
abbreviation (input) TRACER_BUF_VERSION :: u8 where "TRACER_BUF_VERSION \<equiv> 1"

definition le16 :: "u16 \<Rightarrow> u8 list" where
  "le16 w = [ucast w, ucast (drop_bit 8 w)]"

definition le32 :: "u32 \<Rightarrow> u8 list" where
  "le32 w = [ucast w, ucast (drop_bit 8 w), ucast (drop_bit 16 w), ucast (drop_bit 24 w)]"

definition of_le16 :: "u8 list \<Rightarrow> u16" where
  "of_le16 bs = ucast (bs ! 0) OR push_bit 8 (ucast (bs ! 1))"

definition of_le32 :: "u8 list \<Rightarrow> u32" where
  "of_le32 bs = ucast (bs ! 0) OR push_bit 8 (ucast (bs ! 1)) OR push_bit 16 (ucast (bs ! 2))
     OR push_bit 24 (ucast (bs ! 3))"

definition tb_bytes :: "tracer_buf_t \<Rightarrow> u8 list" where
  "tb_bytes r = le16 (tb_track r) @ le16 (tb_point r) @ tb_position r @ le32 (tb_info r)
     @ [tb_flags r, tb_chsum r]"

definition tb_of_bytes :: "u8 list \<Rightarrow> tracer_buf_t" where
  "tb_of_bytes bs = \<lparr>tb_track = of_le16 bs, tb_point = of_le16 (drop 2 bs),
     tb_position = take POSITION_SIZE (drop 4 bs), tb_info = of_le32 (drop 26 bs),
     tb_flags = bs ! 30, tb_chsum = bs ! 31\<rparr>"

subsection \<open>State and operations\<close>

record 'f tbuf =
  tb_st :: "'f storage"
  buf_read_ptr :: u16
  buf_save_ptr :: u16
  buf_last_undelivered :: u16

definition buf_inc_ptr :: "u16 \<Rightarrow> u16" where
  "buf_inc_ptr x = (if x + 1 \<ge> BUF_STORE_LIMIT then 0 else x + 1)"

text \<open>The sum over the bytes in front of the checksum; \<open>i\<close> is the index of the byte.\<close>

fun chsum_from :: "u8 \<Rightarrow> u8 \<Rightarrow> u8 list \<Rightarrow> u8" where
  "chsum_from chsum i [] = chsum"
| "chsum_from chsum i (b # bs) = chsum_from (chsum + ((b XOR i) + TRACER_BUF_VERSION)) (i + 1) bs"

definition tracer_buf_checksum :: "tracer_buf_t \<Rightarrow> u8" where
  "tracer_buf_checksum buf = chsum_from 0 0 (take (SAVE_GRID_SIZE - 1) (tb_bytes buf))"

definition mem_offset :: "u16 \<Rightarrow> u32" where
  "mem_offset mem_id = ucast mem_id * 32"

definition tracer_buf_save :: "'f storage \<Rightarrow> u16 \<Rightarrow> tracer_buf_t \<Rightarrow> 'f storage \<times> bool" where
  "tracer_buf_save st mem_id buf =
     (let buf = buf\<lparr>tb_chsum := tracer_buf_checksum buf\<rparr>
      in storage_save_gps_data st (mem_offset mem_id) (tb_bytes buf))"

definition tracer_buf_load :: "'f storage \<Rightarrow> u16 \<Rightarrow> 'f storage \<times> tracer_buf_t option" where
  "tracer_buf_load st mem_id =
     (case storage_get_gps_data st (mem_offset mem_id) 32 of
        (st, None) \<Rightarrow> (st, None)
      | (st, Some bs) \<Rightarrow>
          let buf = tb_of_bytes bs
          in if tb_chsum buf \<noteq> tracer_buf_checksum buf then (st, None) else (st, Some buf))"

text \<open>The two searches of \<open>tracer_buf_init\<close>; \<open>i\<close> is halved in every round.\<close>

lemma half_less: "i \<noteq> 0 \<Longrightarrow> unat (drop_bit (Suc 0) i) < unat i" for i :: u16
  by (simp add: drop_bit_Suc unat_div unat_gt_0)

function find_last :: "'f tbuf \<Rightarrow> u16 \<Rightarrow> u32 \<Rightarrow> u16 \<Rightarrow> u16 \<Rightarrow> 'f tbuf \<times> u16 \<times> u32" where
  "find_last b track info i ptr =
     (if i = 0 then (b, track, info)
      else
        let i = drop_bit 1 i
        in case tracer_buf_load (tb_st b) ptr of
             (st, Some buf) \<Rightarrow>
               if tb_track buf \<ge> track
               then find_last (b\<lparr>tb_st := st, buf_save_ptr := ptr,
                      buf_last_undelivered := if tb_flags buf AND TRACER_FLAG_DELIVERED = 0 then ptr
                        else buf_last_undelivered b\<rparr>) (tb_track buf) (tb_info buf) i (ptr + i)
               else find_last (b\<lparr>tb_st := st\<rparr>) track info i (ptr - i)
           | (st, None) \<Rightarrow> find_last (b\<lparr>tb_st := st\<rparr>) track info i (ptr - i))"
  by pat_completeness auto
termination
  by (relation "measure (\<lambda>(b, t, n, i, p). unat i)") (auto simp: half_less [simplified])

declare find_last.simps [simp del]

function find_undelivered :: "'f tbuf \<Rightarrow> u16 \<Rightarrow> u16 \<Rightarrow> 'f tbuf" where
  "find_undelivered b i ptr =
     (if i = 0 then b
      else
        let i = drop_bit 1 i
        in case tracer_buf_load (tb_st b) ptr of
             (st, Some buf) \<Rightarrow>
               if tb_flags buf AND TRACER_FLAG_DELIVERED = 0
               then find_undelivered (b\<lparr>tb_st := st, buf_last_undelivered := ptr\<rparr>) i
                      ((ptr - i) AND (BUF_STORE_LIMIT - 1))
               else find_undelivered (b\<lparr>tb_st := st\<rparr>) i ((ptr + i) AND (BUF_STORE_LIMIT - 1))
           | (st, None) \<Rightarrow> find_undelivered (b\<lparr>tb_st := st\<rparr>) i ((ptr + i) AND (BUF_STORE_LIMIT - 1)))"
  by pat_completeness auto
termination
  by (relation "measure (\<lambda>(b, i, p). unat i)") (auto simp: half_less [simplified])

declare find_undelivered.simps [simp del]

text \<open>The search for the last point and for the first undelivered one, then the pointers.\<close>

definition init_search :: "'f tbuf \<Rightarrow> 'f tbuf \<times> u16 \<times> u32" where
  "init_search b =
     (let b = b\<lparr>buf_last_undelivered := PTR_INVALID, buf_save_ptr := PTR_INVALID\<rparr>
      in case tracer_buf_load (tb_st b) 0 of
           (st, None) \<Rightarrow> (b\<lparr>tb_st := st\<rparr>, 0, 0)
         | (st, Some buf) \<Rightarrow>
             let i = drop_bit 1 BUF_STORE_LIMIT;
                 (b, track, info) = find_last (b\<lparr>tb_st := st, buf_save_ptr := 0\<rparr>) (tb_track buf) 0 i i
             in if buf_last_undelivered b \<noteq> PTR_INVALID
                then (find_undelivered b i ((buf_save_ptr b - i) AND (BUF_STORE_LIMIT - 1)), track, info)
                else (b, track, info))"

definition init_pointers :: "'f tbuf \<Rightarrow> 'f tbuf" where
  "init_pointers b =
     (let b = b\<lparr>buf_save_ptr := if buf_save_ptr b = PTR_INVALID then 0 else buf_inc_ptr (buf_save_ptr b)\<rparr>;
          b = b\<lparr>buf_last_undelivered := if buf_last_undelivered b = PTR_INVALID then buf_save_ptr b
                   else buf_last_undelivered b\<rparr>
      in b\<lparr>buf_read_ptr := buf_last_undelivered b\<rparr>)"

text \<open>The results are the return value, \<open>*track\<close> and \<open>*info\<close>.\<close>

definition tracer_buf_init :: "bool \<Rightarrow> 'f tbuf \<Rightarrow> ('f tbuf \<times> bool \<times> u16 \<times> u32) option" where
  "tracer_buf_init alloc b =
     do {
       _ \<leftarrow> os_assert (SAVE_GRID_SIZE \<ge> POSITION_SIZE + 10);
       if \<not> alloc then Some (b, False, 0, 0)
       else let (b, track, info) = init_search b in Some (init_pointers b, True, track, info)
     }"

function erase_loop :: "'f storage \<Rightarrow> u32 \<Rightarrow> 'f storage" where
  "erase_loop st mem_id =
     (if mem_id < 32768 then
        (case storage_save_gps_data st (mem_id * 32) (replicate SAVE_GRID_SIZE 0xFF) of
           (st, r) \<Rightarrow> if \<not> r then st else erase_loop st (mem_id + 1))
      else st)"
  by pat_completeness auto
termination
  by (relation "measure (\<lambda>(st, m). 32768 - unat m)")
     (auto simp: word_less_nat_alt unat_word_ariths)

declare erase_loop.simps [simp del]

definition tracer_buf_hard_erase :: "bool \<Rightarrow> 'f tbuf \<Rightarrow> 'f tbuf \<times> bool" where
  "tracer_buf_hard_erase alloc b =
     (if \<not> alloc then (b, False)
      else (b\<lparr>tb_st := erase_loop (tb_st b) 0, buf_save_ptr := 0, buf_last_undelivered := 0,
              buf_read_ptr := 0\<rparr>, True))"

definition tracer_buf_store_position ::
    "bool \<Rightarrow> 'f tbuf \<Rightarrow> u8 list \<Rightarrow> u16 \<Rightarrow> u16 \<Rightarrow> u8 \<Rightarrow> u32 \<Rightarrow> 'f tbuf \<times> bool" where
  "tracer_buf_store_position alloc b pos track point flags info =
     (if \<not> alloc then (b, False)
      else
        let buf = \<lparr>tb_track = track, tb_point = point, tb_position = pos, tb_info = info,
                   tb_flags = flags, tb_chsum = 0\<rparr>;
            (st, _) = tracer_buf_save (tb_st b) (buf_save_ptr b) buf
        in (b\<lparr>tb_st := st, buf_save_ptr := buf_inc_ptr (buf_save_ptr b)\<rparr>, True))"

text \<open>\<open>None\<close> is the result -1; the other results are the slot and the point read from it.\<close>

definition tracer_buf_read_next :: "bool \<Rightarrow> 'f tbuf \<Rightarrow> 'f tbuf \<times> (u16 \<times> tracer_buf_t) option" where
  "tracer_buf_read_next alloc b =
     (if buf_save_ptr b = buf_read_ptr b then (b, None)
      else if \<not> alloc then (b, None)
      else
        case tracer_buf_load (tb_st b) (buf_read_ptr b) of
          (st, None) \<Rightarrow> (b\<lparr>tb_st := st\<rparr>, None)
        | (st, Some buf) \<Rightarrow>
            (b\<lparr>tb_st := st, buf_read_ptr := buf_inc_ptr (buf_read_ptr b)\<rparr>, Some (buf_read_ptr b, buf)))"

text \<open>One round of the loop of \<open>tracer_buf_delivered_all\<close>, and the loop; \<open>None\<close>: it does not end.\<close>

definition deliver_one :: "'f tbuf \<Rightarrow> 'f tbuf" where
  "deliver_one b =
     (let (st, r) = tracer_buf_load (tb_st b) (buf_last_undelivered b);
          st = (case r of
                  Some buf \<Rightarrow> fst (tracer_buf_save st (buf_last_undelivered b)
                                (buf\<lparr>tb_flags := tb_flags buf OR TRACER_FLAG_DELIVERED\<rparr>))
                | None \<Rightarrow> st)
      in b\<lparr>tb_st := st, buf_last_undelivered := buf_inc_ptr (buf_last_undelivered b)\<rparr>)"

partial_function (option) deliver_loop :: "'f tbuf \<Rightarrow> 'f tbuf option" where
  "deliver_loop b =
     (if buf_last_undelivered b \<noteq> buf_read_ptr b then deliver_loop (deliver_one b) else Some b)"

definition tracer_buf_delivered_all :: "bool \<Rightarrow> 'f tbuf \<Rightarrow> ('f tbuf \<times> bool) option" where
  "tracer_buf_delivered_all alloc b =
     (if \<not> alloc then Some (b, False) else map_option (\<lambda>b. (b, True)) (deliver_loop b))"

definition tracer_buf_empty :: "'f tbuf \<Rightarrow> bool" where
  "tracer_buf_empty b = (buf_read_ptr b = buf_save_ptr b)"

end
