(* ===== verification/Gps.thy ===== *)
theory Gps
  imports Nmea
begin

text \<open>
  \<open>app/gps.c\<close>: the reception of NMEA sentences with their checksum, the assembly of a
  position from the sentences of one epoch, the published positions, and the sleep timer of the
  receiver.  The calls of the SDK (buffer, comparison of prefixes, hexadecimal digits, time) are
  in \<open>gps_env\<close>.
\<close>

unbundle bit_operations_syntax

subsection \<open>State\<close>

text \<open>
  \<open>ge_append\<close> is \<open>buf_append_char\<close> (\<open>None\<close>: the buffer is full), \<open>ge_prefix s p\<close> the test
  \<open>stricmp2(s, p) == 0\<close>.
\<close>

record gps_env =
  ge_append :: "u8 list \<Rightarrow> u8 \<Rightarrow> u8 list option"
  ge_prefix :: "u8 list \<Rightarrow> u8 list \<Rightarrow> bool"
  ge_hex :: "u8 \<Rightarrow> u8"
  ge_now :: os_timer

datatype gps_rx_state = GPS_RX_IDLE | GPS_RX_DATA | GPS_RX_CHSUM

record gps =
  gp_tmp :: nmea_data
  gp_last :: nmea_data
  gp_last_valid :: nmea_data
  gp_fix_tm :: os_timer
  gp_sleep_tmr :: u16
  gp_error_cnt :: u16
  gp_postpone :: u16
  gp_sleep_mode :: bool
  gp_pwr :: bool
  gp_rx_ok :: bool
  gp_unsolicited :: u8
  gp_nbsat_visible :: u8
  gp_glonass_visible :: u8
  gp_glonass_used :: bool
  gp_init_rq :: bool
  gp_jamming :: u8
  gp_pmtk_ack :: bool
  gp_reset_tm :: os_timer
  gp_valid_data :: u8
  gp_rx :: gps_rx_state
  gp_chsum :: u8
  gp_rx_chsum :: u8
  gp_buf :: "u8 list"

abbreviation (input) SLEEP_WAKEUP :: u16 where "SLEEP_WAKEUP \<equiv> 36000"
abbreviation (input) SLEEP_TIMEOUT :: u16 where "SLEEP_TIMEOUT \<equiv> 1800"
abbreviation (input) SLEEP_DELAY :: u16 where "SLEEP_DELAY \<equiv> 150"
abbreviation (input) GPS_MAX_WAKEUP_TIME :: u32 where "GPS_MAX_WAKEUP_TIME \<equiv> 36000"

abbreviation (input) GPS_NMEA_GGA :: u8 where "GPS_NMEA_GGA \<equiv> 1"
abbreviation (input) GPS_NMEA_GSA :: u8 where "GPS_NMEA_GSA \<equiv> 2"
abbreviation (input) GPS_NMEA_GSV :: u8 where "GPS_NMEA_GSV \<equiv> 4"
abbreviation (input) GPS_NMEA_RMC :: u8 where "GPS_NMEA_RMC \<equiv> 8"
abbreviation (input) GPS_NMEA_VTG :: u8 where "GPS_NMEA_VTG \<equiv> 16"
abbreviation (input) GPS_NMEA_GLL :: u8 where "GPS_NMEA_GLL \<equiv> 32"
abbreviation (input) GPS_NMEA_PMTK :: u8 where "GPS_NMEA_PMTK \<equiv> 64"
abbreviation (input) GPS_NMEA_REQUIRED :: u8 where "GPS_NMEA_REQUIRED \<equiv> 13"

subsection \<open>Power and sleep\<close>

definition gps_wakeup :: "gps \<Rightarrow> gps" where
  "gps_wakeup g = (if \<not> gp_pwr g then g\<lparr>gp_pwr := True\<rparr> else g)"

definition gps_suspend :: "gps \<Rightarrow> gps" where
  "gps_suspend g = g\<lparr>gp_pwr := False, gp_nbsat_visible := 0, gp_glonass_visible := 0,
     gp_last := (gp_last g)\<lparr>nm_nbsat := 0, nm_fix := 0\<rparr>\<rparr>"

definition gps_sleep_enable :: "bool \<Rightarrow> gps \<Rightarrow> gps" where
  "gps_sleep_enable state g =
     (let g = (if state then g\<lparr>gp_sleep_tmr := SLEEP_TIMEOUT - SLEEP_DELAY\<rparr>
               else gps_wakeup (g\<lparr>gp_sleep_tmr := 0, gp_postpone := 0\<rparr>))
      in g\<lparr>gp_sleep_mode := state\<rparr>)"

definition gps_temporary_start :: "gps \<Rightarrow> gps" where
  "gps_temporary_start g =
     (if \<not> gp_sleep_mode g then g
      else let g = g\<lparr>gp_sleep_tmr := 0\<rparr> in if gp_pwr g then g else gps_wakeup g)"

definition gps_temporary_start_tmout :: "u32 \<Rightarrow> gps \<Rightarrow> gps" where
  "gps_temporary_start_tmout seconds g =
     (let tm = seconds * 10
      in if tm > GPS_MAX_WAKEUP_TIME then g
         else let g = gps_temporary_start g
              in if tm > ucast (gp_postpone g) then g\<lparr>gp_postpone := ucast tm\<rparr> else g)"

text \<open>100 ms.\<close>

definition gps_tick :: "gps \<Rightarrow> gps" where
  "gps_tick g =
     (if gp_sleep_mode g
      then let g = (if gp_postpone g \<noteq> 0 then g\<lparr>gp_postpone := gp_postpone g - 1\<rparr>
                    else g\<lparr>gp_sleep_tmr := gp_sleep_tmr g + 1\<rparr>)
           in if gp_sleep_tmr g > SLEEP_WAKEUP then (gps_wakeup g)\<lparr>gp_sleep_tmr := 0\<rparr>
              else if gp_sleep_tmr g = SLEEP_TIMEOUT then gps_suspend g
              else g
      else g)"

definition gps_init :: "gps \<Rightarrow> gps" where
  "gps_init g =
     (let g = g\<lparr>gp_tmp := nmea_zero, gp_last := nmea_zero, gp_last_valid := nmea_zero, gp_pwr := False,
                gp_glonass_used := False, gp_sleep_mode := True\<rparr>;
          g = gps_temporary_start_tmout (10 * 60) (gps_sleep_enable True g)
      in g\<lparr>gp_init_rq := True, gp_unsolicited := GPS_NMEA_PMTK\<rparr>)"

definition gps_reset :: "os_timer \<Rightarrow> gps \<Rightarrow> gps" where
  "gps_reset now g = g\<lparr>gp_reset_tm := now, gp_error_cnt := 0\<rparr>"

definition gps_set_unso :: "u8 \<Rightarrow> gps \<Rightarrow> gps" where
  "gps_set_unso m g = g\<lparr>gp_unsolicited := m\<rparr>"

text \<open>
  The sums of the timers wrap in 32 bits.  The serial dialogue that sets the speed of the port
  (\<open>gps_set_baudrate\<close>, \<open>pmtk_cmd\<close>) is not modelled; it ends with \<open>gps_init_rq\<close> cleared.
\<close>

definition gps_maintenance :: "os_timer \<Rightarrow> os_timer \<Rightarrow> gps \<Rightarrow> gps" where
  "gps_maintenance minute now g =
     (let g = (if gp_error_cnt g > 120 \<and> now > gp_reset_tm g + 10 * minute \<and> now > gp_fix_tm g + 5 * minute
               then gps_reset now g else g)
      in if gp_init_rq g \<and> gp_pwr g then g\<lparr>gp_init_rq := False\<rparr> else g)"

subsection \<open>What the rest of the program reads\<close>

definition gps_get_stored_stamp :: "gps \<Rightarrow> nmea_data \<times> bool" where
  "gps_get_stored_stamp g = (gp_last_valid g, nm_fix (gp_last_valid g) \<noteq> 0)"

definition gps_get_current_stamp :: "gps \<Rightarrow> nmea_data \<times> bool" where
  "gps_get_current_stamp g = (gp_last g, nm_fix (gp_last g) \<noteq> 0)"

definition gps_valid_stamp_age :: "os_timer \<Rightarrow> gps \<Rightarrow> u32" where
  "gps_valid_stamp_age now g = now - gp_fix_tm g"

definition gps_fix_ok :: "gps \<Rightarrow> bool" where
  "gps_fix_ok g \<longleftrightarrow> nm_fix (gp_last g) \<noteq> 0 \<and> gp_pwr g"

definition gps_get_speed :: "gps \<Rightarrow> u16" where
  "gps_get_speed g = (if \<not> gps_fix_ok g then 0 else (nm_speed (gp_last g) + 5) div 10)"

definition gps_get_nbsat :: "bool \<Rightarrow> gps \<Rightarrow> u8" where
  "gps_get_nbsat in_use g =
     (if in_use then nm_nbsat (gp_last g)
      else if nm_nbsat (gp_last g) > gp_nbsat_visible g then nm_nbsat (gp_last g) else gp_nbsat_visible g)"

definition gps_get_glonass_nbsat :: "bool \<Rightarrow> gps \<Rightarrow> u8" where
  "gps_get_glonass_nbsat in_use g =
     (if \<not> gp_glonass_used g then 0 else if in_use then 0 else gp_glonass_visible g)"

subsection \<open>Sentences\<close>

text \<open>The end of an epoch: all required sentences are there.\<close>

definition pos_in_range :: "nmea_data \<Rightarrow> bool" where
  "pos_in_range d \<longleftrightarrow> \<not> (sint (nm_lat_sec d) > 90 * 6000 * 60 \<or> sint (nm_lat_sec d) < -90 * 6000 * 60
     \<or> sint (nm_lon_sec d) > 180 * 6000 * 60 \<or> sint (nm_lon_sec d) < -180 * 6000 * 60)"

definition gps_epoch :: "os_timer \<Rightarrow> gps \<Rightarrow> gps" where
  "gps_epoch now g =
     (let tmp = (if pos_in_range (gp_tmp g) then gp_tmp g else (gp_tmp g)\<lparr>nm_lat_sec := 0, nm_lon_sec := 0\<rparr>);
          g = (if nm_lat_sec (gp_last g) = nm_lat_sec tmp \<and> nm_lon_sec (gp_last g) = nm_lon_sec tmp
               then g\<lparr>gp_error_cnt := gp_error_cnt g + 1\<rparr> else g\<lparr>gp_error_cnt := 0\<rparr>);
          g = g\<lparr>gp_last := tmp\<rparr>;
          g = (if nm_fix (gp_last g) > 0
               then let g = g\<lparr>gp_last_valid := gp_last g, gp_fix_tm := now\<rparr>
                    in if gp_sleep_mode g \<and> gp_sleep_tmr g < SLEEP_TIMEOUT - SLEEP_DELAY
                       then g\<lparr>gp_sleep_tmr := SLEEP_TIMEOUT - SLEEP_DELAY\<rparr> else g
               else g)
      in g\<lparr>gp_tmp := nmea_zero, gp_valid_data := 0\<rparr>)"

text \<open>A character of a text; behind its end the terminator.\<close>

definition char_at :: "u8 list \<Rightarrow> nat \<Rightarrow> u8" where
  "char_at s i = (if i < length s then s ! i else 0)"

text \<open>The answers of the receiver to its own commands; the echo on the console is not modelled.\<close>

definition gps_pmtk :: "gps_env \<Rightarrow> gps \<Rightarrow> u8 list \<Rightarrow> gps" where
  "gps_pmtk env g data =
     (if ge_prefix env data (str ''$PMTK'')
      then let data = drop 5 data
           in if take 3 data = str ''SPF''
              then let c = char_at (drop 3 data) 1
                   in if c = of_char CHR ''1'' then g\<lparr>gp_jamming := 0\<rparr>
                      else if c = of_char CHR ''2'' then g\<lparr>gp_jamming := 1\<rparr>
                      else if c = of_char CHR ''3'' then g\<lparr>gp_jamming := 2\<rparr>
                      else g
              else if take 3 data = str ''001'' then g\<lparr>gp_pmtk_ack := True\<rparr>
              else g
      else g)"

definition gps_mark :: "u8 \<Rightarrow> gps \<Rightarrow> gps" where
  "gps_mark b g = g\<lparr>gp_valid_data := gp_valid_data g OR b\<rparr>"

text \<open>The sentence by its type; \<open>data\<close> starts with it.\<close>

definition gps_nmea :: "gps_env \<Rightarrow> gps \<Rightarrow> u8 \<Rightarrow> u8 list \<Rightarrow> gps" where
  "gps_nmea env g protocol_id data =
     (if ge_prefix env data (str ''GGA'') then
        (let (tmp, ok) = nmea_parse_gga (gp_tmp g) data; g = g\<lparr>gp_tmp := tmp\<rparr>
         in if ok then gps_mark GPS_NMEA_GGA g else g)
      else if ge_prefix env data (str ''GSA'') then gps_mark GPS_NMEA_GSA g
      else if ge_prefix env data (str ''GSV'') then
        (let (nbsat, is_glonass) = nmea_parse_gsv protocol_id data;
             g = (if is_glonass then g\<lparr>gp_glonass_used := True, gp_glonass_visible := nbsat\<rparr>
                  else g\<lparr>gp_nbsat_visible := nbsat\<rparr>)
         in gps_mark GPS_NMEA_GSV g)
      else if ge_prefix env data (str ''RMC'') then
        (let (tmp, ok) = nmea_parse_rmc (gp_tmp g) data; g = g\<lparr>gp_tmp := tmp\<rparr>
         in if ok then gps_mark GPS_NMEA_RMC g else g)
      else if ge_prefix env data (str ''VTG'') then gps_mark GPS_NMEA_VTG g
      else if ge_prefix env data (str ''GLL'') then gps_mark GPS_NMEA_GLL g
      else g)"

definition gps_data_parser :: "gps_env \<Rightarrow> gps \<Rightarrow> u8 list \<Rightarrow> gps" where
  "gps_data_parser env g data =
     (if \<not> ge_prefix env data (str ''$G'') then gps_pmtk env g data
      else
        let g = g\<lparr>gp_rx_ok := True\<rparr>;
            data = drop 2 data;
            protocol_id = char_at data 0
        in if protocol_id \<noteq> of_char CHR ''P'' \<and> protocol_id \<noteq> of_char CHR ''L'' \<and> protocol_id \<noteq> of_char CHR ''N'' then g
           else let g = gps_nmea env g protocol_id (drop 1 data)
                in if gp_valid_data g AND GPS_NMEA_REQUIRED = GPS_NMEA_REQUIRED then gps_epoch (ge_now env) g else g)"

subsection \<open>Reception\<close>

text \<open>One character of the loop of \<open>gps_task\<close>.\<close>

definition gps_rx_char :: "gps_env \<Rightarrow> gps \<Rightarrow> u8 \<Rightarrow> gps" where
  "gps_rx_char env g ch =
     (let ch = (if ch = 10 \<or> ch = 13 then 0 else ch);
          g = (if ch = of_char CHR ''$'' then g\<lparr>gp_rx := GPS_RX_DATA, gp_chsum := ch, gp_buf := []\<rparr> else g)
      in if gp_rx g = GPS_RX_IDLE then g
         else
           let g = (if gp_rx g = GPS_RX_DATA
                    then (if ch = of_char CHR ''*'' then g\<lparr>gp_rx := GPS_RX_CHSUM, gp_rx_chsum := 0\<rparr>
                          else g\<lparr>gp_chsum := gp_chsum g XOR ch\<rparr>)
                    else if ch = 0 then g
                    else g\<lparr>gp_rx_chsum := push_bit 4 (gp_rx_chsum g) + ge_hex env ch\<rparr>)
           in case ge_append env (gp_buf g) ch of
                None \<Rightarrow> g\<lparr>gp_buf := [], gp_rx := GPS_RX_IDLE\<rparr>
              | Some b \<Rightarrow>
                  let g = g\<lparr>gp_buf := b\<rparr>
                  in if ch \<noteq> 0 then g
                     else let g = (if gp_chsum g \<noteq> gp_rx_chsum g then g
                                   else gps_data_parser env g (takeWhile (\<lambda>c. c \<noteq> 0) (gp_buf g)))
                          in g\<lparr>gp_rx := GPS_RX_IDLE, gp_buf := []\<rparr>)"

definition gps_task :: "gps_env \<Rightarrow> gps \<Rightarrow> u8 list \<Rightarrow> gps" where
  "gps_task env g rx = foldl (gps_rx_char env) g rx"

text \<open>\<open>gps_send_text\<close>: the characters sent, with the checksum of the text behind its first character.\<close>

definition hex_to_a :: "u8 \<Rightarrow> u8" where
  "hex_to_a ch = (let ch = ch AND 0xF in if ch \<ge> 10 then ch - 10 + of_char CHR ''A'' else ch + of_char CHR ''0'')"

definition gps_send_text :: "u8 list \<Rightarrow> u8 list" where
  "gps_send_text s =
     (let chsum = foldl (XOR) (of_char CHR ''$'') s
      in [13, 10] @ s @ [of_char CHR ''*'', hex_to_a (drop_bit 4 chsum AND 0xF), hex_to_a (chsum AND 0xF), 13, 10])"

end
