(* ===== verification/Tracer.thy ===== *)
theory Tracer
  imports TracerProto TracerBuffer Cfg NetTarget Gps Out
begin

text \<open>
  \<open>app/tracer/tracer.c\<close>: the tracking of the car.  A track is started by the key or by movement,
  stores a point of the GPS receiver in the point ring in regular intervals and is stopped after a
  delay; beside it the communication task sends the points of the ring to the server, one at a
  time, and marks them as delivered when the server has acknowledged them.

  The modem (resolver, connection, roaming), the accelerometer, the tick constants of the timer and
  the wake-ups of the waiting task are in \<open>tracer_env\<close>.  An operation reads the clock once
  (\<open>te_now\<close>), except in the waiting for an acknowledgement.  The signals of the LED are left out.
  \<open>None\<close> is a failed assertion or a loop that does not end.
\<close>

unbundle bit_operations_syntax

subsection \<open>State\<close>

abbreviation (input) SYSTEM_IO_PANIC :: u32 where "SYSTEM_IO_PANIC \<equiv> 0x10"
abbreviation (input) SYSTEM_INT_POWER_FAIL :: u32 where "SYSTEM_INT_POWER_FAIL \<equiv> 1"
abbreviation (input) SYSTEM_INT_BATT_LOW :: u32 where "SYSTEM_INT_BATT_LOW \<equiv> 2"
abbreviation (input) SYSTEM_INT_BATT_FAIL :: u32 where "SYSTEM_INT_BATT_FAIL \<equiv> 4"
abbreviation (input) TRACER_FLAG_VALID :: u8 where "TRACER_FLAG_VALID \<equiv> 2"
abbreviation (input) TRACER_FLAG_LAST :: u8 where "TRACER_FLAG_LAST \<equiv> 4"

abbreviation (input) LIMIT_TRACE_END :: int where "LIMIT_TRACE_END \<equiv> 3600"
abbreviation (input) LIMIT_TRACE_INTERVAL :: int where "LIMIT_TRACE_INTERVAL \<equiv> 3600"
abbreviation (input) TRACER_UNIT_ID_MAX :: int where "TRACER_UNIT_ID_MAX \<equiv> 0x7FFFFFFE"
abbreviation (input) TRACER_PERIOD_DYNAMIC :: u16 where "TRACER_PERIOD_DYNAMIC \<equiv> 0"
abbreviation (input) TRACER_PERIOD_DYNAMIC_MAX :: u16 where "TRACER_PERIOD_DYNAMIC_MAX \<equiv> 30"
abbreviation (input) TRACER_PERIOD_DYNAMIC_MIN :: u16 where "TRACER_PERIOD_DYNAMIC_MIN \<equiv> 1"
abbreviation (input) TRACER_END_POWER_FAIL :: u8 where "TRACER_END_POWER_FAIL \<equiv> 1"
abbreviation (input) TRACER_SEND_MODE_BULK :: u8 where "TRACER_SEND_MODE_BULK \<equiv> 1"
abbreviation (input) TRACER_SEND_MODE_OFF :: u8 where "TRACER_SEND_MODE_OFF \<equiv> 2"
abbreviation (input) TRACER_START_MODE_KEY :: u8 where "TRACER_START_MODE_KEY \<equiv> 1"
abbreviation (input) TRACER_START_MODE_SHOCK :: u8 where "TRACER_START_MODE_SHOCK \<equiv> 2"
abbreviation (input) MAX_SEND_RETRY :: u8 where "MAX_SEND_RETRY \<equiv> 5"

record tracer_env =
  te_now :: os_timer
  te_second :: os_timer
  te_minute :: os_timer
  te_ms :: os_timer
  te_alloc :: bool
  te_number :: parse_api
  te_dns :: "u8 list \<Rightarrow> bool \<times> u32"
  te_connect_dns :: bool
  te_connect :: bool
  te_roaming :: bool
  te_dir_none :: u8
  te_dir :: u8
  te_dir_store :: u8
  te_sia :: bool
  te_proto :: proto_env
  te_enc :: "nmea_data \<Rightarrow> u8 list"
  te_dec :: "u8 list \<Rightarrow> nmea_data"
  te_wait :: "nat \<Rightarrow> os_timer \<times> bool"

record tracer_param =
  pm_unit_id :: u32
  pm_period :: u16
  pm_period_roaming :: u16
  pm_wait_time :: u16
  pm_protocol :: u8
  pm_start_speed :: u8
  pm_send_mode :: u8
  pm_start_mode :: u8

definition TRACER_PARAM_DEFAULT :: tracer_param where
  "TRACER_PARAM_DEFAULT = \<lparr>pm_unit_id = 0, pm_period = 10, pm_period_roaming = 10, pm_wait_time = 20,
     pm_protocol = 0, pm_start_speed = 3, pm_send_mode = 0, pm_start_mode = 3\<rparr>"

text \<open>
  The static variables of the file, those of the point ring, of the protocols and of the receiver,
  the two system words, the requests for a re-initialisation of \<open>cfg_write\<close>, and the packets sent.
  The configuration is in the flash of the ring.
\<close>

record 'f tracer =
  tr_server_ip :: u32
  tr_server_port :: u16
  tr_point_time :: os_timer
  tr_store_period :: u16
  tr_point_last :: os_timer
  tr_dyn_dir :: u8
  tr_end_mode :: u8
  tr_p :: tracer_param
  tr_stop_rq :: bool
  tr_stop_tmr :: os_timer
  tr_comm_sleep_tmr :: os_timer
  tr_start_pending :: bool
  tr_last_fix_tmr :: os_timer
  tr_packet_ack :: bool
  tr_no_fix_reset :: bool
  tr_point :: u16
  tr_track :: u16
  tr_user_id :: u8
  tr_new_track_id :: u16
  tr_driver_tmr :: os_timer
  tr_active :: bool
  tr_shock_active :: bool
  tr_shock_stop_rq :: bool
  tr_shock_start_tmr :: os_timer
  tr_easy_fix :: bool
  tr_external :: bool
  tr_tmout :: u32
  tr_send_retry :: u8
  tr_proto :: tproto
  tr_buf :: "'f tbuf"
  tr_cfg_reinit :: "u16 list"
  tr_gps :: gps
  tr_io :: u32
  tr_int :: u32
  tr_sent :: "udp_packet list"

text \<open>\<open>_sec\<close>: seconds in ticks.\<close>

definition tsec :: "tracer_env \<Rightarrow> u16 \<Rightarrow> os_timer" where
  "tsec env s = ucast s * te_second env"

definition tracer_comm_sleep :: "tracer_env \<Rightarrow> os_timer \<Rightarrow> u16 \<Rightarrow> 'f tracer \<Rightarrow> 'f tracer" where
  "tracer_comm_sleep env now tm t = t\<lparr>tr_comm_sleep_tmr := now + ucast tm * te_second env\<rparr>"

subsection \<open>Configuration\<close>

definition tr_cfg :: "'f tracer \<Rightarrow> 'f cfg_st" where
  "tr_cfg t = \<lparr>cf_store = tb_st (tr_buf t), cf_reinit = tr_cfg_reinit t\<rparr>"

definition tr_set_cfg :: "'f cfg_st \<Rightarrow> 'f tracer \<Rightarrow> 'f tracer" where
  "tr_set_cfg cf t = t\<lparr>tr_buf := (tr_buf t)\<lparr>tb_st := cf_store cf\<rparr>, tr_cfg_reinit := cf_reinit cf\<rparr>"

definition tr_cfg_read :: "'f tracer \<Rightarrow> u16 \<Rightarrow> ('f tracer \<times> bool \<times> u8 list) option" where
  "tr_cfg_read t i =
     (case cfg_read (tr_cfg t) i ACCESS_SYSTEM of (cf, r) \<Rightarrow> map_option (\<lambda>r. (tr_set_cfg cf t, r)) r)"

text \<open>The next number and the text behind its separator; without a number the text stays.\<close>

definition num_next :: "parse_api \<Rightarrow> u8 list \<Rightarrow> (int \<times> u8 list) option" where
  "num_next P s =
     (case pa_number P s of
        None \<Rightarrow> None
      | Some (n, p) \<Rightarrow> Some (n, case pa_separator P p of Some q \<Rightarrow> q | None \<Rightarrow> p))"

definition num_get :: "parse_api \<Rightarrow> int \<Rightarrow> int \<Rightarrow> int \<Rightarrow> u8 list \<Rightarrow> int \<times> u8 list" where
  "num_get P lo hi d s =
     (case num_next P s of
        None \<Rightarrow> (d, s)
      | Some (n, s) \<Rightarrow> (if n < lo \<or> n > hi then d else n, s))"

definition param_load :: "parse_api \<Rightarrow> u8 list \<Rightarrow> tracer_param" where
  "param_load P s =
     (let (unit_id, s) = num_get P 0 TRACER_UNIT_ID_MAX 0 s;
          (period, s) = num_get P 0 LIMIT_TRACE_INTERVAL 10 s;
          (period_roaming, s) = num_get P 1 LIMIT_TRACE_INTERVAL 10 s;
          (wait_time, s) = num_get P 1 LIMIT_TRACE_END 20 s;
          (protocol, s) = num_get P 0 1 0 s;
          (start_speed, s) = num_get P 1 99 3 s;
          (send_mode, s) = num_get P 0 2 0 s;
          (start_mode, s) = num_get P 0 3 3 s
      in \<lparr>pm_unit_id = word_of_int unit_id, pm_period = word_of_int period,
          pm_period_roaming = word_of_int period_roaming, pm_wait_time = word_of_int wait_time,
          pm_protocol = word_of_int protocol, pm_start_speed = word_of_int start_speed,
          pm_send_mode = word_of_int send_mode, pm_start_mode = word_of_int start_mode\<rparr>)"

text \<open>The out-parameters of \<open>net_get_target_ip\<close>; then \<open>_tracer_resolve_server\<close>, whose result is the flag.\<close>

definition set_target :: "bool \<times> u32 \<times> u16 option \<Rightarrow> 'f tracer \<Rightarrow> 'f tracer" where
  "set_target r t =
     t\<lparr>tr_server_ip := fst (snd r), tr_server_port := (case snd (snd r) of Some p \<Rightarrow> p | None \<Rightarrow> tr_server_port t)\<rparr>"

definition tracer_resolve_server :: "tracer_env \<Rightarrow> 'f tracer \<Rightarrow> ('f tracer \<times> bool) option" where
  "tracer_resolve_server env t =
     do { (t, r, cfg) \<leftarrow> tr_cfg_read t CFG_ID_TRACER_ADDR;
          let t = (if r then set_target (net_get_target_ip (te_dns env) cfg) t else t);
          Some (t, tr_server_ip t \<noteq> 0) }"

text \<open>The cleared common buffer holds the empty text.\<close>

definition tracer_server_reinit :: "u32 \<Rightarrow> 'f tracer \<Rightarrow> 'f tracer" where
  "tracer_server_reinit new_id t =
     t\<lparr>tr_p := (tr_p t)\<lparr>pm_unit_id := new_id\<rparr>,
       tr_proto := proto_reinit new_id ((tr_proto t)\<lparr>tp_buffer := []\<rparr>)\<rparr>"

definition tracer_reinit :: "tracer_env \<Rightarrow> 'f tracer \<Rightarrow> 'f tracer option" where
  "tracer_reinit env t =
     do { (t, _) \<leftarrow> tracer_resolve_server env t;
          let t = t\<lparr>tr_p := TRACER_PARAM_DEFAULT, tr_point_time := 0, tr_point_last := 0, tr_dyn_dir := te_dir_none env\<rparr>;
          (t, r, cfg) \<leftarrow> tr_cfg_read t CFG_ID_TRACER_PARAM;
          let t = (if r then t\<lparr>tr_p := param_load (te_number env) cfg\<rparr> else t);
          let t = t\<lparr>tr_proto := pfunc_reinit (te_sia env) (pm_protocol (tr_p t)) (tr_proto t)\<rparr>;
          let t = tracer_server_reinit (pm_unit_id (tr_p t)) t;
          Some (t\<lparr>tr_packet_ack := False\<rparr>) }"

definition tracer_set_user_id :: "u8 \<Rightarrow> 'f tracer \<Rightarrow> 'f tracer" where
  "tracer_set_user_id i t = t\<lparr>tr_user_id := i, tr_driver_tmr := 0\<rparr>"

definition tracer_init :: "tracer_env \<Rightarrow> 'f tracer \<Rightarrow> ('f tracer \<times> bool) option" where
  "tracer_init env t =
     do { t \<leftarrow> tracer_reinit env (t\<lparr>tr_proto := pfunc_reinit (te_sia env) 0 (tr_proto t)\<rparr>);
          (b, r, track, info) \<leftarrow> tracer_buf_init (te_alloc env) (tr_buf t);
          let t = t\<lparr>tr_buf := b\<rparr>;
          if r
          then let t = tracer_set_user_id (ti_driver_id info) (t\<lparr>tr_track := track\<rparr>)
               in Some (if ti_track_type info then t\<lparr>tr_io := tr_io t OR SYSTEM_IO_TRACK\<rparr> else t, True)
          else Some (t, False) }"

definition param_text :: "tracer_param \<Rightarrow> u8 list" where
  "param_text p =
     show_nat (unat (pm_unit_id p)) @ str '','' @ show_nat (unat (pm_period p)) @ str '','' @
     show_nat (unat (pm_period_roaming p)) @ str '','' @ show_nat (unat (pm_wait_time p)) @ str '','' @
     show_nat (unat (pm_protocol p)) @ str '','' @ show_nat (unat (pm_start_speed p)) @ str '','' @
     show_nat (unat (pm_send_mode p)) @ str '','' @ show_nat (unat (pm_start_mode p))"

text \<open>\<open>snprintf\<close> cuts the text at the size of an item.\<close>

definition tracer_save_config :: "tracer_param \<Rightarrow> 'f tracer \<Rightarrow> 'f tracer \<times> bool" where
  "tracer_save_config p t =
     (if uint (pm_unit_id p) > TRACER_UNIT_ID_MAX then (t, False)
      else case cfg_write (tr_cfg t) CFG_ID_TRACER_PARAM (take (CFG_ITEM_SIZE - 1) (param_text p)) ACCESS_SYSTEM of
             (cf, r) \<Rightarrow>
               let t = tr_set_cfg cf t
               in if \<not> r then (t, False) else (tracer_server_reinit (pm_unit_id p) t, True))"

definition tracer_set_id :: "u32 \<Rightarrow> 'f tracer \<Rightarrow> 'f tracer \<times> bool" where
  "tracer_set_id i t = (let t = t\<lparr>tr_p := (tr_p t)\<lparr>pm_unit_id := i\<rparr>\<rparr> in tracer_save_config (tr_p t) t)"

definition tracer_set_track_id :: "tracer_env \<Rightarrow> u16 \<Rightarrow> 'f tracer \<Rightarrow> 'f tracer" where
  "tracer_set_track_id env i t =
     tracer_comm_sleep env (te_now env) 1 (t\<lparr>tr_new_track_id := if i = 0 then i + 1 else i\<rparr>)"

definition tracer_server_setup_ok :: "'f tracer \<Rightarrow> bool" where
  "tracer_server_setup_ok t \<longleftrightarrow> tr_server_ip t \<noteq> 0 \<and> tr_server_port t \<noteq> 0 \<and> pm_unit_id (tr_p t) \<noteq> 0"

subsection \<open>Start and stop of a track\<close>

definition tracer_is_active :: "'f tracer \<Rightarrow> bool" where
  "tracer_is_active t \<longleftrightarrow> tr_active t \<or> tr_io t AND SYSTEM_IO_TRACING \<noteq> 0"

definition tracer_activate :: "'f tracer \<Rightarrow> 'f tracer" where
  "tracer_activate t = t\<lparr>tr_active := True\<rparr>"

definition tracer_deactivate :: "'f tracer \<Rightarrow> 'f tracer" where
  "tracer_deactivate t = t\<lparr>tr_stop_rq := False, tr_active := False, tr_io := tr_io t AND NOT SYSTEM_IO_TRACING\<rparr>"

definition tracer_start_now :: "tracer_env \<Rightarrow> 'f tracer \<Rightarrow> 'f tracer \<times> bool" where
  "tracer_start_now env t =
     (if tr_stop_tmr t \<noteq> 0 then (t\<lparr>tr_stop_tmr := 0\<rparr>, False)
      else
        let t = (if tr_stop_rq t then t\<lparr>tr_stop_rq := False\<rparr> else t)
        in if tracer_is_active t then (t, False)
           else if \<not> tracer_server_setup_ok t
           then (if tr_server_ip t = 0 \<and> tr_server_port t \<noteq> 0 then t\<lparr>tr_start_pending := True\<rparr> else t, False)
           else
             let t = t\<lparr>tr_start_pending := False\<rparr>;
                 t = t\<lparr>tr_gps := gps_sleep_enable False (tr_gps t)\<rparr>;
                 t = t\<lparr>tr_last_fix_tmr := te_now env, tr_no_fix_reset := True, tr_point := 0,
                       tr_point_time := te_now env + 5 * te_second env, tr_point_last := te_now env,
                       tr_dyn_dir := te_dir_none env\<rparr>
             in (tracer_activate t, True))"

definition tracer_stop_now :: "tracer_env \<Rightarrow> 'f tracer \<Rightarrow> 'f tracer" where
  "tracer_stop_now env t =
     (if tracer_is_active t
      then if tr_point t = 0
           then let t = tracer_deactivate t in t\<lparr>tr_gps := gps_sleep_enable True (tr_gps t)\<rparr>
           else t\<lparr>tr_stop_tmr := te_now env + tsec env (pm_wait_time (tr_p t))\<rparr>
      else t\<lparr>tr_gps := gps_sleep_enable True (tr_gps t)\<rparr>)"

definition tracer_start :: "tracer_env \<Rightarrow> 'f tracer \<Rightarrow> 'f tracer" where
  "tracer_start env t = (case tracer_start_now env t of (t, r) \<Rightarrow> if r then t\<lparr>tr_external := True\<rparr> else t)"

definition tracer_key_start :: "tracer_env \<Rightarrow> 'f tracer \<Rightarrow> 'f tracer" where
  "tracer_key_start env t =
     (if pm_start_mode (tr_p t) AND TRACER_START_MODE_KEY = 0 then t else tracer_start env t)"

definition tracer_stop :: "tracer_env \<Rightarrow> 'f tracer \<Rightarrow> 'f tracer" where
  "tracer_stop env t = (tracer_stop_now env (t\<lparr>tr_start_pending := False\<rparr>))\<lparr>tr_external := False\<rparr>"

definition tracer_test :: "tracer_env \<Rightarrow> 'f tracer \<Rightarrow> 'f tracer \<times> bool" where
  "tracer_test env t =
     (if tracer_is_active t then (t, True)
      else if \<not> tracer_server_setup_ok t then (t, False)
      else
        let t = tracer_start env t;
            period = pm_period (tr_p t)
        in (t\<lparr>tr_stop_tmr := te_now env + 21 * tsec env (if period \<noteq> 0 then period else TRACER_PERIOD_DYNAMIC_MAX)\<rparr>, True))"

definition tracer_wait_for_driver_id :: "'f tracer \<Rightarrow> bool" where
  "tracer_wait_for_driver_id t \<longleftrightarrow> tr_driver_tmr t \<noteq> 0"

definition tracer_new_valid_stamp :: "tracer_env \<Rightarrow> 'f tracer \<Rightarrow> 'f tracer" where
  "tracer_new_valid_stamp env t = t\<lparr>tr_last_fix_tmr := te_now env\<rparr>"

subsection \<open>Sending\<close>

text \<open>
  The loop of \<open>wait_for_ack\<close>: \<open>te_wait env i\<close> is the time of the wake-up \<open>i\<close> and whether an
  acknowledgement has arrived during the sleep.  The result is the last time read and whether the
  loop was left by the break.
\<close>

partial_function (option) ack_loop :: "tracer_env \<Rightarrow> os_timer \<Rightarrow> bool \<Rightarrow> nat \<Rightarrow> os_timer \<Rightarrow> (os_timer \<times> bool) option" where
  "ack_loop env limit ack i now =
     (if now < limit
      then (case te_wait env i of
              (now, a) \<Rightarrow> if \<not> (ack \<or> a) then ack_loop env limit ack (Suc i) now else Some (now, True))
      else Some (now, False))"

definition tmout_max :: "tracer_env \<Rightarrow> u32" where
  "tmout_max env = 5 * te_second env"

definition tmout_min :: "tracer_env \<Rightarrow> u32" where
  "tmout_min env = 200 * te_ms env"

text \<open>The timeout of the next waiting: 3/2 of the last one or of the time the answer took, in bounds.\<close>

definition ack_tmout :: "tracer_env \<Rightarrow> u32 \<Rightarrow> u32" where
  "ack_tmout env tmout =
     (let tmout = tmout + drop_bit 1 tmout;
          tmout = (if tmout > tmout_max env then tmout_max env else tmout)
      in if tmout < tmout_min env then tmout_min env else tmout)"

definition wait_for_ack :: "tracer_env \<Rightarrow> 'f tracer \<Rightarrow> ('f tracer \<times> os_timer \<times> bool) option" where
  "wait_for_ack env t =
     do { (now, result) \<leftarrow> ack_loop env (te_now env + tr_tmout t) (tr_packet_ack t) 0 (te_now env);
          let t = (if result then t\<lparr>tr_packet_ack := False, tr_tmout := now - te_now env\<rparr> else t);
          Some (t\<lparr>tr_tmout := ack_tmout env (tr_tmout t)\<rparr>, now, result) }"

text \<open>\<open>net_udp_tx\<close>; the source address is not set.\<close>

definition tracer_packet :: "'f tracer \<Rightarrow> udp_packet" where
  "tracer_packet t =
     \<lparr>up_dst_ip = tr_server_ip t, up_src_ip = 0, up_data = tp_buffer (tr_proto t), up_dst_port = tr_server_port t,
      up_src_port = tr_server_port t, up_datalen = proto_packet_size (tr_proto t)\<rparr>"

definition tr_done :: "tracer_env \<Rightarrow> 'f tracer \<Rightarrow> 'f tracer" where
  "tr_done env t = t\<lparr>tr_proto := proto_packet_done (te_proto env) (tr_proto t)\<rparr>"

text \<open>Behind an attempt that failed, at the time \<open>now\<close>.\<close>

definition comm_retry :: "tracer_env \<Rightarrow> os_timer \<Rightarrow> 'f tracer \<Rightarrow> 'f tracer" where
  "comm_retry env now t =
     (if tr_send_retry t < MAX_SEND_RETRY then t\<lparr>tr_send_retry := tr_send_retry t + 1\<rparr>
      else tracer_comm_sleep env now 30 t)"

definition comm_send :: "tracer_env \<Rightarrow> 'f tracer \<Rightarrow> 'f tracer option" where
  "comm_send env t =
     (if te_connect env
      then if tr_server_ip t = 0 \<or> tr_server_port t = 0
           then do { t \<leftarrow> tracer_reinit env t;
                     Some (tr_done env (tracer_comm_sleep env (te_now env) 60 t)) }
           else
             let t = t\<lparr>tr_packet_ack := False, tr_sent := tr_sent t @ [tracer_packet t]\<rparr>
             in do { (t, now, r) \<leftarrow> wait_for_ack env t;
                     if r
                     then do { let t = tr_done env (t\<lparr>tr_send_retry := 0\<rparr>);
                               (b, _) \<leftarrow> tracer_buf_delivered_all (te_alloc env) (tr_buf t);
                               Some (t\<lparr>tr_buf := b\<rparr>) }
                     else Some (comm_retry env now (tracer_comm_sleep env now 1 t)) }
      else Some (comm_retry env (te_now env) (tracer_comm_sleep env (te_now env) 5 t)))"

text \<open>Nothing is pending: the next point of the ring goes to the protocol.\<close>

definition comm_load :: "tracer_env \<Rightarrow> 'f tracer \<Rightarrow> 'f tracer option" where
  "comm_load env t =
     (if tracer_buf_empty (tr_buf t) then Some (tracer_comm_sleep env (te_now env) 5 t)
      else
        case tracer_buf_read_next (te_alloc env) (tr_buf t) of
          (b, Some (_, r)) \<Rightarrow>
            do { p \<leftarrow> proto_new_point (te_proto env) (te_dec env (tb_position r)) (tb_info r) (tr_proto t);
                 Some (t\<lparr>tr_buf := b, tr_proto := p\<rparr>) }
        | (b, None) \<Rightarrow> Some (tracer_comm_sleep env (te_now env) 10 (t\<lparr>tr_buf := b\<rparr>)))"

definition comm_packet :: "tracer_env \<Rightarrow> 'f tracer \<Rightarrow> 'f tracer option" where
  "comm_packet env t =
     (if proto_packet_ready (tr_proto t)
      then if pm_send_mode (tr_p t) = TRACER_SEND_MODE_OFF then Some (tracer_comm_sleep env (te_now env) 60 t)
           else if pm_send_mode (tr_p t) = TRACER_SEND_MODE_BULK \<and> tracer_is_active t
           then Some (tracer_comm_sleep env (te_now env) 5 t)
           else comm_send env t
      else comm_load env t)"

definition tracer_comm_process :: "tracer_env \<Rightarrow> 'f tracer \<Rightarrow> 'f tracer option" where
  "tracer_comm_process env t =
     (if te_now env < tr_comm_sleep_tmr t then Some t
      else if tr_new_track_id t \<noteq> 0 \<and> \<not> tracer_is_active t
      then Some (t\<lparr>tr_buf := fst (tracer_buf_hard_erase (te_alloc env) (tr_buf t)),
                   tr_track := tr_new_track_id t - 1, tr_new_track_id := 0\<rparr>)
      else if tracer_server_setup_ok t then comm_packet env t
      else do {
        t \<leftarrow> (if tr_server_ip t = 0 \<and> tr_server_port t \<noteq> 0 \<and> te_connect_dns env
              then map_option fst (tracer_resolve_server env t) else Some t);
        if \<not> tracer_server_setup_ok t then Some (tracer_comm_sleep env (te_now env) 60 t)
        else comm_packet env t })"

definition tracer_packet_rx :: "tracer_env \<Rightarrow> u8 list \<Rightarrow> u16 \<Rightarrow> u16 \<Rightarrow> 'f tracer \<Rightarrow> ('f tracer \<times> bool) option" where
  "tracer_packet_rx env data len port t =
     (if port \<noteq> tr_server_port t then Some (t, False)
      else do { r \<leftarrow> proto_packet_reply_ok (te_proto env) (tr_proto t) data len;
                Some (if r then (t\<lparr>tr_packet_ack := True\<rparr>, True) else (t, False)) })"

subsection \<open>Points\<close>

definition map_inputs :: "u32 \<Rightarrow> u8" where
  "map_inputs io =
     (if io AND SYSTEM_IO_PANIC \<noteq> 0 then 1 else 0) OR (if io AND SYSTEM_IO_INP1 \<noteq> 0 then 2 else 0)
     OR (if io AND SYSTEM_IO_INP2 \<noteq> 0 then 4 else 0) OR (if io AND SYSTEM_IO_INP3 \<noteq> 0 then 64 else 0)
     OR (if io AND SYSTEM_IO_KEY \<noteq> 0 then 8 else 0) OR (if io AND SYSTEM_IO_DOOR \<noteq> 0 then 16 else 0)
     OR (if io AND SYSTEM_IO_SHOCK \<noteq> 0 then 32 else 0)"

text \<open>\<open>proto->new_track\<close> does nothing in both protocols.  The information word is built first.\<close>

definition point_info :: "'f tracer \<Rightarrow> u32" where
  "point_info t = track_info (tr_user_id t) (tr_io t AND SYSTEM_IO_TRACK \<noteq> 0) (map_inputs (tr_io t)) 0
     (if tr_int t AND SYSTEM_INT_POWER_FAIL \<noteq> 0 then 2 else 0)"

definition next_point :: "'f tracer \<Rightarrow> 'f tracer" where
  "next_point t =
     (let t = (if tr_point t = 0 then t\<lparr>tr_track := tr_track t + 1, tr_io := tr_io t OR SYSTEM_IO_TRACING\<rparr> else t)
      in t\<lparr>tr_point := tr_point t + 1\<rparr>)"

definition point_flags :: "'f tracer \<Rightarrow> u8" where
  "point_flags t = (if snd (gps_get_current_stamp (tr_gps t)) then TRACER_FLAG_VALID else 0)
     OR (if tr_stop_rq t then TRACER_FLAG_LAST else 0)"

definition tracer_new_point :: "tracer_env \<Rightarrow> 'f tracer \<Rightarrow> 'f tracer" where
  "tracer_new_point env t =
     (let t = next_point t;
          (b, _) = tracer_buf_store_position (te_alloc env) (tr_buf t) (te_enc env (fst (gps_get_current_stamp (tr_gps t))))
                     (tr_track t) (tr_point t) (point_flags t) (point_info t)
      in t\<lparr>tr_buf := b\<rparr>)"

subsection \<open>Start by movement\<close>

definition tracer_power_stop :: "'f tracer \<Rightarrow> bool" where
  "tracer_power_stop t \<longleftrightarrow> tr_int t AND SYSTEM_INT_POWER_FAIL \<noteq> 0
     \<and> (tr_int t AND (SYSTEM_INT_BATT_LOW OR SYSTEM_INT_BATT_FAIL) \<noteq> 0 \<or> tr_end_mode t = TRACER_END_POWER_FAIL)"

definition tracer_shock_start :: "tracer_env \<Rightarrow> bool \<Rightarrow> 'f tracer \<Rightarrow> 'f tracer" where
  "tracer_shock_start env state t =
     (if state
      then if pm_start_mode (tr_p t) AND TRACER_START_MODE_SHOCK = 0 then t
           else
             let t = (if \<not> tr_shock_active t \<and> \<not> tracer_power_stop t
                      then t\<lparr>tr_shock_start_tmr := te_now env + 60 * te_second env\<rparr> else t)
             in t\<lparr>tr_shock_stop_rq := False\<rparr>
      else if tr_shock_active t then t\<lparr>tr_shock_stop_rq := True\<rparr> else t)"

definition tracer_shock_task :: "tracer_env \<Rightarrow> 'f tracer \<Rightarrow> 'f tracer" where
  "tracer_shock_task env t =
     (if tr_external t then t
      else if tracer_power_stop t
      then if tr_shock_active t then tracer_stop_now env (t\<lparr>tr_shock_active := False\<rparr>) else t
      else if te_now env < tr_shock_start_tmr t
      then let t = t\<lparr>tr_gps := gps_temporary_start_tmout 30 (tr_gps t)\<rparr>
           in if (tr_easy_fix t \<and> gps_fix_ok (tr_gps t)) \<or> gps_get_speed (tr_gps t) \<ge> ucast (pm_start_speed (tr_p t))
              then fst (tracer_start_now env (t\<lparr>tr_shock_start_tmr := 0, tr_shock_active := True\<rparr>))
              else t
      else if tr_shock_stop_rq t
      then if gps_get_speed (tr_gps t) < 2
           then tracer_stop_now env (t\<lparr>tr_shock_active := False, tr_shock_stop_rq := False\<rparr>)
           else t
      else t)"

subsection \<open>The task\<close>

definition tracer_dynamic_point :: "tracer_env \<Rightarrow> 'f tracer \<Rightarrow> bool" where
  "tracer_dynamic_point env t \<longleftrightarrow>
     (if tr_point t = 0 then False
      else if te_now env - tr_point_last t < tsec env TRACER_PERIOD_DYNAMIC_MIN then False
      else if te_dir env = te_dir_none env \<or> tr_dyn_dir t = te_dir_none env then False
      else te_dir env \<noteq> tr_dyn_dir t)"

text \<open>A start by the key that waited for the name of the server.\<close>

definition task_pending :: "tracer_env \<Rightarrow> 'f tracer \<Rightarrow> 'f tracer" where
  "task_pending env t =
     (if tr_start_pending t
      then if tracer_server_setup_ok t then tracer_start env (t\<lparr>tr_start_pending := False\<rparr>)
           else if tr_server_port t = 0 then t\<lparr>tr_start_pending := False\<rparr>
           else t
      else t)"

text \<open>The timers of an active track.\<close>

definition task_timers :: "tracer_env \<Rightarrow> 'f tracer \<Rightarrow> 'f tracer" where
  "task_timers env t =
     (let now = te_now env;
          t = (if pm_period (tr_p t) = TRACER_PERIOD_DYNAMIC \<and> tracer_dynamic_point env t
               then t\<lparr>tr_point_time := now\<rparr> else t);
          t = (if tr_driver_tmr t \<noteq> 0 \<and> now > tr_driver_tmr t then t\<lparr>tr_driver_tmr := 0\<rparr> else t)
      in if tr_stop_tmr t \<noteq> 0
         then let t = (if now > tr_stop_tmr t
                       then t\<lparr>tr_stop_tmr := 0, tr_stop_rq := True, tr_point_time := now + te_second env\<rparr> else t)
              in if tr_int t AND SYSTEM_INT_POWER_FAIL \<noteq> 0 \<and> tr_stop_tmr t > now + 20 * te_second env
                 then t\<lparr>tr_stop_tmr := now + 20 * te_second env\<rparr> else t
         else t)"

text \<open>The reset of a receiver without a fix, at most once in a track; two cases of the source.\<close>

definition task_fix :: "tracer_env \<Rightarrow> 'f tracer \<Rightarrow> 'f tracer" where
  "task_fix env t =
     (let now = te_now env
      in if now - tr_last_fix_tmr t > 30 * te_second env \<and> tr_no_fix_reset t
         then let age = gps_valid_stamp_age now (tr_gps t);
                  t = (if age < 10 * te_minute env \<and> age > 1 * te_minute env
                       then t\<lparr>tr_no_fix_reset := False, tr_gps := gps_reset now (tr_gps t)\<rparr> else t)
              in if now - tr_last_fix_tmr t > 100 * te_second env
                 then t\<lparr>tr_no_fix_reset := False, tr_gps := gps_reset now (tr_gps t)\<rparr> else t
         else t)"

text \<open>The interval to the next point is cut to 16 bits.\<close>

definition task_period :: "tracer_env \<Rightarrow> 'f tracer \<Rightarrow> 'f tracer" where
  "task_period env t =
     (let t = (if pm_period (tr_p t) = TRACER_PERIOD_DYNAMIC
               then (if te_dir_store env \<noteq> te_dir_none env then t\<lparr>tr_dyn_dir := te_dir_store env\<rparr> else t)
                     \<lparr>tr_store_period := ucast (tsec env TRACER_PERIOD_DYNAMIC_MAX)\<rparr>
               else if te_roaming env then t\<lparr>tr_store_period := ucast (tsec env (pm_period_roaming (tr_p t)))\<rparr>
               else t\<lparr>tr_store_period := ucast (tsec env (pm_period (tr_p t)))\<rparr>)
      in if ucast (tr_store_period t) < te_second env then t\<lparr>tr_store_period := ucast (te_second env)\<rparr> else t)"

definition task_next :: "tracer_env \<Rightarrow> 'f tracer \<Rightarrow> 'f tracer" where
  "task_next env t =
     (let t = t\<lparr>tr_point_time := tr_point_time t + ucast (tr_store_period t)\<rparr>
      in if tr_point_time t < te_now env then t\<lparr>tr_point_time := te_now env + ucast (tr_store_period t)\<rparr> else t)"

definition task_point :: "tracer_env \<Rightarrow> 'f tracer \<Rightarrow> 'f tracer" where
  "task_point env t =
     (let t = (tracer_new_point env (task_next env (task_period env t)))\<lparr>tr_point_last := te_now env\<rparr>
      in if tr_stop_rq t
         then let t = tracer_deactivate (t\<lparr>tr_stop_rq := False\<rparr>) in t\<lparr>tr_gps := gps_sleep_enable True (tr_gps t)\<rparr>
         else t)"

definition tracer_task :: "tracer_env \<Rightarrow> 'f tracer \<Rightarrow> 'f tracer" where
  "tracer_task env t =
     (let t = task_pending env (tracer_shock_task env t)
      in if \<not> tracer_is_active t then t
         else let t = task_fix env (task_timers env t)
              in if te_now env < tr_point_time t then t else task_point env t)"

end
