(* ===== verification/CmsSiaProps.thy ===== *)
theory CmsSiaProps
  imports CmsSia
begin

text \<open>
  The laws of the SIA codec: the table-driven checksum against the bitwise CRC-16, and the frames it
  builds against the check of a received frame.
\<close>

unbundle bit_operations_syntax

subsection \<open>The bitwise CRC\<close>

definition crc_step :: "u16 \<Rightarrow> u16" where
  "crc_step c = (if bit c 0 then drop_bit 1 c XOR 0xA001 else drop_bit 1 c)"

definition crc8 :: "u16 \<Rightarrow> u16" where
  "crc8 c = (crc_step ^^ 8) c"

fun crc_ref :: "nat \<Rightarrow> u16 \<Rightarrow> u8 list \<Rightarrow> u16 option" where
  "crc_ref 0 crc data = Some crc"
| "crc_ref (Suc n) crc [] = None"
| "crc_ref (Suc n) crc (ch # data) =
     (if ch = 0 \<or> ch = 0x0D then Some crc else crc_ref n (crc8 (crc XOR ucast ch)) data)"

lemma crc_step_xor: "crc_step (a XOR b) = crc_step a XOR crc_step b"
  by (rule bit_word_eqI) (auto simp: crc_step_def bit_simps)

lemma crc8_xor: "crc8 (a XOR b) = crc8 a XOR crc8 b"
  by (simp add: crc8_def eval_nat_numeral crc_step_xor)

lemma crc_step_high: "\<not> bit c 0 \<Longrightarrow> crc_step c = drop_bit 1 c"
  by (simp add: crc_step_def)

lemma crc8_high: "c AND 0xFF = 0 \<Longrightarrow> crc8 c = drop_bit 8 c"
proof -
  assume c: "c AND 0xFF = 0"
  have b: "\<not> bit c n" if "n < 8" for n
  proof -
    have "bit (c AND mask 8) n = bit c n" using that by (simp add: bit_simps)
    moreover have "c AND mask 8 = 0" using c by (simp add: mask_eq_exp_minus_1)
    ultimately show ?thesis by simp
  qed
  have "(crc_step ^^ k) c = drop_bit k c" if "k \<le> 8" for k
    using that
  proof (induction k)
    case (Suc k)
    then have "\<not> bit (drop_bit k c) 0" using b [of k] by (simp add: bit_drop_bit_eq)
    then show ?case using Suc crc_step_high [of "drop_bit k c"] by (simp add: drop_bit_drop_bit)
  qed simp
  then show ?thesis by (simp add: crc8_def)
qed

text \<open>The table is computed on naturals.\<close>

definition crc_nat :: "nat \<Rightarrow> nat" where
  "crc_nat c = (if odd c then (c div 2) XOR 0xA001 else c div 2)"

lemma xor_less_16: "a < 65536 \<Longrightarrow> b < 65536 \<Longrightarrow> a XOR b < 65536" for a b :: nat
proof -
  assume "a < 65536" "b < 65536"
  then have "take_bit 16 a = a" "take_bit 16 b = b" by (simp_all add: take_bit_nat_eq_self)
  then have "take_bit 16 (a XOR b) = a XOR b" by simp
  moreover have "take_bit 16 (a XOR b) < 2 ^ 16" by (rule take_bit_nat_less_exp)
  ultimately show ?thesis by simp
qed

lemma crc_step_of_nat:
  assumes "n < 65536"
  shows "crc_step (of_nat n) = of_nat (crc_nat n)" "crc_nat n < 65536"
proof -
  have "unat (drop_bit 1 (of_nat n :: u16)) = n div 2"
    using assms by (simp add: unsigned_drop_bit_eq unat_of_nat_u16 drop_bit_Suc unat_div)
  then have d: "drop_bit 1 (of_nat n :: u16) = of_nat (n div 2)" using assms by (simp add: word_unat_eq_iff unat_of_nat_u16 del: inj_unat_word)
  have "bit (of_nat n :: u16) 0 \<longleftrightarrow> odd n" by (simp add: bit_0)
  then show "crc_step (of_nat n) = of_nat (crc_nat n)"
    using d by (simp add: crc_step_def crc_nat_def of_nat_xor_eq)
  have "n div 2 < 65536" using assms div_le_dividend [of n 2] by linarith
  then show "crc_nat n < 65536" using xor_less_16 [of "n div 2" 40961] by (simp add: crc_nat_def)
qed

definition crc_nat8 :: "nat \<Rightarrow> nat" where
  "crc_nat8 c = (crc_nat ^^ 8) c"

lemma crc8_of_nat:
  assumes "n < 65536"
  shows "crc8 (of_nat n) = of_nat (crc_nat8 n)"
proof -
  have "(crc_step ^^ k) (of_nat n) = of_nat ((crc_nat ^^ k) n) \<and> (crc_nat ^^ k) n < 65536" for k
    by (induction k) (use assms crc_step_of_nat in auto)
  then show ?thesis by (simp add: crc8_def crc_nat8_def)
qed

lemma crc_nat_numerals:
  "crc_nat 0 = 0" "crc_nat 1 = 0xA001" "crc_nat (Suc 0) = 0xA001"
  "crc_nat (numeral k) = (if odd (numeral k :: nat) then (numeral k div 2) XOR 0xA001 else numeral k div 2)"
  by (simp_all add: crc_nat_def)

lemma numeral_8_eq: "f ^^ 8 = f ^^ Suc (Suc (Suc (Suc (Suc (Suc (Suc (Suc 0)))))))"
  by (simp add: eval_nat_numeral)

lemma crc_nat8_numerals:
  "crc_nat8 0 = 0"
  "crc_nat8 (Suc 0) = crc_nat (crc_nat (crc_nat (crc_nat (crc_nat (crc_nat (crc_nat (crc_nat 1)))))))"
  "crc_nat8 (numeral k) = crc_nat (crc_nat (crc_nat (crc_nat (crc_nat (crc_nat (crc_nat (crc_nat (numeral k))))))))"
  by (simp_all add: crc_nat8_def numeral_8_eq crc_nat_numerals(1))

lemma crc_table: "map (\<lambda>k. crc8 (of_nat k)) [0..<256] = SIA_IP_CRC_TABLE"
proof -
  have u: "[0..<256] = 0 # Suc 0 # [2..<256]"
    by (subst upt_conv_Cons, simp, subst upt_conv_Cons, simp, simp only: numeral_2_eq_2)
  have "map (\<lambda>k. crc8 (of_nat k)) [0..<256] = map (\<lambda>k. of_nat (crc_nat8 k)) [0..<256]"
    by (rule map_cong) (auto simp: crc8_of_nat)
  also have "\<dots> = SIA_IP_CRC_TABLE"
    unfolding u by (simp add: SIA_IP_CRC_TABLE_def upt_rec_numeral crc_nat8_numerals crc_nat_numerals)
  finally show ?thesis .
qed

lemma crc_table_nth: "SIA_IP_CRC_TABLE ! unat (c :: u8) = crc8 (ucast c)"
proof -
  have "SIA_IP_CRC_TABLE ! unat c = map (\<lambda>k. crc8 (of_nat k)) [0..<256] ! unat c"
    by (simp only: crc_table)
  also have "\<dots> = crc8 (of_nat (unat c))" by simp
  also have "(of_nat (unat c) :: u16) = ucast c" by (simp add: unsigned_eq_0_iff of_nat_unat)
  finally show ?thesis .
qed

lemma crc_index:
  "drop_bit 8 crc XOR SIA_IP_CRC_TABLE ! unat (ch XOR ucast (crc AND 0xFF)) = crc8 (crc XOR ucast ch)"
  for crc :: u16 and ch :: u8
proof -
  have m: "(0xFF :: u16) = mask 8" by (simp add: mask_eq_exp_minus_1)
  define lo where "lo = crc AND 0xFF"
  define hi where "hi = crc AND NOT 0xFF"
  have crc: "crc = hi XOR lo" and "hi AND 0xFF = 0" and d: "drop_bit 8 hi = drop_bit 8 crc"
    unfolding lo_def hi_def m by (rule bit_word_eqI, auto simp: bit_simps dest: bit_imp_le_length)+
  have "(ucast (ch XOR ucast lo :: u8) :: u16) = lo XOR ucast ch"
    unfolding lo_def m by (rule bit_word_eqI) (auto simp: bit_simps)
  then have "crc8 (crc XOR ucast ch) = crc8 hi XOR crc8 (ucast (ch XOR ucast lo :: u8))"
    by (simp add: crc xor.assoc crc8_xor [symmetric])
  also have "\<dots> = drop_bit 8 crc XOR SIA_IP_CRC_TABLE ! unat (ch XOR ucast lo)"
    using \<open>hi AND 0xFF = 0\<close> d by (simp add: crc_table_nth crc8_high)
  finally show ?thesis by (simp add: lo_def)
qed

lemma crc_loop_ref: "crc_loop n crc data = crc_ref n crc data"
  by (induction n crc data rule: crc_ref.induct) (simp_all add: crc_index)

lemma crc_loop_total: "crc_loop n crc (xs @ [0]) \<noteq> None"
  by (induction xs arbitrary: n crc; case_tac n; simp)

text \<open>The terminator of a built message and the end of a received one count alike.\<close>

lemma crc_loop_end: "0 \<notin> set xs \<Longrightarrow> crc_loop n crc (xs @ 0x0D # r) = crc_loop n crc (xs @ [0])"
  by (induction xs arbitrary: n crc; case_tac n; simp)

subsection \<open>Frames\<close>

definition frame_of :: "u16 \<Rightarrow> u8 list \<Rightarrow> u8 list" where
  "frame_of crc body = 0x0A # pad0 4 (show_hex (unat crc)) @ 48 # pad0 3 (show_hex (length body)) @ body @ [0x0D]"

lemma length_pad0: "length s \<le> k \<Longrightarrow> length (pad0 k s) = k"
  by (simp add: pad0_def)

lemma length_hex4: "n < 65536 \<Longrightarrow> length (pad0 4 (show_hex n)) = 4"
  using length_show_hex [of n 3] by (simp add: length_pad0)

lemma length_hex3: "n < 4096 \<Longrightarrow> length (pad0 3 (show_hex n)) = 3"
  using length_show_hex [of n 2] by (simp add: length_pad0)

lemma hex3_pad: "n < 4096 \<Longrightarrow> 48 # pad0 3 (show_hex n) = pad0 4 (show_hex n)"
proof -
  assume "n < 4096"
  then have "4 - length (show_hex n) = Suc (3 - length (show_hex n))" using length_show_hex [of n 2] by simp
  then show ?thesis by (simp add: pad0_def)
qed

lemma hex_no_0: "0 \<notin> set (pad0 k (show_hex n))"
  using show_hex_chars [of 0 n] hex_char_plain(6) by (force simp: pad0_def)

lemma low12:
  assumes "n < 4096"
  shows "(of_nat n :: u16) AND 0xF000 = 0" "unat ((of_nat n :: u16) AND 0x0FFF) = n"
proof -
  have t: "take_bit 12 (of_nat n :: u16) = of_nat n"
    using assms by (simp add: take_bit_of_nat take_bit_nat_eq_self)
  have "(of_nat n :: u16) AND mask 12 = of_nat n" using t by (simp add: take_bit_eq_mask)
  then have m: "(of_nat n :: u16) AND 0x0FFF = of_nat n" by (simp add: mask_eq_exp_minus_1)
  then show "unat ((of_nat n :: u16) AND 0x0FFF) = n" using assms by simp
  have "(of_nat n :: u16) AND 0xF000 = ((of_nat n) AND 0x0FFF) AND 0xF000" using m by simp
  then show "(of_nat n :: u16) AND 0xF000 = 0" by (simp add: and.assoc)
qed

lemma text_at_append: "length a = i \<Longrightarrow> 0 \<notin> set s \<Longrightarrow> text_at (a @ s @ [0]) i = s"
  by (simp add: text_at_def takeWhile_append)

lemma frame_rx:
  assumes "0 \<notin> set body" "10 \<le> length body" "length body \<le> 230" "hd body = 34" "crc_calc (body @ [0]) = Some crc"
  shows "cms_sia_ip_rx (frame_of crc body) (length (frame_of crc body)) = Some True"
    and "text_at (take (length (frame_of crc body)) (frame_of crc body) @ [0]) 9 = body @ [0x0D]"
proof -
  define n where "n = length body"
  have n: "n < 4096" using assms(3) by (simp add: n_def)
  define c4 where "c4 = pad0 4 (show_hex (unat crc))"
  define l3 where "l3 = pad0 3 (show_hex n)"
  have l: "length c4 = 4" "length l3 = 3" using length_hex4 [of "unat crc"] length_hex3 [OF n] by (simp_all add: c4_def l3_def)
  have z: "0 \<notin> set c4" "0 \<notin> set l3" by (simp_all add: c4_def l3_def hex_no_0)
  define f where "f = frame_of crc body"
  have f: "f = 0x0A # c4 @ 48 # l3 @ body @ [0x0D]" by (simp add: f_def frame_of_def c4_def l3_def n_def)
  have len: "length f = n + 10" using l by (simp add: f n_def)
  obtain b0 bs where b0: "body = b0 # bs" using assms(2) by (cases body) auto
  have t1: "text_at (f @ [0]) 1 = c4 @ 48 # l3 @ body @ [0x0D]"
    using text_at_append [of "[0x0A]" 1 "c4 @ 48 # l3 @ body @ [0x0D]"] z assms(1) by (simp add: f)
  have t5: "text_at (f @ [0]) 5 = (48 # l3) @ body @ [0x0D]"
    using text_at_append [of "0x0A # c4" 5 "(48 # l3) @ body @ [0x0D]"] z assms(1) l by (simp add: f)
  have t9: "text_at (f @ [0]) 9 = body @ [0x0D]"
    using text_at_append [of "0x0A # c4 @ 48 # l3" 9 "body @ [0x0D]"] assms(1) l by (simp add: f)
  have s1: "scan_x 4 (c4 @ 48 # l3 @ body @ [0x0D]) = Some (int (unat crc), 48 # l3 @ body @ [0x0D])"
    by (rule scan_x_show [of _ 4]) (use l in \<open>simp_all add: c4_def\<close>)
  show "text_at (take (length f) f @ [0]) 9 = body @ [0x0D]" using t9 by simp
  have c9: "crc_calc (drop 9 (f @ [0])) = Some crc"
    using assms(5) crc_loop_end [OF assms(1)] l by (simp add: f crc_calc_def)
  show "cms_sia_ip_rx f (length f) = Some True"
  proof -
    have s5: "scan_x 4 ((48 # l3) @ body @ [0x0D]) = Some (int n, body @ [0x0D])"
      unfolding l3_def hex3_pad [OF n]
      by (rule scan_x_show [of _ 4]) (use length_hex4 [of n] n assms(4) b0 in simp_all)
    have w: "(word_of_int (int (unat crc)) :: u16) = crc" "(word_of_int (int n) :: u16) = of_nat n" by simp_all
    have u: "uint ((of_nat n :: u16) AND 0x0FFF) = int n" using low12(2) [OF n] by (simp add: uint_nat)
    have "f ! 0 = 0x0A" by (simp add: f)
    moreover have "20 \<le> length f" "length f \<le> 240" using len assms(2,3) by (simp_all add: n_def)
    ultimately show ?thesis
      using low12(1) [OF n] u c9
      by (simp add: cms_sia_ip_rx_def Let_def t1 [simplified] t5 [simplified] s1 s5 [simplified] w len)
  qed
qed

subsection \<open>The messages it builds\<close>

definition sia_header :: "sia_state \<Rightarrow> u8 list" where
  "sia_header s = str [CHR 0x22] @ str ''SIA-DCS'' @ str [CHR 0x22] @ pad0 4 (show_nat (unat (sia_cnt s))) @
     str ''L'' @ show_hex (unat (sia_prefix s)) @ str ''#'' @ show_hex (unat (sia_account s)) @ str ''[''"

definition opt_text :: "u8 list option \<Rightarrow> u8 list" where
  "opt_text t = (case t of Some t \<Rightarrow> t | None \<Rightarrow> [])"

definition sia_event_part :: "(u16 \<Rightarrow> u8 list option) \<Rightarrow> u8 list \<Rightarrow> rtc event \<Rightarrow> u8 list" where
  "sia_event_part names code e = (str ''|Nri01/'' @ code @ show_hex (unat (sia_zone (ev_source e))) @ str ''^'') @
     opt_text (names (SOURCE_TEXT_ID ! unat (ev_source e))) @ str ''^''"

definition sia_name_part :: "(u16 \<Rightarrow> u8 list option) \<Rightarrow> rtc event \<Rightarrow> u8 list" where
  "sia_name_part names e = str ''[I'' @ opt_text (names (EVENT_TEXT_ID ! unat (ev_id e))) @ str '']''"

definition sia_time_part :: "rtc event \<Rightarrow> u8 list" where
  "sia_time_part e = str ''[H'' @ show_nat (unat (rtc_hour (ev_time e))) @ str '':'' @
       show2 (rtc_minute (ev_time e)) @ str '':'' @ show2 (rtc_second (ev_time e)) @ str '']''"

definition sia_stamp_part :: "rtc \<Rightarrow> u8 list" where
  "sia_stamp_part t = str ''_'' @ show2 (rtc_hour t) @ str '':'' @ show2 (rtc_minute t) @ str '':'' @
       show2 (rtc_second t) @ str '','' @ show2 (rtc_month t) @ str ''-'' @ show2 (rtc_day t) @ str ''-'' @
       show_nat (2000 + unat (rtc_year t))"

definition sia_body :: "(u16 \<Rightarrow> u8 list option) \<Rightarrow> rtc \<Rightarrow> sia_state \<Rightarrow> u8 list \<Rightarrow> rtc event \<Rightarrow> u8 list" where
  "sia_body names now s code e = sia_header s @ sia_event_part names code e @ str '']'' @
     (if sia_event_name s then sia_name_part names e else []) @
     (if sia_event_time s then sia_time_part e else []) @
     (if sia_time_stamp s then sia_stamp_part now else [])"

text \<open>Configured names fit an item: at most 61 characters, no terminator inside.\<close>

definition names_ok :: "(u16 \<Rightarrow> u8 list option) \<Rightarrow> bool" where
  "names_ok names \<longleftrightarrow> (\<forall>i t. names i = Some t \<longrightarrow> length t \<le> 61 \<and> 0 \<notin> set t)"

lemma opt_text_ok: "names_ok names \<Longrightarrow> length (opt_text (names i)) \<le> 61 \<and> 0 \<notin> set (opt_text (names i))"
  by (auto simp: names_ok_def opt_text_def split: option.splits)

lemma length_pad0_le: "length s \<le> m \<Longrightarrow> k \<le> m \<Longrightarrow> length (pad0 k s) \<le> m"
  by (simp add: pad0_def)

lemma length_show2: "length (show2 x) \<le> 3"
  unfolding show2_def
  by (rule length_pad0_le) (use length_show_nat [of "unat x" 2] unat_u8_less [of x] in \<open>simp_all del: unat_u8_less\<close>)

lemma no_0_show: "0 \<notin> set (show_nat n)" "0 \<notin> set (pad0 k (show_nat n))" "0 \<notin> set (show_hex n)" "0 \<notin> set (show2 x)"
  using show_nat_digits [of 0] show_hex_chars [of 0 n] hex_char_plain(6)
  by (force simp: pad0_def show2_def is_digit_def word_le_nat_alt)+

lemma sia_zone_less: "sia_zone x < 16"
  by (simp add: sia_zone_def SIA_SOURCE_TABLE_def word_less_nat_alt)

lemma sia_code: "sia_event_code i = Some code \<Longrightarrow> length code = 2 \<and> 0 \<notin> set code"
  by (auto simp: sia_event_code_def SIA_EVENT_TABLE_def str_def split: if_splits)

lemma header_len: "length (sia_header s) \<le> 29 \<and> 9 \<le> length (sia_header s) \<and> 0 \<notin> set (sia_header s) \<and> hd (sia_header s) = 34"
proof -
  have "length (pad0 4 (show_nat (unat (sia_cnt s)))) \<le> 5"
    using length_show_nat [of "unat (sia_cnt s)" 4] unat_u16_less [of "sia_cnt s"]
    by (intro length_pad0_le) (simp_all del: unat_u16_less)
  moreover have "length (show_hex (unat (sia_prefix s))) \<le> 4"
    using length_show_hex [of "unat (sia_prefix s)" 3] by simp
  moreover have "length (show_hex (unat (sia_account s))) \<le> 8"
    using length_show_hex [of "unat (sia_account s)" 7] unsigned_less [of "sia_account s"] by simp
  ultimately show ?thesis by (auto simp: sia_header_def str_def no_0_show)
qed

lemma event_part_len:
  assumes "names_ok names" "length code = 2" "0 \<notin> set code"
  shows "length (sia_event_part names code e) \<le> 73 \<and> 0 \<notin> set (sia_event_part names code e)"
proof -
  have "length (show_hex (unat (sia_zone (ev_source e)))) \<le> 1"
    using length_show_hex [of "unat (sia_zone (ev_source e))" 0] sia_zone_less [of "ev_source e"]
    by (simp add: word_less_nat_alt)
  then show ?thesis using opt_text_ok [OF assms(1), of "SOURCE_TEXT_ID ! unat (ev_source e)"] assms(2,3)
    by (auto simp: sia_event_part_def str_def no_0_show)
qed

lemma name_part_len:
  "names_ok names \<Longrightarrow> length (sia_name_part names e) \<le> 64 \<and> 0 \<notin> set (sia_name_part names e)"
  using opt_text_ok [of names "EVENT_TEXT_ID ! unat (ev_id e)"] by (auto simp: sia_name_part_def str_def)

lemma time_part_len: "length (sia_time_part e) \<le> 14 \<and> 0 \<notin> set (sia_time_part e)"
proof -
  have "length (show_nat (unat (rtc_hour (ev_time e)))) \<le> 3"
    using length_show_nat [of _ 2] unat_u8_less [of "rtc_hour (ev_time e)"] by (simp del: unat_u8_less)
  then show ?thesis
    using length_show2 [of "rtc_minute (ev_time e)"] length_show2 [of "rtc_second (ev_time e)"]
    by (auto simp: sia_time_part_def str_def no_0_show)
qed

lemma stamp_part_len: "length (sia_stamp_part t) \<le> 25 \<and> 0 \<notin> set (sia_stamp_part t)"
proof -
  have "length (show_nat (2000 + unat (rtc_year t))) \<le> 4"
    using length_show_nat [of _ 3] unat_u8_less [of "rtc_year t"] by (simp del: unat_u8_less)
  then show ?thesis
    using length_show2 [of "rtc_hour t"] length_show2 [of "rtc_minute t"] length_show2 [of "rtc_second t"]
      length_show2 [of "rtc_month t"] length_show2 [of "rtc_day t"]
    by (auto simp: sia_stamp_part_def str_def no_0_show)
qed

lemmas part_lens = header_len event_part_len name_part_len time_part_len stamp_part_len

lemma put_text_frame:
  assumes "length b0 = 9" "length c = 4" "length l = 4" "body \<noteq> []" "hd body = 34"
  shows "(put_text (put_text ((b0 @ body)[0 := x]) 1 c) 5 l)[9 := 34] = x # c @ l @ body"
proof -
  obtain b bs where body: "body = b # bs" "b = 34" using assms(4,5) by (cases body) auto
  obtain a0 a1 a2 a3 a4 a5 a6 a7 a8 where b0: "b0 = [a0, a1, a2, a3, a4, a5, a6, a7, a8]"
    using assms(1) by (auto simp: eval_nat_numeral length_Suc_conv)
  obtain c0 c1 c2 c3 where c: "c = [c0, c1, c2, c3]" using assms(2) by (auto simp: eval_nat_numeral length_Suc_conv)
  obtain l0 l1 l2 l3 where l: "l = [l0, l1, l2, l3]" using assms(3) by (auto simp: eval_nat_numeral length_Suc_conv)
  show ?thesis by (simp add: body b0 c l put_text_def)
qed

lemma sia_frame_eq:
  assumes "buf_api_ok B 249" "length b0 = 9" "body \<noteq> []" "hd body = 34" "length body < 231"
  shows "sia_frame B (b0 @ body) crc (length body) = frame_of crc body"
proof -
  have n: "length body < 4096" using assms(5) by simp
  have "(put_text (put_text ((b0 @ body)[0 := 0x0A]) 1 (pad0 4 (show_hex (unat crc)))) 5
      (str ''0'' @ pad0 3 (show_hex (length body))))[9 := 34]
     = 0x0A # pad0 4 (show_hex (unat crc)) @ (str ''0'' @ pad0 3 (show_hex (length body))) @ body"
    by (rule put_text_frame) (use assms length_hex4 [of "unat crc"] length_hex3 [OF n] in \<open>simp_all add: str_def\<close>)
  moreover have "length (0x0A # pad0 4 (show_hex (unat crc)) @ (str ''0'' @ pad0 3 (show_hex (length body))) @ body) + 1 < 249"
    using assms(5) length_hex4 [of "unat crc"] length_hex3 [OF n] by (simp add: str_def)
  ultimately show ?thesis
    using assms(1) by (simp add: sia_frame_def Let_def buf_api_ok_def frame_of_def str_def)
qed

text \<open>The calls that append, as long as the text fits.\<close>

lemma buf_append_eq: "buf_api_ok B cap \<Longrightarrow> length b + length s < cap \<Longrightarrow> bf_append B b s = b @ s"
  by (simp add: buf_api_ok_def)

lemma append_opt_eq:
  "buf_api_ok B cap \<Longrightarrow> length b + length (opt_text t) < cap \<Longrightarrow>
   (case t of Some t \<Rightarrow> bf_append B b t | None \<Rightarrow> b) = b @ opt_text t"
  by (simp add: opt_text_def buf_append_eq split: option.splits)

lemma add_event_eq:
  assumes B: "buf_api_ok B 249" and "sia_event_code (ev_id e) = Some code" "ev_source e < 16"
    and len: "length b + length (sia_event_part names code e) < 249"
  shows "sia_msg_add_event B names b e = Some (b @ sia_event_part names code e, True)"
proof -
  define p where "p = str ''|Nri01/'' @ code @ show_hex (unat (sia_zone (ev_source e))) @ str ''^''"
  define t where "t = names (SOURCE_TEXT_ID ! unat (ev_source e))"
  have i: "arr_get SOURCE_TEXT_ID (unat (ev_source e)) = Some (SOURCE_TEXT_ID ! unat (ev_source e))"
    using assms(3) by (simp add: SOURCE_TEXT_ID_def word_less_nat_alt)
  have l: "length b + length p + length (opt_text t) + 1 < 249"
    using len by (simp add: sia_event_part_def p_def t_def str_def)
  have "bf_append B b p = b @ p" using l by (intro buf_append_eq [OF B]) simp
  moreover have "(case t of Some t \<Rightarrow> bf_append B (b @ p) t | None \<Rightarrow> b @ p) = (b @ p) @ opt_text t"
    using l by (intro append_opt_eq [OF B]) simp
  moreover have "bf_append B ((b @ p) @ opt_text t) (str ''^'') = ((b @ p) @ opt_text t) @ str ''^''"
    using l by (intro buf_append_eq [OF B]) (simp add: str_def)
  ultimately show ?thesis
    using assms(2) i
    by (cases t) (simp_all add: sia_msg_add_event_def Let_def p_def [symmetric] t_def [symmetric] sia_event_part_def)
qed

lemma add_eventname_eq:
  assumes B: "buf_api_ok B 249" and "ev_id e < 16" and len: "length b + length (sia_name_part names e) < 249"
  shows "sia_msg_add_eventname B names b e = Some (b @ sia_name_part names e)"
proof -
  define t where "t = names (EVENT_TEXT_ID ! unat (ev_id e))"
  have i: "arr_get EVENT_TEXT_ID (unat (ev_id e)) = Some (EVENT_TEXT_ID ! unat (ev_id e))"
    using assms(2) by (simp add: EVENT_TEXT_ID_def word_less_nat_alt)
  have l: "length b + length (opt_text t) + 3 < 249"
    using len by (simp add: sia_name_part_def t_def str_def)
  have "bf_append B b (str ''[I'') = b @ str ''[I''" using l by (intro buf_append_eq [OF B]) (simp add: str_def)
  moreover have "(case t of Some t \<Rightarrow> bf_append B (b @ str ''[I'') t | None \<Rightarrow> b @ str ''[I'') = (b @ str ''[I'') @ opt_text t"
    using l by (intro append_opt_eq [OF B]) (simp add: str_def)
  moreover have "bf_append B ((b @ str ''[I'') @ opt_text t) (str '']'') = ((b @ str ''[I'') @ opt_text t) @ str '']''"
    using l by (intro buf_append_eq [OF B]) (simp add: str_def)
  ultimately show ?thesis
    using i by (simp add: sia_msg_add_eventname_def Let_def t_def [symmetric] sia_name_part_def)
qed

lemma add_time_eq:
  "buf_api_ok B 249 \<Longrightarrow> length b + length (sia_time_part e) < 249 \<Longrightarrow> sia_msg_add_eventtime B b e = b @ sia_time_part e"
  by (simp add: sia_msg_add_eventtime_def sia_time_part_def buf_append_eq)

lemma add_stamp_eq:
  "buf_api_ok B 249 \<Longrightarrow> length b + length (sia_stamp_part t) < 249 \<Longrightarrow> sia_msg_add_timestamp B b t = b @ sia_stamp_part t"
  by (simp add: sia_msg_add_timestamp_def sia_stamp_part_def buf_append_eq)

text \<open>The text of a message with additional data, as the tracking has them.\<close>

definition sia_body_data :: "(u16 \<Rightarrow> u8 list option) \<Rightarrow> rtc \<Rightarrow> sia_state \<Rightarrow> u8 list \<Rightarrow> rtc event \<Rightarrow> u8 list option
    \<Rightarrow> u8 list" where
  "sia_body_data names now s code e data = sia_header s @ sia_event_part names code e @ str '']'' @
     (if sia_event_name s then sia_name_part names e else []) @ opt_text data @
     (if sia_event_time s then sia_time_part e else []) @
     (if sia_time_stamp s then sia_stamp_part now else [])"

lemma sia_body_None: "sia_body_data names now s code e None = sia_body names now s code e"
  by (simp add: sia_body_data_def sia_body_def opt_text_def)

lemma build_msg_data:
  assumes B: "buf_api_ok B 249" and e: "ev_id e < 16" "ev_source e < 16"
    and code: "sia_event_code (ev_id e) = Some code"
    and len: "length (sia_body_data names now s code e data) < 231" and l0: "length (bf_adjust B dataout 9) = 9"
  shows "\<exists>crc. crc_calc (sia_body_data names now s code e data @ [0]) = Some crc
    \<and> cms_sia_ip_build_msg B names now s dataout e data
       = Some (frame_of crc (sia_body_data names now s code e data),
           length (frame_of crc (sia_body_data names now s code e data)))"
proof -
  define body where "body = sia_body_data names now s code e data"
  define b0 where "b0 = bf_adjust B dataout 9"
  have l0: "length b0 = 9" using l0 by (simp add: b0_def)
  have body: "length body < 231" "hd body = 34" "body \<noteq> []"
    using len header_len [of s] by (cases "sia_header s"; auto simp: body_def sia_body_data_def str_def)+
  obtain crc where crc: "crc_calc (body @ [0]) = Some crc"
    using crc_loop_total [of 240 0 body] by (auto simp: crc_calc_def)
  have fr: "sia_frame B (b0 @ body) crc (length body) = frame_of crc body"
    by (rule sia_frame_eq [OF B l0]) (use body in auto)
  define b1 where "b1 = b0 @ sia_header s"
  define b2 where "b2 = b1 @ sia_event_part names code e"
  define b3 where "b3 = b2 @ str '']''"
  define b4 where "b4 = b3 @ (if sia_event_name s then sia_name_part names e else [])"
  define b5 where "b5 = b4 @ opt_text data"
  define b6 where "b6 = b5 @ (if sia_event_time s then sia_time_part e else [])"
  define b7 where "b7 = b6 @ (if sia_time_stamp s then sia_stamp_part now else [])"
  have b7: "b7 = b0 @ body"
    by (simp add: b7_def b6_def b5_def b4_def b3_def b2_def b1_def body_def sia_body_data_def)
  then have l7: "length b7 < 240" using l0 body(1) by simp
  have l6: "length b6 \<le> length b7" and l5: "length b5 \<le> length b6" and l4: "length b4 \<le> length b5"
    and l3: "length b3 \<le> length b4" and l2: "length b2 < length b3" and l1: "length b1 \<le> length b2"
    by (simp_all add: b7_def b6_def b5_def b4_def b3_def b2_def str_def)
  have s1: "bf_append B b0 (sia_header s) = b1"
    using l1 l2 l3 l4 l5 l6 l7 unfolding b1_def by (intro buf_append_eq [OF B]) simp
  have s2: "sia_msg_add_event B names b1 e = Some (b2, True)"
    using l2 l3 l4 l5 l6 l7 unfolding b2_def by (intro add_event_eq [OF B code e(2)]) simp
  have s3: "bf_append B b2 (str '']'') = b3"
    using l3 l4 l5 l6 l7 unfolding b3_def by (intro buf_append_eq [OF B]) simp
  have s4: "(if sia_event_name s then sia_msg_add_eventname B names b3 e else Some b3) = Some b4"
    using l4 l5 l6 l7 add_eventname_eq [OF B e(1), of b3 names] by (cases "sia_event_name s") (simp_all add: b4_def)
  have s5: "(case data of Some t \<Rightarrow> bf_append B b4 t | None \<Rightarrow> b4) = b5"
    using l5 l6 l7 unfolding b5_def by (intro append_opt_eq [OF B]) simp
  have s6: "(if sia_event_time s then sia_msg_add_eventtime B b5 e else b5) = b6"
    using l6 l7 add_time_eq [OF B, of b5 e] by (cases "sia_event_time s") (simp_all add: b6_def)
  have s7: "(if sia_time_stamp s then sia_msg_add_timestamp B b6 now else b6) = b7"
    using l7 add_stamp_eq [OF B, of b6 now] by (cases "sia_time_stamp s") (simp_all add: b7_def)
  have "cms_sia_ip_build_msg B names now s dataout e data = Some (frame_of crc body, length (frame_of crc body))"
    using s1 s2 s3 s4 s5 s6 s7 crc fr l0 body
    by (cases "sia_event_name s"; cases "sia_event_time s"; cases "sia_time_stamp s")
       (simp_all add: cms_sia_ip_build_msg_def Let_def b0_def [symmetric] sia_header_def [symmetric] b7)
  then show ?thesis using crc unfolding body_def [symmetric] by blast
qed

lemma build_msg:
  assumes B: "buf_api_ok B 249" and T: "names_ok names" and e: "ev_id e < 16" "ev_source e < 16"
    and code: "sia_event_code (ev_id e) = Some code"
  shows "\<exists>crc. crc_calc (sia_body names now s code e @ [0]) = Some crc
    \<and> cms_sia_ip_build_msg B names now s [] e None
       = Some (frame_of crc (sia_body names now s code e), length (frame_of crc (sia_body names now s code e)))
    \<and> length (sia_body names now s code e) \<le> 206 \<and> 10 \<le> length (sia_body names now s code e)
    \<and> hd (sia_body names now s code e) = 34 \<and> 0 \<notin> set (sia_body names now s code e)"
proof -
  note code2 = sia_code [OF code]
  note pl = header_len [of s] event_part_len [OF T code2 [THEN conjunct1] code2 [THEN conjunct2], of e]
    name_part_len [OF T, of e] time_part_len [of e] stamp_part_len [of now]
  define body where "body = sia_body names now s code e"
  have body: "length body \<le> 206" "10 \<le> length body" "hd body = 34" "0 \<notin> set body"
    using pl by (cases "sia_header s"; auto simp: body_def sia_body_def str_def)+
  then show ?thesis
    using build_msg_data [OF B e code, of names now s None "[]"] B
    by (simp add: sia_body_None body_def [symmetric] buf_api_ok_def)
qed

subsection \<open>Replies\<close>

definition ack_body :: "u16 \<Rightarrow> u16 \<Rightarrow> u32 \<Rightarrow> u8 list \<Rightarrow> u8 list" where
  "ack_body seq prefix account rest = [34, 65, 67, 75, 34] @ show_nat (unat seq) @ 76 # show_hex (unat prefix) @ 35 #
     show_hex (unat account) @ 91 # rest"

lemma pad0_id: "pad0 0 s = s"
  by (simp add: pad0_def)

lemma scan_x_hex:
  assumes "c \<noteq> 120" "c \<noteq> 88" "hex_val c = None"
  shows "scan_x (length (show_hex n @ c # r)) (show_hex n @ c # r) = Some (int n, c # r)"
  by (rule scan_x_show [of _ 0]) (use assms in \<open>simp_all add: pad0_id\<close>)

lemma scan_ack:
  "scan_seq_prefix (show_nat (unat seq) @ 76 # show_hex (unat prefix) @ 35 # t) = Some (int (unat seq), int (unat prefix), 35 # t)"
proof -
  have "scan_d (show_nat (unat seq) @ 76 # show_hex (unat prefix) @ 35 # t) = Some (int (unat seq), 76 # show_hex (unat prefix) @ 35 # t)"
    by (rule scan_show) (simp add: is_digit_def word_le_nat_alt)
  moreover have "scan_x (length (show_hex (unat prefix) @ 35 # t)) (show_hex (unat prefix) @ 35 # t) = Some (int (unat prefix), 35 # t)"
    by (rule scan_x_hex) (simp_all add: hex_val_def word_le_nat_alt)
  ultimately show ?thesis by (simp add: scan_seq_prefix_def)
qed

lemma scan_acc: "scan_account (35 # show_hex (unat account) @ 91 # t) = Some (int (unat account))"
proof -
  have "scan_x (length (show_hex (unat account) @ 91 # t)) (show_hex (unat account) @ 91 # t) = Some (int (unat account), 91 # t)"
    by (rule scan_x_hex) (simp_all add: hex_val_def word_le_nat_alt)
  then show ?thesis by (simp add: scan_account_def)
qed

lemma rx_ack_frame:
  assumes "0 \<notin> set rest" "3 \<le> length rest" "length rest \<le> 200" "crc_calc (ack_body seq prefix account rest @ [0]) = Some crc"
  defines "f \<equiv> frame_of crc (ack_body seq prefix account rest)"
  shows "cms_sia_ip_rx_ack s f (length f) =
    Some (if prefix = sia_prefix s \<and> account = sia_account s then Some (seq, False) else None)"
proof -
  define body where "body = ack_body seq prefix account rest"
  have ln: "length (show_nat (unat seq)) \<le> 5" using length_show_nat [of "unat seq" 4] unat_u16_less [of seq]
    by (simp del: unat_u16_less)
  have lp: "length (show_hex (unat prefix)) \<le> 4" using length_show_hex [of "unat prefix" 3] by simp
  have la: "length (show_hex (unat account)) \<le> 8"
    using length_show_hex [of "unat account" 7] unsigned_less [of account] by simp
  have z: "0 \<notin> set body" using assms(1) by (auto simp: body_def ack_body_def no_0_show)
  have l: "10 \<le> length body" "length body \<le> 230"
    using ln lp la assms(2,3) by (simp_all add: body_def ack_body_def)
  have h: "hd body = 34" by (simp add: body_def ack_body_def)
  note fr = frame_rx [OF z l h assms(4) [folded body_def]]
  have f: "f = frame_of crc body" by (simp add: f_def body_def)
  have t: "text_at (take (length f) f @ [0]) 9 = body @ [0x0D]" using fr(2) by (simp add: f)
  have r: "cms_sia_ip_rx f (length f) = Some True" using fr(1) by (simp add: f)
  have b: "body @ [0x0D] = [34, 65, 67, 75, 34] @ show_nat (unat seq) @ 76 # show_hex (unat prefix) @ 35 #
      show_hex (unat account) @ 91 # rest @ [0x0D]"
    by (simp add: body_def ack_body_def)
  have tk: "take 5 (body @ [0x0D]) = [34, 65, 67, 75, 34]"
    "drop 5 (body @ [0x0D]) = show_nat (unat seq) @ 76 # show_hex (unat prefix) @ 35 # show_hex (unat account) @ 91 # rest @ [0x0D]"
    unfolding b by simp_all
  have w: "(word_of_int (int (unat seq)) :: u16) AND 0xFFFF = seq"
  proof -
    have "(0xFFFF :: u16) = - 1" by code_simp
    then show ?thesis by (simp only:) simp
  qed
  have p: "((word_of_int (int (unat prefix)) :: u32) = ucast (sia_prefix s)) \<longleftrightarrow> prefix = sia_prefix s"
    by (simp add: word_unat_eq_iff unat_ucast_up unat_of_nat_u32 unsigned_of_nat take_bit_nat_eq_self del: inj_unat_word) 
  define x where "x = body @ [0x0D]"
  have "cms_sia_ip_rx_ack s f (length f) = Some (case scan_seq_prefix (drop 5 x) of None \<Rightarrow> None
      | Some (a, b, r) \<Rightarrow> (case scan_account r of None \<Rightarrow> None
          | Some c \<Rightarrow> if (word_of_int b :: u32) = ucast (sia_prefix s) \<and> word_of_int c = sia_account s
                     then Some (word_of_int a AND 0xFFFF, False) else None))"
    using r t tk(1) by (simp add: cms_sia_ip_rx_ack_def x_def [symmetric] Let_def)
  also have "scan_seq_prefix (drop 5 x) = Some (int (unat seq), int (unat prefix), 35 # show_hex (unat account) @ 91 # rest @ [0x0D])"
    unfolding x_def tk(2) by (rule scan_ack)
  finally show ?thesis using w p by (simp only: option.case prod.case scan_acc) simp
qed

subsection \<open>Properties\<close>

text \<open>C35: The table-driven checksum of the SIA codec is the bitwise CRC-16 (reflected polynomial
0xA001, initial value 0) of the bytes up to the terminator or the carriage return, at most 240.\<close>

theorem sia_crc_bitwise: "crc_calc data = crc_ref 240 0 data"
  by (simp add: crc_calc_def crc_loop_ref)

text \<open>C36: A reportable event gives a message, whatever the names configured (at most 61 characters):
the length assertion holds, the message is the frame of its text under its checksum, and the check
for received frames accepts it.\<close>

theorem sia_build_accepted:
  assumes "buf_api_ok B 249" and "names_ok names" and "ev_id e < 16" and "ev_source e < 16"
    and "sia_event_code (ev_id e) = Some code"
  shows "\<exists>crc packet. cms_sia_ip_build_msg B names now s [] e None = Some (packet, length packet)
     \<and> crc_calc (sia_body names now s code e @ [0]) = Some crc
     \<and> packet = frame_of crc (sia_body names now s code e)
     \<and> length packet < 240 \<and> cms_sia_ip_rx packet (length packet) = Some True"
proof -
  obtain crc where c: "crc_calc (sia_body names now s code e @ [0]) = Some crc"
    and m: "cms_sia_ip_build_msg B names now s [] e None
       = Some (frame_of crc (sia_body names now s code e), length (frame_of crc (sia_body names now s code e)))"
    and b: "length (sia_body names now s code e) \<le> 206" "10 \<le> length (sia_body names now s code e)"
      "hd (sia_body names now s code e) = 34" "0 \<notin> set (sia_body names now s code e)"
    using build_msg [OF assms] by blast
  have "length (frame_of crc (sia_body names now s code e)) < 240"
    using b(1) length_hex4 [of "unat crc"] length_hex3 [of "length (sia_body names now s code e)"]
    by (simp add: frame_of_def)
  then show ?thesis using c m frame_rx(1) [OF b(4,2) _ b(3) c] b(1) by auto
qed

definition ex_event :: "rtc event" where
  "ex_event = \<lparr>ev_cnt = 1, ev_time = \<lparr>rtc_year = 24, rtc_month = 1, rtc_day = 2, rtc_hour = 12, rtc_minute = 34,
     rtc_second = 56\<rparr>, ev_id = EVENT_ID_ALARM, ev_source = EVENT_SOURCE_DOOR\<rparr>"

theorem sia_build_accepted_witness:
  "\<exists>packet. cms_sia_ip_build_msg list_buf (\<lambda>_. Some (str ''name'')) (ev_time ex_event) cms_sia_ip_init [] ex_event None
     = Some (packet, length packet) \<and> cms_sia_ip_rx packet (length packet) = Some True"
proof -
  have "names_ok (\<lambda>_. Some (str ''name''))" by (simp add: names_ok_def str_def)
  moreover have "sia_event_code (ev_id ex_event) = Some (str ''BA'')"
    by (simp add: ex_event_def sia_event_code_def SIA_EVENT_TABLE_def)
  ultimately show ?thesis
    using sia_build_accepted [of list_buf "\<lambda>_. Some (str ''name'')" ex_event "str ''BA''" "ev_time ex_event" cms_sia_ip_init]
    by (auto simp: ex_event_def)
qed

text \<open>An ACK frame answers the pending message exactly when its sequence number is the counter
of that message and it carries the prefix and the account of this unit; any other ACK is ignored.\<close>

theorem sia_ack_matched:
  assumes "0 \<notin> set rest" and "3 \<le> length rest" and "length rest \<le> 200"
    and "crc_calc (ack_body seq prefix account rest @ [0]) = Some crc"
  shows "sia_proto_packet_reply p (frame_of crc (ack_body seq prefix account rest))
       (length (frame_of crc (ack_body seq prefix account rest)))
     = Some (if seq = sia_cnt (sp_state p) \<and> prefix = sia_prefix (sp_state p) \<and> account = sia_account (sp_state p)
             then CMS_REPLY_ACK else CMS_REPLY_NONE)"
  using rx_ack_frame [OF assms, of "sp_state p"] by (simp add: sia_proto_packet_reply_def)

theorem sia_ack_matched_witness:
  "\<exists>crc. sia_proto_packet_reply \<lparr>sp_state = cms_sia_ip_init\<lparr>sia_account := 0x1234, sia_cnt := 7\<rparr>, sp_packet = [], sp_ok = True\<rparr>
     (frame_of crc (ack_body 7 0 0x1234 (str ''abc]''))) (length (frame_of crc (ack_body 7 0 0x1234 (str ''abc]''))))
     = Some CMS_REPLY_ACK"
proof -
  obtain crc where "crc_calc (ack_body 7 0 0x1234 (str ''abc]'') @ [0]) = Some crc"
    using crc_loop_total [of 240 0] by (force simp: crc_calc_def)
  from sia_ack_matched [OF _ _ _ this] show ?thesis
    by (intro exI [of _ crc]) (simp add: str_def cms_sia_ip_init_def)
qed

end
