(* ===== verification/TracerProtoProps.thy ===== *)
theory TracerProtoProps
  imports TracerProto CmsSiaProps Gps
begin

text \<open>
  The contract of a tracking protocol as a locale, interpreted for H02, for SIA and for the
  selected one; the texts fit the packet buffer, a position is read back from an H02 packet
  exactly, and a reply of the server is taken only by the unit it names.
\<close>

unbundle bit_operations_syntax

subsection \<open>The contract\<close>

text \<open>
  \<open>ok\<close> is the invariant of the state of a protocol, \<open>valid\<close> the positions it takes.
\<close>

locale tracer_protocol =
  fixes reinit :: "u32 \<Rightarrow> 's \<Rightarrow> 's" and ready :: "'s \<Rightarrow> bool" and finish :: "'s \<Rightarrow> 's"
    and new_point :: "nmea_data \<Rightarrow> u32 \<Rightarrow> 's \<Rightarrow> 's option"
    and packet :: "'s \<Rightarrow> u8 list" and size :: "'s \<Rightarrow> u16"
    and ok :: "'s \<Rightarrow> bool" and valid :: "nmea_data \<Rightarrow> bool"
  assumes reinit_idle: "\<not> ready (reinit i s)"
    and finish_idle: "\<not> ready (finish s)"
    and reinit_ok: "ok s \<Longrightarrow> ok (reinit i s)"
    and finish_ok: "ok s \<Longrightarrow> ok (finish s)"
    and point: "ok s \<Longrightarrow> \<not> ready s \<Longrightarrow> valid pos \<Longrightarrow>
      \<exists>s'. new_point pos info s = Some s' \<and> ok s' \<and> ready s' \<and> unat (size s') = length (packet s')
        \<and> length (packet s') < 256 \<and> packet s' \<noteq> []"
begin

text \<open>A protocol is ready exactly while one point is in it, over any sequence of points.\<close>

lemma round_trip:
  assumes "ok s" "\<not> ready s" "valid pos"
  shows "\<exists>s'. new_point pos info s = Some s' \<and> ready s' \<and> ok (finish s') \<and> \<not> ready (finish s')"
  using point [OF assms, of info] finish_ok finish_idle by blast

primrec send_all :: "(nmea_data \<times> u32) list \<Rightarrow> 's \<Rightarrow> u8 list list \<Rightarrow> ('s \<times> u8 list list) option" where
  "send_all [] s out = Some (s, out)"
| "send_all (p # ps) s out =
     (case new_point (fst p) (snd p) s of None \<Rightarrow> None | Some s' \<Rightarrow> send_all ps (finish s') (packet s' # out))"

lemma send_all_total:
  "ok s \<Longrightarrow> \<not> ready s \<Longrightarrow> \<forall>p \<in> set ps. valid (fst p) \<Longrightarrow> \<forall>t \<in> set out. t \<noteq> [] \<and> length t < 256 \<Longrightarrow>
   \<exists>s' out'. send_all ps s out = Some (s', out') \<and> length out' = length ps + length out
     \<and> (\<forall>t \<in> set out'. t \<noteq> [] \<and> length t < 256) \<and> ok s' \<and> \<not> ready s'"
proof (induction ps arbitrary: s out)
  case (Cons p ps)
  from point [OF Cons.prems(1,2), of "fst p" "snd p"] Cons.prems(3)
  obtain s' where s': "new_point (fst p) (snd p) s = Some s'" "ok s'" "packet s' \<noteq> []" "length (packet s') < 256"
    by auto
  show ?case
    using Cons.IH [OF finish_ok [OF s'(2)] finish_idle, of "packet s' # out"] Cons.prems(3,4) s' by auto
qed auto

end

subsection \<open>Appending and lengths\<close>

lemma foldl_append_fits:
  "buf_api_ok B cap \<Longrightarrow> length b + length (concat ps) < cap \<Longrightarrow> foldl (bf_append B) b ps = b @ concat ps"
proof (induction ps arbitrary: b)
  case (Cons p ps)
  then have "bf_append B b p = b @ p" by (intro buf_append_eq [of B cap]) auto
  then show ?case using Cons.IH [of "b @ p"] Cons.prems by simp
qed simp

lemma length_pad0_max: "length (pad0 w s) = max w (length s)"
  by (simp add: pad0_def)

lemma digits_le: "n < 10 ^ Suc k \<Longrightarrow> w \<le> Suc k \<Longrightarrow> length (pad0 w (show_nat n)) \<le> Suc k"
  using length_show_nat [of n k] by (simp add: length_pad0_max)

lemma knots_le: "knots v \<le> 360000"
proof -
  define n where "n = 2500 * unat v"
  define k where "k = 24 - bitlen (n div 463)"
  have n: "n \<le> 2500 * 65535" using unat_u16_less [of v] by (simp add: n_def del: unat_u16_less)
  have "(2 * n * 2 ^ k + 463) div (2 * 463) \<le> (360000 :: nat) * 2 ^ k"
  proof -
    have "2 * n * 2 ^ k + 463 \<le> 2 * (2500 * 65535) * 2 ^ k + 463 * 2 ^ k"
      using n by (intro add_mono mult_right_mono) auto
    also have "\<dots> \<le> (2 * 463) * (360000 * 2 ^ k)" by simp
    finally show ?thesis by (metis div_le_mono nonzero_mult_div_cancel_left zero_neq_numeral mult_eq_0_iff)
  qed
  then have "(2 * n * 2 ^ k + 463) div (2 * 463) div 2 ^ k \<le> 360000 * 2 ^ k div 2 ^ k" by (rule div_le_mono)
  then show ?thesis by (simp add: knots_def Let_def n_def [symmetric] k_def [symmetric])
qed

text \<open>The parts of an H02 packet.\<close>

definition h02_parts :: "u32 \<Rightarrow> nmea_data \<Rightarrow> u32 \<Rightarrow> u8 list list" where
  "h02_parts unit_id pos info =
     (let t = nm_time pos; s = knots (nm_speed pos)
      in [str ''*HQ,'' @ show_nat (unat unit_id) @ str '',V1,'',
           show2 (rtc_hour t) @ show2 (rtc_minute t) @ show2 (rtc_second t) @ str '','',
           str [if nm_fix pos = 0 then CHR ''V'' else CHR ''A''] @ str '','',
           h02_angle 2 (sint (nm_lat_sec pos)) CHR ''N'' CHR ''S'',
           h02_angle 3 (sint (nm_lon_sec pos)) CHR ''E'' CHR ''W'',
           pad0 3 (show_nat (s div 100)) @ str ''.'' @ pad0 2 (show_nat (s mod 100)) @ str '','',
           pad0 3 (show_nat (unat (nm_angle pos))) @ str '','',
           (if nm_fix pos = 0 then str ''010100,''
            else show2 (rtc_day t) @ show2 (rtc_month t) @ show2 (rtc_year t) @ str '',''),
           pad0 8 (show_hex (unat (status_build info))),
           str ''#''])"

lemma sint_bound: "\<bar>sint (x :: 32 word)\<bar> \<le> 2147483648"
  using sint_greater_eq [of x] sint_lt [of x] by simp

lemma h02_angle_len:
  assumes "w \<le> 4" "\<bar>a\<bar> \<le> 2147483648"
  shows "length (h02_angle w a p n) \<le> 14"
proof -
  define v where "v = nat \<bar>a\<bar>"
  have v: "v \<le> 2147483648" using assms(2) by (simp add: v_def)
  have "v div 360000 < 10 ^ Suc 3" using v by simp
  then have 1: "length (pad0 w (show_nat (v div 360000))) \<le> 4" using digits_le [of _ 3 w] assms(1) by simp
  have "v mod 360000 div 6000 < 10 ^ Suc 1" by (simp add: less_mult_imp_div_less)
  then have 2: "length (pad0 2 (show_nat (v mod 360000 div 6000))) \<le> 2"
    using digits_le [of _ 1 2] by (simp add: numeral_2_eq_2)
  have "10000 * (v mod 360000 mod 6000) div 6000 < 10 ^ Suc 3" by (simp add: less_mult_imp_div_less)
  then have 3: "length (pad0 4 (show_nat (10000 * (v mod 360000 mod 6000) div 6000))) \<le> 4"
    using digits_le [of _ 3 4] by simp
  show ?thesis using 1 2 3 by (simp add: h02_angle_def Let_def v_def [symmetric] str_def)
qed

lemma h02_parts_len: "length (concat (h02_parts i pos info)) \<le> 91"
proof -
  have "unat i < 4294967296" using unsigned_less [of i] by simp
  then have 1: "length (show_nat (unat i)) \<le> 10" using length_show_nat [of "unat i" 9] by simp
  have 2: "length (h02_angle 2 (sint (nm_lat_sec pos)) CHR ''N'' CHR ''S'') \<le> 14"
    "length (h02_angle 3 (sint (nm_lon_sec pos)) CHR ''E'' CHR ''W'') \<le> 14"
    using h02_angle_len [OF _ sint_bound] by simp_all
  have k: "knots (nm_speed pos) div 100 < 10 ^ Suc 3" "knots (nm_speed pos) mod 100 < 10 ^ Suc 1"
    using knots_le [of "nm_speed pos"] by simp_all
  have 3: "length (pad0 3 (show_nat (knots (nm_speed pos) div 100))) \<le> 4"
    "length (pad0 2 (show_nat (knots (nm_speed pos) mod 100))) \<le> 2"
    using digits_le [OF k(1), of 3] digits_le [OF k(2), of 2] by simp_all
  have "unat (nm_angle pos) < 10 ^ Suc 4" using unat_u16_less [of "nm_angle pos"] by (simp del: unat_u16_less)
  then have 4: "length (pad0 3 (show_nat (unat (nm_angle pos)))) \<le> 5" using digits_le [of _ 4 3] by simp
  have 5: "length (pad0 8 (show_hex (unat (status_build info)))) \<le> 8"
    using length_show_hex [of "unat (status_build info)" 7] unsigned_less [of "status_build info"]
    by (simp add: length_pad0_max)
  show ?thesis
    using 1 2 3 4 5 length_show2 [of "rtc_hour (nm_time pos)"] length_show2 [of "rtc_minute (nm_time pos)"]
      length_show2 [of "rtc_second (nm_time pos)"] length_show2 [of "rtc_day (nm_time pos)"]
      length_show2 [of "rtc_month (nm_time pos)"] length_show2 [of "rtc_year (nm_time pos)"]
    by (simp add: h02_parts_def Let_def str_def)
qed

lemma h02_packet_eq:
  assumes "buf_api_ok B 256"
  shows "h02_packet B i pos info = concat (h02_parts i pos info)"
  using foldl_append_fits [OF assms, of "[]" "h02_parts i pos info"] h02_parts_len [of i pos info]
  by (simp add: h02_packet_def h02_parts_def Let_def)

lemma h02_parts_hd: "\<exists>r. concat (h02_parts i pos info) = 42 # 72 # r"
  by (simp add: h02_parts_def Let_def str_def)

subsection \<open>The SIA message\<close>

definition rtc_small :: "rtc \<Rightarrow> bool" where
  "rtc_small t \<longleftrightarrow> rtc_hour t < 100 \<and> rtc_minute t < 100 \<and> rtc_second t < 100 \<and> rtc_month t < 100 \<and> rtc_day t < 100"

definition pos_valid :: "nmea_data \<Rightarrow> bool" where
  "pos_valid pos \<longleftrightarrow> pos_in_range pos \<and> rtc_small (nm_time pos)"

definition proto_env_ok :: "proto_env \<Rightarrow> bool" where
  "proto_env_ok env \<longleftrightarrow> buf_api_ok (pe_buf env) 256 \<and> (\<forall>b k. k < 256 \<longrightarrow> length (bf_adjust (pe_buf env) b k) = k)
     \<and> buf_api_ok (pe_data_buf env) 48 \<and> names_ok (pe_names env) \<and> rtc_small (pe_now env)"

text \<open>The counter of a tracking message has four digits and its prefix is 0.\<close>

definition tr_sia_ok :: "sia_proto \<Rightarrow> bool" where
  "tr_sia_ok p \<longleftrightarrow> sia_prefix (sp_state p) = 0 \<and> sia_cnt (sp_state p) \<le> 9999"

lemma show2_small: "x < 100 \<Longrightarrow> length (show2 x) = 2"
proof -
  assume "x < 100"
  then have "unat x < 10 ^ Suc 1" by (simp add: word_less_nat_alt)
  then show ?thesis using length_show_nat [of "unat x" 1] by (simp add: show2_def length_pad0_max)
qed

lemma digits_eq: "n < 10 ^ Suc k \<Longrightarrow> length (pad0 (Suc k) (show_nat n)) = Suc k"
  using length_show_nat [of n k] by (simp add: length_pad0_max max_absorb1)

lemma sia_angle_len:
  assumes "\<bar>a\<bar> < 360000 * 10 ^ Suc k"
  shows "length (sia_angle (Suc k) a p n) = k + 9"
proof -
  define v where "v = nat \<bar>a\<bar>"
  have "v < 360000 * 10 ^ Suc k" using assms(1) by (simp add: v_def nat_less_iff)
  then have "v div 360000 < 10 ^ Suc k" by (intro less_mult_imp_div_less) (simp add: mult.commute)
  then have 1: "length (pad0 (Suc k) (show_nat (v div 360000))) = Suc k" by (rule digits_eq)
  have "v mod 360000 div 6000 < 10 ^ Suc 1" by (simp add: less_mult_imp_div_less)
  then have 2: "length (pad0 2 (show_nat (v mod 360000 div 6000))) = 2" using digits_eq [of _ 1] by (simp add: numeral_2_eq_2)
  have "v mod 360000 mod 6000 div 60 < 10 ^ Suc 1" by (simp add: less_mult_imp_div_less)
  then have 3: "length (pad0 2 (show_nat (v mod 360000 mod 6000 div 60))) = 2"
    using digits_eq [of _ 1] by (simp add: numeral_2_eq_2)
  show ?thesis using 1 2 3 by (simp add: sia_angle_def Let_def v_def [symmetric] str_def)
qed

lemma alt_len: "length (pad0_int 4 (sint (x :: 16 word))) \<le> 6"
proof -
  have b: "\<bar>sint x\<bar> \<le> 32768" using sint_greater_eq [of x] sint_lt [of x] by simp
  show ?thesis
  proof (cases "sint x < 0")
    case True
    have "length (pad0 3 (show_nat (nat (- sint x)))) \<le> Suc 4" by (rule digits_le) (use b in auto)
    then show ?thesis using True by (simp add: pad0_int_def)
  next
    case False
    have "length (pad0 4 (show_nat (nat (sint x)))) \<le> Suc 4" by (rule digits_le) (use b in auto)
    then show ?thesis using False by (simp add: pad0_int_def)
  qed
qed

definition sia_location_text :: "nmea_data \<Rightarrow> u8 list" where
  "sia_location_text pos = str ''[X'' @ sia_angle 3 (sint (nm_lon_sec pos)) CHR ''E'' CHR ''W'' @
     str ''[Y'' @ sia_angle 2 (sint (nm_lat_sec pos)) CHR ''N'' CHR ''S'' @
     str ''[Z'' @ pad0_int 4 (sint (nm_alt pos)) @ str ''M]''"

lemma sia_location_len:
  assumes "pos_in_range pos"
  shows "length (sia_location_text pos) \<le> 35"
proof -
  have "length (sia_angle 3 (sint (nm_lon_sec pos)) CHR ''E'' CHR ''W'') = 11"
    "length (sia_angle 2 (sint (nm_lat_sec pos)) CHR ''N'' CHR ''S'') = 10"
    using assms sia_angle_len [of "sint (nm_lon_sec pos)" 2 "CHR ''E''" "CHR ''W''"]
      sia_angle_len [of "sint (nm_lat_sec pos)" 1 "CHR ''N''" "CHR ''S''"]
    by (auto simp: pos_in_range_def numeral_2_eq_2 numeral_3_eq_3)
  then show ?thesis using alt_len [of "nm_alt pos"] by (simp add: sia_location_text_def str_def)
qed

lemma sia_location_eq:
  assumes "buf_api_ok B 48" "pos_in_range pos"
  shows "sia_location B pos = sia_location_text pos"
proof -
  define ps where "ps = [str ''[X'' @ sia_angle 3 (sint (nm_lon_sec pos)) CHR ''E'' CHR ''W'',
      str ''[Y'' @ sia_angle 2 (sint (nm_lat_sec pos)) CHR ''N'' CHR ''S'',
      str ''[Z'' @ pad0_int 4 (sint (nm_alt pos)) @ str ''M]'']"
  have "concat ps = sia_location_text pos" by (simp add: ps_def sia_location_text_def)
  then show ?thesis
    using foldl_append_fits [OF assms(1), of "[]" ps] sia_location_len [OF assms(2)]
    by (simp add: sia_location_def ps_def [symmetric])
qed

lemma sia_location_no_0: "0 \<notin> set (sia_location_text pos)"
  by (auto simp: sia_location_text_def sia_angle_def pad0_int_def Let_def str_def no_0_show)

lemma tracking_code: "sia_event_code EVENT_ID_TRACKING = Some (str ''TL'')"
  by (simp add: sia_event_code_def SIA_EVENT_TABLE_def)

lemma tr_header_len: "sia_prefix s = 0 \<Longrightarrow> sia_cnt s \<le> 9999 \<Longrightarrow> length (sia_header s) \<le> 25"
proof -
  assume s: "sia_prefix s = 0" "sia_cnt s \<le> 9999"
  have "unat (sia_cnt s) < 10 ^ Suc 3" using s(2) by (simp add: word_le_nat_alt)
  then have 1: "length (pad0 4 (show_nat (unat (sia_cnt s)))) = 4" using digits_eq [of _ 3] by simp
  have "length (show_hex (unat (sia_account s))) \<le> 8"
    using length_show_hex [of "unat (sia_account s)" 7] unsigned_less [of "sia_account s"] by simp
  moreover have "length (show_hex (unat (sia_prefix s))) = 1" by (simp add: s(1) show_hex.simps)
  ultimately show ?thesis using 1 by (simp add: sia_header_def str_def)
qed

lemma sia_body_data_len:
  assumes T: "names_ok names" and s: "sia_prefix s = 0" "sia_cnt s \<le> 9999"
    and v: "pos_valid pos" and now: "rtc_small now"
  shows "length (sia_body_data names now s (str ''TL'') (tracking_event (nm_time pos)) (Some (sia_location_text pos))) \<le> 229"
    "0 \<notin> set (sia_body_data names now s (str ''TL'') (tracking_event (nm_time pos)) (Some (sia_location_text pos)))"
    "hd (sia_body_data names now s (str ''TL'') (tracking_event (nm_time pos)) (Some (sia_location_text pos))) = 34"
    "10 \<le> length (sia_body_data names now s (str ''TL'') (tracking_event (nm_time pos)) (Some (sia_location_text pos)))"
proof -
  define e where "e = tracking_event (nm_time pos)"
  have h: "unat (rtc_hour (nm_time pos)) < 10 ^ Suc 1" using v by (simp add: pos_valid_def rtc_small_def word_less_nat_alt)
  have t: "length (sia_time_part e) \<le> 11"
    using length_show_nat [OF h] v
    by (simp add: e_def tracking_event_def sia_time_part_def str_def show2_small pos_valid_def rtc_small_def)
  have "2000 + unat (rtc_year now) < 10 ^ Suc 3" using unat_u8_less [of "rtc_year now"] by (simp del: unat_u8_less)
  then have n: "length (sia_stamp_part now) \<le> 20"
    using length_show_nat [of _ 3] now by (simp add: sia_stamp_part_def str_def show2_small rtc_small_def)
  have p: "length (sia_location_text pos) \<le> 35" using v sia_location_len by (simp add: pos_valid_def)
  have ev: "length (sia_event_part names (str ''TL'') e) \<le> 73 \<and> 0 \<notin> set (sia_event_part names (str ''TL'') e)"
    using event_part_len [OF T, of "str ''TL''" e] by (simp add: str_def)
  have hd: "hd (sia_header s) = 34" "sia_header s \<noteq> []" "9 \<le> length (sia_header s)" "0 \<notin> set (sia_header s)"
    using header_len [of s] by auto
  note parts = t n p ev hd tr_header_len [OF s] name_part_len [OF T, of e] time_part_len [of e] stamp_part_len [of now]
    sia_location_no_0 [of pos]
  show "length (sia_body_data names now s (str ''TL'') (tracking_event (nm_time pos)) (Some (sia_location_text pos))) \<le> 229"
    using parts by (simp add: sia_body_data_def e_def [symmetric] opt_text_def str_def)
  show "0 \<notin> set (sia_body_data names now s (str ''TL'') (tracking_event (nm_time pos)) (Some (sia_location_text pos)))"
    using parts by (auto simp: sia_body_data_def e_def [symmetric] opt_text_def str_def)
  show "hd (sia_body_data names now s (str ''TL'') (tracking_event (nm_time pos)) (Some (sia_location_text pos))) = 34"
    using hd by (simp add: sia_body_data_def)
  show "10 \<le> length (sia_body_data names now s (str ''TL'') (tracking_event (nm_time pos)) (Some (sia_location_text pos)))"
    using hd by (simp add: sia_body_data_def str_def)
qed

lemma next_cnt_4: "c \<le> 9999 \<Longrightarrow> next_cnt c \<le> 9999"
  by (auto simp: next_cnt_def)

lemma tr_sia_point:
  assumes env: "proto_env_ok env" and p: "tr_sia_ok p" "\<not> sp_ok p" and v: "pos_valid pos"
  shows "\<exists>p'. tr_sia_new_point (pe_buf env) (pe_data_buf env) (pe_names env) (pe_now env) pos p = Some p'
     \<and> tr_sia_ok p' \<and> sp_ok p' \<and> sia_cnt (sp_state p') = next_cnt (sia_cnt (sp_state p))
     \<and> 10 \<le> length (sp_packet p') \<and> length (sp_packet p') < 240
     \<and> cms_sia_ip_rx (sp_packet p') (length (sp_packet p')) = Some True"
proof -
  define s where "s = (sp_state p)\<lparr>sia_cnt := next_cnt (sia_cnt (sp_state p))\<rparr>"
  have s: "sia_prefix s = 0" "sia_cnt s \<le> 9999" using p(1) next_cnt_4 by (simp_all add: s_def tr_sia_ok_def)
  define e where "e = tracking_event (nm_time pos)"
  have id: "ev_id e < 16" "ev_source e < 16" "sia_event_code (ev_id e) = Some (str ''TL'')"
    using tracking_code by (simp_all add: e_def tracking_event_def)
  have B: "buf_api_ok (pe_buf env) 249" "length (bf_adjust (pe_buf env) (sp_packet p) 9) = 9"
    using env by (simp_all add: proto_env_ok_def buf_api_ok_def)
  have env2: "names_ok (pe_names env)" "rtc_small (pe_now env)" "sia_location (pe_data_buf env) pos = sia_location_text pos"
    using env v sia_location_eq by (simp_all add: proto_env_ok_def pos_valid_def)
  define body where "body = sia_body_data (pe_names env) (pe_now env) s (str ''TL'') e (Some (sia_location_text pos))"
  note bl = sia_body_data_len [OF env2(1) s v env2(2), folded e_def, folded body_def]
  have l231: "length body < 231" using bl(1) by simp
  obtain crc where c: "crc_calc (body @ [0]) = Some crc"
    and m: "cms_sia_ip_build_msg (pe_buf env) (pe_names env) (pe_now env) s (sp_packet p) e (Some (sia_location_text pos))
      = Some (frame_of crc body, length (frame_of crc body))"
    using build_msg_data [OF B(1) id, of "pe_names env" "pe_now env" s "Some (sia_location_text pos)" "sp_packet p",
        folded body_def, OF l231 B(2)] by blast
  have len: "length (frame_of crc body) = length body + 10"
    using length_hex4 [of "unat crc"] length_hex3 [of "length body"] bl(1) by (simp add: frame_of_def)
  have rx: "cms_sia_ip_rx (frame_of crc body) (length (frame_of crc body)) = Some True"
    using frame_rx(1) [OF bl(2) bl(4) _ bl(3) c] bl(1) by simp
  show ?thesis
    using m p len bl(1,4) rx s
    by (simp add: tr_sia_new_point_def Let_def s_def [symmetric] e_def [symmetric] env2(3) tr_sia_ok_def)
       (simp add: s_def)
qed

subsection \<open>The protocols fulfil the contract\<close>

lemma h02_point:
  assumes "buf_api_ok B 256" and n: "tracer_h02_new_point B pos info h = (t, h')"
  shows "t = concat (h02_parts (h2_unit_id h) pos info)" "tracer_h02_packet_ready h'"
    "unat (tracer_h02_packet_size h') = length t" "length t \<le> 91" "2 \<le> length t" "h2_unit_id h' = h2_unit_id h"
proof -
  show t: "t = concat (h02_parts (h2_unit_id h) pos info)"
    using n by (simp add: tracer_h02_new_point_def Let_def h02_packet_eq [OF assms(1)])
  have h': "h' = h\<lparr>h2_packet_len := length t - 1\<rparr>"
    using n t by (simp add: tracer_h02_new_point_def Let_def h02_packet_eq [OF assms(1)])
  show l: "length t \<le> 91" using h02_parts_len t by simp
  show l2: "2 \<le> length t" using h02_parts_hd [of "h2_unit_id h" pos info] t by auto
  then have "Suc (length t - Suc 0) = length t" by simp
  moreover have "unat (of_nat (length t) :: u16) = length t" using l by (intro unat_of_nat_u16) simp
  ultimately show "unat (tracer_h02_packet_size h') = length t"
    unfolding tracer_h02_packet_size_def h' by (metis One_nat_def add.commute h02.select_convs(2) h02.update_convs(2)
        h02.surjective plus_1_eq_Suc)
  show "tracer_h02_packet_ready h'" "h2_unit_id h' = h2_unit_id h"
    using l2 by (simp_all add: h' tracer_h02_packet_ready_def)
qed

text \<open>H02 alone writes into the common buffer, so that its state is paired with the text.\<close>

interpretation h2: tracer_protocol
    "\<lambda>i (t, h). (t, tracer_h02_reinit i h)" "\<lambda>(t, h). tracer_h02_packet_ready h"
    "\<lambda>(t, h). (t, tracer_h02_packet_done h)" "\<lambda>pos info (t, h). Some (tracer_h02_new_point (pe_buf env) pos info h)"
    fst "\<lambda>(t, h). tracer_h02_packet_size h" "\<lambda>_. proto_env_ok env" "\<lambda>_. True"
  for env
proof unfold_locales
  fix s :: "u8 list \<times> h02" and pos info
  assume "proto_env_ok env"
  then have B: "buf_api_ok (pe_buf env) 256" by (simp add: proto_env_ok_def)
  obtain t h where s: "s = (t, h)" by fastforce
  obtain t' h' where n: "tracer_h02_new_point (pe_buf env) pos info h = (t', h')" by fastforce
  show "\<exists>s'. (case s of (t, h) \<Rightarrow> Some (tracer_h02_new_point (pe_buf env) pos info h)) = Some s' \<and> proto_env_ok env
      \<and> (case s' of (t, h) \<Rightarrow> tracer_h02_packet_ready h)
      \<and> unat (case s' of (t, h) \<Rightarrow> tracer_h02_packet_size h) = length (fst s') \<and> length (fst s') < 256 \<and> fst s' \<noteq> []"
    using h02_point(2-5) [OF B n] \<open>proto_env_ok env\<close> by (intro exI [of _ "(t', h')"]) (auto simp: s n)
qed (auto simp: tracer_h02_reinit_def tracer_h02_packet_done_def tracer_h02_packet_ready_def)

interpretation sia: tracer_protocol
    tr_sia_reinit sp_ok "tr_sia_packet_done (pe_buf env)"
    "\<lambda>pos info. tr_sia_new_point (pe_buf env) (pe_data_buf env) (pe_names env) (pe_now env) pos"
    sp_packet tr_sia_packet_size "\<lambda>p. proto_env_ok env \<and> tr_sia_ok p" pos_valid
  for env
proof unfold_locales
  fix p :: sia_proto and pos and info :: u32
  assume "proto_env_ok env \<and> tr_sia_ok p" "\<not> sp_ok p" "pos_valid pos"
  then obtain p' where "tr_sia_new_point (pe_buf env) (pe_data_buf env) (pe_names env) (pe_now env) pos p = Some p'"
      "tr_sia_ok p'" "sp_ok p'" "10 \<le> length (sp_packet p')" "length (sp_packet p') < 240"
    using tr_sia_point [of env p pos] by blast
  then show "\<exists>s'. tr_sia_new_point (pe_buf env) (pe_data_buf env) (pe_names env) (pe_now env) pos p = Some s'
      \<and> (proto_env_ok env \<and> tr_sia_ok s') \<and> sp_ok s' \<and> unat (tr_sia_packet_size s') = length (sp_packet s')
      \<and> length (sp_packet s') < 256 \<and> sp_packet s' \<noteq> []"
    using \<open>proto_env_ok env \<and> tr_sia_ok p\<close> by (intro exI [of _ p']) (auto simp: tr_sia_packet_size_def)
qed (auto simp: tr_sia_reinit_def tr_sia_packet_done_def tr_sia_ok_def cms_sia_ip_init_def)

definition tproto_ok :: "proto_env \<Rightarrow> tproto \<Rightarrow> bool" where
  "tproto_ok env p \<longleftrightarrow> proto_env_ok env \<and> tr_sia_ok (tp_sia p)"

interpretation tp: tracer_protocol
    proto_reinit proto_packet_ready "proto_packet_done env" "proto_new_point env" tp_buffer proto_packet_size
    "tproto_ok env" pos_valid
  for env
proof unfold_locales
  fix p :: tproto and pos info
  assume ok: "tproto_ok env p" and idle: "\<not> proto_packet_ready p" and v: "pos_valid pos"
  then have B: "buf_api_ok (pe_buf env) 256" by (simp add: tproto_ok_def proto_env_ok_def)
  show "\<exists>s'. proto_new_point env pos info p = Some s' \<and> tproto_ok env s' \<and> proto_packet_ready s'
      \<and> unat (proto_packet_size s') = length (tp_buffer s') \<and> length (tp_buffer s') < 256 \<and> tp_buffer s' \<noteq> []"
  proof (cases "tp_sel p")
    case TRACER_PROTO_H02
    obtain t h where n: "tracer_h02_new_point (pe_buf env) pos info (tp_h02 p) = (t, h)" by fastforce
    show ?thesis using h02_point(2-5) [OF B n] TRACER_PROTO_H02 n ok
      by (intro exI [of _ "p\<lparr>tp_buffer := t, tp_h02 := h\<rparr>"])
         (auto simp: proto_new_point_def tproto_ok_def proto_packet_ready_def proto_packet_size_def)
  next
    case TRACER_PROTO_SIA
    from sia.point [of env "tp_sia p" pos] ok idle v TRACER_PROTO_SIA
    obtain q where "tr_sia_new_point (pe_buf env) (pe_data_buf env) (pe_names env) (pe_now env) pos (tp_sia p) = Some q"
      "tr_sia_ok q" "sp_ok q" "unat (tr_sia_packet_size q) = length (sp_packet q)" "length (sp_packet q) < 256"
      "sp_packet q \<noteq> []"
      by (auto simp: tproto_ok_def proto_packet_ready_def)
    then show ?thesis using TRACER_PROTO_SIA ok
      by (intro exI [of _ "p\<lparr>tp_buffer := sp_packet q, tp_sia := q\<rparr>"])
         (auto simp: proto_new_point_def tproto_ok_def proto_packet_ready_def proto_packet_size_def)
  qed
qed (auto simp: proto_reinit_def proto_packet_done_def proto_packet_ready_def tproto_ok_def Let_def
    h2.reinit_idle [of _ "(_, _)", simplified] h2.finish_idle [of "(_, _)", simplified] sia.reinit_idle sia.finish_idle
    sia.reinit_ok [simplified] sia.finish_ok [simplified] split: tracer_proto.splits)

subsection \<open>Reading an H02 packet\<close>

text \<open>
  The reader of an angle, as the server has it: \<open>w\<close> digits of degrees, two of minutes, four of
  fractions, a comma, the hemisphere, a comma.  1/10000 minutes are rounded up to 1/100 seconds.
\<close>

definition digits_val :: "u8 list \<Rightarrow> nat" where
  "digits_val s = nat (fst (scan_digits 0 s))"

definition h02_read_angle :: "nat \<Rightarrow> u8 list \<Rightarrow> int" where
  "h02_read_angle w s =
     (let dg = digits_val (take w s);
          min = digits_val (take 2 (drop w s));
          sub = digits_val (take 4 (drop (w + 3) s));
          v = dg * 360000 + min * 6000 + (sub * 6000 + 9999) div 10000
      in if s ! (w + 8) = of_char CHR ''S'' \<or> s ! (w + 8) = of_char CHR ''W'' then - int v else int v)"

lemma scan_digits_zeros: "scan_digits 0 (replicate k 48 @ s) = scan_digits 0 s"
  by (induction k) (simp_all add: is_digit_def word_le_nat_alt)

lemma digits_val_pad: "digits_val (pad0 w (show_nat n)) = n"
  using scan_digits_show [of 0 n] by (simp add: digits_val_def pad0_def scan_digits_zeros)

lemma digits_val_stop: "\<not> is_digit c \<Longrightarrow> digits_val (show_nat n @ c # r) = n"
  using scan_digits_show [of 0 n] scan_digits_append [of "show_nat n" 0 "c # r"] show_nat_digits
  by (simp add: digits_val_def)

lemma sub_min_inverse: "s < 6000 \<Longrightarrow> (10000 * s div 6000 * 6000 + 9999) div 10000 = (s :: nat)"
proof -
  assume "s < 6000"
  define q where "q = 10000 * s div 6000"
  have "q * 6000 \<le> 10000 * s" "10000 * s < q * 6000 + 6000" unfolding q_def by linarith+
  then have "10000 * s \<le> q * 6000 + 9999" "q * 6000 + 9999 < 10000 * s + 10000" by linarith+
  then show ?thesis unfolding q_def [symmetric] by linarith
qed

lemma read_angle:
  assumes "\<bar>a\<bar> < 360000 * 10 ^ Suc k" and c: "p \<noteq> CHR ''S''" "p \<noteq> CHR ''W''" "n = CHR ''S'' \<or> n = CHR ''W''"
    "of_char p \<noteq> (83 :: u8)" "of_char p \<noteq> (87 :: u8)"
  shows "h02_read_angle (Suc k) (h02_angle (Suc k) a p n @ r) = a" "length (h02_angle (Suc k) a p n) = k + 11"
proof -
  define v where "v = nat \<bar>a\<bar>"
  define d1 where "d1 = pad0 (Suc k) (show_nat (v div 360000))"
  define d2 where "d2 = pad0 2 (show_nat (v mod 360000 div 6000))"
  define d3 where "d3 = pad0 4 (show_nat (10000 * (v mod 360000 mod 6000) div 6000))"
  have "v < 360000 * 10 ^ Suc k" using assms(1) by (simp add: v_def nat_less_iff)
  then have "v div 360000 < 10 ^ Suc k" by (intro less_mult_imp_div_less) (simp add: mult.commute)
  then have l1: "length d1 = Suc k" unfolding d1_def by (rule digits_eq)
  have "v mod 360000 div 6000 < 10 ^ Suc 1" by (simp add: less_mult_imp_div_less)
  then have l2: "length d2 = 2" using digits_eq [of _ 1] by (simp add: d2_def numeral_2_eq_2)
  have "10000 * (v mod 360000 mod 6000) div 6000 < 10 ^ Suc 3" by (simp add: less_mult_imp_div_less)
  then have l3: "length d3 = 4" using digits_eq [of _ 3] by (simp add: d3_def)
  define y :: u8 where "y = of_char (if a \<ge> 0 then p else n)"
  have f: "h02_angle (Suc k) a p n = d1 @ d2 @ 46 # d3 @ [44, y, 44]"
    by (simp add: h02_angle_def Let_def v_def [symmetric] d1_def d2_def d3_def str_def y_def)
  then show "length (h02_angle (Suc k) a p n) = k + 11" using l1 l2 l3 by simp
  define s where "s = h02_angle (Suc k) a p n @ r"
  have s: "s = d1 @ d2 @ 46 # d3 @ 44 # y # 44 # r" by (simp add: s_def f)
  have t: "take (Suc k) s = d1" "take 2 (drop (Suc k) s) = d2" "take 4 (drop (Suc k + 3) s) = d3" "s ! (Suc k + 8) = y"
    using l1 l2 l3 by (simp_all add: s nth_append)
  have val: "v div 360000 * 360000 + v mod 360000 div 6000 * 6000
      + (10000 * (v mod 360000 mod 6000) div 6000 * 6000 + 9999) div 10000 = v"
    using sub_min_inverse [of "v mod 360000 mod 6000"] by simp
  have sg: "(y = of_char CHR ''S'' \<or> y = of_char CHR ''W'') = (a < 0)"
    using c by (auto simp: y_def)
  show "h02_read_angle (Suc k) (h02_angle (Suc k) a p n @ r) = a"
    unfolding s_def [symmetric] h02_read_angle_def Let_def t sg d1_def d2_def d3_def digits_val_pad val
    by (simp add: v_def)
qed

lemmas read_lat = read_angle(1) [of _ 1 "CHR ''N''" "CHR ''S''", simplified, folded numeral_2_eq_2]
lemmas read_lon = read_angle(1) [of _ 2 "CHR ''E''" "CHR ''W''", simplified, folded numeral_3_eq_3]

fun after_commas :: "nat \<Rightarrow> u8 list \<Rightarrow> u8 list" where
  "after_commas 0 s = s"
| "after_commas (Suc k) [] = []"
| "after_commas (Suc k) (c # s) = (if c = 44 then after_commas k s else after_commas (Suc k) s)"

lemma after_commas_append: "44 \<notin> set s \<Longrightarrow> after_commas (Suc k) (s @ 44 # r) = after_commas k r"
  by (induction s) auto

lemma no_comma: "44 \<notin> set (show_nat n)" "44 \<notin> set (pad0 k (show_nat n))" "44 \<notin> set (show2 x)"
proof -
  have "\<not> is_digit 44" by (simp add: is_digit_def word_le_nat_alt)
  then show "44 \<notin> set (show_nat n)" for n using show_nat_digits by blast
  then show "44 \<notin> set (pad0 k (show_nat n))" for k n by (auto simp: pad0_def)
  then show "44 \<notin> set (show2 x)" by (simp add: show2_def)
qed

lemma angle_field: "\<exists>x y. h02_angle w a p n = x @ 44 # [y] @ [44] \<and> 44 \<notin> set x \<and> y = of_char (if a \<ge> 0 then p else n)"
  by (intro exI [of _ "butlast (butlast (butlast (h02_angle w a p n)))"])
     (simp add: h02_angle_def Let_def str_def butlast_append no_comma)

lemma after_angle:
  assumes "of_char p \<noteq> (44 :: u8)" "of_char n \<noteq> (44 :: u8)"
  shows "after_commas (Suc (Suc k)) (h02_angle w a p n @ r) = after_commas k r"
proof -
  obtain x y where h: "h02_angle w a p n = x @ 44 # [y] @ [44]" "44 \<notin> set x" "y = of_char (if a \<ge> 0 then p else n)"
    using angle_field by blast
  have "after_commas (Suc k) ([y] @ 44 # r) = after_commas k r"
    by (rule after_commas_append) (use h(3) assms in auto)
  then show ?thesis using after_commas_append [OF h(2), of "Suc k" "[y] @ 44 # r"] h(1) by simp
qed

subsection \<open>Properties\<close>

text \<open>C26: An H02 packet carries the position exactly: reading the degrees, minutes and 1/10000 minutes
behind its fifth and seventh comma gives the latitude and longitude in 1/100 seconds back, the number
behind the first comma is the unit, and the flag behind the fourth says whether there was a fix.\<close>

theorem h02_position_roundtrip:
  assumes "buf_api_ok B 256" and "pos_in_range pos"
  shows "case tracer_h02_new_point B pos info h of (t, h') \<Rightarrow>
     h02_read_angle 2 (after_commas 5 t) = sint (nm_lat_sec pos)
     \<and> h02_read_angle 3 (after_commas 7 t) = sint (nm_lon_sec pos)
     \<and> digits_val (after_commas 1 t) = unat (h2_unit_id h)
     \<and> (hd (after_commas 4 t) = of_char CHR ''A'' \<longleftrightarrow> nm_fix pos \<noteq> 0)"
proof -
  obtain t h' where n: "tracer_h02_new_point B pos info h = (t, h')" by fastforce
  define tm where "tm = nm_time pos"
  define lat where "lat = h02_angle 2 (sint (nm_lat_sec pos)) CHR ''N'' CHR ''S''"
  define lon where "lon = h02_angle 3 (sint (nm_lon_sec pos)) CHR ''E'' CHR ''W''"
  define hms where "hms = show2 (rtc_hour tm) @ show2 (rtc_minute tm) @ show2 (rtc_second tm)"
  define y :: u8 where "y = of_char (if nm_fix pos = 0 then CHR ''V'' else CHR ''A'')"
  obtain r where t: "t = [42, 72, 81] @ 44 # show_nat (unat (h2_unit_id h)) @ 44 # [86, 49] @ 44 # hms @ 44 # [y] @ 44 # lat @ lon @ r"
    using h02_point(1) [OF assms(1) n]
    by (simp add: h02_parts_def Let_def str_def tm_def hms_def lat_def lon_def y_def)
  have c: "44 \<notin> set [42, 72, 81 :: u8]" "44 \<notin> set [86, 49 :: u8]" "44 \<notin> set hms" "44 \<notin> set [y]"
    by (simp_all add: hms_def no_comma y_def)
  note step = after_commas_append [OF c(1)] after_commas_append [OF no_comma(1)] after_commas_append [OF c(2)]
    after_commas_append [OF c(3)] after_commas_append [OF c(4)]
  have 1: "after_commas 1 t = show_nat (unat (h2_unit_id h)) @ 44 # [86, 49] @ 44 # hms @ 44 # [y] @ 44 # lat @ lon @ r"
    unfolding t One_nat_def step after_commas.simps(1) ..
  have n4: "4 = Suc (Suc (Suc (Suc 0)))" and n5: "5 = Suc (Suc (Suc (Suc (Suc 0))))"
    and n7: "7 = Suc (Suc (Suc (Suc (Suc (Suc (Suc 0))))))" by simp_all
  have 4: "after_commas 4 t = [y] @ 44 # lat @ lon @ r"
    unfolding t n4 step after_commas.simps(1) ..
  have 5: "after_commas 5 t = lat @ lon @ r"
    unfolding t n5 step after_commas.simps(1) ..
  have "after_commas 7 t = after_commas (Suc (Suc 0)) (lat @ lon @ r)"
    unfolding t n7 step ..
  also have "\<dots> = lon @ r" unfolding lat_def by (subst after_angle) simp_all
  finally have 7: "after_commas 7 t = lon @ r" .
  have "\<bar>sint (nm_lat_sec pos)\<bar> < 36000000" "\<bar>sint (nm_lon_sec pos)\<bar> < 360000000"
    using assms(2) by (auto simp: pos_in_range_def)
  then have "h02_read_angle 2 (after_commas 5 t) = sint (nm_lat_sec pos)"
    "h02_read_angle 3 (after_commas 7 t) = sint (nm_lon_sec pos)"
    unfolding 5 7 lat_def lon_def by (simp_all only: read_lat read_lon)
  moreover have "digits_val (after_commas 1 t) = unat (h2_unit_id h)"
    unfolding 1 by (rule digits_val_stop) (simp add: is_digit_def word_le_nat_alt)
  ultimately show ?thesis by (simp add: n 4 y_def)
qed

theorem h02_position_roundtrip_witness:
  "h02_read_angle 3 (after_commas 7 (fst (tracer_h02_new_point list_buf (nmea_zero\<lparr>nm_lon_sec := -5580001\<rparr>) 0
     \<lparr>h2_unit_id = 7, h2_packet_len = 0\<rparr>))) = -5580001"
  using h02_position_roundtrip [of list_buf "nmea_zero\<lparr>nm_lon_sec := -5580001\<rparr>" "\<lparr>h2_unit_id = 7, h2_packet_len = 0\<rparr>" 0]
  by (simp add: pos_in_range_def nmea_zero_def split_def)

text \<open>C27: The SIA protocol never stops the device and never sends a broken message: with configured
names of at most 61 characters, a position in range and times of two digits, whatever unit, a point
gives a message without a failed assertion; it is shorter than 240 bytes, has the next sequence
number, and the check for received frames accepts it.\<close>

theorem tr_sia_point_accepted:
  assumes "proto_env_ok env" and "tr_sia_ok p" and "\<not> sp_ok p" and "pos_valid pos"
  shows "\<exists>p'. tr_sia_new_point (pe_buf env) (pe_data_buf env) (pe_names env) (pe_now env) pos p = Some p'
     \<and> tr_sia_ok p' \<and> sp_ok p' \<and> sia_cnt (sp_state p') = next_cnt (sia_cnt (sp_state p))
     \<and> 10 \<le> length (sp_packet p') \<and> length (sp_packet p') < 240
     \<and> cms_sia_ip_rx (sp_packet p') (length (sp_packet p')) = Some True"
  using assms by (rule tr_sia_point)

definition ex_rtc :: rtc where
  "ex_rtc = \<lparr>rtc_year = 24, rtc_month = 10, rtc_day = 5, rtc_hour = 10, rtc_minute = 24, rtc_second = 11\<rparr>"

definition ex_proto_env :: proto_env where
  "ex_proto_env = \<lparr>pe_buf = list_buf,
     pe_data_buf = list_buf, pe_parse = list_parse, pe_names = (\<lambda>_. None), pe_now = ex_rtc\<rparr>"

definition ex_point :: nmea_data where
  "ex_point = nmea_zero\<lparr>nm_lat_sec := 18270000, nm_lon_sec := 5580000, nm_fix := 1, nm_speed := 185, nm_angle := 333,
     nm_time := ex_rtc\<rparr>"

lemma ex_proto_env_ok: "proto_env_ok ex_proto_env"
  by (auto simp: proto_env_ok_def ex_proto_env_def names_ok_def rtc_small_def ex_rtc_def)
     (simp add: list_buf_def min_def)

lemma ex_point_valid: "pos_valid ex_point"
  by (simp add: pos_valid_def pos_in_range_def rtc_small_def ex_point_def ex_rtc_def nmea_zero_def)

theorem tr_sia_point_accepted_witness:
  "\<exists>p'. tr_sia_new_point (pe_buf ex_proto_env) (pe_data_buf ex_proto_env) (pe_names ex_proto_env) (pe_now ex_proto_env)
       ex_point (tr_sia_reinit 0x1234 \<lparr>sp_state = cms_sia_ip_init, sp_packet = [], sp_ok = True\<rparr>) = Some p'
     \<and> sia_cnt (sp_state p') = 1 \<and> cms_sia_ip_rx (sp_packet p') (length (sp_packet p')) = Some True"
proof -
  define p where "p = tr_sia_reinit 0x1234 \<lparr>sp_state = cms_sia_ip_init, sp_packet = [], sp_ok = True\<rparr>"
  have "tr_sia_ok p" "\<not> sp_ok p" "sia_cnt (sp_state p) = 0"
    by (simp_all add: p_def tr_sia_reinit_def tr_sia_ok_def cms_sia_ip_init_def)
  moreover from tr_sia_point_accepted [OF ex_proto_env_ok this(1,2) ex_point_valid]
  show ?thesis unfolding p_def [symmetric] using \<open>sia_cnt (sp_state p) = 0\<close> by (auto simp: next_cnt_def)
qed

text \<open>The unit takes a reply of an H02 server exactly when it names this unit (and is not shorter
than 11 bytes): the reply to another unit's point does not acknowledge ours.\<close>

theorem h02_reply_own:
  assumes "parse_api_ok P" and "i < 2 ^ 31"
  shows "tracer_h02_packet_reply_ok P h (str ''*HQ,'' @ show_nat i @ str '',V4,V1'' @ rest) len
     \<longleftrightarrow> 11 \<le> len \<and> unat (h2_unit_id h) = i"
proof -
  have pat: "pa_pattern P (p @ r) p = Some r" for p r using assms(1) by (auto simp: parse_api_ok_def)
  have nd: "str '',V4,V1'' @ rest = [] \<or> \<not> is_digit (hd (str '',V4,V1'' @ rest))"
    by (simp add: str_def is_digit_def word_le_nat_alt)
  have num: "pa_number P (show_nat i @ str '',V4,V1'' @ rest) = Some (int i, str '',V4,V1'' @ rest)"
    using assms nd by (auto simp: parse_api_ok_def)
  have "(word_of_int (int i) :: u32) = h2_unit_id h \<longleftrightarrow> unat (h2_unit_id h) = i"
    using unat_of_nat_u32 [of i] assms(2) by (simp add: inj_unat_word [symmetric] del: inj_unat_word) argo
  then show ?thesis
    by (auto simp: tracer_h02_packet_reply_ok_def pat num)
qed

theorem h02_reply_own_witness:
  "tracer_h02_packet_reply_ok list_parse \<lparr>h2_unit_id = 1000000001, h2_packet_len = 9\<rparr>
     (str ''*HQ,'' @ show_nat 1000000001 @ str '',V4,V1'' @ str '',20240930174037#'') 36"
  by (subst h02_reply_own) simp_all

end
