(* ===== verification/TracerParam.thy ===== *)
theory TracerParam
  imports Tracer TracerProtoProps CfgText
begin

text \<open>
  The parameters of the tracking: what is loaded is always in range, what is written is loaded
  again, and the interval between two points that follows from them.
\<close>

unbundle bit_operations_syntax

subsection \<open>The range of the parameters\<close>

definition param_ok :: "tracer_param \<Rightarrow> bool" where
  "param_ok p \<longleftrightarrow> unat (pm_unit_id p) \<le> 0x7FFFFFFE \<and> unat (pm_period p) \<le> 3600
     \<and> 1 \<le> unat (pm_period_roaming p) \<and> unat (pm_period_roaming p) \<le> 3600
     \<and> 1 \<le> unat (pm_wait_time p) \<and> unat (pm_wait_time p) \<le> 3600 \<and> unat (pm_protocol p) \<le> 1
     \<and> 1 \<le> unat (pm_start_speed p) \<and> unat (pm_start_speed p) \<le> 99
     \<and> unat (pm_send_mode p) \<le> 2 \<and> unat (pm_start_mode p) \<le> 3"

lemma unat_of_int_le: "0 \<le> n \<Longrightarrow> n < 2 ^ LENGTH('a) \<Longrightarrow> int (unat (word_of_int n :: 'a::len word)) = n"
  by (simp add: uint_word_of_int take_bit_int_eq_self flip: uint_nat)

text \<open>The numbers of a text, place by place; after the last number the remaining places are empty.\<close>

fun param_nums :: "parse_api \<Rightarrow> nat \<Rightarrow> u8 list \<Rightarrow> int option list" where
  "param_nums P 0 s = []"
| "param_nums P (Suc n) s =
     (case num_next P s of
        None \<Rightarrow> None # param_nums P n s
      | Some (v, r) \<Rightarrow> Some v # param_nums P n r)"

definition number_or :: "int \<Rightarrow> int \<Rightarrow> int \<Rightarrow> int option \<Rightarrow> int" where
  "number_or lo hi d v = (case v of Some n \<Rightarrow> if lo \<le> n \<and> n \<le> hi then n else d | None \<Rightarrow> d)"

lemma num_get_nums:
  assumes "num_get P lo hi d s = (n, s')"
  shows "\<exists>v. (\<forall>k. param_nums P (Suc k) s = v # param_nums P k s') \<and> n = number_or lo hi d v"
  using assms by (auto simp: num_get_def number_or_def split: option.splits if_splits)

lemma number_or_range: "lo \<le> d \<Longrightarrow> d \<le> hi \<Longrightarrow> lo \<le> number_or lo hi d v \<and> number_or lo hi d v \<le> hi"
  by (auto simp: number_or_def split: option.splits)

lemma param_load_nums:
  "param_load P s = (let v = param_nums P 8 s in
     \<lparr>pm_unit_id = word_of_int (number_or 0 0x7FFFFFFE 0 (v ! 0)), pm_period = word_of_int (number_or 0 3600 10 (v ! 1)),
      pm_period_roaming = word_of_int (number_or 1 3600 10 (v ! 2)), pm_wait_time = word_of_int (number_or 1 3600 20 (v ! 3)),
      pm_protocol = word_of_int (number_or 0 1 0 (v ! 4)), pm_start_speed = word_of_int (number_or 1 99 3 (v ! 5)),
      pm_send_mode = word_of_int (number_or 0 2 0 (v ! 6)), pm_start_mode = word_of_int (number_or 0 3 3 (v ! 7))\<rparr>)"
proof -
  obtain a s1 where a: "num_get P 0 TRACER_UNIT_ID_MAX 0 s = (a, s1)" by fastforce
  obtain b s2 where b: "num_get P 0 LIMIT_TRACE_INTERVAL 10 s1 = (b, s2)" by fastforce
  obtain c s3 where c: "num_get P 1 LIMIT_TRACE_INTERVAL 10 s2 = (c, s3)" by fastforce
  obtain d s4 where d: "num_get P 1 LIMIT_TRACE_END 20 s3 = (d, s4)" by fastforce
  obtain e s5 where e: "num_get P 0 1 0 s4 = (e, s5)" by fastforce
  obtain f s6 where f: "num_get P 1 99 3 s5 = (f, s6)" by fastforce
  obtain g s7 where g: "num_get P 0 2 0 s6 = (g, s7)" by fastforce
  obtain h s8 where h: "num_get P 0 3 3 s7 = (h, s8)" by fastforce
  from num_get_nums [OF a] obtain va where 1: "\<And>k. param_nums P (Suc k) s = va # param_nums P k s1" "a = number_or 0 TRACER_UNIT_ID_MAX 0 va" by blast
  from num_get_nums [OF b] obtain vb where 2: "\<And>k. param_nums P (Suc k) s1 = vb # param_nums P k s2" "b = number_or 0 LIMIT_TRACE_INTERVAL 10 vb" by blast
  from num_get_nums [OF c] obtain vc where 3: "\<And>k. param_nums P (Suc k) s2 = vc # param_nums P k s3" "c = number_or 1 LIMIT_TRACE_INTERVAL 10 vc" by blast
  from num_get_nums [OF d] obtain vd where 4: "\<And>k. param_nums P (Suc k) s3 = vd # param_nums P k s4" "d = number_or 1 LIMIT_TRACE_END 20 vd" by blast
  from num_get_nums [OF e] obtain ve where 5: "\<And>k. param_nums P (Suc k) s4 = ve # param_nums P k s5" "e = number_or 0 1 0 ve" by blast
  from num_get_nums [OF f] obtain vf where 6: "\<And>k. param_nums P (Suc k) s5 = vf # param_nums P k s6" "f = number_or 1 99 3 vf" by blast
  from num_get_nums [OF g] obtain vg where 7: "\<And>k. param_nums P (Suc k) s6 = vg # param_nums P k s7" "g = number_or 0 2 0 vg" by blast
  from num_get_nums [OF h] obtain vh where 8: "\<And>k. param_nums P (Suc k) s7 = vh # param_nums P k s8" "h = number_or 0 3 3 vh" by blast
  have "param_nums P (Suc (Suc (Suc (Suc (Suc (Suc (Suc (Suc 0)))))))) s = [va, vb, vc, vd, ve, vf, vg, vh]"
    unfolding 1(1) 2(1) 3(1) 4(1) 5(1) 6(1) 7(1) 8(1) param_nums.simps(1) ..
  then have "param_nums P 8 s = [va, vb, vc, vd, ve, vf, vg, vh]" by (simp add: eval_nat_numeral)
  then show ?thesis
    unfolding param_load_def a b c d e f g h Let_def prod.case 1(2) 2(2) 3(2) 4(2) 5(2) 6(2) 7(2) 8(2) by simp
qed

lemma number_or_word:
  assumes "0 \<le> lo" "lo \<le> d" "d \<le> hi" "hi < 2 ^ LENGTH('a)"
  shows "int (unat (word_of_int (number_or lo hi d v) :: 'a::len word)) = number_or lo hi d v"
  using number_or_range [OF assms(2,3), of v] assms by (intro unat_of_int_le) linarith+

lemma param_fields:
  fixes P s
  defines "p \<equiv> param_load P s" and "v \<equiv> param_nums P 8 s"
  shows "int (unat (pm_unit_id p)) = number_or 0 0x7FFFFFFE 0 (v ! 0)"
    "int (unat (pm_period p)) = number_or 0 3600 10 (v ! 1)"
    "int (unat (pm_period_roaming p)) = number_or 1 3600 10 (v ! 2)"
    "int (unat (pm_wait_time p)) = number_or 1 3600 20 (v ! 3)"
    "int (unat (pm_protocol p)) = number_or 0 1 0 (v ! 4)"
    "int (unat (pm_start_speed p)) = number_or 1 99 3 (v ! 5)"
    "int (unat (pm_send_mode p)) = number_or 0 2 0 (v ! 6)"
    "int (unat (pm_start_mode p)) = number_or 0 3 3 (v ! 7)"
  unfolding p_def v_def param_load_nums Let_def tracer_param.simps by (intro number_or_word; simp)+

lemma param_load_ok: "param_ok (param_load P s)"
proof -
  define v where "v = param_nums P 8 s"
  have r: "number_or 0 0x7FFFFFFE 0 (v ! 0) \<le> 0x7FFFFFFE" "number_or 0 3600 10 (v ! 1) \<le> 3600"
    "1 \<le> number_or 1 3600 10 (v ! 2)" "number_or 1 3600 10 (v ! 2) \<le> 3600"
    "1 \<le> number_or 1 3600 20 (v ! 3)" "number_or 1 3600 20 (v ! 3) \<le> 3600" "number_or 0 1 0 (v ! 4) \<le> 1"
    "1 \<le> number_or 1 99 3 (v ! 5)" "number_or 1 99 3 (v ! 5) \<le> 99" "number_or 0 2 0 (v ! 6) \<le> 2" "number_or 0 3 3 (v ! 7) \<le> 3"
    using number_or_range by simp_all
  note f = param_fields [of P s, folded v_def]
  show ?thesis
    unfolding param_ok_def using r [folded f] by (intro conjI; linarith)
qed

subsection \<open>Printing and loading\<close>

lemma num_next_show:
  assumes P: "parse_api_ok P" and n: "n < 2 ^ 31"
  shows "num_next P (show_nat n @ str '','' @ show_nat m @ r) = Some (int n, show_nat m @ r)"
    "num_next P (show_nat n) = Some (int n, [])"
proof -
  have "\<not> is_space (hd (show_nat m @ r))"
    using show_nat_digits [of "hd (show_nat m)" m] hd_in_set [OF show_nat_nonempty]
    by (auto simp: is_space_def is_digit_def word_le_nat_alt)
  then have "pa_separator P (44 # show_nat m @ r) = Some (show_nat m @ r)"
    using P by (simp add: parse_api_ok_def)
  moreover have "pa_number P (show_nat n @ 44 # show_nat m @ r) = Some (int n, 44 # show_nat m @ r)"
    using P n by (simp add: parse_api_ok_def is_digit_def word_le_nat_alt)
  ultimately show "num_next P (show_nat n @ str '','' @ show_nat m @ r) = Some (int n, show_nat m @ r)"
    by (simp add: num_next_def str_def)
  have "pa_number P (show_nat n @ []) = Some (int n, [])" using P n unfolding parse_api_ok_def by blast
  then show "num_next P (show_nat n) = Some (int n, [])" using P by (simp add: num_next_def parse_api_ok_def)
qed

lemma num_get_show:
  assumes "parse_api_ok P" "n < 2147483648" "lo \<le> int n" "int n \<le> hi"
  shows "num_get P lo hi d (show_nat n @ str '','' @ show_nat m @ r) = (int n, show_nat m @ r)"
    "num_get P lo hi d (show_nat n) = (int n, [])"
  using assms by (simp_all add: num_get_def num_next_show)

lemma param_load_text:
  assumes P: "parse_api_ok P" and p: "param_ok p"
  shows "param_load P (param_text p) = p"
proof -
  have ok: "unat (pm_unit_id p) \<le> 0x7FFFFFFE" "unat (pm_period p) \<le> 3600" "1 \<le> unat (pm_period_roaming p)"
    "unat (pm_period_roaming p) \<le> 3600" "1 \<le> unat (pm_wait_time p)" "unat (pm_wait_time p) \<le> 3600"
    "unat (pm_protocol p) \<le> 1" "1 \<le> unat (pm_start_speed p)" "unat (pm_start_speed p) \<le> 99"
    "unat (pm_send_mode p) \<le> 2" "unat (pm_start_mode p) \<le> 3"
    using p by (auto simp: param_ok_def)
  have g:
    "\<And>d m r. num_get P 0 TRACER_UNIT_ID_MAX d (show_nat (unat (pm_unit_id p)) @ str '','' @ show_nat m @ r) = (int (unat (pm_unit_id p)), show_nat m @ r)"
    "\<And>d m r. num_get P 0 LIMIT_TRACE_INTERVAL d (show_nat (unat (pm_period p)) @ str '','' @ show_nat m @ r) = (int (unat (pm_period p)), show_nat m @ r)"
    "\<And>d m r. num_get P 1 LIMIT_TRACE_INTERVAL d (show_nat (unat (pm_period_roaming p)) @ str '','' @ show_nat m @ r) = (int (unat (pm_period_roaming p)), show_nat m @ r)"
    "\<And>d m r. num_get P 1 LIMIT_TRACE_END d (show_nat (unat (pm_wait_time p)) @ str '','' @ show_nat m @ r) = (int (unat (pm_wait_time p)), show_nat m @ r)"
    "\<And>d m r. num_get P 0 1 d (show_nat (unat (pm_protocol p)) @ str '','' @ show_nat m @ r) = (int (unat (pm_protocol p)), show_nat m @ r)"
    "\<And>d m r. num_get P 1 99 d (show_nat (unat (pm_start_speed p)) @ str '','' @ show_nat m @ r) = (int (unat (pm_start_speed p)), show_nat m @ r)"
    "\<And>d m. num_get P 0 2 d (show_nat (unat (pm_send_mode p)) @ str '','' @ show_nat m) = (int (unat (pm_send_mode p)), show_nat m)"
    "\<And>d. num_get P 0 3 d (show_nat (unat (pm_start_mode p))) = (int (unat (pm_start_mode p)), [])"
    by (rule num_get_show [OF P] num_get_show(1) [OF P, where r = "[]", simplified append_Nil2]; use ok in linarith)+
  show ?thesis
    unfolding param_load_def param_text_def g Let_def prod.case by simp
qed

lemma param_text_len:
  assumes "param_ok p"
  shows "length (param_text p) < 62" "0 \<notin> set (param_text p)"
proof -
  have ok: "unat (pm_unit_id p) < 10 ^ Suc 9" "unat (pm_period p) < 10 ^ Suc 3" "unat (pm_period_roaming p) < 10 ^ Suc 3"
    "unat (pm_wait_time p) < 10 ^ Suc 3" "unat (pm_protocol p) < 10 ^ Suc 0" "unat (pm_start_speed p) < 10 ^ Suc 1"
    "unat (pm_send_mode p) < 10 ^ Suc 0" "unat (pm_start_mode p) < 10 ^ Suc 0"
    using assms by (auto simp: param_ok_def)
  note l = ok [THEN length_show_nat]
  show "length (param_text p) < 62" using l by (simp add: param_text_def str_def)
  show "0 \<notin> set (param_text p)" by (simp add: param_text_def str_def no_0_show)
qed

subsection \<open>Reading the configuration\<close>

definition tr_sound :: "('f \<Rightarrow> nat \<Rightarrow> u8) \<Rightarrow> 'f tracer \<Rightarrow> bool" where
  "tr_sound mem t \<longleftrightarrow> cfg_sound mem (tr_cfg t)"

definition tr_text :: "('f \<Rightarrow> nat \<Rightarrow> u8) \<Rightarrow> 'f tracer \<Rightarrow> u16 \<Rightarrow> u8 list" where
  "tr_text mem t = cfg_text mem (tr_cfg t)"

lemma tr_cfg_set [simp]: "tr_cfg (tr_set_cfg cf t) = cf" "tr_p (tr_set_cfg cf t) = tr_p t"
  "tr_cfg_reinit (tr_set_cfg cf t) = cf_reinit cf"
  by (simp_all add: tr_cfg_def tr_set_cfg_def)

lemma tr_cfg_sel [simp]: "cf_store (tr_cfg t) = tb_st (tr_buf t)" "cf_reinit (tr_cfg t) = tr_cfg_reinit t"
  by (simp_all add: tr_cfg_def)

lemma tr_cfg_upd [simp]:
  "tr_cfg (t\<lparr>tr_server_ip := a\<rparr>) = tr_cfg t" "tr_cfg (t\<lparr>tr_server_port := b\<rparr>) = tr_cfg t"
  "tr_cfg (t\<lparr>tr_p := c\<rparr>) = tr_cfg t" "tr_cfg (t\<lparr>tr_proto := d\<rparr>) = tr_cfg t"
  "tr_cfg (t\<lparr>tr_packet_ack := e\<rparr>) = tr_cfg t" "tr_cfg (t\<lparr>tr_point_time := f\<rparr>) = tr_cfg t"
  "tr_cfg (t\<lparr>tr_point_last := g\<rparr>) = tr_cfg t" "tr_cfg (t\<lparr>tr_dyn_dir := h\<rparr>) = tr_cfg t"
  by (simp_all add: tr_cfg_def)

lemma tr_read:
  assumes S: "tr_sound mem t" and i: "table_get i \<noteq> None"
  shows "\<exists>cf. tr_cfg_read t i = Some (tr_set_cfg cf t, True, tr_text mem t i)
     \<and> tr_sound mem (tr_set_cfg cf t) \<and> (\<forall>k. table_get k \<noteq> None \<longrightarrow> cfg_text mem cf k = tr_text mem t k)
     \<and> cf_reinit cf = tr_cfg_reinit t \<and> st_mem mem (cf_store cf) = st_mem mem (tb_st (tr_buf t))
     \<and> st_same (tb_st (tr_buf t)) (cf_store cf)"
proof -
  obtain d where "table_get i = Some d" using i by auto
  from cfg_read_text [OF S [unfolded tr_sound_def] this]
  obtain cf where cf: "cfg_read (tr_cfg t) i ACCESS_SYSTEM = (cf, Some (True, cfg_text mem (tr_cfg t) i))"
    "st_same (cf_store (tr_cfg t)) (cf_store cf)" "st_mem mem (cf_store cf) = st_mem mem (cf_store (tr_cfg t))" by blast
  have lw: "flash_lawful mem (st_dev (cf_store (tr_cfg t)))" using S by (simp add: tr_sound_def cfg_sound_def)
  have "cf_reinit cf = tr_cfg_reinit t" using cfg_read_item [OF lw cf(1)] by simp
  then show ?thesis
    using cf cfg_keep [OF S [unfolded tr_sound_def] cf(2)]
    by (intro exI [of _ cf]) (auto simp: tr_cfg_read_def tr_text_def tr_sound_def)
qed

lemma tracer_ids: "table_get CFG_ID_TRACER_ADDR \<noteq> None" "table_get CFG_ID_TRACER_PARAM \<noteq> None"
  "cfg_table_access_write CFG_ID_TRACER_PARAM ACCESS_SYSTEM"
  by code_simp+

text \<open>What a re-initialisation takes from the configuration.\<close>

lemma resolve_eq:
  assumes S: "tr_sound mem t"
  shows "\<exists>t'. tracer_resolve_server env t = Some (t', tr_server_ip t' \<noteq> 0) \<and> tr_sound mem t'
     \<and> (\<forall>k. table_get k \<noteq> None \<longrightarrow> tr_text mem t' k = tr_text mem t k) \<and> tr_cfg_reinit t' = tr_cfg_reinit t
     \<and> tr_p t' = tr_p t"
proof -
  from tr_read [OF S tracer_ids(1)] obtain cf where cf:
    "tr_cfg_read t CFG_ID_TRACER_ADDR = Some (tr_set_cfg cf t, True, tr_text mem t CFG_ID_TRACER_ADDR)"
    "tr_sound mem (tr_set_cfg cf t)" "\<forall>k. table_get k \<noteq> None \<longrightarrow> cfg_text mem cf k = tr_text mem t k"
    "cf_reinit cf = tr_cfg_reinit t" by blast
  show ?thesis
    using cf by (auto simp: tracer_resolve_server_def tr_sound_def tr_text_def set_target_def)
qed

lemma reinit_param:
  assumes S: "tr_sound mem t"
  shows "\<exists>t'. tracer_reinit env t = Some t' \<and> tr_sound mem t'
     \<and> tr_p t' = param_load (te_number env) (tr_text mem t CFG_ID_TRACER_PARAM)
     \<and> tr_cfg_reinit t' = tr_cfg_reinit t"
proof -
  from resolve_eq [OF S] obtain t1 where 1: "tracer_resolve_server env t = Some (t1, tr_server_ip t1 \<noteq> 0)" "tr_sound mem t1"
    "\<forall>k. table_get k \<noteq> None \<longrightarrow> tr_text mem t1 k = tr_text mem t k" "tr_cfg_reinit t1 = tr_cfg_reinit t" by blast
  define t2 where "t2 = t1\<lparr>tr_p := TRACER_PARAM_DEFAULT, tr_point_time := 0, tr_point_last := 0, tr_dyn_dir := te_dir_none env\<rparr>"
  have 2: "tr_sound mem t2" "tr_text mem t2 = tr_text mem t1" "tr_cfg_reinit t2 = tr_cfg_reinit t1"
    using 1(2) by (simp_all add: t2_def tr_sound_def tr_text_def)
  from tr_read [OF 2(1) tracer_ids(2)] obtain cf where cf:
    "tr_cfg_read t2 CFG_ID_TRACER_PARAM = Some (tr_set_cfg cf t2, True, tr_text mem t2 CFG_ID_TRACER_PARAM)"
    "tr_sound mem (tr_set_cfg cf t2)" "cf_reinit cf = tr_cfg_reinit t2" by blast
  show ?thesis
    using 1(1,3,4) 2(2,3) cf tracer_ids(2)
    by (auto simp: tracer_reinit_def t2_def [symmetric] Let_def tracer_server_reinit_def tr_sound_def)
qed

subsection \<open>An instance\<close>

definition ex_gps :: gps where
  "ex_gps = \<lparr>gp_tmp = nmea_zero, gp_last = ex_point, gp_last_valid = ex_point, gp_fix_tm = 0, gp_sleep_tmr = 0, gp_error_cnt = 0,
     gp_postpone = 0, gp_sleep_mode = True, gp_pwr = True, gp_rx_ok = True, gp_unsolicited = 0, gp_nbsat_visible = 0,
     gp_glonass_visible = 0, gp_glonass_used = False, gp_init_rq = False, gp_jamming = 0, gp_pmtk_ack = False,
     gp_reset_tm = 0, gp_valid_data = 0, gp_rx = GPS_RX_IDLE, gp_chsum = 0, gp_rx_chsum = 0, gp_buf = []\<rparr>"

text \<open>The tick is a millisecond; positions of the instance are not encoded but stand for one point.\<close>

definition ex_tracer_env :: "os_timer \<Rightarrow> tracer_env" where
  "ex_tracer_env now = \<lparr>te_now = now, te_second = 1000, te_minute = 60000, te_ms = 1, te_alloc = True,
     te_number = list_parse, te_dns = (\<lambda>_. (False, 0)), te_connect_dns = True, te_connect = True, te_roaming = False,
     te_dir_none = 0, te_dir = 0, te_dir_store = 0, te_sia = False, te_proto = ex_proto_env,
     te_enc = (\<lambda>_. replicate 22 7), te_dec = (\<lambda>_. ex_point), te_wait = (\<lambda>i. (now + 10 * of_nat (Suc i), True))\<rparr>"

definition ex_param :: tracer_param where
  "ex_param = TRACER_PARAM_DEFAULT\<lparr>pm_unit_id := 1000000001\<rparr>"

definition ex_tracer :: "(nat \<Rightarrow> u8) storage \<Rightarrow> (nat \<Rightarrow> u8) tracer" where
  "ex_tracer st = \<lparr>tr_server_ip = 0x0100007F, tr_server_port = 5013, tr_point_time = 0, tr_store_period = 0, tr_point_last = 0,
     tr_dyn_dir = 0, tr_end_mode = 0, tr_p = ex_param, tr_stop_rq = False, tr_stop_tmr = 0, tr_comm_sleep_tmr = 0,
     tr_start_pending = False, tr_last_fix_tmr = 0, tr_packet_ack = False, tr_no_fix_reset = True, tr_point = 0, tr_track = 0,
     tr_user_id = 0, tr_new_track_id = 0, tr_driver_tmr = 0, tr_active = False, tr_shock_active = False,
     tr_shock_stop_rq = False, tr_shock_start_tmr = 0, tr_easy_fix = False, tr_external = False, tr_tmout = 2500,
     tr_send_retry = 0,
     tr_proto = \<lparr>tp_sel = TRACER_PROTO_H02, tp_buffer = [], tp_h02 = \<lparr>h2_unit_id = 1000000001, h2_packet_len = 0\<rparr>,
        tp_sia = \<lparr>sp_state = cms_sia_ip_init, sp_packet = [], sp_ok = False\<rparr>\<rparr>,
     tr_buf = \<lparr>tb_st = st, buf_read_ptr = 0, buf_save_ptr = 0, buf_last_undelivered = 0\<rparr>, tr_cfg_reinit = [],
     tr_gps = ex_gps, tr_io = 0, tr_int = 0, tr_sent = []\<rparr>"

lemma ex_tracer_sound: "tr_sound id (ex_tracer (ram_storage (\<lambda>_. 0xFF)))"
  using ex_blank_sound by (simp add: tr_sound_def ex_cfg_def tr_cfg_def ex_tracer_def)

lemma ex_param_ok: "param_ok ex_param"
  by (simp add: param_ok_def ex_param_def TRACER_PARAM_DEFAULT_def)

subsection \<open>Properties\<close>

text \<open>C40: whatever text is configured, the tracking works with parameters in their ranges: each
of the eight parameters is the number at its place in the text when there is one and it is in the range
of the parameter, and its default otherwise (not the nearest limit).\<close>

theorem tracer_param_in_range:
  "let p = param_load P s; v = param_nums P 8 s in
     int (unat (pm_unit_id p)) = number_or 0 0x7FFFFFFE 0 (v ! 0)
   \<and> int (unat (pm_period p)) = number_or 0 3600 10 (v ! 1)
   \<and> int (unat (pm_period_roaming p)) = number_or 1 3600 10 (v ! 2)
   \<and> int (unat (pm_wait_time p)) = number_or 1 3600 20 (v ! 3)
   \<and> int (unat (pm_protocol p)) = number_or 0 1 0 (v ! 4)
   \<and> int (unat (pm_start_speed p)) = number_or 1 99 3 (v ! 5)
   \<and> int (unat (pm_send_mode p)) = number_or 0 2 0 (v ! 6)
   \<and> int (unat (pm_start_mode p)) = number_or 0 3 3 (v ! 7)
   \<and> param_ok p"
  unfolding Let_def by (simp only: param_fields param_load_ok)

text \<open>C25: Parameters in range that are saved are the ones in force after the re-initialisation that
the write requests, on a working flash and with a lawful parser.\<close>

theorem tracer_config_roundtrip:
  assumes "tr_sound mem t" and "parse_api_ok (te_number env)" and "param_ok p"
  shows "\<exists>t' t''. tracer_save_config p t = (t', True) \<and> tr_cfg_reinit t' = tr_cfg_reinit t @ [CFG_ID_TRACER_PARAM]
     \<and> tracer_reinit env t' = Some t'' \<and> tr_p t'' = p \<and> tr_cfg_reinit t'' = tr_cfg_reinit t'"
proof -
  have u: "\<not> uint (pm_unit_id p) > TRACER_UNIT_ID_MAX"
    using assms(3) unfolding param_ok_def uint_nat by linarith
  have l: "length (param_text p) < 62" "0 \<notin> set (param_text p)" using param_text_len [OF assms(3)] by blast+
  then have tk: "take (CFG_ITEM_SIZE - 1) (param_text p) = param_text p" by simp
  from cfg_write_text [OF assms(1) [unfolded tr_sound_def] tracer_ids(3) l]
  obtain cf where cf: "cfg_write (tr_cfg t) CFG_ID_TRACER_PARAM (param_text p) ACCESS_SYSTEM = (cf, True)"
    "cfg_sound mem cf" "cf_reinit cf = cf_reinit (tr_cfg t) @ [CFG_ID_TRACER_PARAM]"
    "cfg_text mem cf CFG_ID_TRACER_PARAM = param_text p" by blast
  define t' where "t' = tracer_server_reinit (pm_unit_id p) (tr_set_cfg cf t)"
  have sv: "tracer_save_config p t = (t', True)"
    unfolding tracer_save_config_def tk cf(1) using u by (simp add: t'_def)
  have 1: "tr_sound mem t'" "tr_cfg_reinit t' = tr_cfg_reinit t @ [CFG_ID_TRACER_PARAM]"
    "tr_text mem t' CFG_ID_TRACER_PARAM = param_text p"
    using cf(2-4) by (simp_all add: t'_def tr_sound_def tr_text_def tracer_server_reinit_def)
  from reinit_param [OF 1(1), of env] 1(3) param_load_text [OF assms(2,3)]
  show ?thesis using sv 1(2) by auto
qed

theorem tracer_config_roundtrip_witness:
  "\<exists>t' t''. tracer_save_config (ex_param\<lparr>pm_period := 77\<rparr>) (ex_tracer (ram_storage (\<lambda>_. 0xFF))) = (t', True)
     \<and> tracer_reinit (ex_tracer_env 5) t' = Some t'' \<and> tr_p t'' = ex_param\<lparr>pm_period := 77\<rparr>"
proof -
  have "param_ok (ex_param\<lparr>pm_period := 77\<rparr>)" using ex_param_ok by (simp add: param_ok_def)
  from tracer_config_roundtrip [OF ex_tracer_sound _ this, of "ex_tracer_env 5"]
  show ?thesis by (auto simp: ex_tracer_env_def)
qed

text \<open>The interval between two points is the configured number of seconds, 30 in the dynamic mode,
modulo 65536 ticks and at least a second: with ticks of a millisecond 65 seconds are kept and 66
seconds become one.\<close>

theorem tracer_period_cut:
  assumes "te_second env = 1000" and "param_ok (tr_p t)"
  shows "unat (tr_store_period (task_period env t)) = max 1000 (1000 *
     unat (if pm_period (tr_p t) = 0 then 30 else if te_roaming env then pm_period_roaming (tr_p t) else pm_period (tr_p t))
       mod 65536)"
proof -
  have cut: "unat (ucast (tsec env s) :: u16) = 1000 * unat s mod 65536" if "unat s \<le> 3600" for s
  proof -
    have "unat (ucast s :: u32) = unat s" by (rule unat_ucast_up) simp
    then have "unat (tsec env s) = 1000 * unat s"
      using that assms(1) by (simp add: tsec_def unat_word_ariths mult.commute)
    then show ?thesis by (simp add: unsigned_ucast_eq take_bit_nat_def unsigned_take_bit_eq)
  qed
  have "unat (tr_store_period (task_period env t)) = max 1000 (unat (ucast (tsec env s) :: u16))"
    if "s = (if pm_period (tr_p t) = 0 then 30 else if te_roaming env then pm_period_roaming (tr_p t) else pm_period (tr_p t))" for s
  proof -
    define q :: u16 where "q = ucast (tsec env s)"
    have up: "unat (ucast q :: u32) = unat q" by (rule unat_ucast_up) simp
    have "tr_store_period (task_period env t) = (if (ucast q :: u32) < te_second env then ucast (te_second env) else q)"
      using that by (simp add: task_period_def Let_def q_def)
    then show ?thesis using assms(1) up by (simp add: q_def [symmetric] word_less_nat_alt)
  qed
  from this [OF refl] show ?thesis
    using cut [of "if pm_period (tr_p t) = 0 then 30 else if te_roaming env then pm_period_roaming (tr_p t) else pm_period (tr_p t)"]
      assms(2) by (simp add: param_ok_def)
qed

theorem tracer_period_cut_witness:
  "unat (tr_store_period (task_period (ex_tracer_env 5)
     (ex_tracer (ram_storage (\<lambda>_. 0))\<lparr>tr_p := ex_param\<lparr>pm_period := 66\<rparr>\<rparr>))) = 1000"
  using tracer_period_cut [of "ex_tracer_env 5" "ex_tracer (ram_storage (\<lambda>_. 0))\<lparr>tr_p := ex_param\<lparr>pm_period := 66\<rparr>\<rparr>"] ex_param_ok
  by (simp add: ex_tracer_env_def param_ok_def)

end
