(* ===== verification/TracerBufferProps.thy ===== *)
theory TracerBufferProps
  imports TracerBuffer
begin

text \<open>
  The laws of the track buffer: the layout of a point and its checksum, one slot of the ring
  under loads and saves, the ring as a queue of points, the two binary searches of the restart,
  and the marking of delivered points.
\<close>

unbundle bit_operations_syntax

subsection \<open>Layout and checksum\<close>

lemma length_le [simp]: "length (le16 w) = 2" "length (le32 v) = 4"
  by (simp_all add: le16_def le32_def)

lemma of_le16_le16: "of_le16 (le16 w @ r) = w"
  by (rule bit_word_eqI) (auto simp: of_le16_def le16_def bit_simps)

lemma of_le32_le32: "of_le32 (le32 w @ r) = w"
proof (rule bit_word_eqI)
  fix n assume "n < LENGTH(32)"
  then have "n < 8 \<or> (8 \<le> n \<and> n < 16) \<or> (16 \<le> n \<and> n < 24) \<or> (24 \<le> n \<and> n < 32)"
    by (simp, arith)
  then show "bit (of_le32 (le32 w @ r)) n = bit w n"
    by (elim disjE) (auto simp: of_le32_def le32_def bit_simps)
qed

lemma length_tb_bytes [simp]: "length (tb_position r) = 22 \<Longrightarrow> length (tb_bytes r) = 32"
  by (simp add: tb_bytes_def)

lemma tb_roundtrip: "length (tb_position r) = 22 \<Longrightarrow> tb_of_bytes (tb_bytes r) = r"
  unfolding tb_of_bytes_def tb_bytes_def
  by (simp add: of_le16_le16 of_le32_le32 nth_append numeral_eq_Suc)

lemma chsum_from_inj: "chsum_from c i bs = chsum_from d i bs \<longleftrightarrow> c = d"
  by (induction bs arbitrary: c d i) auto

lemma xor_cancel: "(a XOR c = b XOR c) = (a = b)" for a b c :: "'a::len word"
proof
  assume "a XOR c = b XOR c"
  then have "(a XOR c) XOR c = (b XOR c) XOR c" by simp
  then show "a = b" by (simp add: xor.assoc)
qed simp

lemma chsum_from_change:
  "k < length bs \<Longrightarrow> chsum_from c i (bs[k := v]) = chsum_from c i bs \<longleftrightarrow> v = bs ! k"
  by (induction bs arbitrary: c i k) (auto simp: chsum_from_inj xor_cancel split: nat.splits)

lemma chsum_indep: "length (tb_position r) = 22 \<Longrightarrow>
   tracer_buf_checksum (r\<lparr>tb_chsum := c\<rparr>) = tracer_buf_checksum r"
  by (simp add: tracer_buf_checksum_def tb_bytes_def)

lemma u8_high: "8 \<le> n \<Longrightarrow> bit x n \<longleftrightarrow> False" for x :: u8
  using bit_imp_le_length [of x n] by auto

lemma ucast_parts:
  "ucast (ucast a OR push_bit 8 (ucast b) :: u16) = a"
  "ucast (drop_bit 8 (ucast a OR push_bit 8 (ucast b) :: u16)) = b"
  "ucast (ucast a OR push_bit 8 (ucast b) OR push_bit 16 (ucast c) OR push_bit 24 (ucast d) :: u32) = a"
  "ucast (drop_bit 8 (ucast a OR push_bit 8 (ucast b) OR push_bit 16 (ucast c) OR push_bit 24 (ucast d) :: u32)) = b"
  "ucast (drop_bit 16 (ucast a OR push_bit 8 (ucast b) OR push_bit 16 (ucast c) OR push_bit 24 (ucast d) :: u32)) = c"
  "ucast (drop_bit 24 (ucast a OR push_bit 8 (ucast b) OR push_bit 16 (ucast c) OR push_bit 24 (ucast d) :: u32)) = d"
  for a b c d :: u8
  by (rule bit_word_eqI, auto simp: bit_simps u8_high simp del: push_bit_numeral)+

lemma le_of_le:
  "le16 (of_le16 (a # b # r)) = [a, b]"
  "le32 (of_le32 (a # b # c # d # r)) = [a, b, c, d]"
  by (simp_all only: le16_def of_le16_def le32_def of_le32_def ucast_parts nth_Cons_0 nth_Cons_numeral
      nth_Cons_Suc One_nat_def pred_numeral_simps numeral_2_eq_2 numeral_3_eq_3)

lemma tb_bytes_of: "length bs = 32 \<Longrightarrow> tb_bytes (tb_of_bytes bs) = bs"
proof -
  assume l: "length bs = 32"
  obtain a b c d r where bs: "bs = a # b # c # d # r" and r: "length r = 28"
    using l by (auto simp: numeral_eq_Suc length_Suc_conv)
  define p q where "p = take 22 r" and "q = drop 22 r"
  have pq: "r = p @ q" and p: "length p = 22" and "length q = 6"
    using r by (simp_all add: p_def q_def)
  then obtain w x y z f s where "q = [w, x, y, z, f, s]" by (auto simp: numeral_eq_Suc length_Suc_conv)
  then show ?thesis using p
    by (simp add: bs pq tb_bytes_def tb_of_bytes_def le_of_le nth_append numeral_eq_Suc)
qed

lemma checksum_of_bytes:
  "length bs = 32 \<Longrightarrow> tracer_buf_checksum (tb_of_bytes bs) = chsum_from 0 0 (take 31 bs)"
  by (simp add: tracer_buf_checksum_def tb_bytes_of)

subsection \<open>One slot\<close>

text \<open>What a load of slot \<open>j\<close> gives when the device reads it.\<close>

definition slot_bytes :: "('f \<Rightarrow> nat \<Rightarrow> u8) \<Rightarrow> 'f storage \<Rightarrow> nat \<Rightarrow> u8 list" where
  "slot_bytes mem st j = gps_region.at mem st (32 * j) 32"

definition checked :: "u8 list \<Rightarrow> tracer_buf_t option" where
  "checked bs = (if tb_chsum (tb_of_bytes bs) \<noteq> tracer_buf_checksum (tb_of_bytes bs) then None
                 else Some (tb_of_bytes bs))"

definition slot :: "('f \<Rightarrow> nat \<Rightarrow> u8) \<Rightarrow> 'f storage \<Rightarrow> nat \<Rightarrow> tracer_buf_t option" where
  "slot mem st j = checked (slot_bytes mem st j)"

lemma length_slot_bytes [simp]: "length (slot_bytes mem st j) = 32"
  by (simp add: slot_bytes_def gps_region.at_def)

lemma tb_of_bytes_fields:
  "tb_chsum (tb_of_bytes bs) = bs ! 31"
  "length bs = 32 \<Longrightarrow> length (tb_position (tb_of_bytes bs)) = 22"
  by (simp_all add: tb_of_bytes_def)

lemma slot_position: "slot mem st j = Some r \<Longrightarrow> length (tb_position r) = 22"
  by (auto simp: slot_def checked_def tb_of_bytes_fields split: if_splits)

lemma slot_chsum: "slot mem st j = Some r \<Longrightarrow> tb_chsum r = tracer_buf_checksum r"
  by (auto simp: slot_def checked_def split: if_splits)

lemma mem_offset_unat [simp]: "unat (mem_offset m) = 32 * unat m"
  using unat_u16_less [of m] by (simp add: mem_offset_def unat_word_ariths unat_ucast_up del: unat_u16_less)

abbreviation (input) tb_lawful :: "('f \<Rightarrow> nat \<Rightarrow> u8) \<Rightarrow> 'f storage \<Rightarrow> bool" where
  "tb_lawful mem st \<equiv> flash_lawful mem (st_dev st) \<and> flash_reliable (st_dev st)"

lemma load_slot:
  assumes "flash_lawful mem (st_dev st)" "unat j < 32768" "tracer_buf_load st j = (st', res)"
  shows "slot_bytes mem st' = slot_bytes mem st" "st_same st st'"
    and "res = None \<or> res = slot mem st (unat j)"
    and "flash_reliable (st_dev st) \<Longrightarrow> res = slot mem st (unat j)"
proof -
  have fit: "unat (mem_offset j) + unat (32 :: u32) \<le> 0x100000" using assms(2) by simp
  obtain st1 r where rd: "storage_get_gps_data st (mem_offset j) 32 = (st1, r)" by fastforce
  note k = gps_region.read_keeps [OF assms(1) fit rd]
  have st1: "st1 = st'" using assms(3) rd by (auto simp: tracer_buf_load_def Let_def split: option.splits if_splits)
  have r: "r = Some bs \<Longrightarrow> bs = slot_bytes mem st (unat j)" for bs
    using gps_region.read_at [OF assms(1) fit, of st1 bs] rd by (simp add: slot_bytes_def)
  show "slot_bytes mem st' = slot_bytes mem st" "st_same st st'"
    using k st1 by (simp_all add: slot_bytes_def fun_eq_iff)
  show *: "res = None \<or> res = slot mem st (unat j)"
    using assms(3) rd r by (auto simp: tracer_buf_load_def slot_def checked_def Let_def split: option.splits if_splits)
  assume "flash_reliable (st_dev st)"
  then obtain bs where "r = Some bs" using gps_read_reliable [OF _ fit, of st] rd by auto
  then show "res = slot mem st (unat j)"
    using assms(3) rd r [of bs] by (auto simp: tracer_buf_load_def slot_def checked_def Let_def split: if_splits)
qed

lemma save_slot:
  assumes "flash_lawful mem (st_dev st)" "unat j < 32768" "length (tb_position buf) = 22"
    and "tracer_buf_save st j buf = (st', r)"
  shows "st_same st st'" and "k \<noteq> unat j \<Longrightarrow> slot_bytes mem st' k = slot_bytes mem st k"
    and "r \<Longrightarrow> slot mem st' (unat j) = Some (buf\<lparr>tb_chsum := tracer_buf_checksum buf\<rparr>)"
    and "flash_reliable (st_dev st) \<Longrightarrow> r"
proof -
  define buf' where "buf' = buf\<lparr>tb_chsum := tracer_buf_checksum buf\<rparr>"
  have l: "length (tb_bytes buf') = 32" using assms(3) by (simp add: buf'_def)
  then have fit: "unat (mem_offset j) + length (tb_bytes buf') \<le> 0x100000" using assms(2) by simp
  have w: "storage_save_gps_data st (mem_offset j) (tb_bytes buf') = (st', r)"
    using assms(4) by (simp add: tracer_buf_save_def buf'_def)
  note ws = gps_region.write_at [OF assms(1) fit w]
  show "st_same st st'" by (rule ws(2))
  show "k \<noteq> unat j \<Longrightarrow> slot_bytes mem st' k = slot_bytes mem st k"
    using ws(4) [of "32 * k" 32] l by (simp add: slot_bytes_def) linarith
  show "slot mem st' (unat j) = Some buf'" if r
    using ws(3) [OF that] l assms(3) chsum_indep [OF assms(3)] tb_roundtrip [of buf']
    by (simp add: slot_def slot_bytes_def checked_def buf'_def)
  show "flash_reliable (st_dev st) \<Longrightarrow> r"
    using gps_write_reliable [OF _ fit, of st] w by simp
qed

lemma single_byte:
  assumes "length bs = 32" "checked bs \<noteq> None" "k < 32" "v \<noteq> bs ! k"
  shows "checked (bs[k := v]) = None"
proof (cases "k = 31")
  case True
  then show ?thesis using assms
    by (auto simp: checked_def checksum_of_bytes tb_of_bytes_fields split: if_splits)
next
  case False
  then have "take 31 (bs[k := v]) = (take 31 bs)[k := v]" "k < length (take 31 bs)" "v \<noteq> take 31 bs ! k"
    using assms by (simp_all add: take_update_swap)
  then have "chsum_from 0 0 (take 31 (bs[k := v])) \<noteq> chsum_from 0 0 (take 31 bs)"
    using chsum_from_change [of k "take 31 bs" 0 0 v] by simp
  then show ?thesis using assms False
    by (auto simp: checked_def checksum_of_bytes tb_of_bytes_fields split: if_splits)
qed

subsection \<open>The ring as a queue\<close>

lemma inc_ptr: "j < 32768 \<Longrightarrow> buf_inc_ptr (of_nat j) = of_nat (Suc j mod 32768)"
proof -
  assume j: "j < 32768"
  have "(of_nat j + 1 :: u16) = of_nat (Suc j)" by simp
  moreover have "(of_nat (Suc j) \<ge> (32768 :: u16)) = (Suc j \<ge> 32768)"
    unfolding word_le_nat_alt by (subst unat_of_nat_u16) (use j in auto)
  ultimately show ?thesis using j by (auto simp: buf_inc_ptr_def mod_Suc simp del: of_nat_Suc)
qed

text \<open>The ring index of \<open>n\<close>, for indices less than two rounds.\<close>

definition wr :: "nat \<Rightarrow> nat" where
  "wr n = (if n < 32768 then n else n - 32768)"

lemma wr_less [simp]: "n < 65536 \<Longrightarrow> wr n < 32768"
  unfolding wr_def by (auto split: if_splits)

lemma unat_wr [simp]: "n < 65536 \<Longrightarrow> unat (of_nat (wr n) :: u16) = wr n"
  using wr_less [of n] by (intro unat_of_nat_u16) linarith

lemma wr_id [simp]: "n < 32768 \<Longrightarrow> wr n = n"
  by (simp add: wr_def)

lemma inc_wr: "n < 65535 \<Longrightarrow> buf_inc_ptr (of_nat (wr n)) = of_nat (wr (Suc n))"
  using inc_ptr [of "wr n"] wr_less [of n] by (cases "wr n = 32767") (auto simp: wr_def mod_Suc split: if_splits)

lemma wr_neq: "p < 32768 \<Longrightarrow> a < b \<Longrightarrow> b < 32768 \<Longrightarrow> wr (p + a) \<noteq> wr (p + b)"
  by (auto simp: wr_def split: if_splits)

lemma wr_wr: "p < 32768 \<Longrightarrow> k < 32768 \<Longrightarrow> wr (wr (Suc p) + k) = wr (Suc (p + k))"
  by (auto simp: wr_def split: if_splits)

lemma wr_bound: "p < 32768 \<Longrightarrow> k \<le> 32768 \<Longrightarrow> p + k < 65536" for p k :: nat
  by simp

definition point_rec :: "u8 list \<Rightarrow> u16 \<Rightarrow> u16 \<Rightarrow> u8 \<Rightarrow> u32 \<Rightarrow> tracer_buf_t" where
  "point_rec pos track point flags info =
     (let buf = \<lparr>tb_track = track, tb_point = point, tb_position = pos, tb_info = info,
                 tb_flags = flags, tb_chsum = 0\<rparr>
      in buf\<lparr>tb_chsum := tracer_buf_checksum buf\<rparr>)"

definition tb_queue :: "('f \<Rightarrow> nat \<Rightarrow> u8) \<Rightarrow> 'f tbuf \<Rightarrow> nat \<Rightarrow> tracer_buf_t list \<Rightarrow> bool" where
  "tb_queue mem b p xs \<longleftrightarrow> p < 32768 \<and> length xs < 32768 \<and> buf_read_ptr b = of_nat p
     \<and> buf_save_ptr b = of_nat (wr (p + length xs)) \<and> tb_lawful mem (tb_st b)
     \<and> (\<forall>k < length xs. slot mem (tb_st b) (wr (p + k)) = Some (xs ! k))"

lemma tb_queueD:
  assumes "tb_queue mem b p xs"
  shows "p < 32768" "length xs < 32768" "buf_read_ptr b = of_nat p"
    "buf_save_ptr b = of_nat (wr (p + length xs))" "flash_lawful mem (st_dev (tb_st b))"
    "flash_reliable (st_dev (tb_st b))"
    "k < length xs \<Longrightarrow> slot mem (tb_st b) (wr (p + k)) = Some (xs ! k)"
  using assms by (auto simp: tb_queue_def)

lemma store_queue:
  assumes Q: "tb_queue mem b p xs" and room: "length xs < 32767" and l: "length pos = 22"
  shows "\<exists>b'. tracer_buf_store_position True b pos track point flags info = (b', True)
     \<and> tb_queue mem b' p (xs @ [point_rec pos track point flags info])"
proof -
  note D = tb_queueD [OF Q]
  define j where "j = wr (p + length xs)"
  have j: "j < 32768" "unat (of_nat j :: u16) = j" using D(1,2) wr_bound [of p "length xs"] by (simp_all add: j_def)
  define buf where "buf = \<lparr>tb_track = track, tb_point = point, tb_position = pos, tb_info = info,
     tb_flags = flags, tb_chsum = 0\<rparr>"
  obtain st r where sv: "tracer_buf_save (tb_st b) (of_nat j) buf = (st, r)" by fastforce
  have lb: "length (tb_position buf) = 22" using l by (simp add: buf_def)
  note ss = save_slot [OF D(5) _ lb sv, unfolded j(2), OF j(1)]
  define b' where "b' = b\<lparr>tb_st := st, buf_save_ptr := of_nat (wr (Suc (p + length xs)))\<rparr>"
  have run: "tracer_buf_store_position True b pos track point flags info = (b', True)"
    using sv D(1,2) D(4) inc_wr [of "p + length xs"]
    by (simp add: tracer_buf_store_position_def Let_def buf_def [symmetric] j_def b'_def)
  have new: "slot mem st j = Some (point_rec pos track point flags info)"
    using ss(3) ss(4) D(6) by (simp add: point_rec_def buf_def)
  have old: "slot mem st (wr (p + k)) = Some (xs ! k)" if "k < length xs" for k
    using wr_neq [OF D(1) that D(2)] ss(2) [of "wr (p + k)"] D(7) [OF that] by (simp add: j_def slot_def)
  have "tb_queue mem b' p (xs @ [point_rec pos track point flags info])"
    using D(1-6) room ss(1) st_same_lawful [OF ss(1)] st_same_reliable [OF ss(1)] new old
    by (auto simp: tb_queue_def b'_def nth_append less_Suc_eq j_def)
  then show ?thesis using run by blast
qed

lemma read_queue:
  assumes Q: "tb_queue mem b p xs"
  shows "case xs of [] \<Rightarrow> tracer_buf_read_next True b = (b, None) \<and> tracer_buf_empty b
     | x # ys \<Rightarrow> \<not> tracer_buf_empty b \<and> (\<exists>b'. tracer_buf_read_next True b = (b', Some (of_nat p, x))
         \<and> tb_queue mem b' (wr (Suc p)) ys)"
proof (cases xs)
  case Nil
  then show ?thesis using tb_queueD [OF Q] by (simp add: tracer_buf_read_next_def tracer_buf_empty_def)
next
  case (Cons x ys)
  note D = tb_queueD [OF Q]
  have p: "unat (of_nat p :: u16) = p" using D(1) by simp
  have "unat (of_nat (wr (p + length xs)) :: u16) = wr (p + length xs)" using D(1,2) wr_bound [of p "length xs"] by simp
  then have ne: "buf_save_ptr b \<noteq> buf_read_ptr b"
    using D(3,4) p wr_neq [OF D(1), of 0 "length xs"] D(1,2) Cons by (metis add_0_right length_greater_0_conv
      list.distinct(1) wr_id)
  obtain st r where ld: "tracer_buf_load (tb_st b) (of_nat p) = (st, r)" by fastforce
  note ls = load_slot [OF D(5) _ ld, unfolded p, OF D(1)]
  have r: "r = Some x" using ls(4) D(6) D(7) [of 0] D(1) Cons by simp
  have sl: "slot mem st = slot mem (tb_st b)" using ls(1) by (simp add: slot_def fun_eq_iff)
  have sh: "slot mem (tb_st b) (wr (Suc (p + k))) = Some (ys ! k)" if "k < length ys" for k
    using D(7) [of "Suc k"] that Cons by simp
  define b' where "b' = b\<lparr>tb_st := st, buf_read_ptr := of_nat (wr (Suc p))\<rparr>"
  have "tb_queue mem b' (wr (Suc p)) ys"
    using D(1-6) Cons st_same_lawful [OF ls(2)] st_same_reliable [OF ls(2)] sl sh wr_wr [OF D(1)]
    by (simp add: tb_queue_def b'_def)
  moreover have "tracer_buf_read_next True b = (b', Some (of_nat p, x))"
    using ne ld r D(3) inc_wr [of p] D(1) by (simp add: tracer_buf_read_next_def b'_def)
  ultimately show ?thesis using ne Cons by (simp add: tracer_buf_empty_def)
qed

datatype tb_op = Tb_store "u8 list" u16 u16 u8 u32 | Tb_read

fun tb_run :: "'f tbuf \<Rightarrow> tb_op list \<Rightarrow> tracer_buf_t option list" where
  "tb_run b [] = []"
| "tb_run b (Tb_store pos track point flags info # ops) =
     tb_run (fst (tracer_buf_store_position True b pos track point flags info)) ops"
| "tb_run b (Tb_read # ops) =
     (case tracer_buf_read_next True b of (b, r) \<Rightarrow> map_option snd r # tb_run b ops)"

text \<open>The specification: a queue of points, that never holds more than 32767.\<close>

fun fifo_run :: "tracer_buf_t list \<Rightarrow> tb_op list \<Rightarrow> tracer_buf_t option list" where
  "fifo_run xs [] = []"
| "fifo_run xs (Tb_store pos track point flags info # ops) =
     fifo_run (xs @ [point_rec pos track point flags info]) ops"
| "fifo_run [] (Tb_read # ops) = None # fifo_run [] ops"
| "fifo_run (x # xs) (Tb_read # ops) = Some x # fifo_run xs ops"

fun fifo_room :: "nat \<Rightarrow> tb_op list \<Rightarrow> bool" where
  "fifo_room n [] = True"
| "fifo_room n (Tb_store pos track point flags info # ops) =
     (n < 32767 \<and> length pos = 22 \<and> fifo_room (Suc n) ops)"
| "fifo_room n (Tb_read # ops) = fifo_room (n - 1) ops"

lemma run_queue:
  "tb_queue mem b p xs \<Longrightarrow> fifo_room (length xs) ops \<Longrightarrow> tb_run b ops = fifo_run xs ops"
proof (induction ops arbitrary: b p xs)
  case (Cons op ops)
  show ?case
  proof (cases op)
    case (Tb_store pos track point flags info)
    with Cons.prems(2) have room: "length xs < 32767" and l: "length pos = 22" by auto
    show ?thesis
      using store_queue [OF Cons.prems(1) room l, of track point flags info] Cons.IH Cons.prems(2) Tb_store by fastforce
  next
    case Tb_read
    show ?thesis
      using read_queue [OF Cons.prems(1)] Cons.IH Cons.prems Tb_read by (cases xs) fastforce+
  qed
qed simp

subsection \<open>The restart\<close>

text \<open>A device whose slots hold \<open>S\<close>.\<close>

definition holds :: "('f \<Rightarrow> nat \<Rightarrow> u8) \<Rightarrow> (nat \<Rightarrow> tracer_buf_t option) \<Rightarrow> 'f storage \<Rightarrow> bool" where
  "holds mem S st \<longleftrightarrow> tb_lawful mem st \<and> slot mem st = S"

lemma holds_load:
  assumes "holds mem S st" "j < 32768"
  shows "\<exists>st'. tracer_buf_load st (of_nat j) = (st', S j) \<and> holds mem S st'"
proof -
  obtain st' r where ld: "tracer_buf_load st (of_nat j) = (st', r)" by fastforce
  have j: "unat (of_nat j :: u16) = j" using assms(2) by simp
  have lw: "flash_lawful mem (st_dev st)" "flash_reliable (st_dev st)" using assms(1) by (auto simp: holds_def)
  note ls = load_slot [OF lw(1) _ ld, unfolded j, OF assms(2)]
  show ?thesis
    using ld ls(1) ls(4) lw assms(1) st_same_lawful [OF ls(2)] st_same_reliable [OF ls(2)]
    by (auto simp: holds_def slot_def fun_eq_iff)
qed

definition undelivered :: "(nat \<Rightarrow> tracer_buf_t option) \<Rightarrow> nat \<Rightarrow> bool" where
  "undelivered S j = (case S j of None \<Rightarrow> False | Some r \<Rightarrow> tb_flags r AND TRACER_FLAG_DELIVERED = 0)"

definition track_at :: "(nat \<Rightarrow> tracer_buf_t option) \<Rightarrow> nat \<Rightarrow> u16" where
  "track_at S j = (case S j of None \<Rightarrow> 0 | Some r \<Rightarrow> tb_track r)"

definition info_at :: "(nat \<Rightarrow> tracer_buf_t option) \<Rightarrow> nat \<Rightarrow> u32" where
  "info_at S j = (case S j of None \<Rightarrow> 0 | Some r \<Rightarrow> tb_info r)"

text \<open>The slot \<open>d\<close> places before \<open>p\<close>.\<close>

definition behind :: "nat \<Rightarrow> nat \<Rightarrow> nat" where
  "behind p d = (if d \<le> p then p - d else p + 32768 - d)"

text \<open>
  The ring after whole rounds of stores that ended at slot \<open>l\<close>: the slots up to \<open>l\<close> hold
  points of ascending tracks, those behind it nothing or older tracks, and the last \<open>n\<close>
  points are the undelivered ones.
\<close>

definition tb_tracks :: "(nat \<Rightarrow> tracer_buf_t option) \<Rightarrow> nat \<Rightarrow> bool" where
  "tb_tracks S l \<longleftrightarrow> l < 32768
     \<and> (\<forall>j \<le> l. S j \<noteq> None) \<and> (\<forall>i j. i \<le> j \<longrightarrow> j \<le> l \<longrightarrow> track_at S i \<le> track_at S j)
     \<and> (\<forall>j. l < j \<longrightarrow> j < 32768 \<longrightarrow> S j = None \<or> track_at S j < track_at S 0)"

definition tb_log :: "(nat \<Rightarrow> tracer_buf_t option) \<Rightarrow> nat \<Rightarrow> nat \<Rightarrow> bool" where
  "tb_log S l n \<longleftrightarrow> tb_tracks S l \<and> n < 32768
     \<and> (\<forall>d < 32768. undelivered S (behind l d) \<longleftrightarrow> d < n)"

definition undel_ptr :: "(nat \<Rightarrow> tracer_buf_t option) \<Rightarrow> nat \<Rightarrow> nat \<Rightarrow> u16 \<Rightarrow> bool" where
  "undel_ptr S l j u \<longleftrightarrow> (u = PTR_INVALID \<or> (\<exists>k \<le> l. undelivered S k \<and> u = of_nat k))
     \<and> (0 < j \<longrightarrow> undelivered S j \<longrightarrow> u = of_nat j) \<and> (j = 0 \<longrightarrow> u = PTR_INVALID)"

lemma half_pow_Suc: "m < 14 \<Longrightarrow> drop_bit 1 (2 ^ Suc m :: u16) = 2 ^ m"
  by (rule bit_word_eqI) (auto simp: bit_drop_bit_eq bit_exp_iff possible_bit_word simp del: power_Suc)

lemma pow_neq_0: "m < 15 \<Longrightarrow> (2 ^ m :: u16) \<noteq> 0"
  by (simp add: exp_eq_zero_iff)

text \<open>A probe behind the last point fails, one up to it succeeds.\<close>

lemma probe:
  assumes log: "tb_tracks S l" and "j \<le> l" "j < k" "k < 32768"
  shows "(case S k of None \<Rightarrow> False | Some r \<Rightarrow> track_at S j \<le> tb_track r) \<longleftrightarrow> k \<le> l"
proof (cases "k \<le> l")
  case True
  then have "S k \<noteq> None" "track_at S j \<le> track_at S k" using log assms(3) by (auto simp: tb_tracks_def)
  then show ?thesis using True by (auto simp: track_at_def [of S k])
next
  case False
  then have "S k = None \<or> track_at S k < track_at S 0" "track_at S 0 \<le> track_at S j"
    using log assms by (auto simp: tb_tracks_def)
  then show ?thesis using False by (auto simp: track_at_def [of S k] split: option.splits)
qed

definition found :: "(nat \<Rightarrow> tracer_buf_t option) \<Rightarrow> nat \<Rightarrow> nat \<Rightarrow> 'f tbuf \<Rightarrow> ('f \<Rightarrow> nat \<Rightarrow> u8) \<Rightarrow> bool" where
  "found S l j b mem \<longleftrightarrow> holds mem S (tb_st b) \<and> buf_save_ptr b = of_nat j
     \<and> undel_ptr S l j (buf_last_undelivered b)"

lemma find_last_step:
  assumes log: "tb_tracks S l" and "j \<le> l" "j < k" "k < 32768" "i \<noteq> 0" and F: "found S l j b mem"
  shows "\<exists>b'. find_last b (track_at S j) (if j = 0 then 0 else info_at S j) i (of_nat k) =
       (if k \<le> l then find_last b' (track_at S k) (if k = 0 then 0 else info_at S k) (drop_bit 1 i) (of_nat k + drop_bit 1 i)
        else find_last b' (track_at S j) (if j = 0 then 0 else info_at S j) (drop_bit 1 i) (of_nat k - drop_bit 1 i))
     \<and> found S l (if k \<le> l then k else j) b' mem"
proof -
  obtain st where ld: "tracer_buf_load (tb_st b) (of_nat k) = (st, S k)" and H: "holds mem S st"
    using holds_load [of mem S "tb_st b" k] F assms(4) by (auto simp: found_def)
  show ?thesis
  proof (cases "k \<le> l")
    case True
    then obtain r where r: "S k = Some r" "track_at S j \<le> tb_track r"
      using probe [OF assms(1-4)] by (auto split: option.splits)
    have "track_at S k = tb_track r" "info_at S k = tb_info r" "undelivered S k \<longleftrightarrow> tb_flags r AND 1 = 0"
      using r by (simp_all add: track_at_def info_at_def undelivered_def)
    note at = this
    define b' where "b' = b\<lparr>tb_st := st, buf_save_ptr := of_nat k,
        buf_last_undelivered := if undelivered S k then of_nat k else buf_last_undelivered b\<rparr>"
    have "found S l k b' mem" using F H True assms(3) by (auto simp: found_def undel_ptr_def b'_def)
    moreover have "find_last b (track_at S j) (if j = 0 then 0 else info_at S j) i (of_nat k) =
        find_last b' (track_at S k) (info_at S k) (drop_bit 1 i) (of_nat k + drop_bit 1 i)"
      using r ld assms(5) at by (subst find_last.simps) (simp add: b'_def Let_def)
    ultimately show ?thesis using True assms(3) by (intro exI [of _ b']) simp
  next
    case False
    have "found S l j (b\<lparr>tb_st := st\<rparr>) mem" using F H by (simp add: found_def)
    then show ?thesis using probe [OF assms(1-4)] False ld assms(5)
      by (subst find_last.simps, intro exI [of _ "b\<lparr>tb_st := st\<rparr>"]) (auto simp: Let_def split: option.splits)
  qed
qed

lemma find_last_lemma:
  assumes log: "tb_tracks S l" and "m \<le> 14" "j \<le> l" "l < j + 2 * 2 ^ m" "j + 2 * 2 ^ m \<le> 32768" "found S l j b mem"
  shows "\<exists>b'. find_last b (track_at S j) (if j = 0 then 0 else info_at S j) (2 ^ m) (of_nat (j + 2 ^ m))
       = (b', track_at S l, if l = 0 then 0 else info_at S l) \<and> found S l l b' mem"
  using assms(2-)
proof (induction m arbitrary: b j)
  case 0
  have "j < j + 1" "j + 1 < 32768" using 0 by auto
  have half1: "drop_bit 1 (1 :: u16) = 0" by (simp add: drop_bit_Suc)
  from find_last_step [OF log \<open>j \<le> l\<close> \<open>j < j + 1\<close> \<open>j + 1 < 32768\<close>, of 1 b mem] 0
  obtain b' where b': "find_last b (track_at S j) (if j = 0 then 0 else info_at S j) 1 (of_nat (j + 1)) =
       (if j + 1 \<le> l then find_last b' (track_at S (j + 1)) (if j + 1 = 0 then 0 else info_at S (j + 1)) 0 (of_nat (j + 1) + 0)
        else find_last b' (track_at S j) (if j = 0 then 0 else info_at S j) 0 (of_nat (j + 1) - 0))"
     "found S l (if j + 1 \<le> l then j + 1 else j) b' mem"
    unfolding half1 by auto
  have "l = j \<or> l = Suc j" using 0 by auto
  then show ?case using b' by (elim disjE) (auto simp: find_last.simps [of _ _ _ 0])
next
  case (Suc m)
  let ?k = "j + 2 ^ Suc m"
  have k: "j < ?k" "?k < 32768" using Suc.prems by auto
  have d: "drop_bit 1 (2 ^ Suc m :: u16) = 2 ^ m" "(2 ^ Suc m :: u16) \<noteq> 0"
    using half_pow_Suc [of m] pow_neq_0 [of "Suc m"] Suc.prems(1) by auto
  have up: "of_nat ?k + 2 ^ m = (of_nat (?k + 2 ^ m) :: u16)" and down: "of_nat ?k - 2 ^ m = (of_nat (j + 2 ^ m) :: u16)"
    by (simp_all add: algebra_simps)
  obtain b' where b': "find_last b (track_at S j) (if j = 0 then 0 else info_at S j) (2 ^ Suc m) (of_nat ?k) =
       (if ?k \<le> l then find_last b' (track_at S ?k) (if ?k = 0 then 0 else info_at S ?k) (2 ^ m) (of_nat (?k + 2 ^ m))
        else find_last b' (track_at S j) (if j = 0 then 0 else info_at S j) (2 ^ m) (of_nat (j + 2 ^ m)))"
     "found S l (if ?k \<le> l then ?k else j) b' mem"
    using find_last_step [OF log Suc.prems(2) k d(2) Suc.prems(5)] unfolding d(1) up down by blast
  show ?case
  proof (cases "?k \<le> l")
    case True
    then have "\<exists>b''. find_last b' (track_at S ?k) (if ?k = 0 then 0 else info_at S ?k) (2 ^ m) (of_nat (?k + 2 ^ m))
       = (b'', track_at S l, if l = 0 then 0 else info_at S l) \<and> found S l l b'' mem"
      using Suc.prems b'(2) by (intro Suc.IH) auto
    then show ?thesis using b'(1) True by (simp only: if_True)
  next
    case False
    then have "\<exists>b''. find_last b' (track_at S j) (if j = 0 then 0 else info_at S j) (2 ^ m) (of_nat (j + 2 ^ m))
       = (b'', track_at S l, if l = 0 then 0 else info_at S l) \<and> found S l l b'' mem"
      using Suc.prems b'(2) by (intro Suc.IH) auto
    then show ?thesis using b'(1) False by (simp only: if_False)
  qed
qed

lemma and_32767: "of_nat y AND 32767 = (of_nat (y mod 32768) :: u16)"
proof -
  have "(of_nat y :: u16) AND mask 15 = take_bit 15 (of_nat y)" by (simp add: take_bit_eq_mask)
  also have "\<dots> = of_nat (take_bit 15 y)" by (simp add: take_bit_of_nat)
  finally show ?thesis by (simp add: mask_eq_exp_minus_1 take_bit_eq_mod)
qed

lemma behind_less: "l < 32768 \<Longrightarrow> behind l k < 32768 \<or> 32768 < k"
  by (auto simp: behind_def)

lemma behind_minus:
  assumes "l < 32768" "k + e < 32768"
  shows "(of_nat (behind l k) - of_nat e) AND 32767 = (of_nat (behind l (k + e)) :: u16)"
proof -
  define y where "y = behind l k + 65536 - e"
  have eq: "(of_nat (behind l k) - of_nat e :: u16) = of_nat y"
    using assms by (simp add: y_def of_nat_diff)
  have y: "y = behind l (k + e) + 32768 * 2 \<or> y = behind l (k + e) + 32768"
    using assms by (auto simp: y_def behind_def)
  have "behind l (k + e) < 32768" using behind_less [of l "k + e"] assms by simp
  with y have "y mod 32768 = behind l (k + e)"
    by (elim disjE) (simp_all only: mod_mult_self2 mod_add_self2 mod_less)
  then show ?thesis by (simp add: and_32767 eq)
qed

lemma behind_plus:
  assumes "l < 32768" "k + e < 32768"
  shows "(of_nat (behind l (k + e)) + of_nat e) AND 32767 = (of_nat (behind l k) :: u16)"
proof -
  have "behind l (k + e) + e = behind l k \<or> behind l (k + e) + e = behind l k + 32768"
    using assms by (auto simp: behind_def)
  then have "(behind l (k + e) + e) mod 32768 = behind l k" using behind_less [of l k] assms by auto
  then show ?thesis by (simp add: and_32767 flip: of_nat_add)
qed

definition und_found :: "(nat \<Rightarrow> tracer_buf_t option) \<Rightarrow> nat \<Rightarrow> nat \<Rightarrow> 'f tbuf \<Rightarrow> ('f \<Rightarrow> nat \<Rightarrow> u8) \<Rightarrow> bool" where
  "und_found S l d b mem \<longleftrightarrow> holds mem S (tb_st b) \<and> buf_save_ptr b = of_nat l
     \<and> buf_last_undelivered b = of_nat (behind l d)"

lemma find_und_step:
  assumes log: "tb_log S l n" and "k < 32768" "i \<noteq> 0" and F: "und_found S l d b mem"
  shows "\<exists>b'. find_undelivered b i (of_nat (behind l k)) =
       (if k < n then find_undelivered b' (drop_bit 1 i) ((of_nat (behind l k) - drop_bit 1 i) AND 32767)
        else find_undelivered b' (drop_bit 1 i) ((of_nat (behind l k) + drop_bit 1 i) AND 32767))
     \<and> und_found S l (if k < n then k else d) b' mem"
proof -
  have l: "l < 32768" using log by (simp add: tb_log_def tb_tracks_def)
  then obtain st where ld: "tracer_buf_load (tb_st b) (of_nat (behind l k)) = (st, S (behind l k))" and H: "holds mem S st"
    using holds_load [of mem S "tb_st b" "behind l k"] F behind_less [of l k] assms(2) by (auto simp: und_found_def)
  have und: "undelivered S (behind l k) \<longleftrightarrow> k < n" using log assms(2) by (simp add: tb_log_def tb_tracks_def)
  show ?thesis
  proof (cases "k < n")
    case True
    define b' where "b' = b\<lparr>tb_st := st, buf_last_undelivered := of_nat (behind l k)\<rparr>"
    have "und_found S l k b' mem" using F H by (simp add: und_found_def b'_def)
    then show ?thesis using True und ld assms(3)
      by (subst find_undelivered.simps, intro exI [of _ b'])
         (auto simp: b'_def Let_def undelivered_def split: option.splits)
  next
    case False
    have "und_found S l d (b\<lparr>tb_st := st\<rparr>) mem" using F H by (simp add: und_found_def)
    then show ?thesis using False und ld assms(3)
      by (subst find_undelivered.simps, intro exI [of _ "b\<lparr>tb_st := st\<rparr>"])
         (auto simp: Let_def undelivered_def split: option.splits)
  qed
qed

lemma find_und_lemma:
  assumes log: "tb_log S l n" and "m \<le> 14" "d < n" "n \<le> d + 2 * 2 ^ m" "d + 2 * 2 ^ m \<le> 32768" "und_found S l d b mem"
  shows "\<exists>b'. find_undelivered b (2 ^ m) (of_nat (behind l (d + 2 ^ m))) = b' \<and> und_found S l (n - 1) b' mem"
  using assms(2-)
proof (induction m arbitrary: b d)
  case 0
  have half1: "drop_bit 1 (1 :: u16) = 0" by (simp add: drop_bit_Suc)
  have "d + 1 < 32768" using 0 by auto
  from find_und_step [OF log this, of 1 d b mem] 0
  obtain b' where raw: "find_undelivered b 1 (of_nat (behind l (d + 1))) =
       (if d + 1 < n then find_undelivered b' 0 ((of_nat (behind l (d + 1)) - 0) AND 32767)
        else find_undelivered b' 0 ((of_nat (behind l (d + 1)) + 0) AND 32767))"
     "und_found S l (if d + 1 < n then d + 1 else d) b' mem"
    unfolding half1 by auto
  then have b': "find_undelivered b 1 (of_nat (behind l (d + 1))) = b'"
    by (simp add: find_undelivered.simps [of _ 0])
  have "n - 1 = (if d + 1 < n then d + 1 else d)" using 0 by auto
  then show ?case using b' raw(2) by auto
next
  case (Suc m)
  let ?k = "d + 2 ^ Suc m"
  have k: "?k < 32768" using Suc.prems by auto
  have l: "l < 32768" using log by (simp add: tb_log_def tb_tracks_def)
  have h: "drop_bit 1 (2 ^ Suc m :: u16) = 2 ^ m" "(2 ^ Suc m :: u16) \<noteq> 0"
    using half_pow_Suc [of m] pow_neq_0 [of "Suc m"] Suc.prems(1) by auto
  have pw: "(2 ^ m :: u16) = of_nat (2 ^ m)" by simp
  have up: "(of_nat (behind l ?k) - 2 ^ m) AND 32767 = (of_nat (behind l (?k + 2 ^ m)) :: u16)"
    unfolding pw by (rule behind_minus [OF l]) (use Suc.prems in auto)
  have "(of_nat (behind l (d + 2 ^ m + 2 ^ m)) + of_nat (2 ^ m)) AND 32767 = (of_nat (behind l (d + 2 ^ m)) :: u16)"
    by (rule behind_plus [OF l]) (use Suc.prems in auto)
  then have down: "(of_nat (behind l ?k) + 2 ^ m) AND 32767 = (of_nat (behind l (d + 2 ^ m)) :: u16)"
    by (simp add: add.assoc mult_2)
  obtain b' where b': "find_undelivered b (2 ^ Suc m) (of_nat (behind l ?k)) =
       (if ?k < n then find_undelivered b' (2 ^ m) (of_nat (behind l (?k + 2 ^ m)))
        else find_undelivered b' (2 ^ m) (of_nat (behind l (d + 2 ^ m))))"
     "und_found S l (if ?k < n then ?k else d) b' mem"
    using find_und_step [OF log k h(2) Suc.prems(5)] unfolding h(1) up down by blast
  show ?case
  proof (cases "?k < n")
    case True
    then have "\<exists>b''. find_undelivered b' (2 ^ m) (of_nat (behind l (?k + 2 ^ m))) = b'' \<and> und_found S l (n - 1) b'' mem"
      using Suc.prems b'(2) by (intro Suc.IH) auto
    then show ?thesis using b'(1) True by (simp only: if_True)
  next
    case False
    then have "\<exists>b''. find_undelivered b' (2 ^ m) (of_nat (behind l (d + 2 ^ m))) = b'' \<and> und_found S l (n - 1) b'' mem"
      using Suc.prems b'(2) by (intro Suc.IH) auto
    then show ?thesis using b'(1) False by (simp only: if_False)
  qed
qed

lemma log_undelivered: "tb_log S l n \<Longrightarrow> k \<le> l \<Longrightarrow> undelivered S k \<longleftrightarrow> l - k < n"
  by (auto simp: tb_log_def tb_tracks_def behind_def dest!: spec [of _ "l - k"])

lemma init_lemma:
  assumes H: "holds mem S (tb_st b)" and log: "tb_log S l n"
  defines "n' \<equiv> if l = 0 then 0 else n"
  shows "\<exists>b'. tracer_buf_init True b = Some (b', True, track_at S l, if l = 0 then 0 else info_at S l)
     \<and> holds mem S (tb_st b') \<and> buf_save_ptr b' = of_nat (wr (Suc l))
     \<and> buf_read_ptr b' = of_nat (behind (wr (Suc l)) n') \<and> buf_last_undelivered b' = buf_read_ptr b'"
proof -
  have l: "l < 32768" and n: "n < 32768" using log by (auto simp: tb_log_def tb_tracks_def)
  obtain r0 where r0: "S 0 = Some r0" using log by (auto simp: tb_log_def tb_tracks_def)
  obtain st where ld: "tracer_buf_load (tb_st b) 0 = (st, Some r0)" and H1: "holds mem S st"
    using holds_load [OF H, of 0] r0 by auto
  define b1 where "b1 = b\<lparr>buf_last_undelivered := 65535, tb_st := st, buf_save_ptr := 0\<rparr>"
  have "found S l 0 b1 mem" using H1 by (simp add: found_def b1_def undel_ptr_def)
  then obtain b2 where fl: "find_last b1 (track_at S 0) 0 16384 16384 = (b2, track_at S l, if l = 0 then 0 else info_at S l)"
    and F: "found S l l b2 mem"
    using find_last_lemma [of S l 14 0 b1 mem] log l by (auto simp: tb_log_def)
  have lw: "(of_nat l :: u16) \<noteq> 65535" "unat (of_nat l :: u16) = l"
    using l by (auto dest!: arg_cong [where f = unat])
  define b3 where "b3 = (if n' = 0 then b2 else find_undelivered b2 16384 ((buf_save_ptr b2 - 16384) AND 32767))"
  have b3: "holds mem S (tb_st b3) \<and> buf_save_ptr b3 = of_nat l
     \<and> buf_last_undelivered b3 = (if n' = 0 then 65535 else of_nat (behind l (n' - 1)))"
    and ck: "buf_last_undelivered b2 \<noteq> 65535 \<longleftrightarrow> n' \<noteq> 0"
  proof -
    show ck: "buf_last_undelivered b2 \<noteq> 65535 \<longleftrightarrow> n' \<noteq> 0"
      using F log_undelivered [OF log] lw by (auto simp: found_def undel_ptr_def n'_def)
    show "holds mem S (tb_st b3) \<and> buf_save_ptr b3 = of_nat l
     \<and> buf_last_undelivered b3 = (if n' = 0 then 65535 else of_nat (behind l (n' - 1)))"
    proof (cases "n' = 0")
      case True
      then show ?thesis using F ck by (simp add: b3_def found_def)
    next
      case False
      then have n': "n' = n" "0 < n" by (auto simp: n'_def split: if_splits)
      have "und_found S l 0 b2 mem"
        using F False log_undelivered [OF log, of l] by (auto simp: found_def und_found_def undel_ptr_def behind_def n'_def)
      moreover have "(of_nat (behind l 0) - of_nat 16384) AND 32767 = (of_nat (behind l (0 + 16384)) :: u16)"
        by (rule behind_minus) (use l in auto)
      ultimately have "und_found S l (n' - 1) b3 mem"
        using find_und_lemma [OF log, of 14 0 b2 mem] F False n n' by (simp add: b3_def found_def behind_def)
      then show ?thesis using False by (simp add: und_found_def)
    qed
  qed
  have bh: "behind l (n' - 1) = behind (wr (Suc l)) n'" "behind (wr (Suc l)) n' < 32768" if "n' \<noteq> 0"
    using l n that by (auto simp: behind_def wr_def n'_def split: if_splits)
  then have ne: "(of_nat (behind (wr (Suc l)) n') :: u16) \<noteq> 65535" if "n' \<noteq> 0"
    using that by (auto dest!: arg_cong [where f = unat])
  have i: "buf_inc_ptr (of_nat l) = of_nat (wr (Suc l))" using inc_wr [of l] l by simp
  have "init_search b = (b3, track_at S l, if l = 0 then 0 else info_at S l)"
    using ld fl ck r0
    by (simp add: init_search_def Let_def b1_def [symmetric] b3_def track_at_def [of S 0] drop_bit_Suc)
  moreover have "init_pointers b3 = b3\<lparr>buf_save_ptr := of_nat (wr (Suc l)),
      buf_last_undelivered := of_nat (behind (wr (Suc l)) n'), buf_read_ptr := of_nat (behind (wr (Suc l)) n')\<rparr>"
    using b3 lw(1) i bh ne by (cases "n' = 0") (auto simp: init_pointers_def Let_def behind_def [of _ 0])
  ultimately show ?thesis using b3 by (simp add: tracer_buf_init_def)
qed

subsection \<open>Delivery\<close>

definition delivered :: "tracer_buf_t \<Rightarrow> tracer_buf_t" where
  "delivered r = (let r = r\<lparr>tb_flags := tb_flags r OR TRACER_FLAG_DELIVERED\<rparr> in r\<lparr>tb_chsum := tracer_buf_checksum r\<rparr>)"

lemma holds_save:
  assumes "holds mem S st" "j < 32768" "length (tb_position buf) = 22"
  shows "\<exists>st'. tracer_buf_save st (of_nat j) buf = (st', True)
     \<and> holds mem (S(j := Some (buf\<lparr>tb_chsum := tracer_buf_checksum buf\<rparr>))) st'"
proof -
  obtain st' r where sv: "tracer_buf_save st (of_nat j) buf = (st', r)" by fastforce
  have j: "unat (of_nat j :: u16) = j" using assms(2) by simp
  have lw: "flash_lawful mem (st_dev st)" "flash_reliable (st_dev st)" using assms(1) by (auto simp: holds_def)
  note ss = save_slot [OF lw(1) _ assms(3) sv, unfolded j, OF assms(2)]
  have "slot mem st' k = (S(j := Some (buf\<lparr>tb_chsum := tracer_buf_checksum buf\<rparr>))) k" for k
    using ss(2) [of k] ss(3) ss(4) lw assms(1) by (auto simp: holds_def slot_def)
  then show ?thesis
    using sv ss(4) lw st_same_lawful [OF ss(1)] st_same_reliable [OF ss(1)] by (auto simp: holds_def)
qed

lemma deliver_one_lemma:
  assumes H: "holds mem S (tb_st b)" and p: "p < 32768" "buf_last_undelivered b = of_nat p"
  shows "holds mem (S(p := map_option delivered (S p))) (tb_st (deliver_one b))
     \<and> buf_last_undelivered (deliver_one b) = of_nat (wr (Suc p))
     \<and> buf_read_ptr (deliver_one b) = buf_read_ptr b \<and> buf_save_ptr (deliver_one b) = buf_save_ptr b"
proof -
  obtain st where ld: "tracer_buf_load (tb_st b) (of_nat p) = (st, S p)" and H1: "holds mem S st"
    using holds_load [OF H p(1)] by auto
  have w: "buf_inc_ptr (of_nat p) = of_nat (wr (Suc p))" using inc_wr [of p] p by simp
  show ?thesis
  proof (cases "S p")
    case None
    then have "S(p := None) = S" by auto
    then show ?thesis using ld H1 w p None by (simp add: deliver_one_def Let_def)
  next
    case (Some r)
    have "slot mem st = S" using H1 by (simp add: holds_def)
    then have "length (tb_position r) = 22" using slot_position [of mem st p r] Some by simp
    then have l: "length (tb_position (r\<lparr>tb_flags := tb_flags r OR 1\<rparr>)) = 22" by simp
    obtain st2 where "tracer_buf_save st (of_nat p) (r\<lparr>tb_flags := tb_flags r OR 1\<rparr>) = (st2, True)"
      "holds mem (S(p := Some (delivered r))) st2"
      using holds_save [OF H1 p(1) l] by (auto simp: delivered_def Let_def)
    then show ?thesis using ld w p Some by (simp add: deliver_one_def Let_def)
  qed
qed

definition marked :: "(nat \<Rightarrow> tracer_buf_t option) \<Rightarrow> nat \<Rightarrow> nat \<Rightarrow> nat \<Rightarrow> tracer_buf_t option" where
  "marked S p n = (\<lambda>j. if \<exists>d < n. j = wr (p + d) then map_option delivered (S j) else S j)"

lemma marked_0 [simp]: "marked S p 0 = S"
  by (simp add: marked_def)

lemma marked_Suc:
  assumes "p < 32768" "Suc n < 32768"
  shows "marked (S(p := map_option delivered (S p))) (wr (Suc p)) n = marked S p (Suc n)"
proof
  fix j
  have "(\<exists>d < Suc n. j = wr (p + d)) \<longleftrightarrow> j = p \<or> (\<exists>d < n. j = wr (wr (Suc p) + d))"
    using assms by (auto simp: wr_wr Ex_less_Suc2)
  moreover have "\<not> (\<exists>d < n. p = wr (wr (Suc p) + d))"
    using assms wr_neq [of p 0 "Suc _"] by (auto simp: wr_wr)
  ultimately show "marked (S(p := map_option delivered (S p))) (wr (Suc p)) n j = marked S p (Suc n) j"
    by (auto simp: marked_def)
qed

lemma deliver_loop_lemma:
  "holds mem S (tb_st b) \<Longrightarrow> p < 32768 \<Longrightarrow> n < 32768 \<Longrightarrow> buf_last_undelivered b = of_nat p
     \<Longrightarrow> buf_read_ptr b = of_nat (wr (p + n))
   \<Longrightarrow> \<exists>b'. deliver_loop b = Some b' \<and> holds mem (marked S p n) (tb_st b')
       \<and> buf_last_undelivered b' = buf_read_ptr b \<and> buf_read_ptr b' = buf_read_ptr b \<and> buf_save_ptr b' = buf_save_ptr b"
proof (induction n arbitrary: S b p)
  case 0
  then show ?case by (subst deliver_loop.simps) simp
next
  case (Suc n)
  note one = deliver_one_lemma [OF Suc.prems(1,2,4)]
  have w: "wr (Suc p) < 32768" "wr (wr (Suc p) + n) = wr (p + Suc n)" using Suc.prems wr_wr [of p n] by auto
  have "p \<noteq> wr (p + Suc n)" using wr_neq [of p 0 "Suc n"] Suc.prems by simp
  moreover have "unat (of_nat (wr (p + Suc n)) :: u16) = wr (p + Suc n)" "unat (of_nat p :: u16) = p"
    using wr_bound [of p "Suc n"] Suc.prems by simp_all
  ultimately have "buf_last_undelivered b \<noteq> buf_read_ptr b" using Suc.prems by metis
  then have "deliver_loop b = deliver_loop (deliver_one b)" by (subst deliver_loop.simps) simp
  then show ?case
    using Suc.IH [of "S(p := map_option delivered (S p))" "deliver_one b" "wr (Suc p)"] one w Suc.prems
      marked_Suc [of p n S] by (simp del: fun_upd_apply)
qed

subsection \<open>Properties\<close>

text \<open>C15: On a working device the point ring is a first-in first-out queue: whatever sequence of
stores and reads runs, the reads return the stored points unchanged and in order, and -1
exactly when none is left, as long as no more than 32767 points wait.\<close>

theorem tracer_buf_fifo:
  assumes "tb_queue mem b p xs" and "fifo_room (length xs) ops"
  shows "tb_run b ops = fifo_run xs ops"
  using assms by (rule run_queue)

definition tb_fresh :: "(nat \<Rightarrow> u8) tbuf" where
  "tb_fresh = \<lparr>tb_st = ram_storage (\<lambda>_. 0), buf_read_ptr = 0, buf_save_ptr = 0, buf_last_undelivered = 0\<rparr>"

theorem tracer_buf_fifo_witness:
  "tb_run tb_fresh [Tb_store (replicate 22 7) 1 2 3 4, Tb_read, Tb_read]
     = [Some (point_rec (replicate 22 7) 1 2 3 4), None]"
proof -
  have "tb_queue id tb_fresh 0 []" by (simp add: tb_queue_def tb_fresh_def)
  from tracer_buf_fifo [OF this, of "[Tb_store (replicate 22 7) 1 2 3 4, Tb_read, Tb_read]"]
  show ?thesis by simp
qed

text \<open>C34: after a restart the two binary searches find the ring again: when slots 0 to l hold
points of ascending tracks, the slots behind hold none or points of tracks older than that of slot 0, and the last n points are
the undelivered ones, the save pointer is the slot after the last point, the read pointer is the first
undelivered point, and track and info are those of the last point. The exception is a last point in
slot 0, in a new ring as well as in one that has just wrapped around: the flags and the info of this slot
are never looked at, so that none of the undelivered points is found again (the read pointer is the save
pointer) and the info is 0.\<close>

theorem tracer_buf_restart:
  assumes "holds mem S (tb_st b)" and "tb_log S l n"
  shows "\<exists>b'. tracer_buf_init True b = Some (b', True, track_at S l, if l = 0 then 0 else info_at S l)
     \<and> holds mem S (tb_st b') \<and> buf_save_ptr b' = of_nat (wr (Suc l))
     \<and> buf_read_ptr b' = (if l = 0 then buf_save_ptr b' else of_nat (behind (wr (Suc l)) n))
     \<and> buf_last_undelivered b' = buf_read_ptr b'"
  using init_lemma [OF assms] by (auto simp: behind_def [of _ 0])

lemma holds_blank: "holds id (\<lambda>_. None) (ram_storage (\<lambda>_. 0))"
proof -
  have "slot_bytes id (ram_storage (\<lambda>_. 0)) j = replicate 32 0" for j
    by (rule nth_equalityI) (simp_all add: slot_bytes_def gps_region.at_def st_bytes_def st_mem_def ram_flash_def)
  moreover have "chsum_from 0 0 (replicate 31 0) \<noteq> 0" by code_simp
  then have "checked (replicate 32 0) = None"
    by (simp add: checked_def tb_of_bytes_fields checksum_of_bytes)
  ultimately show ?thesis by (simp add: holds_def slot_def fun_eq_iff)
qed

definition two_points :: "nat \<Rightarrow> tracer_buf_t option" where
  "two_points = ((\<lambda>_. None)(0 := Some (point_rec (replicate 22 7) 5 1 2 8)))(1 := Some (point_rec (replicate 22 7) 5 2 2 9))"

lemma holds_two: "\<exists>st. holds id two_points st"
proof -
  define r where "r k = \<lparr>tb_track = 5, tb_point = k, tb_position = replicate 22 7, tb_info = (if k = 1 then 8 else 9),
     tb_flags = 2, tb_chsum = 0\<rparr>" for k :: u16
  obtain st where "holds id ((\<lambda>_. None)(0 := Some (r 1\<lparr>tb_chsum := tracer_buf_checksum (r 1)\<rparr>))) st"
    using holds_save [OF holds_blank, of 0 "r 1"] by (auto simp: r_def)
  from holds_save [OF this, of 1 "r 2"] show ?thesis
    by (auto simp: r_def two_points_def point_rec_def Let_def)
qed

lemma log_two: "tb_log two_points 1 2"
  by (auto simp: tb_log_def tb_tracks_def two_points_def track_at_def undelivered_def point_rec_def behind_def Let_def le_Suc_eq)

theorem tracer_buf_restart_witness:
  "\<exists>st b'. tracer_buf_init True \<lparr>tb_st = st :: (nat \<Rightarrow> u8) storage, buf_read_ptr = 0, buf_save_ptr = 0,
       buf_last_undelivered = 0\<rparr> = Some (b', True, 5, 9) \<and> buf_read_ptr b' = 0 \<and> buf_save_ptr b' = 2"
proof -
  obtain st where H: "holds id two_points st" using holds_two by blast
  define b where "b = \<lparr>tb_st = st, buf_read_ptr = 0, buf_save_ptr = 0, buf_last_undelivered = 0\<rparr>"
  have "holds id two_points (tb_st b)" using H by (simp add: b_def)
  from tracer_buf_restart [OF this log_two] show ?thesis
    unfolding b_def by (intro exI [of _ st]) (auto simp: track_at_def info_at_def two_points_def point_rec_def Let_def
        wr_def behind_def)
qed

text \<open>\<open>tracer_buf_delivered_all\<close> returns, and flags as delivered exactly the points
between \<open>buf_last_undelivered\<close> and \<open>buf_read_ptr\<close> (with a fresh checksum, so that they
stay readable); every other slot of the ring keeps its contents.\<close>

theorem tracer_buf_delivered:
  assumes "holds mem S (tb_st b)" and "p < 32768" and "n < 32768"
    and "buf_last_undelivered b = of_nat p" and "buf_read_ptr b = of_nat (wr (p + n))"
  shows "\<exists>b'. tracer_buf_delivered_all True b = Some (b', True)
     \<and> buf_last_undelivered b' = buf_read_ptr b \<and> buf_save_ptr b' = buf_save_ptr b
     \<and> slot mem (tb_st b') = (\<lambda>j. if \<exists>d < n. j = wr (p + d) then map_option delivered (S j) else S j)"
  using deliver_loop_lemma [OF assms]
  by (auto simp: tracer_buf_delivered_all_def holds_def marked_def)

theorem tracer_buf_delivered_witness:
  "\<exists>st b'. tracer_buf_delivered_all True \<lparr>tb_st = st :: (nat \<Rightarrow> u8) storage, buf_read_ptr = 1, buf_save_ptr = 2,
       buf_last_undelivered = 0\<rparr> = Some (b', True) \<and> buf_last_undelivered b' = 1
     \<and> slot id (tb_st b') 1 = two_points 1"
proof -
  obtain st where H: "holds id two_points st" using holds_two by blast
  define b where "b = \<lparr>tb_st = st, buf_read_ptr = 1, buf_save_ptr = 2, buf_last_undelivered = 0\<rparr>"
  have "holds id two_points (tb_st b)" using H by (simp add: b_def)
  from tracer_buf_delivered [OF this, of 0 1] show ?thesis
    unfolding b_def by (intro exI [of _ st]) auto
qed

text \<open>A stored point with one corrupted byte, any byte and any wrong value, is not loaded: the
checksum always differs.\<close>

theorem tracer_buf_corruption_detected:
  assumes "flash_lawful mem (st_dev st)" and "slot mem st' (unat j) \<noteq> None" and "unat j < 32768"
    and "k < 32" and "v \<noteq> slot_bytes mem st' (unat j) ! k"
    and "slot_bytes mem st (unat j) = (slot_bytes mem st' (unat j))[k := v]"
  shows "snd (tracer_buf_load st j) = None"
proof -
  obtain st1 r where ld: "tracer_buf_load st j = (st1, r)" by fastforce
  have "slot mem st (unat j) = None"
    using single_byte [of "slot_bytes mem st' (unat j)" k v] assms(2,4,5,6) by (simp add: slot_def)
  then show ?thesis using load_slot(3) [OF assms(1,3) ld] ld by auto
qed

theorem tracer_buf_corruption_detected_witness:
  "\<exists>st. snd (tracer_buf_load (st :: (nat \<Rightarrow> u8) storage) 1) = None"
proof -
  obtain st' where H: "holds id two_points st'" using holds_two by blast
  define bs where "bs = slot_bytes id st' 1"
  define st where "st = ram_storage (\<lambda>i. if i = 0x20000 + 32 then bs ! 0 + 1 else st_mem id st' i)"
  have sb: "slot_bytes id st 1 = bs[0 := bs ! 0 + 1]"
    by (rule nth_equalityI) (auto simp: bs_def st_def slot_bytes_def gps_region.at_def st_bytes_def st_mem_def
        ram_flash_def nth_list_update)
  have "slot id st' 1 \<noteq> None" using H by (simp add: holds_def two_points_def)
  then have "snd (tracer_buf_load st 1) = None"
    using tracer_buf_corruption_detected [of id st st' 1 0 "bs ! 0 + 1"] sb by (simp add: bs_def [symmetric] st_def [symmetric])
       (simp add: st_def bs_def)
  then show ?thesis by blast
qed

text \<open>
  With a single point in the ring the restart does not look at its flags: the point counts as
  delivered and its info is not reported.
\<close>

lemma tracer_buf_single_lost:
  assumes "holds mem S (tb_st b)" "S 0 = Some r" "\<forall>j. 0 < j \<longrightarrow> j < 32768 \<longrightarrow> S j = None"
    "tb_flags r AND TRACER_FLAG_DELIVERED = 0"
  shows "\<exists>b'. tracer_buf_init True b = Some (b', True, tb_track r, 0) \<and> tracer_buf_empty b'"
proof -
  have t: "tb_tracks S 0" using assms by (auto simp: tb_tracks_def)
  obtain st where ld: "tracer_buf_load (tb_st b) 0 = (st, Some r)" and H1: "holds mem S st"
    using holds_load [OF assms(1), of 0] assms(2) by auto
  define b1 where "b1 = b\<lparr>buf_last_undelivered := 65535, tb_st := st, buf_save_ptr := 0\<rparr>"
  have "found S 0 0 b1 mem" using H1 by (simp add: found_def b1_def undel_ptr_def)
  then obtain b2 where fl: "find_last b1 (tb_track r) 0 16384 16384 = (b2, tb_track r, 0)" and F: "found S 0 0 b2 mem"
    using find_last_lemma [OF t, of 14 0 b1 mem] assms(2) by (auto simp: track_at_def)
  then have "init_search b = (b2, tb_track r, 0)"
    using ld by (simp add: init_search_def Let_def b1_def [symmetric] drop_bit_Suc found_def undel_ptr_def)
  then show ?thesis using F
    by (simp add: tracer_buf_init_def init_pointers_def tracer_buf_empty_def Let_def found_def undel_ptr_def)
qed

end
