(* ===== verification/TracerRun.thy ===== *)
theory TracerRun
  imports TracerParam TracerBufferProps
begin

text \<open>
  The life of a track: in every run of the operations of \<open>tracer.c\<close> a track is active exactly while
  the receiver may not sleep; a stopped track ends with a last point; a receiver is reset
  in every track of more than 100 seconds.
\<close>

unbundle bit_operations_syntax

subsection \<open>Runs\<close>

datatype tr_op = Tr_task tracer_env | Tr_comm tracer_env | Tr_start tracer_env | Tr_key_start tracer_env
  | Tr_stop tracer_env | Tr_test tracer_env | Tr_shock tracer_env bool | Tr_rx tracer_env "u8 list" u16 u16
  | Tr_reinit tracer_env | Tr_set_id u32 | Tr_set_track_id tracer_env u16 | Tr_set_user u8 | Tr_tick

text \<open>\<open>None\<close>: the device stopped or waits for ever.  \<open>Tr_tick\<close> is the timer of the receiver.\<close>

fun tr_step :: "tr_op \<Rightarrow> 'f tracer \<Rightarrow> 'f tracer option" where
  "tr_step (Tr_task env) t = Some (tracer_task env t)"
| "tr_step (Tr_comm env) t = tracer_comm_process env t"
| "tr_step (Tr_start env) t = Some (tracer_start env t)"
| "tr_step (Tr_key_start env) t = Some (tracer_key_start env t)"
| "tr_step (Tr_stop env) t = Some (tracer_stop env t)"
| "tr_step (Tr_test env) t = Some (fst (tracer_test env t))"
| "tr_step (Tr_shock env s) t = Some (tracer_shock_start env s t)"
| "tr_step (Tr_rx env data len port) t = map_option fst (tracer_packet_rx env data len port t)"
| "tr_step (Tr_reinit env) t = tracer_reinit env t"
| "tr_step (Tr_set_id i) t = Some (fst (tracer_set_id i t))"
| "tr_step (Tr_set_track_id env i) t = Some (tracer_set_track_id env i t)"
| "tr_step (Tr_set_user i) t = Some (tracer_set_user_id i t)"
| "tr_step Tr_tick t = Some (t\<lparr>tr_gps := gps_tick (tr_gps t)\<rparr>)"

fun tr_run :: "tr_op list \<Rightarrow> 'f tracer \<Rightarrow> 'f tracer option" where
  "tr_run [] t = Some t"
| "tr_run (op # ops) t = (case tr_step op t of None \<Rightarrow> None | Some t \<Rightarrow> tr_run ops t)"

subsection \<open>Activity and the receiver\<close>

text \<open>
  An active track keeps the receiver awake and an inactive one does not; the announcement of the
  first point (\<open>SYSTEM_IO_TRACING\<close>) and the request for the last one are only set in an active track.
\<close>

definition tracing :: "'f tracer \<Rightarrow> bool" where
  "tracing t \<longleftrightarrow> bit (tr_io t) 15"

definition tr_inv :: "'f tracer \<Rightarrow> bool" where
  "tr_inv t \<longleftrightarrow> (tr_active t \<longleftrightarrow> \<not> gp_sleep_mode (tr_gps t)) \<and> (tracing t \<longrightarrow> tr_active t)
     \<and> (tr_stop_rq t \<longrightarrow> tr_active t)"

lemma tracing_iff: "x AND SYSTEM_IO_TRACING \<noteq> 0 \<longleftrightarrow> bit x 15" for x :: u32
  using and_pow2 [of x 15] by (simp add: push_bit_eq_mult)

lemma is_active: "tr_inv t \<Longrightarrow> tracer_is_active t = tr_active t"
  by (auto simp: tr_inv_def tracer_is_active_def tracing_def tracing_iff)

lemma io_bits: "bit (x OR SYSTEM_IO_TRACING) 15" "\<not> bit (x AND NOT SYSTEM_IO_TRACING) 15"
  "bit (x OR SYSTEM_IO_TRACK) 15 = bit x 15" for x :: u32
  by (simp_all add: bit_simps)

lemma gps_mode [simp]: "gp_sleep_mode (gps_sleep_enable s g) = s" "gp_sleep_mode (gps_reset now g) = gp_sleep_mode g"
  "gp_sleep_mode (gps_temporary_start_tmout n g) = gp_sleep_mode g" "gp_sleep_mode (gps_tick g) = gp_sleep_mode g"
  by (simp_all add: gps_sleep_enable_def gps_reset_def gps_temporary_start_tmout_def gps_temporary_start_def gps_tick_def
      gps_wakeup_def gps_suspend_def Let_def)

text \<open>The fields the invariant speaks of; an operation that keeps them keeps the invariant.\<close>

definition tr_same :: "'f tracer \<Rightarrow> 'f tracer \<Rightarrow> bool" where
  "tr_same t t' \<longleftrightarrow> tr_active t' = tr_active t \<and> gp_sleep_mode (tr_gps t') = gp_sleep_mode (tr_gps t)
     \<and> tr_io t' = tr_io t \<and> tr_stop_rq t' = tr_stop_rq t"

lemma tr_same_refl [simp]: "tr_same t t"
  by (simp add: tr_same_def)

lemma tr_same_trans: "tr_same t t1 \<Longrightarrow> tr_same t1 t2 \<Longrightarrow> tr_same t t2"
  by (simp add: tr_same_def)

lemma tr_same_inv: "tr_same t t' \<Longrightarrow> tr_inv t \<Longrightarrow> tr_inv t'"
  by (auto simp: tr_same_def tr_inv_def tracing_def)

lemma same_comm_sleep: "tr_same t (tracer_comm_sleep env now n t)"
  by (simp add: tr_same_def tracer_comm_sleep_def)

lemma same_set_cfg: "tr_same t (tr_set_cfg cf t)"
  by (simp add: tr_same_def tr_set_cfg_def)

lemma same_cfg_read: "tr_cfg_read t i = Some (t', r) \<Longrightarrow> tr_same t t'"
  by (auto simp: tr_cfg_read_def same_set_cfg split: prod.splits)

lemma same_resolve: "tracer_resolve_server env t = Some (t', r) \<Longrightarrow> tr_same t t'"
  by (auto simp: tracer_resolve_server_def bind_eq_Some_conv tr_same_def set_target_def Let_def
      dest!: same_cfg_read split: if_splits)

lemma same_server_reinit: "tr_same t (tracer_server_reinit i t)"
  by (simp add: tr_same_def tracer_server_reinit_def)

lemma same_reinit:
  assumes "tracer_reinit env t = Some t'"
  shows "tr_same t t'"
proof -
  obtain t1 r where 1: "tracer_resolve_server env t = Some (t1, r)"
    using assms by (auto simp: tracer_reinit_def bind_eq_Some_conv)
  define t2 where "t2 = t1\<lparr>tr_p := TRACER_PARAM_DEFAULT, tr_point_time := 0, tr_point_last := 0, tr_dyn_dir := te_dir_none env\<rparr>"
  obtain t3 q cfg where 2: "tr_cfg_read t2 CFG_ID_TRACER_PARAM = Some (t3, q, cfg)" and 3: "tr_same t3 t'"
    using assms 1 by (auto simp: tracer_reinit_def bind_eq_Some_conv t2_def tr_same_def tracer_server_reinit_def Let_def)
  have "tr_same t1 t2" by (simp add: t2_def tr_same_def)
  then show ?thesis using same_resolve [OF 1] same_cfg_read [OF 2] 3 by (blast intro: tr_same_trans)
qed

lemma same_wait: "wait_for_ack env t = Some (t', n, r) \<Longrightarrow> tr_same t t'"
  by (cases r) (auto simp: wait_for_ack_def bind_eq_Some_conv Let_def tr_same_def)

lemma same_retry: "tr_same t (comm_retry env now t)"
  by (simp add: comm_retry_def tr_same_def tracer_comm_sleep_def)

lemma same_done: "tr_same t (tr_done env t)"
  by (simp add: tr_done_def tr_same_def)

lemma same_send:
  assumes "comm_send env t = Some t'"
  shows "tr_same t t'"
proof -
  consider (off) "\<not> te_connect env" | (reinit) "te_connect env" "tr_server_ip t = 0 \<or> tr_server_port t = 0"
    | (send) "te_connect env" "\<not> (tr_server_ip t = 0 \<or> tr_server_port t = 0)" by blast
  then show ?thesis
  proof cases
    case off
    then have "t' = comm_retry env (te_now env) (tracer_comm_sleep env (te_now env) 5 t)"
      using assms by (simp add: comm_send_def)
    then show ?thesis using same_retry same_comm_sleep by (blast intro: tr_same_trans)
  next
    case reinit
    then obtain t1 where "tracer_reinit env t = Some t1" "t' = tr_done env (tracer_comm_sleep env (te_now env) 60 t1)"
      using assms by (auto simp: comm_send_def bind_eq_Some_conv)
    then show ?thesis using same_reinit same_comm_sleep same_done by (blast intro: tr_same_trans)
  next
    case send
    define t1 where "t1 = t\<lparr>tr_packet_ack := False, tr_sent := tr_sent t @ [tracer_packet t]\<rparr>"
    have 1: "tr_same t t1" by (simp add: t1_def tr_same_def)
    obtain t2 now r where w: "wait_for_ack env t1 = Some (t2, now, r)"
      using assms send by (auto simp: comm_send_def t1_def [symmetric] bind_eq_Some_conv Let_def)
    have "tr_same t2 t'"
    proof (cases r)
      case True
      then show ?thesis
        using assms send w by (auto simp: comm_send_def t1_def [symmetric] bind_eq_Some_conv Let_def tr_same_def tr_done_def)
    next
      case False
      then have "t' = comm_retry env now (tracer_comm_sleep env now 1 t2)"
        using assms send w by (simp add: comm_send_def t1_def [symmetric] Let_def)
      then show ?thesis using same_retry same_comm_sleep by (blast intro: tr_same_trans)
    qed
    then show ?thesis using 1 same_wait [OF w] by (blast intro: tr_same_trans)
  qed
qed

lemma same_load: "comm_load env t = Some t' \<Longrightarrow> tr_same t t'"
  by (auto simp: comm_load_def bind_eq_Some_conv tr_same_def tracer_comm_sleep_def split: if_splits prod.splits option.splits)

lemma same_packet: "comm_packet env t = Some t' \<Longrightarrow> tr_same t t'"
  by (auto simp: comm_packet_def same_comm_sleep dest: same_send same_load split: if_splits)

lemma same_comm:
  assumes "tracer_comm_process env t = Some t'"
  shows "tr_same t t'"
proof (cases "te_now env < tr_comm_sleep_tmr t \<or> tr_new_track_id t \<noteq> 0 \<and> \<not> tracer_is_active t \<or> tracer_server_setup_ok t")
  case True
  then show ?thesis
    using assms by (auto simp: tracer_comm_process_def tr_same_def dest: same_packet split: if_splits)
next
  case False
  then obtain t1 where 1: "t1 = t \<or> (\<exists>r. tracer_resolve_server env t = Some (t1, r))"
    and 2: "t' = tracer_comm_sleep env (te_now env) 60 t1 \<or> comm_packet env t1 = Some t'"
    using assms by (auto simp: tracer_comm_process_def bind_eq_Some_conv split: if_splits)
  then show ?thesis using same_resolve same_packet same_comm_sleep by (blast intro: tr_same_trans tr_same_refl)
qed

text \<open>The operations that start and end a track.\<close>

lemma inv_upd:
  "tr_inv (t\<lparr>tr_stop_tmr := a\<rparr>) = tr_inv t" "tr_inv (t\<lparr>tr_start_pending := b\<rparr>) = tr_inv t"
  "tr_inv (t\<lparr>tr_external := b\<rparr>) = tr_inv t" "tr_inv (t\<lparr>tr_shock_active := b\<rparr>) = tr_inv t"
  "tr_inv (t\<lparr>tr_shock_stop_rq := b\<rparr>) = tr_inv t" "tr_inv (t\<lparr>tr_shock_start_tmr := a\<rparr>) = tr_inv t"
  "tr_inv (t\<lparr>tr_point_time := a\<rparr>) = tr_inv t" "tr_inv (t\<lparr>tr_point_last := a\<rparr>) = tr_inv t"
  "tr_inv (t\<lparr>tr_no_fix_reset := b\<rparr>) = tr_inv t" "tr_inv (t\<lparr>tr_driver_tmr := a\<rparr>) = tr_inv t"
  "tr_inv (t\<lparr>tr_dyn_dir := c\<rparr>) = tr_inv t" "tr_inv (t\<lparr>tr_store_period := d\<rparr>) = tr_inv t"
  "tr_inv (t\<lparr>tr_point := d\<rparr>) = tr_inv t" "tr_inv (t\<lparr>tr_track := d\<rparr>) = tr_inv t"
  "tr_inv (t\<lparr>tr_buf := e\<rparr>) = tr_inv t" "tr_inv (t\<lparr>tr_last_fix_tmr := a\<rparr>) = tr_inv t"
  by (simp_all add: tr_inv_def tracing_def)

lemma inv_gps: "gp_sleep_mode g = gp_sleep_mode (tr_gps t) \<Longrightarrow> tr_inv (t\<lparr>tr_gps := g\<rparr>) = tr_inv t"
  by (simp add: tr_inv_def tracing_def)

lemma start_now_inv: "tr_inv t \<Longrightarrow> tr_inv (fst (tracer_start_now env t))"
  by (auto simp: tracer_start_now_def Let_def tracer_activate_def inv_upd) (auto simp: tr_inv_def tracing_def tracer_is_active_def tracing_iff)

lemma deactivate_tracing: "\<not> tracing (tracer_deactivate t)"
proof -
  have "tr_io (tracer_deactivate t) = tr_io t AND NOT SYSTEM_IO_TRACING" by (simp add: tracer_deactivate_def)
  then show ?thesis by (simp only: tracing_def io_bits not_False_eq_True)
qed

lemma deactivate_sel [simp]: "\<not> tr_active (tracer_deactivate t)" "\<not> tr_stop_rq (tracer_deactivate t)"
  "tr_gps (tracer_deactivate t) = tr_gps t"
  by (simp_all add: tracer_deactivate_def)

lemma deactivate_inv: "tr_inv ((tracer_deactivate t)\<lparr>tr_gps := gps_sleep_enable True g\<rparr>)"
  using deactivate_tracing [of t] by (simp add: tr_inv_def tracing_def)

lemma stop_now_inv:
  assumes "tr_inv t"
  shows "tr_inv (tracer_stop_now env t)"
proof (cases "tr_active t")
  case True
  then show ?thesis using assms is_active [OF assms] by (simp add: tracer_stop_now_def Let_def inv_upd deactivate_inv)
next
  case False
  then have "gp_sleep_mode (tr_gps t)" using assms by (simp add: tr_inv_def)
  then show ?thesis using False assms is_active [OF assms] by (simp add: tracer_stop_now_def inv_gps)
qed

lemma start_inv: "tr_inv t \<Longrightarrow> tr_inv (tracer_start env t)"
  using start_now_inv [of t env] by (auto simp: tracer_start_def inv_upd split: prod.splits)

lemma shock_task_inv: "tr_inv t \<Longrightarrow> tr_inv (tracer_shock_task env t)"
  by (simp add: tracer_shock_task_def Let_def inv_upd inv_gps start_now_inv stop_now_inv)

lemma pending_inv: "tr_inv t \<Longrightarrow> tr_inv (task_pending env t)"
  by (simp add: task_pending_def inv_upd start_inv)

lemma timers_inv: "tr_inv t \<Longrightarrow> tr_active t \<Longrightarrow> tr_inv (task_timers env t) \<and> tr_active (task_timers env t)"
  by (simp add: task_timers_def Let_def tr_inv_def tracing_def)

lemma fix_inv: "tr_inv t \<Longrightarrow> tr_inv (task_fix env t)" "tr_active (task_fix env t) = tr_active t"
  by (simp_all add: task_fix_def Let_def inv_upd inv_gps)

lemma period_inv: "tr_inv t \<Longrightarrow> tr_inv (task_period env t)" "tr_active (task_period env t) = tr_active t"
  by (simp_all add: task_period_def Let_def inv_upd)

lemma new_point_inv:
  assumes "tr_inv t" "tr_active t"
  shows "tr_inv (tracer_new_point env t)"
  using assms by (auto simp: tracer_new_point_def next_point_def Let_def tr_inv_def tracing_def split: prod.splits)

lemma next_inv: "tr_inv (task_next env t) = tr_inv t" "tr_active (task_next env t) = tr_active t"
  by (simp_all add: task_next_def Let_def inv_upd)

lemma point_inv:
  assumes "tr_inv t" "tr_active t"
  shows "tr_inv (task_point env t)"
  using assms by (simp add: task_point_def Let_def inv_upd new_point_inv next_inv period_inv deactivate_inv)

lemma task_inv:
  assumes "tr_inv t"
  shows "tr_inv (tracer_task env t)"
proof -
  define t1 where "t1 = task_pending env (tracer_shock_task env t)"
  have 1: "tr_inv t1" using assms by (simp add: t1_def pending_inv shock_task_inv)
  define t2 where "t2 = task_fix env (task_timers env t1)"
  have "tr_active t1 \<Longrightarrow> tr_inv t2 \<and> tr_active t2" using 1 timers_inv [of t1 env] by (simp add: t2_def fix_inv)
  then show ?thesis
    using 1 is_active [OF 1] point_inv [of t2 env]
    by (simp add: tracer_task_def Let_def t1_def [symmetric] t2_def [symmetric])
qed

lemma step_inv:
  assumes "tr_inv t" "tr_step op t = Some t'"
  shows "tr_inv t'"
proof (cases op)
  case (Tr_rx env data len port)
  then have "tr_same t t'" using assms(2) by (auto simp: tracer_packet_rx_def bind_eq_Some_conv tr_same_def split: if_splits)
  then show ?thesis using assms(1) by (rule tr_same_inv)
next
  case (Tr_set_id i)
  then have "tr_same t t'"
    using assms(2) by (auto simp: tracer_set_id_def tracer_save_config_def Let_def tr_same_def tr_set_cfg_def
        tracer_server_reinit_def split: prod.splits if_splits)
  then show ?thesis using assms(1) by (rule tr_same_inv)
next
  case (Tr_comm env)
  then have "tracer_comm_process env t = Some t'" using assms(2) by simp
  then show ?thesis using same_comm tr_same_inv assms(1) by blast
next
  case (Tr_reinit env)
  then have "tracer_reinit env t = Some t'" using assms(2) by simp
  then show ?thesis using same_reinit tr_same_inv assms(1) by blast
qed (use assms in \<open>auto simp: task_inv start_inv tracer_key_start_def tracer_stop_def tracer_test_def Let_def inv_upd
    stop_now_inv tracer_shock_start_def tracer_set_track_id_def tracer_comm_sleep_def tracer_set_user_id_def inv_gps
    intro: tr_same_inv [of t] simp: tr_same_def\<close>)

lemma run_inv: "tr_inv t \<Longrightarrow> tr_run ops t = Some t' \<Longrightarrow> tr_inv t'"
  by (induction ops arbitrary: t) (auto split: option.splits dest: step_inv)

subsection \<open>The reset of the receiver\<close>

lemma timers_keep: "tr_last_fix_tmr (task_timers env t) = tr_last_fix_tmr t"
  "tr_no_fix_reset (task_timers env t) = tr_no_fix_reset t" "tr_gps (task_timers env t) = tr_gps t"
  by (simp_all add: task_timers_def Let_def)

lemma fix_reset:
  assumes "te_now env - tr_last_fix_tmr t > 100 * te_second env" "te_now env - tr_last_fix_tmr t > 30 * te_second env"
    "tr_no_fix_reset t"
  shows "gp_reset_tm (tr_gps (task_fix env t)) = te_now env" "\<not> tr_no_fix_reset (task_fix env t)"
  using assms by (simp_all add: task_fix_def Let_def gps_reset_def)

lemma point_gps: "gp_reset_tm (tr_gps (task_point env t)) = gp_reset_tm (tr_gps t)"
  "tr_no_fix_reset (task_point env t) = tr_no_fix_reset t"
proof -
  have p: "tr_gps (task_period env t) = tr_gps t" "tr_no_fix_reset (task_period env t) = tr_no_fix_reset t" for t :: "'f tracer"
    by (simp_all add: task_period_def Let_def)
  have n: "tr_gps (task_next env t) = tr_gps t" "tr_no_fix_reset (task_next env t) = tr_no_fix_reset t" for t :: "'f tracer"
    by (simp_all add: task_next_def Let_def)
  have q: "tr_gps (tracer_new_point env t) = tr_gps t" "tr_no_fix_reset (tracer_new_point env t) = tr_no_fix_reset t" for t :: "'f tracer"
    by (simp_all add: tracer_new_point_def next_point_def Let_def split: prod.splits)
  have s: "gp_reset_tm (gps_sleep_enable True g) = gp_reset_tm g" for g by (simp add: gps_sleep_enable_def Let_def)
  show "gp_reset_tm (tr_gps (task_point env t)) = gp_reset_tm (tr_gps t)" 
    by (simp add: task_point_def Let_def p n q s)
  show "tr_no_fix_reset (task_point env t) = tr_no_fix_reset t"
    by (simp add: task_point_def Let_def p n q tracer_deactivate_def)
qed

subsection \<open>The end of a track\<close>

text \<open>Nothing that the movement detection would do at this call.\<close>

definition shock_quiet :: "tracer_env \<Rightarrow> 'f tracer \<Rightarrow> bool" where
  "shock_quiet env t \<longleftrightarrow> tr_external t \<or>
     (if tracer_power_stop t then \<not> tr_shock_active t
      else \<not> te_now env < tr_shock_start_tmr t \<and> \<not> tr_shock_stop_rq t)"

lemma shock_quiet_task: "shock_quiet env t \<Longrightarrow> tracer_shock_task env t = t"
  by (auto simp: shock_quiet_def tracer_shock_task_def split: if_splits)

text \<open>The fields that decide whether the task is quiet, kept by its stages.\<close>

lemma task_active_eq:
  assumes "tr_inv t" "tr_active t" "shock_quiet env t" "\<not> tr_start_pending t"
  shows "tracer_task env t =
    (let t = task_fix env (task_timers env t) in if te_now env < tr_point_time t then t else task_point env t)"
  using assms is_active [OF assms(1)] by (simp add: tracer_task_def task_pending_def shock_quiet_task)

lemma fix_keep: "tr_point_time (task_fix env t) = tr_point_time t" "tr_stop_rq (task_fix env t) = tr_stop_rq t"
  "tr_stop_tmr (task_fix env t) = tr_stop_tmr t" "tr_external (task_fix env t) = tr_external t"
  "tr_int (task_fix env t) = tr_int t" "tr_shock_active (task_fix env t) = tr_shock_active t"
  "tr_shock_start_tmr (task_fix env t) = tr_shock_start_tmr t" "tr_shock_stop_rq (task_fix env t) = tr_shock_stop_rq t"
  "tr_start_pending (task_fix env t) = tr_start_pending t" "tr_end_mode (task_fix env t) = tr_end_mode t"
  "tr_buf (task_fix env t) = tr_buf t" "tr_point (task_fix env t) = tr_point t" "tr_track (task_fix env t) = tr_track t"
  "tr_user_id (task_fix env t) = tr_user_id t" "tr_io (task_fix env t) = tr_io t"
  by (simp_all add: task_fix_def Let_def)

lemma timers_keep2: "tr_external (task_timers env t) = tr_external t"
  "tr_int (task_timers env t) = tr_int t" "tr_shock_active (task_timers env t) = tr_shock_active t"
  "tr_shock_start_tmr (task_timers env t) = tr_shock_start_tmr t" "tr_shock_stop_rq (task_timers env t) = tr_shock_stop_rq t"
  "tr_start_pending (task_timers env t) = tr_start_pending t" "tr_end_mode (task_timers env t) = tr_end_mode t"
  "tr_buf (task_timers env t) = tr_buf t" "tr_point (task_timers env t) = tr_point t" "tr_track (task_timers env t) = tr_track t"
  "tr_user_id (task_timers env t) = tr_user_id t" "tr_io (task_timers env t) = tr_io t"
  by (simp_all add: task_timers_def Let_def)

lemma timers_stop:
  assumes "tr_stop_tmr t \<noteq> 0" "tr_stop_tmr t < te_now env"
  shows "tr_stop_rq (task_timers env t)" "tr_point_time (task_timers env t) = te_now env + te_second env"
    "tr_stop_tmr (task_timers env t) = 0"
  using assms by (simp_all add: task_timers_def Let_def)

lemma timers_no_stop:
  assumes "tr_stop_tmr t = 0"
  shows "tr_stop_rq (task_timers env t) = tr_stop_rq t"
    "tr_point_time (task_timers env t) = tr_point_time t \<or> tr_point_time (task_timers env t) = te_now env"
  using assms by (simp_all add: task_timers_def Let_def)

text \<open>The point of a task that ends the track.\<close>

lemma next_keep: "tr_stop_rq (task_next env (task_period env t)) = tr_stop_rq t"
  "tr_buf (task_next env (task_period env t)) = tr_buf t" "tr_point (task_next env (task_period env t)) = tr_point t"
  "tr_track (task_next env (task_period env t)) = tr_track t" "tr_gps (task_next env (task_period env t)) = tr_gps t"
  by (simp_all add: task_next_def task_period_def Let_def)

lemma new_point_queue:
  assumes Q: "tb_queue mem (tr_buf t) p xs" "length xs < 32767" "te_alloc env"
    and enc: "length (te_enc env (gp_last (tr_gps t))) = 22"
  shows "\<exists>r. tb_queue mem (tr_buf (tracer_new_point env t)) p (xs @ [r])
     \<and> (tb_flags r AND TRACER_FLAG_LAST \<noteq> 0 \<longleftrightarrow> tr_stop_rq t)
     \<and> (tb_flags r AND TRACER_FLAG_VALID \<noteq> 0 \<longleftrightarrow> nm_fix (gp_last (tr_gps t)) \<noteq> 0)
     \<and> tb_flags r AND TRACER_FLAG_DELIVERED = 0
     \<and> tb_point r = tr_point t + 1 \<and> tb_track r = (if tr_point t = 0 then tr_track t + 1 else tr_track t)
     \<and> tb_position r = te_enc env (gp_last (tr_gps t))"
proof -
  define t2 where "t2 = next_point t"
  have t2: "tr_gps t2 = tr_gps t" "tr_buf t2 = tr_buf t" "tr_point t2 = tr_point t + 1" "tr_stop_rq t2 = tr_stop_rq t"
    "tr_track t2 = (if tr_point t = 0 then tr_track t + 1 else tr_track t)" by (simp_all add: t2_def next_point_def)
  have fl: "(point_flags t2 AND TRACER_FLAG_LAST \<noteq> 0) = tr_stop_rq t"
    "(point_flags t2 AND TRACER_FLAG_VALID \<noteq> 0) = (nm_fix (gp_last (tr_gps t)) \<noteq> 0)" "point_flags t2 AND TRACER_FLAG_DELIVERED = 0"
    by (auto simp: point_flags_def gps_get_current_stamp_def t2)
  obtain b r where st: "tracer_buf_store_position True (tr_buf t2) (te_enc env (gp_last (tr_gps t))) (tr_track t2) (tr_point t2)
      (point_flags t2) (point_info t2) = (b, r)" by fastforce
  have "tracer_new_point env t = t2\<lparr>tr_buf := b\<rparr>"
    using st assms(3) by (simp add: tracer_new_point_def gps_get_current_stamp_def t2_def [symmetric] t2(1) Let_def)
  moreover have "tb_queue mem b p (xs @ [point_rec (te_enc env (gp_last (tr_gps t))) (tr_track t2) (tr_point t2)
      (point_flags t2) (point_info t2)])"
    using store_queue [OF Q(1,2) enc, of "tr_track t2" "tr_point t2" "point_flags t2" "point_info t2"] st t2(2) by auto
  ultimately show ?thesis
    using fl t2(3,5) by (intro exI [of _ "point_rec (te_enc env (gp_last (tr_gps t))) (tr_track t2) (tr_point t2)
      (point_flags t2) (point_info t2)"]) (auto simp: point_rec_def Let_def)
qed

lemma task_point_active: "\<not> tr_stop_rq t \<Longrightarrow> tr_active (task_point env t) = tr_active t"
proof -
  have p: "tr_active (tracer_new_point env t) = tr_active t" "tr_stop_rq (tracer_new_point env t) = tr_stop_rq t" for t :: "'f tracer"
    by (simp_all add: tracer_new_point_def next_point_def Let_def split: prod.splits)
  assume "\<not> tr_stop_rq t"
  then show ?thesis by (simp add: task_point_def Let_def p next_keep next_inv period_inv)
qed

lemma point_end:
  assumes "tr_stop_rq t" "tb_queue mem (tr_buf t) p xs" "length xs < 32767" "te_alloc env" "length (te_enc env (gp_last (tr_gps t))) = 22"
  shows "\<not> tr_active (task_point env t) \<and> gp_sleep_mode (tr_gps (task_point env t)) \<and> \<not> tracing (task_point env t)
     \<and> (\<exists>r. tb_queue mem (tr_buf (task_point env t)) p (xs @ [r]) \<and> tb_flags r AND TRACER_FLAG_LAST \<noteq> 0
           \<and> tb_point r = tr_point t + 1 \<and> tb_track r = (if tr_point t = 0 then tr_track t + 1 else tr_track t))"
proof -
  define t1 where "t1 = task_next env (task_period env t)"
  have 1: "tr_stop_rq t1" "tr_buf t1 = tr_buf t" "tr_point t1 = tr_point t" "tr_track t1 = tr_track t" "tr_gps t1 = tr_gps t"
    using next_keep [of env t] assms(1) by (simp_all add: t1_def)
  define t2 where "t2 = (tracer_new_point env t1)\<lparr>tr_point_last := te_now env\<rparr>"
  have rq: "tr_stop_rq (tracer_new_point env t1)" using 1(1) by (simp add: tracer_new_point_def next_point_def Let_def split: prod.splits)
  define t3 where "t3 = tracer_deactivate (t2\<lparr>tr_stop_rq := False\<rparr>)"
  have pt: "task_point env t = t3\<lparr>tr_gps := gps_sleep_enable True (tr_gps t3)\<rparr>"
    using rq by (simp add: task_point_def t1_def [symmetric] t2_def t3_def Let_def)
  have "tr_buf t3 = tr_buf (tracer_new_point env t1)" by (simp add: t3_def t2_def tracer_deactivate_def)
  then show ?thesis
    using new_point_queue [of mem t1 p xs env] assms 1 deactivate_tracing [of "t2\<lparr>tr_stop_rq := False\<rparr>"]
    by (auto simp: pt t3_def tracing_def)
qed

text \<open>A stopped track whose delay is over: two calls of the task, a second apart, end it.\<close>

lemma stop_end:
  assumes I: "tr_inv t" "tr_active t" "\<not> tr_start_pending t" and tmr: "tr_stop_tmr t \<noteq> 0" "tr_stop_tmr t < te_now env1"
    and q: "shock_quiet env1 t" "shock_quiet env2 t"
    and time: "te_now env1 < te_now env1 + te_second env1" "te_now env1 + te_second env1 \<le> te_now env2"
    and Q: "tb_queue mem (tr_buf t) p xs" "length xs < 32767" "te_alloc env2" "\<forall>pos. length (te_enc env2 pos) = 22"
  shows "\<exists>t1 t2. tracer_task env1 t = t1 \<and> tr_buf t1 = tr_buf t \<and> tr_active t1 \<and> tracer_task env2 t1 = t2
     \<and> \<not> tr_active t2 \<and> gp_sleep_mode (tr_gps t2) \<and> \<not> tracing t2
     \<and> (\<exists>r. tb_queue mem (tr_buf t2) p (xs @ [r]) \<and> tb_flags r AND TRACER_FLAG_LAST \<noteq> 0)"
proof -
  define t1 where "t1 = task_fix env1 (task_timers env1 t)"
  have k: "tr_stop_rq t1" "tr_stop_tmr t1 = 0" "tr_point_time t1 = te_now env1 + te_second env1" "tr_buf t1 = tr_buf t"
    "\<not> tr_start_pending t1" using timers_stop [OF tmr] I(3) by (simp_all add: t1_def fix_keep timers_keep2)
  have 1: "tracer_task env1 t = t1" using time(1) k(3) task_active_eq [OF I(1,2) q(1) I(3)] by (simp add: t1_def [symmetric] Let_def)
  have i1: "tr_inv t1" "tr_active t1" using timers_inv [OF I(1,2)] by (simp_all add: t1_def fix_inv)
  have q1: "shock_quiet env2 t1"
    using q(2) unfolding t1_def shock_quiet_def tracer_power_stop_def fix_keep timers_keep2 .
  define t2 where "t2 = task_fix env2 (task_timers env2 t1)"
  have k2: "tr_stop_rq t2" "\<not> te_now env2 < tr_point_time t2" "tr_buf t2 = tr_buf t"
    using timers_no_stop [OF k(2), of env2] k time(2) by (auto simp: t2_def fix_keep timers_keep2)
  have 2: "tracer_task env2 t1 = task_point env2 t2"
    using k2(2) task_active_eq [OF i1 q1 k(5)] by (simp add: t2_def [symmetric] Let_def)
  show ?thesis
    using 1 2 k(4) i1(2) k2 point_end [of t2 mem p xs env2] Q by (intro exI [of _ t1] exI [of _ "task_point env2 t2"]) auto
qed

subsection \<open>Properties\<close>

text \<open>C23: In every run of the operations of the tracking, from a state with no track, a track is active
exactly while the GPS receiver may not sleep, and the system shows the tracking state only for an
active track: no path leaves the receiver awake without a track, or a track without it.\<close>

theorem tracer_activity:
  assumes "\<not> tr_active t" and "gp_sleep_mode (tr_gps t)" and "\<not> tracing t" and "\<not> tr_stop_rq t"
    and "tr_run ops t = Some t'"
  shows "(tracer_is_active t' \<longleftrightarrow> \<not> gp_sleep_mode (tr_gps t')) \<and> (tracing t' \<longrightarrow> tr_active t')
     \<and> (tr_stop_rq t' \<longrightarrow> tr_active t')"
proof -
  have "tr_inv t" using assms(1-4) by (simp add: tr_inv_def)
  from run_inv [OF this assms(5)] show ?thesis using is_active [of t'] by (auto simp: tr_inv_def)
qed

theorem tracer_activity_witness:
  "\<exists>t'. tr_run [Tr_start (ex_tracer_env 100), Tr_task (ex_tracer_env 6000)] (ex_tracer (ram_storage (\<lambda>_. 0))) = Some t'
     \<and> tracer_is_active t' \<and> \<not> gp_sleep_mode (tr_gps t')"
proof -
  define t where "t = ex_tracer (ram_storage (\<lambda>_. 0))"
  have i: "\<not> tr_active t" "gp_sleep_mode (tr_gps t)" "\<not> tracing t" "\<not> tr_stop_rq t"
    by (simp_all add: t_def ex_tracer_def ex_gps_def tracing_def)
  define t1 where "t1 = tracer_start (ex_tracer_env 100) t"
  have t1: "t1 = (tracer_activate (t\<lparr>tr_start_pending := False, tr_gps := gps_sleep_enable False (tr_gps t), tr_last_fix_tmr := 100,
      tr_no_fix_reset := True, tr_point := 0, tr_point_time := 5100, tr_point_last := 100, tr_dyn_dir := 0\<rparr>))\<lparr>tr_external := True\<rparr>"
    by (simp add: t1_def tracer_start_def tracer_start_now_def t_def ex_tracer_def tracer_is_active_def
        tracer_server_setup_ok_def ex_param_def ex_tracer_env_def)
  have "tr_inv t" using i by (simp add: tr_inv_def)
  then have inv1: "tr_inv t1" unfolding t1_def by (rule start_inv)
  have a1: "tr_active t1" "tr_external t1" "\<not> tr_start_pending t1" "\<not> tr_stop_rq t1" "tr_stop_tmr t1 = 0"
    by (simp_all add: t1 tracer_activate_def t_def ex_tracer_def)
  define t2 where "t2 = tracer_task (ex_tracer_env 6000) t1"
  define t3 where "t3 = task_fix (ex_tracer_env 6000) (task_timers (ex_tracer_env 6000) t1)"
  have "shock_quiet (ex_tracer_env 6000) t1" using a1(2) by (simp add: shock_quiet_def)
  then have "t2 = (if te_now (ex_tracer_env 6000) < tr_point_time t3 then t3 else task_point (ex_tracer_env 6000) t3)"
    using task_active_eq [OF inv1 a1(1) _ a1(3)] by (simp add: t2_def t3_def Let_def)
  moreover have "\<not> tr_stop_rq t3" "tr_active t3"
    using timers_no_stop(1) [OF a1(5)] a1(4) timers_inv [OF inv1 a1(1)] by (simp_all add: t3_def fix_keep fix_inv)
  ultimately have "tr_active t2" by (simp add: task_point_active)
  moreover have run: "tr_run [Tr_start (ex_tracer_env 100), Tr_task (ex_tracer_env 6000)] t = Some t2"
    by (simp add: t1_def t2_def)
  ultimately show ?thesis
    using tracer_activity [OF i run] run unfolding t_def by (auto simp: tracer_is_active_def)
qed

text \<open>C28: A track that is stopped ends: when the delay of the stop is over, two calls of the task a second
apart store one last point, marked as such, give up the tracking state and let the receiver sleep
(while the movement detection asks for nothing, the clock does not wrap and the ring has room).\<close>

theorem tracer_stop_ends:
  assumes "tr_inv t" and "tr_active t" and "\<not> tr_start_pending t" and "tr_stop_tmr t \<noteq> 0" and "tr_stop_tmr t < te_now env1"
    and "shock_quiet env1 t" and "shock_quiet env2 t"
    and "te_now env1 < te_now env1 + te_second env1" and "te_now env1 + te_second env1 \<le> te_now env2"
    and "tb_queue mem (tr_buf t) p xs" and "length xs < 32767" and "te_alloc env2" and "\<forall>pos. length (te_enc env2 pos) = 22"
  shows "\<exists>t'. tr_run [Tr_task env1, Tr_task env2] t = Some t' \<and> \<not> tr_active t' \<and> gp_sleep_mode (tr_gps t') \<and> \<not> tracing t'
     \<and> (\<exists>r. tb_queue mem (tr_buf t') p (xs @ [r]) \<and> tb_flags r AND TRACER_FLAG_LAST \<noteq> 0)"
  using stop_end [OF assms] by auto

theorem tracer_stop_ends_witness:
  "\<exists>t t' r. tr_run [Tr_task (ex_tracer_env 2000), Tr_task (ex_tracer_env 3000)] t = Some t' \<and> \<not> tr_active t'
     \<and> tb_queue id (tr_buf t') 0 [r] \<and> tb_flags r AND TRACER_FLAG_LAST \<noteq> 0"
proof -
  define t where "t = (ex_tracer (ram_storage (\<lambda>_. 0)))\<lparr>tr_active := True, tr_gps := gps_sleep_enable False ex_gps,
    tr_stop_tmr := 1000, tr_point := 5, tr_external := True\<rparr>"
  have 1: "tr_inv t" "tr_active t" "\<not> tr_start_pending t" "tr_stop_tmr t \<noteq> 0" "tr_stop_tmr t < te_now (ex_tracer_env 2000)"
    by (simp_all add: t_def ex_tracer_def tr_inv_def tracing_def ex_tracer_env_def)
  have 2: "shock_quiet (ex_tracer_env n) t" for n by (simp add: shock_quiet_def t_def)
  have 3: "tb_queue id (tr_buf t) 0 []" by (simp add: t_def ex_tracer_def tb_queue_def)
  have 4: "te_now (ex_tracer_env 2000) < te_now (ex_tracer_env 2000) + te_second (ex_tracer_env 2000)"
    "te_now (ex_tracer_env 2000) + te_second (ex_tracer_env 2000) \<le> te_now (ex_tracer_env 3000)"
    "te_alloc (ex_tracer_env 3000)" "\<forall>pos. length (te_enc (ex_tracer_env 3000) pos) = 22"
    by (simp_all add: ex_tracer_env_def)
  from tracer_stop_ends [OF 1 2 2 4(1,2) 3 _ 4(3,4)] show ?thesis by auto
qed

text \<open>In a track started by the key or a command the receiver is reset once 100 seconds after the
start, whether it has a fix or not: the time of the last fix is never renewed, as nothing calls
\<open>tracer_new_valid_stamp\<close>.\<close>

theorem tracer_forced_reset:
  assumes "tr_inv t" and "tr_active t" and "tr_external t" and "\<not> tr_start_pending t" and "tr_no_fix_reset t"
    and "100 * te_second env < te_now env - tr_last_fix_tmr t" and "30 * te_second env \<le> 100 * te_second env"
  shows "gp_reset_tm (tr_gps (tracer_task env t)) = te_now env \<and> \<not> tr_no_fix_reset (tracer_task env t)"
proof -
  define t1 where "t1 = task_timers env t"
  have k: "tr_last_fix_tmr t1 = tr_last_fix_tmr t" "tr_no_fix_reset t1" using assms(5) by (simp_all add: t1_def timers_keep)
  have g: "100 * te_second env < te_now env - tr_last_fix_tmr t1" using assms(6) by (simp only: k)
  have "30 * te_second env < te_now env - tr_last_fix_tmr t1" by (rule order_le_less_trans [OF assms(7) g])
  from fix_reset [OF g this k(2)] show ?thesis
    using task_active_eq [OF assms(1,2) _ assms(4), of env] assms(3) point_gps [of env "task_fix env t1"]
    by (simp add: shock_quiet_def t1_def [symmetric] Let_def)
qed

theorem tracer_forced_reset_witness:
  "\<exists>t :: (nat \<Rightarrow> u8) tracer. gps_fix_ok (tr_gps t) \<and> nm_fix (gp_last (tr_gps t)) = 1 \<and> gp_fix_tm (tr_gps t) = 100000
     \<and> gp_reset_tm (tr_gps (tracer_task (ex_tracer_env 100100) t)) = 100100"
proof -
  define t where "t = (ex_tracer (ram_storage (\<lambda>_. 0)))\<lparr>tr_active := True, tr_point := 5, tr_external := True,
    tr_gps := gps_sleep_enable False (ex_gps\<lparr>gp_fix_tm := 100000\<rparr>), tr_last_fix_tmr := 99\<rparr>"
  have 1: "tr_inv t" "tr_active t" "tr_external t" "\<not> tr_start_pending t" "tr_no_fix_reset t"
    by (simp_all add: t_def ex_tracer_def tr_inv_def tracing_def)
  have 2: "100 * te_second (ex_tracer_env 100100) < te_now (ex_tracer_env 100100) - tr_last_fix_tmr t"
    "30 * te_second (ex_tracer_env 100100) \<le> 100 * te_second (ex_tracer_env 100100)"
    by (simp_all add: ex_tracer_env_def t_def)
  have "gps_fix_ok (tr_gps t)" "nm_fix (gp_last (tr_gps t)) = 1" "gp_fix_tm (tr_gps t) = 100000"
    by (simp_all add: t_def gps_sleep_enable_def gps_wakeup_def ex_gps_def gps_fix_ok_def ex_point_def Let_def)
  moreover have "te_now (ex_tracer_env 100100) = 100100" by (simp add: ex_tracer_env_def)
  ultimately show ?thesis using tracer_forced_reset [OF 1 2] by (intro exI [of _ t]) simp
qed

end
