(* ===== verification/TracerComm.thy ===== *)
theory TracerComm
  imports TracerRun
begin

text \<open>
  The communication task of the tracking: the waiting for an acknowledgement ends and its timeout stays
  in bounds; a damaged point stops the delivery.  The delivery itself is in \<open>TracerDelivery\<close>.
\<close>

unbundle bit_operations_syntax

subsection \<open>Waiting\<close>

lemma ack_loop_step:
  "ack_loop env limit ack i now =
     (if now < limit then if \<not> (ack \<or> snd (te_wait env i)) then ack_loop env limit ack (Suc i) (fst (te_wait env i))
        else Some (fst (te_wait env i), True)
      else Some (now, False))"
  by (subst ack_loop.simps) (simp add: split_def)

lemma ack_loop_late: "limit \<le> now \<Longrightarrow> ack_loop env limit ack i now = Some (now, False)"
  using ack_loop_step [of env limit ack i now] by (auto simp: not_less)

lemma ack_loop_ack: "ack_loop env limit ack i now = Some y \<Longrightarrow> snd y \<longrightarrow> \<not> ack \<longrightarrow> (\<exists>j. snd (te_wait env j))"
proof (rule ack_loop.raw_induct [where P = "\<lambda>env limit ack i now y. snd y \<longrightarrow> \<not> ack \<longrightarrow> (\<exists>j. snd (te_wait env j))"])
  fix loop env limit ack i now y
  assume IH: "\<And>env limit ack i now y. loop env limit ack i now = Some y \<Longrightarrow> snd y \<longrightarrow> \<not> ack \<longrightarrow> (\<exists>j. snd (te_wait env j))"
    and run: "(if now < limit then case te_wait env i of (now, a) \<Rightarrow> if \<not> (ack \<or> a) then loop env limit ack (Suc i) now else Some (now, True)
       else Some (now, False)) = Some y"
  show "snd y \<longrightarrow> \<not> ack \<longrightarrow> (\<exists>j. snd (te_wait env j))"
    using run IH [of env limit ack "Suc i" "fst (te_wait env i)" y] by (auto simp: split_def split: if_splits)
qed

lemma ack_loop_ends:
  assumes "\<exists>j \<ge> i. snd (te_wait env j) \<or> limit \<le> fst (te_wait env j)"
  shows "\<exists>y. ack_loop env limit ack i now = Some y"
proof -
  obtain j where "i \<le> j" "snd (te_wait env j) \<or> limit \<le> fst (te_wait env j)" using assms by blast
  then show ?thesis
  proof (induction "j - i" arbitrary: i now)
    case 0
    then have "i = j" by simp
    have "\<exists>y. ack_loop env limit ack (Suc j) (fst (te_wait env j)) = Some y" if "limit \<le> fst (te_wait env j)"
      using that ack_loop_late by blast
    then show ?case using 0(3) \<open>i = j\<close> by (subst ack_loop_step) auto
  next
    case (Suc n)
    then have "\<exists>y. ack_loop env limit ack (Suc i) now' = Some y" for now' by simp
    then show ?case by (subst ack_loop_step) auto
  qed
qed

lemma ack_tmout_bounds: "tmout_min env \<le> tmout_max env \<Longrightarrow> tmout_min env \<le> ack_tmout env x \<and> ack_tmout env x \<le> tmout_max env"
  by (auto simp: ack_tmout_def Let_def not_less)

subsection \<open>The packet of a point\<close>

text \<open>The packet of a protocol was built from the point.\<close>

definition built :: "tracer_env \<Rightarrow> tracer_buf_t \<Rightarrow> tproto \<Rightarrow> bool" where
  "built env r p \<longleftrightarrow> (\<exists>p0. proto_new_point (te_proto env) (te_dec env (tb_position r)) (tb_info r) p0 = Some p)"

lemma sia_msg_ready:
  assumes "tr_sia_new_point B BD names now pos p = Some p'" "\<not> sp_ok p"
  shows "sp_ok p' \<and> (tr_sia_ok p \<longrightarrow> tr_sia_ok p')"
  using assms by (auto simp: tr_sia_new_point_def Let_def bind_eq_Some_conv tr_sia_ok_def next_cnt_4)

lemma new_point_ready:
  assumes "proto_new_point env pos info p = Some p'" "\<not> proto_packet_ready p" "tproto_ok env p"
  shows "proto_packet_ready p'" "tproto_ok env p'"
proof -
  have B: "buf_api_ok (pe_buf env) 256" using assms(3) by (simp add: tproto_ok_def proto_env_ok_def)
  have "proto_packet_ready p' \<and> tproto_ok env p'"
  proof (cases "tp_sel p")
    case TRACER_PROTO_H02
    obtain t h where n: "tracer_h02_new_point (pe_buf env) pos info (tp_h02 p) = (t, h)" by fastforce
    then show ?thesis
      using assms h02_point(2) [OF B n] TRACER_PROTO_H02 by (auto simp: proto_new_point_def proto_packet_ready_def tproto_ok_def)
  next
    case TRACER_PROTO_SIA
    then show ?thesis
      using assms sia_msg_ready by (auto simp: proto_new_point_def bind_eq_Some_conv proto_packet_ready_def tproto_ok_def)
  qed
  then show "proto_packet_ready p'" "tproto_ok env p'" by auto
qed

lemma sleep_keep: "tr_buf (tracer_comm_sleep env now n t) = tr_buf t" "tr_proto (tracer_comm_sleep env now n t) = tr_proto t"
  "tr_sent (tracer_comm_sleep env now n t) = tr_sent t"
  by (simp_all add: tracer_comm_sleep_def)

lemma retry_keep: "tr_buf (comm_retry env now t) = tr_buf t" "tr_proto (comm_retry env now t) = tr_proto t"
  by (simp_all add: comm_retry_def sleep_keep)

lemma wait_keep:
  assumes "wait_for_ack env t = Some (t', now, r)"
  shows "tr_buf t' = tr_buf t" "tr_proto t' = tr_proto t" "tr_sent t' = tr_sent t"
  using assms by (cases r; auto simp: wait_for_ack_def bind_eq_Some_conv Let_def)+

lemma wait_ack: "wait_for_ack env t = Some (t', now, True) \<Longrightarrow> \<not> tr_packet_ack t \<Longrightarrow> \<exists>i. snd (te_wait env i)"
  using ack_loop_ack by (fastforce simp: wait_for_ack_def bind_eq_Some_conv Let_def)

subsection \<open>A damaged point\<close>

definition stuck :: "('f \<Rightarrow> nat \<Rightarrow> u8) \<Rightarrow> (nat \<Rightarrow> tracer_buf_t option) \<Rightarrow> nat \<Rightarrow> 'f tracer \<Rightarrow> bool" where
  "stuck mem S l t \<longleftrightarrow> holds mem S (tb_st (tr_buf t)) \<and> l < 32768 \<and> S l = None
     \<and> buf_read_ptr (tr_buf t) = of_nat l \<and> buf_save_ptr (tr_buf t) \<noteq> of_nat l
     \<and> \<not> proto_packet_ready (tr_proto t) \<and> tracer_server_setup_ok t \<and> tr_new_track_id t = 0"

lemma stuck_step:
  assumes "stuck mem S l t"
  shows "\<exists>t'. tracer_comm_process env t = Some t' \<and> stuck mem S l t' \<and> tr_sent t' = tr_sent t"
proof (cases "te_now env < tr_comm_sleep_tmr t")
  case True
  then show ?thesis using assms by (simp add: tracer_comm_process_def)
next
  case False
  have O: "holds mem S (tb_st (tr_buf t))" "l < 32768" "S l = None" "buf_read_ptr (tr_buf t) = of_nat l"
    "buf_save_ptr (tr_buf t) \<noteq> of_nat l" "\<not> proto_packet_ready (tr_proto t)" "tracer_server_setup_ok t" "tr_new_track_id t = 0"
    using assms by (auto simp: stuck_def)
  obtain st where ld: "tracer_buf_load (tb_st (tr_buf t)) (of_nat l) = (st, None)" "holds mem S st"
    using holds_load [OF O(1,2)] O(3) by auto
  define b where "b = (if te_alloc env then (tr_buf t)\<lparr>tb_st := st\<rparr> else tr_buf t)"
  have "tracer_buf_read_next (te_alloc env) (tr_buf t) = (b, None)"
    using ld(1) O(4,5) by (simp add: tracer_buf_read_next_def b_def)
  then have "tracer_comm_process env t = Some (tracer_comm_sleep env (te_now env) 10 (t\<lparr>tr_buf := b\<rparr>))"
    using O False by (simp add: tracer_comm_process_def comm_packet_def comm_load_def tracer_buf_empty_def)
  moreover have "stuck mem S l (tracer_comm_sleep env (te_now env) 10 (t\<lparr>tr_buf := b\<rparr>))"
    using O ld(2) by (simp add: stuck_def b_def tracer_comm_sleep_def tracer_server_setup_ok_def)
  ultimately show ?thesis by (simp add: sleep_keep)
qed

lemma stuck_run:
  "stuck mem S l t \<Longrightarrow> \<exists>t'. tr_run (map Tr_comm envs) t = Some t' \<and> stuck mem S l t' \<and> tr_sent t' = tr_sent t"
proof (induction envs arbitrary: t)
  case (Cons env envs)
  from stuck_step [OF Cons.prems, of env] obtain t1 where "tracer_comm_process env t = Some t1" "stuck mem S l t1"
    "tr_sent t1 = tr_sent t" by blast
  then show ?case using Cons.IH [of t1] by auto
qed simp

subsection \<open>Properties\<close>

lemma ex_tproto_ok: "tproto_ok ex_proto_env (tr_proto (ex_tracer st))"
  using ex_proto_env_ok by (simp add: tproto_ok_def ex_tracer_def tr_sia_ok_def cms_sia_ip_init_def)

text \<open>The two points of \<open>two_points\<close>, none delivered.\<close>

definition ex_comm :: "(nat \<Rightarrow> u8) storage \<Rightarrow> (nat \<Rightarrow> u8) tracer" where
  "ex_comm st = (ex_tracer st)\<lparr>tr_buf := \<lparr>tb_st = st, buf_read_ptr = 0, buf_save_ptr = 2, buf_last_undelivered = 0\<rparr>\<rparr>"

lemma ex_comm_facts:
  "\<not> proto_packet_ready (tr_proto (ex_comm st))" "tracer_server_setup_ok (ex_comm st)" "tr_new_track_id (ex_comm st) = 0"
  "tr_comm_sleep_tmr (ex_comm st) = 0" "pm_send_mode (tr_p (ex_comm st)) = 0" "tr_tmout (ex_comm st) = 2500"
  "buf_save_ptr (tr_buf (ex_comm st)) = 2" "buf_read_ptr (tr_buf (ex_comm st)) = 0"
  by (simp_all add: ex_comm_def ex_tracer_def proto_packet_ready_def tracer_h02_packet_ready_def tracer_server_setup_ok_def
      ex_param_def TRACER_PARAM_DEFAULT_def)

text \<open>A point that cannot be read (its checksum is wrong) blocks the delivery for good: in any number of
calls nothing more is sent, although points wait behind it, since the reading pointer is not advanced.\<close>

theorem tracer_damaged_point_blocks:
  assumes "holds mem S (tb_st (tr_buf t))" and "l < 32768" and "S l = None" and "buf_read_ptr (tr_buf t) = of_nat l"
    and "buf_save_ptr (tr_buf t) \<noteq> of_nat l" and "\<not> proto_packet_ready (tr_proto t)" and "tracer_server_setup_ok t"
    and "tr_new_track_id t = 0"
  shows "\<exists>t'. tr_run (map Tr_comm envs) t = Some t' \<and> tr_sent t' = tr_sent t \<and> buf_read_ptr (tr_buf t') = of_nat l"
proof -
  have "stuck mem S l t" using assms by (simp add: stuck_def)
  from stuck_run [OF this, of envs] show ?thesis by (auto simp: stuck_def)
qed

theorem tracer_damaged_point_blocks_witness:
  "\<exists>st t'. tr_run (map Tr_comm [ex_tracer_env 0, ex_tracer_env 20000])
       ((ex_comm st)\<lparr>tr_buf := \<lparr>tb_st = st, buf_read_ptr = 2, buf_save_ptr = 5, buf_last_undelivered = 2\<rparr>\<rparr>) = Some t'
     \<and> tr_sent t' = [] \<and> buf_read_ptr (tr_buf t') = 2"
proof -
  obtain st where H: "holds id two_points st" using holds_two by blast
  define t where "t = (ex_comm st)\<lparr>tr_buf := \<lparr>tb_st = st, buf_read_ptr = 2, buf_save_ptr = 5, buf_last_undelivered = 2\<rparr>\<rparr>"
  have 1: "holds id two_points (tb_st (tr_buf t))" "two_points 2 = None" "buf_read_ptr (tr_buf t) = of_nat 2"
    "buf_save_ptr (tr_buf t) \<noteq> of_nat 2" using H by (simp_all add: t_def two_points_def)
  have 2: "\<not> proto_packet_ready (tr_proto t)" "tracer_server_setup_ok t" "tr_new_track_id t = 0" "tr_sent t = []"
    using ex_comm_facts(1-3) by (simp_all add: t_def tracer_server_setup_ok_def) (simp add: ex_comm_def ex_tracer_def)
  from tracer_damaged_point_blocks [OF 1(1) _ 1(2-4) 2(1-3), of "[ex_tracer_env 0, ex_tracer_env 20000]"] 2(4)
  show ?thesis unfolding t_def by (intro exI [of _ st]) auto
qed

text \<open>The waiting for an acknowledgement returns as soon as one arrives or a wake-up comes at the limit or
later, and the timeout it leaves for the next packet lies between 200 ms and 5 seconds, however long
the answer took.\<close>

theorem tracer_wait_bounded:
  assumes "\<exists>j. snd (te_wait env j) \<or> te_now env + tr_tmout t \<le> fst (te_wait env j)" and "tmout_min env \<le> tmout_max env"
  shows "\<exists>t' now r. wait_for_ack env t = Some (t', now, r) \<and> tmout_min env \<le> tr_tmout t' \<and> tr_tmout t' \<le> tmout_max env"
proof -
  from ack_loop_ends [of 0 env "te_now env + tr_tmout t" "tr_packet_ack t" "te_now env"] assms(1)
  obtain now r where "ack_loop env (te_now env + tr_tmout t) (tr_packet_ack t) 0 (te_now env) = Some (now, r)" by auto
  then show ?thesis using ack_tmout_bounds [OF assms(2)] by (simp add: wait_for_ack_def Let_def)
qed

theorem tracer_wait_bounded_witness:
  "\<exists>t' now r. wait_for_ack (ex_tracer_env 0) (ex_tracer (ram_storage (\<lambda>_. 0))) = Some (t', now, r)
     \<and> 200 \<le> tr_tmout t' \<and> tr_tmout t' \<le> 5000"
  using tracer_wait_bounded [of "ex_tracer_env 0" "ex_tracer (ram_storage (\<lambda>_. 0))"]
  by (simp add: ex_tracer_env_def tmout_min_def tmout_max_def)

end
