(* ===== verification/TracerDelivery.thy ===== *)
theory TracerDelivery
  imports TracerComm
begin

text \<open>
  The delivery of points over runs of all operations of the tracking: whatever ran since a start, a
  point is flagged as delivered only in a call of the communication task in which a packet was sent and
  acknowledged, and that packet was built from the last point flagged.  What a re-initialisation with a packet
  pending does to it is part of the invariant.
\<close>

unbundle bit_operations_syntax

subsection \<open>Operations that keep the ring\<close>

definition ring_alike :: "('f \<Rightarrow> nat \<Rightarrow> u8) \<Rightarrow> 'f tbuf \<Rightarrow> 'f tbuf \<Rightarrow> bool" where
  "ring_alike mem b b' \<longleftrightarrow> buf_read_ptr b' = buf_read_ptr b \<and> buf_save_ptr b' = buf_save_ptr b
     \<and> buf_last_undelivered b' = buf_last_undelivered b \<and> slot mem (tb_st b') = slot mem (tb_st b)
     \<and> st_same (tb_st b) (tb_st b')"

lemma alike_refl [simp]: "ring_alike mem b b"
  by (simp add: ring_alike_def)

lemma alike_trans: "ring_alike mem a b \<Longrightarrow> ring_alike mem b c \<Longrightarrow> ring_alike mem a c"
  by (auto simp: ring_alike_def intro: st_same_trans)

lemma alike_lawful: "ring_alike mem b b' \<Longrightarrow> flash_lawful mem (st_dev (tb_st b)) \<Longrightarrow> flash_lawful mem (st_dev (tb_st b'))"
  by (auto simp: ring_alike_def st_same_lawful)

lemma slot_cong:
  assumes "\<And>i. 0x20000 \<le> i \<Longrightarrow> st_mem mem st' i = st_mem mem st i"
  shows "slot mem st' = slot mem st"
  using assms by (simp add: slot_def slot_bytes_def gps_region.at_def st_bytes_def fun_eq_iff)

lemma cfg_read_law:
  assumes "flash_lawful mem (st_dev (cf_store cf))" "cfg_read cf i auth = (cf', r)"
  shows "st_same (cf_store cf) (cf_store cf') \<and> st_mem mem (cf_store cf') = st_mem mem (cf_store cf)"
proof (cases "cfg_table_access_read i auth")
  case False
  then show ?thesis using assms(2) by (simp add: cfg_read_def)
next
  case True
  then obtain t where "table_get i = Some t" by (auto simp: cfg_table_access_read_def split: option.splits)
  from table_in_space [OF this] have fit: "unat (cfg_addr i) + unat (64 :: u32) \<le> 0x20000"
    by (simp add: cfg_addr_unat in_space_def)
  obtain st bs where rd: "storage_read_cfg (cf_store cf) (cfg_addr i) 64 = (st, bs)" by fastforce
  have "cf' = cf\<lparr>cf_store := st\<rparr>" using assms(2) True rd by (auto simp: cfg_read_def split: option.splits)
  then show ?thesis using cfg_region.rd_law [OF assms(1) fit rd] by simp
qed

lemma cfg_write_law:
  assumes "flash_lawful mem (st_dev (cf_store cf))" "cfg_write cf i src auth = (cf', r)"
  shows "st_same (cf_store cf) (cf_store cf') \<and> (\<forall>k \<ge> 0x20000. st_mem mem (cf_store cf') k = st_mem mem (cf_store cf) k)"
proof (cases "length src \<le> 62 \<and> cfg_table_access_write i auth")
  case False
  then have "cf' = cf" using assms(2) by (auto simp: cfg_write_def split: if_splits)
  then show ?thesis by simp
next
  case True
  then obtain t where "table_get i = Some t" by (auto simp: cfg_table_access_write_def split: option.splits)
  from table_in_space [OF this] have sp: "unat i < 2048" by (simp add: in_space_def)
  define data where "data = src @ replicate (CFG_ITEM_SIZE - length src) 0"
  define bs where "bs = item_bytes \<lparr>ci_data = data, ci_chsum = cfg_chsum data\<rparr>"
  have "length bs = 64" using True by (simp add: bs_def data_def length_item_bytes)
  then have fit: "unat (cfg_addr i) + length bs \<le> 0x20000" using sp by (simp add: cfg_addr_unat)
  obtain st q where w: "storage_write_cfg (cf_store cf) (cfg_addr i) bs = (st, q)" by fastforce
  have "cf_store cf' = st"
    using assms(2) True w by (auto simp: cfg_write_def Let_def data_def [symmetric] bs_def [symmetric])
  then show ?thesis using cfg_region.write_at(2,5) [OF assms(1) fit w] by auto
qed

text \<open>The ring of the tracking, as far as the delivery sees it, and the packets sent.\<close>

definition tr_alike :: "('f \<Rightarrow> nat \<Rightarrow> u8) \<Rightarrow> 'f tracer \<Rightarrow> 'f tracer \<Rightarrow> bool" where
  "tr_alike mem t t' \<longleftrightarrow> ring_alike mem (tr_buf t) (tr_buf t') \<and> tr_sent t' = tr_sent t"

lemma read_alike:
  assumes "flash_lawful mem (st_dev (tb_st (tr_buf t)))" "tr_cfg_read t i = Some (t', r)"
  shows "tr_alike mem t t' \<and> tr_proto t' = tr_proto t \<and> tr_new_track_id t' = tr_new_track_id t \<and> tracer_is_active t' = tracer_is_active t"
proof -
  obtain cf q where rd: "cfg_read (tr_cfg t) i ACCESS_SYSTEM = (cf, Some q)" "t' = tr_set_cfg cf t"
    using assms(2) by (auto simp: tr_cfg_read_def split: prod.splits)
  have "flash_lawful mem (st_dev (cf_store (tr_cfg t)))" using assms(1) by simp
  from cfg_read_law [OF this rd(1)] have "st_same (tb_st (tr_buf t)) (cf_store cf)"
    "st_mem mem (cf_store cf) = st_mem mem (tb_st (tr_buf t))" by simp_all
  then show ?thesis
    using slot_cong [of mem "cf_store cf" "tb_st (tr_buf t)"]
    by (simp add: tr_alike_def ring_alike_def rd(2) tr_set_cfg_def tracer_is_active_def)
qed

lemma resolve_alike:
  assumes "flash_lawful mem (st_dev (tb_st (tr_buf t)))" "tracer_resolve_server env t = Some (t', r)"
  shows "tr_alike mem t t' \<and> tr_proto t' = tr_proto t"
  using assms(2) read_alike [OF assms(1)]
  by (auto simp: tracer_resolve_server_def bind_eq_Some_conv set_target_def Let_def tr_alike_def split: if_splits)

lemma server_reinit_alike:
  "tr_alike mem t (tracer_server_reinit i t) \<and> \<not> proto_packet_ready (tr_proto (tracer_server_reinit i t))
   \<and> (tproto_ok P (tr_proto t) \<longrightarrow> tproto_ok P (tr_proto (tracer_server_reinit i t)))"
proof -
  have "tproto_ok P ((tr_proto t)\<lparr>tp_buffer := []\<rparr>) = tproto_ok P (tr_proto t)" by (simp add: tproto_ok_def)
  then show ?thesis
    using tp.reinit_idle tp.reinit_ok [of P "(tr_proto t)\<lparr>tp_buffer := []\<rparr>" i]
    by (simp add: tracer_server_reinit_def tr_alike_def)
qed

lemma reinit_alike:
  assumes "flash_lawful mem (st_dev (tb_st (tr_buf t)))" "tracer_reinit env t = Some t'"
  shows "tr_alike mem t t' \<and> \<not> proto_packet_ready (tr_proto t') \<and> (tproto_ok P (tr_proto t) \<longrightarrow> tproto_ok P (tr_proto t'))"
proof -
  obtain t1 q where 1: "tracer_resolve_server env t = Some (t1, q)"
    using assms(2) by (auto simp: tracer_reinit_def bind_eq_Some_conv)
  note a1 = resolve_alike [OF assms(1) 1]
  define t2 where "t2 = t1\<lparr>tr_p := TRACER_PARAM_DEFAULT, tr_point_time := 0, tr_point_last := 0, tr_dyn_dir := te_dir_none env\<rparr>"
  have a2: "tr_alike mem t t2" "tr_proto t2 = tr_proto t" using a1 by (simp_all add: t2_def tr_alike_def)
  obtain t3 r cfg where 3: "tr_cfg_read t2 CFG_ID_TRACER_PARAM = Some (t3, r, cfg)"
    using assms(2) 1 by (auto simp: tracer_reinit_def bind_eq_Some_conv t2_def)
  have "flash_lawful mem (st_dev (tb_st (tr_buf t2)))" using a2(1) assms(1) alike_lawful by (auto simp: tr_alike_def)
  note a3 = read_alike [OF this 3]
  define t4 where "t4 = (if r then t3\<lparr>tr_p := param_load (te_number env) cfg\<rparr> else t3)"
  define t5 where "t5 = t4\<lparr>tr_proto := pfunc_reinit (te_sia env) (pm_protocol (tr_p t4)) (tr_proto t4)\<rparr>"
  have a5: "tr_alike mem t t5" "tproto_ok P (tr_proto t) \<longrightarrow> tproto_ok P (tr_proto t5)"
    using a2 a3 alike_trans [of mem "tr_buf t" "tr_buf t2" "tr_buf t3"]
    by (auto simp: t5_def t4_def tr_alike_def tproto_ok_def pfunc_reinit_def)
  have t': "t' = (tracer_server_reinit (pm_unit_id (tr_p t5)) t5)\<lparr>tr_packet_ack := False\<rparr>"
    using assms(2) 1 3 by (simp add: tracer_reinit_def t2_def [symmetric] Let_def t4_def t5_def)
  show ?thesis
    using server_reinit_alike [of mem t5 "pm_unit_id (tr_p t5)" P] a5
      alike_trans [of mem "tr_buf t" "tr_buf t5" "tr_buf (tracer_server_reinit (pm_unit_id (tr_p t5)) t5)"]
    by (auto simp: t' tr_alike_def)
qed

lemma set_id_alike:
  assumes "flash_lawful mem (st_dev (tb_st (tr_buf t)))" "t' = fst (tracer_set_id i t)"
  shows "tr_alike mem t t' \<and> (tr_proto t' = tr_proto t \<or> \<not> proto_packet_ready (tr_proto t'))
     \<and> (tproto_ok P (tr_proto t) \<longrightarrow> tproto_ok P (tr_proto t'))"
proof -
  define t1 where "t1 = t\<lparr>tr_p := (tr_p t)\<lparr>pm_unit_id := i\<rparr>\<rparr>"
  have s1: "tr_buf t1 = tr_buf t" "tr_proto t1 = tr_proto t" "tr_sent t1 = tr_sent t" by (simp_all add: t1_def)
  have t': "t' = fst (tracer_save_config (tr_p t1) t1)" using assms(2) by (simp add: tracer_set_id_def Let_def t1_def)
  show ?thesis
  proof (cases "uint (pm_unit_id (tr_p t1)) > TRACER_UNIT_ID_MAX")
    case True
    then show ?thesis using t' s1 by (simp add: tracer_save_config_def tr_alike_def)
  next
    case False
    obtain cf r where w: "cfg_write (tr_cfg t1) CFG_ID_TRACER_PARAM (take (CFG_ITEM_SIZE - 1) (param_text (tr_p t1))) ACCESS_SYSTEM = (cf, r)"
      by fastforce
    define t2 where "t2 = tr_set_cfg cf t1"
    have "flash_lawful mem (st_dev (cf_store (tr_cfg t1)))" using assms(1) s1 by simp
    from cfg_write_law [OF this w] have a: "tr_alike mem t t2" "tr_proto t2 = tr_proto t"
      using slot_cong [of mem "cf_store cf" "tb_st (tr_buf t)"] s1
      by (auto simp: tr_alike_def ring_alike_def t2_def tr_set_cfg_def)
    have "t' = (if r then tracer_server_reinit (pm_unit_id (tr_p t1)) t2 else t2)"
      using t' False w by (simp add: tracer_save_config_def t2_def Let_def)
    then show ?thesis
      using a server_reinit_alike [of mem t2 "pm_unit_id (tr_p t1)" P]
        alike_trans [of mem "tr_buf t" "tr_buf t2" "tr_buf (tracer_server_reinit (pm_unit_id (tr_p t1)) t2)"]
      by (auto simp: tr_alike_def)
  qed
qed

text \<open>A new point changes the slot of the save pointer and nothing else of the ring.\<close>

lemma erase_same:
  assumes "flash_lawful mem (st_dev st)"
  shows "st_same st (erase_loop st m)"
  using assms
proof (induction st m rule: erase_loop.induct)
  case (1 st m)
  show ?case
  proof (cases "m < 32768")
    case True
    obtain st1 r where w: "storage_save_gps_data st (m * 32) (replicate SAVE_GRID_SIZE 0xFF) = (st1, r)" by fastforce
    have "unat (m * 32) + length (replicate SAVE_GRID_SIZE (0xFF :: u8)) \<le> 0x100000"
      using True by (simp add: word_less_nat_alt unat_word_ariths)
    note k = gps_region.write_at(1,2) [OF "1.prems" this w]
    show ?thesis
    proof (cases r)
      case r: True
      from "1.IH" [OF True w [symmetric] _ k(1)] r have "st_same st1 (erase_loop st1 (m + 1))" by simp
      then show ?thesis using True w r st_same_trans [OF k(2)] by (subst erase_loop.simps) simp
    next
      case False
      then show ?thesis using True w k(2) by (subst erase_loop.simps) simp
    qed
  next
    case False
    then show ?thesis by (subst erase_loop.simps) simp
  qed
qed

subsection \<open>The points handed to the protocol\<close>

text \<open>
  \<open>l\<close> is the slot of the first point not delivered, \<open>n\<close> points wait from there on and \<open>k\<close> of them
  have been handed to the protocol.  A ready protocol holds the packet of the last of these (none after an
  erase of the ring).  \<open>m\<close> bounds the packets that were dropped.
\<close>

definition ring_at :: "('f \<Rightarrow> nat \<Rightarrow> u8) \<Rightarrow> tracer_env \<Rightarrow> nat \<Rightarrow> nat \<Rightarrow> nat \<Rightarrow> 'f tracer \<Rightarrow> bool" where
  "ring_at mem env l k n t \<longleftrightarrow> tb_lawful mem (tb_st (tr_buf t)) \<and> l < 32768 \<and> k \<le> n \<and> n < 32768
     \<and> buf_last_undelivered (tr_buf t) = of_nat l \<and> buf_read_ptr (tr_buf t) = of_nat (wr (l + k))
     \<and> buf_save_ptr (tr_buf t) = of_nat (wr (l + n)) \<and> tproto_ok (te_proto env) (tr_proto t)"

definition packet_of :: "('f \<Rightarrow> nat \<Rightarrow> u8) \<Rightarrow> tracer_env \<Rightarrow> nat \<Rightarrow> nat \<Rightarrow> 'f tracer \<Rightarrow> bool" where
  "packet_of mem env l k t \<longleftrightarrow> k = 0
     \<or> (\<exists>r. slot mem (tb_st (tr_buf t)) (wr (l + (k - 1))) = Some r \<and> built env r (tr_proto t))"

definition delivery_inv :: "('f \<Rightarrow> nat \<Rightarrow> u8) \<Rightarrow> tracer_env \<Rightarrow> nat \<Rightarrow> 'f tracer \<Rightarrow> bool" where
  "delivery_inv mem env m t \<longleftrightarrow> (\<exists>l k n. ring_at mem env l k n t
     \<and> (if proto_packet_ready (tr_proto t) then packet_of mem env l k t \<and> k \<le> Suc m else k \<le> m))"

text \<open>The calls share the functions of the SDK, and a stored position has its 22 bytes.\<close>

definition same_api :: "tracer_env \<Rightarrow> tracer_env \<Rightarrow> bool" where
  "same_api env0 env \<longleftrightarrow> te_proto env = te_proto env0 \<and> te_dec env = te_dec env0 \<and> (\<forall>p. length (te_enc env p) = 22)"

lemma same_api_built: "same_api env0 env \<Longrightarrow> built env = built env0"
  by (simp add: same_api_def built_def fun_eq_iff)

lemma inv_lawful: "delivery_inv mem env m t \<Longrightarrow> flash_lawful mem (st_dev (tb_st (tr_buf t)))"
  by (auto simp: delivery_inv_def ring_at_def)

lemma ring_at_alike:
  "ring_at mem env l k n t \<Longrightarrow> ring_alike mem (tr_buf t) (tr_buf t') \<Longrightarrow> tproto_ok (te_proto env) (tr_proto t')
   \<Longrightarrow> ring_at mem env l k n t'"
  by (auto simp: ring_at_def ring_alike_def st_same_lawful st_same_reliable)

lemma inv_alike:
  assumes "delivery_inv mem env m t" "ring_alike mem (tr_buf t) (tr_buf t')" "tr_proto t' = tr_proto t"
  shows "delivery_inv mem env m t'"
proof -
  obtain l k n where r: "ring_at mem env l k n t"
    "if proto_packet_ready (tr_proto t) then packet_of mem env l k t \<and> k \<le> Suc m else k \<le> m"
    using assms(1) by (auto simp: delivery_inv_def)
  have "packet_of mem env l k t' = packet_of mem env l k t" using assms(2,3) by (simp add: packet_of_def ring_alike_def)
  moreover have "ring_at mem env l k n t'" using ring_at_alike [OF r(1) assms(2)] r(1) assms(3) by (simp add: ring_at_def)
  ultimately show ?thesis using r(2) assms(3) unfolding delivery_inv_def by (intro exI [of _ l] exI [of _ k] exI [of _ n]) simp
qed

lemma inv_drop:
  assumes "delivery_inv mem env m t" "ring_alike mem (tr_buf t) (tr_buf t')" "\<not> proto_packet_ready (tr_proto t')"
    and "tproto_ok (te_proto env) (tr_proto t) \<longrightarrow> tproto_ok (te_proto env) (tr_proto t')"
  shows "delivery_inv mem env (Suc m) t'"
proof -
  obtain l k n where r: "ring_at mem env l k n t" "k \<le> Suc m"
    using assms(1) by (auto simp: delivery_inv_def split: if_splits)
  have "ring_at mem env l k n t'" using ring_at_alike [OF r(1) assms(2)] r(1) assms(4) by (simp add: ring_at_def)
  then show ?thesis using r(2) assms(3) unfolding delivery_inv_def by auto
qed

lemma inv_mono:
  assumes "delivery_inv mem env m t" "m \<le> m'"
  shows "delivery_inv mem env m' t"
proof -
  obtain l k n where "ring_at mem env l k n t"
    "if proto_packet_ready (tr_proto t) then packet_of mem env l k t \<and> k \<le> Suc m else k \<le> m"
    using assms(1) by (auto simp: delivery_inv_def)
  then show ?thesis using assms(2) unfolding delivery_inv_def
    by (intro exI [of _ l] exI [of _ k] exI [of _ n]) (auto split: if_splits)
qed

subsection \<open>One call of the communication task\<close>

lemma wr_add: "l < 32768 \<Longrightarrow> k \<le> n \<Longrightarrow> n < 32768 \<Longrightarrow> wr (wr (l + k) + (n - k)) = wr (l + n)"
  by (auto simp: wr_def)

lemma load_inv:
  assumes I: "delivery_inv mem env0 m t" and idle: "\<not> proto_packet_ready (tr_proto t)" and api: "same_api env0 env"
    and run: "comm_load env t = Some t'"
  shows "delivery_inv mem env0 m t' \<and> slot mem (tb_st (tr_buf t')) = slot mem (tb_st (tr_buf t))"
proof -
  obtain l k n where r: "ring_at mem env0 l k n t" "k \<le> m" using I idle by (auto simp: delivery_inv_def)
  have O: "tb_lawful mem (tb_st (tr_buf t))" "l < 32768" "k \<le> n" "n < 32768" "buf_last_undelivered (tr_buf t) = of_nat l"
    "buf_read_ptr (tr_buf t) = of_nat (wr (l + k))" "buf_save_ptr (tr_buf t) = of_nat (wr (l + n))"
    "tproto_ok (te_proto env0) (tr_proto t)" using r(1) by (auto simp: ring_at_def)
  define S where "S = slot mem (tb_st (tr_buf t))"
  have H: "holds mem S (tb_st (tr_buf t))" using O(1) by (simp add: holds_def S_def)
  have w: "wr (l + k) < 32768" using O(2-4) by simp
  obtain st where ld: "tracer_buf_load (tb_st (tr_buf t)) (of_nat (wr (l + k))) = (st, S (wr (l + k)))" and H1: "holds mem S st"
    using holds_load [OF H w] by auto
  have same: "st_same (tb_st (tr_buf t)) st"
    using load_slot(2) [OF _ _ ld, of mem] O(1) w by simp
  have al: "ring_alike mem (tr_buf t) ((tr_buf t)\<lparr>tb_st := st\<rparr>)"
    using H1 same by (simp add: ring_alike_def holds_def S_def)
  show ?thesis
  proof (cases "buf_save_ptr (tr_buf t) = buf_read_ptr (tr_buf t)")
    case True
    then have "t' = tracer_comm_sleep env (te_now env) 5 t" using run by (simp add: comm_load_def tracer_buf_empty_def)
    then show ?thesis using inv_alike [OF I, of t'] by (simp add: sleep_keep)
  next
    case ne: False
    show ?thesis
    proof (cases "te_alloc env")
      case False
      then have "t' = tracer_comm_sleep env (te_now env) 10 t"
        using run ne by (auto simp: comm_load_def tracer_buf_empty_def tracer_buf_read_next_def)
      then show ?thesis using inv_alike [OF I, of t'] by (simp add: sleep_keep)
    next
      case alloc: True
      show ?thesis
      proof (cases "S (wr (l + k))")
        case None
        then have "t' = tracer_comm_sleep env (te_now env) 10 (t\<lparr>tr_buf := (tr_buf t)\<lparr>tb_st := st\<rparr>\<rparr>)"
          using run ne alloc ld O(6) by (auto simp: comm_load_def tracer_buf_empty_def tracer_buf_read_next_def)
        then show ?thesis using inv_alike [OF I, of t'] al H1 by (simp add: sleep_keep holds_def S_def)
      next
        case (Some q)
        have lt: "k < n" using ne O(3,6,7) by (cases "k = n") auto
        then have inc: "buf_inc_ptr (of_nat (wr (l + k))) = of_nat (wr (l + Suc k))" using inc_wr [of "l + k"] O(2-4) by simp
        have rd: "tracer_buf_read_next (te_alloc env) (tr_buf t)
            = ((tr_buf t)\<lparr>tb_st := st, buf_read_ptr := of_nat (wr (l + Suc k))\<rparr>, Some (of_nat (wr (l + k)), q))"
          using alloc ne ld O(6) inc Some by (simp add: tracer_buf_read_next_def)
        then obtain p where p: "proto_new_point (te_proto env) (te_dec env (tb_position q)) (tb_info q) (tr_proto t) = Some p"
          and t': "t' = t\<lparr>tr_buf := (tr_buf t)\<lparr>tb_st := st, buf_read_ptr := of_nat (wr (l + Suc k))\<rparr>, tr_proto := p\<rparr>"
          using run ne by (auto simp: comm_load_def tracer_buf_empty_def bind_eq_Some_conv)
        have pe: "te_proto env = te_proto env0" using api by (simp add: same_api_def)
        have "built env q p" using p unfolding built_def by blast
        then have bp: "built env0 q p" using same_api_built [OF api] by simp
        have rp: "proto_packet_ready p" "tproto_ok (te_proto env0) p"
          using new_point_ready [OF p idle] O(8) by (simp_all add: pe)
        have sl: "slot mem st = S" "tb_lawful mem st" using H1 by (simp_all add: holds_def)
        have "ring_at mem env0 l (Suc k) n t'" using O lt sl(2) rp(2) by (simp add: ring_at_def t')
        moreover have "packet_of mem env0 l (Suc k) t'" using Some sl(1) bp by (simp add: packet_of_def t')
        ultimately have "delivery_inv mem env0 m t'" using r(2) rp(1) unfolding delivery_inv_def
          by (intro exI [of _ l] exI [of _ "Suc k"] exI [of _ n]) (simp add: t')
        then show ?thesis using sl(1) by (simp add: t' S_def)
      qed
    qed
  qed
qed

text \<open>What an acknowledged call does: \<open>k\<close> points from slot \<open>l\<close> on become delivered, and the packet
sent was built from the last of them.\<close>

definition acked :: "('f \<Rightarrow> nat \<Rightarrow> u8) \<Rightarrow> tracer_env \<Rightarrow> nat \<Rightarrow> 'f tracer \<Rightarrow> 'f tracer \<Rightarrow> bool" where
  "acked mem env m t t' \<longleftrightarrow> (\<exists>l k r p x i. 0 < k \<and> k \<le> Suc m \<and> k < 32768 \<and> l < 32768
     \<and> buf_last_undelivered (tr_buf t) = of_nat l
     \<and> slot mem (tb_st (tr_buf t')) = marked (slot mem (tb_st (tr_buf t))) l k
     \<and> slot mem (tb_st (tr_buf t)) (wr (l + (k - 1))) = Some r \<and> built env r p
     \<and> tr_sent t' = tr_sent t @ [x] \<and> up_data x = tp_buffer p
     \<and> snd (te_wait env i))"

definition drop_of :: "tracer_env \<Rightarrow> nat" where
  "drop_of env = (if te_alloc env then 0 else 1)"

lemma send_inv:
  assumes I: "delivery_inv mem env0 m t" and ready: "proto_packet_ready (tr_proto t)" and api: "same_api env0 env"
    and su: "tracer_server_setup_ok t" and run: "comm_send env t = Some t'"
  shows "delivery_inv mem env0 (m + drop_of env) t'
     \<and> (slot mem (tb_st (tr_buf t')) = slot mem (tb_st (tr_buf t)) \<or> acked mem env m t t')"
proof -
  obtain l k n where r: "ring_at mem env0 l k n t" "packet_of mem env0 l k t" "k \<le> Suc m"
    using I ready by (auto simp: delivery_inv_def)
  have O: "tb_lawful mem (tb_st (tr_buf t))" "l < 32768" "k \<le> n" "n < 32768" "buf_last_undelivered (tr_buf t) = of_nat l"
    "buf_read_ptr (tr_buf t) = of_nat (wr (l + k))" "buf_save_ptr (tr_buf t) = of_nat (wr (l + n))"
    "tproto_ok (te_proto env0) (tr_proto t)" using r(1) by (auto simp: ring_at_def)
  define S where "S = slot mem (tb_st (tr_buf t))"
  have H: "holds mem S (tb_st (tr_buf t))" using O(1) by (simp add: holds_def S_def)
  have keep: ?thesis if "tr_buf t' = tr_buf t" "tr_proto t' = tr_proto t"
    using inv_mono [OF inv_alike [OF I _ that(2)], of "m + drop_of env"] that(1) by simp
  have ip: "\<not> (tr_server_ip t = 0 \<or> tr_server_port t = 0)" using su by (simp add: tracer_server_setup_ok_def)
  show ?thesis
  proof (cases "te_connect env")
    case False
    then have "t' = comm_retry env (te_now env) (tracer_comm_sleep env (te_now env) 5 t)" using run by (simp add: comm_send_def)
    then show ?thesis by (intro keep) (simp_all add: retry_keep sleep_keep)
  next
    case conn: True
    define t1 where "t1 = t\<lparr>tr_packet_ack := False, tr_sent := tr_sent t @ [tracer_packet t]\<rparr>"
    obtain t2 now q where w: "wait_for_ack env t1 = Some (t2, now, q)"
      using run conn ip by (auto simp: comm_send_def t1_def [symmetric] bind_eq_Some_conv Let_def)
    have k2: "tr_buf t2 = tr_buf t" "tr_proto t2 = tr_proto t" "tr_sent t2 = tr_sent t @ [tracer_packet t]"
      using wait_keep [OF w] by (simp_all add: t1_def)
    show ?thesis
    proof (cases q)
      case False
      then have "t' = comm_retry env now (tracer_comm_sleep env now 1 t2)"
        using run conn ip w by (simp add: comm_send_def t1_def [symmetric] Let_def)
      then show ?thesis by (intro keep) (simp_all add: retry_keep sleep_keep k2)
    next
      case q: True
      have pd: "\<not> proto_packet_ready (proto_packet_done (te_proto env) (tr_proto t))"
        "tproto_ok (te_proto env0) (proto_packet_done (te_proto env) (tr_proto t))"
        using tp.finish_idle tp.finish_ok [OF O(8)] api by (auto simp: same_api_def)
      show ?thesis
      proof (cases "te_alloc env")
        case False
        then have t': "tr_buf t' = tr_buf t" "tr_proto t' = proto_packet_done (te_proto env) (tr_proto t)"
          using run conn ip w q k2
          by (auto simp: comm_send_def t1_def [symmetric] Let_def tracer_buf_delivered_all_def tr_done_def)
        then show ?thesis using inv_drop [OF I, of t'] pd False by (simp add: drop_of_def)
      next
        case alloc: True
        have kl: "k < 32768" using O(3,4) by simp
        from deliver_loop_lemma [OF H O(2) kl O(5,6)] obtain b where b: "deliver_loop (tr_buf t) = Some b"
          "holds mem (marked S l k) (tb_st b)" "buf_last_undelivered b = of_nat (wr (l + k))"
          "buf_read_ptr b = of_nat (wr (l + k))" "buf_save_ptr b = of_nat (wr (l + n))"
          using O(6,7) by auto
        have t': "tr_buf t' = b" "tr_proto t' = proto_packet_done (te_proto env) (tr_proto t)"
          "tr_sent t' = tr_sent t @ [tracer_packet t]"
          using run conn ip w q b(1) k2 alloc
          by (auto simp: comm_send_def t1_def [symmetric] Let_def tracer_buf_delivered_all_def tr_done_def)
        have "ring_at mem env0 (wr (l + k)) 0 (n - k) t'"
          using b O(2-4) pd(2) wr_add [OF O(2-4)] by (simp add: ring_at_def t' holds_def)
        then have "delivery_inv mem env0 (m + drop_of env) t'" using pd(1) unfolding delivery_inv_def
          by (intro exI [of _ "wr (l + k)"] exI [of _ 0] exI [of _ "n - k"]) (simp add: t')
        moreover have "slot mem (tb_st (tr_buf t')) = S \<or> acked mem env m t t'"
        proof (cases "k = 0")
          case True
          then show ?thesis using b(2) t'(1) by (simp add: holds_def)
        next
          case False
          then obtain v where v: "S (wr (l + (k - 1))) = Some v" "built env0 v (tr_proto t)"
            using r(2) by (auto simp: packet_of_def S_def)
          obtain i where ack: "snd (te_wait env i)" using wait_ack [of env t1 t2 now] w q by (auto simp: t1_def)
          have "up_data (tracer_packet t) = tp_buffer (tr_proto t)" by (simp add: tracer_packet_def)
          then have "acked mem env m t t'"
            using False r(3) kl O(2,5) b(2) t'(1,3) v ack same_api_built [OF api] unfolding acked_def
            by (intro exI [of _ l] exI [of _ k] exI [of _ v] exI [of _ "tr_proto t"] exI [of _ "tracer_packet t"] exI [of _ i])
              (simp add: holds_def S_def)
          then show ?thesis ..
        qed
        ultimately show ?thesis by (simp add: S_def)
      qed
    qed
  qed
qed

definition emptied :: "'f tracer \<Rightarrow> bool" where
  "emptied t \<longleftrightarrow> buf_read_ptr (tr_buf t) = 0 \<and> buf_save_ptr (tr_buf t) = 0 \<and> buf_last_undelivered (tr_buf t) = 0"

lemma packet_inv:
  assumes I: "delivery_inv mem env0 m t" and api: "same_api env0 env" and su: "tracer_server_setup_ok t"
    and run: "comm_packet env t = Some t'"
  shows "delivery_inv mem env0 (m + drop_of env) t'
     \<and> (slot mem (tb_st (tr_buf t')) = slot mem (tb_st (tr_buf t)) \<or> acked mem env m t t')"
proof (cases "proto_packet_ready (tr_proto t)")
  case False
  then show ?thesis using load_inv [OF I False api] run inv_mono [of mem env0 m t' "m + drop_of env"] by (simp add: comm_packet_def)
next
  case True
  show ?thesis
  proof (cases "pm_send_mode (tr_p t) = TRACER_SEND_MODE_OFF \<or> pm_send_mode (tr_p t) = TRACER_SEND_MODE_BULK \<and> tracer_is_active t")
    case quiet: True
    then have "tr_buf t' = tr_buf t \<and> tr_proto t' = tr_proto t"
      using run True by (auto simp: comm_packet_def sleep_keep split: if_splits)
    then show ?thesis using inv_mono [OF inv_alike [OF I], of t' "m + drop_of env"] by simp
  next
    case False
    then have "comm_send env t = Some t'" using run True by (auto simp: comm_packet_def split: if_splits)
    then show ?thesis using send_inv [OF I True api su] by blast
  qed
qed

lemma acked_alike: "tr_alike mem t t1 \<Longrightarrow> acked mem env m t1 t' \<Longrightarrow> acked mem env m t t'"
  unfolding acked_def tr_alike_def ring_alike_def by metis

lemma comm_inv:
  assumes I: "delivery_inv mem env0 m t" and api: "same_api env0 env"
    and run: "tracer_comm_process env t = Some t'"
  shows "delivery_inv mem env0 (m + drop_of env) t'
     \<and> (slot mem (tb_st (tr_buf t')) = slot mem (tb_st (tr_buf t))
        \<or> (tr_new_track_id t \<noteq> 0 \<and> \<not> tracer_is_active t \<and> emptied t') \<or> acked mem env m t t')"
proof -
  have keep: ?thesis if "tr_alike mem t t'" "tr_proto t' = tr_proto t"
    using inv_mono [OF inv_alike [OF I _ that(2)], of "m + drop_of env"] that(1) by (simp add: tr_alike_def ring_alike_def)
  consider (sleep) "te_now env < tr_comm_sleep_tmr t"
    | (erase) "\<not> te_now env < tr_comm_sleep_tmr t" "tr_new_track_id t \<noteq> 0 \<and> \<not> tracer_is_active t"
    | (ok) "\<not> te_now env < tr_comm_sleep_tmr t" "\<not> (tr_new_track_id t \<noteq> 0 \<and> \<not> tracer_is_active t)" "tracer_server_setup_ok t"
    | (server) "\<not> te_now env < tr_comm_sleep_tmr t" "\<not> (tr_new_track_id t \<noteq> 0 \<and> \<not> tracer_is_active t)" "\<not> tracer_server_setup_ok t"
    by blast
  then show ?thesis
  proof cases
    case sleep
    then have "t' = t" using run by (simp add: tracer_comm_process_def)
    then show ?thesis by (intro keep) (simp_all add: tr_alike_def)
  next
    case erase
    then have t': "t' = t\<lparr>tr_buf := fst (tracer_buf_hard_erase (te_alloc env) (tr_buf t)),
        tr_track := tr_new_track_id t - 1, tr_new_track_id := 0\<rparr>"
      using run by (simp add: tracer_comm_process_def)
    show ?thesis
    proof (cases "te_alloc env")
      case False
      then show ?thesis by (intro keep) (simp_all add: t' tr_alike_def tracer_buf_hard_erase_def)
    next
      case True
      define st where "st = erase_loop (tb_st (tr_buf t)) 0"
      have same: "st_same (tb_st (tr_buf t)) st" unfolding st_def by (rule erase_same [OF inv_lawful [OF I]])
      have ok: "tb_lawful mem (tb_st (tr_buf t))" "tproto_ok (te_proto env0) (tr_proto t)"
        using I by (auto simp: delivery_inv_def ring_at_def)
      have e: "tr_buf t' = (tr_buf t)\<lparr>tb_st := st, buf_save_ptr := 0, buf_last_undelivered := 0, buf_read_ptr := 0\<rparr>"
        "tr_proto t' = tr_proto t" using True by (simp_all add: t' tracer_buf_hard_erase_def st_def)
      have "ring_at mem env0 0 0 0 t'"
        using ok st_same_lawful [OF same, of mem] st_same_reliable [OF same] by (simp add: ring_at_def e)
      then have "delivery_inv mem env0 (m + drop_of env) t'" unfolding delivery_inv_def
        by (intro exI [of _ 0]) (simp add: packet_of_def)
      then show ?thesis using erase by (simp add: emptied_def e(1))
    qed
  next
    case ok
    then have "comm_packet env t = Some t'" using run by (auto simp: tracer_comm_process_def split: if_splits)
    then show ?thesis using packet_inv [OF I api ok(3)] by blast
  next
    case server
    define X where "X = (if tr_server_ip t = 0 \<and> tr_server_port t \<noteq> 0 \<and> te_connect_dns env
      then map_option fst (tracer_resolve_server env t) else Some t)"
    have "(if tr_new_track_id t \<noteq> 0 \<and> \<not> tracer_is_active t then u else v) = v" for u v :: "'a tracer option"
      using server(2) by auto
    then have "Option.bind X (\<lambda>t. if \<not> tracer_server_setup_ok t then Some (tracer_comm_sleep env (te_now env) 60 t)
        else comm_packet env t) = Some t'"
      using run server(1,3) unfolding tracer_comm_process_def X_def [symmetric] by simp
    then obtain t1 where X: "X = Some t1" and 2: "if tracer_server_setup_ok t1 then comm_packet env t1 = Some t'
              else t' = tracer_comm_sleep env (te_now env) 60 t1"
      by (auto simp: bind_eq_Some_conv split: if_splits)
    have 1: "t1 = t \<or> (\<exists>r. tracer_resolve_server env t = Some (t1, r))" using X by (auto simp: X_def split: if_splits)
    have a: "tr_alike mem t t1 \<and> tr_proto t1 = tr_proto t"
      using 1 resolve_alike [OF inv_lawful [OF I]] by (auto simp: tr_alike_def)
    then have I1: "delivery_inv mem env0 m t1" using inv_alike [OF I] by (auto simp: tr_alike_def)
    have s1: "slot mem (tb_st (tr_buf t1)) = slot mem (tb_st (tr_buf t))" using a by (simp add: tr_alike_def ring_alike_def)
    show ?thesis
    proof (cases "tracer_server_setup_ok t1")
      case True
      then have "comm_packet env t1 = Some t'" using 2 by simp
      from packet_inv [OF I1 api True this] show ?thesis using acked_alike [of mem t t1 env m t'] a s1 by auto
    next
      case False
      then have "t' = tracer_comm_sleep env (te_now env) 60 t1" using 2 by simp
      then show ?thesis using a by (intro keep) (simp_all add: tr_alike_def sleep_keep)
    qed
  qed
qed

subsection \<open>The other operations\<close>

text \<open>What neither stores a point nor touches the protocol.\<close>

definition quiet :: "'f tracer \<Rightarrow> 'f tracer \<Rightarrow> bool" where
  "quiet t t' \<longleftrightarrow> tr_buf t' = tr_buf t \<and> tr_proto t' = tr_proto t \<and> tr_sent t' = tr_sent t"

lemma quiet_refl [simp]: "quiet t t" by (simp add: quiet_def)

lemma quiet_trans: "quiet a b \<Longrightarrow> quiet b c \<Longrightarrow> quiet a c" by (simp add: quiet_def)

lemma quiet_start_now: "quiet t (fst (tracer_start_now env t))"
  by (simp add: tracer_start_now_def quiet_def Let_def tracer_activate_def)

lemma quiet_stop_now: "quiet t (tracer_stop_now env t)"
  by (simp add: tracer_stop_now_def quiet_def Let_def tracer_deactivate_def)

lemma quiet_start: "quiet t (tracer_start env t)"
  using quiet_start_now [of t env] by (auto simp: tracer_start_def quiet_def split: prod.splits)

lemma quiet_ops: "quiet t (tracer_key_start env t)" "quiet t (tracer_stop env t)" "quiet t (fst (tracer_test env t))"
  "quiet t (tracer_shock_start env s t)" "quiet t (tracer_set_track_id env i t)" "quiet t (tracer_set_user_id u t)"
  using quiet_start [of t env] quiet_stop_now [of "t\<lparr>tr_start_pending := False\<rparr>" env]
  by (simp_all add: tracer_key_start_def tracer_stop_def tracer_test_def tracer_shock_start_def tracer_set_track_id_def
      tracer_set_user_id_def tracer_comm_sleep_def Let_def quiet_def)

lemma quiet_shock_task: "quiet t (tracer_shock_task env t)"
proof -
  have 1: "quiet t (tracer_stop_now env (t\<lparr>tr_shock_active := False\<rparr>))"
    "quiet t (tracer_stop_now env (t\<lparr>tr_shock_active := False, tr_shock_stop_rq := False\<rparr>))"
    using quiet_stop_now [of "t\<lparr>tr_shock_active := False\<rparr>" env]
      quiet_stop_now [of "t\<lparr>tr_shock_active := False, tr_shock_stop_rq := False\<rparr>" env] by (simp_all add: quiet_def)
  have 2: "quiet t (fst (tracer_start_now env (t\<lparr>tr_gps := g, tr_shock_start_tmr := 0, tr_shock_active := True\<rparr>)))" for g
    using quiet_start_now [of "t\<lparr>tr_gps := g, tr_shock_start_tmr := 0, tr_shock_active := True\<rparr>" env] by (simp add: quiet_def)
  have 3: "quiet t (t\<lparr>tr_gps := g\<rparr>)" for g by (simp add: quiet_def)
  show ?thesis unfolding tracer_shock_task_def Let_def using 1 2 3 by simp
qed

lemma quiet_stages: "quiet t (task_pending env t)" "quiet t (task_timers env t)" "quiet t (task_fix env t)"
  "quiet t (task_period env t)" "quiet t (task_next env t)"
  using quiet_start [of "t\<lparr>tr_start_pending := False\<rparr>" env]
  by (simp_all add: task_pending_def task_timers_def task_fix_def task_period_def task_next_def Let_def quiet_def)

text \<open>The task stores at most one point.\<close>

lemma task_stores:
  "quiet t (tracer_task env t) \<or> (\<exists>pos track point flags info t1. quiet t1 (tracer_task env t)
     \<and> tr_proto t1 = tr_proto t \<and> tr_sent t1 = tr_sent t
     \<and> tr_buf t1 = fst (tracer_buf_store_position (te_alloc env) (tr_buf t) (te_enc env pos) track point flags info))"
proof -
  define t1 where "t1 = task_pending env (tracer_shock_task env t)"
  have q1: "quiet t t1" using quiet_trans [OF quiet_shock_task quiet_stages(1)] by (simp add: t1_def)
  define t2 where "t2 = task_fix env (task_timers env t1)"
  have q2: "quiet t t2" using quiet_trans [OF q1 quiet_trans [OF quiet_stages(2) quiet_stages(3)]] by (simp add: t2_def)
  define t3 where "t3 = next_point (task_next env (task_period env t2))"
  have "quiet (task_next env (task_period env t2)) t3" by (simp add: t3_def next_point_def quiet_def Let_def)
  then have q3: "quiet t t3" using quiet_trans [OF q2 quiet_trans [OF quiet_stages(4) quiet_stages(5)]] quiet_trans by blast
  define t4 where "t4 = tracer_new_point env (task_next env (task_period env t2))"
  have t4: "t4 = t3\<lparr>tr_buf := fst (tracer_buf_store_position (te_alloc env) (tr_buf t)
      (te_enc env (fst (gps_get_current_stamp (tr_gps t3)))) (tr_track t3) (tr_point t3) (point_flags t3) (point_info t3))\<rparr>"
    using q3 by (simp add: t4_def tracer_new_point_def t3_def [symmetric] Let_def quiet_def split_def)
  have q5: "quiet t4 (task_point env t2)"
    by (simp add: task_point_def t4_def [symmetric] Let_def quiet_def tracer_deactivate_def)
  have "tracer_task env t = t1 \<or> tracer_task env t = t2 \<or> tracer_task env t = task_point env t2"
    by (auto simp: tracer_task_def Let_def t1_def t2_def)
  moreover have "tr_proto t4 = tr_proto t" "tr_sent t4 = tr_sent t" using q3 by (simp_all add: t4 quiet_def)
  moreover have "\<exists>pos track point flags info. tr_buf t4
      = fst (tracer_buf_store_position (te_alloc env) (tr_buf t) (te_enc env pos) track point flags info)"
    unfolding t4 by (intro exI) simp
  ultimately show ?thesis using q1 q2 q5 by metis
qed

lemma store_inv:
  assumes I: "delivery_inv mem env0 m t" and room: "buf_inc_ptr (buf_save_ptr (tr_buf t)) \<noteq> buf_last_undelivered (tr_buf t)"
    and l: "length pos = 22" and b': "tr_buf t' = fst (tracer_buf_store_position alloc (tr_buf t) pos track point flags info)"
    and p': "tr_proto t' = tr_proto t"
  shows "delivery_inv mem env0 m t'
     \<and> (\<forall>j. j \<noteq> unat (buf_save_ptr (tr_buf t)) \<longrightarrow> slot mem (tb_st (tr_buf t')) j = slot mem (tb_st (tr_buf t)) j)"
proof (cases alloc)
  case False
  then have "tr_buf t' = tr_buf t" using b' by (simp add: tracer_buf_store_position_def)
  then show ?thesis using inv_alike [OF I _ p'] by simp
next
  case True
  obtain a k n where r: "ring_at mem env0 a k n t"
    "if proto_packet_ready (tr_proto t) then packet_of mem env0 a k t \<and> k \<le> Suc m else k \<le> m"
    using I by (auto simp: delivery_inv_def)
  have O: "tb_lawful mem (tb_st (tr_buf t))" "a < 32768" "k \<le> n" "n < 32768" "buf_last_undelivered (tr_buf t) = of_nat a"
    "buf_read_ptr (tr_buf t) = of_nat (wr (a + k))" "buf_save_ptr (tr_buf t) = of_nat (wr (a + n))"
    "tproto_ok (te_proto env0) (tr_proto t)" using r(1) by (auto simp: ring_at_def)
  define S where "S = slot mem (tb_st (tr_buf t))"
  have H: "holds mem S (tb_st (tr_buf t))" using O(1) by (simp add: holds_def S_def)
  have w: "wr (a + n) < 32768" "unat (buf_save_ptr (tr_buf t)) = wr (a + n)" using O(2,4,7) by simp_all
  have inc: "buf_inc_ptr (of_nat (wr (a + n))) = of_nat (wr (Suc (a + n)))" using O(2,4) by (intro inc_wr) simp
  have "n \<noteq> 32767" using room inc O(2,5,7) by (auto simp: wr_def)
  then have n: "Suc n < 32768" using O(4) by simp
  define q where "q = \<lparr>tb_track = track, tb_point = point, tb_position = pos, tb_info = info, tb_flags = flags, tb_chsum = 0\<rparr>"
  have "length (tb_position q) = 22" using l by (simp add: q_def)
  from holds_save [OF H w(1) this] obtain st where st: "tracer_buf_save (tb_st (tr_buf t)) (of_nat (wr (a + n))) q = (st, True)"
    "holds mem (S(wr (a + n) := Some (q\<lparr>tb_chsum := tracer_buf_checksum q\<rparr>))) st" by blast
  have t': "tr_buf t' = (tr_buf t)\<lparr>tb_st := st, buf_save_ptr := of_nat (wr (Suc (a + n)))\<rparr>"
    using True st(1) inc O(7) by (simp add: b' tracer_buf_store_position_def q_def [symmetric] Let_def)
  have sl: "slot mem st = S(wr (a + n) := Some (q\<lparr>tb_chsum := tracer_buf_checksum q\<rparr>))" "tb_lawful mem st"
    using st(2) by (simp_all add: holds_def)
  have "ring_at mem env0 a k (Suc n) t'" using O n sl(2) by (simp add: ring_at_def t' p')
  moreover have "packet_of mem env0 a k t'" if "packet_of mem env0 a k t"
  proof (cases "k = 0")
    case False
    then have "wr (a + (k - 1)) \<noteq> wr (a + n)" using wr_neq [of a "k - 1" n] O(2-4) by simp
    then show ?thesis using that False by (simp add: packet_of_def t' p' sl(1) S_def)
  qed (simp add: packet_of_def)
  ultimately have "delivery_inv mem env0 m t'" using r(2) unfolding delivery_inv_def
    by (intro exI [of _ a] exI [of _ k] exI [of _ "Suc n"]) (simp add: p' split: if_splits)
  then show ?thesis using w(2) sl(1) by (simp add: t' S_def)
qed

subsection \<open>Runs\<close>

text \<open>The calls that can drop a packet handed to the protocol: a re-initialisation, a new unit id, and an
acknowledgement for which there is no memory.\<close>

fun drop_op :: "tr_op \<Rightarrow> nat" where
  "drop_op (Tr_comm env) = drop_of env"
| "drop_op (Tr_reinit env) = 1"
| "drop_op (Tr_set_id i) = 1"
| "drop_op _ = 0"

definition drops :: "tr_op list \<Rightarrow> nat" where
  "drops ops = sum_list (map drop_op ops)"

fun op_api :: "tracer_env \<Rightarrow> tr_op \<Rightarrow> bool" where
  "op_api env0 (Tr_comm env) = same_api env0 env"
| "op_api env0 (Tr_task env) = same_api env0 env"
| "op_api env0 _ = True"

text \<open>No call of the task finds the ring full of undelivered points.\<close>

fun ring_room :: "tr_op list \<Rightarrow> 'f tracer \<Rightarrow> bool" where
  "ring_room [] t = True"
| "ring_room (op # ops) t =
     ((case op of Tr_task env \<Rightarrow> buf_inc_ptr (buf_save_ptr (tr_buf t)) \<noteq> buf_last_undelivered (tr_buf t) | _ \<Rightarrow> True)
      \<and> (case tr_step op t of None \<Rightarrow> True | Some t' \<Rightarrow> ring_room ops t'))"

text \<open>What one operation may change in the slots of the ring.\<close>

fun op_effect :: "('f \<Rightarrow> nat \<Rightarrow> u8) \<Rightarrow> nat \<Rightarrow> tr_op \<Rightarrow> 'f tracer \<Rightarrow> 'f tracer \<Rightarrow> bool" where
  "op_effect mem m (Tr_comm env) t t' = (slot mem (tb_st (tr_buf t')) = slot mem (tb_st (tr_buf t))
     \<or> (tr_new_track_id t \<noteq> 0 \<and> \<not> tracer_is_active t \<and> emptied t') \<or> acked mem env m t t')"
| "op_effect mem m (Tr_task env) t t' = (\<forall>j. j \<noteq> unat (buf_save_ptr (tr_buf t)) \<longrightarrow>
     slot mem (tb_st (tr_buf t')) j = slot mem (tb_st (tr_buf t)) j)"
| "op_effect mem m _ t t' = (slot mem (tb_st (tr_buf t')) = slot mem (tb_st (tr_buf t)))"

lemma quiet_inv:
  "delivery_inv mem env0 m t \<Longrightarrow> quiet t t' \<Longrightarrow> delivery_inv mem env0 m t' \<and> slot mem (tb_st (tr_buf t')) = slot mem (tb_st (tr_buf t))"
  using inv_alike [of mem env0 m t t'] by (simp add: quiet_def)

lemma delivery_step:
  assumes I: "delivery_inv mem env0 m t" and api: "op_api env0 op" and room: "ring_room [op] t"
    and run: "tr_step op t = Some t'"
  shows "delivery_inv mem env0 (m + drop_op op) t' \<and> op_effect mem m op t t'"
proof -
  have lw: "flash_lawful mem (st_dev (tb_st (tr_buf t)))" using inv_lawful [OF I] .
  have drop: "delivery_inv mem env0 (Suc m) t' \<and> slot mem (tb_st (tr_buf t')) = slot mem (tb_st (tr_buf t))"
    if "tr_alike mem t t'" "tr_proto t' = tr_proto t \<or> \<not> proto_packet_ready (tr_proto t')"
      "tproto_ok (te_proto env0) (tr_proto t) \<longrightarrow> tproto_ok (te_proto env0) (tr_proto t')"
    using that inv_drop [OF I, of t'] inv_mono [OF inv_alike [OF I, of t'], of "Suc m"]
    by (auto simp: tr_alike_def ring_alike_def)
  have q: "delivery_inv mem env0 m t' \<and> slot mem (tb_st (tr_buf t')) = slot mem (tb_st (tr_buf t))" if "quiet t t'"
    using quiet_inv [OF I that] .
  have qt: ?thesis if "quiet t u" "tr_step op t = Some u" "drop_op op = 0"
      "op_effect mem m op t t' = (slot mem (tb_st (tr_buf t')) = slot mem (tb_st (tr_buf t)))" for u
    using that run q by simp
  show ?thesis
  proof (cases op)
    case (Tr_task env)
    have sp: "buf_inc_ptr (buf_save_ptr (tr_buf t)) \<noteq> buf_last_undelivered (tr_buf t)" using room Tr_task by simp
    have len: "length (te_enc env pos) = 22" for pos using api Tr_task by (simp add: same_api_def)
    have t': "t' = tracer_task env t" using run Tr_task by simp
    consider "quiet t t'" | pos track point flags info t1 where "quiet t1 t'" "tr_proto t1 = tr_proto t"
      "tr_buf t1 = fst (tracer_buf_store_position (te_alloc env) (tr_buf t) (te_enc env pos) track point flags info)"
      using task_stores [of t env] unfolding t' by blast
    then show ?thesis
    proof cases
      case 1
      then show ?thesis using q Tr_task by simp
    next
      case 2
      then have "tr_buf t' = fst (tracer_buf_store_position (te_alloc env) (tr_buf t) (te_enc env pos) track point flags info)"
        "tr_proto t' = tr_proto t" by (simp_all add: quiet_def)
      then show ?thesis using store_inv [OF I sp len] Tr_task by simp
    qed
  next
    case (Tr_comm env)
    then show ?thesis using comm_inv [OF I _ , of env t'] api run by simp
  next
    case (Tr_rx env data len port)
    then have "quiet t t'" using run by (auto simp: tracer_packet_rx_def bind_eq_Some_conv quiet_def split: if_splits)
    then show ?thesis using q Tr_rx by simp
  next
    case (Tr_reinit env)
    then show ?thesis using drop reinit_alike [OF lw, of env t' "te_proto env0"] run by simp
  next
    case (Tr_set_id i)
    then show ?thesis using drop set_id_alike [OF lw, of t' i "te_proto env0"] run by simp
  next
    case Tr_tick
    then have "quiet t t'" using run by (auto simp: quiet_def)
    then show ?thesis using q Tr_tick by simp
  next
    case (Tr_start env)
    then show ?thesis by (intro qt [OF quiet_start [of t env]]) simp_all
  next
    case (Tr_key_start env)
    then show ?thesis by (intro qt [OF quiet_ops(1) [of t env]]) simp_all
  next
    case (Tr_stop env)
    then show ?thesis by (intro qt [OF quiet_ops(2) [of t env]]) simp_all
  next
    case (Tr_test env)
    then show ?thesis by (intro qt [OF quiet_ops(3) [of t env]]) simp_all
  next
    case (Tr_shock env s)
    then show ?thesis by (intro qt [OF quiet_ops(4) [of t env s]]) simp_all
  next
    case (Tr_set_track_id env i)
    then show ?thesis by (intro qt [OF quiet_ops(5) [of t env i]]) simp_all
  next
    case (Tr_set_user u)
    then show ?thesis by (intro qt [OF quiet_ops(6) [of t u]]) simp_all
  qed
qed

lemma delivery_run:
  "delivery_inv mem env0 m t0 \<Longrightarrow> \<forall>op \<in> set ops. op_api env0 op \<Longrightarrow> ring_room ops t0 \<Longrightarrow> tr_run ops t0 = Some t
   \<Longrightarrow> delivery_inv mem env0 (m + drops ops) t"
proof (induction ops arbitrary: m t0)
  case (Cons op ops)
  then obtain t1 where 1: "tr_step op t0 = Some t1" "tr_run ops t1 = Some t" by (auto split: option.splits)
  have "delivery_inv mem env0 (m + drop_op op) t1"
    using delivery_step [OF Cons.prems(1) _ _ 1(1)] Cons.prems(2,3) by (auto split: option.splits)
  from Cons.IH [OF this _ _ 1(2)] show ?case using Cons.prems(2,3) 1(1) by (simp add: drops_def add.assoc)
qed (simp add: drops_def)

lemma ring_room_append: "ring_room (ops @ ops') t0 \<Longrightarrow> tr_run ops t0 = Some t \<Longrightarrow> ring_room ops t0 \<and> ring_room ops' t"
  by (induction ops arbitrary: t0) (auto split: option.splits)

subsection \<open>Two calls deliver a point\<close>

lemma load_next:
  assumes R: "ring_at mem env l k n t" "k < n" "\<not> proto_packet_ready (tr_proto t)" "te_alloc env" "tracer_server_setup_ok t"
      "tr_new_track_id t = 0" "tr_comm_sleep_tmr t \<le> te_now env"
    and r: "slot mem (tb_st (tr_buf t)) (wr (l + k)) = Some r" "pos_valid (te_dec env (tb_position r))"
  shows "\<exists>t'. tracer_comm_process env t = Some t' \<and> ring_at mem env l (Suc k) n t' \<and> proto_packet_ready (tr_proto t')
     \<and> built env r (tr_proto t') \<and> slot mem (tb_st (tr_buf t')) = slot mem (tb_st (tr_buf t))
     \<and> tr_sent t' = tr_sent t \<and> tr_comm_sleep_tmr t' = tr_comm_sleep_tmr t
     \<and> tracer_server_setup_ok t' \<and> tr_new_track_id t' = 0 \<and> tr_p t' = tr_p t \<and> tr_tmout t' = tr_tmout t"
proof -
  define S where "S = slot mem (tb_st (tr_buf t))"
  have O: "holds mem S (tb_st (tr_buf t))" "l < 32768" "n < 32768" "buf_last_undelivered (tr_buf t) = of_nat l"
    "buf_read_ptr (tr_buf t) = of_nat (wr (l + k))" "buf_save_ptr (tr_buf t) = of_nat (wr (l + n))"
    "tproto_ok (te_proto env) (tr_proto t)" using R(1) by (auto simp: ring_at_def holds_def S_def)
  have w: "wr (l + k) < 32768" using O(2,3) R(2) by simp
  obtain st where ld: "tracer_buf_load (tb_st (tr_buf t)) (of_nat (wr (l + k))) = (st, Some r)" and H: "holds mem S st"
    using holds_load [OF O(1) w] r(1) by (auto simp: S_def)
  have "unat (of_nat (wr (l + k)) :: u16) \<noteq> unat (of_nat (wr (l + n)) :: u16)"
    using wr_neq [OF O(2) R(2) O(3)] O(2,3) R(2) by simp
  then have ne: "buf_save_ptr (tr_buf t) \<noteq> buf_read_ptr (tr_buf t)" using O(5,6) by auto
  have inc: "buf_inc_ptr (of_nat (wr (l + k))) = of_nat (wr (l + Suc k))" using inc_wr [of "l + k"] O(2,3) R(2) by simp
  define b where "b = (tr_buf t)\<lparr>tb_st := st, buf_read_ptr := of_nat (wr (l + Suc k))\<rparr>"
  have rd: "tracer_buf_read_next (te_alloc env) (tr_buf t) = (b, Some (of_nat (wr (l + k)), r))"
    using R(4) ne ld O(5) inc by (simp add: tracer_buf_read_next_def b_def)
  from tp.point [OF O(7) R(3) r(2), of "tb_info r"] obtain p
    where p: "proto_new_point (te_proto env) (te_dec env (tb_position r)) (tb_info r) (tr_proto t) = Some p"
      "proto_packet_ready p" "tproto_ok (te_proto env) p" by blast
  define t' where "t' = t\<lparr>tr_buf := b, tr_proto := p\<rparr>"
  have "comm_load env t = Some t'" using rd p(1) ne by (simp add: comm_load_def tracer_buf_empty_def t'_def)
  then have run: "tracer_comm_process env t = Some t'"
    using R(3,5-7) by (simp add: tracer_comm_process_def comm_packet_def not_less)
  have "ring_at mem env l (Suc k) n t'" using O R(2) H p(3) by (simp add: ring_at_def t'_def b_def holds_def)
  moreover have "built env r p" using p(1) unfolding built_def by blast
  ultimately show ?thesis
    using run p(2) H R(5,6) by (simp add: t'_def b_def holds_def S_def tracer_server_setup_ok_def)
qed

lemma send_next:
  assumes R: "ring_at mem env l k n t" "proto_packet_ready (tr_proto t)" "te_alloc env" "tracer_server_setup_ok t"
      "tr_new_track_id t = 0" "tr_comm_sleep_tmr t \<le> te_now env"
    and on: "pm_send_mode (tr_p t) = 0" "te_connect env" "snd (te_wait env 0)" "te_now env < te_now env + tr_tmout t"
  shows "\<exists>t'. tracer_comm_process env t = Some t' \<and> ring_at mem env (wr (l + k)) 0 (n - k) t'
     \<and> slot mem (tb_st (tr_buf t')) = marked (slot mem (tb_st (tr_buf t))) l k
     \<and> \<not> proto_packet_ready (tr_proto t') \<and> tr_sent t' = tr_sent t @ [tracer_packet t]"
proof -
  define S where "S = slot mem (tb_st (tr_buf t))"
  have O: "holds mem S (tb_st (tr_buf t))" "l < 32768" "k \<le> n" "n < 32768" "buf_last_undelivered (tr_buf t) = of_nat l"
    "buf_read_ptr (tr_buf t) = of_nat (wr (l + k))" "buf_save_ptr (tr_buf t) = of_nat (wr (l + n))"
    "tproto_ok (te_proto env) (tr_proto t)" using R(1) by (auto simp: ring_at_def holds_def S_def)
  define t1 where "t1 = t\<lparr>tr_packet_ack := False, tr_sent := tr_sent t @ [tracer_packet t]\<rparr>"
  have su: "\<not> (tr_server_ip t = 0 \<or> tr_server_port t = 0)" using R(4) by (simp add: tracer_server_setup_ok_def)
  have "ack_loop env (te_now env + tr_tmout t) False 0 (te_now env) = Some (fst (te_wait env 0), True)"
    using on(3,4) by (subst ack_loop_step) simp
  then obtain t2 where w: "wait_for_ack env t1 = Some (t2, fst (te_wait env 0), True)"
    by (simp add: wait_for_ack_def t1_def Let_def)
  have k2: "tr_buf t2 = tr_buf t" "tr_proto t2 = tr_proto t" "tr_sent t2 = tr_sent t @ [tracer_packet t]"
    using wait_keep [OF w] by (simp_all add: t1_def)
  from deliver_loop_lemma [OF O(1,2) _ O(5,6)] O(3,4) obtain b where b: "deliver_loop (tr_buf t) = Some b"
    "holds mem (marked S l k) (tb_st b)" "buf_last_undelivered b = of_nat (wr (l + k))"
    "buf_read_ptr b = of_nat (wr (l + k))" "buf_save_ptr b = of_nat (wr (l + n))"
    using O(6,7) by auto
  define t' where "t' = (tr_done env (t2\<lparr>tr_send_retry := 0\<rparr>))\<lparr>tr_buf := b\<rparr>"
  have "comm_send env t = Some t'"
    using on(2) su w b(1) k2(1) R(3)
    by (simp add: comm_send_def t1_def [symmetric] Let_def tracer_buf_delivered_all_def tr_done_def t'_def)
  then have run: "tracer_comm_process env t = Some t'"
    using R(2,4-6) on(1) by (simp add: tracer_comm_process_def comm_packet_def not_less)
  have "ring_at mem env (wr (l + k)) 0 (n - k) t'"
    using b O(2-4) k2(2) tp.finish_ok [OF O(8)] wr_add [OF O(2-4)] by (simp add: ring_at_def t'_def tr_done_def holds_def)
  then show ?thesis
    using run b(2) k2 tp.finish_idle by (simp add: t'_def tr_done_def holds_def S_def)
qed

subsection \<open>Properties\<close>

text \<open>C22: in every run of all operations of the tracking, from a state as \<open>tracer_buf_init\<close> leaves it, a point
becomes delivered only in a call of the communication task in which a packet was sent and acknowledged: this
call marks \<open>k\<close> points, from the first one not delivered on, and the packet was built from the last of them.
\<open>k\<close> is at most one more than the number of calls before that can drop a packet that waits (a re-initialisation,
a new unit id, a call of this task without memory): without such calls exactly the acknowledged point is
marked, and each of them can add one point that is marked although its packet was dropped. Otherwise a call of this
task leaves the slots of the ring as they are or, after a change of the track id, empties the ring; the
tracking task writes at the save pointer only, and the other operations write no slot. The functions of the
SDK are the same in all calls, the flash does not fail, and the tracking task never finds the ring full of
undelivered points.\<close>

theorem tracer_delivered_acked:
  assumes "ring_at mem env0 l0 0 n0 t0" and "\<not> proto_packet_ready (tr_proto t0)"
    and "\<forall>op \<in> set (ops @ [op]). op_api env0 op" and "ring_room (ops @ [op]) t0"
    and "tr_run ops t0 = Some t" and "tr_step op t = Some t'"
  shows "case op of
      Tr_comm env \<Rightarrow>
        slot mem (tb_st (tr_buf t')) = slot mem (tb_st (tr_buf t))
        \<or> (tr_new_track_id t \<noteq> 0 \<and> \<not> tracer_is_active t \<and> emptied t')
        \<or> (\<exists>l k r p x i. 0 < k \<and> k \<le> Suc (drops ops) \<and> k < 32768 \<and> l < 32768
            \<and> buf_last_undelivered (tr_buf t) = of_nat l
            \<and> slot mem (tb_st (tr_buf t')) = marked (slot mem (tb_st (tr_buf t))) l k
            \<and> slot mem (tb_st (tr_buf t)) (wr (l + (k - 1))) = Some r \<and> built env r p
            \<and> tr_sent t' = tr_sent t @ [x] \<and> up_data x = tp_buffer p \<and> snd (te_wait env i))
    | Tr_task env \<Rightarrow> \<forall>j. j \<noteq> unat (buf_save_ptr (tr_buf t)) \<longrightarrow>
        slot mem (tb_st (tr_buf t')) j = slot mem (tb_st (tr_buf t)) j
    | _ \<Rightarrow> slot mem (tb_st (tr_buf t')) = slot mem (tb_st (tr_buf t))"
proof -
  have "delivery_inv mem env0 0 t0" using assms(1,2) unfolding delivery_inv_def by auto
  from delivery_run [OF this _ _ assms(5)] ring_room_append [OF assms(4,5)] assms(3)
  have "delivery_inv mem env0 (drops ops) t" "ring_room [op] t" by auto
  from delivery_step [OF this(1) _ this(2) assms(6)] assms(3)
  have "op_effect mem (drops ops) op t t'" by simp
  then show ?thesis by (cases op) (simp_all add: acked_def)
qed

lemma ex_ring_at: "holds id two_points st \<Longrightarrow> ring_at id (ex_tracer_env n) 0 0 2 (ex_comm st)"
  using ex_tproto_ok by (simp add: ring_at_def ex_comm_def ex_tracer_env_def holds_def)

lemma ex_same_api: "same_api (ex_tracer_env a) (ex_tracer_env b)"
  by (simp add: same_api_def ex_tracer_env_def)

text \<open>The first point of the instance is loaded and then delivered.\<close>

lemma ex_two_calls:
  assumes H: "holds id two_points st"
  shows "\<exists>t1 t'. tracer_comm_process (ex_tracer_env 0) (ex_comm st) = Some t1 \<and> slot id (tb_st (tr_buf t1)) = two_points
     \<and> tr_new_track_id t1 = 0
     \<and> tracer_comm_process (ex_tracer_env 100) t1 = Some t' \<and> slot id (tb_st (tr_buf t')) = marked two_points 0 1"
proof -
  have e: "te_alloc (ex_tracer_env m)" "te_now (ex_tracer_env m) = m" "te_connect (ex_tracer_env m)" "snd (te_wait (ex_tracer_env m) 0)"
    "pos_valid (te_dec (ex_tracer_env m) q)" for m q by (simp_all add: ex_tracer_env_def ex_point_valid)
  have S: "slot id (tb_st (tr_buf (ex_comm st))) = two_points" using H by (simp add: holds_def ex_comm_def)
  have "slot id (tb_st (tr_buf (ex_comm st))) (wr (0 + 0)) = Some (point_rec (replicate 22 7) 5 1 2 8)"
    unfolding S by (simp add: two_points_def)
  from load_next [OF ex_ring_at [OF H, of 0] _ ex_comm_facts(1) e(1) ex_comm_facts(2,3) _ this e(5)] obtain t1 where
    1: "tracer_comm_process (ex_tracer_env 0) (ex_comm st) = Some t1" "ring_at id (ex_tracer_env 0) 0 1 2 t1"
      "proto_packet_ready (tr_proto t1)" "slot id (tb_st (tr_buf t1)) = two_points" "tr_comm_sleep_tmr t1 = 0"
      "tracer_server_setup_ok t1" "tr_new_track_id t1 = 0" "pm_send_mode (tr_p t1) = 0" "tr_tmout t1 = 2500"
    by (auto simp: ex_comm_facts S e(2))
  have "ring_at id (ex_tracer_env 100) 0 1 2 t1" using 1(2) by (simp add: ring_at_def ex_tracer_env_def)
  from send_next [OF this 1(3) e(1) 1(6,7) _ 1(8) e(3,4)] 1 show ?thesis by (auto simp: e(2))
qed

theorem tracer_delivered_acked_witness:
  "\<exists>(st :: (nat \<Rightarrow> u8) storage) t t' x. tr_run [Tr_comm (ex_tracer_env 0)] (ex_comm st) = Some t
     \<and> tr_step (Tr_comm (ex_tracer_env 100)) t = Some t'
     \<and> slot id (tb_st (tr_buf t)) 0 \<noteq> slot id (tb_st (tr_buf t')) 0 \<and> tr_sent t' = tr_sent t @ [x]"
proof -
  obtain st where H: "holds id two_points st" using holds_two by blast
  obtain t t' where t: "tracer_comm_process (ex_tracer_env 0) (ex_comm st) = Some t"
    "tracer_comm_process (ex_tracer_env 100) t = Some t'" "slot id (tb_st (tr_buf t')) = marked two_points 0 1"
    "slot id (tb_st (tr_buf t)) = two_points" "tr_new_track_id t = 0"
    using ex_two_calls [OF H] by blast
  have "tb_flags (delivered (point_rec (replicate 22 7) 5 1 2 8)) \<noteq> tb_flags (point_rec (replicate 22 7) 5 1 2 8)"
    by (simp add: delivered_def point_rec_def Let_def)
  then have ne: "slot id (tb_st (tr_buf t)) 0 \<noteq> slot id (tb_st (tr_buf t')) 0"
    by (auto simp: t(3,4) marked_def two_points_def)
  have r: "tr_run [Tr_comm (ex_tracer_env 0)] (ex_comm st) = Some t" "tr_step (Tr_comm (ex_tracer_env 100)) t = Some t'"
    using t(1,2) by simp_all
  from tracer_delivered_acked [OF ex_ring_at [OF H] ex_comm_facts(1) _ _ r] ex_same_api ne t(5)
  have "\<exists>x. tr_sent t' = tr_sent t @ [x]" by (fastforce simp: t(1,2))
  then show ?thesis using r ne by blast
qed

text \<open>C24: two calls of the communication task deliver the next point to send: the first hands it to the
protocol, the second sends its packet and, when the acknowledgement has arrived at its first wake-up, marks
it as delivered, together with the \<open>k\<close> points before it that the read pointer has passed and that are not
delivered (their packets were dropped); when there is none, exactly this point is marked.
The conditions: the flash does not fail, no packet is pending before the first call, the point can be read
and has a valid position; the pause of the task is over at both calls, no change of the track id is pending,
the address of the server and the unit id are set, the send mode is online, there is memory and, at the
second call, a connection; the end of the waiting time does not wrap around.\<close>

theorem tracer_delivers:
  assumes "ring_at mem env1 l k n t" and "k < n" and "\<not> proto_packet_ready (tr_proto t)"
    and "slot mem (tb_st (tr_buf t)) (wr (l + k)) = Some r" and "pos_valid (te_dec env1 (tb_position r))"
    and "te_alloc env1" and "te_alloc env2" and "te_proto env2 = te_proto env1"
    and "tracer_server_setup_ok t" and "tr_new_track_id t = 0" and "pm_send_mode (tr_p t) = 0"
    and "tr_comm_sleep_tmr t \<le> te_now env1" and "tr_comm_sleep_tmr t \<le> te_now env2"
    and "te_connect env2" and "snd (te_wait env2 0)" and "te_now env2 < te_now env2 + tr_tmout t"
  shows "\<exists>t1 t'. tr_run [Tr_comm env1] t = Some t1 \<and> built env1 r (tr_proto t1)
     \<and> tr_run [Tr_comm env1, Tr_comm env2] t = Some t' \<and> tr_sent t' = tr_sent t @ [tracer_packet t1]
     \<and> slot mem (tb_st (tr_buf t')) = marked (slot mem (tb_st (tr_buf t))) l (Suc k)
     \<and> (k = 0 \<longrightarrow> slot mem (tb_st (tr_buf t')) = (slot mem (tb_st (tr_buf t)))(l := Some (delivered r)))
     \<and> \<not> proto_packet_ready (tr_proto t') \<and> ring_at mem env2 (wr (l + Suc k)) 0 (n - Suc k) t'"
proof -
  from load_next [OF assms(1-3,6,9,10,12,4,5)]
  obtain t1 where 1: "tracer_comm_process env1 t = Some t1" "ring_at mem env1 l (Suc k) n t1" "proto_packet_ready (tr_proto t1)"
    "built env1 r (tr_proto t1)" "slot mem (tb_st (tr_buf t1)) = slot mem (tb_st (tr_buf t))" "tr_sent t1 = tr_sent t"
    "tr_comm_sleep_tmr t1 = tr_comm_sleep_tmr t" "tracer_server_setup_ok t1" "tr_new_track_id t1 = 0" "tr_p t1 = tr_p t"
    "tr_tmout t1 = tr_tmout t" by blast
  have "ring_at mem env2 l (Suc k) n t1" using 1(2) assms(8) by (simp add: ring_at_def)
  from send_next [OF this 1(3) assms(7) 1(8,9) _ _ assms(14,15)] assms(11,13,16) 1(7,10,11)
  obtain t' where 2: "tracer_comm_process env2 t1 = Some t'" "ring_at mem env2 (wr (l + Suc k)) 0 (n - Suc k) t'"
    "slot mem (tb_st (tr_buf t')) = marked (slot mem (tb_st (tr_buf t1))) l (Suc k)"
    "\<not> proto_packet_ready (tr_proto t')" "tr_sent t' = tr_sent t1 @ [tracer_packet t1]" by auto
  have "l < 32768" using assms(1) by (simp add: ring_at_def)
  then have "k = 0 \<Longrightarrow> marked (slot mem (tb_st (tr_buf t))) l (Suc k) = (slot mem (tb_st (tr_buf t)))(l := Some (delivered r))"
    using marked_Suc [of l 0 "slot mem (tb_st (tr_buf t))"] assms(4) by simp
  then show ?thesis using 1(1,4-6) 2 by simp
qed

theorem tracer_delivers_witness:
  "\<exists>st t'. tr_run [Tr_comm (ex_tracer_env 0), Tr_comm (ex_tracer_env 100)] (ex_comm st) = Some t' \<and> length (tr_sent t') = 1
     \<and> slot id (tb_st (tr_buf t')) 0 = map_option delivered (two_points 0) \<and> slot id (tb_st (tr_buf t')) 1 = two_points 1"
proof -
  obtain st where H: "holds id two_points st" using holds_two by blast
  define r where "r = point_rec (replicate 22 7) 5 1 2 8"
  have S: "slot id (tb_st (tr_buf (ex_comm st))) = two_points" using H by (simp add: holds_def ex_comm_def)
  have S0: "slot id (tb_st (tr_buf (ex_comm st))) (wr (0 + 0)) = Some r"
    unfolding S by (simp add: two_points_def r_def)
  have e: "pos_valid (te_dec (ex_tracer_env 0) (tb_position r))" "te_alloc (ex_tracer_env 0)" "te_alloc (ex_tracer_env 100)"
    "te_proto (ex_tracer_env 100) = te_proto (ex_tracer_env 0)"
    "te_connect (ex_tracer_env 100)" "snd (te_wait (ex_tracer_env 100) 0)" "te_now (ex_tracer_env 100) = 100"
    "te_now (ex_tracer_env 0) = 0"
    by (simp_all add: ex_tracer_env_def ex_point_valid)
  have "\<exists>t'. tr_run [Tr_comm (ex_tracer_env 0), Tr_comm (ex_tracer_env 100)] (ex_comm st) = Some t'
      \<and> length (tr_sent t') = 1 \<and> slot id (tb_st (tr_buf t')) = two_points(0 := Some (delivered r))"
    using tracer_delivers [OF ex_ring_at [OF H, of 0] _ ex_comm_facts(1) S0 e(1-4) ex_comm_facts(2,3,5) _ _ e(5,6)]
    by (auto simp: ex_comm_facts e(7,8) S) (simp add: ex_comm_def ex_tracer_def)
  then show ?thesis using S S0 by (intro exI [of _ st]) auto
qed

end
