(* ===== verification/CmsMainProps.thy ===== *)
theory CmsMainProps
  imports CmsMain CmsSiaProps
begin

text \<open>
  The laws of the security-center reporting: the runs of its operations as a step relation, the
  repetitions of an unanswered packet, the effect of a reply, and what the unit reports at all.
\<close>

subsection \<open>Runs\<close>

text \<open>A step is one call from the rest of the program, in any order and with any surroundings.\<close>

inductive cms_step :: "os_timer \<Rightarrow> cms_st \<Rightarrow> cms_st \<Rightarrow> bool" for sec where
  step_reinit: "cms_step sec s (fst (cms_reinit env s))"
| step_new_event: "cms_new_event s e = Some (s', r) \<Longrightarrow> cms_step sec s s'"
| step_rx: "cms_udp_rx s data len port = Some (s', r) \<Longrightarrow> cms_step sec s s'"
| step_process: "cms_main_process sec env s = Some s' \<Longrightarrow> cms_step sec s s'"

inductive cms_run :: "os_timer \<Rightarrow> cms_st \<Rightarrow> cms_st \<Rightarrow> bool" for sec where
  run_refl: "cms_run sec s s"
| run_step: "cms_run sec s s' \<Longrightarrow> cms_step sec s' s'' \<Longrightarrow> cms_run sec s s''"

subsection \<open>The empty buffer\<close>

definition eb_blank :: "rtc event_buf \<Rightarrow> bool" where
  "eb_blank b \<longleftrightarrow> (\<exists>it. eb_at b (eb_start b) = Some it \<and> it_flag it = 0 \<and> it_next it = EVENT_BUF_INDEX_NIL)"

lemma item_active_0: "it_flag it = 0 \<Longrightarrow> \<not> item_active it"
  using item_active_flag by blast

lemma walk_blank:
  assumes "eb_blank b" and "\<And>it. eb_at b (eb_start b) = Some it \<Longrightarrow> it_flag it = 0 \<Longrightarrow> body b acc (eb_start b) = Some (b, acc, False)"
  shows "eb_walk False n body b acc (eb_start b) = Some (b, acc)"
  using assms by (cases n) (auto simp: eb_blank_def)

lemma get_blank:
  "eb_blank b \<Longrightarrow> event_buf_get_event b (Some u) = Some (b, \<lparr>gt_event = None, gt_user = u, gt_prio = None, gt_found = False\<rparr>)"
  unfolding event_buf_get_event_def option.case
  by (rule walk_blank) (auto simp: get_body_def item_active_0)

lemma done_blank: "eb_blank b \<Longrightarrow> event_buf_done_events b d = Some b"
  using walk_blank [of b "done_body d" "()" "unat (eb_size b)"] by (simp add: event_buf_done_events_def done_body_def)

lemma init_blank: "event_buf_init items CMS_BUF_SIZE = Some b \<Longrightarrow> eb_blank b"
  by (auto simp: event_buf_init_def eb_blank_def eb_at_def arr_get_def eb_reset_item_def nth_append split: if_splits)

subsection \<open>Nothing to report\<close>

definition cms_quiet :: "cms_st \<Rightarrow> bool" where
  "cms_quiet s \<longleftrightarrow> eb_blank (cm_buf s) \<and> \<not> sp_ok (cm_proto s) \<and> \<not> cm_waiting s \<and> cm_out s = []"

lemma reinit_quiet: "cms_quiet s \<Longrightarrow> cms_quiet (fst (cms_reinit env s))"
  by (auto simp: cms_reinit_def cms_quiet_def Let_def sia_proto_reinit_def split: option.splits prod.splits)

lemma process_quiet: "cms_quiet s \<Longrightarrow> cms_main_process sec env s = Some s' \<Longrightarrow> cms_quiet s'"
  using reinit_quiet [of "s\<lparr>cm_resolve_tmr := ce_now env + 60 * sec\<rparr>" env]
  by (auto simp: cms_main_process_def cms_prepare_def cms_quiet_def Let_def get_blank split: if_splits)

lemma cms_quiet_step: "cms_step sec s s' \<Longrightarrow> cms_quiet s \<Longrightarrow> cms_quiet s'"
proof (induction rule: cms_step.induct)
  case (step_new_event s e s' r)
  then show ?case
    by (auto simp: cms_new_event_def cms_quiet_def event_buf_add_event_def split: if_splits option.splits)
next
  case (step_rx s data len port s' r)
  then show ?case by (auto simp: cms_udp_rx_def cms_quiet_def split: if_splits bind_splits)
qed (auto intro: reinit_quiet process_quiet)

lemma run_quiet: "cms_run sec s s' \<Longrightarrow> cms_quiet s \<Longrightarrow> cms_quiet s'"
  by (induction rule: cms_run.induct) (auto intro: cms_quiet_step)

subsection \<open>Repetitions\<close>

text \<open>The packet the main state sends.\<close>

definition cms_packet :: "cms_st \<Rightarrow> udp_packet" where
  "cms_packet s = \<lparr>up_dst_ip = cm_server_ip s, up_src_ip = 0, up_data = cm_packet_buf s,
     up_dst_port = cm_server_port s, up_src_port = cm_server_port s, up_datalen = of_nat (cm_packet_len s)\<rparr>"

definition configured :: "cms_st \<Rightarrow> bool" where
  "configured s \<longleftrightarrow> cm_server_ip s \<noteq> 0 \<and> cm_server_port s \<noteq> 0"

lemma process_waiting:
  assumes "configured s" "cm_waiting s"
  shows "cms_main_process sec env s =
    (if ce_now env < cm_wait_tmr s then Some s
     else if cm_retry s < 5
     then Some (s\<lparr>cm_retry := cm_retry s + 1, cm_out := cm_out s @ [cms_packet s],
                  cm_wait_tmr := ce_now env + cms_wait_tmout sec\<rparr>)
     else cms_fail s)"
  using assms by (simp add: cms_main_process_def Let_def configured_def cms_send_packet_def cms_packet_def)

fun cms_polls :: "os_timer \<Rightarrow> cms_env list \<Rightarrow> cms_st \<Rightarrow> cms_st option" where
  "cms_polls sec [] s = Some s"
| "cms_polls sec (env # envs) s = do { s \<leftarrow> cms_main_process sec env s; cms_polls sec envs s }"

text \<open>Polling while the packet waits: the timeouts met, at most six.\<close>

fun timeouts :: "os_timer \<Rightarrow> os_timer \<Rightarrow> os_timer list \<Rightarrow> nat" where
  "timeouts sec tmr [] = 0"
| "timeouts sec tmr (now # ts) =
     (if now < tmr then timeouts sec tmr ts else Suc (timeouts sec (now + cms_wait_tmout sec) ts))"

lemma polls_waiting:
  assumes "configured s" "cm_waiting s" "timeouts sec (cm_wait_tmr s) (map ce_now envs) = n" "n + unat (cm_retry s) \<le> 5"
  shows "\<exists>s'. cms_polls sec envs s = Some s' \<and> configured s' \<and> cm_waiting s'
     \<and> unat (cm_retry s') = unat (cm_retry s) + n \<and> cm_out s' = cm_out s @ replicate n (cms_packet s)
     \<and> cms_packet s' = cms_packet s \<and> cm_buf s' = cm_buf s \<and> cm_proto s' = cm_proto s"
  using assms
proof (induction envs arbitrary: s n)
  case (Cons env envs)
  show ?case
  proof (cases "ce_now env < cm_wait_tmr s")
    case True
    then show ?thesis using Cons by (simp add: process_waiting)
  next
    case False
    define s1 where "s1 = s\<lparr>cm_retry := cm_retry s + 1, cm_out := cm_out s @ [cms_packet s],
        cm_wait_tmr := ce_now env + cms_wait_tmout sec\<rparr>"
    define m where "m = timeouts sec (ce_now env + cms_wait_tmout sec) (map ce_now envs)"
    have n: "n = Suc m" using Cons.prems(3) False by (simp add: m_def)
    then have lt: "cm_retry s < 5" using Cons.prems(4) by (simp add: word_less_nat_alt)
    have u: "unat (cm_retry s + 1) = Suc (unat (cm_retry s))" by (rule unat_Suc_no_wrap [OF lt])
    have "\<exists>s'. cms_polls sec envs s1 = Some s' \<and> configured s' \<and> cm_waiting s'
       \<and> unat (cm_retry s') = unat (cm_retry s1) + m \<and> cm_out s' = cm_out s1 @ replicate m (cms_packet s1)
       \<and> cms_packet s' = cms_packet s1 \<and> cm_buf s' = cm_buf s1 \<and> cm_proto s' = cm_proto s1"
      using Cons.prems n u by (intro Cons.IH) (simp_all add: s1_def configured_def m_def)
    moreover have "cms_main_process sec env s = Some s1"
      using Cons.prems False lt by (simp add: process_waiting s1_def)
    ultimately show ?thesis using n u by (simp add: s1_def cms_packet_def)
  qed
qed simp

subsection \<open>Properties\<close>

text \<open>A packet without an answer is repeated exactly once for each of the first five timeouts,
unchanged and to the same server, whatever happens between them; at the sixth timeout it is given up: no
further packet is sent, the unit is idle again and the event has failed in the buffer.\<close>

theorem cms_repeats:
  assumes "configured s" and "cm_waiting s" and "cm_retry s = 0"
    and "timeouts sec (cm_wait_tmr s) (map ce_now envs) = n" and "n \<le> 5"
  shows "\<exists>s'. cms_polls sec envs s = Some s' \<and> cm_out s' = cm_out s @ replicate n (cms_packet s) \<and> cm_waiting s'
     \<and> (\<forall>env s''. n = 5 \<longrightarrow> cm_wait_tmr s' \<le> ce_now env \<longrightarrow> cms_main_process sec env s' = Some s'' \<longrightarrow>
          cm_out s'' = cm_out s' \<and> \<not> cm_waiting s'' \<and> \<not> sp_ok (cm_proto s'') \<and> cm_retry s'' = 0
          \<and> event_buf_done_events (cm_buf s) False = Some (cm_buf s''))"
proof -
  obtain s' where s': "cms_polls sec envs s = Some s'" "configured s'" "cm_waiting s'" "unat (cm_retry s') = n"
      "cm_out s' = cm_out s @ replicate n (cms_packet s)" "cm_buf s' = cm_buf s"
    using polls_waiting [OF assms(1,2,4)] assms(3,5) by auto
  have "cm_out s'' = cm_out s' \<and> \<not> cm_waiting s'' \<and> \<not> sp_ok (cm_proto s'') \<and> cm_retry s'' = 0
      \<and> event_buf_done_events (cm_buf s) False = Some (cm_buf s'')"
    if "n = 5" "cm_wait_tmr s' \<le> ce_now env" "cms_main_process sec env s' = Some s''" for env s''
  proof -
    have "\<not> cm_retry s' < 5" using s'(4) that(1) by (simp add: word_less_nat_alt)
    then have "cms_fail s' = Some s''"
      using process_waiting [OF s'(2,3), of sec env] that leD [OF that(2)] by simp
    then show ?thesis using s'(6) by (auto simp: cms_fail_def cms_packet_done_def split: bind_splits)
  qed
  then show ?thesis using s' by blast
qed

definition ex_env :: "os_timer \<Rightarrow> cms_env" where
  "ex_env t = \<lparr>ce_now = t, ce_tx = True, ce_connect = True, ce_dns = (\<lambda>_. (False, 0)),
     ce_server = Some (str ''10.0.0.1:9000''), ce_account = Some (str ''1234''), ce_names = (\<lambda>_. None),
     ce_time = ev_time ex_event, ce_user = 0, ce_buf = list_buf\<rparr>"

definition ex_items :: "rtc eb_item list" where
  "ex_items = replicate 32 \<lparr>it_event = ex_event, it_next = 0, it_prev = 0, it_prio = 0, it_flag = 0, it_user = 0, it_cnt = 0\<rparr>"

definition ex_cms :: cms_st where
  "ex_cms = \<lparr>cm_server_ip = 0x0100000A, cm_server_port = 9000, cm_account = 0, cm_wait_tmr = 10, cm_retry = 0,
     cm_waiting = True, cm_resolve_tmr = 0, cm_buf = \<lparr>eb_size = 32, eb_start = 0, eb_last = 0xFF, eb_test = 0xFF, eb_items = ex_items\<rparr>,
     cm_packet_buf = str ''packet'', cm_packet_len = 6,
     cm_proto = \<lparr>sp_state = cms_sia_ip_init, sp_packet = str ''packet'', sp_ok = True\<rparr>, cm_out = []\<rparr>"

theorem cms_repeats_witness:
  "\<exists>s'. cms_polls 1 [ex_env 5, ex_env 10, ex_env 12, ex_env 20] ex_cms = Some s'
     \<and> cm_out s' = [cms_packet ex_cms, cms_packet ex_cms] \<and> cm_waiting s'"
proof -
  have "timeouts 1 (cm_wait_tmr ex_cms) (map ce_now [ex_env 5, ex_env 10, ex_env 12, ex_env 20]) = 2"
    by (simp add: ex_cms_def ex_env_def cms_wait_tmout_def)
  moreover have "configured ex_cms" "cm_waiting ex_cms" "cm_retry ex_cms = 0" "cm_out ex_cms = []"
    by (simp_all add: ex_cms_def configured_def)
  ultimately show ?thesis using cms_repeats [of ex_cms 1] by (fastforce simp: numeral_2_eq_2)
qed

text \<open>C39: What the code does instead of reporting: events are stored for \<open>EVENT_USER_NONE\<close>, which
the event buffer refuses, so that after \<open>cms_init\<close> no order of reconfigurations, events, received
packets and polls ever makes the unit send a packet to the security center.\<close>

theorem cms_never_reports:
  assumes "cms_init env items s0 = Some (s, r)" and "cm_out s0 = []" and "cms_run sec s s'"
  shows "cm_out s' = []"
proof -
  obtain buf where b: "event_buf_init items CMS_BUF_SIZE = Some buf"
    and s: "s = fst (cms_reinit env (s0\<lparr>cm_buf := buf, cm_waiting := False, cm_retry := 0\<rparr>))"
    using assms(1) by (auto simp: cms_init_def split: bind_splits)
  have "cms_quiet s" using init_blank [OF b] assms(2)
    by (auto simp: s cms_reinit_def cms_quiet_def Let_def sia_proto_reinit_def split: option.splits prod.splits)
  then have "cms_quiet s'" using run_quiet [OF assms(3)] by blast
  then show ?thesis by (simp add: cms_quiet_def)
qed

theorem cms_never_reports_witness:
  "\<exists>s s' r. cms_init (ex_env 0) ex_items (ex_cms\<lparr>cm_waiting := False\<rparr>) = Some (s, True)
     \<and> cms_new_event s (Some ex_event) = Some (s', r) \<and> cm_out s' = []"
proof -
  have url: "net_get_target_ip d (str ''10.0.0.1:9000'') = (True, 0x0100000A, Some 9000)" for d
  proof -
    have "str ''10.0.0.1:9000'' = show_nat 10 @ [46] @ show_nat 0 @ [46] @ show_nat 0 @ [46] @ show_nat 1 @ [58] @ show_nat 9000"
      by (simp add: str_def show_nat.simps)
    from literal_target [OF _ _ _ _ _ _ _ _ this, of d] show ?thesis by (simp add: ip_word_def)
  qed
  obtain s where i: "cms_init (ex_env 0) ex_items (ex_cms\<lparr>cm_waiting := False\<rparr>) = Some (s, True)"
    using url by (auto simp: cms_init_def event_buf_init_def ex_items_def ex_env_def cms_reinit_def Let_def split: option.splits)
  obtain s' r where e: "cms_new_event s (Some ex_event) = Some (s', r)"
    by (cases "cm_server_ip s = 0 \<or> cm_server_port s = 0") (auto simp: cms_new_event_def event_buf_add_event_def)
  have "cms_run 1 s s'" using run_step [OF run_refl step_new_event [OF e]] .
  then have "cm_out s' = []" using cms_never_reports [OF i] by (simp add: ex_cms_def)
  then show ?thesis using i e by blast
qed

end
