(* ===== verification/MultiSms.thy ===== *)
theory MultiSms
  imports Prelude
begin

text \<open>
  \<open>modem/multi_sms.c\<close>: the ten buffers in which the parts of long messages wait until all parts of
  one message are there.  A text argument is the text with its terminator; the argument \<open>alloc\<close>
  says whether \<open>OS_MEM_ALLOC\<close> gave the memory; a freed or null buffer is \<open>None\<close>.
\<close>

subsection \<open>State and operations\<close>

record msms =
  ms_buffer :: "u8 list option"
  ms_order :: u8
  ms_total :: u8
  ms_id :: u8
  ms_len :: u8

abbreviation (input) MSMS_BUF_LEN :: nat where "MSMS_BUF_LEN \<equiv> 10"

datatype ms_result = MS_SMS_ERROR | MS_SMS_WAIT | MS_SMS_DONE

definition ms_free :: "msms \<Rightarrow> msms" where
  "ms_free m = m\<lparr>ms_buffer := None, ms_len := 0\<rparr>"

definition ms_init :: "msms list \<Rightarrow> msms list" where
  "ms_init st = map ms_free st"

text \<open>The first index of the array that satisfies a condition.\<close>

definition ms_first :: "(msms \<Rightarrow> bool) \<Rightarrow> msms list \<Rightarrow> nat option" where
  "ms_first P st = List.find (\<lambda>i. P (st ! i)) [0..<MSMS_BUF_LEN]"

text \<open>\<open>None\<close> is the index -1.\<close>

definition ms_get_free_buf :: "msms list \<Rightarrow> u8 \<Rightarrow> msms list \<times> nat option" where
  "ms_get_free_buf st i =
     (case ms_first (\<lambda>m. ms_len m = 0) st of
        Some k \<Rightarrow> (st, Some k)
      | None \<Rightarrow>
          let st = map (\<lambda>m. if ms_id m \<noteq> i then ms_free m else m) st
          in (st, ms_first (\<lambda>m. ms_len m = 0) st))"

definition ms_find_in_buf :: "msms list \<Rightarrow> u8 \<Rightarrow> u8 \<Rightarrow> nat option" where
  "ms_find_in_buf st i order = ms_first (\<lambda>m. ms_id m = i \<and> ms_order m = order \<and> ms_buffer m \<noteq> None) st"

text \<open>The loop \<open>for (i=1; i<=num_parts; i++)\<close> of the check for all parts.\<close>

definition ms_complete :: "msms list \<Rightarrow> u8 \<Rightarrow> u8 \<Rightarrow> bool" where
  "ms_complete st i num_parts = list_all (\<lambda>k. ms_find_in_buf st i (of_nat k) \<noteq> None) [1..<Suc (unat num_parts)]"

definition ms_incomming :: "bool \<Rightarrow> msms list \<Rightarrow> u8 list \<Rightarrow> u16 \<Rightarrow> u8 \<Rightarrow> u8 \<Rightarrow> u8
    \<Rightarrow> (msms list \<times> ms_result) option" where
  "ms_incomming alloc st sms_text len i order num_parts =
     (case ms_get_free_buf st i of
        (st, None) \<Rightarrow> Some (st, MS_SMS_ERROR)
      | (st, Some k) \<Rightarrow>
          if len > 160 then Some (st, MS_SMS_ERROR)
          else if \<not> alloc then Some (st[k := (st ! k)\<lparr>ms_buffer := None\<rparr>], MS_SMS_ERROR)
          else if unat len + 1 \<le> length sms_text
          then let st = st[k := \<lparr>ms_buffer = Some (take (unat len + 1) sms_text), ms_order = order,
                                ms_total = num_parts, ms_id = i, ms_len = ucast len\<rparr>]
               in Some (st, if ms_complete st i num_parts then MS_SMS_DONE else MS_SMS_WAIT)
          else None)"

text \<open>
  \<open>ms_get\<close>: the space needed and the number of parts, then the parts in order.  The result is
  the text \<open>*sms_text\<close> points to (\<open>None\<close>: no memory; without any part it is the text from before) and
  the returned length; \<open>None\<close> outside is a failed assertion or a part shorter than its length.
\<close>

fun ms_need :: "msms list \<Rightarrow> u8 \<Rightarrow> u16 \<times> u16 \<Rightarrow> u16 \<times> u16" where
  "ms_need [] i acc = acc"
| "ms_need (m # st) i (len, num) =
     ms_need st i (if ms_len m \<noteq> 0 \<and> ms_id m = i then (len + ucast (ms_len m), ucast (ms_total m)) else (len, num))"

fun ms_join :: "msms list \<Rightarrow> u8 \<Rightarrow> u16 \<Rightarrow> u8 list \<Rightarrow> nat list \<Rightarrow> (u8 list \<times> bool) option" where
  "ms_join st i len text [] = Some (text, True)"
| "ms_join st i len text (k # ks) =
     (case ms_find_in_buf st i (of_nat k) of
        None \<Rightarrow> Some (text, False)
      | Some mem \<Rightarrow>
          (case ms_buffer (st ! mem) of
             None \<Rightarrow> None
           | Some b \<Rightarrow>
               do { _ \<leftarrow> os_assert (unat (ms_len (st ! mem)) \<le> length b);
                    text \<leftarrow> Some (text @ take (unat (ms_len (st ! mem))) b);
                    _ \<leftarrow> os_assert (length text \<le> unat len);
                    ms_join st i len text ks }))"

definition ms_get :: "bool \<Rightarrow> u8 list option \<Rightarrow> msms list \<Rightarrow> u8 \<Rightarrow> (u8 list option \<times> u16) option" where
  "ms_get alloc sms_text st i =
     (let (len, num) = ms_need (take MSMS_BUF_LEN st) i (0, 0)
      in if len = 0 then Some (sms_text, 0)
         else if \<not> alloc then Some (None, 0)
         else do { (text, ok) \<leftarrow> ms_join st i len [] [1..<Suc (unat num)];
                   Some (Some text, if ok then len else 0) })"

definition ms_delete :: "msms list \<Rightarrow> u8 \<Rightarrow> msms list" where
  "ms_delete st i = map (\<lambda>m. if ms_id m = i then (ms_free m)\<lparr>ms_id := 0, ms_order := 0\<rparr> else m) st"

subsection \<open>Searches\<close>

lemma ms_first_Some: "ms_first P st = Some k \<Longrightarrow> k < 10 \<and> P (st ! k)"
  by (auto simp: ms_first_def find_Some_iff)

lemma ms_first_None: "ms_first P st = None \<longleftrightarrow> (\<forall>k < 10. \<not> P (st ! k))"
  by (auto simp: ms_first_def find_None_iff)

lemma ms_first_unique: "k < 10 \<Longrightarrow> P (st ! k) \<Longrightarrow> (\<And>j. j < 10 \<Longrightarrow> P (st ! j) \<Longrightarrow> j = k) \<Longrightarrow> ms_first P st = Some k"
  by (metis ms_first_None ms_first_Some option.exhaust)

subsection \<open>The parts of one message\<close>

text \<open>
  \<open>parts\<close> are the texts of a message of \<open>n\<close> parts.  \<open>ms_parts\<close>: the parts in \<open>S\<close> have
  arrived, part \<open>k\<close> in buffer \<open>w k\<close>, and every other buffer is as at the start, in \<open>st0\<close>.
\<close>

definition part_rec :: "(nat \<Rightarrow> u8 list) \<Rightarrow> nat \<Rightarrow> u8 \<Rightarrow> nat \<Rightarrow> msms" where
  "part_rec parts n i k = \<lparr>ms_buffer = Some (parts k @ [0]), ms_order = of_nat k, ms_total = of_nat n,
     ms_id = i, ms_len = of_nat (length (parts k))\<rparr>"

definition parts_ok :: "(nat \<Rightarrow> u8 list) \<Rightarrow> nat \<Rightarrow> bool" where
  "parts_ok parts n \<longleftrightarrow> 0 < n \<and> n \<le> 10 \<and> (\<forall>k. 0 < length (parts k) \<and> length (parts k) \<le> 160)"

definition start_ok :: "msms list \<Rightarrow> u8 \<Rightarrow> nat \<Rightarrow> bool" where
  "start_ok st0 i n \<longleftrightarrow> length st0 = 10 \<and> n \<le> card {k. k < 10 \<and> ms_len (st0 ! k) = 0}
     \<and> (\<forall>k < 10. if ms_len (st0 ! k) = 0 then ms_buffer (st0 ! k) = None else ms_id (st0 ! k) \<noteq> i)"

definition ms_parts :: "msms list \<Rightarrow> (nat \<Rightarrow> u8 list) \<Rightarrow> nat \<Rightarrow> u8 \<Rightarrow> nat set \<Rightarrow> (nat \<Rightarrow> nat) \<Rightarrow> msms list \<Rightarrow> bool" where
  "ms_parts st0 parts n i S w st \<longleftrightarrow> length st = 10 \<and> S \<subseteq> {1..n} \<and> inj_on w S
     \<and> (\<forall>k \<in> S. w k < 10 \<and> ms_len (st0 ! w k) = 0 \<and> st ! w k = part_rec parts n i k)
     \<and> (\<forall>j < 10. j \<notin> w ` S \<longrightarrow> st ! j = st0 ! j)"

lemma part_rec_simps [simp]:
  "ms_buffer (part_rec parts n i k) = Some (parts k @ [0])" "ms_order (part_rec parts n i k) = of_nat k"
  "ms_total (part_rec parts n i k) = of_nat n" "ms_id (part_rec parts n i k) = i"
  "ms_len (part_rec parts n i k) = of_nat (length (parts k))"
  by (simp_all add: part_rec_def)

lemma part_len:
  "parts_ok parts n \<Longrightarrow> unat (of_nat (length (parts k)) :: u8) = length (parts k)"
  "parts_ok parts n \<Longrightarrow> (of_nat (length (parts k)) :: u8) \<noteq> 0"
proof -
  assume p: "parts_ok parts n"
  then have l: "0 < length (parts k)" "length (parts k) \<le> 160" by (simp_all add: parts_ok_def)
  show u: "unat (of_nat (length (parts k)) :: u8) = length (parts k)"
    by (rule unat_of_nat_u8) (use l in linarith)
  show "(of_nat (length (parts k)) :: u8) \<noteq> 0"
  proof
    assume "(of_nat (length (parts k)) :: u8) = 0"
    then have "unat (of_nat (length (parts k)) :: u8) = 0" by simp
    then show False using u l by simp
  qed
qed

lemma order_inj: "j \<le> 10 \<Longrightarrow> k \<le> 10 \<Longrightarrow> (of_nat j :: u8) = of_nat k \<longleftrightarrow> j = k"
proof
  assume a: "j \<le> 10" "k \<le> 10" "(of_nat j :: u8) = of_nat k"
  have "unat (of_nat j :: u8) = j" "unat (of_nat k :: u8) = k"
    using a(1,2) by simp_all
  then show "j = k" using a(3) by metis
qed simp

lemma ms_find_parts:
  assumes st0: "start_ok st0 i n" and P: "parts_ok parts n" and I: "ms_parts st0 parts n i S w st" and k: "1 \<le> k" "k \<le> n"
  shows "ms_find_in_buf st i (of_nat k) = (if k \<in> S then Some (w k) else None)"
proof -
  have n: "n \<le> 10" using P by (simp add: parts_ok_def)
  have at: "k' \<in> S \<and> j = w k'" if "j < 10" "ms_id (st ! j) = i" "ms_buffer (st ! j) \<noteq> None" "ms_order (st ! j) = of_nat k'"
    "k' \<le> n" for j k'
  proof (cases "j \<in> w ` S")
    case True
    then obtain l where l: "l \<in> S" "j = w l" by auto
    then have "st ! j = part_rec parts n i l" "l \<le> n" using I by (auto simp: ms_parts_def)
    then have "l = k'" using that n order_inj [of l k'] by simp
    then show ?thesis using l by simp
  next
    case False
    then have "st ! j = st0 ! j" using I that(1) by (simp add: ms_parts_def)
    then show ?thesis using st0 that by (auto simp: start_ok_def split: if_splits)
  qed
  show ?thesis
  proof (cases "k \<in> S")
    case True
    then have wk: "w k < 10" "st ! w k = part_rec parts n i k" using I by (auto simp: ms_parts_def)
    have "ms_find_in_buf st i (of_nat k) = Some (w k)"
      unfolding ms_find_in_buf_def
    proof (rule ms_first_unique [OF wk(1)])
      show "ms_id (st ! w k) = i \<and> ms_order (st ! w k) = of_nat k \<and> ms_buffer (st ! w k) \<noteq> None"
        using wk(2) by simp
      fix j assume "j < 10" "ms_id (st ! j) = i \<and> ms_order (st ! j) = of_nat k \<and> ms_buffer (st ! j) \<noteq> None"
      then show "j = w k" using at [of j k] k(2) by simp
    qed
    then show ?thesis using True by simp
  next
    case False
    have "ms_find_in_buf st i (of_nat k) = None"
      unfolding ms_find_in_buf_def ms_first_None
    proof (intro allI impI notI)
      fix j assume "j < 10" "ms_id (st ! j) = i \<and> ms_order (st ! j) = of_nat k \<and> ms_buffer (st ! j) \<noteq> None"
      then show False using at [of j k] k(2) False by simp
    qed
    then show ?thesis using False by simp
  qed
qed

lemma ms_free_slot:
  assumes st0: "start_ok st0 i n" and I: "ms_parts st0 parts n i S w st" and P: "parts_ok parts n"
    and "S \<subset> {1..n}"
  shows "\<exists>j. ms_get_free_buf st i = (st, Some j) \<and> j < 10 \<and> j \<notin> w ` S \<and> ms_len (st0 ! j) = 0"
proof -
  define F where "F = {k. k < 10 \<and> ms_len (st0 ! k) = 0}"
  have sub: "w ` S \<subseteq> F" "inj_on w S" using I by (auto simp: ms_parts_def F_def)
  have "card S < n" using psubset_card_mono [OF _ assms(4)] by simp
  moreover have "n \<le> card F" using st0 by (simp add: start_ok_def F_def)
  ultimately have "card (w ` S) < card F" using card_image [OF sub(2)] by simp
  then have "w ` S \<noteq> F" by auto
  then obtain j0 where j0: "j0 \<in> F" "j0 \<notin> w ` S" using sub(1) by blast
  have st_j0: "st ! j0 = st0 ! j0" using j0 I by (auto simp: ms_parts_def F_def)
  obtain j where j: "ms_first (\<lambda>m. ms_len m = 0) st = Some j"
  proof (cases "ms_first (\<lambda>m. ms_len m = 0) st")
    case None
    then show ?thesis using j0 st_j0 by (auto simp: ms_first_None F_def)
  qed
  have j10: "j < 10" "ms_len (st ! j) = 0" using ms_first_Some [OF j] by auto
  have "j \<notin> w ` S"
  proof
    assume "j \<in> w ` S"
    then obtain k where "k \<in> S" "j = w k" by auto
    then have "st ! j = part_rec parts n i k" using I by (auto simp: ms_parts_def)
    then show False using j10(2) part_len(2) [OF P] by simp
  qed
  moreover from this have "st ! j = st0 ! j" using I j10(1) by (simp add: ms_parts_def)
  ultimately show ?thesis using j j10 by (auto simp: ms_get_free_buf_def)
qed

lemma ms_complete_parts:
  assumes "start_ok st0 i n" "parts_ok parts n" "ms_parts st0 parts n i S w st"
  shows "ms_complete st i (of_nat n) \<longleftrightarrow> S = {1..n}"
proof -
  have n: "unat (of_nat n :: u8) = n" using assms(2) by (simp add: parts_ok_def)
  have f: "ms_find_in_buf st i (of_nat k) \<noteq> None \<longleftrightarrow> k \<in> S" if "1 \<le> k" "k \<le> n" for k
    using ms_find_parts [OF assms that] by simp
  have "ms_complete st i (of_nat n) \<longleftrightarrow> (\<forall>k \<in> {1..n}. ms_find_in_buf st i (of_nat k) \<noteq> None)"
    using n by (simp add: ms_complete_def list_all_iff atLeastLessThanSuc_atLeastAtMost del: upt_Suc)
  also have "\<dots> \<longleftrightarrow> (\<forall>k. 1 \<le> k \<longrightarrow> k \<le> n \<longrightarrow> k \<in> S)" using f by auto
  also have "\<dots> \<longleftrightarrow> S = {1..n}" using assms(3) by (auto simp: ms_parts_def)
  finally show ?thesis .
qed

lemma ms_receive:
  assumes st0: "start_ok st0 i n" and P: "parts_ok parts n" and I: "ms_parts st0 parts n i S w st"
    and k: "k \<in> {1..n}" "k \<notin> S"
  shows "\<exists>st' j. ms_incomming True st (parts k @ [0]) (of_nat (length (parts k))) i (of_nat k) (of_nat n)
       = Some (st', if insert k S = {1..n} then MS_SMS_DONE else MS_SMS_WAIT)
     \<and> ms_parts st0 parts n i (insert k S) (w(k := j)) st'"
proof -
  have "S \<subset> {1..n}" using I k by (auto simp: ms_parts_def)
  then obtain j where j: "ms_get_free_buf st i = (st, Some j)" "j < 10" "j \<notin> w ` S" "ms_len (st0 ! j) = 0"
    using ms_free_slot [OF st0 I P] by blast
  define st' where "st' = st[j := part_rec parts n i k]"
  have l: "length (parts k) \<le> 160" using P by (simp add: parts_ok_def)
  then have ul: "unat (of_nat (length (parts k)) :: u16) = length (parts k)" by (intro unat_of_nat_u16) linarith
  have len: "length st = 10" using I by (simp add: ms_parts_def)
  have I': "ms_parts st0 parts n i (insert k S) (w(k := j)) st'"
    unfolding ms_parts_def
  proof (intro conjI ballI allI impI)
    show "length st' = 10" "insert k S \<subseteq> {1..n}" using len I k by (auto simp: st'_def ms_parts_def)
    show "inj_on (w(k := j)) (insert k S)"
      using I j(3) k(2) by (auto simp: ms_parts_def inj_on_def image_iff)
    fix l assume "l \<in> insert k S"
    then show "(w(k := j)) l < 10" "ms_len (st0 ! (w(k := j)) l) = 0" "st' ! (w(k := j)) l = part_rec parts n i l"
      using I j k len by (auto simp: ms_parts_def st'_def nth_list_update image_iff)
  next
    fix l assume "l < 10" "l \<notin> (w(k := j)) ` insert k S"
    then have "l \<noteq> j" "l \<notin> w ` S" using k(2) by (auto simp: image_iff)
    then show "st' ! l = st0 ! l" using I \<open>l < 10\<close> by (simp add: st'_def ms_parts_def)
  qed
  have c: "ms_complete st' i (of_nat n) \<longleftrightarrow> insert k S = {1..n}"
    by (rule ms_complete_parts [OF st0 P I'])
  have "\<not> (of_nat (length (parts k)) :: u16) > 160" using l ul by (simp add: word_less_nat_alt)
  moreover have "ucast (of_nat (length (parts k)) :: u16) = (of_nat (length (parts k)) :: u8)"
    using ul part_len(1) [OF P, of k] l by (simp add: word_unat_eq_iff unsigned_ucast_eq unsigned_take_bit_eq take_bit_nat_eq_self del: inj_unat_word)
  ultimately have "ms_incomming True st (parts k @ [0]) (of_nat (length (parts k))) i (of_nat k) (of_nat n)
      = Some (st', if insert k S = {1..n} then MS_SMS_DONE else MS_SMS_WAIT)"
    using j(1) c ul by (simp add: ms_incomming_def st'_def part_rec_def Let_def)
  then show ?thesis using I' by blast
qed

lemma ms_parts_start: "start_ok st i n \<Longrightarrow> ms_parts st parts n i {} w st"
  by (simp add: start_ok_def ms_parts_def)

fun ms_receive_all :: "msms list \<Rightarrow> (nat \<Rightarrow> u8 list) \<Rightarrow> nat \<Rightarrow> u8 \<Rightarrow> nat list \<Rightarrow> (msms list \<times> ms_result list) option" where
  "ms_receive_all st parts n i [] = Some (st, [])"
| "ms_receive_all st parts n i (k # ks) =
     do { (st, r) \<leftarrow> ms_incomming True st (parts k @ [0]) (of_nat (length (parts k))) i (of_nat k) (of_nat n);
          (st, rs) \<leftarrow> ms_receive_all st parts n i ks;
          Some (st, r # rs) }"

lemma ms_receive_all_parts:
  assumes st0: "start_ok st0 i n" and P: "parts_ok parts n"
  shows "ms_parts st0 parts n i S w st \<Longrightarrow> distinct ks \<Longrightarrow> set ks \<inter> S = {} \<Longrightarrow> set ks \<union> S = {1..n} \<Longrightarrow> ks \<noteq> [] \<Longrightarrow>
    \<exists>st' w'. ms_receive_all st parts n i ks = Some (st', replicate (length ks - 1) MS_SMS_WAIT @ [MS_SMS_DONE])
      \<and> ms_parts st0 parts n i {1..n} w' st'"
proof (induction ks arbitrary: S w st)
  case (Cons k ks)
  have k: "k \<in> {1..n}" "k \<notin> S" using Cons.prems by auto
  obtain st1 j where r: "ms_incomming True st (parts k @ [0]) (of_nat (length (parts k))) i (of_nat k) (of_nat n)
       = Some (st1, if insert k S = {1..n} then MS_SMS_DONE else MS_SMS_WAIT)"
    and I: "ms_parts st0 parts n i (insert k S) (w(k := j)) st1"
    using ms_receive [OF st0 P Cons.prems(1) k] by blast
  show ?case
  proof (cases "ks = []")
    case True
    then have "insert k S = {1..n}" using Cons.prems(4) by simp
    then show ?thesis using r I True by auto
  next
    case False
    have "insert k S \<noteq> {1..n}" using Cons.prems(2,3,4) False by (cases ks) auto
    moreover have "set ks \<inter> insert k S = {}" "set ks \<union> insert k S = {1..n}" using Cons.prems by auto
    from Cons.IH [OF I _ this False] Cons.prems(2) obtain st' w'
      where "ms_receive_all st1 parts n i ks = Some (st', replicate (length ks - 1) MS_SMS_WAIT @ [MS_SMS_DONE])"
        "ms_parts st0 parts n i {1..n} w' st'" by auto
    moreover have "replicate (length (k # ks) - 1) MS_SMS_WAIT = MS_SMS_WAIT # replicate (length ks - 1) MS_SMS_WAIT"
      using False by (cases ks) auto
    ultimately show ?thesis using r by (intro exI [of _ st'] exI [of _ w']) simp
  qed
qed simp

definition ms_weight :: "u8 \<Rightarrow> msms \<Rightarrow> nat" where
  "ms_weight i m = (if ms_len m \<noteq> 0 \<and> ms_id m = i then unat (ms_len m) else 0)"

lemma ms_need_eq:
  assumes "\<And>m. m \<in> set st \<Longrightarrow> ms_len m \<noteq> 0 \<Longrightarrow> ms_id m = i \<Longrightarrow> ms_total m = t"
  shows "ms_need st i (l, u) = (l + of_nat (sum_list (map (ms_weight i) st)),
     (if (\<exists>m \<in> set st. ms_len m \<noteq> 0 \<and> ms_id m = i) then ucast t else u))"
  using assms
proof (induction st arbitrary: l u)
  case (Cons m st)
  have "ucast (ms_len m) = (of_nat (unat (ms_len m)) :: u16)" by simp
  then show ?case using Cons by (auto simp: add.assoc ms_weight_def)
qed simp

lemma ms_join_parts:
  assumes "start_ok st0 i n" "parts_ok parts n" "ms_parts st0 parts n i {1..n} w st"
  shows "set ks \<subseteq> {1..n} \<Longrightarrow> length acc + length (concat (map parts ks)) \<le> unat len \<Longrightarrow>
    ms_join st i len acc ks = Some (acc @ concat (map parts ks), True)"
proof (induction ks arbitrary: acc)
  case (Cons k ks)
  then have k: "1 \<le> k" "k \<le> n" by auto
  have f: "ms_find_in_buf st i (of_nat k) = Some (w k)"
    using ms_find_parts [OF assms k] k by simp
  have r: "st ! w k = part_rec parts n i k" using assms(3) k by (simp add: ms_parts_def)
  show ?case using Cons k by (simp add: f r part_len(1) [OF assms(2)])
qed simp

lemma ms_get_parts:
  assumes st0: "start_ok st0 i n" and P: "parts_ok parts n" and I: "ms_parts st0 parts n i {1..n} w st"
  shows "ms_get True old st i = Some (Some (concat (map parts [1..<Suc n])), of_nat (length (concat (map parts [1..<Suc n]))))"
proof -
  define g where "g = ms_weight i"
  note g_def = g_def ms_weight_def
  have len: "length st = 10" using I by (simp add: ms_parts_def)
  have n: "1 \<le> n" "n \<le> 10" "unat (of_nat n :: u8) = n" using P by (auto simp: parts_ok_def)
  have wk: "w k < 10" "st ! w k = part_rec parts n i k" if "k \<in> {1..n}" for k
    using I that by (auto simp: ms_parts_def)
  have other: "g (st ! j) = 0 \<and> (ms_len (st ! j) = 0 \<or> ms_id (st ! j) \<noteq> i)" if "j < 10" "j \<notin> w ` {1..n}" for j
    using I st0 that by (auto simp: ms_parts_def start_ok_def g_def split: if_splits)
  have gk: "g (st ! w k) = length (parts k)" if "k \<in> {1..n}" for k
    using wk [OF that] part_len [OF P, of k] by (simp add: g_def)
  have "sum_list (map g st) = (\<Sum>j \<in> {..<10}. g (st ! j))"
    using len by (simp add: sum_list_sum_nth atLeast0LessThan)
  also have "\<dots> = (\<Sum>j \<in> w ` {1..n}. g (st ! j))"
    using wk(1) other by (intro sum.mono_neutral_right) auto
  also have "\<dots> = (\<Sum>k \<in> {1..n}. length (parts k))"
    using I gk by (subst sum.reindex) (auto simp: ms_parts_def)
  also have "\<dots> = length (concat (map parts [1..<Suc n]))"
    by (simp add: length_concat sum_list_distinct_conv_sum_set atLeastLessThanSuc_atLeastAtMost comp_def del: upt_Suc)
  finally have s: "sum_list (map g st) = length (concat (map parts [1..<Suc n]))" .
  define t where "t = length (concat (map parts [1..<Suc n]))"
  have "t \<le> (\<Sum>k \<in> {1..n}. 160)"
    unfolding t_def using P by (simp add: length_concat sum_list_distinct_conv_sum_set atLeastLessThanSuc_atLeastAtMost
        comp_def parts_ok_def sum_mono del: upt_Suc sum_constant)
  then have t: "t \<le> 1600" using n by simp
  have "0 < length (parts 1)" using P by (simp add: parts_ok_def)
  moreover have "length (parts 1) \<le> (\<Sum>k \<in> {1..n}. length (parts k))" using n by (intro member_le_sum) auto
  moreover have "t = (\<Sum>k \<in> {1..n}. length (parts k))"
    by (simp add: t_def length_concat sum_list_distinct_conv_sum_set atLeastLessThanSuc_atLeastAtMost comp_def del: upt_Suc)
  ultimately have t0: "0 < t" by linarith
  have tot: "ms_total m = of_nat n" if "m \<in> set st" "ms_len m \<noteq> 0" "ms_id m = i" for m
  proof -
    from \<open>m \<in> set st\<close> obtain j where "j < length st" "st ! j = m" unfolding in_set_conv_nth by blast
    then have j: "j < 10" "m = st ! j" using len by simp_all
    then have "j \<in> w ` {1..n}" using other [of j] that by auto
    then show ?thesis using wk j by auto
  qed
  have ex: "\<exists>m \<in> set st. ms_len m \<noteq> 0 \<and> ms_id m = i"
  proof
    have w1: "w 1 < 10" "st ! w 1 = part_rec parts n i 1" using wk [of 1] n by simp_all
    show "st ! w 1 \<in> set st" using w1(1) len by (intro nth_mem) simp
    show "ms_len (st ! w 1) \<noteq> 0 \<and> ms_id (st ! w 1) = i" using part_len(2) [OF P, of 1] unfolding w1(2) by simp
  qed
  have need: "ms_need st i (0, 0) = (of_nat t, ucast (of_nat n :: u8))"
  proof -
    have "ms_need st i (0, 0) = (0 + of_nat (sum_list (map (ms_weight i) st)),
        (if \<exists>m \<in> set st. ms_len m \<noteq> 0 \<and> ms_id m = i then ucast (of_nat n :: u8) else 0))"
      by (rule ms_need_eq) (rule tot)
    then show ?thesis using ex s unfolding g_def(1) t_def [symmetric] by (simp only: if_True add_0)
  qed
  have un: "unat (ucast (of_nat n :: u8) :: u16) = n" using n by (simp add: unat_ucast_up)
  have ut: "unat (of_nat t :: u16) = t" using t by (intro unat_of_nat_u16) linarith
  have "ms_join st i (of_nat t) [] [1..<Suc n] = Some (concat (map parts [1..<Suc n]), True)"
    using ms_join_parts [OF st0 P I, of "[1..<Suc n]" "[]" "of_nat t"] ut by (simp add: t_def atLeastLessThanSuc_atLeastAtMost del: upt_Suc)
  moreover have "(of_nat t :: u16) \<noteq> 0" using ut t0 by (metis less_irrefl unsigned_0)
  ultimately show ?thesis using need un len by (simp add: ms_get_def t_def del: upt_Suc)
qed

text \<open>C20: reassembly of a long message. Start from an array of ten slots in which no slot in use
  carries the message identifier i; there are enough free slots for the parts. When the n parts of
  the message (each of 1 to 160 bytes) arrive in any order, ms_incomming answers WAIT for each
  but the last and DONE for the last, and then ms_get returns the parts joined in the order of their
  numbers (with the total length), whatever the order of arrival.\<close>

theorem ms_reassembly:
  assumes "start_ok st i n" "parts_ok parts n" "distinct ks" "set ks = {1..n}"
  shows "\<exists>st'. ms_receive_all st parts n i ks = Some (st', replicate (n - 1) MS_SMS_WAIT @ [MS_SMS_DONE])
     \<and> ms_get True old st' i = Some (Some (concat (map parts [1..<Suc n])), of_nat (length (concat (map parts [1..<Suc n]))))
     \<and> (\<forall>j < 10. ms_len (st ! j) \<noteq> 0 \<longrightarrow> st' ! j = st ! j)"
proof -
  have ne: "ks \<noteq> []" using assms(2,4) by (auto simp: parts_ok_def)
  have ln: "length ks = n" using distinct_card [OF assms(3)] assms(4) by simp
  obtain st' w where r: "ms_receive_all st parts n i ks = Some (st', replicate (length ks - 1) MS_SMS_WAIT @ [MS_SMS_DONE])"
    and I: "ms_parts st parts n i {1..n} w st'"
    using ms_receive_all_parts [OF assms(1,2) ms_parts_start [OF assms(1)] assms(3)] assms(4) ne by auto
  have "st' ! j = st ! j" if "j < 10" "ms_len (st ! j) \<noteq> 0" for j
    using I that by (auto simp: ms_parts_def)
  then show ?thesis using r ms_get_parts [OF assms(1,2) I] ln by auto
qed

text \<open>Two parts in the wrong order, one foreign part in the first slot.\<close>

definition ms_example :: "msms list" where
  "ms_example = \<lparr>ms_buffer = Some [65, 0], ms_order = 1, ms_total = 2, ms_id = 9, ms_len = 1\<rparr>
     # replicate 9 \<lparr>ms_buffer = None, ms_order = 0, ms_total = 0, ms_id = 0, ms_len = 0\<rparr>"

definition ms_example_parts :: "nat \<Rightarrow> u8 list" where
  "ms_example_parts k = (if k = 1 then [72, 101] else [121])"

lemma ms_example_start: "start_ok ms_example 7 2"
proof -
  have "{1, 2} \<subseteq> {k. k < 10 \<and> ms_len (ms_example ! k) = 0}" by (simp add: ms_example_def)
  then have "card {1, 2 :: nat} \<le> card {k. k < 10 \<and> ms_len (ms_example ! k) = 0}" by (rule card_mono [rotated]) simp
  moreover have "ms_buffer (ms_example ! k) = None" if "ms_len (ms_example ! k) = 0" "k < 10" for k
    using that by (cases k) (simp_all add: ms_example_def)
  moreover have "ms_id (ms_example ! k) \<noteq> 7" if "ms_len (ms_example ! k) \<noteq> 0" "k < 10" for k
    using that by (cases k) (simp_all add: ms_example_def)
  ultimately show ?thesis by (simp add: start_ok_def ms_example_def)
qed

theorem ms_reassembly_witness:
  "\<exists>st'. ms_receive_all ms_example ms_example_parts 2 7 [2, 1] = Some (st', [MS_SMS_WAIT, MS_SMS_DONE])
     \<and> ms_get True None st' 7 = Some (Some [72, 101, 121], 3)"
proof -
  have "concat (map ms_example_parts [1..<Suc 2]) = [72, 101, 121]"
    by (simp add: ms_example_parts_def upt_rec)
  moreover have "parts_ok ms_example_parts 2" by (simp add: parts_ok_def ms_example_parts_def)
  moreover have "{2, 1} = {1..2::nat}" by auto
  moreover have "replicate (2 - 1) MS_SMS_WAIT @ [MS_SMS_DONE] = [MS_SMS_WAIT, MS_SMS_DONE]" by simp
  ultimately show ?thesis
    using ms_reassembly [of ms_example 7 2 ms_example_parts "[2, 1]"] ms_example_start
    by (simp del: ms_receive_all.simps upt_Suc) blast
qed

end
