(* ===== verification/Ihex.thy ===== *)
theory Ihex
  imports Storage CLib
begin

text \<open>
  The Intel HEX records of a firmware transfer: the parser of the bootloader
  (\<open>bootloader/ihex.c\<close>), which decodes a record in the buffer that holds its text, and the printer
  and parser of the host tools (\<open>ut/common/ihex.c\<close>).  A text is a byte list with its terminator;
  a read or write outside the buffer is \<open>None\<close>.
\<close>

unbundle bit_operations_syntax

subsection \<open>The parser\<close>

definition hex_digit :: "u8 \<Rightarrow> u8 option" where
  "hex_digit ch =
     (let ch = (if 97 \<le> ch \<and> ch \<le> 102 then ch - 32 else ch)
      in if 48 \<le> ch \<and> ch \<le> 57 then Some (ch - 48)
         else if 65 \<le> ch \<and> ch \<le> 70 then Some (ch - 65 + 10)
         else None)"

text \<open>
  \<open>gethex\<close>: the two characters at position \<open>p\<close>.  Another character ends it with 0, at that
  character, and leaves the sum.
\<close>

fun gethex_loop :: "nat \<Rightarrow> u8 \<Rightarrow> u8 list \<Rightarrow> nat \<Rightarrow> (u8 option \<times> nat) option" where
  "gethex_loop 0 d buf p = Some (Some d, p)"
| "gethex_loop (Suc n) d buf p =
     do { ch \<leftarrow> arr_get buf p;
          (case hex_digit ch of
             None \<Rightarrow> Some (None, p)
           | Some v \<Rightarrow> gethex_loop n (push_bit 4 d + v) buf (p + 1)) }"

definition gethex :: "u8 list \<Rightarrow> nat \<Rightarrow> u8 \<Rightarrow> (u8 \<times> nat \<times> u8) option" where
  "gethex buf p cs =
     do { (r, p) \<leftarrow> gethex_loop 2 0 buf p;
          Some (case r of None \<Rightarrow> (0, p, cs) | Some d \<Rightarrow> (d, p, cs + d)) }"

text \<open>The loop over the data: \<open>k\<close> is \<open>pdata\<close>, which runs through the same buffer.\<close>

fun ihex_decode :: "nat \<Rightarrow> u8 list \<Rightarrow> nat \<Rightarrow> nat \<Rightarrow> u8 \<Rightarrow> (u8 list \<times> nat \<times> u8) option" where
  "ihex_decode 0 buf p k cs = Some (buf, p, cs)"
| "ihex_decode (Suc n) buf p k cs =
     do { (d, p, cs) \<leftarrow> gethex buf p cs;
          buf \<leftarrow> arr_set buf k d;
          ihex_decode n buf p (k + 1) cs }"

text \<open>
  A record up to the test of its checksum: the buffer with the decoded data at its start, and the
  address, length and type, or \<open>None\<close> for a record that is refused.
\<close>

definition ihex_record :: "u8 list \<Rightarrow> (u8 list \<times> (u32 \<times> u8 \<times> u8) option) option" where
  "ihex_record buf =
     do { c \<leftarrow> arr_get buf 0;
          if c \<noteq> 58 then Some (buf, None)
          else do {
            s \<leftarrow> c_str (drop 1 buf);
            let l = (of_nat (length s) :: u8);
            if l < 8 then Some (buf, None)
            else do {
              (llen, p, cs) \<leftarrow> gethex buf 1 0;
              (a1, p, cs) \<leftarrow> gethex buf p cs;
              (a0, p, cs) \<leftarrow> gethex buf p cs;
              (type, p, cs) \<leftarrow> gethex buf p cs;
              if unat l - 8 < 2 * unat llen then Some (buf, None)
              else do {
                (buf, p, cs) \<leftarrow> ihex_decode (unat llen) buf p 0 cs;
                (_, _, cs) \<leftarrow> gethex buf p cs;
                if cs \<noteq> 0 then Some (buf, None)
                else Some (buf, Some (push_bit 8 (ucast a1) OR ucast a0, llen, type)) }}}}"

text \<open>The high word of an address from the first two bytes of the buffer.\<close>

definition ihex_hiword :: "u8 list \<Rightarrow> nat \<Rightarrow> u32 option" where
  "ihex_hiword buf n =
     do { b0 \<leftarrow> arr_get buf 0; b1 \<leftarrow> arr_get buf 1;
          Some (push_bit n (push_bit 8 (ucast b0) + ucast b1)) }"

text \<open>The state of the bootloader's parser: the static \<open>addr_hiword\<close> and the external flash.\<close>

record 'f ihex =
  ih_hiword :: u32
  ih_ext :: "'f storage"

definition ihex_parse :: "'f ihex \<Rightarrow> u8 list \<Rightarrow> (u8 list \<times> 'f ihex \<times> bool) option" where
  "ihex_parse st src =
     do { (buf, r) \<leftarrow> ihex_record src;
          (case r of
             None \<Rightarrow> Some (buf, st, False)
           | Some (addr, llen, type) \<Rightarrow>
               if type = 0 then
                 (let (ext, ok) = ext_storage_write_data (ih_ext st) (ih_hiword st + addr) (take (unat llen) buf)
                  in Some (buf, st\<lparr>ih_ext := ext\<rparr>, ok))
               else if type = 1 then
                 Some (buf, st\<lparr>ih_hiword := 0, ih_ext := storage_flush_cache (ih_ext st)\<rparr>, True)
               else if type = 2 then
                 do { h \<leftarrow> ihex_hiword buf 4; Some (buf, st\<lparr>ih_hiword := h\<rparr>, True) }
               else if type = 4 then
                 do { h \<leftarrow> ihex_hiword buf 16; Some (buf, st\<lparr>ih_hiword := h\<rparr>, True) }
               else Some (buf, st, False)) }"

subsection \<open>The host tools\<close>

text \<open>
  The tools hand the data of a record to a callback \<open>parser\<close> with a state of its own
  (\<open>None\<close>: not set); the parser is otherwise the same, and knows the type 5.
\<close>

record 's ut_ihex =
  ut_hiword :: u32
  ut_state :: 's

definition ut_ihex_parse :: "('s \<Rightarrow> u32 \<Rightarrow> u8 list \<Rightarrow> 's \<times> bool) option \<Rightarrow> 's ut_ihex \<Rightarrow> u8 list
    \<Rightarrow> (u8 list \<times> 's ut_ihex \<times> bool) option" where
  "ut_ihex_parse parser st src =
     do { (buf, r) \<leftarrow> ihex_record src;
          (case r of
             None \<Rightarrow> Some (buf, st, False)
           | Some (addr, llen, type) \<Rightarrow>
               if type = 0 then
                 Some (case parser of
                         None \<Rightarrow> (buf, st, False)
                       | Some f \<Rightarrow> (let (s, ok) = f (ut_state st) (ut_hiword st + addr) (take (unat llen) buf)
                                   in (buf, st\<lparr>ut_state := s\<rparr>, ok)))
               else if type = 1 then Some (buf, st\<lparr>ut_hiword := 0\<rparr>, True)
               else if type = 2 then
                 do { h \<leftarrow> ihex_hiword buf 4; Some (buf, st\<lparr>ut_hiword := h\<rparr>, True) }
               else if type = 4 then
                 do { h \<leftarrow> ihex_hiword buf 16; Some (buf, st\<lparr>ut_hiword := h\<rparr>, True) }
               else if type = 5 then Some (buf, st, True)
               else Some (buf, st, False)) }"

text \<open>\<open>%02X\<close>, \<open>%04X\<close>, and the last byte of a record, \<open>(0x100 - sum) & 0xFF\<close>.\<close>

definition hex2 :: "nat \<Rightarrow> u8 list" where
  "hex2 n = pad0 2 (show_hex n)"

definition hex4 :: "nat \<Rightarrow> u8 list" where
  "hex4 n = pad0 4 (show_hex n)"

definition ihex_chk :: "u8 \<Rightarrow> nat" where
  "ihex_chk cs = nat ((256 - uint cs) mod 256)"

text \<open>The printed lines, without their line ends; \<open>hi\<close> is the static \<open>hi_word\<close>.\<close>

definition update_addr :: "u32 \<Rightarrow> u32 \<Rightarrow> u8 list list \<times> u32" where
  "update_addr hi addr =
     (if drop_bit 16 addr = hi then ([], hi)
      else let hi = drop_bit 16 addr;
               cs = 0x02 + 0x04 + ucast (hi AND 0xFF) + ucast (drop_bit 8 hi AND 0xFF)
           in ([str '':02000004'' @ hex4 (unat hi) @ hex2 (ihex_chk cs)], hi))"

definition ihex_line :: "u32 \<Rightarrow> u8 list \<Rightarrow> u8 list" where
  "ihex_line addr data =
     (let cs = of_nat (length data) + ucast (addr AND 0xFF) + ucast (drop_bit 8 addr AND 0xFF) + sum_list data
      in str '':'' @ hex2 (length data) @ hex4 (unat (addr AND 0xFFFF)) @ str ''00''
         @ concat (map (\<lambda>b. hex2 (unat b)) data) @ hex2 (ihex_chk cs))"

function ihex_flush :: "u32 \<Rightarrow> u32 \<Rightarrow> u8 list \<Rightarrow> u8 list list \<times> u32" where
  "ihex_flush hi addr data =
     (if data = [] then ([], hi)
      else let l = (if length data > 16 then 16 else length data);
               (pre, hi) = update_addr hi addr;
               (rest, hi) = ihex_flush hi (addr + of_nat l) (drop l data)
           in (pre @ ihex_line addr (take l data) # rest, hi))"
  by pat_completeness auto
termination by (relation "measure (\<lambda>(hi, addr, data). length data)") auto

declare ihex_flush.simps [simp del]

subsection \<open>The parser stays inside its buffer\<close>

lemma gethex_loop_safe:
  assumes "z < length buf" "buf ! z = 0"
  shows "p \<le> z \<Longrightarrow> \<exists>r p'. gethex_loop n d buf p = Some (r, p') \<and> p \<le> p' \<and> p' \<le> z"
proof (induction n arbitrary: d p)
  case (Suc n)
  have z: "hex_digit 0 = None" by (simp add: hex_digit_def)
  show ?case
  proof (cases "hex_digit (buf ! p)")
    case (Some v)
    then have "p < z" using z assms(2) Suc.prems by (cases "p = z") auto
    then obtain r p' where "gethex_loop n (push_bit 4 d + v) buf (p + 1) = Some (r, p')" "p + 1 \<le> p'" "p' \<le> z"
      using Suc.IH [of "p + 1" "push_bit 4 d + v"] by auto
    then show ?thesis using Some Suc.prems assms(1) by simp
  qed (use Suc.prems assms in simp)
qed simp

lemma gethex_safe:
  assumes "z < length buf" "buf ! z = 0" "p \<le> z"
  shows "\<exists>d p' cs'. gethex buf p cs = Some (d, p', cs') \<and> p \<le> p' \<and> p' \<le> z"
  using gethex_loop_safe [OF assms, of 2 0] by (auto simp: gethex_def split: option.splits)

lemma ihex_decode_safe:
  assumes "z < length buf" "buf ! z = 0" "p \<le> z" "k + n \<le> z"
  shows "\<exists>buf' p' cs'. ihex_decode n buf p k cs = Some (buf', p', cs') \<and> p' \<le> z
     \<and> length buf' = length buf \<and> drop z buf' = drop z buf"
  using assms
proof (induction n arbitrary: buf p k cs)
  case (Suc n)
  obtain d p' cs' where g: "gethex buf p cs = Some (d, p', cs')" "p' \<le> z"
    using gethex_safe [OF Suc.prems(1,2,3)] by blast
  have k: "k < z" using Suc.prems(4) by simp
  then show ?case
    using g Suc.IH [of "buf[k := d]" p' "k + 1" cs'] Suc.prems by auto
qed auto

lemma c_str_zero:
  assumes "c_str bs = Some s"
  shows "length s < length bs" "bs ! length s = 0"
proof -
  have z: "0 \<in> set bs" and s: "s = takeWhile (\<lambda>b. b \<noteq> 0) bs"
    using assms by (auto simp: c_str_def split: if_splits)
  show "length s < length bs" using z unfolding s by (induction bs) auto
  then show "bs ! length s = 0" using nth_length_takeWhile [of "\<lambda>b. b \<noteq> 0" bs] unfolding s by simp
qed

lemma ihex_record_safe:
  assumes "c_str src = Some s"
  shows "\<exists>buf r. ihex_record src = Some (buf, r) \<and> length buf = length src \<and> drop (length s) buf = drop (length s) src
     \<and> (r \<noteq> None \<longrightarrow> 9 \<le> length s)"
proof (cases "src ! 0 = 58")
  case False
  then show ?thesis using assms by (cases src) (auto simp: ihex_record_def c_str_def)
next
  case True
  obtain src' where src: "src = 58 # src'" using True assms by (cases src) (auto simp: c_str_def)
  define z where "z = length s"
  have s: "s = 58 # tl s" "c_str src' = Some (tl s)" using assms by (auto simp: src c_str_def split: if_splits)
  then have z1: "1 \<le> z" "length (tl s) = z - 1" by (simp_all add: z_def) (metis length_Cons Suc_le_mono le0)
  have z: "z < length src" "src ! z = 0" using c_str_zero [OF assms] by (simp_all add: z_def)
  define l :: u8 where "l = of_nat (z - 1)"
  show ?thesis
  proof (cases "l < 8")
    case True
    then show ?thesis using s z1 by (auto simp: ihex_record_def src l_def Let_def)
  next
    case False
    then have l8: "8 \<le> unat l" by (simp add: word_less_nat_alt)
    have lz: "unat l \<le> z - 1" by (simp add: l_def unsigned_of_nat take_bit_nat_less_eq_self)
    obtain n p1 c1 where g1: "gethex src 1 0 = Some (n, p1, c1)" "p1 \<le> z" using gethex_safe [OF z z1(1), of 0] by blast
    obtain a1 p2 c2 where g2: "gethex src p1 c1 = Some (a1, p2, c2)" "p2 \<le> z" using gethex_safe [OF z g1(2), of c1] by blast
    obtain a0 p3 c3 where g3: "gethex src p2 c2 = Some (a0, p3, c3)" "p3 \<le> z" using gethex_safe [OF z g2(2), of c2] by blast
    obtain t p4 c4 where g4: "gethex src p3 c3 = Some (t, p4, c4)" "p4 \<le> z" using gethex_safe [OF z g3(2), of c3] by blast
    have start: "ihex_record src = (if unat l - 8 < 2 * unat n then Some (src, None)
       else do { (buf, p, cs) \<leftarrow> ihex_decode (unat n) src p4 0 c4; (_, _, cs) \<leftarrow> gethex buf p cs;
            if cs \<noteq> 0 then Some (buf, None)
            else Some (buf, Some (push_bit 8 (ucast a1) OR ucast a0, n, t)) })"
      using g1(1) g2(1) g3(1) g4(1) False s z1(2) by (simp add: ihex_record_def src l_def Let_def)
    show ?thesis
    proof (cases "unat l - 8 < 2 * unat n")
      case False
      then have "0 + unat n \<le> z" using lz by simp
      from ihex_decode_safe [OF z g4(2) this, of c4] obtain buf p5 c5
        where d: "ihex_decode (unat n) src p4 0 c4 = Some (buf, p5, c5)" "p5 \<le> z" "length buf = length src"
          "drop z buf = drop z src" by blast
      have "z < length buf" "buf ! z = 0"
        using z d(3,4) by (simp_all) (metis hd_drop_conv_nth)
      from gethex_safe [OF this d(2), of c5] obtain x p6 c6 where "gethex buf p5 c5 = Some (x, p6, c6)" by blast
      then show ?thesis using start False d l8 lz by (auto simp: z_def)
    qed (use start in auto)
  qed
qed

lemma ihex_hiword_Some: "2 \<le> length buf \<Longrightarrow> \<exists>h. ihex_hiword buf n = Some h"
  by (auto simp: ihex_hiword_def arr_get_def)

subsection \<open>Records as the tools print them\<close>

lemma hex_digit_char:
  assumes "d < 16"
  shows "hex_digit (hex_char d) = Some (of_nat d)"
proof -
  have "d = 0 \<or> d = 1 \<or> d = 2 \<or> d = 3 \<or> d = 4 \<or> d = 5 \<or> d = 6 \<or> d = 7 \<or> d = 8 \<or> d = 9 \<or> d = 10
     \<or> d = 11 \<or> d = 12 \<or> d = 13 \<or> d = 14 \<or> d = 15" using assms by arith
  then show ?thesis by (elim disjE) (simp_all add: hex_char_def hex_digit_def)
qed

lemma hex2_chars: "n < 256 \<Longrightarrow> hex2 n = [hex_char (n div 16), hex_char (n mod 16)]"
  by (cases "n < 16") (simp_all add: hex2_def pad0_def show_hex.simps [of n] show_hex.simps [of "n div 16"]
      hex_char_def less_mult_imp_div_less)

definition hexes :: "u8 list \<Rightarrow> u8 list" where
  "hexes bs = concat (map (\<lambda>b. hex2 (unat b)) bs)"

lemma length_hex2 [simp]: "length (hex2 (unat (b :: u8))) = 2"
  by (simp add: hex2_chars)

lemma hexes_simps [simp]:
  "hexes [] = []" "hexes (b # bs) = hex2 (unat b) @ hexes bs" "hexes (bs @ cs) = hexes bs @ hexes cs"
  "length (hexes bs) = 2 * length bs"
  by (simp_all add: hexes_def) (induction bs, simp_all)

lemma hexes_nonzero: "0 \<notin> set (hexes bs)"
proof (induction bs)
  case (Cons b bs)
  have "unat b div 16 < 16" using unat_u8_less [of b] by (simp add: less_mult_imp_div_less del: unat_u8_less)
  then have "hex_char (unat b div 16) \<noteq> 0" "hex_char (unat b mod 16) \<noteq> 0" by (simp_all add: hex_char_plain(6))
  then show ?case using Cons by (auto simp: hex2_chars)
qed simp

text \<open>\<open>hex_at buf p bs\<close>: the buffer spells the bytes \<open>bs\<close> from position \<open>p\<close>.\<close>

definition hex_at :: "u8 list \<Rightarrow> nat \<Rightarrow> u8 list \<Rightarrow> bool" where
  "hex_at buf p bs \<longleftrightarrow> (\<exists>r. drop p buf = hexes bs @ r)"

lemma hex_at_Cons:
  assumes "hex_at buf p (b # bs)"
  shows "gethex buf p cs = Some (b, p + 2, cs + b)" "hex_at buf (p + 2) bs"
proof -
  define n where "n = unat b"
  have n: "n < 256" "n div 16 < 16" "n mod 16 < 16"
    using unat_u8_less [of b] by (simp_all add: n_def less_mult_imp_div_less del: unat_u8_less)
  obtain r where d: "drop p buf = hex_char (n div 16) # hex_char (n mod 16) # hexes bs @ r"
    using assms n(1) by (auto simp: hex_at_def hex2_chars n_def [symmetric])
  then have l: "p < length buf" "p + 1 < length buf"
    by (metis drop_all list.distinct(1) not_le, metis One_nat_def Suc_eq_plus1 drop_Suc drop_eq_Nil list.distinct(1) list.sel(3) not_le tl_drop)
  have c: "buf ! p = hex_char (n div 16)" "buf ! (p + 1) = hex_char (n mod 16)"
    using d l nth_drop [of p buf 0] nth_drop [of p buf 1] by simp_all
  have "push_bit 4 (of_nat (n div 16)) + of_nat (n mod 16) = (of_nat (16 * (n div 16) + n mod 16) :: u8)"
    unfolding of_nat_add of_nat_mult by (simp add: push_bit_eq_mult)
  also have "\<dots> = b" by (simp add: n_def)
  finally show "gethex buf p cs = Some (b, p + 2, cs + b)"
    using l c n by (simp add: gethex_def numeral_2_eq_2 hex_digit_char)
  show "hex_at buf (p + 2) bs"
  proof -
    have "drop (p + 2) buf = drop 2 (drop p buf)" by (simp add: add.commute)
    then show ?thesis unfolding d hex_at_def by simp
  qed
qed

lemma hex_at_next:
  assumes "hex_at buf p (b # bs)" "q = p + 2"
  shows "gethex buf p cs = Some (b, q, cs + b)" "hex_at buf q bs"
  using hex_at_Cons [OF assms(1)] assms(2) by simp_all

lemma hex_at_update: "k < p \<Longrightarrow> hex_at (buf[k := x]) p bs = hex_at buf p bs"
  by (simp add: hex_at_def)

lemma ihex_decode_hexes:
  "hex_at buf p (bs @ cs) \<Longrightarrow> k \<le> p \<Longrightarrow> p < length buf \<Longrightarrow>
   \<exists>buf'. ihex_decode (length bs) buf p k c = Some (buf', p + 2 * length bs, c + sum_list bs)
     \<and> hex_at buf' (p + 2 * length bs) cs \<and> take (k + length bs) buf' = take k buf @ bs"
proof (induction bs arbitrary: buf p k c)
  case (Cons b bs)
  have g: "gethex buf p c = Some (b, p + 2, c + b)" "hex_at buf (p + 2) (bs @ cs)"
    using hex_at_Cons [of buf p b "bs @ cs"] Cons.prems(1) by simp_all
  have k: "k < length buf" "k < p + 2" "k + 1 \<le> p + 2" using Cons.prems by auto
  show ?case
  proof (cases "bs @ cs = []")
    case True
    then show ?thesis using g k by (simp add: take_Suc_conv_app_nth hex_at_update)
  next
    case False
    have "p + 2 < length buf"
    proof (rule ccontr)
      assume "\<not> p + 2 < length buf"
      then have "hexes (bs @ cs) = []" using g(2) by (simp add: hex_at_def)
      then have "2 * length (bs @ cs) = 0" by (metis hexes_simps(4) list.size(3))
      then show False using False by simp
    qed
    then obtain buf' where d: "ihex_decode (length bs) (buf[k := b]) (p + 2) (k + 1) (c + b)
         = Some (buf', p + 2 + 2 * length bs, c + b + sum_list bs)"
      "hex_at buf' (p + 2 + 2 * length bs) cs" "take (k + 1 + length bs) buf' = take (k + 1) (buf[k := b]) @ bs"
      using Cons.IH [of "buf[k := b]" "p + 2" "k + 1" "c + b"] g(2) k by (auto simp: hex_at_update)
    moreover have "take (k + 1) (buf[k := b]) = take k buf @ [b]"
      using k(1) by (simp add: take_Suc_conv_app_nth)
    ultimately show ?thesis using g(1) k(1) by (simp add: ac_simps)
  qed
qed simp

text \<open>A record with the right length and sum is decoded.\<close>

lemma ihex_record_hexes:
  assumes len: "length bs \<le> 122" and c: "of_nat (length bs) + a1 + a0 + t + sum_list bs + chk = 0"
  shows "\<exists>buf. ihex_record (58 # hexes ([of_nat (length bs), a1, a0, t] @ bs @ [chk]) @ [0])
       = Some (buf, Some (push_bit 8 (ucast a1) OR ucast a0, of_nat (length bs), t)) \<and> take (length bs) buf = bs"
proof -
  define n where "n = length bs"
  define h where "h = hexes ([of_nat n, a1, a0, t] @ bs @ [chk])"
  define src where "src = 58 # h @ [0]"
  have un: "unat (of_nat n :: u8) = n" using len by (simp add: n_def)
  have lh: "length h = 10 + 2 * n" by (simp add: h_def n_def)
  have s: "c_str (drop 1 src) = Some h" by (simp add: src_def c_str_append hexes_nonzero h_def del: hexes_simps)
  have l: "unat (of_nat (length h) :: u8) = 10 + 2 * n" unfolding lh by (rule unat_of_nat_u8) (use len n_def in linarith)
  have h1: "hex_at src 1 (of_nat n # a1 # a0 # t # bs @ [chk])" by (auto simp: hex_at_def src_def h_def)
  have h3: "hex_at src 3 (a1 # a0 # t # bs @ [chk])" by (rule hex_at_next(2) [OF h1]) simp
  have h5: "hex_at src 5 (a0 # t # bs @ [chk])" by (rule hex_at_next(2) [OF h3]) simp
  have h7: "hex_at src 7 (t # bs @ [chk])" by (rule hex_at_next(2) [OF h5]) simp
  have d: "hex_at src 9 (bs @ [chk])" by (rule hex_at_next(2) [OF h7]) simp
  have g: "gethex src 1 0 = Some (of_nat n, 3, of_nat n)"
      "gethex src 3 (of_nat n) = Some (a1, 5, of_nat n + a1)"
      "gethex src 5 (of_nat n + a1) = Some (a0, 7, of_nat n + a1 + a0)"
      "gethex src 7 (of_nat n + a1 + a0) = Some (t, 9, of_nat n + a1 + a0 + t)"
    using hex_at_next(1) [OF h1, of 3 0] hex_at_next(1) [OF h3, of 5] hex_at_next(1) [OF h5, of 7] hex_at_next(1) [OF h7, of 9]
    by simp_all
  have "9 < length src" by (simp add: src_def lh)
  then obtain buf where b: "ihex_decode n src 9 0 (of_nat n + a1 + a0 + t)
       = Some (buf, 9 + 2 * n, of_nat n + a1 + a0 + t + sum_list bs)"
    "hex_at buf (9 + 2 * n) [chk]" "take n buf = bs"
    using ihex_decode_hexes [of src 9 bs "[chk]" 0 "of_nat n + a1 + a0 + t"] d len by (auto simp: n_def)
  have e: "gethex buf (9 + 2 * n) (of_nat n + a1 + a0 + t + sum_list bs) = Some (chk, 11 + 2 * n, 0)"
    using hex_at_Cons(1) [OF b(2), of "of_nat n + a1 + a0 + t + sum_list bs"] c by (simp add: n_def)
  have "(of_nat (length h) :: u8) \<ge> 8" using l by (simp add: word_le_nat_alt)
  then have "ihex_record src = Some (buf, Some (push_bit 8 (ucast a1) OR ucast a0, of_nat n, t))"
    using s l g b(1) e un by (simp add: ihex_record_def src_def Let_def not_less)
  then show ?thesis using b(3) by (auto simp: src_def h_def n_def)
qed

text \<open>C37: the parser never leaves its buffer: for every terminated text, hexadecimal or not, of any length,
  \<open>ihex_parse\<close> returns, and the bytes from the terminator on are what they were.\<close>

theorem ihex_parse_in_bounds:
  assumes "c_str src = Some s"
  shows "\<exists>buf st' ok. ihex_parse st src = Some (buf, st', ok)
     \<and> length buf = length src \<and> drop (length s) buf = drop (length s) src"
proof -
  obtain buf r where b: "ihex_record src = Some (buf, r)" "length buf = length src"
    "drop (length s) buf = drop (length s) src" "r \<noteq> None \<longrightarrow> 9 \<le> length s"
    using ihex_record_safe [OF assms] by blast
  have h: "\<exists>h. ihex_hiword buf n = Some h" if "r \<noteq> None" for n
    using b(2,4) that c_str_zero(1) [OF assms] by (intro ihex_hiword_Some) simp
  show ?thesis
  proof (cases r)
    case (Some x)
    obtain addr n t where x: "x = (addr, n, t)" by (cases x)
    show ?thesis using b h [of 4] h [of 16] by (auto simp: ihex_parse_def Some x split: prod.splits)
  qed (use b in \<open>auto simp: ihex_parse_def\<close>)
qed

theorem ihex_parse_in_bounds_witness:
  "\<exists>buf st' ok. ihex_parse \<lparr>ih_hiword = 0, ih_ext = ram_storage (\<lambda>_. 0)\<rparr> (str '':zz-nonsense'' @ [0]) = Some (buf, st', ok)
     \<and> last buf = 0"
proof -
  have "c_str (str '':zz-nonsense'' @ [0]) = Some (str '':zz-nonsense'')"
    by (rule c_str_append) (simp add: str_def)
  from ihex_parse_in_bounds [OF this, of "\<lparr>ih_hiword = 0, ih_ext = ram_storage (\<lambda>_. 0)\<rparr>"]
  obtain buf st' ok where "ihex_parse \<lparr>ih_hiword = 0, ih_ext = ram_storage (\<lambda>_. 0)\<rparr> (str '':zz-nonsense'' @ [0]) = Some (buf, st', ok)"
    and d: "drop (length (str '':zz-nonsense'')) buf = [0]" by auto
  moreover have "last buf = 0" using d last_drop [of "length (str '':zz-nonsense'')" buf]
    by (metis drop_eq_Nil last.simps list.distinct(1) not_le)
  ultimately show ?thesis by blast
qed

end
