(* ===== verification/IhexTransfer.thy ===== *)
theory IhexTransfer
  imports Ihex
begin

text \<open>
  A transfer: the records the host tools print, read by the bootloader's parser, write the data to
  the firmware region.
\<close>

unbundle bit_operations_syntax

subsection \<open>Printed records as bytes\<close>

lemma pad0_show_hex:
  assumes "0 < w"
  shows "pad0 (Suc w) (show_hex n) = pad0 w (show_hex (n div 16)) @ [hex_char (n mod 16)]"
proof (cases "n < 16")
  case True
  obtain v where "w = Suc v" using assms by (cases w) auto
  then show ?thesis using True by (simp add: pad0_def show_hex.simps [of n] show_hex.simps [of 0] hex_char_def replicate_append_same)
next
  case False
  then show ?thesis by (simp add: pad0_def show_hex.simps [of n])
qed

lemma hex2_byte: "n < 256 \<Longrightarrow> hex2 n = hexes [of_nat n]"
  by simp

lemma hex4_bytes:
  assumes "n < 65536"
  shows "hex4 n = hexes [of_nat (n div 256), of_nat (n mod 256)]"
proof -
  have d: "n div 256 < 256" "n div 256 div 16 < 16" using assms by (simp_all add: less_mult_imp_div_less)
  have "hex4 n = pad0 2 (show_hex (n div 256)) @ [hex_char (n div 16 mod 16), hex_char (n mod 16)]"
  proof -
    have "Suc 3 = (4 :: nat)" "Suc 2 = (3 :: nat)" "n div 16 div 16 = n div 256" by (simp_all add: div_mult2_eq [of n 16 16, simplified])
    then show ?thesis
      using pad0_show_hex [of 3 n] pad0_show_hex [of 2 "n div 16"] unfolding hex4_def by simp
  qed
  moreover have "hex2 (n mod 256) = [hex_char (n mod 256 div 16), hex_char (n mod 256 mod 16)]"
    by (rule hex2_chars) simp
  moreover have "n mod 256 div 16 = n div 16 mod 16" "n mod 256 mod 16 = n mod 16"
    by (simp_all add: mod_mult2_eq [of n 16 16, simplified] mod_mod_cancel)
  ultimately show ?thesis using d(1) unfolding hex2_def [symmetric] by simp
qed

lemma ihex_chk_sum: "(of_nat (ihex_chk c) :: u8) = - c" "ihex_chk c < 256"
proof -
  have "int (ihex_chk c) = uint (- c)" by (simp add: ihex_chk_def uint_word_ariths)
  then show "(of_nat (ihex_chk c) :: u8) = - c" by (metis of_int_of_nat_eq word_of_int_uint)
  show "ihex_chk c < 256" by (simp add: ihex_chk_def nat_less_iff)
qed

definition hi8 :: "u32 \<Rightarrow> u8" where "hi8 x = ucast (drop_bit 8 x)"
definition lo8 :: "u32 \<Rightarrow> u8" where "lo8 x = ucast x"

lemma hi8_lo8: "push_bit 8 (ucast (hi8 x)) OR ucast (lo8 x) = x AND 0xFFFF"
proof -
  have m: "(0xFFFF :: u32) = mask 16" by (simp add: mask_eq_exp_minus_1)
  show ?thesis
    unfolding m by (rule bit_word_eqI) (auto simp: hi8_def lo8_def bit_simps)
qed

lemma and_ff: "ucast (x AND 0xFF) = lo8 x" "ucast (drop_bit 8 x AND 0xFF) = hi8 x"
proof -
  have m: "(0xFF :: u32) = mask 8" by (simp add: mask_eq_exp_minus_1)
  show "ucast (x AND 0xFF) = lo8 x" "ucast (drop_bit 8 x AND 0xFF) = hi8 x"
    unfolding m by (intro bit_word_eqI; auto simp: hi8_def lo8_def bit_simps)+
qed

lemma hex4_word:
  assumes "unat x < 65536"
  shows "hex4 (unat x) = hexes [hi8 x, lo8 x]"
proof -
  have "(of_nat (unat x div 256) :: u8) = hi8 x"
    by (rule word_unat_eq_iff [THEN iffD2])
      (simp add: hi8_def unsigned_ucast_eq unsigned_take_bit_eq take_bit_eq_mod unsigned_of_nat unat_drop_bit_eq drop_bit_eq_div
        unat_div del: inj_unat_word)
  moreover have "(of_nat (unat x mod 256) :: u8) = lo8 x"
    by (rule word_unat_eq_iff [THEN iffD2])
      (simp add: lo8_def unsigned_ucast_eq unsigned_take_bit_eq take_bit_eq_mod unsigned_of_nat del: inj_unat_word)
  ultimately show ?thesis using hex4_bytes [OF assms] by simp
qed

lemma ihex_line_hexes:
  assumes "length data < 256"
  shows "ihex_line addr data = 58 # hexes ([of_nat (length data), hi8 addr, lo8 addr, 0] @ data
     @ [- (of_nat (length data) + lo8 addr + hi8 addr + sum_list data)])"
proof -
  have "unat (addr AND 0xFFFF) < 65536"
  proof -
    have "addr AND 0xFFFF = take_bit 16 addr" by (simp add: take_bit_eq_mask mask_eq_exp_minus_1)
    then show ?thesis by (simp add: take_bit_eq_mod unat_mod)
  qed
  moreover have "hi8 (addr AND 0xFFFF) = hi8 addr" "lo8 (addr AND 0xFFFF) = lo8 addr"
  proof -
    have m: "(0xFFFF :: u32) = mask 16" by (simp add: mask_eq_exp_minus_1)
    show "hi8 (addr AND 0xFFFF) = hi8 addr" "lo8 (addr AND 0xFFFF) = lo8 addr"
      unfolding m by (intro bit_word_eqI; auto simp: hi8_def lo8_def bit_simps)+
  qed
  moreover have "str '':'' = [58]" "str ''00'' = hexes [0]"
    by (simp_all add: str_def hex2_chars hex_char_def)
  ultimately show ?thesis
    using hex2_byte [OF assms] hex4_word [of "addr AND 0xFFFF"] hex2_byte [OF ihex_chk_sum(2)]
    unfolding ihex_line_def Let_def and_ff(2) by (simp add: and_ff(1) ihex_chk_sum(1) hexes_def)
qed

lemma update_addr_hexes:
  assumes "drop_bit 16 addr \<noteq> hi"
  shows "update_addr hi addr = ([58 # hexes ([2, 0, 0, 4] @ [hi8 (drop_bit 16 addr), lo8 (drop_bit 16 addr)]
     @ [- (6 + lo8 (drop_bit 16 addr) + hi8 (drop_bit 16 addr))])], drop_bit 16 addr)"
proof -
  have "unat (drop_bit 16 addr) < 65536"
    using unsigned_less [of addr, where 'a = nat] by (simp add: unat_div drop_bit_eq_div less_mult_imp_div_less)
  moreover have "str '':02000004'' = 58 # hexes [2, 0, 0, 4]"
    by (simp add: str_def hex2_chars hex_char_def)
  ultimately show ?thesis
    using assms hex4_word [of "drop_bit 16 addr"] hex2_byte [OF ihex_chk_sum(2)]
    unfolding update_addr_def Let_def and_ff(2) by (simp add: and_ff(1) ihex_chk_sum(1))
qed

subsection \<open>Feeding the records to the bootloader\<close>

fun ihex_feed :: "'f ihex \<Rightarrow> u8 list list \<Rightarrow> ('f ihex \<times> bool list) option" where
  "ihex_feed st [] = Some (st, [])"
| "ihex_feed st (l # ls) =
     do { (_, st, ok) \<leftarrow> ihex_parse st (l @ [0]);
          (st, oks) \<leftarrow> ihex_feed st ls;
          Some (st, ok # oks) }"

lemma ihex_feed_append:
  "ihex_feed st ls = Some (st', oks) \<Longrightarrow> ihex_feed st' ls' = Some (st'', oks') \<Longrightarrow>
   ihex_feed st (ls @ ls') = Some (st'', oks @ oks')"
  by (induction ls arbitrary: st oks) (auto simp: bind_eq_Some_conv)

text \<open>A device on which the bootloader may write its firmware region.\<close>

definition fw_dev_ok :: "('f \<Rightarrow> nat \<Rightarrow> u8) \<Rightarrow> 'f flash \<Rightarrow> bool" where
  "fw_dev_ok mem d \<longleftrightarrow> flash_lawful mem d \<and> flash_reliable d
     \<and> (\<forall>s. snd (fl_init d s) \<and> mem (fst (fl_init d s)) = mem s)"

definition fw_device :: "('f \<Rightarrow> nat \<Rightarrow> u8) \<Rightarrow> 'f storage \<Rightarrow> bool" where
  "fw_device mem st \<longleftrightarrow> st_ready st \<and> fw_dev_ok mem (st_dev st)"

lemma st_same_fw_dev: "st_same st st' \<Longrightarrow> fw_dev_ok mem (st_dev st') = fw_dev_ok mem (st_dev st)"
  by (auto simp: st_same_def fw_dev_ok_def flash_reliable_def)

lemma st_same_fw_device: "st_same st st' \<Longrightarrow> fw_device mem st' = fw_device mem st"
  by (simp add: fw_device_def st_same_fw_dev) (simp add: st_same_def)

lemma ram_fw_device [simp]: "fw_device id (ram_storage m)"
  by (simp add: fw_device_def fw_dev_ok_def) (simp add: ram_flash_def)

definition fw_wrote :: "('f \<Rightarrow> nat \<Rightarrow> u8) \<Rightarrow> 'f storage \<Rightarrow> nat \<Rightarrow> u8 list \<Rightarrow> 'f storage \<Rightarrow> bool" where
  "fw_wrote mem st a data st' \<longleftrightarrow> fw_device mem st' \<and> st_bytes mem st' a (length data) = data
     \<and> (\<forall>i. i < a \<or> a + length data \<le> i \<longrightarrow> st_mem mem st' i = st_mem mem st i)"

lemma fw_wrote_append:
  assumes "fw_wrote mem st a x st1" "fw_wrote mem st1 (a + length x) y st2"
  shows "fw_wrote mem st a (x @ y) st2"
proof -
  have "st_bytes mem st2 a (length x) = st_bytes mem st1 a (length x)"
    using assms(2) by (intro st_bytes_cong) (simp add: fw_wrote_def)
  moreover have "st_bytes mem st2 a (length (x @ y)) = st_bytes mem st2 a (length x) @ st_bytes mem st2 (a + length x) (length y)"
    by (rule nth_equalityI) (auto simp: st_bytes_def nth_append)
  ultimately show ?thesis using assms by (simp add: fw_wrote_def)
qed

lemma ext_storage_write_law:
  assumes "fw_device mem st" "0x3C0000 \<le> unat addr" "unat addr + length data \<le> 0x400000"
  shows "\<exists>st'. ext_storage_write_data st addr data = (st', True) \<and> fw_wrote mem st (unat addr) data st'"
proof -
  have fl: "flash_lawful mem (st_dev st)" "flash_reliable (st_dev st)" "st_ready st"
    using assms(1) by (simp_all add: fw_device_def fw_dev_ok_def)
  have "unat (addr + of_nat (length data)) = unat addr + length data"
    using region_sum [of addr "length data" "0x400000"] assms(3) by simp
  then have "ext_storage_write_data st addr data = dev_write st addr data"
    using fl(3) assms(2,3) by (simp add: ext_storage_write_data_def word_less_nat_alt)
  moreover obtain st' r where w: "dev_write st addr data = (st', r)" by fastforce
  moreover have r using w fl(2) assms(3)
    by (auto simp: dev_write_def flash_write_data_def flash_reliable_def split: prod.splits) (metis snd_conv)
  ultimately show ?thesis
    using dev_write_law [OF fl(1) _ w] st_same_fw_device [of st st' mem] assms(1,3) by (auto simp: fw_wrote_def)
qed

lemma hiword_join: "push_bit 16 (drop_bit 16 addr) + (push_bit 8 (ucast (hi8 addr)) OR ucast (lo8 addr)) = addr" for addr :: u32
proof -
  have m: "(0xFFFF :: u32) = mask 16" by (simp add: mask_eq_exp_minus_1)
  have "push_bit 16 (drop_bit 16 addr) + (addr AND 0xFFFF) = push_bit 16 (drop_bit 16 addr) OR (addr AND 0xFFFF)"
    unfolding m by (rule disjunctive_add_eq_or, rule bit_word_eqI) (auto simp: bit_simps)
  also have "\<dots> = addr" unfolding m by (rule bit_word_eqI) (auto simp: bit_simps)
  finally show ?thesis by (simp add: hi8_lo8)
qed

lemma ihex_data_record:
  assumes "fw_device mem (ih_ext st)" "ih_hiword st = push_bit 16 (drop_bit 16 addr)"
    and "0x3C0000 \<le> unat addr" "unat addr + length data \<le> 0x400000" "length data \<le> 16"
  shows "\<exists>buf ext. ihex_parse st (ihex_line addr data @ [0]) = Some (buf, st\<lparr>ih_ext := ext\<rparr>, True)
     \<and> fw_wrote mem (ih_ext st) (unat addr) data ext"
proof -
  have "length data < 256" "length data \<le> 122" using assms(5) by simp_all
  then obtain buf where b: "ihex_record (ihex_line addr data @ [0])
       = Some (buf, Some (push_bit 8 (ucast (hi8 addr)) OR ucast (lo8 addr), of_nat (length data), 0))" "take (length data) buf = data"
    using ihex_record_hexes [of data "hi8 addr" "lo8 addr" 0 "- (of_nat (length data) + lo8 addr + hi8 addr + sum_list data)"]
    by (auto simp: ihex_line_hexes)
  obtain ext where "ext_storage_write_data (ih_ext st) addr data = (ext, True)" "fw_wrote mem (ih_ext st) (unat addr) data ext"
    using ext_storage_write_law [OF assms(1,3,4)] by blast
  moreover have "unat (of_nat (length data) :: u8) = length data" using assms(5) by simp
  ultimately show ?thesis using b hiword_join [of addr] assms(2) by (auto simp: ihex_parse_def)
qed

lemma ihex_addr_record:
  assumes "update_addr hi addr = (ls, hi')" "ih_hiword st = push_bit 16 hi"
  shows "hi' = drop_bit 16 addr \<and> ihex_feed st ls = Some (st\<lparr>ih_hiword := push_bit 16 (drop_bit 16 addr)\<rparr>, replicate (length ls) True)"
proof (cases "drop_bit 16 addr = hi")
  case True
  then show ?thesis using assms by (auto simp: update_addr_def)
next
  case False
  define h where "h = drop_bit 16 addr"
  have ls: "ls = [58 # hexes ([of_nat (length [hi8 h, lo8 h]), 0, 0, 4] @ [hi8 h, lo8 h] @ [- (6 + lo8 h + hi8 h)])]" "hi' = h"
    using update_addr_hexes [OF False] assms(1) by (simp_all add: h_def)
  have "of_nat (length [hi8 h, lo8 h]) + 0 + 0 + 4 + sum_list [hi8 h, lo8 h] + - (6 + lo8 h + hi8 h) = (0 :: u8)" by simp
  then obtain buf where b: "ihex_record (hd ls @ [0]) = Some (buf, Some (push_bit 8 (ucast (0::u8)) OR ucast (0::u8), of_nat (length [hi8 h, lo8 h]), 4))"
    "take (Suc (Suc 0)) buf = [hi8 h, lo8 h]"
    using ihex_record_hexes [of "[hi8 h, lo8 h]" 0 0 4 "- (6 + lo8 h + hi8 h)"] unfolding ls(1) by auto
  then obtain r where r: "buf = hi8 h # lo8 h # r" by (metis append_take_drop_id append_Cons append_Nil)
  have "push_bit 8 (ucast (hi8 h)) + ucast (lo8 h) = push_bit 8 (ucast (hi8 h)) OR (ucast (lo8 h) :: u32)"
    by (rule disjunctive_add_eq_or, rule bit_word_eqI) (auto simp: bit_simps dest: bit_imp_le_length)
  also have "\<dots> = h AND mask 16" using hi8_lo8 [of h] by (simp add: mask_eq_exp_minus_1)
  also have "\<dots> = h" unfolding h_def by (rule bit_word_eqI) (auto simp: bit_simps dest: bit_imp_le_length)
  finally have "push_bit 8 (ucast (hi8 h)) + ucast (lo8 h) = h" .
  then have "ihex_hiword buf 16 = Some (push_bit 16 h)" by (simp add: ihex_hiword_def r)
  then show ?thesis using b(1) ls by (simp add: ihex_parse_def h_def)
qed

lemma ihex_transfer_block:
  assumes "fw_device mem (ih_ext st)" "ih_hiword st = push_bit 16 hi"
    and "0x3C0000 \<le> unat addr" "unat addr + length data \<le> 0x400000"
  shows "\<exists>lines hi' st'. ihex_flush hi addr data = (lines, hi')
     \<and> ihex_feed st lines = Some (st', replicate (length lines) True)
     \<and> ih_hiword st' = push_bit 16 hi' \<and> fw_wrote mem (ih_ext st) (unat addr) data (ih_ext st')"
  using assms
proof (induction hi addr data arbitrary: st rule: ihex_flush.induct)
  case (1 hi addr data)
  show ?case
  proof (cases "data = []")
    case True
    have "ihex_flush hi addr [] = ([], hi)" by (simp add: ihex_flush.simps [of hi addr "[]"])
    then show ?thesis using 1(2,3) True by (simp add: fw_wrote_def st_bytes_def)
  next
    case False
    define l where "l = (if length data > 16 then 16 else length data)"
    obtain pre h1 where u: "update_addr hi addr = (pre, h1)" by fastforce
    have h1: "h1 = drop_bit 16 addr"
      and p: "ihex_feed st pre = Some (st\<lparr>ih_hiword := push_bit 16 (drop_bit 16 addr)\<rparr>, replicate (length pre) True)"
      using ihex_addr_record [OF u 1(3)] by blast+
    have l: "l \<le> 16" "l \<le> length data" "length (take l data) = l" by (auto simp: l_def)
    define st1 where "st1 = st\<lparr>ih_hiword := push_bit 16 (drop_bit 16 addr)\<rparr>"
    have "\<exists>buf ext. ihex_parse st1 (ihex_line addr (take l data) @ [0]) = Some (buf, st1\<lparr>ih_ext := ext\<rparr>, True)
       \<and> fw_wrote mem (ih_ext st1) (unat addr) (take l data) ext"
      using 1(2,4,5) l by (intro ihex_data_record) (simp_all add: st1_def)
    then obtain buf ext where r: "ihex_parse st1 (ihex_line addr (take l data) @ [0]) = Some (buf, st1\<lparr>ih_ext := ext\<rparr>, True)"
      and w: "fw_wrote mem (ih_ext st) (unat addr) (take l data) ext" by (auto simp: st1_def)
    define st2 where "st2 = st1\<lparr>ih_ext := ext\<rparr>"
    have a: "unat (addr + of_nat l) = unat addr + l" using region_sum [of addr l "0x400000"] 1(5) l by simp
    have "\<exists>lines hi' st'. ihex_flush h1 (addr + of_nat l) (drop l data) = (lines, hi')
       \<and> ihex_feed st2 lines = Some (st', replicate (length lines) True)
       \<and> ih_hiword st' = push_bit 16 hi' \<and> fw_wrote mem (ih_ext st2) (unat (addr + of_nat l)) (drop l data) (ih_ext st')"
      using 1(4,5) l w
      by (intro 1(1) [OF False l_def u [symmetric] refl]) (simp_all add: a st2_def st1_def h1 fw_wrote_def)
    then obtain lines hi' st' where f: "ihex_flush h1 (addr + of_nat l) (drop l data) = (lines, hi')"
      "ihex_feed st2 lines = Some (st', replicate (length lines) True)" "ih_hiword st' = push_bit 16 hi'"
      "fw_wrote mem ext (unat addr + l) (drop l data) (ih_ext st')" by (auto simp: a st2_def)
    have "ihex_flush hi addr data = (pre @ ihex_line addr (take l data) # lines, hi')"
      using False u f(1) by (simp add: ihex_flush.simps [of hi addr data] l_def [symmetric])
    moreover have "ihex_feed st (pre @ ihex_line addr (take l data) # lines)
        = Some (st', replicate (length pre) True @ True # replicate (length lines) True)"
      using r f(2) by (intro ihex_feed_append [OF p]) (simp add: st1_def [symmetric] st2_def [symmetric])
    moreover have "replicate (length pre) True @ True # replicate (length lines) True
        = replicate (length (pre @ ihex_line addr (take l data) # lines)) True"
      by (simp add: replicate_add replicate_app_Cons_same)
    moreover have "fw_wrote mem (ih_ext st) (unat addr) (take l data @ drop l data) (ih_ext st')"
      using f(4) l(3) by (intro fw_wrote_append [OF w]) simp
    ultimately show ?thesis using f(3) by (metis append_take_drop_id)
  qed
qed

text \<open>Transferring a block. The lines that the tool's ihex_flush prints for data at an address in the
  firmware region (whatever its previous high word, as long as the bootloader's is the same) are all accepted by the
  bootloader's ihex_parse, and then the external flash holds exactly the data at exactly that place and is
  unchanged elsewhere; the two sides still agree on the high word.\<close>

theorem ihex_transfer:
  assumes "fw_device mem (ih_ext st)" "ih_hiword st = push_bit 16 hi"
    and "0x3C0000 \<le> unat addr" "unat addr + length data \<le> 0x400000"
  shows "\<exists>lines hi' st'. ihex_flush hi addr data = (lines, hi')
     \<and> ihex_feed st lines = Some (st', replicate (length lines) True)
     \<and> ih_hiword st' = push_bit 16 hi' \<and> fw_wrote mem (ih_ext st) (unat addr) data (ih_ext st')"
  by (rule ihex_transfer_block [OF assms])

theorem ihex_transfer_witness:
  "\<exists>lines st'. fst (ihex_flush 0 0x3C0000 [1, 2, 3]) = lines
     \<and> ihex_feed \<lparr>ih_hiword = 0, ih_ext = ram_storage (\<lambda>_. 0xFF)\<rparr> lines = Some (st', replicate (length lines) True)
     \<and> st_bytes id (ih_ext st') 0x3C0000 3 = [1, 2, 3]"
proof -
  have "\<exists>lines hi' st'. ihex_flush 0 0x3C0000 [1, 2, 3] = (lines, hi')
     \<and> ihex_feed \<lparr>ih_hiword = 0, ih_ext = ram_storage (\<lambda>_. 0xFF)\<rparr> lines = Some (st', replicate (length lines) True)
     \<and> ih_hiword st' = push_bit 16 hi' \<and> fw_wrote id (ram_storage (\<lambda>_. 0xFF)) (unat (0x3C0000 :: u32)) [1, 2, 3] (ih_ext st')"
    using ihex_transfer [of id "\<lparr>ih_hiword = 0, ih_ext = ram_storage (\<lambda>_. 0xFF)\<rparr>" 0 "0x3C0000" "[1, 2, 3]"] by simp
  then show ?thesis by (auto simp: fw_wrote_def numeral_3_eq_3)
qed

end
