(* ===== verification/Boot.thy ===== *)
theory Boot
  imports IhexTransfer
begin

text \<open>
  The bootloader: the firmware container in the external flash (\<open>bootloader/container.c\<close>,
  \<open>bootloader/ext_storage.c\<close>), the checksum of the installed application (\<open>bootloader/app_info.c\<close>),
  and the start decision, the installation and the command loop of \<open>bootloader/main.c\<close>.
\<close>

unbundle bit_operations_syntax

subsection \<open>Words in memory, lowest byte first\<close>

fun to_le :: "nat \<Rightarrow> 'a::len word \<Rightarrow> u8 list" where
  "to_le 0 w = []"
| "to_le (Suc n) w = ucast w # to_le n (drop_bit 8 w)"

fun of_le :: "u8 list \<Rightarrow> 'a::len word" where
  "of_le [] = 0"
| "of_le (b # bs) = ucast b OR push_bit 8 (of_le bs)"

lemma length_to_le [simp]: "length (to_le n w) = n"
  by (induction n arbitrary: w) auto

lemma of_le_to_le: "of_le (to_le n w) = take_bit (8 * n) w"
proof (induction n arbitrary: w)
  case (Suc n)
  show ?case unfolding to_le.simps of_le.simps Suc.IH
    by (rule bit_word_eqI) (auto simp: bit_simps)
qed simp

lemma of_le_to_le_id [simp]: "of_le (to_le 4 w) = (w :: u32)" "of_le (to_le 2 v) = (v :: u16)"
  by (simp_all add: of_le_to_le take_bit_word_eq_self)

subsection \<open>The parts of the SDK\<close>

text \<open>
  The checksum and its start value, the write to the internal flash, and the values of the
  registers that survive a reset.
\<close>

record sdk =
  chsum32 :: "u8 list \<Rightarrow> u32 \<Rightarrow> u32"
  CHSUM32_START :: u32
  int_flash_write :: "(nat \<Rightarrow> u8) \<Rightarrow> u32 \<Rightarrow> u8 list \<Rightarrow> nat \<Rightarrow> u8"
  BOOT_FLASH_RQ :: u32
  BOOT_STAY_IN_BOOT :: u32
  WDID_REBOOT_RQ :: u32

text \<open>
  A write stores its bytes and changes nothing below its address; what is above may be erased.
\<close>

definition int_flash_lawful :: "sdk \<Rightarrow> bool" where
  "int_flash_lawful k \<longleftrightarrow> (\<forall>m a bs.
     (\<forall>i < length bs. int_flash_write k m a bs (unat a + i) = bs ! i)
     \<and> (\<forall>i < unat a. int_flash_write k m a bs i = m i))"

subsection \<open>The container\<close>

record container_hdr =
  data_size :: u32
  data_chsum :: u32
  generated_for_hw_num :: u32
  device_id :: u16
  hw_version_min :: u16
  hw_version_max :: u16
  fw_name :: "u8 list"
  aes :: u8
  ct_res :: "u8 list"
  hdr_chsum :: u32

text \<open>The struct over its 512 bytes.\<close>

definition slice :: "u8 list \<Rightarrow> nat \<Rightarrow> nat \<Rightarrow> u8 list" where
  "slice bs a n = take n (drop a bs)"

definition container_of :: "u8 list \<Rightarrow> container_hdr" where
  "container_of bs = \<lparr>data_size = of_le (slice bs 0 4), data_chsum = of_le (slice bs 4 4),
     generated_for_hw_num = of_le (slice bs 8 4), device_id = of_le (slice bs 12 2),
     hw_version_min = of_le (slice bs 14 2), hw_version_max = of_le (slice bs 16 2),
     fw_name = slice bs 18 16, aes = bs ! 34, ct_res = slice bs 35 473, hdr_chsum = of_le (slice bs 508 4)\<rparr>"

definition container_valid :: "sdk \<Rightarrow> u8 list \<Rightarrow> int \<Rightarrow> bool" where
  "container_valid k data len =
     (if 512 \<noteq> len then False
      else if hdr_chsum (container_of data) \<noteq> chsum32 k (take (nat (len - 4)) data) (CHSUM32_START k) then False
      else True)"

definition container_compatible :: "container_hdr \<Rightarrow> bool" where
  "container_compatible c = True"

subsection \<open>The external storage\<close>

abbreviation (input) SECTOR_SIZE :: u32 where "SECTOR_SIZE \<equiv> 512"
abbreviation (input) FW_START_SECTOR :: u32 where "FW_START_SECTOR \<equiv> 0x1E00"
abbreviation (input) APP_MIN_SIZE :: u32 where "APP_MIN_SIZE \<equiv> 0x400"
abbreviation (input) APP_MAX_SIZE :: u32 where "APP_MAX_SIZE \<equiv> 0x77E00"

definition sector_read :: "'f storage \<Rightarrow> u32 \<Rightarrow> 'f storage \<times> u8 list option" where
  "sector_read st sector = dev_read st (sector * SECTOR_SIZE) SECTOR_SIZE"

definition ext_storage_init :: "'f storage \<Rightarrow> 'f storage \<times> bool" where
  "ext_storage_init st = (let (d, r) = flash_init (st_dev st) in (st\<lparr>st_dev := d, st_ready := r\<rparr>, r))"

text \<open>The checksum loop; \<open>None\<close>: a sector that cannot be read.\<close>

function fw_chsum_loop :: "sdk \<Rightarrow> 'f storage \<Rightarrow> u32 \<Rightarrow> int \<Rightarrow> u32 \<Rightarrow> 'f storage \<times> u32 option" where
  "fw_chsum_loop k st s l fw_chsum =
     (if l > 0 then
        (case sector_read st (s + 1) of
           (st, None) \<Rightarrow> (st, None)
         | (st, Some buf) \<Rightarrow>
             fw_chsum_loop k st (s + 1) (l - 512) (chsum32 k (take (if l > 512 then 512 else nat l) buf) fw_chsum))
      else (st, Some fw_chsum))"
  by pat_completeness auto
termination by (relation "measure (\<lambda>(k, st, s, l, c). nat l)") auto

declare fw_chsum_loop.simps [simp del]

text \<open>The result: the container (that \<open>fw_container\<close> then points to), or \<open>None\<close>.\<close>

definition ext_storage_check_fw :: "sdk \<Rightarrow> 'f storage \<Rightarrow> 'f storage \<times> container_hdr option" where
  "ext_storage_check_fw k st =
     (if \<not> st_ready st then (st, None)
      else case sector_read st FW_START_SECTOR of
        (st, None) \<Rightarrow> (st, None)
      | (st, Some buf) \<Rightarrow>
          if \<not> container_valid k buf 512 then (st, None)
          else let c = container_of buf
               in if \<not> container_compatible c then (st, None)
                  else if data_size c < APP_MIN_SIZE \<or> data_size c > APP_MAX_SIZE then (st, None)
                  else case fw_chsum_loop k st FW_START_SECTOR (uint (data_size c)) (CHSUM32_START k) of
                         (st, None) \<Rightarrow> (st, None)
                       | (st, Some fw_chsum) \<Rightarrow> (st, if fw_chsum = data_chsum c then Some c else None))"

text \<open>\<open>None\<close>: the assertion on the container fails; inside, \<open>None\<close> is the result \<open>false\<close>.\<close>

definition ext_storage_read_fw :: "container_hdr option \<Rightarrow> 'f storage \<Rightarrow> int \<Rightarrow> u32 \<Rightarrow> ('f storage \<times> u8 list option) option" where
  "ext_storage_read_fw fw_container st len offset =
     (if len \<noteq> 512 \<or> offset mod SECTOR_SIZE \<noteq> 0 then Some (st, None)
      else do { _ \<leftarrow> os_assert (fw_container \<noteq> None);
                Some (sector_read st ((FW_ADDR + (offset + SECTOR_SIZE)) div SECTOR_SIZE)) })"

subsection \<open>The application\<close>

abbreviation (input) APP_INFO_PAGE_ADDR :: u32 where "APP_INFO_PAGE_ADDR \<equiv> 0x8008000"
abbreviation (input) APP_START_ADDR :: u32 where "APP_START_ADDR \<equiv> 0x8008200"

record app_info =
  ai_size :: u32
  ai_crc :: u32
  ai_device_id :: u16
  ai_hw_min :: u16
  ai_hw_max :: u16
  ai_res :: u16

definition app_info_of :: "u8 list \<Rightarrow> app_info" where
  "app_info_of bs = \<lparr>ai_size = of_le (slice bs 0 4), ai_crc = of_le (slice bs 4 4), ai_device_id = of_le (slice bs 8 2),
     ai_hw_min = of_le (slice bs 10 2), ai_hw_max = of_le (slice bs 12 2), ai_res = of_le (slice bs 14 2)\<rparr>"

text \<open>\<open>app_crc\<close>: eight times per byte.\<close>

definition crc_bit :: "u32 \<Rightarrow> u32" where
  "crc_bit crc = (let mask = - (crc AND 1) in drop_bit 1 crc XOR (0xEDB88320 AND mask))"

definition crc_byte :: "u32 \<Rightarrow> u8 \<Rightarrow> u32" where
  "crc_byte crc b = (crc_bit ^^ 8) (crc XOR ucast b)"

definition app_crc :: "u8 list \<Rightarrow> u32" where
  "app_crc data = NOT (foldl crc_byte 0xFFFFFFFF data)"

definition int_bytes :: "(nat \<Rightarrow> u8) \<Rightarrow> u32 \<Rightarrow> nat \<Rightarrow> u8 list" where
  "int_bytes m a n = map (\<lambda>i. m (unat a + i)) [0..<n]"

definition main_app_ok :: "(nat \<Rightarrow> u8) \<Rightarrow> bool" where
  "main_app_ok m =
     (let info = app_info_of (int_bytes m APP_INFO_PAGE_ADDR 16)
      in if ai_size info > APP_MAX_SIZE \<or> ai_size info < APP_MIN_SIZE then False
         else app_crc (int_bytes m APP_START_ADDR (unat (ai_size info))) = ai_crc info)"

subsection \<open>Start and installation\<close>

datatype reset_type = RESET_POWER_ON | RESET_USER_RQ | RESET_WDT | RESET_BOD

record 'f boot =
  bt_ihex :: "'f ihex"
  bt_int :: "nat \<Rightarrow> u8"
  GPREG_BOOT :: u32
  GPREG_BOOTLOOP :: u32
  GPREG_WDID :: u32
  bl_timeout :: u32

definition bt_ext_init :: "'f boot \<Rightarrow> 'f boot \<times> bool" where
  "bt_ext_init st = (let (e, r) = ext_storage_init (ih_ext (bt_ihex st)) in (st\<lparr>bt_ihex := (bt_ihex st)\<lparr>ih_ext := e\<rparr>\<rparr>, r))"

text \<open>
  The copy loop of \<open>main_flash_app\<close>, \<open>i\<close> below the size of the container.  The result of the read is
  not looked at: after a failure the buffer holds what it held before.
\<close>

function flash_loop :: "sdk \<Rightarrow> container_hdr \<Rightarrow> u8 list \<Rightarrow> 'f storage \<Rightarrow> (nat \<Rightarrow> u8) \<Rightarrow> u32 \<Rightarrow> nat
    \<Rightarrow> ('f storage \<times> (nat \<Rightarrow> u8)) option" where
  "flash_loop k c buf st m dest i =
     (if i < unat (data_size c) then
        do { (st, r) \<leftarrow> ext_storage_read_fw (Some c) st 512 (of_nat i);
             let buf = (case r of Some b \<Rightarrow> b | None \<Rightarrow> buf);
             flash_loop k c buf st (int_flash_write k m dest buf) (dest + 512) (i + 512) }
      else Some (st, m))"
  by pat_completeness auto
termination by (relation "measure (\<lambda>(k, c, buf, st, m, dest, i). unat (data_size c) - i)") auto

declare flash_loop.simps [simp del]

text \<open>\<open>junk\<close> is the uninitialised buffer on the stack.\<close>

definition main_flash_app :: "sdk \<Rightarrow> u8 list \<Rightarrow> 'f boot \<Rightarrow> ('f boot \<times> bool) option" where
  "main_flash_app k junk st =
     (case bt_ext_init st of
        (st, False) \<Rightarrow> Some (st, False)
      | (st, True) \<Rightarrow>
          (case ext_storage_check_fw k (ih_ext (bt_ihex st)) of
             (e, None) \<Rightarrow> Some (st\<lparr>bt_ihex := (bt_ihex st)\<lparr>ih_ext := e\<rparr>\<rparr>, False)
           | (e, Some c) \<Rightarrow>
               do { (e, m) \<leftarrow> flash_loop k c junk e (bt_int st) APP_INFO_PAGE_ADDR 0;
                    Some (st\<lparr>bt_ihex := (bt_ihex st)\<lparr>ih_ext := e\<rparr>, bt_int := m\<rparr>, True) }))"

text \<open>
  What \<open>main\<close> ends in: the application, or the command loop for one of three reasons.  The command
  loop starts by clearing the boot request.
\<close>

datatype boot_end = RUN_APP | STAY_IN_BOOT | BOOT_LOOP | NO_FIRMWARE

definition bl_task_start :: "'f boot \<Rightarrow> 'f boot" where
  "bl_task_start st = st\<lparr>GPREG_BOOT := 0\<rparr>"

definition boot_main :: "sdk \<Rightarrow> u8 list \<Rightarrow> reset_type \<Rightarrow> 'f boot \<Rightarrow> ('f boot \<times> boot_end) option" where
  "boot_main k junk rt st =
     (let app_ok = main_app_ok (bt_int st);
          flash_rq = (rt = RESET_USER_RQ \<and> GPREG_BOOT st = BOOT_FLASH_RQ k)
      in if rt = RESET_USER_RQ \<and> \<not> flash_rq \<and> GPREG_BOOT st = BOOT_STAY_IN_BOOT k
         then Some (bl_task_start (fst (bt_ext_init st)), STAY_IN_BOOT)
         else do {
           let st = (if rt = RESET_USER_RQ then st\<lparr>GPREG_BOOT := 0\<rparr> else st);
           (st, app_ok) \<leftarrow>
             (if flash_rq \<or> \<not> app_ok
              then do { (st, _) \<leftarrow> main_flash_app k junk st; Some (st, main_app_ok (bt_int st)) }
              else Some (st, app_ok));
           let st = st\<lparr>GPREG_BOOTLOOP := GPREG_BOOTLOOP st + 1\<rparr>;
           if GPREG_BOOTLOOP st > 5
           then Some (bl_task_start (fst (bt_ext_init (st\<lparr>GPREG_BOOTLOOP := 0\<rparr>))), BOOT_LOOP)
           else if app_ok then Some (st, RUN_APP)
           else Some (bl_task_start st, NO_FIRMWARE) })"

subsection \<open>The command loop\<close>

datatype bl_action = BL_CONTINUE | BL_RESET | BL_HANG

text \<open>A received line, without its line end; another command letter does nothing.\<close>

definition bl_rx :: "sdk \<Rightarrow> 'f boot \<Rightarrow> u8 list \<Rightarrow> ('f boot \<times> bl_action) option" where
  "bl_rx k st data =
     do { c \<leftarrow> arr_get data 0;
          if c = of_char CHR '':'' then
            do { (_, h, ok) \<leftarrow> ihex_parse (bt_ihex st) data;
                 Some (st\<lparr>bt_ihex := h, bl_timeout := (if ok then 0 else bl_timeout st)\<rparr>, BL_CONTINUE) }
          else if c = of_char CHR ''B'' then
            Some (st\<lparr>GPREG_BOOT := BOOT_STAY_IN_BOOT k, GPREG_WDID := WDID_REBOOT_RQ k\<rparr>, BL_RESET)
          else if c = of_char CHR ''F'' then
            Some (st\<lparr>bt_ihex := (bt_ihex st)\<lparr>ih_ext := storage_flush_cache (ih_ext (bt_ihex st))\<rparr>,
                     GPREG_BOOT := BOOT_FLASH_RQ k, GPREG_WDID := WDID_REBOOT_RQ k\<rparr>, BL_RESET)
          else if c = of_char CHR ''R'' then
            Some (st\<lparr>bt_ihex := (bt_ihex st)\<lparr>ih_ext := storage_flush_cache (ih_ext (bt_ihex st))\<rparr>\<rparr>, BL_RESET)
          else if c = of_char CHR ''W'' then Some (st, BL_HANG)
          else Some (st, BL_CONTINUE) }"

text \<open>One round of the loop, 200 ms; \<open>BL_TIMEOUT\<close> is 15 minutes of rounds.\<close>

abbreviation (input) BL_TIMEOUT :: u32 where "BL_TIMEOUT \<equiv> 4500"

definition bl_round :: "'f boot \<Rightarrow> 'f boot \<times> bl_action" where
  "bl_round st = (let st = st\<lparr>bl_timeout := bl_timeout st + 1\<rparr>
                  in (st, if bl_timeout st \<ge> BL_TIMEOUT then BL_RESET else BL_CONTINUE))"

end
