(* ===== verification/Update.thy ===== *)
theory Update
  imports Boot Cfg NetTarget
begin

text \<open>
  \<open>app/update.c\<close>: the firmware update over the network.  The unit asks the update server for a
  firmware and then for one chunk of 256 bytes after the other; the receiver of the packets writes each chunk
  into the firmware region of the flash and, with the last one, restarts the device into the
  bootloader (\<open>main_flash\<close> of \<open>main.c\<close>).

  The receiver is called by the modem while the task waits, so that a waiting is a sequence of rounds, each
  with the packets that arrive in it and the clock behind it.  Between two passes of the task packets may
  arrive, too.  The identity and the version of the unit, the tick constants and the SDK's \<open>hex_to_bin\<close> are in
  \<open>update_env\<close>, what one pass sees of the outside in \<open>update_pass\<close>.
\<close>

unbundle bit_operations_syntax

subsection \<open>Packets\<close>

abbreviation (input) UPDATE_CHUNK_SIZE :: nat where "UPDATE_CHUNK_SIZE \<equiv> 256"
abbreviation (input) UPDATE_RESULT_START :: u32 where "UPDATE_RESULT_START \<equiv> 0xFF"
abbreviation (input) UPDATE_CHUNK_STATUS_DONE :: u32 where "UPDATE_CHUNK_STATUS_DONE \<equiv> 1"
abbreviation (input) UPDATE_CHUNK_STATUS_OK :: u32 where "UPDATE_CHUNK_STATUS_OK \<equiv> 2"
abbreviation (input) PACKET_ID_UPDATE_REQ :: u32 where "PACKET_ID_UPDATE_REQ \<equiv> 0xAA"
abbreviation (input) PACKET_ID_UPDATE_RES :: u32 where "PACKET_ID_UPDATE_RES \<equiv> 0xF0AA"
abbreviation (input) PACKET_ID_GET_CHUNK :: u32 where "PACKET_ID_GET_CHUNK \<equiv> 0x1AA"
abbreviation (input) PACKET_ID_CHUNK_RES :: u32 where "PACKET_ID_CHUNK_RES \<equiv> 0xF1AA"

text \<open>
  The structures are little-endian words without gaps.  In the answer to a chunk request the chunk number is the
  low 24 bits of a word and the status its high 8 bits.
\<close>

definition pk_word :: "u8 list \<Rightarrow> nat \<Rightarrow> u32" where
  "pk_word data off = of_le (slice data off 4)"

abbreviation (input) hdr_packet_id :: "u8 list \<Rightarrow> u32" where "hdr_packet_id data \<equiv> pk_word data 0"
abbreviation (input) hdr_unit_id :: "u8 list \<Rightarrow> u32" where "hdr_unit_id data \<equiv> pk_word data 4"
abbreviation (input) res_result :: "u8 list \<Rightarrow> u32" where "res_result data \<equiv> pk_word data 12"

definition res_chunk_id :: "u8 list \<Rightarrow> u32" where
  "res_chunk_id data = pk_word data 8 AND 0xFFFFFF"

definition res_status :: "u8 list \<Rightarrow> u32" where
  "res_status data = drop_bit 24 (pk_word data 8)"

definition res_data :: "u8 list \<Rightarrow> u8 list" where
  "res_data data = slice data 12 UPDATE_CHUNK_SIZE"

abbreviation (input) sizeof_update_hdr :: u16 where "sizeof_update_hdr \<equiv> 8"
abbreviation (input) sizeof_update_res :: u16 where "sizeof_update_res \<equiv> 16"
abbreviation (input) sizeof_update_res_data :: u16 where "sizeof_update_res_data \<equiv> 268"

subsection \<open>State\<close>

record update_env =
  ue_second :: os_timer
  ue_ms :: os_timer
  ue_addr :: u32
  ue_major :: u32
  ue_minor :: u32
  ue_patch :: u32
  ue_hex_to_bin :: "u8 list \<Rightarrow> nat \<Rightarrow> u8 list"

record update_pass =
  us_now :: os_timer
  us_connect :: bool
  us_dns :: "u8 list \<Rightarrow> bool \<times> u32"
  us_tx :: bool
  us_start :: os_timer
  us_wait :: "nat \<Rightarrow> (u8 list \<times> u16) list \<times> os_timer"

text \<open>
  The static variables, the configuration with the flash it is in, the packets sent, and whether \<open>main_flash\<close> has
  been called.
\<close>

record 'f update =
  up_task_timer :: os_timer
  up_now :: os_timer
  up_update_rq :: bool
  up_packet_ack :: bool
  up_server_ip :: u32
  up_server_port :: u16
  up_server_addr_cfg :: "u8 list"
  up_aes_key :: "u8 list"
  up_phase :: int
  up_err_cnt :: int
  up_cf :: "'f cfg_st"
  up_sent :: "udp_packet list"
  up_flash :: bool

abbreviation (input) UPDATE_ERR_LIMIT :: int where "UPDATE_ERR_LIMIT \<equiv> 100"

abbreviation (input) up_store :: "'f update \<Rightarrow> 'f storage" where "up_store u \<equiv> cf_store (up_cf u)"

definition up_set_store :: "'f update \<Rightarrow> 'f storage \<Rightarrow> 'f update" where
  "up_set_store u st = u\<lparr>up_cf := (up_cf u)\<lparr>cf_store := st\<rparr>\<rparr>"

definition up_dly :: "update_env \<Rightarrow> os_timer \<Rightarrow> 'f update \<Rightarrow> 'f update" where
  "up_dly env sec u = u\<lparr>up_task_timer := up_now u + sec * ue_second env\<rparr>"

text \<open>\<open>main_flash\<close>: the cache of the flash is written out and the device restarts into the bootloader.\<close>

definition main_flash :: "'f update \<Rightarrow> 'f update" where
  "main_flash u = (up_set_store u (storage_flush_cache (up_store u)))\<lparr>up_flash := True\<rparr>"

subsection \<open>The receiver\<close>

definition write_chunk :: "u32 \<Rightarrow> u8 list \<Rightarrow> 'f update \<Rightarrow> 'f update" where
  "write_chunk chunk_id data u = up_set_store u (fst (storage_write_fw (up_store u) (chunk_id * of_nat UPDATE_CHUNK_SIZE) data))"

definition rx_update_res :: "u8 list \<Rightarrow> u16 \<Rightarrow> 'f update \<Rightarrow> 'f update \<times> bool" where
  "rx_update_res data len u =
     (if up_phase u = 0
      then if len < sizeof_update_res then (u, False)
           else if res_result data \<noteq> UPDATE_RESULT_START then (u\<lparr>up_update_rq := False, up_packet_ack := True\<rparr>, True)
           else (u\<lparr>up_packet_ack := True\<rparr>, True)
      else (u\<lparr>up_packet_ack := True\<rparr>, True))"

definition rx_chunk_res :: "u8 list \<Rightarrow> u16 \<Rightarrow> 'f update \<Rightarrow> 'f update \<times> bool" where
  "rx_chunk_res data len u =
     (let chunk_id = word_of_int (up_phase u - 1)
      in if len < sizeof_update_res_data then (u, False)
         else if res_chunk_id data \<noteq> chunk_id then (u, False)
         else if res_status data = UPDATE_CHUNK_STATUS_OK
         then ((write_chunk chunk_id (res_data data) u)\<lparr>up_packet_ack := True\<rparr>, True)
         else if res_status data = UPDATE_CHUNK_STATUS_DONE
         then ((main_flash ((write_chunk chunk_id (res_data data) u)\<lparr>up_update_rq := False\<rparr>))\<lparr>up_packet_ack := True\<rparr>, True)
         else (u, False))"

definition update_packet_rx :: "update_env \<Rightarrow> u8 list \<Rightarrow> u16 \<Rightarrow> u16 \<Rightarrow> 'f update \<Rightarrow> 'f update \<times> bool" where
  "update_packet_rx env data len port u =
     (if port \<noteq> up_server_port u then (u, False)
      else if \<not> up_update_rq u then (u, False)
      else if len < sizeof_update_hdr then (u, False)
      else if hdr_unit_id data \<noteq> ue_addr env then (u, False)
      else if hdr_packet_id data = PACKET_ID_UPDATE_RES then rx_update_res data len u
      else if hdr_packet_id data = PACKET_ID_CHUNK_RES then rx_chunk_res data len u
      else (u, False))"

text \<open>The packets of one round; a packet is its data and its source port.\<close>

fun up_rx_all :: "update_env \<Rightarrow> (u8 list \<times> u16) list \<Rightarrow> 'f update \<Rightarrow> 'f update" where
  "up_rx_all env [] u = u"
| "up_rx_all env ((data, port) # ps) u = up_rx_all env ps (fst (update_packet_rx env data (of_nat (length data)) port u))"

subsection \<open>The task\<close>

partial_function (option) up_wait_loop ::
    "update_env \<Rightarrow> update_pass \<Rightarrow> os_timer \<Rightarrow> nat \<Rightarrow> 'f update \<Rightarrow> ('f update \<times> bool) option" where
  "up_wait_loop env ps limit i u =
     (if up_now u < limit
      then let u = (up_rx_all env (fst (us_wait ps i)) u)\<lparr>up_now := snd (us_wait ps i)\<rparr>
           in if \<not> up_packet_ack u then up_wait_loop env ps limit (Suc i) u
              else Some (u\<lparr>up_packet_ack := False\<rparr>, True)
      else Some (u, False))"

definition up_wait_for_ack :: "update_env \<Rightarrow> update_pass \<Rightarrow> 'f update \<Rightarrow> ('f update \<times> bool) option" where
  "up_wait_for_ack env ps u =
     up_wait_loop env ps (us_start ps + 2000 * ue_ms env) 0 (u\<lparr>up_now := us_start ps\<rparr>)"

definition up_packet :: "u8 list \<Rightarrow> 'f update \<Rightarrow> udp_packet" where
  "up_packet data u =
     \<lparr>up_dst_ip = up_server_ip u, up_src_ip = 0, up_data = data, up_dst_port = up_server_port u,
      up_src_port = up_server_port u, up_datalen = of_nat (length data)\<rparr>"

definition up_send_packet :: "update_env \<Rightarrow> update_pass \<Rightarrow> u8 list \<Rightarrow> 'f update \<Rightarrow> ('f update \<times> bool) option" where
  "up_send_packet env ps data u =
     (let u = u\<lparr>up_packet_ack := False\<rparr>
      in if \<not> us_tx ps then Some (u, False)
         else do { (u, r) \<leftarrow> up_wait_for_ack env ps (u\<lparr>up_sent := up_sent u @ [up_packet data u]\<rparr>);
                   Some (if r then (up_dly env 0 u, True) else (up_dly env 5 u, False)) })"

definition update_req_bytes :: "update_env \<Rightarrow> u8 list" where
  "update_req_bytes env =
     to_le 4 PACKET_ID_UPDATE_REQ @ to_le 4 (ue_addr env)
     @ to_le 4 (push_bit 16 (ue_major env) + push_bit 8 (ue_minor env) + ue_patch env)"

definition update_chunk_bytes :: "update_env \<Rightarrow> int \<Rightarrow> u8 list" where
  "update_chunk_bytes env phase =
     to_le 4 PACKET_ID_GET_CHUNK @ to_le 4 (ue_addr env) @ to_le 4 (word_of_int (phase - 1) :: u32)"

text \<open>\<open>update_start\<close>: \<open>None\<close> is a stored configuration text without terminator.\<close>

definition update_start :: "update_env \<Rightarrow> 'f update \<Rightarrow> ('f update \<times> bool) option" where
  "update_start env u =
     (if up_update_rq u then Some (u, False)
      else case cfg_read (up_cf u) 24 ACCESS_SYSTEM of
             (cf, None) \<Rightarrow> None
           | (cf, Some (False, _)) \<Rightarrow> Some (u\<lparr>up_cf := cf\<rparr>, False)
           | (cf, Some (True, cfg)) \<Rightarrow>
               (let (ok, ip, port) = net_parse_target_ip (take 61 cfg);
                    u = u\<lparr>up_cf := cf, up_server_addr_cfg := take 61 cfg, up_server_ip := ip,
                          up_server_port := (case port of Some p \<Rightarrow> p | None \<Rightarrow> up_server_port u)\<rparr>
                in if \<not> ok then Some (u, False)
                   else case cfg_read cf 25 ACCESS_SYSTEM of
                          (cf, None) \<Rightarrow> None
                        | (cf, Some (False, _)) \<Rightarrow> Some (u\<lparr>up_cf := cf\<rparr>, False)
                        | (cf, Some (True, key)) \<Rightarrow>
                            Some (u\<lparr>up_cf := cf, up_aes_key := ue_hex_to_bin env key 32, up_err_cnt := 0,
                                    up_phase := 0, up_update_rq := True\<rparr>, True)))"

definition up_phase_step :: "update_env \<Rightarrow> update_pass \<Rightarrow> 'f update \<Rightarrow> 'f update option" where
  "up_phase_step env ps u =
     (if up_phase u = 0
      then do { (u, r) \<leftarrow> up_send_packet env ps (update_req_bytes env) u;
                Some (if \<not> r then u\<lparr>up_err_cnt := up_err_cnt u + 1\<rparr> else u\<lparr>up_phase := up_phase u + 1\<rparr>) }
      else do { (u, r) \<leftarrow> up_send_packet env ps (update_chunk_bytes env (up_phase u)) u;
                Some (if \<not> r then u\<lparr>up_err_cnt := up_err_cnt u + 1\<rparr>
                      else u\<lparr>up_phase := up_phase u + 1, up_err_cnt := 0\<rparr>) })"

definition up_resolve :: "update_pass \<Rightarrow> 'f update \<Rightarrow> 'f update" where
  "up_resolve ps u =
     (let (_, ip, port) = net_get_target_ip (us_dns ps) (up_server_addr_cfg u)
      in u\<lparr>up_server_ip := ip, up_server_port := (case port of Some p \<Rightarrow> p | None \<Rightarrow> up_server_port u)\<rparr>)"

definition up_connected :: "update_env \<Rightarrow> update_pass \<Rightarrow> 'f update \<Rightarrow> 'f update option" where
  "up_connected env ps u =
     (if up_server_ip u = 0
      then let u = up_resolve ps u
           in if up_server_ip u = 0 \<or> up_server_port u = 0
              then Some (up_dly env 30 (u\<lparr>up_err_cnt := up_err_cnt u + 1\<rparr>))
              else up_phase_step env ps u
      else up_phase_step env ps u)"

definition update_task :: "update_env \<Rightarrow> update_pass \<Rightarrow> 'f update \<Rightarrow> 'f update option" where
  "update_task env ps u =
     (if \<not> up_update_rq u then Some u
      else let u = (if up_err_cnt u \<ge> UPDATE_ERR_LIMIT then u\<lparr>up_update_rq := False\<rparr> else u);
               u = u\<lparr>up_now := us_now ps\<rparr>
           in if up_now u < up_task_timer u then Some u
              else let u = up_dly env 1 u
                   in if \<not> us_connect ps then Some (up_dly env 30 u)
                      else up_connected env ps u)"

end
