(* ===== verification/BootInstall.thy ===== *)
theory BootInstall
  imports Boot
begin

text \<open>
  Lemmas on the bootloader: reading the container and the image from the external flash, the
  copy into the internal flash.
\<close>

unbundle bit_operations_syntax

subsection \<open>Sectors\<close>

text \<open>Reads keep the device and its contents.\<close>

definition fw_read :: "('f \<Rightarrow> nat \<Rightarrow> u8) \<Rightarrow> 'f storage \<Rightarrow> 'f storage \<Rightarrow> bool" where
  "fw_read mem st st' \<longleftrightarrow> fw_device mem st' \<and> st_mem mem st' = st_mem mem st"

lemma fw_read_bytes: "fw_read mem st st' \<Longrightarrow> st_bytes mem st' = st_bytes mem st"
  by (simp add: fw_read_def st_bytes_def fun_eq_iff)

lemma fw_read_trans: "fw_read mem a b \<Longrightarrow> fw_read mem b c \<Longrightarrow> fw_read mem a c"
  by (simp add: fw_read_def)

lemma sector_read_law:
  assumes "fw_device mem st" "unat sector < 8192"
  shows "\<exists>st'. sector_read st sector = (st', Some (st_bytes mem st (512 * unat sector) 512)) \<and> fw_read mem st st'"
proof -
  have fl: "flash_lawful mem (st_dev st)" "flash_reliable (st_dev st)" "st_ready st"
    using assms(1) by (simp_all add: fw_device_def fw_dev_ok_def)
  have a: "unat (sector * SECTOR_SIZE) = 512 * unat sector"
    using assms(2) by (simp add: unat_word_ariths)
  then have b: "unat (sector * SECTOR_SIZE) + unat SECTOR_SIZE \<le> FLASH_SIZE" using assms(2) by simp
  obtain st' r where w: "dev_read st (sector * SECTOR_SIZE) SECTOR_SIZE = (st', r)" by fastforce
  have "snd (fl_read (st_dev st) s (sector * SECTOR_SIZE) SECTOR_SIZE) \<noteq> None" for s
    using fl(2) b unfolding flash_reliable_def by blast
  then have "snd (dev_read st (sector * SECTOR_SIZE) SECTOR_SIZE) \<noteq> None"
    by (simp add: dev_read_def flash_read_data_def Let_def split_def)
  then have "r \<noteq> None" using w by simp
  then obtain bs where r: "r = Some bs" by blast
  have same: "st_same st st'" and m: "st_mem mem st' = st_mem mem st" and bs: "bs = st_bytes mem st (512 * unat sector) 512"
    using dev_read_law [OF fl(1) b w] a by (simp_all add: r)
  have "fw_device mem st'" using st_same_fw_device [OF same] assms(1) by simp
  then show ?thesis using w m by (auto simp: sector_read_def r bs fw_read_def)
qed

lemma st_bytes_append: "st_bytes mem st a (m + n) = st_bytes mem st a m @ st_bytes mem st (a + m) n"
  by (rule nth_equalityI) (auto simp: st_bytes_def nth_append)

lemma take_st_bytes: "m \<le> n \<Longrightarrow> take m (st_bytes mem st a n) = st_bytes mem st a m"
  by (simp add: st_bytes_def take_map)

text \<open>A checksum that can be computed piece by piece.\<close>

definition chsum_lawful :: "sdk \<Rightarrow> bool" where
  "chsum_lawful k \<longleftrightarrow> (\<forall>s. chsum32 k [] s = s) \<and> (\<forall>x y s. chsum32 k (x @ y) s = chsum32 k y (chsum32 k x s))"

lemma fw_chsum_loop_law:
  "chsum_lawful k \<Longrightarrow> fw_device mem st \<Longrightarrow> 512 * (unat s + 1) + nat l \<le> 0x400000 \<Longrightarrow>
    \<exists>st'. fw_chsum_loop k st s l acc = (st', Some (chsum32 k (st_bytes mem st (512 * (unat s + 1)) (nat l)) acc))
      \<and> fw_read mem st st'"
proof (induction k st s l acc rule: fw_chsum_loop.induct)
  case (1 k st s l acc)
  show ?case
  proof (cases "l > 0")
    case False
    have "fw_chsum_loop k st s l acc = (st, Some acc)" using False by (subst fw_chsum_loop.simps) simp
    then show ?thesis using 1(2,3) False by (simp add: chsum_lawful_def fw_read_def st_bytes_def)
  next
    case True
    then have "0 < nat l" by simp
    have "unat s < 8191"
    proof (rule ccontr)
      assume "\<not> unat s < 8191"
      then have "512 * 8192 \<le> 512 * (unat s + 1)" by simp
      then show False using 1(4) \<open>0 < nat l\<close> by linarith
    qed
    then have s1: "unat (s + 1) = unat s + 1" by (simp add: unat_word_ariths)
    define a where "a = 512 * (unat s + 1)"
    define n where "n = (if l > 512 then 512 else nat l)"
    have n: "n \<le> 512" "nat (l - 512) = nat l - n" by (auto simp: n_def nat_diff_distrib)
    obtain st1 where r: "sector_read st (s + 1) = (st1, Some (st_bytes mem st a 512))" "fw_read mem st st1"
      using sector_read_law [OF 1(3), of "s + 1"] \<open>unat s < 8191\<close> s1 by (auto simp: a_def)
    have st1: "fw_device mem st1" using r(2) by (simp add: fw_read_def)
    have eq: "fw_chsum_loop k st s l acc = fw_chsum_loop k st1 (s + 1) (l - 512) (chsum32 k (st_bytes mem st a n) acc)"
      using True r(1) take_st_bytes [OF n(1), of mem st a] by (subst fw_chsum_loop.simps) (simp add: n_def [symmetric])
    show ?thesis
    proof (cases "l > 512")
      case False
      then have "n = nat l" by (simp add: n_def)
      moreover have "fw_chsum_loop k st1 (s + 1) (l - 512) c = (st1, Some c)" for c
        using False by (subst fw_chsum_loop.simps) simp
      ultimately show ?thesis using eq r(2) by (simp add: a_def)
    next
      case big: True
      then have n512: "n = 512" by (simp add: n_def)
      have "\<exists>st'. fw_chsum_loop k st1 (s + 1) (l - 512) (chsum32 k (take (if l > 512 then 512 else nat l) (st_bytes mem st a 512)) acc)
         = (st', Some (chsum32 k (st_bytes mem st1 (512 * (unat (s + 1) + 1)) (nat (l - 512)))
              (chsum32 k (take (if l > 512 then 512 else nat l) (st_bytes mem st a 512)) acc)))
        \<and> fw_read mem st1 st'"
        using 1(4) s1 big by (intro 1(1) [OF True r(1) [symmetric] refl 1(2) st1]) simp
      moreover have "512 * (unat (s + 1) + 1) = a + 512" by (simp add: a_def s1)
      ultimately obtain st' where f: "fw_chsum_loop k st1 (s + 1) (l - 512) (chsum32 k (st_bytes mem st a n) acc)
         = (st', Some (chsum32 k (st_bytes mem st (a + n) (nat l - n)) (chsum32 k (st_bytes mem st a n) acc)))"
        "fw_read mem st1 st'"
        using n take_st_bytes [OF n(1), of mem st a] fw_read_bytes [OF r(2)]
        by (auto simp only: n_def [symmetric] n512)
      have "n + (nat l - n) = nat l" using big n512 by linarith
      then have "chsum32 k (st_bytes mem st (a + n) (nat l - n)) (chsum32 k (st_bytes mem st a n) acc)
          = chsum32 k (st_bytes mem st a (nat l)) acc"
        using 1(2) st_bytes_append [of mem st a n "nat l - n"] by (simp add: chsum_lawful_def)
      then show ?thesis using eq f fw_read_trans [OF r(2) f(2)] by (auto simp: a_def)
    qed
  qed
qed

subsection \<open>The image and its container\<close>

text \<open>
  The external flash holds a container and its image: the header is valid, the image fits, its
  checksum is the header's.
\<close>

definition fw_stored :: "sdk \<Rightarrow> (nat \<Rightarrow> u8) \<Rightarrow> u8 list \<Rightarrow> bool" where
  "fw_stored k m img \<longleftrightarrow> (\<exists>h. length h = 512 \<and> (\<forall>i < 512. m (0x3C0000 + i) = h ! i)
     \<and> container_valid k h 512 \<and> unat (data_size (container_of h)) = length img
     \<and> data_chsum (container_of h) = chsum32 k img (CHSUM32_START k))
     \<and> 0x400 \<le> length img \<and> length img + 512 \<le> 0x40000
     \<and> (\<forall>i < length img. m (0x3C0200 + i) = img ! i)"

lemma st_bytes_eqI: "(\<And>i. i < length bs \<Longrightarrow> st_mem mem st (a + i) = bs ! i) \<Longrightarrow> st_bytes mem st a (length bs) = bs"
  by (rule nth_equalityI) (simp_all add: st_bytes_def)

lemma ext_storage_check_fw_ok:
  assumes "chsum_lawful k" "fw_device mem st" "fw_stored k (st_mem mem st) img"
  shows "\<exists>st' c. ext_storage_check_fw k st = (st', Some c) \<and> fw_read mem st st' \<and> unat (data_size c) = length img"
proof -
  obtain h where h: "length h = 512" "\<And>i. i < 512 \<Longrightarrow> st_mem mem st (0x3C0000 + i) = h ! i" "container_valid k h 512"
    "unat (data_size (container_of h)) = length img" "data_chsum (container_of h) = chsum32 k img (CHSUM32_START k)"
    and l: "0x400 \<le> length img" "length img + 512 \<le> 0x40000" and img: "\<And>i. i < length img \<Longrightarrow> st_mem mem st (0x3C0200 + i) = img ! i"
    using assms(3) by (auto simp: fw_stored_def)
  define c where "c = container_of h"
  have "st_bytes mem st 0x3C0000 512 = h" using st_bytes_eqI [of h mem st "0x3C0000"] h(1,2) by simp
  then obtain st1 where r: "sector_read st FW_START_SECTOR = (st1, Some h)" "fw_read mem st st1"
    using sector_read_law [OF assms(2), of FW_START_SECTOR] by auto
  then have st1: "fw_device mem st1" by (simp add: fw_read_def)
  have sz: "nat (uint (data_size c)) = length img" using h(4) by (simp add: c_def nat_uint_eq)
  have "st_bytes mem st 0x3C0200 (length img) = img" by (rule st_bytes_eqI) (rule img)
  then obtain st2 where f: "fw_chsum_loop k st1 FW_START_SECTOR (uint (data_size c)) (CHSUM32_START k)
      = (st2, Some (chsum32 k img (CHSUM32_START k)))" "fw_read mem st1 st2"
    using fw_chsum_loop_law [OF assms(1) st1, of FW_START_SECTOR "uint (data_size c)" "CHSUM32_START k"] sz l fw_read_bytes [OF r(2)]
    by auto
  have "\<not> data_size c < APP_MIN_SIZE" "\<not> data_size c > APP_MAX_SIZE"
    using h(4) l by (simp_all add: c_def word_less_nat_alt)
  moreover have "st_ready st" using assms(2) by (simp add: fw_device_def)
  ultimately have "ext_storage_check_fw k st = (st2, Some c)"
    using r(1) f(1) h(3,5) by (simp add: ext_storage_check_fw_def c_def [symmetric] container_compatible_def Let_def)
  then show ?thesis using fw_read_trans [OF r(2) f(2)] h(4) by (auto simp: c_def)
qed

lemma ext_storage_read_fw_law:
  assumes "fw_device mem st" "512 dvd i" "i + 1024 \<le> 0x40000"
  shows "\<exists>st'. ext_storage_read_fw (Some c) st 512 (of_nat i) = Some (st', Some (st_bytes mem st (0x3C0200 + i) 512)) \<and> fw_read mem st st'"
proof -
  have i: "unat (of_nat i :: u32) = i" using assms(3) by (intro unat_of_nat_u32) linarith
  have m: "(of_nat i :: u32) mod 512 = 0" using i assms(2) by (simp add: word_unat_eq_iff unat_mod del: inj_unat_word)
  obtain j where j: "i = 512 * j" using assms(2) by blast
  have "unat (FW_ADDR + (of_nat i + SECTOR_SIZE)) = 0x3C0200 + i" using i assms(3) by (simp add: unat_word_ariths)
  then have "unat ((FW_ADDR + (of_nat i + SECTOR_SIZE)) div SECTOR_SIZE) = 0x1E01 + j" by (simp add: unat_div j)
  then show ?thesis
    using sector_read_law [OF assms(1), of "(FW_ADDR + (of_nat i + SECTOR_SIZE)) div SECTOR_SIZE"] m assms(3)
    by (simp add: ext_storage_read_fw_def j)
qed

subsection \<open>The copy into the internal flash\<close>

definition installed :: "(nat \<Rightarrow> u8) \<Rightarrow> u8 list \<Rightarrow> nat \<Rightarrow> bool" where
  "installed m img n \<longleftrightarrow> (\<forall>j < n. j < length img \<longrightarrow> m (0x8008000 + j) = img ! j)"

lemma installed_step:
  assumes "int_flash_lawful k" "installed m img i" "unat dest = 0x8008000 + i"
    and "length b = 512" "\<And>j. j < 512 \<Longrightarrow> i + j < length img \<Longrightarrow> b ! j = img ! (i + j)"
  shows "installed (int_flash_write k m dest b) img (i + 512)"
  unfolding installed_def
proof (intro allI impI)
  fix j assume j: "j < i + 512" "j < length img"
  have low: "int_flash_write k m dest b x = m x" if "x < unat dest" for x
    using assms(1) that by (simp add: int_flash_lawful_def)
  have new: "int_flash_write k m dest b (unat dest + x) = b ! x" if "x < 512" for x
    using assms(1,4) that by (simp add: int_flash_lawful_def)
  show "int_flash_write k m dest b (0x8008000 + j) = img ! j"
  proof (cases "j < i")
    case True
    then show ?thesis using low [of "0x8008000 + j"] assms(2,3) j(2) by (simp add: installed_def)
  next
    case False
    then have "j - i < 512" "0x8008000 + j = unat dest + (j - i)" using j(1) assms(3) by simp_all
    then show ?thesis using new [of "j - i"] assms(5) [of "j - i"] j(2) False by simp
  qed
qed

lemma flash_loop_law:
  "int_flash_lawful k \<Longrightarrow> fw_device mem st \<Longrightarrow> unat (data_size c) = length img \<Longrightarrow> length img + 512 \<le> 0x40000 \<Longrightarrow>
   (\<And>j. j < length img \<Longrightarrow> st_mem mem st (0x3C0200 + j) = img ! j) \<Longrightarrow> 512 dvd i \<Longrightarrow> i \<le> 0x40000 \<Longrightarrow>
   unat dest = 0x8008000 + i \<Longrightarrow> installed m img i \<Longrightarrow>
   \<exists>st' m'. flash_loop k c buf st m dest i = Some (st', m') \<and> fw_read mem st st' \<and> installed m' img (length img)
     \<and> (\<forall>j < 0x8008000. m' j = m j)"
proof (induction k c buf st m dest i rule: flash_loop.induct)
  case (1 k c buf st m dest i)
  show ?case
  proof (cases "i < unat (data_size c)")
    case False
    then have "flash_loop k c buf st m dest i = Some (st, m)" by (subst flash_loop.simps) simp
    moreover have "installed m img (length img)" using "1.prems"(3,9) False by (auto simp: installed_def)
    ultimately show ?thesis using "1.prems"(2) by (simp add: fw_read_def)
  next
    case True
    obtain q where q: "i = 512 * q" using "1.prems"(6) by blast
    have i: "i + 1024 \<le> 0x40000" using True "1.prems"(3,4) unfolding q by simp
    obtain st1 where r: "ext_storage_read_fw (Some c) st 512 (of_nat i) = Some (st1, Some (st_bytes mem st (0x3C0200 + i) 512))"
      "fw_read mem st st1"
      using ext_storage_read_fw_law [OF "1.prems"(2,6) i, of c] by blast
    define b where "b = st_bytes mem st (0x3C0200 + i) 512"
    define m1 where "m1 = int_flash_write k m dest b"
    have st1: "fw_device mem st1" "st_mem mem st1 = st_mem mem st" using r(2) by (simp_all add: fw_read_def)
    have "b ! j = img ! (i + j)" if "j < 512" "i + j < length img" for j
      using that "1.prems"(5) [of "i + j"] by (simp add: b_def st_bytes_def add.assoc)
    then have m1: "installed m1 img (i + 512)"
      using installed_step [OF "1.prems"(1,9,8), of b] by (simp add: m1_def b_def)
    have low: "\<forall>j < 0x8008000. m1 j = m j"
      using "1.prems"(1,8) by (simp add: m1_def int_flash_lawful_def)
    have d: "unat (dest + 512) = 0x8008000 + (i + 512)" using "1.prems"(8) i by (simp add: unat_word_ariths)
    have eq: "flash_loop k c buf st m dest i = flash_loop k c b st1 m1 (dest + 512) (i + 512)"
      using True r(1) by (subst flash_loop.simps) (simp add: b_def m1_def Let_def)
    have "\<exists>st' m'. flash_loop k c b st1 m1 (dest + 512) (i + 512) = Some (st', m') \<and> fw_read mem st1 st'
       \<and> installed m' img (length img) \<and> (\<forall>j < 0x8008000. m' j = m1 j)"
      unfolding m1_def
    proof (rule "1.IH" [OF True r(1) refl])
      show "b = (case Some (st_bytes mem st (0x3C0200 + i) 512) of None \<Rightarrow> buf | Some b \<Rightarrow> b)" by (simp add: b_def)
      show "\<And>j. j < length img \<Longrightarrow> st_mem mem st1 (0x3C0200 + j) = img ! j" unfolding st1(2) by (rule "1.prems"(5))
      show "512 dvd i + 512" "i + 512 \<le> 0x40000" using i by (simp_all add: q)
    qed (use "1.prems" st1 d m1 in \<open>simp_all add: m1_def\<close>)
    then show ?thesis using eq r(2) low fw_read_trans by fastforce
  qed
qed

end
