(* ===== verification/BootProps.thy ===== *)
theory BootProps
  imports BootInstall
begin

text \<open>
  The container tool (\<open>ut/app_container/main.c\<close>) and the properties of the bootloader, up to a
  whole update: the tool's records received, the installation after the reset, the start.
\<close>

unbundle bit_operations_syntax

subsection \<open>The container tool\<close>

definition ut_chsum_byte :: "u32 \<Rightarrow> u8 \<Rightarrow> u32" where
  "ut_chsum_byte start_value b = (let msb = drop_bit 31 start_value AND 1 in push_bit 1 start_value + msb + ucast b)"

definition ut_chsum32 :: "u8 list \<Rightarrow> u32 \<Rightarrow> u32" where
  "ut_chsum32 data start_value = foldl ut_chsum_byte start_value data"

abbreviation (input) UT_CHSUM32_START :: u32 where "UT_CHSUM32_START \<equiv> 0x6b13ff7d"

definition container_bytes :: "container_hdr \<Rightarrow> u8 list" where
  "container_bytes c = to_le 4 (data_size c) @ to_le 4 (data_chsum c) @ to_le 4 (generated_for_hw_num c)
     @ to_le 2 (device_id c) @ to_le 2 (hw_version_min c) @ to_le 2 (hw_version_max c) @ fw_name c @ [aes c] @ ct_res c
     @ to_le 4 (hdr_chsum c)"

text \<open>The container of an image without encryption; \<open>fw\<close> is the name option.\<close>

definition container_fields :: "u8 list \<Rightarrow> u8 list \<Rightarrow> container_hdr" where
  "container_fields fw img =
     (let info = app_info_of (take 16 img)
      in \<lparr>data_size = of_nat (length img), data_chsum = ut_chsum32 img UT_CHSUM32_START, generated_for_hw_num = 0,
          device_id = ai_device_id info, hw_version_min = ai_hw_min info, hw_version_max = ai_hw_max info,
          fw_name = strncpy fw 16, aes = 0, ct_res = replicate 473 0, hdr_chsum = 0\<rparr>)"

definition make_container :: "u8 list \<Rightarrow> u8 list \<Rightarrow> container_hdr" where
  "make_container fw img =
     (let c = container_fields fw img
      in c\<lparr>hdr_chsum := ut_chsum32 (take 508 (container_bytes c)) UT_CHSUM32_START\<rparr>)"

text \<open>The printed file: the container and the image at the start of the firmware region, the end record.\<close>

definition ut_hex_output :: "u8 list \<Rightarrow> u8 list \<Rightarrow> u8 list list" where
  "ut_hex_output fw img =
     (let (l1, hi) = ihex_flush 0 0x3C0000 (container_bytes (make_container fw img));
          (l2, hi) = ihex_flush hi (0x3C0000 + 512) img
      in l1 @ l2 @ [str '':00000001FF''])"

lemma container_of_bytes:
  assumes "length (fw_name c) = 16" "length (ct_res c) = 473"
  shows "container_of (container_bytes c) = c"
  using assms by (cases c) (simp add: container_of_def container_bytes_def slice_def nth_append)

lemma length_container_bytes:
  "length (fw_name c) = 16 \<Longrightarrow> length (ct_res c) = 473 \<Longrightarrow> length (container_bytes c) = 512"
  by (simp add: container_bytes_def)

lemma take_container_bytes:
  "length (fw_name c) = 16 \<Longrightarrow> length (ct_res c) = 473 \<Longrightarrow>
   take 508 (container_bytes (c\<lparr>hdr_chsum := x\<rparr>)) = take 508 (container_bytes c)"
  by (simp add: container_bytes_def)

lemma make_container_size:
  "length (fw_name (make_container fw img)) = 16" "length (ct_res (make_container fw img)) = 473"
  by (simp_all add: make_container_def container_fields_def Let_def)

definition sdk_of_tool :: "sdk \<Rightarrow> bool" where
  "sdk_of_tool k \<longleftrightarrow> chsum32 k = ut_chsum32 \<and> CHSUM32_START k = UT_CHSUM32_START"

lemma sdk_of_tool_lawful: "sdk_of_tool k \<Longrightarrow> chsum_lawful k"
  by (simp add: sdk_of_tool_def chsum_lawful_def ut_chsum32_def)

lemma make_container_stored:
  assumes "sdk_of_tool k" "0x400 \<le> length img" "length img + 512 \<le> 0x40000"
    and "\<And>i. i < 512 \<Longrightarrow> m (0x3C0000 + i) = container_bytes (make_container fw img) ! i"
    and "\<And>i. i < length img \<Longrightarrow> m (0x3C0200 + i) = img ! i"
  shows "fw_stored k m img"
proof -
  define c where "c = make_container fw img"
  define h where "h = container_bytes c"
  have sz: "length (fw_name c) = 16" "length (ct_res c) = 473" by (simp_all add: c_def make_container_size)
  have h: "container_of h = c" "length h = 512"
    using container_of_bytes [OF sz] length_container_bytes [OF sz] by (simp_all add: h_def)
  have "hdr_chsum c = ut_chsum32 (take 508 h) UT_CHSUM32_START"
  proof -
    define c0 where "c0 = container_fields fw img"
    have "length (fw_name c0) = 16" "length (ct_res c0) = 473" by (simp_all add: c0_def container_fields_def Let_def)
    from take_container_bytes [OF this] show ?thesis
      by (simp add: h_def c_def make_container_def Let_def c0_def [symmetric])
  qed
  then have v: "container_valid k h 512" using assms(1) h by (simp add: container_valid_def sdk_of_tool_def)
  have "unat (data_size c) = length img" "data_chsum c = chsum32 k img (CHSUM32_START k)"
    using assms(1,3) by (simp_all add: c_def make_container_def container_fields_def Let_def sdk_of_tool_def)
  then show ?thesis
    unfolding fw_stored_def using h v assms by (auto simp: h_def c_def intro!: exI [of _ h])
qed

subsection \<open>Installation and start\<close>

text \<open>An image: its first 16 bytes give the size and checksum of what follows the information page.\<close>

definition app_image_ok :: "u8 list \<Rightarrow> bool" where
  "app_image_ok img \<longleftrightarrow> (let info = app_info_of (take 16 img)
     in 0x400 \<le> unat (ai_size info) \<and> unat (ai_size info) \<le> 0x77E00 \<and> length img = 512 + unat (ai_size info)
        \<and> app_crc (drop 512 img) = ai_crc info)"

lemma installed_ok:
  assumes "installed m img (length img)" "app_image_ok img"
  shows "main_app_ok m"
proof -
  define info where "info = app_info_of (take 16 img)"
  have i: "0x400 \<le> unat (ai_size info)" "unat (ai_size info) \<le> 0x77E00" "length img = 512 + unat (ai_size info)"
    "app_crc (drop 512 img) = ai_crc info" using assms(2) unfolding app_image_ok_def info_def Let_def by blast+
  have m: "m (0x8008000 + j) = img ! j" if "j < length img" for j using assms(1) that by (simp add: installed_def)
  have "int_bytes m APP_INFO_PAGE_ADDR 16 = take 16 img"
  proof (rule nth_equalityI)
    show "length (int_bytes m APP_INFO_PAGE_ADDR 16) = length (take 16 img)" using i(3) by (simp add: int_bytes_def)
    fix j assume "j < length (int_bytes m APP_INFO_PAGE_ADDR 16)"
    then have "j < 16" by (simp add: int_bytes_def)
    then show "int_bytes m APP_INFO_PAGE_ADDR 16 ! j = take 16 img ! j" using m [of j] i(3) by (simp add: int_bytes_def)
  qed
  moreover have "int_bytes m APP_START_ADDR (unat (ai_size info)) = drop 512 img"
  proof (rule nth_equalityI)
    show "length (int_bytes m APP_START_ADDR (unat (ai_size info))) = length (drop 512 img)"
      using i(3) by (simp add: int_bytes_def)
    fix j assume "j < length (int_bytes m APP_START_ADDR (unat (ai_size info)))"
    then have j: "j < unat (ai_size info)" by (simp add: int_bytes_def)
    have "0x8008000 + (512 + j) = 0x8008200 + j" by simp
    then have "m (0x8008200 + j) = img ! (512 + j)" using m [of "512 + j"] i(3) j by simp
    then show "int_bytes m APP_START_ADDR (unat (ai_size info)) ! j = drop 512 img ! j"
      using j i(3) by (simp add: int_bytes_def)
  qed
  ultimately show ?thesis using i by (simp add: main_app_ok_def info_def [symmetric] Let_def word_less_nat_alt not_less)
qed

lemma ext_init_law:
  assumes "fw_dev_ok mem (st_dev st)"
  shows "\<exists>st'. ext_storage_init st = (st', True) \<and> fw_read mem st st'"
proof -
  obtain s r where i: "fl_init (st_dev st) (fl_state (st_dev st)) = (s, r)" by fastforce
  then have "r" "mem s = mem (fl_state (st_dev st))" using assms unfolding fw_dev_ok_def by (metis snd_conv, metis fst_conv)
  then show ?thesis
    using i assms by (auto simp: ext_storage_init_def flash_init_def fw_read_def fw_device_def fw_dev_ok_def
        st_mem_def flash_reliable_def)
qed

lemma main_flash_app_law:
  assumes "int_flash_lawful k" "chsum_lawful k" "fw_dev_ok mem (st_dev (ih_ext (bt_ihex st)))"
    and fw: "fw_stored k (st_mem mem (ih_ext (bt_ihex st))) img"
  shows "\<exists>h m. main_flash_app k junk st = Some (st\<lparr>bt_ihex := h, bt_int := m\<rparr>, True)
     \<and> installed m img (length img) \<and> (\<forall>j < 0x8008000. m j = bt_int st j)"
proof -
  define e where "e = ih_ext (bt_ihex st)"
  obtain e1 where 1: "ext_storage_init e = (e1, True)" "fw_read mem e e1"
    using ext_init_law [OF assms(3)] by (auto simp: e_def)
  have d1: "fw_device mem e1" "fw_stored k (st_mem mem e1) img" using 1(2) fw by (simp_all add: fw_read_def e_def)
  obtain e2 c where 2: "ext_storage_check_fw k e1 = (e2, Some c)" "fw_read mem e1 e2" "unat (data_size c) = length img"
    using ext_storage_check_fw_ok [OF assms(2) d1] by blast
  have d2: "fw_device mem e2" using 2(2) by (simp add: fw_read_def)
  have img: "length img + 512 \<le> 0x40000" "\<And>j. j < length img \<Longrightarrow> st_mem mem e2 (0x3C0200 + j) = img ! j"
    using d1(2) 2(2) by (simp_all add: fw_stored_def fw_read_def)
  have "\<exists>e3 m. flash_loop k c junk e2 (bt_int st) APP_INFO_PAGE_ADDR 0 = Some (e3, m) \<and> fw_read mem e2 e3
      \<and> installed m img (length img) \<and> (\<forall>j < 0x8008000. m j = bt_int st j)"
    by (rule flash_loop_law [OF assms(1) d2 2(3) img]) (simp_all add: installed_def)
  then obtain e3 m where 3: "flash_loop k c junk e2 (bt_int st) APP_INFO_PAGE_ADDR 0 = Some (e3, m)"
    "installed m img (length img)" "\<forall>j < 0x8008000. m j = bt_int st j" by blast
  have "main_flash_app k junk st = Some (st\<lparr>bt_ihex := (bt_ihex st)\<lparr>ih_ext := e3\<rparr>, bt_int := m\<rparr>, True)"
    using 1(1) 2(1) 3(1) by (simp add: main_flash_app_def bt_ext_init_def e_def [symmetric])
  then show ?thesis using 3(2,3) by blast
qed

lemma boot_main_installs_any:
  assumes "int_flash_lawful k" "chsum_lawful k" "fw_dev_ok mem (st_dev (ih_ext (bt_ihex st)))"
    and "fw_stored k (st_mem mem (ih_ext (bt_ihex st))) img" "app_image_ok img"
    and "if rt = RESET_USER_RQ then GPREG_BOOT st = BOOT_FLASH_RQ k
         \<or> GPREG_BOOT st \<noteq> BOOT_STAY_IN_BOOT k \<and> \<not> main_app_ok (bt_int st) else \<not> main_app_ok (bt_int st)"
  shows "\<exists>st'. boot_main k junk rt st = Some (st', if GPREG_BOOTLOOP st + 1 > 5 then BOOT_LOOP else RUN_APP)
     \<and> installed (bt_int st') img (length img)
     \<and> main_app_ok (bt_int st') \<and> (\<forall>j < 0x8008000. bt_int st' j = bt_int st j)
     \<and> GPREG_BOOTLOOP st' = (if GPREG_BOOTLOOP st + 1 > 5 then 0 else GPREG_BOOTLOOP st + 1)"
proof -
  define st1 where "st1 = (if rt = RESET_USER_RQ then st\<lparr>GPREG_BOOT := 0\<rparr> else st)"
  have s1: "bt_ihex st1 = bt_ihex st" "bt_int st1 = bt_int st" "GPREG_BOOTLOOP st1 = GPREG_BOOTLOOP st" by (simp_all add: st1_def)
  obtain h m where f: "main_flash_app k junk st1 = Some (st1\<lparr>bt_ihex := h, bt_int := m\<rparr>, True)" "installed m img (length img)"
    "\<forall>j < 0x8008000. m j = bt_int st j"
    using main_flash_app_law [OF assms(1,2), of mem st1 img junk] assms(3,4) s1 by auto
  have ok: "main_app_ok m" by (rule installed_ok [OF f(2) assms(5)])
  define st2 where "st2 = st1\<lparr>bt_ihex := h, bt_int := m, GPREG_BOOTLOOP := GPREG_BOOTLOOP st + 1\<rparr>"
  have "boot_main k junk rt st
      = (if GPREG_BOOTLOOP st + 1 > 5 then Some (bl_task_start (fst (bt_ext_init (st2\<lparr>GPREG_BOOTLOOP := 0\<rparr>))), BOOT_LOOP)
         else Some (st2, RUN_APP))"
    using assms(6) f(1) ok s1(3) unfolding boot_main_def Let_def st1_def [symmetric] st2_def
    by (auto split: if_splits)
  then show ?thesis using f(2,3) ok
    by (auto simp: st2_def bl_task_start_def bt_ext_init_def Let_def split_def)
qed

lemma boot_main_installs:
  assumes "int_flash_lawful k" "chsum_lawful k" "fw_dev_ok mem (st_dev (ih_ext (bt_ihex st)))"
    and "fw_stored k (st_mem mem (ih_ext (bt_ihex st))) img" "app_image_ok img" "GPREG_BOOTLOOP st < 5"
    and "if rt = RESET_USER_RQ then GPREG_BOOT st = BOOT_FLASH_RQ k
         \<or> GPREG_BOOT st \<noteq> BOOT_STAY_IN_BOOT k \<and> \<not> main_app_ok (bt_int st) else \<not> main_app_ok (bt_int st)"
  shows "\<exists>st'. boot_main k junk rt st = Some (st', RUN_APP) \<and> installed (bt_int st') img (length img)
     \<and> main_app_ok (bt_int st') \<and> (\<forall>j < 0x8008000. bt_int st' j = bt_int st j)"
proof -
  have "unat (GPREG_BOOTLOOP st + 1) \<le> 5"
    using assms(6) unat_Suc_no_wrap [OF assms(6)] by (simp add: word_less_nat_alt)
  then have "\<not> GPREG_BOOTLOOP st + 1 > 5" by (simp add: word_less_nat_alt)
  then show ?thesis using boot_main_installs_any [OF assms(1-5,7), of junk] by auto
qed

subsection \<open>A session of the command loop\<close>

fun bl_feed :: "sdk \<Rightarrow> 'f boot \<Rightarrow> u8 list list \<Rightarrow> ('f boot \<times> bl_action list) option" where
  "bl_feed k st [] = Some (st, [])"
| "bl_feed k st (l # ls) =
     do { (st, a) \<leftarrow> bl_rx k st (l @ [0]);
          (st, as) \<leftarrow> bl_feed k st ls;
          Some (st, a # as) }"

lemma ihex_parse_colon:
  assumes "ihex_parse st (l @ [0]) = Some (buf, st', True)"
  shows "\<exists>l'. l = 58 # l'"
proof (rule ccontr)
  assume n: "\<not> ?thesis"
  then have "\<exists>c r. l @ [0] = c # r \<and> c \<noteq> 58" by (cases l) auto
  then show False using assms by (auto simp: ihex_parse_def ihex_record_def)
qed

lemma bl_feed_ihex:
  "ihex_feed (bt_ihex st) ls = Some (h, replicate (length ls) True) \<Longrightarrow>
   \<exists>t. bl_feed k st ls = Some (st\<lparr>bt_ihex := h, bl_timeout := t\<rparr>, replicate (length ls) BL_CONTINUE)"
proof (induction ls arbitrary: st)
  case Nil
  have "st = st\<lparr>bt_ihex := bt_ihex st, bl_timeout := bl_timeout st\<rparr>" by simp
  then show ?case using Nil by (cases st) auto
next
  case (Cons l ls)
  then obtain buf h1 where p: "ihex_parse (bt_ihex st) (l @ [0]) = Some (buf, h1, True)"
    "ihex_feed h1 ls = Some (h, replicate (length ls) True)"
    by (auto simp: bind_eq_Some_conv)
  obtain l' where l: "l = 58 # l'" using ihex_parse_colon [OF p(1)] by blast
  have r: "bl_rx k st (l @ [0]) = Some (st\<lparr>bt_ihex := h1, bl_timeout := 0\<rparr>, BL_CONTINUE)"
    using p(1) by (simp add: bl_rx_def l)
  have "ihex_feed (bt_ihex (st\<lparr>bt_ihex := h1, bl_timeout := 0\<rparr>)) ls = Some (h, replicate (length ls) True)" using p(2) by simp
  from Cons.IH [OF this] show ?case using r by auto
qed

lemma ihex_end_record:
  "\<exists>buf. ihex_parse st (str '':00000001FF'' @ [0]) = Some (buf, st\<lparr>ih_hiword := 0, ih_ext := storage_flush_cache (ih_ext st)\<rparr>, True)"
proof -
  have "str '':00000001FF'' = 58 # hexes ([of_nat (length ([]::u8 list)), 0, 0, 1] @ [] @ [0xFF])"
    by (simp add: str_def hex2_chars hex_char_def)
  then show ?thesis using ihex_record_hexes [of "[]" 0 0 1 "0xFF"] by (auto simp: ihex_parse_def)
qed

lemma storage_flush_fw:
  assumes "fw_device mem st"
  shows "fw_read mem st (storage_flush_cache st)"
  using assms by (simp add: fw_read_def fw_device_def fw_dev_ok_def storage_flush_cache_def flash_flush_cache_def st_mem_def
      flash_lawful_def flash_reliable_def)

text \<open>The records of a whole image leave the container and the image in the external flash.\<close>

lemma ut_hex_output_stored:
  assumes "sdk_of_tool k" "0x400 \<le> length img" "length img + 512 \<le> 0x40000"
    and "fw_device mem (ih_ext h)" "ih_hiword h = 0"
  shows "\<exists>h'. ihex_feed h (ut_hex_output fw img) = Some (h', replicate (length (ut_hex_output fw img)) True)
     \<and> fw_stored k (st_mem mem (ih_ext h')) img \<and> fw_device mem (ih_ext h')"
proof -
  define cb where "cb = container_bytes (make_container fw img)"
  have cb: "length cb = 512" by (simp add: cb_def length_container_bytes make_container_size)
  obtain l1 hi1 h1 where 1: "ihex_flush 0 0x3C0000 cb = (l1, hi1)" "ihex_feed h l1 = Some (h1, replicate (length l1) True)"
    "ih_hiword h1 = push_bit 16 hi1" "fw_wrote mem (ih_ext h) 0x3C0000 cb (ih_ext h1)"
    using ihex_transfer_block [OF assms(4), of 0 "0x3C0000" cb] cb assms(5) by auto
  have d1: "fw_device mem (ih_ext h1)" using 1(4) by (simp add: fw_wrote_def)
  obtain l2 hi2 h2 where 2: "ihex_flush hi1 0x3C0200 img = (l2, hi2)" "ihex_feed h1 l2 = Some (h2, replicate (length l2) True)"
    "fw_wrote mem (ih_ext h1) 0x3C0200 img (ih_ext h2)"
    using ihex_transfer_block [OF d1 1(3), of "0x3C0200" img] assms(3) by auto
  define h3 where "h3 = h2\<lparr>ih_hiword := 0, ih_ext := storage_flush_cache (ih_ext h2)\<rparr>"
  have d2: "fw_device mem (ih_ext h2)" using 2(3) by (simp add: fw_wrote_def)
  have o: "ut_hex_output fw img = l1 @ l2 @ [str '':00000001FF'']" using 1(1) 2(1) by (simp add: ut_hex_output_def cb_def)
  have "ihex_feed h2 [str '':00000001FF''] = Some (h3, [True])" using ihex_end_record [of h2] by (auto simp: h3_def)
  then have "ihex_feed h (ut_hex_output fw img)
      = Some (h3, replicate (length l1) True @ replicate (length l2) True @ [True])"
    unfolding o by (intro ihex_feed_append [OF 1(2)] ihex_feed_append [OF 2(2)])
  then have f: "ihex_feed h (ut_hex_output fw img) = Some (h3, replicate (length (ut_hex_output fw img)) True)"
    by (simp add: o replicate_add replicate_append_same)
  have m3: "st_mem mem (ih_ext h3) = st_mem mem (ih_ext h2)" "fw_device mem (ih_ext h3)"
    using storage_flush_fw [OF d2] by (simp_all add: h3_def fw_read_def)
  have at: "st_mem mem st (a + i) = bs ! i" if "st_bytes mem st a (length bs) = bs" "i < length bs" for st a bs i
  proof -
    have "st_bytes mem st a (length bs) ! i = st_mem mem st (a + i)" using that(2) by (simp add: st_bytes_def)
    then show ?thesis using that(1) by simp
  qed
  have "fw_stored k (st_mem mem (ih_ext h3)) img"
  proof (rule make_container_stored [OF assms(1,2,3)])
    fix i assume i: "i < (512::nat)"
    have "st_mem mem (ih_ext h2) (0x3C0000 + i) = st_mem mem (ih_ext h1) (0x3C0000 + i)"
      using 2(3) i by (simp add: fw_wrote_def)
    also have "\<dots> = cb ! i" by (rule at) (use 1(4) i cb in \<open>simp_all add: fw_wrote_def\<close>)
    finally show "st_mem mem (ih_ext h3) (0x3C0000 + i) = container_bytes (make_container fw img) ! i"
      using m3(1) by (simp add: cb_def)
  next
    fix i assume "i < length img"
    then have "st_mem mem (ih_ext h2) (0x3C0200 + i) = img ! i" using 2(3) by (intro at) (simp_all add: fw_wrote_def)
    then show "st_mem mem (ih_ext h3) (0x3C0200 + i) = img ! i" by (simp add: m3(1))
  qed
  then show ?thesis using f m3(2) by blast
qed

text \<open>A reset loses what is in RAM.\<close>

definition boot_reset :: "'f boot \<Rightarrow> 'f boot" where
  "boot_reset st = st\<lparr>bt_ihex := \<lparr>ih_hiword = 0, ih_ext = (ih_ext (bt_ihex st))\<lparr>st_ready := False\<rparr>\<rparr>, bl_timeout := 0\<rparr>"

subsection \<open>Properties\<close>

text \<open>C2: a whole update. The file that the container tool prints for an image (whose information page gives the
  right size and checksum, and that fits in the region), sent line by line to the bootloader's command
  loop, is accepted line by line; after the command F and the reset it asks for, the bootloader installs exactly that
  image, finds its checksum right and starts it, when fewer than five starts are unconfirmed (the boot counter is
  below 5); the bootloader's own flash is not touched.\<close>

theorem firmware_update:
  assumes "sdk_of_tool k" "int_flash_lawful k" "app_image_ok img" "length img + 512 \<le> 0x40000"
    and "fw_device mem (ih_ext (bt_ihex st))" "ih_hiword (bt_ihex st) = 0" "GPREG_BOOTLOOP st < 5"
  shows "\<exists>st1 st2 st3. bl_feed k st (ut_hex_output fw img) = Some (st1, replicate (length (ut_hex_output fw img)) BL_CONTINUE)
     \<and> bl_rx k st1 (str ''F'' @ [0]) = Some (st2, BL_RESET)
     \<and> boot_main k junk RESET_USER_RQ (boot_reset st2) = Some (st3, RUN_APP)
     \<and> int_bytes (bt_int st3) APP_INFO_PAGE_ADDR (length img) = img
     \<and> (\<forall>j < 0x8008000. bt_int st3 j = bt_int st j)"
proof -
  have len: "0x400 \<le> length img" using assms(3) unfolding app_image_ok_def Let_def by linarith
  obtain h where h: "ihex_feed (bt_ihex st) (ut_hex_output fw img) = Some (h, replicate (length (ut_hex_output fw img)) True)"
    "fw_stored k (st_mem mem (ih_ext h)) img" "fw_device mem (ih_ext h)"
    using ut_hex_output_stored [OF assms(1) len assms(4,5,6)] by blast
  from bl_feed_ihex [OF h(1)] obtain t
    where f: "bl_feed k st (ut_hex_output fw img) = Some (st\<lparr>bt_ihex := h, bl_timeout := t\<rparr>, replicate (length (ut_hex_output fw img)) BL_CONTINUE)"
    by blast
  define st1 where "st1 = st\<lparr>bt_ihex := h, bl_timeout := t\<rparr>"
  define st2 where "st2 = st1\<lparr>bt_ihex := h\<lparr>ih_ext := storage_flush_cache (ih_ext h)\<rparr>, GPREG_BOOT := BOOT_FLASH_RQ k, GPREG_WDID := WDID_REBOOT_RQ k\<rparr>"
  have F: "bl_rx k st1 (str ''F'' @ [0]) = Some (st2, BL_RESET)"
    by (simp add: bl_rx_def str_def st2_def st1_def)
  define rs where "rs = boot_reset st2"
  have fl: "fw_device mem (storage_flush_cache (ih_ext h))" "st_mem mem (storage_flush_cache (ih_ext h)) = st_mem mem (ih_ext h)"
    using storage_flush_fw [OF h(3)] by (simp_all add: fw_read_def)
  have "fw_dev_ok mem (st_dev (ih_ext (bt_ihex rs)))" using fl(1) by (simp add: rs_def boot_reset_def st2_def fw_device_def)
  moreover have "st_mem mem (ih_ext (bt_ihex rs)) = st_mem mem (ih_ext h)"
    using fl(2) by (simp add: rs_def boot_reset_def st2_def st_mem_def)
  ultimately obtain st3 where b: "boot_main k junk RESET_USER_RQ rs = Some (st3, RUN_APP)" "installed (bt_int st3) img (length img)"
    "\<forall>j < 0x8008000. bt_int st3 j = bt_int rs j"
    using boot_main_installs [OF assms(2) sdk_of_tool_lawful [OF assms(1)], of mem rs img RESET_USER_RQ junk] h(2) assms(3,7)
    by (auto simp: rs_def boot_reset_def st2_def st1_def)
  have "int_bytes (bt_int st3) APP_INFO_PAGE_ADDR (length img) = img"
    using b(2) by (intro nth_equalityI) (simp_all add: int_bytes_def installed_def)
  then show ?thesis using f F b(1,3) by (auto simp: st1_def rs_def boot_reset_def st2_def)
qed

text \<open>Instances for the witnesses: the tool's checksum, and an internal flash without erase.\<close>

definition ram_sdk :: sdk where
  "ram_sdk = \<lparr>chsum32 = ut_chsum32, CHSUM32_START = UT_CHSUM32_START,
     int_flash_write = \<lambda>m a bs i. if unat a \<le> i \<and> i < unat a + length bs then bs ! (i - unat a) else m i,
     BOOT_FLASH_RQ = 2, BOOT_STAY_IN_BOOT = 1, WDID_REBOOT_RQ = 7\<rparr>"

lemma ram_sdk_ok: "sdk_of_tool ram_sdk" "int_flash_lawful ram_sdk"
  by (simp_all add: ram_sdk_def sdk_of_tool_def int_flash_lawful_def)

definition ram_boot :: "'f storage \<Rightarrow> 'f boot" where
  "ram_boot e = \<lparr>bt_ihex = \<lparr>ih_hiword = 0, ih_ext = e\<rparr>, bt_int = (\<lambda>_. 0xFF), GPREG_BOOT = 0, GPREG_BOOTLOOP = 0,
     GPREG_WDID = 0, bl_timeout = 0\<rparr>"

text \<open>An image of 1024 bytes with its information page.\<close>

definition example_app :: "u8 list" where "example_app = replicate 1024 0x5A"

definition example_image :: "u8 list" where
  "example_image = to_le 4 (1024 :: u32) @ to_le 4 (app_crc example_app) @ replicate 504 0 @ example_app"

lemma example_image_ok: "app_image_ok example_image" "length example_image = 1536"
proof -
  show l: "length example_image = 1536" by (simp add: example_image_def example_app_def)
  have i: "ai_size (app_info_of (take 16 example_image)) = 1024" "ai_crc (app_info_of (take 16 example_image)) = app_crc example_app"
    by (simp_all add: app_info_of_def slice_def example_image_def min_def del: to_le.simps)
  have "drop 512 example_image = example_app" by (simp add: example_image_def)
  then show "app_image_ok example_image" using l i unfolding app_image_ok_def Let_def by simp
qed

theorem firmware_update_witness:
  "\<exists>st1 st2 st3. bl_feed ram_sdk (ram_boot (ram_storage (\<lambda>_. 0xFF))) (ut_hex_output (str ''fw'') example_image)
       = Some (st1, replicate (length (ut_hex_output (str ''fw'') example_image)) BL_CONTINUE)
     \<and> bl_rx ram_sdk st1 (str ''F'' @ [0]) = Some (st2, BL_RESET)
     \<and> boot_main ram_sdk [] RESET_USER_RQ (boot_reset st2) = Some (st3, RUN_APP)
     \<and> int_bytes (bt_int st3) APP_INFO_PAGE_ADDR 1536 = example_image"
proof -
  have "fw_device id (ih_ext (bt_ihex (ram_boot (ram_storage (\<lambda>_. 0xFF)))))" by (simp add: ram_boot_def)
  from firmware_update [OF ram_sdk_ok(1,2) example_image_ok(1) _ this, of "str ''fw''" "[]"]
  show ?thesis unfolding example_image_ok(2) by (auto simp: ram_boot_def) 
qed

text \<open>C21: recovery. When the application in the internal flash is not valid (an interrupted installation, for
  example) and the external flash, whose driver does not fail, holds a container with a valid image, the next
  start, whatever its cause, except a request to stay in the bootloader, installs that image, whatever the
  internal flash held, and the boot check accepts it. The start ends in the application and counts itself; only
  when five earlier starts are unconfirmed does it end in the command loop instead, with the counter cleared.\<close>

theorem boot_recovers:
  assumes "int_flash_lawful k" "chsum_lawful k" "fw_dev_ok mem (st_dev (ih_ext (bt_ihex st)))"
    and "fw_stored k (st_mem mem (ih_ext (bt_ihex st))) img" "app_image_ok img"
    and "\<not> main_app_ok (bt_int st)" "rt = RESET_USER_RQ \<longrightarrow> GPREG_BOOT st \<noteq> BOOT_STAY_IN_BOOT k"
  shows "\<exists>st'. boot_main k junk rt st = Some (st', if GPREG_BOOTLOOP st + 1 > 5 then BOOT_LOOP else RUN_APP)
     \<and> int_bytes (bt_int st') APP_INFO_PAGE_ADDR (length img) = img \<and> main_app_ok (bt_int st')
     \<and> GPREG_BOOTLOOP st' = (if GPREG_BOOTLOOP st + 1 > 5 then 0 else GPREG_BOOTLOOP st + 1)"
proof -
  have "if rt = RESET_USER_RQ then GPREG_BOOT st = BOOT_FLASH_RQ k
       \<or> GPREG_BOOT st \<noteq> BOOT_STAY_IN_BOOT k \<and> \<not> main_app_ok (bt_int st) else \<not> main_app_ok (bt_int st)"
    using assms(6,7) by simp
  from boot_main_installs_any [OF assms(1-5) this, of junk] obtain st' where
    b: "boot_main k junk rt st = Some (st', if GPREG_BOOTLOOP st + 1 > 5 then BOOT_LOOP else RUN_APP)"
      "installed (bt_int st') img (length img)" "main_app_ok (bt_int st')"
      "GPREG_BOOTLOOP st' = (if GPREG_BOOTLOOP st + 1 > 5 then 0 else GPREG_BOOTLOOP st + 1)" by blast
  have "int_bytes (bt_int st') APP_INFO_PAGE_ADDR (length img) = img"
    using b(2) by (intro nth_equalityI) (simp_all add: int_bytes_def installed_def)
  then show ?thesis using b by blast
qed

text \<open>The external flash that the tool's file leaves behind.\<close>

lemma example_flash:
  "\<exists>e :: (nat \<Rightarrow> u8) storage. fw_device id e \<and> fw_stored ram_sdk (st_mem id e) example_image"
proof -
  have l: "0x400 \<le> length example_image" "length example_image + 512 \<le> 0x40000" by (simp_all add: example_image_ok(2))
  show ?thesis
    using ut_hex_output_stored [OF ram_sdk_ok(1) l, of id "\<lparr>ih_hiword = 0, ih_ext = ram_storage (\<lambda>_. 0xFF)\<rparr>"] by auto
qed

theorem boot_recovers_witness:
  "\<exists>(e :: (nat \<Rightarrow> u8) storage) st'. boot_main ram_sdk [] RESET_WDT (ram_boot e) = Some (st', RUN_APP)
     \<and> int_bytes (bt_int st') APP_INFO_PAGE_ADDR 1536 = example_image"
proof -
  obtain e :: "(nat \<Rightarrow> u8) storage" where e: "fw_device id e" "fw_stored ram_sdk (st_mem id e) example_image"
    using example_flash by blast
  have "ai_size (app_info_of (int_bytes (\<lambda>_. 0xFF) APP_INFO_PAGE_ADDR 16)) = 0xFFFFFFFF"
    by (simp add: int_bytes_def app_info_of_def slice_def map_replicate_const upt_rec)
  then have "\<not> main_app_ok (bt_int (ram_boot e))" by (simp add: main_app_ok_def Let_def ram_boot_def)
  moreover have "fw_dev_ok id (st_dev (ih_ext (bt_ihex (ram_boot e))))" using e(1) by (simp add: ram_boot_def fw_device_def)
  ultimately show ?thesis
    using boot_recovers [OF ram_sdk_ok(2) sdk_of_tool_lawful [OF ram_sdk_ok(1)], of id "ram_boot e" example_image RESET_WDT "[]"]
      e(2) example_image_ok by (auto simp: ram_boot_def)
qed

lemma flash_loop_Some: "512 dvd i \<Longrightarrow> \<exists>r. flash_loop k c buf st m dest i = Some r"
proof (induction k c buf st m dest i rule: flash_loop.induct)
  case (1 k c buf st m dest i)
  obtain q where i: "i = 512 * q" using "1.prems" by blast
  show ?case
  proof (cases "i < unat (data_size c)")
    case True
    then have "i < 2 ^ 32" using unsigned_less [of "data_size c", where 'a = nat] by simp
    then have "unat (of_nat i :: u32) = i" by simp
    then have "(of_nat i :: u32) mod 512 = 0" by (simp add: word_unat_eq_iff unat_mod i del: inj_unat_word)
    then obtain st1 r where r: "ext_storage_read_fw (Some c) st 512 (of_nat i) = Some (st1, r)"
      by (cases "sector_read st ((FW_ADDR + (of_nat i + SECTOR_SIZE)) div SECTOR_SIZE)") (auto simp: ext_storage_read_fw_def)
    have "\<exists>x. flash_loop k c (case r of Some b \<Rightarrow> b | None \<Rightarrow> buf) st1
        (int_flash_write k m dest (case r of Some b \<Rightarrow> b | None \<Rightarrow> buf)) (dest + 512) (i + 512) = Some x"
      by (rule "1.IH" [OF True r refl refl]) (use "1.prems" in simp)
    then show ?thesis using True r by (subst flash_loop.simps) (simp add: Let_def)
  qed (subst flash_loop.simps, simp)
qed

lemma main_flash_app_Some: "\<exists>r. main_flash_app k junk st = Some r"
proof -
  obtain st1 ok where i: "bt_ext_init st = (st1, ok)" by fastforce
  obtain e r where c: "ext_storage_check_fw k (ih_ext (bt_ihex st1)) = (e, r)" by fastforce
  show ?thesis
    using flash_loop_Some [of 0 k "the r" junk e "bt_int st1" APP_INFO_PAGE_ADDR]
    by (cases ok; cases r) (auto simp: main_flash_app_def i c)
qed

text \<open>Start safety. The bootloader's start always ends in the application or in the command loop (no
  assertion fails, no loop is left open), on every flash content and with every device; the application is started only when its
  size is in range and its checksum matches, and never after five starts that it did not confirm; in the
  command loop the boot request is cleared.\<close>

theorem boot_main_valid:
  "\<exists>st' e. boot_main k junk rt st = Some (st', e)
     \<and> (if e = RUN_APP then main_app_ok (bt_int st') \<and> GPREG_BOOTLOOP st' \<le> 5 else GPREG_BOOT st' = 0)"
proof -
  define st1 where "st1 = (if rt = RESET_USER_RQ then st\<lparr>GPREG_BOOT := 0\<rparr> else st)"
  obtain st2 x where f: "main_flash_app k junk st1 = Some (st2, x)" using main_flash_app_Some [of k junk st1] by auto
  have "bt_int st1 = bt_int st" by (simp add: st1_def)
  then show ?thesis
    using f unfolding boot_main_def Let_def st1_def [symmetric]
    by (auto simp: bl_task_start_def not_less)
qed

text \<open>Starts after a watchdog reset each, from an application that never confirms its start.\<close>

fun boot_starts :: "sdk \<Rightarrow> u8 list \<Rightarrow> nat \<Rightarrow> 'f boot \<Rightarrow> ('f boot \<times> boot_end list) option" where
  "boot_starts k junk 0 st = Some (st, [])"
| "boot_starts k junk (Suc n) st =
     do { (st, e) \<leftarrow> boot_main k junk RESET_WDT st;
          (st, es) \<leftarrow> boot_starts k junk n st;
          Some (st, e # es) }"

lemma boot_main_count:
  assumes "main_app_ok (bt_int st)" "GPREG_BOOTLOOP st = of_nat n" "n \<le> 5"
  shows "boot_main k junk RESET_WDT st
     = Some (if n < 5 then (st\<lparr>GPREG_BOOTLOOP := of_nat (Suc n)\<rparr>, RUN_APP)
             else (bl_task_start (fst (bt_ext_init (st\<lparr>GPREG_BOOTLOOP := 0\<rparr>))), BOOT_LOOP))"
proof -
  have "unat (of_nat (Suc n) :: u32) = Suc n" by (rule unat_of_nat_u32) (use assms(3) in linarith)
  then have "((of_nat (Suc n) :: u32) > 5) = (n = 5)" using assms(3) by (simp add: word_less_nat_alt del: of_nat_Suc) linarith
  then show ?thesis using assms by (auto simp: boot_main_def Let_def add.commute)
qed

text \<open>A boot loop is caught. An application with a right checksum that is reset by the watchdog again and again
  without confirming its start is started five times; the sixth start ends in the command loop, with the
  counter back at 0.\<close>

theorem boot_loop_caught:
  assumes "main_app_ok (bt_int st)" "GPREG_BOOTLOOP st = 0"
  shows "\<exists>st'. boot_starts k junk 6 st = Some (st', replicate 5 RUN_APP @ [BOOT_LOOP]) \<and> GPREG_BOOTLOOP st' = 0"
proof -
  have step: "\<exists>st'. boot_starts k junk (6 - n) st = Some (st', replicate (5 - n) RUN_APP @ [BOOT_LOOP]) \<and> GPREG_BOOTLOOP st' = 0"
    if "main_app_ok (bt_int st)" "GPREG_BOOTLOOP st = of_nat n" "n \<le> 5" for n and st :: "'a boot"
    using that(3,1,2)
  proof (induction n arbitrary: st rule: inc_induct)
    case base
    then show ?case
      using boot_main_count [of st 5 k junk] by (simp add: bl_task_start_def bt_ext_init_def split_def Let_def)
  next
    case (step n)
    define j l where "j = 6 - Suc n" and "l = 5 - Suc n"
    have jl: "6 - n = Suc j" "5 - n = Suc l" using step(2) by (simp_all add: j_def l_def)
    have b: "boot_main k junk RESET_WDT st = Some (st\<lparr>GPREG_BOOTLOOP := of_nat (Suc n)\<rparr>, RUN_APP)"
      using boot_main_count [of st n k junk] step(2,4,5) by simp
    obtain st' where "boot_starts k junk j (st\<lparr>GPREG_BOOTLOOP := of_nat (Suc n)\<rparr>) = Some (st', replicate l RUN_APP @ [BOOT_LOOP])"
      "GPREG_BOOTLOOP st' = 0"
      using step.IH [of "st\<lparr>GPREG_BOOTLOOP := of_nat (Suc n)\<rparr>"] step(4) unfolding j_def l_def by auto
    then show ?case using b unfolding jl by (simp del: of_nat_Suc)
  qed
  show ?thesis using step [of st 0] assms by simp
qed

theorem boot_loop_caught_witness:
  "\<exists>(st :: (nat \<Rightarrow> u8) boot) st'. boot_starts ram_sdk [] 6 st = Some (st', replicate 5 RUN_APP @ [BOOT_LOOP])"
proof -
  define m where "m = (\<lambda>i. if 0x8008000 \<le> i \<and> i < 0x8008600 then example_image ! (i - 0x8008000) else 0)"
  have "installed m example_image (length example_image)" by (simp add: installed_def m_def example_image_ok(2))
  then have "main_app_ok m" by (rule installed_ok [OF _ example_image_ok(1)])
  then show ?thesis
    using boot_loop_caught [of "(ram_boot (ram_storage (\<lambda>_. 0)))\<lparr>bt_int := m\<rparr>" ram_sdk "[]"] by (auto simp: ram_boot_def)
qed

end
