(* ===== verification/UpdateProps.thy ===== *)
theory UpdateProps
  imports Update BootProps
begin

text \<open>
  The update over the network: with a server that answers with the chunks of one image, whatever is
  lost, repeated or late, the device restarts into the bootloader only with the whole image in the flash (as long as
  no update response arrives late), and the bootloader installs it.
\<close>

unbundle bit_operations_syntax

subsection \<open>Runs with a server\<close>

text \<open>\<open>cs\<close> are the chunks of the server.\<close>

definition chunks_ok :: "u8 list list \<Rightarrow> bool" where
  "chunks_ok cs \<longleftrightarrow> cs \<noteq> [] \<and> length cs \<le> 1024 \<and> (\<forall>c \<in> set cs. length c = 256)"

text \<open>
  A packet with the unit's own number is an update response only in phase 0, and a chunk response carries
  the chunk it names, the last one with the status of the last one.  Anything else is allowed: other packets, other units, chunks
  that were not asked for, errors.
\<close>

definition packet_honest :: "update_env \<Rightarrow> u8 list list \<Rightarrow> int \<Rightarrow> u8 list \<Rightarrow> bool" where
  "packet_honest env cs phase d \<longleftrightarrow> (hdr_unit_id d = ue_addr env \<longrightarrow>
     (hdr_packet_id d = PACKET_ID_UPDATE_RES \<longrightarrow> phase = 0)
     \<and> (hdr_packet_id d = PACKET_ID_CHUNK_RES \<longrightarrow>
          (res_status d = UPDATE_CHUNK_STATUS_OK \<longrightarrow>
             unat (res_chunk_id d) + 1 < length cs \<and> res_data d = cs ! unat (res_chunk_id d))
          \<and> (res_status d = UPDATE_CHUNK_STATUS_DONE \<longrightarrow>
             unat (res_chunk_id d) + 1 = length cs \<and> res_data d = cs ! unat (res_chunk_id d))))"

datatype up_op = Up_Start | Up_Pass update_pass | Up_Packet "u8 list" u16

definition up_op_honest :: "update_env \<Rightarrow> u8 list list \<Rightarrow> int \<Rightarrow> up_op \<Rightarrow> bool" where
  "up_op_honest env cs phase op = (case op of
       Up_Start \<Rightarrow> True
     | Up_Pass ps \<Rightarrow> (\<forall>i. \<forall>p \<in> set (fst (us_wait ps i)). packet_honest env cs phase (fst p))
     | Up_Packet d port \<Rightarrow> packet_honest env cs phase d)"

definition up_step :: "update_env \<Rightarrow> up_op \<Rightarrow> 'f update \<Rightarrow> 'f update option" where
  "up_step env op u = (case op of
       Up_Start \<Rightarrow> map_option fst (update_start env u)
     | Up_Pass ps \<Rightarrow> update_task env ps u
     | Up_Packet d port \<Rightarrow> Some (fst (update_packet_rx env d (of_nat (length d)) port u)))"

text \<open>What can be reached until the restart.\<close>

inductive up_reach :: "update_env \<Rightarrow> u8 list list \<Rightarrow> 'f update \<Rightarrow> 'f update \<Rightarrow> bool" for env cs u where
  up_reach_start: "up_reach env cs u u"
| up_reach_step: "up_reach env cs u v \<Longrightarrow> \<not> up_flash v \<Longrightarrow> up_op_honest env cs (up_phase v) op \<Longrightarrow>
    up_step env op v = Some w \<Longrightarrow> up_reach env cs u w"

subsection \<open>The chunks in the flash\<close>

definition up_stored :: "('f \<Rightarrow> nat \<Rightarrow> u8) \<Rightarrow> u8 list list \<Rightarrow> 'f update \<Rightarrow> nat \<Rightarrow> bool" where
  "up_stored mem cs u k \<longleftrightarrow> k \<le> length cs \<and>
     (\<forall>c < k. st_bytes mem (up_store u) (0x3C0000 + 256 * c) 256 = cs ! c)"

definition up_inv :: "('f \<Rightarrow> nat \<Rightarrow> u8) \<Rightarrow> u8 list list \<Rightarrow> 'f update \<Rightarrow> bool" where
  "up_inv mem cs u \<longleftrightarrow> fw_device mem (up_store u) \<and> 0 \<le> up_phase u
     \<and> up_stored mem cs u (nat (up_phase u - 1))
     \<and> (up_packet_ack u \<longrightarrow> up_stored mem cs u (nat (up_phase u)))
     \<and> (up_flash u \<longrightarrow> up_stored mem cs u (length cs))"

lemma up_set_store_simps [simp]:
  "up_store (up_set_store u st) = st" "up_phase (up_set_store u st) = up_phase u"
  "up_packet_ack (up_set_store u st) = up_packet_ack u" "up_flash (up_set_store u st) = up_flash u"
  "up_update_rq (up_set_store u st) = up_update_rq u" "up_server_port (up_set_store u st) = up_server_port u"
  "up_now (up_set_store u st) = up_now u" "up_task_timer (up_set_store u st) = up_task_timer u"
  "up_err_cnt (up_set_store u st) = up_err_cnt u" "up_server_ip (up_set_store u st) = up_server_ip u"
  by (simp_all add: up_set_store_def)

lemma up_stored_cong: "up_store u = up_store v \<Longrightarrow> up_stored mem cs u k = up_stored mem cs v k"
  by (simp add: up_stored_def)

lemma up_stored_mem:
  "st_mem mem (up_store u) = st_mem mem (up_store v) \<Longrightarrow> up_stored mem cs u k = up_stored mem cs v k"
  by (simp add: up_stored_def st_bytes_def)

lemma up_stored_le: "up_stored mem cs u k \<Longrightarrow> j \<le> k \<Longrightarrow> up_stored mem cs u j"
  by (auto simp: up_stored_def)

lemma fw_write_law:
  assumes "fw_device mem st" "unat off + length data \<le> 0x40000"
  shows "\<exists>st'. storage_write_fw st off data = (st', True) \<and> fw_wrote mem st (0x3C0000 + unat off) data st'"
proof -
  have fl: "flash_lawful mem (st_dev st)" "flash_reliable (st_dev st)" "st_ready st"
    using assms(1) by (simp_all add: fw_device_def fw_dev_ok_def)
  have a: "unat (FW_ADDR + off) = 0x3C0000 + unat off"
    using region_unat [OF assms(2), of "0x3C0000"] by simp
  have fit: "\<not> off + of_nat (length data) > FW_MAX_SIZE"
    using region_sum [OF assms(2)] assms(2) by (simp add: word_less_nat_alt)
  have fs: "unat (FW_ADDR + off) + length data \<le> FLASH_SIZE" using a assms(2) by simp
  then have "snd (dev_write st (FW_ADDR + off) data)"
    using fl(2) by (simp add: dev_write_def flash_write_data_def Let_def flash_reliable_def split_def)
  then obtain st' where w: "dev_write st (FW_ADDR + off) data = (st', True)" by (metis prod.collapse)
  from dev_write_law [OF fl(1) fs w]
  have "fw_wrote mem st (0x3C0000 + unat off) data st'"
    using a assms(1) st_same_fw_device [of st st' mem] by (simp add: fw_wrote_def)
  then show ?thesis using w fl(3) fit by (auto simp: storage_write_fw_def)
qed

lemma chunk_offset: "c < 1024 \<Longrightarrow> unat ((of_nat c :: u32) * 256) = 256 * c"
  by (simp add: unat_word_ariths unsigned_of_nat take_bit_nat_eq_self)

lemma write_chunk_keep:
  assumes "fw_device mem (up_store u)" "chunks_ok cs" "c < length cs" "e < length cs" "e \<noteq> c"
  shows "st_bytes mem (up_store (write_chunk (of_nat c) (cs ! c) u)) (0x3C0000 + 256 * e) 256
    = st_bytes mem (up_store u) (0x3C0000 + 256 * e) 256"
proof -
  have c: "c < 1024" "length (cs ! c) = 256" using assms(2,3) by (auto simp: chunks_ok_def)
  have fit: "unat ((of_nat c :: u32) * 256) + length (cs ! c) \<le> 0x40000" using c by (simp add: chunk_offset)
  from fw_write_law [OF assms(1) fit] obtain st'
    where "storage_write_fw (up_store u) (of_nat c * 256) (cs ! c) = (st', True)"
      "fw_wrote mem (up_store u) (0x3C0000 + 256 * c) (cs ! c) st'"
    unfolding chunk_offset [OF c(1)] by blast
  moreover have "256 * e + 256 \<le> 256 * c \<or> 256 * c + 256 \<le> 256 * e" using assms(5) by (cases "e < c") auto
  ultimately show ?thesis using c(2)
    by (intro st_bytes_cong) (auto simp: write_chunk_def fw_wrote_def)
qed

lemma write_chunk_law:
  assumes "fw_device mem (up_store u)" "chunks_ok cs" "up_stored mem cs u c" "c < length cs"
  shows "fw_device mem (up_store (write_chunk (of_nat c) (cs ! c) u))"
    and "up_stored mem cs (write_chunk (of_nat c) (cs ! c) u) (Suc c)"
proof -
  have c: "c < 1024" "length (cs ! c) = 256" using assms(2,4) by (auto simp: chunks_ok_def)
  have off: "unat ((of_nat c :: u32) * 256) = 256 * c" by (rule chunk_offset [OF c(1)])
  have fit: "unat ((of_nat c :: u32) * 256) + length (cs ! c) \<le> 0x40000" using c by (simp add: off)
  from fw_write_law [OF assms(1) fit] obtain st'
    where w: "storage_write_fw (up_store u) (of_nat c * 256) (cs ! c) = (st', True)"
      and f: "fw_wrote mem (up_store u) (0x3C0000 + 256 * c) (cs ! c) st'"
    unfolding off by blast
  have st: "up_store (write_chunk (of_nat c) (cs ! c) u) = st'"
    using w by (simp add: write_chunk_def)
  show "fw_device mem (up_store (write_chunk (of_nat c) (cs ! c) u))"
    using f st by (simp add: fw_wrote_def)
  have "st_bytes mem st' (0x3C0000 + 256 * d) 256 = cs ! d" if "d < Suc c" for d
    using f c(2) st write_chunk_keep [OF assms(1,2,4), of d] assms(3,4) that
    by (cases "d = c") (auto simp: fw_wrote_def up_stored_def)
  then show "up_stored mem cs (write_chunk (of_nat c) (cs ! c) u) (Suc c)"
    using assms(4) st by (simp add: up_stored_def)
qed

subsection \<open>The receiver keeps the invariant\<close>

lemma main_flash_law:
  assumes "fw_device mem (up_store u)"
  shows "fw_device mem (up_store (main_flash u))" "st_mem mem (up_store (main_flash u)) = st_mem mem (up_store u)"
  using storage_flush_fw [OF assms] by (simp_all add: main_flash_def fw_read_def)

lemma main_flash_simps [simp]:
  "up_phase (main_flash u) = up_phase u" "up_packet_ack (main_flash u) = up_packet_ack u" "up_flash (main_flash u)"
  by (simp_all add: main_flash_def)

lemma write_chunk_simps [simp]:
  "up_phase (write_chunk c d u) = up_phase u" "up_packet_ack (write_chunk c d u) = up_packet_ack u"
  "up_flash (write_chunk c d u) = up_flash u" "up_update_rq (write_chunk c d u) = up_update_rq u"
  "up_server_port (write_chunk c d u) = up_server_port u"
  by (simp_all add: write_chunk_def)

text \<open>The number of the chunk asked for is the phase less one; in phase 0 no number matches.\<close>

lemma chunk_id_match:
  assumes "res_chunk_id d = word_of_int (phase - 1)" "0 \<le> phase" "phase \<le> 1025"
  shows "1 \<le> phase" "unat (res_chunk_id d) = nat (phase - 1)" "res_chunk_id d = of_nat (nat (phase - 1))"
proof -
  have le: "res_chunk_id d \<le> 0xFFFFFF" by (simp add: res_chunk_id_def word_and_le1)
  show 1: "1 \<le> phase"
  proof (rule ccontr)
    assume "\<not> 1 \<le> phase"
    then have "phase = 0" using assms(2) by simp
    then have "- 1 \<le> (0xFFFFFF :: u32)" using assms(1) le by simp
    then show False by (simp add: word_le_nat_alt unsigned_minus_1_eq_mask mask_eq_exp_minus_1)
  qed
  then show 2: "res_chunk_id d = of_nat (nat (phase - 1))" using assms(1) by simp
  show "unat (res_chunk_id d) = nat (phase - 1)"
    unfolding 2 by (rule unat_of_nat_u32) (use assms(3) in linarith)
qed

lemma rx_update_res_inv:
  assumes "up_inv mem cs u" "up_phase u = 0"
  shows "up_inv mem cs (fst (rx_update_res d len u))"
  using assms by (auto simp: rx_update_res_def up_inv_def up_stored_def)

lemma rx_chunk_res_inv:
  assumes I: "up_inv mem cs u" and cs: "chunks_ok cs"
    and ok: "res_status d = UPDATE_CHUNK_STATUS_OK \<longrightarrow>
             unat (res_chunk_id d) + 1 < length cs \<and> res_data d = cs ! unat (res_chunk_id d)"
    and fin: "res_status d = UPDATE_CHUNK_STATUS_DONE \<longrightarrow>
             unat (res_chunk_id d) + 1 = length cs \<and> res_data d = cs ! unat (res_chunk_id d)"
  shows "up_inv mem cs (fst (rx_chunk_res d len u))"
proof (cases "len < sizeof_update_res_data \<or> res_chunk_id d \<noteq> word_of_int (up_phase u - 1)
    \<or> (res_status d \<noteq> UPDATE_CHUNK_STATUS_OK \<and> res_status d \<noteq> UPDATE_CHUNK_STATUS_DONE)")
  case True
  then have "fst (rx_chunk_res d len u) = u" unfolding rx_chunk_res_def Let_def by auto
  then show ?thesis using I by simp
next
  case False
  then have len: "\<not> len < sizeof_update_res_data" and id: "res_chunk_id d = word_of_int (up_phase u - 1)"
    and st: "res_status d = UPDATE_CHUNK_STATUS_OK \<or> res_status d = UPDATE_CHUNK_STATUS_DONE" by blast+
  define c where "c = nat (up_phase u - 1)"
  have ph: "0 \<le> up_phase u" "c \<le> length cs" "up_stored mem cs u c" "fw_device mem (up_store u)"
    using I by (auto simp: up_inv_def up_stored_def c_def)
  have "length cs \<le> 1024" using cs by (simp add: chunks_ok_def)
  then have "up_phase u \<le> 1025" using ph(2) unfolding c_def by linarith
  note m = chunk_id_match [OF id ph(1) this, folded c_def]
  have c: "c < length cs" "res_data d = cs ! c" using st ok fin m(2) by auto
  define w where "w = write_chunk (of_nat c) (cs ! c) u"
  have W: "fw_device mem (up_store w)" "up_stored mem cs w (Suc c)"
    using write_chunk_law [OF ph(4) cs ph(3) c(1)] by (simp_all add: w_def)
  have phase: "nat (up_phase u) = Suc c" using m(1) by (simp add: c_def)
  show ?thesis
  proof (cases "res_status d = UPDATE_CHUNK_STATUS_OK")
    case True
    then have r: "fst (rx_chunk_res d len u) = w\<lparr>up_packet_ack := True\<rparr>"
      using len id m(3) c(2) by (simp add: rx_chunk_res_def w_def)
    have "up_flash u \<longrightarrow> up_stored mem cs w (length cs)"
    proof
      assume "up_flash u"
      then have "up_stored mem cs u (length cs)" using I by (simp add: up_inv_def)
      then have "st_bytes mem (up_store u) (0x3C0000 + 256 * e) 256 = cs ! e" if "e < length cs" for e
        using that by (simp add: up_stored_def)
      moreover have "st_bytes mem (up_store w) (0x3C0000 + 256 * e) 256 = cs ! e" if "e < length cs" for e
        using write_chunk_keep [OF ph(4) cs c(1) that] calculation [OF that] W(2) by (cases "e = c") (auto simp: w_def up_stored_def)
      ultimately show "up_stored mem cs w (length cs)" by (simp add: up_stored_def)
    qed
    then show ?thesis
      using W up_stored_le [OF W(2), of c] phase ph(1) unfolding r up_inv_def
      by (simp add: w_def up_stored_def c_def)
  next
    case False
    then have dn: "res_status d = UPDATE_CHUNK_STATUS_DONE" using st by simp
    then have L: "Suc c = length cs" using dn fin m(2) by simp
    define v where "v = main_flash (w\<lparr>up_update_rq := False\<rparr>)"
    have r: "fst (rx_chunk_res d len u) = v\<lparr>up_packet_ack := True\<rparr>"
      using len id m(3) c(2) dn by (simp add: rx_chunk_res_def w_def v_def)
    have V: "fw_device mem (up_store v)" "st_mem mem (up_store v) = st_mem mem (up_store w)"
      using main_flash_law [of mem "w\<lparr>up_update_rq := False\<rparr>"] W(1) by (simp_all add: v_def)
    have S: "up_stored mem cs v (Suc c)" using W(2) up_stored_mem [OF V(2)] by simp
    have "up_phase v = up_phase u" by (simp add: v_def w_def)
    then show ?thesis
      using V(1) S up_stored_le [OF S, of c] phase ph(1) L unfolding r up_inv_def
      by (simp add: up_stored_def c_def)
  qed
qed

lemma packet_rx_inv:
  assumes "up_inv mem cs u" "chunks_ok cs" "packet_honest env cs (up_phase u) d"
  shows "up_inv mem cs (fst (update_packet_rx env d len port u))"
proof (cases "hdr_unit_id d = ue_addr env")
  case True
  consider "hdr_packet_id d = PACKET_ID_UPDATE_RES" | "hdr_packet_id d = PACKET_ID_CHUNK_RES"
    | "hdr_packet_id d \<noteq> PACKET_ID_UPDATE_RES" "hdr_packet_id d \<noteq> PACKET_ID_CHUNK_RES" by blast
  then show ?thesis
  proof cases
    case 1
    then have "up_phase u = 0" using assms(3) True by (simp add: packet_honest_def)
    from rx_update_res_inv [OF assms(1) this] show ?thesis
      using assms(1) 1 by (simp add: update_packet_rx_def)
  next
    case 2
    have "up_inv mem cs (fst (rx_chunk_res d len u))"
      by (rule rx_chunk_res_inv [OF assms(1,2)]; use assms(3) True 2 in \<open>simp add: packet_honest_def\<close>)
    then show ?thesis using assms(1) 2 by (simp add: update_packet_rx_def)
  qed (use assms(1) in \<open>simp add: update_packet_rx_def\<close>)
qed (use assms(1) in \<open>simp add: update_packet_rx_def\<close>)

lemma packet_rx_phase [simp]: "up_phase (fst (update_packet_rx env d len port u)) = up_phase u"
  by (simp add: update_packet_rx_def rx_update_res_def rx_chunk_res_def Let_def)

lemma rx_all_inv:
  "up_inv mem cs u \<Longrightarrow> chunks_ok cs \<Longrightarrow> \<forall>p \<in> set ps. packet_honest env cs (up_phase u) (fst p) \<Longrightarrow>
   up_inv mem cs (up_rx_all env ps u) \<and> up_phase (up_rx_all env ps u) = up_phase u"
proof (induction env ps u rule: up_rx_all.induct)
  case (2 env d port ps u)
  then show ?case using packet_rx_inv [of mem cs u env d "of_nat (length d)" port] by simp
qed simp

subsection \<open>The task keeps the invariant\<close>

text \<open>The fields that the invariant depends on; the acknowledgement may only be dropped.\<close>

lemma up_inv_cong:
  assumes "up_inv mem cs u" "up_store v = up_store u" "up_phase v = up_phase u" "up_flash v = up_flash u"
    and "up_packet_ack v \<longrightarrow> up_packet_ack u"
  shows "up_inv mem cs v"
  using assms up_stored_cong [OF assms(2), of mem cs] by (simp add: up_inv_def)

lemma wait_loop_step:
  "up_wait_loop env ps limit i u =
     (if up_now u < limit
      then if \<not> up_packet_ack (up_rx_all env (fst (us_wait ps i)) u)
           then up_wait_loop env ps limit (Suc i) ((up_rx_all env (fst (us_wait ps i)) u)\<lparr>up_now := snd (us_wait ps i)\<rparr>)
           else Some ((up_rx_all env (fst (us_wait ps i)) u)\<lparr>up_now := snd (us_wait ps i), up_packet_ack := False\<rparr>, True)
      else Some (u, False))"
  by (subst up_wait_loop.simps) (simp add: Let_def)

definition wait_post :: "('f \<Rightarrow> nat \<Rightarrow> u8) \<Rightarrow> u8 list list \<Rightarrow> int \<Rightarrow> 'f update \<times> bool \<Rightarrow> bool" where
  "wait_post mem cs phase y \<longleftrightarrow> up_inv mem cs (fst y) \<and> up_phase (fst y) = phase
     \<and> (snd y \<longrightarrow> up_stored mem cs (fst y) (nat phase))"

lemma wait_loop_inv:
  assumes "up_wait_loop env ps limit i u = Some y" "chunks_ok cs" "up_inv mem cs u"
    and "\<forall>i. \<forall>p \<in> set (fst (us_wait ps i)). packet_honest env cs (up_phase u) (fst p)"
  shows "wait_post mem cs (up_phase u) y"
proof -
  have "up_inv mem cs u \<longrightarrow> (\<forall>i. \<forall>p \<in> set (fst (us_wait ps i)). packet_honest env cs (up_phase u) (fst p))
      \<longrightarrow> wait_post mem cs (up_phase u) y"
  proof (rule up_wait_loop.raw_induct [OF _ assms(1), where P = "\<lambda>env ps limit i u y. up_inv mem cs u
      \<longrightarrow> (\<forall>i. \<forall>p \<in> set (fst (us_wait ps i)). packet_honest env cs (up_phase u) (fst p))
      \<longrightarrow> wait_post mem cs (up_phase u) y"])
    fix loop env ps limit i u y
    assume IH: "\<And>env ps limit i u y. loop env ps limit i u = Some y \<Longrightarrow> up_inv mem cs u
      \<longrightarrow> (\<forall>i. \<forall>p \<in> set (fst (us_wait ps i)). packet_honest env cs (up_phase u) (fst p))
      \<longrightarrow> wait_post mem cs (up_phase u) y"
      and run: "(if up_now u < limit
        then let u = (up_rx_all env (fst (us_wait ps i)) u)\<lparr>up_now := snd (us_wait ps i)\<rparr>
             in if \<not> up_packet_ack u then loop env ps limit (Suc i) u else Some (u\<lparr>up_packet_ack := False\<rparr>, True)
        else Some (u, False)) = Some y"
    define v where "v = up_rx_all env (fst (us_wait ps i)) u"
    show "up_inv mem cs u \<longrightarrow> (\<forall>i. \<forall>p \<in> set (fst (us_wait ps i)). packet_honest env cs (up_phase u) (fst p))
      \<longrightarrow> wait_post mem cs (up_phase u) y"
    proof (intro impI)
      assume I: "up_inv mem cs u"
        and H: "\<forall>i. \<forall>p \<in> set (fst (us_wait ps i)). packet_honest env cs (up_phase u) (fst p)"
      have V: "up_inv mem cs v" "up_phase v = up_phase u"
        using rx_all_inv [OF I assms(2), of "fst (us_wait ps i)" env] H by (auto simp: v_def)
      consider "\<not> up_now u < limit" | "up_now u < limit" "up_packet_ack v" | "up_now u < limit" "\<not> up_packet_ack v" by blast
      then show "wait_post mem cs (up_phase u) y"
      proof cases
        case 1
        then have "y = (u, False)" using run by simp
        then show ?thesis using I by (simp add: wait_post_def)
      next
        case 2
        then have y: "y = (v\<lparr>up_now := snd (us_wait ps i), up_packet_ack := False\<rparr>, True)"
          using run by (simp add: Let_def v_def)
        have "up_inv mem cs (fst y)" unfolding y by (rule up_inv_cong [OF V(1)]) simp_all
        moreover have "up_stored mem cs v (nat (up_phase u))" using V 2(2) by (simp add: up_inv_def)
        ultimately show ?thesis using V(2) y by (simp add: wait_post_def up_stored_def)
      next
        case 3
        define w where "w = v\<lparr>up_now := snd (us_wait ps i)\<rparr>"
        have L: "loop env ps limit (Suc i) w = Some y" using 3 run by (simp add: Let_def v_def w_def)
        have W: "up_inv mem cs w" unfolding w_def by (rule up_inv_cong [OF V(1)]) simp_all
        have "up_phase w = up_phase u" using V(2) by (simp add: w_def)
        then show ?thesis using IH [OF L] W H by simp
      qed
    qed
  qed
  then show ?thesis using assms(3,4) by blast
qed

lemma send_packet_inv:
  assumes "up_send_packet env ps data u = Some y" "chunks_ok cs" "up_inv mem cs u"
    and "\<forall>i. \<forall>p \<in> set (fst (us_wait ps i)). packet_honest env cs (up_phase u) (fst p)"
  shows "wait_post mem cs (up_phase u) y"
proof -
  define u1 where "u1 = u\<lparr>up_packet_ack := False\<rparr>"
  have I1: "up_inv mem cs u1" unfolding u1_def by (rule up_inv_cong [OF assms(3)]) simp_all
  show ?thesis
  proof (cases "us_tx ps")
    case False
    then have "y = (u1, False)" using assms(1) by (simp add: up_send_packet_def u1_def)
    then show ?thesis using I1 by (simp add: wait_post_def u1_def)
  next
    case True
    define u2 where "u2 = u1\<lparr>up_sent := up_sent u1 @ [up_packet data u1], up_now := us_start ps\<rparr>"
    obtain z where z: "up_wait_loop env ps (us_start ps + 2000 * ue_ms env) 0 u2 = Some z"
      "y = (if snd z then (up_dly env 0 (fst z), True) else (up_dly env 5 (fst z), False))"
      using assms(1) True
      by (auto simp: up_send_packet_def up_wait_for_ack_def Let_def u1_def u2_def split: bind_splits)
    have I2: "up_inv mem cs u2" unfolding u2_def by (rule up_inv_cong [OF I1]) simp_all
    have ph: "up_phase u2 = up_phase u" by (simp add: u2_def u1_def)
    have W: "wait_post mem cs (up_phase u) z"
      using wait_loop_inv [OF z(1) assms(2) I2] assms(4) unfolding ph by blast
    then have "up_inv mem cs (fst y)"
      unfolding z(2) wait_post_def by (auto simp: up_dly_def intro: up_inv_cong)
    then show ?thesis using W unfolding z(2) by (auto simp: wait_post_def up_dly_def up_stored_def)
  qed
qed

text \<open>An acknowledged packet leaves no acknowledgement behind.\<close>

lemma send_no_ack:
  assumes "up_send_packet env ps data u = Some y" "snd y"
  shows "\<not> up_packet_ack (fst y)"
proof -
  have loop: "snd z \<longrightarrow> \<not> up_packet_ack (fst z)" if "up_wait_loop env ps l i w = Some z" for env ps l i z and w :: "'a update"
  proof (rule up_wait_loop.raw_induct [OF _ that, where P = "\<lambda>env ps l i w z. snd z \<longrightarrow> \<not> up_packet_ack (fst z)"])
    fix loop env ps l i and w :: "'a update" and z
    assume "\<And>env ps l i w z. loop env ps l i w = Some z \<Longrightarrow> snd z \<longrightarrow> \<not> up_packet_ack (fst z)"
      and "(if up_now w < l
        then let w = (up_rx_all env (fst (us_wait ps i)) w)\<lparr>up_now := snd (us_wait ps i)\<rparr>
             in if \<not> up_packet_ack w then loop env ps l (Suc i) w else Some (w\<lparr>up_packet_ack := False\<rparr>, True)
        else Some (w, False)) = Some z"
    then show "snd z \<longrightarrow> \<not> up_packet_ack (fst z)" by (auto simp: Let_def split: if_splits)
  qed
  show ?thesis using assms loop
    by (fastforce simp: up_send_packet_def up_wait_for_ack_def up_dly_def Let_def split: if_splits bind_splits)
qed

lemma phase_step_inv:
  assumes "up_phase_step env ps u = Some v" "chunks_ok cs" "up_inv mem cs u"
    and "\<forall>i. \<forall>p \<in> set (fst (us_wait ps i)). packet_honest env cs (up_phase u) (fst p)"
  shows "up_inv mem cs v"
proof -
  obtain data y where y: "up_send_packet env ps data u = Some y"
    and v: "v = (if \<not> snd y then (fst y)\<lparr>up_err_cnt := up_err_cnt (fst y) + 1\<rparr>
        else if up_phase u = 0 then (fst y)\<lparr>up_phase := up_phase (fst y) + 1\<rparr>
        else (fst y)\<lparr>up_phase := up_phase (fst y) + 1, up_err_cnt := 0\<rparr>)"
    using assms(1) by (auto simp: up_phase_step_def split: if_splits bind_splits)
  have W: "up_inv mem cs (fst y)" "up_phase (fst y) = up_phase u"
    "snd y \<longrightarrow> up_stored mem cs (fst y) (nat (up_phase u))"
    using send_packet_inv [OF y assms(2,3,4)] by (simp_all add: wait_post_def)
  show ?thesis
  proof (cases "snd y")
    case False
    then show ?thesis unfolding v by (auto intro: up_inv_cong [OF W(1)])
  next
    case True
    have "0 \<le> up_phase u" using assms(3) by (simp add: up_inv_def)
    then show ?thesis using W True send_no_ack [OF y] unfolding v
      by (auto simp: up_inv_def up_stored_def)
  qed
qed

lemma update_task_inv:
  assumes "update_task env ps u = Some v" "chunks_ok cs" "up_inv mem cs u"
    and H: "\<forall>i. \<forall>p \<in> set (fst (us_wait ps i)). packet_honest env cs (up_phase u) (fst p)"
  shows "up_inv mem cs v"
proof -
  have step: "up_inv mem cs v" if "up_phase_step env ps w = Some v" "up_inv mem cs w" "up_phase w = up_phase u" for w
    using phase_step_inv [OF that(1) assms(2) that(2)] H that(3) by simp
  have conn: "up_inv mem cs v" if c: "up_connected env ps w = Some v" "up_inv mem cs w" "up_phase w = up_phase u" for w
  proof -
    have R: "up_inv mem cs (up_resolve ps w)" "up_phase (up_resolve ps w) = up_phase u"
      using up_inv_cong [OF c(2), of "up_resolve ps w"] c(3) by (simp_all add: up_resolve_def split: prod.splits)
    have D: "up_inv mem cs (up_dly env 30 ((up_resolve ps w)\<lparr>up_err_cnt := up_err_cnt (up_resolve ps w) + 1\<rparr>))"
      by (rule up_inv_cong [OF R(1)]) (simp_all add: up_dly_def)
    show ?thesis using c step [of w] step [of "up_resolve ps w"] R D
      by (auto simp: up_connected_def Let_def split: if_splits)
  qed
  define a where "a = (if up_err_cnt u \<ge> UPDATE_ERR_LIMIT then u\<lparr>up_update_rq := False\<rparr> else u)\<lparr>up_now := us_now ps\<rparr>"
  have A: "up_inv mem cs a" "up_phase a = up_phase u"
    by (rule up_inv_cong [OF assms(3)]) (simp_all add: a_def)
  have D: "up_inv mem cs (up_dly env n a)" "up_inv mem cs (up_dly env n (up_dly env m a))" for n m
    by (rule up_inv_cong [OF A(1)]; simp add: up_dly_def)+
  have "up_phase (up_dly env 1 a) = up_phase u" using A(2) by (simp add: up_dly_def)
  then show ?thesis using assms(1,3) A(1) D(2) conn [of "up_dly env 1 a", OF _ D(1)]
    unfolding update_task_def Let_def a_def [symmetric] by (auto split: if_splits)
qed

text \<open>A start reads the configuration and sets the phase to 0.\<close>

lemma cfg_read_fw:
  assumes "cfg_read cf i auth = (cf', r)" "fw_device mem (cf_store cf)"
  shows "fw_device mem (cf_store cf') \<and> st_mem mem (cf_store cf') = st_mem mem (cf_store cf)"
proof -
  have fl: "flash_lawful mem (st_dev (cf_store cf))" using assms(2) by (simp add: fw_device_def fw_dev_ok_def)
  show ?thesis
  proof (cases "cf' = cf")
    case False
    have "cf' = cf\<lparr>cf_store := fst (storage_read_cfg (cf_store cf) (cfg_addr i) 64)\<rparr>"
      using assms(1) False by (auto simp: cfg_read_def split: if_splits prod.splits option.splits)
    moreover obtain st b where rd: "storage_read_cfg (cf_store cf) (cfg_addr i) 64 = (st, b)" by fastforce
    moreover have "st_same (cf_store cf) st \<and> st_mem mem st = st_mem mem (cf_store cf)"
    proof (cases "st_ready (cf_store cf) \<and> \<not> cfg_addr i + 64 > STORAGE_CFG_SPACE")
      case False
      then have "st = cf_store cf" using rd by (auto simp: storage_read_cfg_def split: if_splits)
      then show ?thesis by simp
    next
      case True
      then have "dev_read (cf_store cf) (cfg_addr i) 64 = (st, b)" using rd by (simp add: storage_read_cfg_def)
      moreover have "unat (cfg_addr i) + unat (64 :: u32) \<le> FLASH_SIZE"
        using unat_u16_less [of i] by (simp add: cfg_addr_unat del: unat_u16_less)
      ultimately show ?thesis using dev_read_law [OF fl] by blast
    qed
    ultimately show ?thesis using assms(2) st_same_fw_device [of "cf_store cf" st mem] by simp
  qed (use assms in simp)
qed

lemma update_start_inv:
  assumes "update_start env u = Some (v, r)" "up_inv mem cs u"
  shows "up_inv mem cs v"
proof -
  have keep: "up_inv mem cs w" if "fw_device mem (up_store w)" "st_mem mem (up_store w) = st_mem mem (up_store u)"
    "up_phase w = up_phase u \<or> up_phase w = 0" "up_flash w = up_flash u" "up_packet_ack w = up_packet_ack u" for w
  proof -
    have "up_stored mem cs w k = up_stored mem cs u k" for k by (rule up_stored_mem [OF that(2)])
    then show ?thesis using that assms(2) up_stored_le [of mem cs u _ 0] by (auto simp: up_inv_def)
  qed
  have fw: "fw_device mem (up_store u)" using assms(2) by (simp add: up_inv_def)
  obtain cf1 r1 where c1: "cfg_read (up_cf u) 24 ACCESS_SYSTEM = (cf1, r1)" by fastforce
  obtain cf2 r2 where c2: "cfg_read cf1 25 ACCESS_SYSTEM = (cf2, r2)" by fastforce
  note F1 = cfg_read_fw [OF c1 fw]
  note F2 = cfg_read_fw [OF c2 conjunct1 [OF F1]]
  show ?thesis using assms(1,2) F1 F2
    by (auto simp: update_start_def c1 c2 Let_def split: if_splits option.splits prod.splits bool.splits intro!: keep)
qed

subsection \<open>Properties\<close>

lemma up_reach_inv:
  assumes "up_reach env cs u v" "chunks_ok cs" "up_inv mem cs u"
  shows "up_inv mem cs v"
  using assms
proof (induction rule: up_reach.induct)
  case (up_reach_step v op w)
  then have I: "up_inv mem cs v" by simp
  show ?case
  proof (cases op)
    case Up_Start
    then show ?thesis using up_reach_step(4) I update_start_inv by (fastforce simp: up_step_def)
  next
    case (Up_Pass ps)
    then show ?thesis using update_task_inv [OF _ assms(2) I] up_reach_step(3,4) by (simp add: up_step_def up_op_honest_def)
  next
    case (Up_Packet d port)
    then show ?thesis using packet_rx_inv [OF I assms(2)] up_reach_step(3,4) by (auto simp: up_step_def up_op_honest_def)
  qed
qed simp

lemma length_concat_const: "\<forall>c \<in> set cs. length c = k \<Longrightarrow> length (concat cs) = k * length cs"
  by (induction cs) auto

lemma concat_nth:
  assumes "\<forall>c \<in> set cs. length c = (k :: nat)" "i < k * length cs"
  shows "concat cs ! i = cs ! (i div k) ! (i mod k)"
  using assms
proof (induction cs arbitrary: i)
  case (Cons c cs)
  show ?case
  proof (cases "i < k")
    case False
    then have "0 < k" using Cons.prems by (cases k) auto
    then have d: "i div k = Suc ((i - k) div k)" "i mod k = (i - k) mod k"
      using False by (simp_all add: le_div_geq le_mod_geq)
    have "i - k < k * length cs" using Cons.prems False by (simp add: algebra_simps)
    then show ?thesis using Cons False d by (simp add: nth_append)
  qed (use Cons.prems in \<open>simp add: nth_append\<close>)
qed simp

text \<open>All chunks stored: the image is in the region.\<close>

lemma up_stored_image:
  assumes "up_stored mem cs u (length cs)" "chunks_ok cs" "i < 256 * length cs"
  shows "st_mem mem (up_store u) (0x3C0000 + i) = concat cs ! i"
proof -
  have i: "i div 256 < length cs" using assms(3) by (simp add: div_less_iff_less_mult mult.commute)
  have "st_bytes mem (up_store u) (0x3C0000 + 256 * (i div 256)) 256 ! (i mod 256) = st_mem mem (up_store u) (0x3C0000 + i)"
    by (simp add: st_bytes_def add.commute)
  moreover have "concat cs ! i = cs ! (i div 256) ! (i mod 256)"
    using assms(2,3) by (intro concat_nth) (auto simp: chunks_ok_def)
  ultimately show ?thesis using assms(1) i by (simp add: up_stored_def)
qed

lemma update_flash_stored:
  assumes "up_reach env cs u v" "chunks_ok cs" "fw_device mem (up_store u)" "up_phase u = 0" "\<not> up_flash u"
    and "up_flash v"
  shows "fw_device mem (up_store v)" "i < 256 * length cs \<Longrightarrow> st_mem mem (up_store v) (0x3C0000 + i) = concat cs ! i"
proof -
  have "up_inv mem cs u" using assms(3-5) by (simp add: up_inv_def up_stored_def)
  from up_reach_inv [OF assms(1,2) this] assms(6)
  have I: "fw_device mem (up_store v)" "up_stored mem cs v (length cs)" by (simp_all add: up_inv_def)
  show "fw_device mem (up_store v)" by (rule I(1))
  show "i < 256 * length cs \<Longrightarrow> st_mem mem (up_store v) (0x3C0000 + i) = concat cs ! i"
    by (rule up_stored_image [OF I(2) assms(2)])
qed

text \<open>C3: the update over the network, from any state without an update in progress: whatever packets arrive, in whatever
passes, lost, repeated, from other units, out of order (a server answers with the chunks of its file, and no update
response arrives late), when the device restarts for the installation, the bootloader installs exactly the image
of that file and starts it.\<close>

theorem update_network_installs:
  assumes "up_reach env cs u v" "chunks_ok cs" "fw_device mem (up_store u)" "up_phase u = 0" "\<not> up_flash u" "up_flash v"
    and "concat cs = container_bytes (make_container fw img) @ img @ pad" "app_image_ok img"
    and "sdk_of_tool k" "int_flash_lawful k" "st_dev (ih_ext (bt_ihex bt)) = st_dev (up_store v)"
    and "GPREG_BOOT bt = BOOT_FLASH_RQ k" "GPREG_BOOTLOOP bt < 5"
  shows "\<exists>bt'. boot_main k junk RESET_USER_RQ bt = Some (bt', RUN_APP)
     \<and> int_bytes (bt_int bt') APP_INFO_PAGE_ADDR (length img) = img"
proof -
  note S = update_flash_stored [OF assms(1-6)]
  have "length (concat cs) = 256 * length cs" by (rule length_concat_const) (use assms(2) in \<open>simp add: chunks_ok_def\<close>)
  moreover have lc: "length (container_bytes (make_container fw img)) = 512" by (intro length_container_bytes) (simp_all add: make_container_size)
  ultimately have len: "512 + length img \<le> 256 * length cs" "length cs \<le> 1024"
    using assms(2,7) by (simp_all add: chunks_ok_def)
  have at: "st_mem mem (up_store v) (0x3C0000 + i) = (container_bytes (make_container fw img) @ img @ pad) ! i"
    if "i < 512 + length img" for i
    using S(2) [of i] that len(1) assms(7) by simp
  have st: "fw_stored k (st_mem mem (up_store v)) img"
  proof (rule make_container_stored [OF assms(9)])
    show "0x400 \<le> length img" using assms(8) unfolding app_image_ok_def Let_def by linarith
    show "length img + 512 \<le> 0x40000" using len by linarith
    show "st_mem mem (up_store v) (0x3C0000 + i) = container_bytes (make_container fw img) ! i" if "i < 512" for i
      using at [of i] that lc by (simp add: nth_append)
    show "st_mem mem (up_store v) (0x3C0200 + i) = img ! i" if "i < length img" for i
      using at [of "512 + i"] that lc by (simp add: nth_append add.assoc [symmetric])
  qed
  have dev: "fw_dev_ok mem (st_dev (ih_ext (bt_ihex bt)))" "st_mem mem (ih_ext (bt_ihex bt)) = st_mem mem (up_store v)"
    using S(1) assms(11) by (simp_all add: fw_device_def st_mem_def)
  obtain bt' where b: "boot_main k junk RESET_USER_RQ bt = Some (bt', RUN_APP)" "installed (bt_int bt') img (length img)"
    using boot_main_installs [OF assms(10) sdk_of_tool_lawful [OF assms(9)] dev(1), of img RESET_USER_RQ junk]
      st assms(8,12,13) unfolding dev(2) by auto
  have "int_bytes (bt_int bt') APP_INFO_PAGE_ADDR (length img) = img"
    using b(2) by (intro nth_equalityI) (simp_all add: int_bytes_def installed_def)
  then show ?thesis using b(1) by blast
qed

subsection \<open>A server that answers\<close>

text \<open>The answer of a server to the request of a phase.\<close>

definition chunk_status :: "u8 list list \<Rightarrow> nat \<Rightarrow> nat" where
  "chunk_status cs c = (if Suc c = length cs then 1 else 2)"

definition server_reply :: "update_env \<Rightarrow> u8 list list \<Rightarrow> nat \<Rightarrow> u8 list" where
  "server_reply env cs phase = (case phase of
       0 \<Rightarrow> to_le 4 PACKET_ID_UPDATE_RES @ to_le 4 (ue_addr env) @ to_le 4 (0 :: u32) @ to_le 4 UPDATE_RESULT_START
     | Suc c \<Rightarrow> to_le 4 PACKET_ID_CHUNK_RES @ to_le 4 (ue_addr env)
                @ to_le 4 (of_nat (c + 16777216 * chunk_status cs c) :: u32) @ cs ! c)"

text \<open>
  A pass behind the time \<open>t\<close> in which the answer arrives before the timeout, in the round \<open>j\<close>, at the time \<open>t'\<close>.
\<close>

definition answered :: "update_env \<Rightarrow> u16 \<Rightarrow> u8 list \<Rightarrow> os_timer \<Rightarrow> os_timer \<Rightarrow> update_pass \<Rightarrow> bool" where
  "answered env port reply t t' ps \<longleftrightarrow> us_connect ps \<and> us_tx ps \<and> t \<le> us_now ps
     \<and> us_start ps < us_start ps + 2000 * ue_ms env
     \<and> (\<exists>j. us_wait ps j = ([(reply, port)], t')
          \<and> (\<forall>i < j. us_wait ps i = ([], snd (us_wait ps i)) \<and> snd (us_wait ps i) < us_start ps + 2000 * ue_ms env))
     \<and> (\<forall>i. set (fst (us_wait ps i)) \<subseteq> {(reply, port)})"

fun up_run :: "update_env \<Rightarrow> update_pass list \<Rightarrow> 'f update \<Rightarrow> 'f update option" where
  "up_run env [] u = Some u"
| "up_run env (ps # pss) u = (case update_task env ps u of None \<Rightarrow> None | Some u \<Rightarrow> up_run env pss u)"

fun server_passes :: "update_env \<Rightarrow> u8 list list \<Rightarrow> u16 \<Rightarrow> os_timer \<Rightarrow> nat \<Rightarrow> update_pass list \<Rightarrow> bool" where
  "server_passes env cs port t phase [] = True"
| "server_passes env cs port t phase (ps # pss) =
     (\<exists>t'. answered env port (server_reply env cs phase) t t' ps \<and> server_passes env cs port t' (Suc phase) pss)"

lemma pk_word_0: "pk_word (to_le 4 w @ x) 0 = w"
  by (simp add: pk_word_def slice_def del: to_le.simps)

lemma pk_word_skip: "pk_word (to_le 4 (w :: u32) @ x) (4 + n) = pk_word x n"
  by (simp add: pk_word_def slice_def)

lemma pk_word_4: "pk_word (to_le 4 a @ to_le 4 w @ x) 4 = w" for a :: u32
  using pk_word_skip [of a "to_le 4 w @ x" 0] pk_word_0 [of w x] by simp

lemma pk_word_8: "pk_word (to_le 4 a @ to_le 4 b @ to_le 4 w @ x) 8 = w" for a b :: u32
  using pk_word_skip [of a "to_le 4 b @ to_le 4 w @ x" 4] pk_word_4 [of b w x] by simp

lemma pk_word_12: "pk_word (to_le 4 a @ to_le 4 b @ to_le 4 c @ to_le 4 w @ x) 12 = w" for a b c :: u32
  using pk_word_skip [of a "to_le 4 b @ to_le 4 c @ to_le 4 w @ x" 8] pk_word_8 [of b c w x] by simp

lemma reply_0:
  "hdr_packet_id (server_reply env cs 0) = PACKET_ID_UPDATE_RES" "hdr_unit_id (server_reply env cs 0) = ue_addr env"
  "res_result (server_reply env cs 0) = UPDATE_RESULT_START" "length (server_reply env cs 0) = 16"
  using pk_word_12 [of PACKET_ID_UPDATE_RES "ue_addr env" 0 UPDATE_RESULT_START "[]"]
  by (simp_all add: server_reply_def pk_word_0 pk_word_4 del: to_le.simps)

lemma drop_of_nat:
  assumes "m < 4294967296"
  shows "drop_bit k (of_nat m :: u32) = of_nat (m div 2 ^ k)"
proof -
  have "m div 2 ^ k < 4294967296" by (rule le_less_trans [OF div_le_dividend assms])
  moreover have "unat (drop_bit k (of_nat m :: u32)) = m div 2 ^ k"
    by (simp only: unat_drop_bit_eq unat_of_nat_u32 [OF assms]) (simp only: drop_bit_eq_div)
  ultimately show ?thesis by (simp only: word_unat_eq_iff unat_of_nat_u32)
qed

lemma split_chunk_word:
  assumes "c < 1024" "s < 256"
  shows "(of_nat (c + 16777216 * s) :: u32) AND 0xFFFFFF = of_nat c"
    and "drop_bit 24 (of_nat (c + 16777216 * s) :: u32) = of_nat s"
proof -
  have "(0xFFFFFF :: u32) = mask 24" by (simp add: mask_eq_exp_minus_1)
  then have "(of_nat (c + 16777216 * s) :: u32) AND 0xFFFFFF = take_bit 24 (of_nat (c + 16777216 * s))"
    by (simp add: take_bit_eq_mask)
  also have "\<dots> = of_nat (take_bit 24 (c + 16777216 * s))" by (simp only: take_bit_of_nat)
  also have "take_bit 24 (c + 16777216 * s) = c" using assms by (simp add: take_bit_eq_mod)
  finally show "(of_nat (c + 16777216 * s) :: u32) AND 0xFFFFFF = of_nat c" .
  have "c + 16777216 * s < 4294967296" using assms by linarith
  then have "drop_bit 24 (of_nat (c + 16777216 * s) :: u32) = of_nat ((c + 16777216 * s) div 2 ^ 24)" by (rule drop_of_nat)
  also have "(c + 16777216 * s) div 2 ^ 24 = s" using assms by simp
  finally show "drop_bit 24 (of_nat (c + 16777216 * s) :: u32) = of_nat s" .
qed

lemma reply_Suc:
  assumes "c < length cs" "chunks_ok cs"
  shows "hdr_packet_id (server_reply env cs (Suc c)) = PACKET_ID_CHUNK_RES"
    "hdr_unit_id (server_reply env cs (Suc c)) = ue_addr env"
    "res_chunk_id (server_reply env cs (Suc c)) = of_nat c"
    "res_status (server_reply env cs (Suc c)) = (if Suc c = length cs then UPDATE_CHUNK_STATUS_DONE else UPDATE_CHUNK_STATUS_OK)"
    "res_data (server_reply env cs (Suc c)) = cs ! c" "length (server_reply env cs (Suc c)) = 268"
proof -
  have c: "c < 1024" "length (cs ! c) = 256" using assms by (auto simp: chunks_ok_def)
  have s: "chunk_status cs c < 256" by (simp add: chunk_status_def)
  have w: "pk_word (server_reply env cs (Suc c)) 8 = of_nat (c + 16777216 * chunk_status cs c)"
    by (simp add: server_reply_def pk_word_8 del: to_le.simps of_nat_add of_nat_mult)
  note sp = split_chunk_word [OF c(1) s]
  show "res_chunk_id (server_reply env cs (Suc c)) = of_nat c" unfolding res_chunk_id_def w by (rule sp)
  show "res_status (server_reply env cs (Suc c)) = (if Suc c = length cs then UPDATE_CHUNK_STATUS_DONE else UPDATE_CHUNK_STATUS_OK)"
    unfolding res_status_def w sp(2) by (simp add: chunk_status_def)
  show "hdr_packet_id (server_reply env cs (Suc c)) = PACKET_ID_CHUNK_RES"
    "hdr_unit_id (server_reply env cs (Suc c)) = ue_addr env" "length (server_reply env cs (Suc c)) = 268"
    "res_data (server_reply env cs (Suc c)) = cs ! c"
    using c(2) by (simp_all add: server_reply_def pk_word_0 pk_word_4 res_data_def slice_def del: to_le.simps)
qed

text \<open>A pass with an answer: the answer is received in a state like the one before the pass.\<close>

definition up_like :: "'f update \<Rightarrow> 'f update \<Rightarrow> bool" where
  "up_like u w \<longleftrightarrow> up_store w = up_store u \<and> up_phase w = up_phase u \<and> up_update_rq w = up_update_rq u
     \<and> up_server_port w = up_server_port u \<and> up_server_ip w = up_server_ip u \<and> up_err_cnt w = up_err_cnt u
     \<and> up_flash w = up_flash u"

lemma wait_answered:
  assumes "us_wait ps j = ([(reply, port)], t')"
    and "\<And>i. i < j \<Longrightarrow> us_wait ps i = ([], snd (us_wait ps i)) \<and> snd (us_wait ps i) < limit"
    and "i \<le> j" "up_now u < limit" "\<not> up_packet_ack u"
    and "\<And>n. up_packet_ack (fst (update_packet_rx env reply (of_nat (length reply)) port (u\<lparr>up_now := n\<rparr>)))"
  shows "\<exists>n. up_wait_loop env ps limit i u
    = Some ((fst (update_packet_rx env reply (of_nat (length reply)) port (u\<lparr>up_now := n\<rparr>)))\<lparr>up_now := t', up_packet_ack := False\<rparr>, True)"
  using assms(3-6)
proof (induction "j - i" arbitrary: i u)
  case 0
  then have [simp]: "i = j" by simp
  have "u\<lparr>up_now := up_now u\<rparr> = u" by simp
  then show ?case using 0(3) 0(5) [of "up_now u"] assms(1)
    by (subst wait_loop_step) (auto intro!: exI [of _ "up_now u"])
next
  case (Suc d)
  then have i: "i < j" by simp
  define w where "w = u\<lparr>up_now := snd (us_wait ps i)\<rparr>"
  have e: "fst (us_wait ps i) = []" using assms(2) [OF i] by (metis fst_conv)
  have w: "u\<lparr>up_now := n\<rparr> = w\<lparr>up_now := n\<rparr>" for n by (simp add: w_def)
  have "\<exists>n. up_wait_loop env ps limit (Suc i) w
    = Some ((fst (update_packet_rx env reply (of_nat (length reply)) port (w\<lparr>up_now := n\<rparr>)))\<lparr>up_now := t', up_packet_ack := False\<rparr>, True)"
    using Suc(2) i Suc(5) assms(2) [OF i] Suc(6) [unfolded w] by (intro Suc(1)) (auto simp: w_def)
  moreover have "up_wait_loop env ps limit i u = up_wait_loop env ps limit (Suc i) w"
    using e Suc(4,5) by (subst wait_loop_step) (simp add: w_def)
  ultimately show ?case unfolding w by simp
qed

lemma pass_answered:
  assumes a: "answered env (up_server_port u) reply t t' ps" and t: "up_task_timer u \<le> t"
    and u: "up_update_rq u" "up_err_cnt u < UPDATE_ERR_LIMIT" "up_server_ip u \<noteq> 0"
    and acc: "\<And>w. up_like u w \<Longrightarrow> up_packet_ack (fst (update_packet_rx env reply (of_nat (length reply)) (up_server_port u) w))"
  shows "\<exists>v w. update_task env ps u = Some v \<and> up_like u w
     \<and> up_like (fst (update_packet_rx env reply (of_nat (length reply)) (up_server_port u) w))
         (v\<lparr>up_phase := up_phase v - 1, up_err_cnt := up_err_cnt u\<rparr>)
     \<and> up_task_timer v = t' \<and> up_err_cnt v < UPDATE_ERR_LIMIT"
proof -
  obtain j where ps: "us_connect ps" "us_tx ps" "t \<le> us_now ps" "us_start ps < us_start ps + 2000 * ue_ms env"
    "us_wait ps j = ([(reply, up_server_port u)], t')"
    "\<And>i. i < j \<Longrightarrow> us_wait ps i = ([], snd (us_wait ps i)) \<and> snd (us_wait ps i) < us_start ps + 2000 * ue_ms env"
    using a unfolding answered_def by blast
  define u1 where "u1 = up_dly env 1 (u\<lparr>up_now := us_now ps\<rparr>)"
  have "\<not> us_now ps < up_task_timer u" using t ps(3) by (simp add: not_less)
  then have task: "update_task env ps u = up_phase_step env ps u1"
    using u ps(1) by (simp add: update_task_def up_connected_def u1_def up_dly_def)
  define data where "data = (if up_phase u = 0 then update_req_bytes env else update_chunk_bytes env (up_phase u))"
  define u2 where "u2 = u1\<lparr>up_packet_ack := False, up_sent := up_sent u1 @ [up_packet data (u1\<lparr>up_packet_ack := False\<rparr>)], up_now := us_start ps\<rparr>"
  have like: "up_like u (u2\<lparr>up_now := n\<rparr>)" for n by (simp add: up_like_def u2_def u1_def up_dly_def)
  obtain n where loop: "up_wait_loop env ps (us_start ps + 2000 * ue_ms env) 0 u2 = Some ((fst (update_packet_rx env reply
      (of_nat (length reply)) (up_server_port u) (u2\<lparr>up_now := n\<rparr>)))\<lparr>up_now := t', up_packet_ack := False\<rparr>, True)"
    using wait_answered [OF ps(5,6), of 0 u2 env] acc [OF like] ps(4) by (auto simp: u2_def)
  define z where "z = fst (update_packet_rx env reply (of_nat (length reply)) (up_server_port u) (u2\<lparr>up_now := n\<rparr>))"
  have send: "up_send_packet env ps data u1 = Some (up_dly env 0 (z\<lparr>up_now := t', up_packet_ack := False\<rparr>), True)"
    using loop ps(2) by (simp add: up_send_packet_def up_wait_for_ack_def u2_def z_def Let_def)
  have "up_phase u1 = up_phase u" by (simp add: u1_def up_dly_def)
  moreover have "up_err_cnt z = up_err_cnt u"
  proof -
    have "up_err_cnt (fst (update_packet_rx env reply l port w)) = up_err_cnt w" for l port and w :: "'a update"
      by (simp add: update_packet_rx_def rx_update_res_def rx_chunk_res_def write_chunk_def main_flash_def Let_def)
    then show ?thesis by (simp add: z_def u2_def u1_def up_dly_def)
  qed
  ultimately obtain v where v: "update_task env ps u = Some v" "up_like z (v\<lparr>up_phase := up_phase v - 1, up_err_cnt := up_err_cnt u\<rparr>)"
    "up_task_timer v = t'" "up_err_cnt v < UPDATE_ERR_LIMIT"
    using send u(2) unfolding task up_phase_step_def data_def by (auto simp: up_like_def up_dly_def split: if_splits)
  then show ?thesis using like [of n] unfolding z_def by blast
qed

lemma rx_reply_0:
  assumes "up_update_rq w" "up_phase w = 0"
  shows "fst (update_packet_rx env (server_reply env cs 0) (of_nat (length (server_reply env cs 0))) (up_server_port w) w)
    = w\<lparr>up_packet_ack := True\<rparr>"
  using assms by (simp add: update_packet_rx_def reply_0 rx_update_res_def)

lemma rx_reply_Suc:
  assumes "up_update_rq w" "up_phase w = int (Suc c)" "c < length cs" "chunks_ok cs"
  shows "fst (update_packet_rx env (server_reply env cs (Suc c)) (of_nat (length (server_reply env cs (Suc c)))) (up_server_port w) w)
    = (if Suc c = length cs then (main_flash ((write_chunk (of_nat c) (cs ! c) w)\<lparr>up_update_rq := False\<rparr>))\<lparr>up_packet_ack := True\<rparr>
       else (write_chunk (of_nat c) (cs ! c) w)\<lparr>up_packet_ack := True\<rparr>)"
  using assms(1,2) unfolding update_packet_rx_def rx_chunk_res_def Let_def reply_Suc [OF assms(3,4)] by simp

lemma rx_reply_ack:
  assumes "up_update_rq w" "up_phase w = int p" "p \<le> length cs" "chunks_ok cs"
  shows "up_packet_ack (fst (update_packet_rx env (server_reply env cs p) (of_nat (length (server_reply env cs p))) (up_server_port w) w))"
proof (cases p)
  case 0
  then show ?thesis using rx_reply_0 [of w env cs] assms by simp
next
  case (Suc c)
  then show ?thesis using rx_reply_Suc [of w c cs env] assms by simp
qed

lemma reply_honest:
  assumes "p \<le> length cs" "chunks_ok cs"
  shows "packet_honest env cs (int p) (server_reply env cs p)"
proof (cases p)
  case (Suc c)
  then have c: "c < length cs" using assms by simp
  then have "c < 1024" using assms(2) by (simp add: chunks_ok_def)
  then show ?thesis using Suc c reply_Suc [OF c assms(2)] by (simp add: packet_honest_def)
qed (simp add: packet_honest_def reply_0)

text \<open>In the middle of a transfer.\<close>

definition up_going :: "('f \<Rightarrow> nat \<Rightarrow> u8) \<Rightarrow> u8 list list \<Rightarrow> u16 \<Rightarrow> nat \<Rightarrow> os_timer \<Rightarrow> 'f update \<Rightarrow> bool" where
  "up_going mem cs port p t u \<longleftrightarrow> up_inv mem cs u \<and> up_update_rq u \<and> up_phase u = int p \<and> p \<le> length cs
     \<and> up_err_cnt u < UPDATE_ERR_LIMIT \<and> up_server_ip u \<noteq> 0 \<and> up_server_port u = port
     \<and> \<not> up_flash u \<and> up_task_timer u \<le> t"

lemma going_pass:
  assumes g: "up_going mem cs port p t u" and cs: "chunks_ok cs"
    and a: "answered env port (server_reply env cs p) t t' ps"
  shows "\<exists>v. update_task env ps u = Some v \<and> up_op_honest env cs (up_phase u) (Up_Pass ps)
     \<and> (if p < length cs then up_going mem cs port (Suc p) t' v else up_flash v \<and> \<not> up_update_rq v)"
proof -
  have u: "up_inv mem cs u" "up_update_rq u" "up_phase u = int p" "p \<le> length cs" "up_err_cnt u < UPDATE_ERR_LIMIT"
    "up_server_ip u \<noteq> 0" "up_server_port u = port" "\<not> up_flash u" "up_task_timer u \<le> t"
    using g by (simp_all add: up_going_def)
  have acc: "up_packet_ack (fst (update_packet_rx env (server_reply env cs p) (of_nat (length (server_reply env cs p))) (up_server_port u) w))"
    if "up_like u w" for w
    using rx_reply_ack [OF _ _ u(4) cs, of w env] that u(2,3) by (simp add: up_like_def)
  obtain v w where v: "update_task env ps u = Some v" "up_like u w"
    "up_like (fst (update_packet_rx env (server_reply env cs p) (of_nat (length (server_reply env cs p))) (up_server_port u) w))
         (v\<lparr>up_phase := up_phase v - 1, up_err_cnt := up_err_cnt u\<rparr>)"
    "up_task_timer v = t'" "up_err_cnt v < UPDATE_ERR_LIMIT"
    using pass_answered [OF a [folded u(7)] u(9,2,5,6) acc] by blast
  have H: "\<forall>i. \<forall>q \<in> set (fst (us_wait ps i)). packet_honest env cs (up_phase u) (fst q)"
    using a reply_honest [OF u(4) cs, of env] unfolding answered_def u(3) by (metis (no_types, lifting) fst_conv singletonD subsetD)
  have I: "up_inv mem cs v" by (rule update_task_inv [OF v(1) cs u(1) H])
  have w: "up_update_rq w" "up_phase w = int p" "up_server_port w = port" "up_server_ip w \<noteq> 0" "\<not> up_flash w" "up_server_port u = up_server_port w"
    using v(2) u by (simp_all add: up_like_def)
  note L = v(3) [unfolded w(6)]
  have "if p < length cs then up_going mem cs port (Suc p) t' v else up_flash v \<and> \<not> up_update_rq v"
  proof (cases p)
    case 0
    have n: "0 < length cs" "Suc 0 \<le> length cs" using cs by (simp_all add: chunks_ok_def Suc_le_eq)
    show ?thesis using L rx_reply_0 [of w env cs] w I v(4,5) n 0 by (simp add: up_like_def up_going_def)
  next
    case (Suc c)
    then have c: "c < length cs" using u(4) by simp
    show ?thesis
    proof (cases "Suc c = length cs")
      case True
      show ?thesis using L w Suc True rx_reply_Suc [OF w(1) _ c cs, of env]
        by (simp add: up_like_def main_flash_def)
    next
      case False
      show ?thesis using L w Suc False c rx_reply_Suc [OF w(1) _ c cs, of env] I v(4,5)
        by (simp add: up_like_def up_going_def write_chunk_def)
    qed
  qed
  then show ?thesis using v(1) H by (auto simp: up_op_honest_def)
qed

lemma server_run:
  assumes "up_going mem cs port p t u" "chunks_ok cs" "server_passes env cs port t p pss" "length pss = Suc (length cs) - p"
    and "up_reach env cs u0 u"
  shows "\<exists>v. up_run env pss u = Some v \<and> up_reach env cs u0 v \<and> up_flash v \<and> \<not> up_update_rq v"
  using assms
proof (induction pss arbitrary: p t u)
  case Nil
  then show ?case by (simp add: up_going_def)
next
  case (Cons ps pss)
  obtain t' where a: "answered env port (server_reply env cs p) t t' ps" "server_passes env cs port t' (Suc p) pss"
    using Cons.prems(3) by auto
  have p: "p \<le> length cs" "\<not> up_flash u" using Cons.prems(1) by (simp_all add: up_going_def)
  obtain v where v: "update_task env ps u = Some v" "up_op_honest env cs (up_phase u) (Up_Pass ps)"
    "if p < length cs then up_going mem cs port (Suc p) t' v else up_flash v \<and> \<not> up_update_rq v"
    using going_pass [OF Cons.prems(1,2) a(1)] by blast
  have r: "up_reach env cs u0 v"
    by (rule up_reach_step [OF Cons.prems(5) p(2) v(2)]) (simp add: up_step_def v(1))
  show ?case
  proof (cases "p < length cs")
    case True
    then show ?thesis using Cons.IH [of "Suc p" t' v] Cons.prems(2,4) a(2) v(1,3) r by simp
  next
    case False
    then have "pss = []" using Cons.prems(4) p(1) by simp
    then show ?thesis using False v(1,3) r by simp
  qed
qed

text \<open>C29: with a server that answers every request before its timeout (after any number of rounds without a packet), the
transfer of \<open>n\<close> chunks takes \<open>n + 1\<close> passes: then every chunk is in the firmware region, the update is over
and the device restarts into the bootloader.\<close>

theorem update_transfers:
  assumes "chunks_ok cs" "fw_device mem (up_store u)" "up_update_rq u" "up_phase u = 0" "up_err_cnt u = 0"
    and "up_server_ip u \<noteq> 0" "\<not> up_flash u" "up_task_timer u \<le> t"
    and "server_passes env cs (up_server_port u) t 0 pss" "length pss = Suc (length cs)"
  shows "\<exists>v. up_run env pss u = Some v \<and> up_flash v \<and> \<not> up_update_rq v
     \<and> (\<forall>i < 256 * length cs. st_mem mem (up_store v) (0x3C0000 + i) = concat cs ! i)"
proof -
  have "up_inv mem cs u" using assms(2,4,7) by (simp add: up_inv_def up_stored_def)
  then have g: "up_going mem cs (up_server_port u) 0 t u" using assms by (simp add: up_going_def)
  obtain v where v: "up_run env pss u = Some v" "up_reach env cs u v" "up_flash v" "\<not> up_update_rq v"
    using server_run [OF g assms(1,9) _ up_reach_start] assms(10) by auto
  then show ?thesis using update_flash_stored [OF v(2) assms(1,2,4,7) v(3)] by blast
qed

text \<open>C31: a second answer to the update request (the first request was answered late, and sent twice) that arrives while chunk 0 is waited
for acknowledges that chunk, although nothing has been written: the unit goes on with chunk 1.\<close>

theorem update_stale_response:
  assumes "up_update_rq u" "up_phase u = 1" "up_err_cnt u < 100" "up_server_ip u \<noteq> 0" "up_task_timer u \<le> t"
    and "answered env (up_server_port u) (server_reply env cs 0) t t' ps"
  shows "\<exists>v. update_task env ps u = Some v \<and> up_phase v = 2 \<and> up_store v = up_store u \<and> up_update_rq v"
proof -
  have rx: "fst (update_packet_rx env (server_reply env cs 0) (of_nat (length (server_reply env cs 0))) (up_server_port u) w)
      = w\<lparr>up_packet_ack := True\<rparr>" if "up_like u w" for w
    using that assms(1,2) by (simp add: update_packet_rx_def reply_0 rx_update_res_def up_like_def)
  obtain v w where "update_task env ps u = Some v" "up_like u w"
    "up_like (w\<lparr>up_packet_ack := True\<rparr>) (v\<lparr>up_phase := up_phase v - 1, up_err_cnt := up_err_cnt u\<rparr>)"
    using pass_answered [OF assms(6,5,1,3,4)] rx by (metis (no_types, lifting) update.select_convs(4) update.surjective update.update_convs(4))
  then show ?thesis using assms(1,2) by (auto simp: up_like_def)
qed

subsection \<open>Instances\<close>

definition ex_update_env :: update_env where
  "ex_update_env = \<lparr>ue_second = 1000, ue_ms = 1, ue_addr = 77, ue_major = 1, ue_minor = 0, ue_patch = 0,
     ue_hex_to_bin = \<lambda>s n. replicate n 0\<rparr>"

definition ex_update :: "(nat \<Rightarrow> u8) update" where
  "ex_update = \<lparr>up_task_timer = 0, up_now = 0, up_update_rq = True, up_packet_ack = False, up_server_ip = 0x0100007F,
     up_server_port = 3333, up_server_addr_cfg = [], up_aes_key = [], up_phase = 0, up_err_cnt = 0,
     up_cf = ex_cfg (\<lambda>_. 0xFF), up_sent = [], up_flash = False\<rparr>"

text \<open>A server whose answers take one round of 10 ms.\<close>

definition ex_pass :: "u8 list \<Rightarrow> update_pass" where
  "ex_pass reply = \<lparr>us_now = 100, us_connect = True, us_dns = \<lambda>_. (False, 0), us_tx = True, us_start = 100,
     us_wait = \<lambda>i. if i = 0 then ([], 100) else ([(reply, 3333)], 100)\<rparr>"

definition ex_passes :: "u8 list list \<Rightarrow> nat \<Rightarrow> nat \<Rightarrow> update_pass list" where
  "ex_passes cs p n = map (\<lambda>q. ex_pass (server_reply ex_update_env cs q)) [p..<n]"

lemma ex_answered: "t \<le> 100 \<Longrightarrow> answered ex_update_env 3333 reply t 100 (ex_pass reply)"
  by (auto simp: answered_def ex_pass_def ex_update_env_def intro!: exI [of _ 1])

lemma ex_server_passes: "t \<le> 100 \<Longrightarrow> server_passes ex_update_env cs 3333 t p (ex_passes cs p n)"
proof (induction "n - p" arbitrary: p t)
  case 0
  then show ?case by (simp add: ex_passes_def)
next
  case (Suc d)
  then have e: "ex_passes cs p n = ex_pass (server_reply ex_update_env cs p) # ex_passes cs (Suc p) n"
    by (simp add: ex_passes_def upt_conv_Cons)
  have "server_passes ex_update_env cs 3333 100 (Suc p) (ex_passes cs (Suc p) n)" using Suc by simp
  then show ?case unfolding e using ex_answered [OF Suc.prems] by auto
qed

lemma ex_update_device: "fw_device id (up_store ex_update)"
  by (simp add: ex_update_def ex_cfg_def)

theorem update_transfers_witness:
  "\<exists>v. up_run ex_update_env (ex_passes [replicate 256 1, replicate 256 2] 0 3) ex_update = Some v \<and> up_flash v
     \<and> st_mem id (up_store v) (0x3C0000 + 300) = 2"
proof -
  define cs :: "u8 list list" where "cs = [replicate 256 1, replicate 256 2]"
  have cs: "chunks_ok cs" "length cs = 2" by (simp_all add: cs_def chunks_ok_def)
  have l: "length (ex_passes cs 0 3) = Suc (length cs)" by (simp add: ex_passes_def cs(2))
  have "server_passes ex_update_env cs (up_server_port ex_update) 0 0 (ex_passes cs 0 3)"
    using ex_server_passes [of 0 cs 0 3] by (simp add: ex_update_def)
  from update_transfers [OF cs(1) ex_update_device _ _ _ _ _ _ this l]
  obtain v where v: "up_run ex_update_env (ex_passes cs 0 3) ex_update = Some v" "up_flash v"
    "\<forall>i < 256 * length cs. st_mem id (up_store v) (0x3C0000 + i) = concat cs ! i"
    by (auto simp: ex_update_def)
  have "st_mem id (up_store v) (0x3C0000 + 300) = 2"
    using v(3) [rule_format, of 300] by (simp add: cs(2)) (simp add: cs_def nth_append)
  then show ?thesis using v(1,2) unfolding cs_def by blast
qed

theorem update_stale_response_witness:
  "\<exists>v. update_task ex_update_env (ex_pass (server_reply ex_update_env [replicate 256 1, replicate 256 2] 0)) (ex_update\<lparr>up_phase := 1\<rparr>) = Some v
     \<and> up_phase v = 2"
  using update_stale_response [of "ex_update\<lparr>up_phase := 1\<rparr>" 0 ex_update_env "[replicate 256 1, replicate 256 2]" 100]
    ex_answered [of 0] by (auto simp: ex_update_def)

lemma concat_chunks: "concat (map (\<lambda>i. take k (drop (k * i) xs)) [0..<n]) = take (k * n) xs"
  by (induction n) (simp_all add: take_add [symmetric] add.commute)

definition ex_file :: "u8 list" where
  "ex_file = container_bytes (make_container (str ''fw'') example_image) @ example_image"

definition ex_chunks :: "u8 list list" where
  "ex_chunks = map (\<lambda>i. take 256 (drop (256 * i) ex_file)) [0..<8]"

lemma ex_chunks_ok: "chunks_ok ex_chunks" "length ex_chunks = 8" "concat ex_chunks = ex_file"
proof -
  have l: "length ex_file = 2048"
    unfolding ex_file_def by (simp add: example_image_ok(2) length_container_bytes [OF make_container_size])
  show "chunks_ok ex_chunks" "length ex_chunks = 8" by (auto simp: chunks_ok_def ex_chunks_def l)
  show "concat ex_chunks = ex_file" unfolding ex_chunks_def concat_chunks by (simp add: l)
qed

theorem update_network_installs_witness:
  "\<exists>v bt'. up_reach ex_update_env ex_chunks ex_update v \<and> up_flash v
     \<and> boot_main ram_sdk [] RESET_USER_RQ ((ram_boot (up_store v))\<lparr>GPREG_BOOT := 2\<rparr>) = Some (bt', RUN_APP)
     \<and> int_bytes (bt_int bt') APP_INFO_PAGE_ADDR 1536 = example_image"
proof -
  have fl: "chunks_ok ex_chunks" "fw_device id (up_store ex_update)" "up_phase ex_update = 0" "\<not> up_flash ex_update"
    using ex_chunks_ok ex_update_device by (simp_all add: ex_update_def)
  then have g: "up_going id ex_chunks 3333 0 0 ex_update"
    by (simp add: up_going_def up_inv_def up_stored_def) (simp add: ex_update_def)
  have l: "length (ex_passes ex_chunks 0 9) = Suc (length ex_chunks) - 0" by (simp add: ex_passes_def ex_chunks_ok(2))
  obtain v where v: "up_reach ex_update_env ex_chunks ex_update v" "up_flash v"
    using server_run [OF g fl(1) ex_server_passes [of 0 ex_chunks 0 9] l up_reach_start] by auto
  have "\<exists>bt'. boot_main ram_sdk [] RESET_USER_RQ ((ram_boot (up_store v))\<lparr>GPREG_BOOT := 2\<rparr>) = Some (bt', RUN_APP)
     \<and> int_bytes (bt_int bt') APP_INFO_PAGE_ADDR (length example_image) = example_image"
    by (rule update_network_installs [OF v(1) fl v(2) _ example_image_ok(1) ram_sdk_ok, of "str ''fw''" "[]"])
      (simp_all add: ex_chunks_ok(3) ex_file_def ram_boot_def ram_sdk_def)
  then show ?thesis using v unfolding example_image_ok(2) by blast
qed

subsection \<open>A server that does not answer\<close>

definition unanswered :: "update_env \<Rightarrow> update_pass \<Rightarrow> 'f update \<Rightarrow> bool" where
  "unanswered env ps u \<longleftrightarrow> us_connect ps \<and> up_task_timer u \<le> us_now ps
     \<and> (us_tx ps \<longrightarrow> (\<forall>i. fst (us_wait ps i) = []) \<and> (\<exists>j. us_start ps + 2000 * ue_ms env \<le> snd (us_wait ps j)))"

fun all_unanswered :: "update_env \<Rightarrow> update_pass list \<Rightarrow> 'f update \<Rightarrow> bool" where
  "all_unanswered env [] u = True"
| "all_unanswered env (ps # pss) u = (unanswered env ps u \<and> (case update_task env ps u of None \<Rightarrow> True | Some v \<Rightarrow> all_unanswered env pss v))"

lemma wait_silent:
  assumes "\<forall>i. fst (us_wait ps i) = []" "limit \<le> snd (us_wait ps j)" "i \<le> j" "\<not> up_packet_ack u"
  shows "\<exists>n. up_wait_loop env ps limit i u = Some (u\<lparr>up_now := n\<rparr>, False)"
  using assms(3,4)
proof (induction "j - i" arbitrary: i u)
  case 0
  then have [simp]: "i = j" by simp
  have "u\<lparr>up_now := up_now u\<rparr> = u" by simp
  moreover have "\<not> up_now (u\<lparr>up_now := snd (us_wait ps j)\<rparr>) < limit" using assms(2) by (simp add: not_less)
  ultimately show ?case using 0 assms(1)
    by (subst wait_loop_step) (auto intro: exI [of _ "up_now u"] simp: wait_loop_step [of _ _ _ "Suc j"])
next
  case (Suc d)
  then have "i < j" by simp
  have "\<exists>n. up_wait_loop env ps limit (Suc i) (u\<lparr>up_now := snd (us_wait ps i)\<rparr>)
      = Some (u\<lparr>up_now := snd (us_wait ps i)\<rparr>\<lparr>up_now := n\<rparr>, False)"
    by (rule Suc(1)) (use Suc(2,4) \<open>i < j\<close> in auto)
  then obtain n where "up_wait_loop env ps limit (Suc i) (u\<lparr>up_now := snd (us_wait ps i)\<rparr>) = Some (u\<lparr>up_now := n\<rparr>, False)"
    by auto
  moreover have "u\<lparr>up_now := up_now u\<rparr> = u" by simp
  ultimately show ?case using Suc(4) assms(1)
    by (subst wait_loop_step) (auto intro: exI [of _ "up_now u"])
qed

lemma pass_unanswered:
  assumes "unanswered env ps u" "up_update_rq u" "up_server_ip u \<noteq> 0"
  shows "\<exists>v. update_task env ps u = Some v \<and> up_err_cnt v = up_err_cnt u + 1 \<and> up_server_ip v = up_server_ip u
     \<and> up_store v = up_store u \<and> (up_update_rq v \<longleftrightarrow> up_err_cnt u < UPDATE_ERR_LIMIT)"
proof -
  define u1 where "u1 = up_dly env 1 ((if up_err_cnt u \<ge> UPDATE_ERR_LIMIT then u\<lparr>up_update_rq := False\<rparr> else u)\<lparr>up_now := us_now ps\<rparr>)"
  have c: "us_connect ps" "\<not> us_now ps < up_task_timer u" using assms(1) by (auto simp: unanswered_def not_less)
  then have task: "update_task env ps u = up_phase_step env ps u1"
    using assms(2,3) by (simp add: update_task_def up_connected_def u1_def up_dly_def)
  have "\<exists>w. up_send_packet env ps data u1 = Some (w, False) \<and> up_like u1 w" for data
  proof (cases "us_tx ps")
    case False
    then show ?thesis by (simp add: up_send_packet_def up_like_def)
  next
    case True
    then obtain j where j: "\<forall>i. fst (us_wait ps i) = []" "us_start ps + 2000 * ue_ms env \<le> snd (us_wait ps j)"
      using assms(1) by (auto simp: unanswered_def)
    define u2 where "u2 = u1\<lparr>up_packet_ack := False, up_sent := up_sent u1 @ [up_packet data (u1\<lparr>up_packet_ack := False\<rparr>)], up_now := us_start ps\<rparr>"
    obtain n where "up_wait_loop env ps (us_start ps + 2000 * ue_ms env) 0 u2 = Some (u2\<lparr>up_now := n\<rparr>, False)"
      using wait_silent [OF j, of 0 u2 env] by (auto simp: u2_def)
    then have "up_send_packet env ps data u1 = Some (up_dly env 5 (u2\<lparr>up_now := n\<rparr>), False)"
      using True by (simp add: up_send_packet_def up_wait_for_ack_def u2_def Let_def)
    moreover have "up_like u1 (up_dly env 5 (u2\<lparr>up_now := n\<rparr>))" by (simp add: up_like_def u2_def up_dly_def)
    ultimately show ?thesis by blast
  qed
  then obtain w where w: "up_send_packet env ps (if up_phase u1 = 0 then update_req_bytes env else update_chunk_bytes env (up_phase u1)) u1 = Some (w, False)"
    "up_like u1 w" by blast
  then have "up_phase_step env ps u1 = Some (w\<lparr>up_err_cnt := up_err_cnt w + 1\<rparr>)"
    by (simp add: up_phase_step_def split: if_splits)
  then show ?thesis using w(2) assms(2) unfolding task by (auto simp: up_like_def u1_def up_dly_def)
qed

lemma run_idle: "\<not> up_update_rq u \<Longrightarrow> up_run env pss u = Some u"
  by (induction pss) (simp_all add: update_task_def)

lemma run_unanswered:
  "up_server_ip u \<noteq> 0 \<Longrightarrow> int (length pss) = 101 - up_err_cnt u \<Longrightarrow> all_unanswered env pss u \<Longrightarrow> up_err_cnt u \<le> 100 \<Longrightarrow>
   \<exists>v. up_run env pss u = Some v \<and> \<not> up_update_rq v \<and> up_store v = up_store u"
proof (induction pss arbitrary: u)
  case (Cons ps pss)
  show ?case
  proof (cases "up_update_rq u")
    case True
    obtain v where v: "update_task env ps u = Some v" "up_err_cnt v = up_err_cnt u + 1" "up_server_ip v = up_server_ip u"
      "up_store v = up_store u" "up_update_rq v \<longleftrightarrow> up_err_cnt u < UPDATE_ERR_LIMIT"
      using pass_unanswered [OF _ True Cons.prems(1)] Cons.prems(3) by auto
    show ?thesis
    proof (cases "up_err_cnt u = 100")
      case True
      then show ?thesis using v run_idle [of v env pss] by simp
    next
      case False
      then show ?thesis using Cons.IH [of v] Cons.prems v by simp
    qed
  qed (use run_idle [of u env "ps # pss"] in simp)
qed simp

text \<open>C30: without an answer the update ends: after 101 passes that are due and connected there is no request
any more, and the flash is as before.\<close>

theorem update_gives_up:
  assumes "up_server_ip u \<noteq> 0" "up_err_cnt u = 0" "length pss = 101" "all_unanswered env pss u"
  shows "\<exists>v. up_run env pss u = Some v \<and> \<not> up_update_rq v \<and> up_store v = up_store u"
  using run_unanswered [of u pss env] assms by simp

lemma of_nat_le_u32: "a \<le> b \<Longrightarrow> b < 4294967296 \<Longrightarrow> (of_nat a :: u32) \<le> of_nat b"
  by (simp add: word_le_nat_alt)

definition silent_time :: "nat \<Rightarrow> os_timer" where
  "silent_time i = of_nat (2000 * i)"

lemma silent_time_step:
  assumes "i \<le> 100"
  shows "silent_time i \<le> silent_time (Suc i)" "silent_time i + 1000 \<le> silent_time (Suc i)"
proof -
  have b: "2000 * Suc i < 4294967296" "2000 * i + 1000 \<le> 2000 * Suc i" "2000 * i \<le> 2000 * Suc i" using assms by simp_all
  show "silent_time i \<le> silent_time (Suc i)" unfolding silent_time_def by (rule of_nat_le_u32 [OF b(3,1)])
  have "silent_time i + 1000 = of_nat (2000 * i + 1000)" by (simp add: silent_time_def)
  then show "silent_time i + 1000 \<le> silent_time (Suc i)"
    using of_nat_le_u32 [OF b(2,1)] unfolding silent_time_def by (simp only:)
qed

definition ex_silent :: "nat \<Rightarrow> update_pass" where
  "ex_silent i = \<lparr>us_now = silent_time i, us_connect = True, us_dns = \<lambda>_. (False, 0), us_tx = False, us_start = 0,
     us_wait = \<lambda>i. ([], 0)\<rparr>"

theorem update_gives_up_witness:
  "\<exists>v. up_run ex_update_env (map ex_silent [0..<101]) ex_update = Some v \<and> \<not> up_update_rq v"
proof -
  have "all_unanswered ex_update_env (map ex_silent [i..<101]) u"
    if "up_server_ip u \<noteq> 0" "up_task_timer u \<le> silent_time i" "i \<le> 101" for i and u :: "(nat \<Rightarrow> u8) update"
    using that
  proof (induction "101 - i" arbitrary: i u)
    case (Suc d)
    then have e: "map ex_silent [i..<101] = ex_silent i # map ex_silent [Suc i..<101]" by (simp add: upt_conv_Cons)
    have a: "unanswered ex_update_env (ex_silent i) u" using Suc.prems by (simp add: unanswered_def ex_silent_def)
    have "all_unanswered ex_update_env (map ex_silent [Suc i..<101]) v" if r: "update_task ex_update_env (ex_silent i) u = Some v" for v
    proof -
      have tm: "up_server_ip v = up_server_ip u" "up_task_timer v = up_task_timer u \<or> up_task_timer v = silent_time i + 1000"
        using r Suc.prems(1) by (auto simp: update_task_def up_connected_def up_phase_step_def up_send_packet_def ex_silent_def
            ex_update_env_def up_dly_def Let_def split: if_splits)
      have "i \<le> 100" using Suc.hyps(2) by linarith
      from silent_time_step [OF this] have "up_task_timer v \<le> silent_time (Suc i)"
        using Suc.prems(2) tm(2) by (auto intro: order_trans)
      then show ?thesis using Suc.hyps(2) Suc.prems(1) tm(1) by (intro Suc.hyps(1)) auto
    qed
    then show ?case using a unfolding e by (auto split: option.splits)
  qed simp
  from this [of ex_update 0] show ?thesis
    using update_gives_up [of ex_update "map ex_silent [0..<101]" ex_update_env] by (auto simp: ex_update_def silent_time_def)
qed

end
