(* ===== verification/GpsProps.thy ===== *)
theory GpsProps
  imports Gps
begin

text \<open>The properties of the GPS reception: framing, the range of published positions, the sleep cycle.\<close>

unbundle bit_operations_syntax

subsection \<open>Framing\<close>

text \<open>A buffer of 128 bytes, the digits of a checksum.\<close>

definition gps_env_ok :: "gps_env \<Rightarrow> bool" where
  "gps_env_ok env \<longleftrightarrow> (\<forall>b c. length b < 127 \<longrightarrow> ge_append env b c = Some (b @ [c]))
     \<and> (\<forall>d < 16. ge_hex env (hex_char d) = of_nat d)"

definition plain_char :: "u8 \<Rightarrow> bool" where
  "plain_char c \<longleftrightarrow> c \<notin> {0, 10, 13, 36, 42}"

lemma rx_body:
  assumes "gps_env_ok env"
  shows "\<forall>c \<in> set body. plain_char c \<Longrightarrow> gp_rx g = GPS_RX_DATA \<Longrightarrow> length (gp_buf g) + length body < 127 \<Longrightarrow>
    gps_task env g body = g\<lparr>gp_chsum := foldl (XOR) (gp_chsum g) body, gp_buf := gp_buf g @ body\<rparr>"
proof (induction body arbitrary: g)
  case (Cons c body)
  have "ge_append env (gp_buf g) c = Some (gp_buf g @ [c])" using assms Cons.prems(3) by (simp add: gps_env_ok_def)
  then have "gps_rx_char env g c = g\<lparr>gp_chsum := gp_chsum g XOR c, gp_buf := gp_buf g @ [c]\<rparr>"
    using Cons.prems(1,2) by (simp add: gps_rx_char_def plain_char_def Let_def)
  then show ?case using Cons by (simp add: gps_task_def)
qed (simp add: gps_task_def)

lemma foldl_xor: "foldl (XOR) (x :: u8) s = x XOR foldl (XOR) 0 s"
proof (induction s arbitrary: x)
  case (Cons c s)
  show ?case using Cons [of "x XOR c"] Cons [of c] by (simp add: xor.assoc)
qed simp

definition gps_line :: "u8 list \<Rightarrow> nat \<Rightarrow> nat \<Rightarrow> u8 list" where
  "gps_line body d1 d0 = 36 # body @ [42, hex_char d1, hex_char d0, 13]"

lemma rx_line:
  assumes env: "gps_env_ok env" and body: "\<forall>c \<in> set body. plain_char c" "length body \<le> 120" and d: "d1 < 16" "d0 < 16"
  shows "gps_task env g (gps_line body d1 d0) =
    (let x = nmea_checksum_compute body; r = of_nat (16 * d1 + d0); s = 36 # body @ [42, hex_char d1, hex_char d0];
         g = g\<lparr>gp_rx := GPS_RX_CHSUM, gp_chsum := x, gp_rx_chsum := r, gp_buf := s @ [0]\<rparr>
     in (if x = r then gps_data_parser env g s else g)\<lparr>gp_rx := GPS_RX_IDLE, gp_buf := []\<rparr>)"
proof -
  define x where "x = nmea_checksum_compute body"
  have app: "ge_append env b c = Some (b @ [c])" if "length b < 127" for b c using env that by (simp add: gps_env_ok_def)
  have s1: "gps_rx_char env g 36 = g\<lparr>gp_rx := GPS_RX_DATA, gp_chsum := 0, gp_buf := [36]\<rparr>"
    using app [of "[]" 36] by (simp add: gps_rx_char_def Let_def)
  have s2: "gps_task env (g\<lparr>gp_rx := GPS_RX_DATA, gp_chsum := 0, gp_buf := [36]\<rparr>) body
      = g\<lparr>gp_rx := GPS_RX_DATA, gp_chsum := x, gp_buf := 36 # body\<rparr>"
    using rx_body [OF env body(1)] body(2) by (simp add: x_def nmea_checksum_compute_def)
  have s3: "gps_rx_char env (g\<lparr>gp_rx := GPS_RX_DATA, gp_chsum := x, gp_buf := 36 # body\<rparr>) 42
      = g\<lparr>gp_rx := GPS_RX_CHSUM, gp_chsum := x, gp_rx_chsum := 0, gp_buf := 36 # body @ [42]\<rparr>"
    using app [of "36 # body" 42] body(2) by (simp add: gps_rx_char_def Let_def)
  have hx: "hex_char e \<noteq> 0" "hex_char e \<noteq> 10" "hex_char e \<noteq> 13" "hex_char e \<noteq> 36" "ge_hex env (hex_char e) = of_nat e" if "e < 16" for e
  proof -
    have "unat (hex_char e) \<ge> 48" using unat_hex_char [OF that] by (simp split: if_splits)
    then show "hex_char e \<noteq> 0" "hex_char e \<noteq> 10" "hex_char e \<noteq> 13" "hex_char e \<noteq> 36" by auto
    show "ge_hex env (hex_char e) = of_nat e" using env that by (simp add: gps_env_ok_def)
  qed
  have s4: "gps_rx_char env (g\<lparr>gp_rx := GPS_RX_CHSUM, gp_chsum := x, gp_rx_chsum := r, gp_buf := b\<rparr>) (hex_char e)
      = g\<lparr>gp_rx := GPS_RX_CHSUM, gp_chsum := x, gp_rx_chsum := push_bit 4 r + of_nat e, gp_buf := b @ [hex_char e]\<rparr>"
    if "e < 16" "length b < 127" for e r b
    using app [OF that(2)] hx [OF that(1)] by (simp add: gps_rx_char_def Let_def)
  have r: "push_bit 4 (push_bit 4 0 + of_nat d1) + of_nat d0 = (of_nat (16 * d1 + d0) :: u8)"
    by (simp only: push_bit_0_id push_bit_of_0 of_nat_add of_nat_mult) (simp add: push_bit_eq_mult)
  define s where "s = 36 # body @ [42, hex_char d1, hex_char d0]"
  define g3 where "g3 = g\<lparr>gp_rx := GPS_RX_CHSUM, gp_chsum := x, gp_rx_chsum := of_nat (16 * d1 + d0), gp_buf := s\<rparr>"
  have "0 \<notin> set body" using body(1) unfolding plain_char_def by blast
  then have "0 \<notin> set s" using hx(1) [OF d(1)] hx(1) [OF d(2)] by (simp add: s_def eq_commute [of 0])
  then have "c \<noteq> 0" if "c \<in> set s" for c using that by metis
  then have "takeWhile (\<lambda>c. c \<noteq> 0) (s @ [0]) = s"
    using takeWhile_append2 [of s "\<lambda>c. c \<noteq> 0" "[0]"] by simp
  then have s5: "gps_rx_char env g3 13 =
     (let g = g3\<lparr>gp_buf := s @ [0]\<rparr>
      in (if x = of_nat (16 * d1 + d0) then gps_data_parser env g s else g)\<lparr>gp_rx := GPS_RX_IDLE, gp_buf := []\<rparr>)"
    using app [of s 0] body(2) by (simp add: gps_rx_char_def Let_def g3_def s_def)
  have "gps_task env g (gps_line body d1 d0) = gps_rx_char env g3 13"
  proof -
    have "gps_task env g (gps_line body d1 d0) = foldl (gps_rx_char env)
        (gps_task env (gps_rx_char env g 36) body) [42, hex_char d1, hex_char d0, 13]"
      by (simp add: gps_task_def gps_line_def)
    then show ?thesis
      unfolding s1 s2 foldl_Cons foldl_Nil s3 using s4 [OF d(1), of "36 # body @ [42]" 0]
        s4 [OF d(2), of "36 # body @ [42, hex_char d1]" "push_bit 4 0 + of_nat d1"] body(2)
      by (simp only: r g3_def s_def append.simps append_assoc length_append list.size)
  qed
  then show ?thesis unfolding s5 by (simp add: g3_def x_def s_def Let_def)
qed

text \<open>Framing. A sentence (its characters without line ends, dollar and star, then a star, two hexadecimal
  digits and the line end), whatever was received before it, is handed to the parser exactly once and as a
  whole, if the digits are the exclusive or of its characters; if they are not, nothing but the variables of the
  reception changes. In both cases the reception waits for the next sentence.\<close>

theorem gps_sentence_received:
  assumes "gps_env_ok env" "\<forall>c \<in> set body. plain_char c" "length body \<le> 120" "d1 < 16" "d0 < 16"
  shows "gps_task env g (gps_line body d1 d0) =
    (let x = nmea_checksum_compute body; r = of_nat (16 * d1 + d0); s = 36 # body @ [42, hex_char d1, hex_char d0];
         g = g\<lparr>gp_rx := GPS_RX_CHSUM, gp_chsum := x, gp_rx_chsum := r, gp_buf := s @ [0]\<rparr>
     in (if x = r then gps_data_parser env g s else g)\<lparr>gp_rx := GPS_RX_IDLE, gp_buf := []\<rparr>)"
  by (rule rx_line [OF assms])

definition example_env :: gps_env where
  "example_env = \<lparr>ge_append = (\<lambda>b c. if length b < 127 then Some (b @ [c]) else None),
     ge_prefix = (\<lambda>s p. take (length p) s = p),
     ge_hex = (\<lambda>c. if c \<le> 57 then c - 48 else c - 55), ge_now = 5000\<rparr>"

lemma example_env_ok: "gps_env_ok example_env"
proof -
  have "ge_hex example_env (hex_char d) = of_nat d" if "d < 16" for d
    using that by (auto simp: example_env_def hex_char_def word_le_nat_alt word_unat_eq_iff unat_word_ariths simp del: inj_unat_word)
  then show ?thesis by (simp add: gps_env_ok_def) (simp add: example_env_def)
qed

theorem gps_sentence_received_witness:
  "\<forall>g. gp_jamming (gps_task example_env g (gps_line (str ''PMTKSPF,2'') 5 9)) = 1
   \<and> gp_jamming (gps_task example_env g (gps_line (str ''PMTKSPF,2'') 0 0)) = gp_jamming g"
proof
  fix g :: gps
  have "\<forall>c \<in> set (str ''PMTKSPF,2''). plain_char c" by (simp add: str_def plain_char_def)
  from gps_sentence_received [OF example_env_ok this, of _ _ g]
  have "gps_task example_env g (gps_line (str ''PMTKSPF,2'') d1 d0) =
    (let x = nmea_checksum_compute (str ''PMTKSPF,2''); r = of_nat (16 * d1 + d0);
         s = 36 # str ''PMTKSPF,2'' @ [42, hex_char d1, hex_char d0];
         g = g\<lparr>gp_rx := GPS_RX_CHSUM, gp_chsum := x, gp_rx_chsum := r, gp_buf := s @ [0]\<rparr>
     in (if x = r then gps_data_parser example_env g s else g)\<lparr>gp_rx := GPS_RX_IDLE, gp_buf := []\<rparr>)"
    if "d1 < 16" "d0 < 16" for d1 d0 using that by (simp add: str_def)
  from this [of 5 9] this [of 0 0]
  show "gp_jamming (gps_task example_env g (gps_line (str ''PMTKSPF,2'') 5 9)) = 1
   \<and> gp_jamming (gps_task example_env g (gps_line (str ''PMTKSPF,2'') 0 0)) = gp_jamming g"
    by (simp add: nmea_checksum_compute_def str_def gps_data_parser_def gps_pmtk_def example_env_def char_at_def Let_def)
qed

subsection \<open>The published positions\<close>

datatype gps_op = Gps_rx gps_env "u8 list" | Gps_tick | Gps_sleep bool | Gps_start u32 | Gps_suspend | Gps_wakeup
  | Gps_maintenance os_timer os_timer | Gps_unso u8

fun gps_step :: "gps_op \<Rightarrow> gps \<Rightarrow> gps" where
  "gps_step (Gps_rx env cs) g = gps_task env g cs"
| "gps_step Gps_tick g = gps_tick g"
| "gps_step (Gps_sleep b) g = gps_sleep_enable b g"
| "gps_step (Gps_start t) g = gps_temporary_start_tmout t g"
| "gps_step Gps_suspend g = gps_suspend g"
| "gps_step Gps_wakeup g = gps_wakeup g"
| "gps_step (Gps_maintenance m now) g = gps_maintenance m now g"
| "gps_step (Gps_unso m) g = gps_set_unso m g"

definition gps_inv :: "gps \<Rightarrow> bool" where
  "gps_inv g \<longleftrightarrow> pos_in_range (gp_last g) \<and> pos_in_range (gp_last_valid g)
     \<and> (nm_fix (gp_last_valid g) = 0 \<longrightarrow> gp_last_valid g = nmea_zero)"

lemma pos_in_range_update [simp]:
  "pos_in_range (d\<lparr>nm_nbsat := n\<rparr>) = pos_in_range d" "pos_in_range (d\<lparr>nm_fix := f\<rparr>) = pos_in_range d"
  "pos_in_range nmea_zero" "pos_in_range (d\<lparr>nm_lat_sec := 0, nm_lon_sec := 0\<rparr>)"
  by (simp_all add: pos_in_range_def nmea_zero_def)

lemma gps_inv_cong:
  "gp_last g' = gp_last g \<Longrightarrow> gp_last_valid g' = gp_last_valid g \<Longrightarrow> gps_inv g \<Longrightarrow> gps_inv g'"
  by (simp add: gps_inv_def)

lemma gps_epoch_inv: "gps_inv g \<Longrightarrow> gps_inv (gps_epoch now g)"
  by (auto simp: gps_inv_def gps_epoch_def Let_def)

lemma gps_wakeup_inv: "gps_inv g \<Longrightarrow> gps_inv (gps_wakeup g)"
  by (simp add: gps_wakeup_def gps_inv_def)

lemma gps_suspend_inv: "gps_inv g \<Longrightarrow> gps_inv (gps_suspend g)"
  by (simp add: gps_suspend_def gps_inv_def)

lemma gps_pmtk_inv: "gps_inv g \<Longrightarrow> gps_inv (gps_pmtk env g d)"
  by (rule gps_inv_cong) (simp_all add: gps_pmtk_def Let_def)

lemma gps_nmea_keeps:
  "gp_last (gps_nmea env g p data) = gp_last g" "gp_last_valid (gps_nmea env g p data) = gp_last_valid g"
  by (simp_all add: gps_nmea_def gps_mark_def split_def Let_def if_distrib [of gp_last] if_distrib [of gp_last_valid])

lemma gps_data_parser_inv:
  assumes "gps_inv g"
  shows "gps_inv (gps_data_parser env g data)"
proof (cases "ge_prefix env data (str ''$G'')")
  case False
  then show ?thesis using gps_pmtk_inv [OF assms] by (simp add: gps_data_parser_def)
next
  case True
  define g1 where "g1 = gps_nmea env (g\<lparr>gp_rx_ok := True\<rparr>) (char_at (drop 2 data) 0) (drop 1 (drop 2 data))"
  have i1: "gps_inv (g\<lparr>gp_rx_ok := True\<rparr>)" by (rule gps_inv_cong [OF _ _ assms]) simp_all
  have i2: "gps_inv g1" by (rule gps_inv_cong [OF _ _ i1]) (simp_all add: g1_def gps_nmea_keeps)
  have "gps_data_parser env g data \<in> {g\<lparr>gp_rx_ok := True\<rparr>, g1, gps_epoch (ge_now env) g1}"
    unfolding gps_data_parser_def Let_def g1_def [symmetric] using True by auto
  then show ?thesis using i1 i2 gps_epoch_inv [OF i2] by auto
qed

lemma gps_rx_char_inv:
  assumes "gps_inv g"
  shows "gps_inv (gps_rx_char env g ch)"
proof -
  define c where "c = (if ch = 10 \<or> ch = 13 then 0 else ch)"
  define g1 where "g1 = (if c = of_char CHR ''$'' then g\<lparr>gp_rx := GPS_RX_DATA, gp_chsum := c, gp_buf := []\<rparr> else g)"
  define g2 where "g2 = (if gp_rx g1 = GPS_RX_DATA
                    then (if c = of_char CHR ''*'' then g1\<lparr>gp_rx := GPS_RX_CHSUM, gp_rx_chsum := 0\<rparr>
                          else g1\<lparr>gp_chsum := gp_chsum g1 XOR c\<rparr>)
                    else if c = 0 then g1
                    else g1\<lparr>gp_rx_chsum := push_bit 4 (gp_rx_chsum g1) + ge_hex env c\<rparr>)"
  have i1: "gps_inv g1" by (rule gps_inv_cong [OF _ _ assms]) (simp_all add: g1_def)
  have i2: "gps_inv g2" by (rule gps_inv_cong [OF _ _ i1]) (simp_all add: g2_def)
  have i3: "gps_inv (g2\<lparr>gp_buf := b\<rparr>)" "gps_inv (g'\<lparr>gp_rx := r, gp_buf := b\<rparr>)" if "gps_inv g'" for b r g'
    by (rule gps_inv_cong [OF _ _ i2], simp_all) (rule gps_inv_cong [OF _ _ that], simp_all)
  have eq: "gps_rx_char env g ch = (if gp_rx g1 = GPS_RX_IDLE then g1 else
      case ge_append env (gp_buf g2) c of
        None \<Rightarrow> g2\<lparr>gp_buf := [], gp_rx := GPS_RX_IDLE\<rparr>
      | Some b \<Rightarrow>
          let g = g2\<lparr>gp_buf := b\<rparr>
          in if c \<noteq> 0 then g
             else let g = (if gp_chsum g \<noteq> gp_rx_chsum g then g
                           else gps_data_parser env g (takeWhile (\<lambda>c. c \<noteq> 0) (gp_buf g)))
                  in g\<lparr>gp_rx := GPS_RX_IDLE, gp_buf := []\<rparr>)"
    unfolding gps_rx_char_def c_def [symmetric] Let_def g1_def [symmetric] g2_def [symmetric] ..
  show ?thesis
  proof (cases "gp_rx g1 = GPS_RX_IDLE")
    case True
    then show ?thesis using i1 eq by simp
  next
    case False
    show ?thesis
    proof (cases "ge_append env (gp_buf g2) c")
      case None
      then show ?thesis using False i2 eq by (simp add: gps_inv_def)
    next
      case (Some b)
      have ib: "gps_inv (g2\<lparr>gp_buf := b\<rparr>)" by (rule i3(1) [OF i2])
      show ?thesis
        using False Some eq ib i3(2) [OF ib] i3(2) [OF gps_data_parser_inv [OF ib]] by (auto simp: Let_def)
    qed
  qed
qed

lemma gps_step_inv: "gps_inv g \<Longrightarrow> gps_inv (gps_step op g)"
proof (induction op g rule: gps_step.induct)
  case (1 env cs g)
  then have "gps_inv (foldl (gps_rx_char env) g cs)" by (induction cs arbitrary: g) (auto intro: gps_rx_char_inv)
  then show ?case by (simp add: gps_task_def)
next
  case (2 g)
  define g1 where "g1 = (if gp_postpone g \<noteq> 0 then g\<lparr>gp_postpone := gp_postpone g - 1\<rparr>
                    else g\<lparr>gp_sleep_tmr := gp_sleep_tmr g + 1\<rparr>)"
  have i: "gps_inv g1" by (rule gps_inv_cong [OF _ _ 2]) (simp_all add: g1_def)
  have "gps_inv ((gps_wakeup g1)\<lparr>gp_sleep_tmr := 0\<rparr>)"
    by (rule gps_inv_cong [OF _ _ gps_wakeup_inv [OF i]]) simp_all
  then show ?case using 2 i gps_suspend_inv [OF i] by (simp add: gps_tick_def g1_def [symmetric] Let_def)
next
  case (3 b g)
  then show ?case by (simp add: gps_sleep_enable_def gps_wakeup_def gps_inv_def Let_def)
next
  case (4 t g)
  have "gps_inv (gps_temporary_start g)" using 4 by (simp add: gps_temporary_start_def gps_wakeup_def gps_inv_def Let_def)
  then show ?case using 4 by (simp add: gps_temporary_start_tmout_def Let_def) (simp add: gps_inv_def)
next
  case (7 m now g)
  then show ?case by (simp add: gps_maintenance_def gps_reset_def gps_inv_def Let_def)
next
  case (8 m g)
  then show ?case by (simp add: gps_set_unso_def gps_inv_def)
qed (simp_all add: gps_suspend_inv gps_wakeup_inv)

lemma gps_init_inv: "gps_inv (gps_init g)"
  by (simp add: gps_init_def gps_temporary_start_tmout_def gps_temporary_start_def gps_sleep_enable_def gps_wakeup_def
      gps_inv_def Let_def nmea_zero_def pos_in_range_def)

text \<open>C38: published positions. After gps_init, whatever characters the receiver sends and in whatever order the
  sleep, power and maintenance operations come, the current and the last valid position lie between 90 degrees south
  and north and 180 degrees west and east, and a last valid position without a fix is the initial record of zeros.\<close>

theorem gps_positions_in_range:
  "pos_in_range (gp_last (foldl (\<lambda>g op. gps_step op g) (gps_init g0) ops))
   \<and> pos_in_range (gp_last_valid (foldl (\<lambda>g op. gps_step op g) (gps_init g0) ops))
   \<and> (if nm_fix (gp_last_valid (foldl (\<lambda>g op. gps_step op g) (gps_init g0) ops)) = 0
      then gp_last_valid (foldl (\<lambda>g op. gps_step op g) (gps_init g0) ops) = nmea_zero else True)"
proof -
  have "gps_inv (foldl (\<lambda>g op. gps_step op g) g ops)" if "gps_inv g" for g
    using that by (induction ops arbitrary: g) (auto intro: gps_step_inv)
  from this [OF gps_init_inv [of g0]] show ?thesis by (simp add: gps_inv_def)
qed

text \<open>
  An epoch whose position is out of range, with a fix, does not leave the last valid position alone: it
  publishes latitude and longitude 0 as a valid position.
\<close>

lemma gps_invalid_position_published:
  assumes "\<not> pos_in_range (gp_tmp g)" "nm_fix (gp_tmp g) > 0"
  shows "nm_lat_sec (gp_last_valid (gps_epoch now g)) = 0 \<and> nm_lon_sec (gp_last_valid (gps_epoch now g)) = 0
     \<and> nm_fix (gp_last_valid (gps_epoch now g)) > 0 \<and> gp_fix_tm (gps_epoch now g) = now"
  using assms by (simp add: gps_epoch_def Let_def)

text \<open>
  The computed checksum is compared with the digits of an earlier sentence when a line ends
  without a star.
\<close>

lemma gps_line_without_checksum:
  assumes "gp_rx g = GPS_RX_DATA" "ge_append env (gp_buf g) 0 = Some b" "gp_chsum g = gp_rx_chsum g"
  shows "gps_rx_char env g 13 = (gps_data_parser env (g\<lparr>gp_buf := b\<rparr>) (takeWhile (\<lambda>c. c \<noteq> 0) b))\<lparr>gp_rx := GPS_RX_IDLE, gp_buf := []\<rparr>"
  using assms by (cases g) (simp add: gps_rx_char_def Let_def)

subsection \<open>The sleep cycle\<close>

lemma gps_tick_run:
  assumes "gp_sleep_mode g" "gp_postpone g = 0" "gp_sleep_tmr g = 0" "gp_pwr g" "n \<le> 36000"
  shows "gp_sleep_mode ((gps_tick ^^ n) g) \<and> gp_postpone ((gps_tick ^^ n) g) = 0
     \<and> gp_sleep_tmr ((gps_tick ^^ n) g) = of_nat n \<and> (gp_pwr ((gps_tick ^^ n) g) \<longleftrightarrow> n < 1800)"
  using assms(5)
proof (induction n)
  case 0
  then show ?case using assms by simp
next
  case (Suc n)
  define h where "h = (gps_tick ^^ n) g"
  have h: "gp_sleep_mode h" "gp_postpone h = 0" "gp_sleep_tmr h = of_nat n" "gp_pwr h \<longleftrightarrow> n < 1800"
    using Suc by (simp_all add: h_def)
  have u: "unat (of_nat (Suc n) :: u16) = Suc n" by (rule unat_of_nat_u16) (use Suc.prems in linarith)
  have s: "of_nat n + 1 = (of_nat (Suc n) :: u16)" by simp
  have gt: "\<not> (of_nat (Suc n) :: u16) > 36000" using u Suc.prems by (simp add: word_less_nat_alt del: of_nat_Suc)
  have eq: "(of_nat (Suc n) :: u16) = 1800 \<longleftrightarrow> Suc n = 1800"
    using u by (simp add: word_unat_eq_iff del: of_nat_Suc inj_unat_word)
  have "gps_tick h = (if Suc n = 1800 then gps_suspend (h\<lparr>gp_sleep_tmr := of_nat (Suc n)\<rparr>) else h\<lparr>gp_sleep_tmr := of_nat (Suc n)\<rparr>)"
    using h(1-3) gt eq unfolding gps_tick_def by (simp add: s Let_def del: of_nat_Suc)
  then show ?case using h by (auto simp: h_def [symmetric] gps_suspend_def simp del: of_nat_Suc)
qed

text \<open>The sleep cycle. In sleep mode, from a wake-up on and without a fix or a request to stay awake, the
  receiver is powered for exactly 1800 ticks of 100 ms (3 minutes), then off until tick 36001 (one hour), when it is
  woken up with its timer at 0, so that the cycle repeats.\<close>

theorem gps_sleep_cycle:
  assumes "gp_sleep_mode g" "gp_postpone g = 0" "gp_sleep_tmr g = 0" "gp_pwr g" "n \<le> 36001"
  shows "(gp_pwr ((gps_tick ^^ n) g) \<longleftrightarrow> n < 1800 \<or> n = 36001)
     \<and> gp_sleep_mode ((gps_tick ^^ n) g) \<and> gp_postpone ((gps_tick ^^ n) g) = 0
     \<and> gp_sleep_tmr ((gps_tick ^^ n) g) = (if n = 36001 then 0 else of_nat n)"
proof (cases "n = 36001")
  case False
  then show ?thesis using gps_tick_run [OF assms(1-4), of n] assms(5) by auto
next
  case True
  define h where "h = (gps_tick ^^ 36000) g"
  have h: "gp_sleep_mode h" "gp_postpone h = 0" "gp_sleep_tmr h = 36000" "\<not> gp_pwr h"
    using gps_tick_run [OF assms(1-4), of 36000] by (simp_all add: h_def)
  have "(gps_tick ^^ n) g = gps_tick h"
  proof -
    have "(gps_tick ^^ Suc m) g = gps_tick ((gps_tick ^^ m) g)" for m by simp
    moreover have "n = Suc 36000" using True by simp
    ultimately show ?thesis unfolding h_def by metis
  qed
  moreover have "gps_tick h = (gps_wakeup (h\<lparr>gp_sleep_tmr := 36001\<rparr>))\<lparr>gp_sleep_tmr := 0\<rparr>"
    using h by (simp add: gps_tick_def Let_def)
  ultimately show ?thesis using h True by (simp add: gps_wakeup_def)
qed

theorem gps_sleep_cycle_witness:
  "\<forall>g. gp_pwr ((gps_tick ^^ 1799) (g\<lparr>gp_sleep_mode := True, gp_postpone := 0, gp_sleep_tmr := 0, gp_pwr := True\<rparr>))
   \<and> \<not> gp_pwr ((gps_tick ^^ 1800) (g\<lparr>gp_sleep_mode := True, gp_postpone := 0, gp_sleep_tmr := 0, gp_pwr := True\<rparr>))"
proof
  fix g :: gps
  define h where "h = g\<lparr>gp_sleep_mode := True, gp_postpone := 0, gp_sleep_tmr := 0, gp_pwr := True\<rparr>"
  have "gp_sleep_mode h" "gp_postpone h = 0" "gp_sleep_tmr h = 0" "gp_pwr h" by (simp_all add: h_def)
  from gps_sleep_cycle [OF this, of 1799] gps_sleep_cycle [OF this, of 1800] show "gp_pwr ((gps_tick ^^ 1799) (g\<lparr>gp_sleep_mode := True, gp_postpone := 0, gp_sleep_tmr := 0, gp_pwr := True\<rparr>))
   \<and> \<not> gp_pwr ((gps_tick ^^ 1800) (g\<lparr>gp_sleep_mode := True, gp_postpone := 0, gp_sleep_tmr := 0, gp_pwr := True\<rparr>))"
    unfolding h_def [symmetric] by (simp del: funpow.simps)
qed

end
