(* ===== verification/Cmd.thy ===== *)
theory Cmd
  imports EventTask Inp Gps Update
begin

text \<open>
  \<open>app/cmd.c\<close>: the command interpreter.  A text of commands, separated by semicolons, comes from a
  terminal or a text message; each command is looked up by name or by a unique abbreviation among those
  that the access of the channel allows, and its handler reads or changes the state of the device.

  The parsing functions of the SDK (numbers, quoted strings, separators, comparison of texts), the text
  buffer, the modem, and texts that the C library formats from floats are in \<open>cmd_env\<close>.  A text is its
  characters without the terminator, so that the empty list stands for the end.  Calls that leave the model are
  recorded in \<open>cm_acts\<close> in their order.  A handler is one step; the delays of the lock impulses have no counterpart.
\<close>

unbundle bit_operations_syntax

subsection \<open>State\<close>

datatype cmd_act =
    Act_data_disconnect
  | Act_udp_test
  | Act_log_io u32 u32
  | Act_event_debug
  | Act_uart4 nat
  | Act_at "u8 list"
  | Act_ble "u8 list"
  | Act_reboot bool

text \<open>
  \<open>ce_strnicmp a b n\<close> is \<open>strnicmp(a, b, n) == 0\<close>; \<open>ce_string\<close> is \<open>parse_string\<close> with the size of the destination;
  \<open>ce_full\<close> is what \<open>buf_init_full\<close> sees of a text in an array of \<open>CFG_ITEM_SIZE\<close>.
\<close>

record cmd_env =
  ce_ev :: ev_env
  ce_update :: update_env
  ce_is_char :: "u8 \<Rightarrow> bool"
  ce_strnicmp :: "u8 list \<Rightarrow> u8 list \<Rightarrow> nat \<Rightarrow> bool"
  ce_number :: "u8 list \<Rightarrow> (int \<times> u8 list) option"
  ce_separator :: "u8 list \<Rightarrow> u8 list option"
  ce_string :: "u8 list \<Rightarrow> nat \<Rightarrow> (u8 list \<times> u8 list) option"
  ce_full :: "u8 list \<Rightarrow> u8 list"
  ce_ticks :: os_timer
  ce_second :: os_timer
  ce_rtc_valid :: "rtc \<Rightarrow> bool"
  ce_hw_name :: "u8 list"
  ce_version :: "u8 list"
  ce_power_text :: "u8 list"
  ce_temp_text :: "u8 list"
  ce_batt_ok :: bool
  ce_speed_text :: "u16 \<Rightarrow> u8 list"
  ce_net_ok :: bool
  ce_lte :: bool
  ce_udp_ready :: bool
  ce_udp_info :: "u8 list"
  ce_net_connect :: bool
  ce_udp_tx :: bool
  ce_tracer_test :: bool
  ce_modem_command :: "int \<Rightarrow> bool"
  ce_at_response :: "u8 list \<Rightarrow> u8 list"

record 'f cmd_st =
  cm_es :: "'f ev_st"
  cm_inp :: inp_st
  cm_gps :: gps
  cm_up :: "'f update"
  cm_echo :: bool
  cm_log_level :: int
  cm_log_select :: int
  cm_shock_debug :: bool
  cm_acts :: "cmd_act list"

record access =
  ac_auth :: u8
  ac_source :: u8

text \<open>What the functions of the file pass around: the state, the result buffer, the access and the rest of the text.\<close>

record 'f cmd_cx =
  cx_st :: "'f cmd_st"
  cx_res :: "u8 list"
  cx_acc :: access
  cx_text :: "u8 list"

abbreviation (input) cx_sys :: "'f cmd_cx \<Rightarrow> ('f, rtc) sys" where "cx_sys cx \<equiv> es_sys (cm_es (cx_st cx))"

definition cx_upd :: "('f cmd_st \<Rightarrow> 'f cmd_st) \<Rightarrow> 'f cmd_cx \<Rightarrow> 'f cmd_cx" where
  "cx_upd f cx = cx\<lparr>cx_st := f (cx_st cx)\<rparr>"

definition cx_set_sys :: "'f cmd_cx \<Rightarrow> ('f, rtc) sys \<Rightarrow> 'f cmd_cx" where
  "cx_set_sys cx y = cx_upd (\<lambda>s. s\<lparr>cm_es := (cm_es s)\<lparr>es_sys := y\<rparr>\<rparr>) cx"

definition cx_act :: "cmd_act \<Rightarrow> 'f cmd_cx \<Rightarrow> 'f cmd_cx" where
  "cx_act a = cx_upd (\<lambda>s. s\<lparr>cm_acts := cm_acts s @ [a]\<rparr>)"

subsection \<open>Output\<close>

definition cmd_put :: "cmd_env \<Rightarrow> u8 list \<Rightarrow> 'f cmd_cx \<Rightarrow> 'f cmd_cx" where
  "cmd_put env s cx = cx\<lparr>cx_res := bf_append (ee_buf (ce_ev env)) (cx_res cx) s\<rparr>"

definition cmd_nl :: "cmd_env \<Rightarrow> 'f cmd_cx \<Rightarrow> 'f cmd_cx" where
  "cmd_nl env cx = cmd_put env (ee_nl (ce_ev env)) cx"

definition cmd_error :: "cmd_env \<Rightarrow> u8 list option \<Rightarrow> 'f cmd_cx \<Rightarrow> 'f cmd_cx \<times> bool" where
  "cmd_error env text cx =
     (let cx = cmd_put env (str ''ERROR'') cx;
          cx = (case text of Some t \<Rightarrow> cmd_put env (str '': '' @ [34] @ t @ [34]) cx | None \<Rightarrow> cx)
      in (cmd_nl env cx, False))"

definition CMD_ERR_MSG_INVALID_PARAM :: "u8 list" where "CMD_ERR_MSG_INVALID_PARAM = str ''INVALID PARAMETER''"
definition CMD_ERR_MSG_MISSING_PARAM :: "u8 list" where "CMD_ERR_MSG_MISSING_PARAM = str ''MISSING PARAMETER''"
definition CMD_ERR_MSG_UNKNOWN_COMMAND :: "u8 list" where "CMD_ERR_MSG_UNKNOWN_COMMAND = str ''UNKNOWN COMMAND''"

definition rtc_text :: "rtc \<Rightarrow> u8 list" where
  "rtc_text t =
     pad0 2 (show_nat (unat (rtc_year t))) @ [47] @ show_nat (unat (rtc_month t)) @ [47] @ show_nat (unat (rtc_day t)) @ [32]
     @ show_nat (unat (rtc_hour t)) @ [58] @ pad0 2 (show_nat (unat (rtc_minute t)))
     @ [58] @ pad0 2 (show_nat (unat (rtc_second t)))"

definition add_rtc :: "cmd_env \<Rightarrow> 'f cmd_cx \<Rightarrow> 'f cmd_cx" where
  "add_rtc env cx = cmd_put env (rtc_text (ee_now (ce_ev env))) cx"

definition state_text :: "u32 \<Rightarrow> u8 list" where
  "state_text s = (if s = SECTION_ST_UNSET then str ''UNSET'' else if s = SECTION_ST_SET_PART then str ''Partially SET''
     else if s = SECTION_ST_SET then str ''SET'' else str ''failure'')"

definition alarm_text :: "u8 \<Rightarrow> u8 list" where
  "alarm_text a = (if a = ALARM_IDLE then str ''OFF'' else if a = ALARM_ACTIVE then str ''ACTIVE!''
     else if a = ALARM_TIMEOUT then str ''MEMORY'' else str ''failure'')"

definition add_state :: "cmd_env \<Rightarrow> 'f cmd_cx \<Rightarrow> 'f cmd_cx" where
  "add_state env cx =
     cmd_put env (str ''STATE '' @ state_text (system_state (cx_sys cx)) @ str '', ALARM ''
       @ alarm_text (alarm_state (cx_sys cx)) @ [32]) cx"

subsection \<open>Input\<close>

definition skip_spaces :: "u8 list \<Rightarrow> u8 list" where
  "skip_spaces s = dropWhile (\<lambda>c. c = 32) s"

definition cmd_fetch_num :: "cmd_env \<Rightarrow> 'f cmd_cx \<Rightarrow> ('f cmd_cx \<times> int) option" where
  "cmd_fetch_num env cx = map_option (\<lambda>(n, t). (cx\<lparr>cx_text := t\<rparr>, n)) (ce_number env (cx_text cx))"

definition cmd_fetch_separator :: "cmd_env \<Rightarrow> 'f cmd_cx \<Rightarrow> 'f cmd_cx option" where
  "cmd_fetch_separator env cx = map_option (\<lambda>t. cx\<lparr>cx_text := t\<rparr>) (ce_separator env (cx_text cx))"

definition cmd_fetch_string :: "cmd_env \<Rightarrow> nat \<Rightarrow> 'f cmd_cx \<Rightarrow> ('f cmd_cx \<times> u8 list) option" where
  "cmd_fetch_string env limit cx = map_option (\<lambda>(s, t). (cx\<lparr>cx_text := t\<rparr>, s)) (ce_string env (cx_text cx) limit)"

subsection \<open>The command table\<close>

datatype cmd_get =
    C_auth | C_cfg | C_gps | C_help | C_io | C_lock | C_mem | C_net | C_rtc | C_set | C_status
  | C_unlock | C_unset | C_update | C_ver | C_dl | C_echo

datatype cmd_put_fn =
    S_auth | S_cfg | S_gps | S_mem | S_reboot | S_at | S_ble | S_dbg | S_modem | S_dl | S_echo

record cmd =
  cd_text :: "u8 list"
  cd_pfunc :: "cmd_get option"
  cd_pfunc_set :: "cmd_put_fn option"
  cd_auth :: u8
  cd_help :: "u8 list option"

definition CMD_TABLE :: "cmd list" where
  "CMD_TABLE = map (\<lambda>(t, g, s, a, h). \<lparr>cd_text = str t, cd_pfunc = g, cd_pfunc_set = s, cd_auth = a, cd_help = h\<rparr>)
    [(''AUTH'', Some C_auth, Some S_auth, ACCESS_NONE, Some (str ''authorize channel AUTH='' @ [34] @ str ''pass'' @ [34])),
     (''CFG'', Some C_cfg, Some S_cfg, ACCESS_USER, Some (str ''CFG=<n>[,'' @ [34] @ str ''value'' @ [34] @ str '']'')),
     (''GPS'', Some C_gps, Some S_gps, ACCESS_USER, Some (str ''get GPS coordinates'')),
     (''HELP'', Some C_help, None, ACCESS_NONE, Some (str ''Show this help text'')),
     (''IO'', Some C_io, None, ACCESS_USER, Some (str ''get IO state'')),
     (''LOCK'', Some C_lock, None, ACCESS_USER, Some (str ''lock pulse'')),
     (''MEM'', Some C_mem, Some S_mem, ACCESS_USER, Some (str ''Get event memory'')),
     (''NET'', Some C_net, None, ACCESS_USER, Some (str ''Get network info'')),
     (''REBOOT'', None, Some S_reboot, ACCESS_ADMIN, Some (str ''REBOOT=<n>'')),
     (''RTC'', Some C_rtc, None, ACCESS_USER, Some (str ''get RTC time'')),
     (''SET'', Some C_set, None, ACCESS_USER, Some (str ''switch to set'')),
     (''STATUS'', Some C_status, None, ACCESS_USER, Some (str ''Get status info'')),
     (''UNLOCK'', Some C_unlock, None, ACCESS_USER, Some (str ''unlock pulse'')),
     (''UNSET'', Some C_unset, None, ACCESS_USER, Some (str ''switch to unset'')),
     (''UPDATE'', Some C_update, None, ACCESS_ADMIN, Some (str ''request to update FW from server'')),
     (''VER'', Some C_ver, None, ACCESS_NONE, Some (str ''Request product information'')),
     (''AT'', None, Some S_at, ACCESS_SYSTEM, Some (str ''send AT-command'')),
     (''BLE'', None, Some S_ble, ACCESS_SYSTEM, Some (str ''send cmd to BLE module'')),
     (''DBG'', None, Some S_dbg, ACCESS_SYSTEM, None),
     (''MODEM'', None, Some S_modem, ACCESS_SYSTEM, None),
     (''DL'', Some C_dl, Some S_dl, ACCESS_SYSTEM, Some (str ''set debug level[,select]'')),
     (''ECHO'', Some C_echo, Some S_echo, ACCESS_SYSTEM, Some (str ''get/set modem echo''))]"

text \<open>\<open>_find_cmd\<close>: \<open>found\<close> and \<open>found_id\<close> count the abbreviated names and keep the last one.\<close>

abbreviation (input) CMD_MAX_LEN :: nat where "CMD_MAX_LEN \<equiv> 64"

definition cmd_text_len :: "cmd_env \<Rightarrow> u8 list \<Rightarrow> nat" where
  "cmd_text_len env text =
     (let l = length (takeWhile (ce_is_char env) (take CMD_MAX_LEN text)) in if l = CMD_MAX_LEN then 0 else l)"

definition is_char_at :: "cmd_env \<Rightarrow> u8 list \<Rightarrow> nat \<Rightarrow> bool" where
  "is_char_at env text l \<longleftrightarrow> l < length text \<and> ce_is_char env (text ! l)"

fun find_cmd_loop :: "cmd_env \<Rightarrow> u8 list \<Rightarrow> nat \<Rightarrow> u8 \<Rightarrow> cmd list \<Rightarrow> nat \<Rightarrow> cmd option \<Rightarrow> (cmd \<times> u8 list) option" where
  "find_cmd_loop env text text_l auth [] found found_id =
     (if found = 1 then map_option (\<lambda>c. (c, drop text_l text)) found_id else None)"
| "find_cmd_loop env text text_l auth (c # table) found found_id =
     (let l = length (cd_text c)
      in if cd_auth c > auth then find_cmd_loop env text text_l auth table found found_id
         else let short = (text_l < l \<and> text_l > 0 \<and> ce_strnicmp env text (cd_text c) text_l);
                  found = (if short then found + 1 else found);
                  found_id = (if short then Some c else found_id)
              in if ce_strnicmp env text (cd_text c) l \<and> \<not> is_char_at env text l then Some (c, drop l text)
                 else find_cmd_loop env text text_l auth table found found_id)"

definition find_cmd :: "cmd_env \<Rightarrow> u8 list \<Rightarrow> u8 \<Rightarrow> (cmd \<times> u8 list) option" where
  "find_cmd env text auth = find_cmd_loop env text (cmd_text_len env text) auth CMD_TABLE 0 None"

subsection \<open>Passwords\<close>

definition cx_cfg_read :: "'f cmd_cx \<Rightarrow> u16 \<Rightarrow> u8 \<Rightarrow> ('f cmd_cx \<times> bool \<times> u8 list) option" where
  "cx_cfg_read cx i auth =
     (case cfg_read (sy_cfg (cx_sys cx)) i auth of
        (cf, r) \<Rightarrow> map_option (\<lambda>r. (cx_set_sys cx ((cx_sys cx)\<lparr>sy_cfg := cf\<rparr>), r)) r)"

definition PASSWD_TABLE :: "(u16 \<times> u8 \<times> u8) list" where
  "PASSWD_TABLE =
     [(CFG_ID_PASSWD_ADMIN, ACCESS_ADMIN, EVENT_SOURCE_ADMIN), (CFG_ID_PASSWD_SYSTEM, ACCESS_SYSTEM, EVENT_SOURCE_ADMIN),
      (151, ACCESS_USER, EVENT_SOURCE_USER1), (152, ACCESS_USER, EVENT_SOURCE_USER2),
      (153, ACCESS_USER, EVENT_SOURCE_USER3), (154, ACCESS_USER, EVENT_SOURCE_USER4)]"

abbreviation (input) CMD_MIN_PASSWD_LENGTH :: nat where "CMD_MIN_PASSWD_LENGTH \<equiv> 4"

fun password_loop :: "cmd_env \<Rightarrow> u8 list \<Rightarrow> (u16 \<times> u8 \<times> u8) list \<Rightarrow> 'f cmd_cx \<Rightarrow> ('f cmd_cx \<times> nat) option" where
  "password_loop env text [] cx = Some (cx, 0)"
| "password_loop env text ((i, auth, source) # pt) cx =
     do { (cx, r, code) \<leftarrow> cx_cfg_read cx i ACCESS_SYSTEM;
          if \<not> r then Some (cx, 0)
          else if \<not> length code < CMD_MIN_PASSWD_LENGTH \<and> ce_strnicmp env text code (length code)
          then Some (cx\<lparr>cx_acc := \<lparr>ac_auth = auth, ac_source = source\<rparr>\<rparr>, length code)
          else password_loop env text pt cx }"

definition cmd_get_password_access :: "cmd_env \<Rightarrow> u8 list \<Rightarrow> 'f cmd_cx \<Rightarrow> ('f cmd_cx \<times> nat) option" where
  "cmd_get_password_access env text cx =
     password_loop env text PASSWD_TABLE (cx\<lparr>cx_acc := \<lparr>ac_auth = ACCESS_NONE, ac_source = EVENT_SOURCE_UNKNOWN\<rparr>\<rparr>)"

subsection \<open>Commands without a parameter\<close>

definition auth_string :: "u8 \<Rightarrow> u8 list" where
  "auth_string auth = (if auth \<ge> ACCESS_SYSTEM then str ''SYSTEM'' else if auth \<ge> ACCESS_ADMIN then str ''ADMIN''
     else if auth \<ge> ACCESS_USER then str ''USER'' else str ''NONE'')"

definition cmd_auth :: "cmd_env \<Rightarrow> cmd \<Rightarrow> 'f cmd_cx \<Rightarrow> 'f cmd_cx" where
  "cmd_auth env c cx = cmd_nl env (cmd_put env (str '': '' @ auth_string (ac_auth (cx_acc cx))) (cmd_put env (cd_text c) cx))"

definition cmd_ver :: "cmd_env \<Rightarrow> cmd \<Rightarrow> 'f cmd_cx \<Rightarrow> 'f cmd_cx" where
  "cmd_ver env c cx =
     cmd_nl env (cmd_put env (str '': '' @ ce_hw_name env @ [32] @ ce_version env) (cmd_put env (cd_text c) cx))"

text \<open>One configuration item as the commands show it.\<close>

definition cmd_cfg_item :: "cmd_env \<Rightarrow> cmd \<Rightarrow> int \<Rightarrow> 'f cmd_cx \<Rightarrow> ('f cmd_cx \<times> bool) option" where
  "cmd_cfg_item env c i cx =
     do { let cx = cmd_put env (cd_text c @ [58] @ show_int i @ [44, 34]) cx;
          (cx, r, t) \<leftarrow> cx_cfg_read cx (word_of_int i) (ac_auth (cx_acc cx));
          Some (cmd_nl env (cmd_put env [34] (cmd_put env t cx)), r) }"

fun cmd_cfg_loop :: "cmd_env \<Rightarrow> cmd \<Rightarrow> nat \<Rightarrow> nat \<Rightarrow> 'f cmd_cx \<Rightarrow> 'f cmd_cx option" where
  "cmd_cfg_loop env c 0 i cx = Some cx"
| "cmd_cfg_loop env c (Suc n) i cx =
     (let cfg_id = cfg_table_get_id (of_nat i)
      in if cfg_id = CFG_ID_END then Some cx
         else if \<not> cfg_table_access_read cfg_id (ac_auth (cx_acc cx)) then cmd_cfg_loop env c n (Suc i) cx
         else do { (cx, _) \<leftarrow> cmd_cfg_item env c (uint cfg_id) cx;
                   cmd_cfg_loop env c n (Suc i) cx })"

definition cmd_cfg :: "cmd_env \<Rightarrow> cmd \<Rightarrow> 'f cmd_cx \<Rightarrow> 'f cmd_cx option" where
  "cmd_cfg env c cx = cmd_cfg_loop env c 1000 0 cx"

definition pad4 :: "nat \<Rightarrow> u8 list" where
  "pad4 n = pad0 4 (show_nat n)"

definition gps_angle_text :: "u8 \<Rightarrow> u8 \<Rightarrow> 32 word \<Rightarrow> u8 list" where
  "gps_angle_text pos neg a =
     (let n = nat (if sint a \<ge> 0 then sint a else - sint a)
      in [if sint a \<ge> 0 then pos else neg] @ show_nat (n div 360000) @ [46] @ pad4 (n mod 360000 div 36))"

definition gps_time_text :: "cmd_env \<Rightarrow> gps \<Rightarrow> rtc \<Rightarrow> u8 list" where
  "gps_time_text env g t =
     str ''[GMT '' @ (if gps_valid_stamp_age (ce_ticks env) g > 24 * 60 * 60 * ce_second env
        then show_nat (unat (rtc_day t)) @ [47] @ show_nat (unat (rtc_month t)) @ [47] @ pad0 2 (show_nat (unat (rtc_year t))) @ [32]
        else [])
     @ show_nat (unat (rtc_hour t)) @ [58] @ pad0 2 (show_nat (unat (rtc_minute t))) @ str ''] ''"

definition cmd_gps :: "cmd_env \<Rightarrow> cmd \<Rightarrow> 'f cmd_cx \<Rightarrow> 'f cmd_cx" where
  "cmd_gps env c cx =
     (let cx = cmd_put env (cd_text c @ str '': '') cx; g = cm_gps (cx_st cx); (pos, ok) = gps_get_stored_stamp g
      in if \<not> ok \<or> nm_fix pos < 1 then cmd_put env (str ''UNKNOWN'' @ ee_nl (ce_ev env)) cx
         else let cx = (if ce_rtc_valid env (nm_time pos) then cmd_put env (gps_time_text env g (nm_time pos)) cx else cx);
                  cx = cmd_put env (str ''https://www.google.com/m?q='' @ gps_angle_text 78 83 (nm_lat_sec pos)
                         @ gps_angle_text 69 87 (nm_lon_sec pos) @ str ''&site=maps '') cx;
                  cx = cmd_put env (str ''speed='' @ ce_speed_text env (nm_speed pos) @ str '', alt='' @ show_int (sint (nm_alt pos))) cx
              in cmd_nl env cx)"

definition inp_name :: "u8 \<Rightarrow> u8 list" where
  "inp_name pin =
     (if pin = INP_KEY then str ''KEY'' else if pin = INP_LOCK then str ''LOCK'' else if pin = INP_UNLOCK then str ''UNLOCK''
      else if pin = INP_DOOR then str ''DOOR'' else if pin = INP_INP1 then str ''INP'' else if pin = INP_INP2 then str ''INP2''
      else if pin = INP_INP3 then str ''INP3'' else if pin = INP_SHOCK then str ''SHOCK'' else if pin = INP_SIZE then str ''none''
      else str ''unknown'')"

fun put_names :: "cmd_env \<Rightarrow> u8 list list \<Rightarrow> bool \<Rightarrow> 'f cmd_cx \<Rightarrow> 'f cmd_cx" where
  "put_names env [] next cx = (if next then cx else cmd_put env (str ''none'') cx)"
| "put_names env (n # ns) next cx = put_names env ns True (cmd_put env n (if next then cmd_put env [44] cx else cx))"

definition cmd_io :: "cmd_env \<Rightarrow> cmd \<Rightarrow> 'f cmd_cx \<Rightarrow> 'f cmd_cx" where
  "cmd_io env c cx =
     (let inp = inp_state (cm_inp (cx_st cx)); ou = ou_state (sy_out (cx_sys cx));
          names = map (\<lambda>i. inp_name (of_nat i)) (filter (\<lambda>i. inp AND push_bit i 1 \<noteq> 0) [0..<8])
                  @ map (\<lambda>i. out_name (int i)) (filter (\<lambda>i. ou AND push_bit i 1 \<noteq> 0) [0..<3])
      in cmd_nl env (put_names env names False (cmd_put env (str ''active: '') (cmd_put env (cd_text c @ str '': '') cx))))"

definition cx_io :: "cmd_env \<Rightarrow> bool \<Rightarrow> u32 \<Rightarrow> 'f cmd_cx \<Rightarrow> 'f cmd_cx option" where
  "cx_io env on b cx =
     map_option (cx_set_sys cx) ((if on then system_io_activate else system_io_deactivate) (ee_sys (ce_ev env)) (cx_sys cx) b)"

definition cx_bypass :: "bool \<Rightarrow> 'f cmd_cx \<Rightarrow> 'f cmd_cx" where
  "cx_bypass state = cx_upd (\<lambda>s. s\<lparr>cm_inp := inp_set_bypass (cm_inp s) INP_LOCK state\<rparr>)"

definition cmd_lock :: "cmd_env \<Rightarrow> 'f cmd_cx \<Rightarrow> 'f cmd_cx option" where
  "cmd_lock env cx =
     do { cx \<leftarrow> cx_io env True SYSTEM_IO_LOCK (cx_bypass True cx);
          cx \<leftarrow> cx_io env False SYSTEM_IO_LOCK cx;
          Some (cx_bypass False cx) }"

definition cx_unset :: "cmd_env \<Rightarrow> 'f cmd_cx \<Rightarrow> 'f cmd_cx option" where
  "cx_unset env cx = map_option (cx_set_sys cx) (system_unset (ee_sys (ce_ev env)) (cx_sys cx) (ac_source (cx_acc cx)))"

definition cx_set :: "cmd_env \<Rightarrow> 'f cmd_cx \<Rightarrow> 'f cmd_cx option" where
  "cx_set env cx = map_option (cx_set_sys cx) (system_set (ee_sys (ce_ev env)) (cx_sys cx) (ac_source (cx_acc cx)))"

definition cmd_unlock :: "cmd_env \<Rightarrow> 'f cmd_cx \<Rightarrow> 'f cmd_cx option" where
  "cmd_unlock env cx =
     do { cx \<leftarrow> (if system_state (cx_sys cx) \<noteq> SECTION_ST_UNSET then cx_unset env cx else Some cx);
          cx \<leftarrow> cx_io env True SYSTEM_IO_UNLOCK cx;
          cx_io env False SYSTEM_IO_UNLOCK cx }"

definition cmd_set :: "cmd_env \<Rightarrow> cmd \<Rightarrow> 'f cmd_cx \<Rightarrow> 'f cmd_cx option" where
  "cmd_set env c cx =
     (if system_state (cx_sys cx) = SECTION_ST_SET then Some (cmd_nl env (add_state env cx))
      else do { cx \<leftarrow> cx_set env cx; Some (cmd_nl env (cmd_put env (cd_text c @ str '' OK'') cx)) })"

definition cmd_unset :: "cmd_env \<Rightarrow> cmd \<Rightarrow> 'f cmd_cx \<Rightarrow> 'f cmd_cx option" where
  "cmd_unset env c cx =
     (if system_state (cx_sys cx) = SECTION_ST_UNSET then Some (cmd_nl env (add_state env cx))
      else do { cx \<leftarrow> cx_unset env cx; Some (cmd_nl env (cmd_put env (cd_text c @ str '' OK'') cx)) })"

text \<open>The configuration of the update is the one of the device.\<close>

definition cmd_update :: "cmd_env \<Rightarrow> 'f cmd_cx \<Rightarrow> ('f cmd_cx \<times> bool) option" where
  "cmd_update env cx =
     do { (u, r) \<leftarrow> update_start (ce_update env) ((cm_up (cx_st cx))\<lparr>up_cf := sy_cfg (cx_sys cx)\<rparr>);
          Some (cx_upd (\<lambda>s. s\<lparr>cm_up := u\<rparr>) (cx_set_sys cx ((cx_sys cx)\<lparr>sy_cfg := up_cf u\<rparr>)), r) }"

definition mem_entry :: "cmd_env \<Rightarrow> u32 \<Rightarrow> 'f cmd_cx \<Rightarrow> 'f cmd_cx option" where
  "mem_entry env back cx =
     (let es = cm_es (cx_st cx)
      in case event_memory_read (ee_codec (ce_ev env))
                \<lparr>em_st = cf_store (es_cfg es), em_ptr = es_em_ptr es, em_cnt = eq_cnt (es_q es)\<rparr> back of
           (em, e, r) \<Rightarrow>
             let es = es\<lparr>es_sys := (es_sys es)\<lparr>sy_cfg := (es_cfg es)\<lparr>cf_store := em_st em\<rparr>\<rparr>\<rparr>;
                 cx = cx_upd (\<lambda>s. s\<lparr>cm_es := es\<rparr>) cx
             in case (if r then e else None) of
                  None \<Rightarrow> Some (cmd_put env [45] cx)
                | Some e \<Rightarrow> do { (es, res) \<leftarrow> event_description (ce_ev env) es (cx_res cx) e;
                                 Some ((cx_upd (\<lambda>s. s\<lparr>cm_es := es\<rparr>) cx)\<lparr>cx_res := res\<rparr>) })"

fun append_mem :: "cmd_env \<Rightarrow> u32 \<Rightarrow> nat \<Rightarrow> bool \<Rightarrow> 'f cmd_cx \<Rightarrow> 'f cmd_cx option" where
  "append_mem env back 0 first cx = Some cx"
| "append_mem env back (Suc n) first cx =
     do { cx \<leftarrow> mem_entry env back (if first then cx else cmd_put env (str ''; '') cx);
          append_mem env (back + 1) n False cx }"

definition cmd_mem :: "cmd_env \<Rightarrow> 'f cmd_cx \<Rightarrow> 'f cmd_cx option" where
  "cmd_mem env cx = append_mem env 0 3 True (cmd_put env (str ''MEM: '') cx)"

definition cmd_net :: "cmd_env \<Rightarrow> 'f cmd_cx \<Rightarrow> 'f cmd_cx" where
  "cmd_net env cx =
     (let cx = cmd_put env (str ''NET: '') cx;
          cx = cmd_put env (if ce_net_ok env then if ce_lte env then str ''LTE'' else str ''GSM'' else str ''no'') cx;
          cx = cmd_put env (str ''DATA: '' @ (if ce_udp_ready env then str ''OK'' else str ''no'')) (cmd_nl env cx)
      in cmd_nl env (cmd_put env (ce_udp_info env) (cmd_nl env cx)))"

definition cmd_status :: "cmd_env \<Rightarrow> 'f cmd_cx \<Rightarrow> 'f cmd_cx" where
  "cmd_status env cx =
     (let cx = cmd_put env (ce_power_text env) (cmd_nl env (add_state env cx));
          cx = (if ce_batt_ok env then cx else cmd_put env (str '' test FAIL'') cx)
      in cmd_nl env (cmd_put env (ce_temp_text env) (cmd_nl env cx)))"

fun build_help :: "cmd_env \<Rightarrow> cmd list \<Rightarrow> bool \<Rightarrow> u8 \<Rightarrow> 'f cmd_cx \<Rightarrow> 'f cmd_cx" where
  "build_help env [] full auth cx = cx"
| "build_help env (c # table) full auth cx =
     (case cd_help c of
        None \<Rightarrow> build_help env table full auth cx
      | Some h \<Rightarrow>
          if length h = 0 \<or> cd_auth c > auth then build_help env table full auth cx
          else if length (cd_text c) = 0 then cx
          else let cx = cmd_put env (cd_text c) cx;
                   cx = (if full then cmd_put env h (cmd_put env (str '': '') cx) else cx)
               in build_help env table full auth (cmd_nl env cx))"

definition cmd_help :: "cmd_env \<Rightarrow> 'f cmd_cx \<Rightarrow> 'f cmd_cx" where
  "cmd_help env cx = build_help env CMD_TABLE True (ac_auth (cx_acc cx)) cx"

definition cmd_rtc :: "cmd_env \<Rightarrow> cmd \<Rightarrow> 'f cmd_cx \<Rightarrow> 'f cmd_cx" where
  "cmd_rtc env c cx = cmd_nl env (add_rtc env (cmd_put env (cd_text c @ str '': '') cx))"

definition cmd_dl :: "cmd_env \<Rightarrow> cmd \<Rightarrow> 'f cmd_cx \<Rightarrow> 'f cmd_cx" where
  "cmd_dl env c cx =
     cmd_nl env (cmd_put env (cd_text c @ str '': '' @ show_int (cm_log_level (cx_st cx)) @ [44] @ show_int (cm_log_select (cx_st cx))) cx)"

definition cmd_echo :: "cmd_env \<Rightarrow> cmd \<Rightarrow> 'f cmd_cx \<Rightarrow> 'f cmd_cx" where
  "cmd_echo env c cx = cmd_put env (cd_text c @ str '': '' @ (if cm_echo (cx_st cx) then str ''1'' else str ''0'')) cx"

text \<open>The call through the table.\<close>

definition cmd_get :: "cmd_env \<Rightarrow> cmd_get \<Rightarrow> cmd \<Rightarrow> 'f cmd_cx \<Rightarrow> ('f cmd_cx \<times> bool) option" where
  "cmd_get env f c cx = (case f of
       C_auth \<Rightarrow> Some (cmd_auth env c cx, True)
     | C_cfg \<Rightarrow> map_option (\<lambda>cx. (cx, True)) (cmd_cfg env c cx)
     | C_gps \<Rightarrow> Some (cmd_gps env c cx, True)
     | C_help \<Rightarrow> Some (cmd_help env cx, True)
     | C_io \<Rightarrow> Some (cmd_io env c cx, True)
     | C_lock \<Rightarrow> map_option (\<lambda>cx. (cx, True)) (cmd_lock env cx)
     | C_mem \<Rightarrow> map_option (\<lambda>cx. (cx, True)) (cmd_mem env cx)
     | C_net \<Rightarrow> Some (cmd_net env cx, True)
     | C_rtc \<Rightarrow> Some (cmd_rtc env c cx, True)
     | C_set \<Rightarrow> map_option (\<lambda>cx. (cx, True)) (cmd_set env c cx)
     | C_status \<Rightarrow> Some (cmd_status env cx, True)
     | C_unlock \<Rightarrow> map_option (\<lambda>cx. (cx, True)) (cmd_unlock env cx)
     | C_unset \<Rightarrow> map_option (\<lambda>cx. (cx, True)) (cmd_unset env c cx)
     | C_update \<Rightarrow> cmd_update env cx
     | C_ver \<Rightarrow> Some (cmd_ver env c cx, True)
     | C_dl \<Rightarrow> Some (cmd_dl env c cx, True)
     | C_echo \<Rightarrow> Some (cmd_echo env c cx, True))"

subsection \<open>Commands with a parameter\<close>

text \<open>
  A handler ends with its result, or (the simulated text message of \<open>DBG=20\<close>) with a text that is processed
  like a received message.
\<close>

datatype cmd_end = Done bool | Sms "u8 list"

type_synonym 'f cmd_set_result = "('f cmd_cx \<times> cmd_end) option"

definition cmd_auth_set :: "cmd_env \<Rightarrow> 'f cmd_cx \<Rightarrow> 'f cmd_set_result" where
  "cmd_auth_set env cx =
     (case cmd_fetch_string env 62 cx of
        None \<Rightarrow> Some (cx, Done False)
      | Some (cx, tmp) \<Rightarrow>
          do { (cx, n) \<leftarrow> cmd_get_password_access env tmp cx; Some (cx, Done (n \<noteq> 0)) })"

definition cmd_cfg_set :: "cmd_env \<Rightarrow> cmd \<Rightarrow> 'f cmd_cx \<Rightarrow> 'f cmd_set_result" where
  "cmd_cfg_set env c cx =
     (case cmd_fetch_num env cx of
        None \<Rightarrow> Some (cx, Done False)
      | Some (cx, cfg_id) \<Rightarrow>
          (case cmd_fetch_separator env cx of
             None \<Rightarrow> do { (cx, ret) \<leftarrow> cmd_cfg_item env c cfg_id cx; Some (cx, Done ret) }
           | Some cx \<Rightarrow>
               (case cmd_fetch_string env 62 cx of
                  None \<Rightarrow> Some (cx, Done False)
                | Some (cx, tmp) \<Rightarrow>
                    (case cfg_write (sy_cfg (cx_sys cx)) (word_of_int cfg_id) (ce_full env tmp) (ac_auth (cx_acc cx)) of
                       (cf, r) \<Rightarrow> Some (cx_set_sys cx ((cx_sys cx)\<lparr>sy_cfg := cf\<rparr>), Done r)))))"

definition cmd_echo_set :: "cmd_env \<Rightarrow> 'f cmd_cx \<Rightarrow> 'f cmd_cx \<times> bool" where
  "cmd_echo_set env cx =
     (case cmd_fetch_num env cx of
        None \<Rightarrow> (cx, False)
      | Some (cx, num) \<Rightarrow> (cx_upd (\<lambda>s. s\<lparr>cm_echo := (num \<noteq> 0)\<rparr>) cx, True))"

definition cmd_gps_set :: "cmd_env \<Rightarrow> 'f cmd_cx \<Rightarrow> 'f cmd_cx \<times> bool" where
  "cmd_gps_set env cx =
     (case cmd_fetch_num env cx of
        None \<Rightarrow> (cx, False)
      | Some (cx, num) \<Rightarrow>
          (cx_upd (\<lambda>s. s\<lparr>cm_gps := gps_temporary_start_tmout (60 * 60) (gps_set_unso (word_of_int num) (cm_gps s))\<rparr>) cx, True))"

text \<open>A reset of the device is recorded; nothing is executed behind it.\<close>

definition cmd_reboot_set :: "cmd_env \<Rightarrow> 'f cmd_cx \<Rightarrow> 'f cmd_cx \<times> bool" where
  "cmd_reboot_set env cx =
     (case cmd_fetch_num env cx of
        None \<Rightarrow> (cx, False)
      | Some (cx, num) \<Rightarrow>
          (if num = 0
           then let y = cx_sys cx; cf = sy_cfg y
                in (cx_act (Act_reboot False) (cx_set_sys cx (y\<lparr>sy_cfg := cf\<lparr>cf_store := storage_flush_cache (cf_store cf)\<rparr>\<rparr>)), False)
           else if num = 1 then (cx_act (Act_reboot True) cx, False)
           else (cx, False)))"

definition cmd_dl_set :: "cmd_env \<Rightarrow> 'f cmd_cx \<Rightarrow> 'f cmd_cx \<times> bool" where
  "cmd_dl_set env cx =
     (case cmd_fetch_num env cx of
        None \<Rightarrow> (cx, False)
      | Some (cx, num) \<Rightarrow>
          let cx = cx_upd (\<lambda>s. s\<lparr>cm_log_level := num\<rparr>) cx
          in (case cmd_fetch_separator env cx of
                None \<Rightarrow> (cx, True)
              | Some cx \<Rightarrow>
                  (case cmd_fetch_num env cx of
                     None \<Rightarrow> (cx, True)
                   | Some (cx, num) \<Rightarrow> (cx_upd (\<lambda>s. s\<lparr>cm_log_select := num\<rparr>) cx, True))))"

definition mem_show :: "cmd_env \<Rightarrow> int \<Rightarrow> int \<Rightarrow> 'f cmd_cx \<Rightarrow> 'f cmd_set_result" where
  "mem_show env index num cx =
     (if index < 0 \<or> num > 50 then Some (cx, Done False)
      else do { cx \<leftarrow> append_mem env (word_of_int index) (nat num) True (cmd_put env (str ''MEM -'' @ show_int index @ str '': '') cx);
                Some (cx, Done True) })"

definition cmd_mem_set :: "cmd_env \<Rightarrow> 'f cmd_cx \<Rightarrow> 'f cmd_set_result" where
  "cmd_mem_set env cx =
     (case cmd_fetch_num env cx of
        None \<Rightarrow> Some (cx, Done False)
      | Some (cx, index) \<Rightarrow>
          (case cmd_fetch_separator env cx of
             None \<Rightarrow> mem_show env index 3 cx
           | Some cx \<Rightarrow>
               (case cmd_fetch_num env cx of
                  None \<Rightarrow> Some (cx, Done False)
                | Some (cx, num) \<Rightarrow> if num < 1 then Some (cx, Done False) else mem_show env index num cx)))"

definition cmd_dbg :: "cmd_env \<Rightarrow> 'f cmd_cx \<Rightarrow> 'f cmd_set_result" where
  "cmd_dbg env cx =
     (if ac_auth (cx_acc cx) < ACCESS_ADMIN then Some (cx, Done False)
      else case cmd_fetch_num env cx of
        None \<Rightarrow> Some (cx, Done False)
      | Some (cx, num) \<Rightarrow>
          (if num = 1 then Some (cx, Done (ce_net_connect env))
           else if num = 2 then Some (cx_act Act_data_disconnect cx, Done True)
           else if num = 3 then Some (cx_act Act_udp_test cx, Done (ce_udp_tx env))
           else if num = 5 then Some (cx_act (Act_log_io (sy_io (cx_sys cx)) (sy_int (cx_sys cx))) cx, Done True)
           else if num = 10 then Some (cx, Done (ce_tracer_test env))
           else if num = 20 then
             (case cmd_fetch_separator env cx of
                None \<Rightarrow> Some (cx, Done False)
              | Some cx \<Rightarrow> Some (cx, Sms (cx_text cx)))
           else if num = 30 then do { y \<leftarrow> alarm_trigger (ee_sys (ce_ev env)) (cx_sys cx); Some (cx_set_sys cx y, Done True) }
           else if num = 40 then Some (cx_upd (\<lambda>s. s\<lparr>cm_shock_debug := \<not> cm_shock_debug s\<rparr>) cx, Done True)
           else if num = 50 then Some (cx_act Act_event_debug cx, Done True)
           else if num = 60 then Some (cx_act (Act_uart4 9600) cx, Done True)
           else if num = 61 then Some (cx_act (Act_uart4 115200) cx, Done True)
           else Some (cx, Done True)))"

definition cmd_modem :: "cmd_env \<Rightarrow> 'f cmd_cx \<Rightarrow> 'f cmd_cx \<times> bool" where
  "cmd_modem env cx =
     (if ac_auth (cx_acc cx) < ACCESS_ADMIN then (cx, False)
      else case cmd_fetch_num env cx of
        None \<Rightarrow> (cx, False)
      | Some (cx, num) \<Rightarrow> (cx, ce_modem_command env num))"

definition set_done :: "'f cmd_cx \<times> bool \<Rightarrow> 'f cmd_set_result" where
  "set_done p = Some (fst p, Done (snd p))"

definition cmd_put_run :: "cmd_env \<Rightarrow> cmd_put_fn \<Rightarrow> cmd \<Rightarrow> 'f cmd_cx \<Rightarrow> 'f cmd_set_result" where
  "cmd_put_run env f c cx = (case f of
       S_auth \<Rightarrow> cmd_auth_set env cx
     | S_cfg \<Rightarrow> cmd_cfg_set env c cx
     | S_gps \<Rightarrow> set_done (cmd_gps_set env cx)
     | S_mem \<Rightarrow> cmd_mem_set env cx
     | S_reboot \<Rightarrow> set_done (cmd_reboot_set env cx)
     | S_at \<Rightarrow> Some (cmd_put env (ce_at_response env (cx_text cx)) (cx_act (Act_at (cx_text cx)) cx), Done True)
     | S_ble \<Rightarrow> Some (cx_act (Act_ble (cx_text cx)) cx, Done True)
     | S_dbg \<Rightarrow> cmd_dbg env cx
     | S_modem \<Rightarrow> set_done (cmd_modem env cx)
     | S_dl \<Rightarrow> set_done (cmd_dl_set env cx)
     | S_echo \<Rightarrow> set_done (cmd_echo_set env cx))"

subsection \<open>Processing a text\<close>

definition process_cmd :: "cmd_env \<Rightarrow> cmd \<Rightarrow> 'f cmd_cx \<Rightarrow> 'f cmd_set_result" where
  "process_cmd env c cx =
     (let cx = cx\<lparr>cx_text := skip_spaces (cx_text cx)\<rparr>
      in case cx_text cx of
           ch # t \<Rightarrow>
             if ch = 61 then
               (case cd_pfunc_set c of
                  None \<Rightarrow> set_done (cmd_error env (Some CMD_ERR_MSG_INVALID_PARAM) cx)
                | Some f \<Rightarrow> cmd_put_run env f c (cx\<lparr>cx_text := skip_spaces t\<rparr>))
             else if ch \<noteq> 63 \<and> ch \<noteq> 59 then set_done (cmd_error env (Some (str ''illegal parameter'')) cx)
             else (case cd_pfunc c of
                     None \<Rightarrow> set_done (cmd_error env (Some CMD_ERR_MSG_MISSING_PARAM) cx)
                   | Some g \<Rightarrow> do { r \<leftarrow> cmd_get env g c cx; set_done r })
         | [] \<Rightarrow>
             (case cd_pfunc c of
                None \<Rightarrow> set_done (cmd_error env (Some CMD_ERR_MSG_MISSING_PARAM) cx)
              | Some g \<Rightarrow> do { r \<leftarrow> cmd_get env g c cx; set_done r }))"

text \<open>The start of \<open>cmd_sms_process\<close>: the access by the password at the beginning of the text.\<close>

definition sms_access :: "cmd_env \<Rightarrow> u8 list \<Rightarrow> 'f cmd_cx \<Rightarrow> 'f cmd_cx option" where
  "sms_access env text cx =
     do { let ptext = skip_spaces text;
          (cx, n) \<leftarrow> cmd_get_password_access env ptext cx;
          Some (cx\<lparr>cx_text := skip_spaces (drop n ptext)\<rparr>) }"

text \<open>
  \<open>cmd_process_text\<close>, with the nested \<open>cmd_sms_process\<close> of \<open>DBG=20\<close> written out: its access is its own, and the
  rest of the text and the access of the outer text stay.  \<open>None\<close> is a failed assertion or a run that does not end.
\<close>

definition cmd_separator :: "'f cmd_cx \<Rightarrow> 'f cmd_cx option" where
  "cmd_separator cx =
     (case skip_spaces (cx_text cx) of
        ch # t \<Rightarrow> if ch \<noteq> 59 then None else Some (cx\<lparr>cx_text := skip_spaces t\<rparr>)
      | [] \<Rightarrow> None)"

partial_function (option) cmd_loop :: "cmd_env \<Rightarrow> 'f cmd_cx \<Rightarrow> ('f cmd_cx \<times> bool) option" where
  "cmd_loop env cx =
     (if cx_text cx = [] then Some (cx, True)
      else case find_cmd env (cx_text cx) (ac_auth (cx_acc cx)) of
             None \<Rightarrow> Some (cmd_error env (Some CMD_ERR_MSG_UNKNOWN_COMMAND) cx)
           | Some (c, t) \<Rightarrow>
               do { (cx, e) \<leftarrow> process_cmd env c (cx\<lparr>cx_text := t\<rparr>);
                    (cx, r) \<leftarrow> (case e of
                        Done r \<Rightarrow> Some (cx, r)
                      | Sms text \<Rightarrow>
                          do { inner \<leftarrow> sms_access env text cx;
                               if ac_auth (cx_acc inner) \<le> ACCESS_NONE
                               then Some (inner\<lparr>cx_acc := cx_acc cx, cx_text := cx_text cx\<rparr>, False)
                               else do { (inner, _) \<leftarrow> cmd_loop env inner;
                                         Some ((add_rtc env inner)\<lparr>cx_acc := cx_acc cx, cx_text := cx_text cx\<rparr>, True) } });
                    if \<not> r then Some (cx, False)
                    else case cmd_separator cx of
                           None \<Rightarrow> Some (cx, True)
                         | Some cx \<Rightarrow> cmd_loop env cx })"

definition cmd_process_text :: "cmd_env \<Rightarrow> u8 list \<Rightarrow> 'f cmd_cx \<Rightarrow> ('f cmd_cx \<times> bool) option" where
  "cmd_process_text env text cx = cmd_loop env (cx\<lparr>cx_text := skip_spaces text\<rparr>)"

definition cmd_sms_process :: "cmd_env \<Rightarrow> u8 list \<Rightarrow> 'f cmd_st \<Rightarrow> u8 list \<Rightarrow> ('f cmd_st \<times> u8 list \<times> bool) option" where
  "cmd_sms_process env text st res =
     do { cx \<leftarrow> sms_access env text \<lparr>cx_st = st, cx_res = res, cx_acc = \<lparr>ac_auth = ACCESS_NONE, ac_source = 0\<rparr>, cx_text = text\<rparr>;
          if ac_auth (cx_acc cx) \<le> ACCESS_NONE then Some (cx_st cx, cx_res cx, False)
          else do { (cx, _) \<leftarrow> cmd_process_text env (cx_text cx) cx;
                    let cx = add_rtc env cx;
                    Some (cx_st cx, cx_res cx, True) } }"

subsection \<open>Received messages, \<open>sms_processing.c\<close>\<close>

text \<open>
  \<open>sms_parse\<close>: the answer goes to the number of the sender, when it is one; \<open>MAX_PHONENUM_LEN\<close> bytes of it are copied.  The
  allocation of the result buffer is in the environment.  The length of a message is not looked at beyond its being 0.
\<close>

definition sms_parse :: "cmd_env \<Rightarrow> u8 list \<Rightarrow> u8 list \<Rightarrow> 'f cmd_st \<Rightarrow> 'f cmd_st option" where
  "sms_parse env tel data st =
     (if data = [] then Some st
      else if \<not> ee_alloc (ce_ev env) then Some st
      else do { (st, res, r) \<leftarrow> cmd_sms_process env data st [];
                Some (if r \<and> res \<noteq> [] \<and> ee_phone_ok (ce_ev env) tel
                      then st\<lparr>cm_es := (cm_es st)\<lparr>es_sent := es_sent (cm_es st) @ [(tel, res)]\<rparr>\<rparr>
                      else st) })"

text \<open>
  \<open>sms_process\<close>: what the modem holds is \<open>rd\<close>, a status report or a number and a text; the result tells that nothing
  is waiting.  A report is only logged.
\<close>

definition sms_process :: "cmd_env \<Rightarrow> bool \<Rightarrow> (bool \<times> u8 list \<times> u8 list) option \<Rightarrow> 'f cmd_st \<Rightarrow> ('f cmd_st \<times> bool) option" where
  "sms_process env incoming rd st =
     (if incoming then
        (case rd of
           None \<Rightarrow> Some (st, False)
         | Some (sr, tel, data) \<Rightarrow>
             if sr then Some (st, False) else do { st \<leftarrow> sms_parse env tel data st; Some (st, False) })
      else Some (st, True))"

subsection \<open>Items of a command\<close>

text \<open>
  \<open>cmd_rw_item\<close> and its like, for commands whose parameter is a name out of a list of items: an item has a
  name, an optional reader (the text it prints) and an optional writer.
\<close>

record 'f cmd_item =
  it_id :: "u8 list"
  it_read :: "('f cmd_cx \<Rightarrow> u8 list) option"
  it_write :: "('f cmd_cx \<Rightarrow> 'f cmd_cx \<times> bool) option"

definition cmd_item_read :: "cmd_env \<Rightarrow> 'f cmd_item \<Rightarrow> u8 list \<Rightarrow> 'f cmd_cx \<Rightarrow> 'f cmd_cx \<times> bool" where
  "cmd_item_read env it cmd_text cx =
     (case it_read it of
        None \<Rightarrow> cmd_error env (Some CMD_ERR_MSG_INVALID_PARAM) cx
      | Some rd \<Rightarrow>
          let cx = cmd_put env (cmd_text @ str '': '' @ [34] @ it_id it @ [34, 44]) cx
          in (cmd_nl env (cmd_put env (rd cx) cx), True))"

definition cmd_item_run :: "cmd_env \<Rightarrow> 'f cmd_item \<Rightarrow> u8 list \<Rightarrow> 'f cmd_cx \<Rightarrow> 'f cmd_cx \<times> bool" where
  "cmd_item_run env it cmd_text cx =
     (let cx = cx\<lparr>cx_text := skip_spaces (cx_text cx)\<rparr>
      in if cx_text cx = [] then cmd_item_read env it cmd_text cx
         else case it_write it of
                None \<Rightarrow> (cx, False)
              | Some wr \<Rightarrow> (case cmd_fetch_separator env cx of None \<Rightarrow> (cx, False) | Some cx \<Rightarrow> wr cx))"

fun cmd_read_all_items :: "cmd_env \<Rightarrow> 'f cmd_item list \<Rightarrow> u8 list \<Rightarrow> 'f cmd_cx \<Rightarrow> 'f cmd_cx \<times> bool" where
  "cmd_read_all_items env [] cmd_text cx = (cx, True)"
| "cmd_read_all_items env (it # items) cmd_text cx =
     cmd_read_all_items env items cmd_text (if it_read it = None then cx else fst (cmd_item_read env it cmd_text cx))"

fun find_item :: "cmd_env \<Rightarrow> u8 list \<Rightarrow> 'f cmd_item list \<Rightarrow> 'f cmd_item option" where
  "find_item env key [] = None"
| "find_item env key (it # items) = (if ce_strnicmp env (it_id it) key 16 then Some it else find_item env key items)"

definition cmd_rw_item :: "cmd_env \<Rightarrow> 'f cmd_item list \<Rightarrow> u8 list \<Rightarrow> 'f cmd_cx \<Rightarrow> 'f cmd_cx \<times> bool" where
  "cmd_rw_item env items cmd_text cx =
     (let l = length (cx_res cx);
          (cx, ok) = (case cmd_fetch_string env 16 cx of
              None \<Rightarrow> (cx, False)
            | Some (cx, key) \<Rightarrow>
                (case find_item env key items of
                   None \<Rightarrow> (cx, False)
                 | Some it \<Rightarrow> cmd_item_run env it cmd_text cx))
      in if ok then (cx, True)
         else (if l = length (cx_res cx) then fst (cmd_error env (Some CMD_ERR_MSG_INVALID_PARAM) cx) else cx, False))"

end
