(* ===== verification/CmdRun.thy ===== *)
theory CmdRun
  imports Cmd EventTaskRun CfgText "HOL-Library.Sublist"
begin

text \<open>
  The commands on a sound device: what the functions of the SDK promise to them, the invariant of the state, and that
  every handler ends and keeps it.
\<close>

unbundle bit_operations_syntax

subsection \<open>The functions of the SDK\<close>

definition is_letter :: "u8 \<Rightarrow> bool" where
  "is_letter c \<longleftrightarrow> (65 \<le> c \<and> c \<le> 90) \<or> (97 \<le> c \<and> c \<le> 122)"

definition to_lower :: "u8 \<Rightarrow> u8" where
  "to_lower c = (if 65 \<le> c \<and> c \<le> 90 then c + 32 else c)"

text \<open>
  Comparison without regard to case up to a length; letters are characters of a command, the separators are none; the
  parsing functions consume something and return texts that fit in their destination (\<open>tests/test_parse.c\<close>).
\<close>

definition cmd_lib_ok :: "cmd_env \<Rightarrow> bool" where
  "cmd_lib_ok env \<longleftrightarrow>
     (\<forall>a b n. ce_strnicmp env a b n \<longleftrightarrow> map to_lower (take n a) = map to_lower (take n b))
     \<and> (\<forall>c. is_letter c \<longrightarrow> ce_is_char env c) \<and> (\<forall>c \<in> {32, 44, 59, 61, 63}. \<not> ce_is_char env c)
     \<and> (\<forall>s v t. ce_number env s = Some (v, t) \<longrightarrow> strict_suffix t s)
     \<and> (\<forall>s t. ce_separator env s = Some t \<longrightarrow> strict_suffix t s)
     \<and> (\<forall>s l v t. ce_string env s l = Some (v, t) \<longrightarrow> strict_suffix t s \<and> length v < l \<and> 0 \<notin> set v)
     \<and> (\<forall>s. ce_full env s = s)"

text \<open>What the tests say about the texts that are read.\<close>

definition cmd_parse_ok :: "cmd_env \<Rightarrow> bool" where
  "cmd_parse_ok env \<longleftrightarrow>
     (\<forall>n r. n < 2 ^ 31 \<longrightarrow> (r = [] \<or> \<not> is_digit (hd r)) \<longrightarrow> ce_number env (show_nat n @ r) = Some (int n, r))
     \<and> ce_separator env [] = None
     \<and> (\<forall>r. r \<noteq> [] \<longrightarrow> hd r = 34 \<longrightarrow> ce_separator env (44 # r) = Some r)
     \<and> (\<forall>s r l. length s < l \<longrightarrow> 34 \<notin> set s \<longrightarrow> 0 \<notin> set s \<longrightarrow> ce_string env (34 # s @ 34 # r) l = Some (s, r))"

subsection \<open>The invariant\<close>

definition es_ok :: "('f \<Rightarrow> nat \<Rightarrow> u8) \<Rightarrow> rtc ev_codec \<Rightarrow> 'f ev_st \<Rightarrow> bool" where
  "es_ok mem C es \<longleftrightarrow> codec_ok C \<and> cfg_sound mem (es_cfg es) \<and> sys_inv (es_sys es)
     \<and> (\<exists>p < 8192. es_em_ptr es = slot_ptr p)"

definition cmd_inv :: "('f \<Rightarrow> nat \<Rightarrow> u8) \<Rightarrow> cmd_env \<Rightarrow> 'f cmd_st \<Rightarrow> bool" where
  "cmd_inv mem env st \<longleftrightarrow> es_ok mem (ee_codec (ce_ev env)) (cm_es st)"

abbreviation (input) cx_ok :: "('f \<Rightarrow> nat \<Rightarrow> u8) \<Rightarrow> cmd_env \<Rightarrow> 'f cmd_cx \<Rightarrow> bool" where
  "cx_ok mem env cx \<equiv> cmd_inv mem env (cx_st cx)"

text \<open>Two states that differ in the driver of the flash alone, after reads.\<close>

definition flash_like :: "('f \<Rightarrow> nat \<Rightarrow> u8) \<Rightarrow> 'f cfg_st \<Rightarrow> 'f cfg_st \<Rightarrow> bool" where
  "flash_like mem cf cf' \<longleftrightarrow> st_same (cf_store cf) (cf_store cf') \<and> st_mem mem (cf_store cf') = st_mem mem (cf_store cf)
     \<and> cf_reinit cf' = cf_reinit cf"

definition es_like :: "('f \<Rightarrow> nat \<Rightarrow> u8) \<Rightarrow> 'f ev_st \<Rightarrow> 'f ev_st \<Rightarrow> bool" where
  "es_like mem es es' \<longleftrightarrow> (\<exists>cf. flash_like mem (es_cfg es) cf \<and> es' = es\<lparr>es_sys := (es_sys es)\<lparr>sy_cfg := cf\<rparr>\<rparr>)"

definition cmd_like :: "('f \<Rightarrow> nat \<Rightarrow> u8) \<Rightarrow> 'f cmd_st \<Rightarrow> 'f cmd_st \<Rightarrow> bool" where
  "cmd_like mem st st' \<longleftrightarrow> (\<exists>es. es_like mem (cm_es st) es \<and> st' = st\<lparr>cm_es := es\<rparr>)"

lemma flash_like_refl [simp]: "flash_like mem cf cf"
  by (simp add: flash_like_def)

lemma flash_like_trans: "flash_like mem a b \<Longrightarrow> flash_like mem b c \<Longrightarrow> flash_like mem a c"
  by (auto simp: flash_like_def intro: st_same_trans)

lemma flash_like_sound:
  assumes "flash_like mem cf cf'" "cfg_sound mem cf"
  shows "cfg_sound mem cf'" "table_get k \<noteq> None \<Longrightarrow> cfg_text mem cf' k = cfg_text mem cf k"
  using cfg_keep [OF assms(2), of cf'] assms(1) by (auto simp: flash_like_def)

lemma es_like_refl [simp]: "es_like mem es es"
  unfolding es_like_def by (rule exI [of _ "es_cfg es"]) simp

lemma es_like_trans: "es_like mem a b \<Longrightarrow> es_like mem b c \<Longrightarrow> es_like mem a c"
  unfolding es_like_def using flash_like_trans by fastforce

lemma es_like_ok: "es_like mem es es' \<Longrightarrow> es_ok mem C es \<Longrightarrow> es_ok mem C es'"
  unfolding es_like_def es_ok_def using flash_like_sound(1) by fastforce

lemma cmd_like_refl [simp]: "cmd_like mem st st"
  unfolding cmd_like_def by (rule exI [of _ "cm_es st"]) simp

lemma cmd_like_trans: "cmd_like mem a b \<Longrightarrow> cmd_like mem b c \<Longrightarrow> cmd_like mem a c"
  unfolding cmd_like_def using es_like_trans by fastforce

lemma cmd_like_inv: "cmd_like mem st st' \<Longrightarrow> cmd_inv mem env st \<Longrightarrow> cmd_inv mem env st'"
  unfolding cmd_like_def cmd_inv_def using es_like_ok by fastforce

lemma cx_upd_simps [simp]:
  "cx_st (cx_upd f cx) = f (cx_st cx)" "cx_res (cx_upd f cx) = cx_res cx" "cx_acc (cx_upd f cx) = cx_acc cx"
  "cx_text (cx_upd f cx) = cx_text cx"
  by (simp_all add: cx_upd_def)

lemma cx_set_sys_simps [simp]:
  "cx_st (cx_set_sys cx y) = (cx_st cx)\<lparr>cm_es := (cm_es (cx_st cx))\<lparr>es_sys := y\<rparr>\<rparr>" "cx_res (cx_set_sys cx y) = cx_res cx"
  "cx_acc (cx_set_sys cx y) = cx_acc cx" "cx_text (cx_set_sys cx y) = cx_text cx"
  by (simp_all add: cx_set_sys_def)

lemma cmd_put_simps [simp]:
  "cx_st (cmd_put env s cx) = cx_st cx" "cx_acc (cmd_put env s cx) = cx_acc cx" "cx_text (cmd_put env s cx) = cx_text cx"
  "cx_st (cmd_nl env cx) = cx_st cx" "cx_acc (cmd_nl env cx) = cx_acc cx" "cx_text (cmd_nl env cx) = cx_text cx"
  "cx_st (add_state env cx) = cx_st cx" "cx_acc (add_state env cx) = cx_acc cx" "cx_text (add_state env cx) = cx_text cx"
  "cx_st (add_rtc env cx) = cx_st cx" "cx_acc (add_rtc env cx) = cx_acc cx" "cx_text (add_rtc env cx) = cx_text cx"
  by (simp_all add: cmd_put_def cmd_nl_def add_state_def add_rtc_def)

lemma cmd_error_simps [simp]:
  "cx_st (fst (cmd_error env t cx)) = cx_st cx" "cx_acc (fst (cmd_error env t cx)) = cx_acc cx"
  "cx_text (fst (cmd_error env t cx)) = cx_text cx" "snd (cmd_error env t cx) = False"
  by (simp_all add: cmd_error_def Let_def split: option.splits)

subsection \<open>Reading and writing the configuration\<close>

lemma cfg_read_like:
  assumes S: "cfg_sound mem cf"
  shows "\<exists>cf' r. cfg_read cf i auth = (cf', Some r) \<and> flash_like mem cf cf'"
proof (cases "cfg_table_access_read i auth")
  case False
  then show ?thesis by (auto simp: cfg_read_def)
next
  case True
  then obtain t where t: "table_get i = Some t" by (auto simp: cfg_table_access_read_def split: option.splits)
  have "cfg_table_access_read i ACCESS_SYSTEM"
    using table_get_ok [OF t] t by (auto simp: cfg_table_access_read_def row_ok_def)
  then have e: "cfg_read cf i auth = cfg_read cf i ACCESS_SYSTEM" using True by (simp add: cfg_read_def)
  have "cf_reinit cf' = cf_reinit cf" if "cfg_read cf i a = (cf', r)" for cf' r a
    using that by (auto simp: cfg_read_def split: if_splits prod.splits option.splits)
  then show ?thesis using cfg_read_text [OF S t] e by (fastforce simp: flash_like_def)
qed

lemma cx_cfg_read_run:
  assumes "cx_ok mem env cx"
  shows "\<exists>cx' r. cx_cfg_read cx i auth = Some (cx', r) \<and> cmd_like mem (cx_st cx) (cx_st cx')
     \<and> cx_res cx' = cx_res cx \<and> cx_acc cx' = cx_acc cx \<and> cx_text cx' = cx_text cx"
proof -
  have S: "cfg_sound mem (sy_cfg (cx_sys cx))" using assms by (simp add: cmd_inv_def es_ok_def)
  obtain cf r where r: "cfg_read (sy_cfg (cx_sys cx)) i auth = (cf, Some r)" "flash_like mem (sy_cfg (cx_sys cx)) cf"
    using cfg_read_like [OF S] by blast
  have "cmd_like mem (cx_st cx) (cx_st (cx_set_sys cx ((cx_sys cx)\<lparr>sy_cfg := cf\<rparr>)))"
    using r(2) by (auto simp: cmd_like_def es_like_def)
  then show ?thesis using r(1) by (simp add: cx_cfg_read_def)
qed

lemma cx_read_text:
  assumes "cx_ok mem env cx" "table_get i \<noteq> None"
  shows "\<exists>cx'. cx_cfg_read cx i ACCESS_SYSTEM = Some (cx', True, cfg_text mem (sy_cfg (cx_sys cx)) i)
     \<and> cmd_like mem (cx_st cx) (cx_st cx') \<and> cx_res cx' = cx_res cx \<and> cx_acc cx' = cx_acc cx \<and> cx_text cx' = cx_text cx"
proof -
  have S: "cfg_sound mem (sy_cfg (cx_sys cx))" using assms(1) by (simp add: cmd_inv_def es_ok_def)
  obtain t where t: "table_get i = Some t" using assms(2) by auto
  obtain cf where "cfg_read (sy_cfg (cx_sys cx)) i ACCESS_SYSTEM = (cf, Some (True, cfg_text mem (sy_cfg (cx_sys cx)) i))"
    using cfg_read_text [OF S t] by blast
  then show ?thesis using cx_cfg_read_run [OF assms(1), of i ACCESS_SYSTEM] by (auto simp: cx_cfg_read_def)
qed

lemma cfg_write_sound:
  assumes "cfg_sound mem cf" "length src < 62" "0 \<notin> set src" "cfg_write cf i src auth = (cf', r)"
  shows "cfg_sound mem cf'"
proof (cases "cfg_table_access_write i auth")
  case True
  then show ?thesis using cfg_write_text [OF assms(1) True assms(2,3)] assms(4) by auto
next
  case False
  then show ?thesis using assms by (simp add: cfg_write_def split: if_splits)
qed

subsection \<open>Passwords\<close>

lemma table_has_passwords: "list_all (\<lambda>p. table_get (fst p) \<noteq> None) PASSWD_TABLE"
proof -
  have "\<forall>i \<in> set (map fst PASSWD_TABLE). table_get i \<noteq> None"
    unfolding table_get_iff by (simp add: PASSWD_TABLE_def CFG_TABLE_def)
  then show ?thesis by (auto simp: list_all_iff)
qed

text \<open>The row of a password that a text begins with, as \<open>cmd_get_password_access\<close> looks for it.\<close>

definition password_row :: "cmd_env \<Rightarrow> (u16 \<Rightarrow> u8 list) \<Rightarrow> u8 list \<Rightarrow> (u16 \<times> u8 \<times> u8) option" where
  "password_row env T text =
     List.find (\<lambda>(i, _, _). 4 \<le> length (T i) \<and> ce_strnicmp env text (T i) (length (T i))) PASSWD_TABLE"

lemma password_loop_run:
  assumes "cx_ok mem env cx" "list_all (\<lambda>p. table_get (fst p) \<noteq> None) pt"
    and "\<And>i. table_get i \<noteq> None \<Longrightarrow> cfg_text mem (sy_cfg (cx_sys cx)) i = T i"
  shows "\<exists>cx'. cmd_like mem (cx_st cx) (cx_st cx') \<and> cx_res cx' = cx_res cx \<and> cx_text cx' = cx_text cx
     \<and> (case List.find (\<lambda>(i, _, _). 4 \<le> length (T i) \<and> ce_strnicmp env text (T i) (length (T i))) pt of
          None \<Rightarrow> password_loop env text pt cx = Some (cx', 0) \<and> cx_acc cx' = cx_acc cx
        | Some (i, a, s) \<Rightarrow> password_loop env text pt cx = Some (cx', length (T i)) \<and> cx_acc cx' = \<lparr>ac_auth = a, ac_source = s\<rparr>)"
  using assms
proof (induction pt arbitrary: cx)
  case Nil
  then show ?case by (intro exI [of _ cx]) simp
next
  case (Cons p pt)
  obtain i a s where p: "p = (i, a, s)" by (cases p)
  have i: "table_get i \<noteq> None" using Cons.prems(2) p by simp
  obtain cx1 where c: "cx_cfg_read cx i ACCESS_SYSTEM = Some (cx1, True, T i)"
    "cmd_like mem (cx_st cx) (cx_st cx1)" "cx_res cx1 = cx_res cx" "cx_acc cx1 = cx_acc cx" "cx_text cx1 = cx_text cx"
    using cx_read_text [OF Cons.prems(1) i] Cons.prems(3) [OF i] by auto
  have ok: "cx_ok mem env cx1" by (rule cmd_like_inv [OF c(2) Cons.prems(1)])
  show ?case
  proof (cases "4 \<le> length (T i) \<and> ce_strnicmp env text (T i) (length (T i))")
    case True
    then show ?thesis using c
      by (intro exI [of _ "cx1\<lparr>cx_acc := \<lparr>ac_auth = a, ac_source = s\<rparr>\<rparr>"]) (simp add: p not_less)
  next
    case False
    have t: "cfg_text mem (sy_cfg (cx_sys cx1)) k = T k" if "table_get k \<noteq> None" for k
      using c(2) flash_like_sound(2) [OF _ _ that] Cons.prems(1,3) that
      by (fastforce simp: cmd_like_def es_like_def cmd_inv_def es_ok_def)
    have l: "password_loop env text ((i, a, s) # pt) cx = password_loop env text pt cx1"
      using False c(1) by (auto simp: not_less)
    have "list_all (\<lambda>p. table_get (fst p) \<noteq> None) pt" using Cons.prems(2) by simp
    from Cons.IH [OF ok this t] obtain cx' where "cmd_like mem (cx_st cx1) (cx_st cx')" "cx_res cx' = cx_res cx1"
      "cx_text cx' = cx_text cx1" "case List.find (\<lambda>(i, _, _). 4 \<le> length (T i) \<and> ce_strnicmp env text (T i) (length (T i))) pt of
          None \<Rightarrow> password_loop env text pt cx1 = Some (cx', 0) \<and> cx_acc cx' = cx_acc cx1
        | Some (i, a, s) \<Rightarrow> password_loop env text pt cx1 = Some (cx', length (T i)) \<and> cx_acc cx' = \<lparr>ac_auth = a, ac_source = s\<rparr>" by blast
    moreover from this have "cmd_like mem (cx_st cx) (cx_st cx')" using cmd_like_trans [OF c(2)] by blast
    ultimately show ?thesis using False c(3-5) unfolding p l by (intro exI [of _ cx']) (auto split: option.splits)
  qed
qed

abbreviation (input) cx_text_of :: "('f \<Rightarrow> nat \<Rightarrow> u8) \<Rightarrow> 'f cmd_cx \<Rightarrow> u16 \<Rightarrow> u8 list" where
  "cx_text_of mem cx \<equiv> cfg_text mem (sy_cfg (cx_sys cx))"

lemma password_access:
  assumes "cx_ok mem env cx"
  shows "\<exists>cx'. cmd_like mem (cx_st cx) (cx_st cx') \<and> cx_res cx' = cx_res cx \<and> cx_text cx' = cx_text cx
     \<and> (case password_row env (cx_text_of mem cx) text of
          None \<Rightarrow> cmd_get_password_access env text cx = Some (cx', 0)
                  \<and> cx_acc cx' = \<lparr>ac_auth = ACCESS_NONE, ac_source = EVENT_SOURCE_UNKNOWN\<rparr>
        | Some (i, a, s) \<Rightarrow> cmd_get_password_access env text cx = Some (cx', length (cx_text_of mem cx i))
                  \<and> cx_acc cx' = \<lparr>ac_auth = a, ac_source = s\<rparr>)"
proof -
  define cx0 where "cx0 = cx\<lparr>cx_acc := \<lparr>ac_auth = ACCESS_NONE, ac_source = EVENT_SOURCE_UNKNOWN\<rparr>\<rparr>"
  have "cx_ok mem env cx0" using assms by (simp add: cx0_def)
  note run = password_loop_run [OF this table_has_passwords, of "cx_text_of mem cx" "text"]
  have e: "cmd_get_password_access env text cx = password_loop env text PASSWD_TABLE cx0" "cx_st cx0 = cx_st cx"
    "cx_res cx0 = cx_res cx" "cx_text cx0 = cx_text cx" "cx_acc cx0 = \<lparr>ac_auth = ACCESS_NONE, ac_source = EVENT_SOURCE_UNKNOWN\<rparr>"
    by (simp_all add: cmd_get_password_access_def cx0_def)
  show ?thesis using run unfolding e password_row_def by blast
qed

subsection \<open>The alarm system\<close>

lemma save_state_sound:
  assumes "cfg_sound mem (sy_cfg y)"
  shows "cfg_sound mem (sy_cfg (save_state y))"
proof -
  define src where "src = str ''S'' @ show_int (sint (sd_state (sc_data (sy_sect y))))"
  define n where "n = nat \<bar>sint (sd_state (sc_data (sy_sect y)))\<bar>"
  have "\<bar>sint (sd_state (sc_data (sy_sect y)))\<bar> \<le> 2147483648"
    using sint_greater_eq [of "sd_state (sc_data (sy_sect y))"] sint_less [of "sd_state (sc_data (sy_sect y))"] by auto
  then have "n < 10 ^ 10" by (simp add: n_def)
  then have "length (show_nat n) \<le> 10" using length_show_nat [of n 9] by simp
  moreover have "0 \<notin> set (show_nat n)" using show_nat_digits [of 0 n] by (auto simp: is_digit_def word_le_nat_alt)
  moreover have "src = str ''S'' @ (if sint (sd_state (sc_data (sy_sect y))) < 0 then [45] else []) @ show_nat n"
    by (simp add: src_def show_int_def n_def)
  ultimately have src: "length src < 62" "0 \<notin> set src" by (auto simp: str_def)
  obtain cf r where w: "cfg_write (sy_cfg y) CFG_ID_STATE src ACCESS_SYSTEM = (cf, r)" by fastforce
  then show ?thesis using cfg_write_sound [OF assms src w] by (simp add: save_state_def src_def)
qed

lemma out_cfg:
  "system_io_activate env y b = Some y' \<Longrightarrow> sy_cfg y' = sy_cfg y"
  "system_io_deactivate env y b = Some y' \<Longrightarrow> sy_cfg y' = sy_cfg y"
  by (auto simp: system_io_activate_def system_io_deactivate_def Let_def split: bind_splits)

lemma alarm_cfg:
  "alarm_stop env y = Some y' \<Longrightarrow> sy_cfg y' = sy_cfg y" "alarm_trigger env y = Some y' \<Longrightarrow> sy_cfg y' = sy_cfg y"
  by (auto simp: alarm_stop_def alarm_trigger_def siren_off_def siren_on_def Let_def dest!: out_cfg split: bind_splits if_splits)

lemma system_set_unset_sound:
  assumes "cfg_sound mem (sy_cfg y)"
  shows "system_set env y src = Some y' \<Longrightarrow> cfg_sound mem (sy_cfg y')"
    and "system_unset env y src = Some y' \<Longrightarrow> cfg_sound mem (sy_cfg y')"
proof -
  have k: "cfg_sound mem (sy_cfg (save_state z))" if "sy_cfg z = sy_cfg y" for z
    using save_state_sound [of mem z] that assms by simp
  show "system_set env y src = Some y' \<Longrightarrow> cfg_sound mem (sy_cfg y')"
    using assms by (auto simp: system_set_def do_act_def Let_def intro!: k split: bind_splits if_splits)
  show "system_unset env y src = Some y' \<Longrightarrow> cfg_sound mem (sy_cfg y')"
    using assms by (auto simp: system_unset_def do_act_def Let_def dest!: alarm_cfg(1) intro!: k split: bind_splits if_splits)
qed

lemma io_inv:
  assumes "sys_inv y"
  shows "\<exists>y'. system_io_activate env y b = Some y' \<and> sys_inv y'" "\<exists>y'. system_io_deactivate env y b = Some y' \<and> sys_inv y'"
proof -
  have wf: "sys_wf y" using assms by (simp add: sys_inv_def)
  have k: "sys_inv y'" if "io_only y y'" for y'
    using io_only_wf [OF that wf] io_only_same [OF that] assms by (simp add: sys_inv_def siren_ok_def)
  show "\<exists>y'. system_io_activate env y b = Some y' \<and> sys_inv y'" using io_activate_run [OF wf, of env b] k by blast
  show "\<exists>y'. system_io_deactivate env y b = Some y' \<and> sys_inv y'" using io_deactivate_run [OF wf, of env b] k by blast
qed

text \<open>A change of the alarm system that keeps its invariant and the soundness of the configuration.\<close>

lemma cmd_inv_sys:
  assumes "cx_ok mem env cx" "sys_inv y" "cfg_sound mem (sy_cfg y)"
  shows "cx_ok mem env (cx_set_sys cx y)"
  using assms by (simp add: cmd_inv_def es_ok_def)

lemma cx_io_run:
  assumes "cx_ok mem env cx"
  shows "\<exists>cx'. cx_io env on b cx = Some cx' \<and> cx_ok mem env cx' \<and> cx_acc cx' = cx_acc cx \<and> cx_text cx' = cx_text cx"
proof -
  have i: "sys_inv (cx_sys cx)" "cfg_sound mem (sy_cfg (cx_sys cx))" using assms by (simp_all add: cmd_inv_def es_ok_def)
  obtain y where y: "(if on then system_io_activate else system_io_deactivate) (ee_sys (ce_ev env)) (cx_sys cx) b = Some y" "sys_inv y"
    using io_inv [OF i(1), of "ee_sys (ce_ev env)" b] by (cases on) auto
  then have "cfg_sound mem (sy_cfg y)" using i(2) out_cfg [of "ee_sys (ce_ev env)" "cx_sys cx" b y] by (auto split: if_splits)
  then show ?thesis using y cmd_inv_sys [OF assms y(2)] by (simp add: cx_io_def)
qed

lemma cx_set_unset_run:
  assumes "cx_ok mem env cx"
  shows "\<exists>cx'. cx_set env cx = Some cx' \<and> cx_ok mem env cx' \<and> cx_acc cx' = cx_acc cx \<and> cx_text cx' = cx_text cx"
    "\<exists>cx'. cx_unset env cx = Some cx' \<and> cx_ok mem env cx' \<and> cx_acc cx' = cx_acc cx \<and> cx_text cx' = cx_text cx"
proof -
  have i: "sys_inv (cx_sys cx)" "cfg_sound mem (sy_cfg (cx_sys cx))" using assms by (simp_all add: cmd_inv_def es_ok_def)
  show "\<exists>cx'. cx_set env cx = Some cx' \<and> cx_ok mem env cx' \<and> cx_acc cx' = cx_acc cx \<and> cx_text cx' = cx_text cx"
    using set_unset_run(1) [OF i(1), of "ee_sys (ce_ev env)" "ac_source (cx_acc cx)"] system_set_unset_sound(1) [OF i(2)]
      cmd_inv_sys [OF assms] by (auto simp: cx_set_def)
  show "\<exists>cx'. cx_unset env cx = Some cx' \<and> cx_ok mem env cx' \<and> cx_acc cx' = cx_acc cx \<and> cx_text cx' = cx_text cx"
    using set_unset_run(2) [OF i(1), of "ee_sys (ce_ev env)" "ac_source (cx_acc cx)"] system_set_unset_sound(2) [OF i(2)]
      cmd_inv_sys [OF assms] by (auto simp: cx_unset_def)
qed

subsection \<open>Every handler ends and keeps the invariant\<close>

text \<open>What a handler without parameter leaves: the invariant, the access and the rest of the text.\<close>

definition cx_after :: "('f \<Rightarrow> nat \<Rightarrow> u8) \<Rightarrow> cmd_env \<Rightarrow> 'f cmd_cx \<Rightarrow> 'f cmd_cx \<Rightarrow> bool" where
  "cx_after mem env cx cx' \<longleftrightarrow> cx_ok mem env cx' \<and> cx_acc cx' = cx_acc cx \<and> cx_text cx' = cx_text cx"

lemma cx_after_refl [simp]: "cx_ok mem env cx \<Longrightarrow> cx_after mem env cx cx"
  by (simp add: cx_after_def)

lemma cx_after_trans: "cx_after mem env a b \<Longrightarrow> cx_after mem env b c \<Longrightarrow> cx_after mem env a c"
  by (simp add: cx_after_def)

lemma cx_after_put [simp]:
  "cx_after mem env cx (cmd_put env s cx') = cx_after mem env cx cx'" "cx_after mem env cx (cmd_nl env cx') = cx_after mem env cx cx'"
  "cx_after mem env cx (add_state env cx') = cx_after mem env cx cx'" "cx_after mem env cx (add_rtc env cx') = cx_after mem env cx cx'"
  "cx_after mem env (cmd_put env s cx) cx' = cx_after mem env cx cx'"
  by (simp_all add: cx_after_def)

lemma build_help_after: "cx_after mem env cx cx' \<Longrightarrow> cx_after mem env cx (build_help env tb full auth cx')"
  by (induction tb arbitrary: cx') (auto simp: Let_def split: option.splits)

lemma put_names_after: "cx_after mem env cx cx' \<Longrightarrow> cx_after mem env cx (put_names env ns b cx')"
  by (induction ns arbitrary: b cx') auto

lemma show_after:
  assumes "cx_ok mem env cx"
  shows "cx_after mem env cx (cmd_auth env c cx)" "cx_after mem env cx (cmd_gps env c cx)" "cx_after mem env cx (cmd_help env cx)"
    "cx_after mem env cx (cmd_io env c cx)" "cx_after mem env cx (cmd_net env cx)" "cx_after mem env cx (cmd_rtc env c cx)"
    "cx_after mem env cx (cmd_status env cx)" "cx_after mem env cx (cmd_ver env c cx)" "cx_after mem env cx (cmd_dl env c cx)"
    "cx_after mem env cx (cmd_echo env c cx)"
  using assms
  by (simp_all add: cmd_auth_def cmd_gps_def cmd_help_def cmd_io_def cmd_net_def cmd_rtc_def cmd_status_def cmd_ver_def
      cmd_dl_def cmd_echo_def Let_def build_help_after put_names_after split_def)

lemma like_after:
  "cmd_like mem (cx_st cx) (cx_st cx') \<Longrightarrow> cx_ok mem env cx \<Longrightarrow> cx_acc cx' = cx_acc cx \<Longrightarrow> cx_text cx' = cx_text cx \<Longrightarrow>
   cx_after mem env cx cx'"
  by (simp add: cx_after_def cmd_like_inv)

lemma cfg_item_after:
  assumes "cx_ok mem env cx"
  shows "\<exists>cx' r. cmd_cfg_item env c i cx = Some (cx', r) \<and> cx_after mem env cx cx'"
proof -
  define p where "p = cmd_put env (cd_text c @ [58] @ show_int i @ [44, 34]) cx"
  have p: "cx_ok mem env p" "cx_acc p = cx_acc cx" "cx_text p = cx_text cx" using assms by (simp_all add: p_def)
  obtain cx1 r t where c: "cx_cfg_read p (word_of_int i) (ac_auth (cx_acc cx)) = Some (cx1, r, t)"
    "cmd_like mem (cx_st p) (cx_st cx1)" "cx_acc cx1 = cx_acc p" "cx_text cx1 = cx_text p"
    using cx_cfg_read_run [OF p(1), of "word_of_int i" "ac_auth (cx_acc cx)"] by auto
  have "cx_after mem env cx cx1" using like_after [OF c(2) p(1) c(3,4)] by (simp add: p_def)
  moreover have "cmd_cfg_item env c i cx = Some (cmd_nl env (cmd_put env [34] (cmd_put env t cx1)), r)"
    unfolding cmd_cfg_item_def Let_def p_def [symmetric] using c(1) p(2) by simp
  ultimately show ?thesis by simp
qed

lemma cfg_loop_after:
  assumes "cx_ok mem env cx"
  shows "\<exists>cx'. cmd_cfg_loop env c n i cx = Some cx' \<and> cx_after mem env cx cx'"
  using assms
proof (induction n arbitrary: i cx)
  case (Suc n)
  obtain cx1 r where "cmd_cfg_item env c (uint (cfg_table_get_id (of_nat i))) cx = Some (cx1, r)" "cx_after mem env cx cx1"
    using cfg_item_after [OF Suc.prems] by blast
  then show ?case using Suc.IH [OF Suc.prems, of "Suc i"] Suc.IH [of cx1 "Suc i"] Suc.prems
    by (auto simp: Let_def cx_after_def)
qed simp

lemma lock_after:
  assumes "cx_ok mem env cx"
  shows "\<exists>cx'. cmd_lock env cx = Some cx' \<and> cx_after mem env cx cx'" "\<exists>cx'. cmd_unlock env cx = Some cx' \<and> cx_after mem env cx cx'"
proof -
  have b: "cx_ok mem env (cx_bypass s cx') = cx_ok mem env cx'" "cx_acc (cx_bypass s cx') = cx_acc cx'" "cx_text (cx_bypass s cx') = cx_text cx'"
    for s and cx' :: "'a cmd_cx" by (simp_all add: cx_bypass_def cmd_inv_def)
  obtain cx1 where 1: "cx_io env True SYSTEM_IO_LOCK (cx_bypass True cx) = Some cx1" "cx_ok mem env cx1"
    "cx_acc cx1 = cx_acc cx" "cx_text cx1 = cx_text cx"
    using cx_io_run [of mem env "cx_bypass True cx" True SYSTEM_IO_LOCK] assms b by auto
  obtain cx2 where 2: "cx_io env False SYSTEM_IO_LOCK cx1 = Some cx2" "cx_ok mem env cx2"
    "cx_acc cx2 = cx_acc cx1" "cx_text cx2 = cx_text cx1" using cx_io_run [OF 1(2), of False SYSTEM_IO_LOCK] by auto
  show "\<exists>cx'. cmd_lock env cx = Some cx' \<and> cx_after mem env cx cx'" using 1 2 b by (simp add: cmd_lock_def cx_after_def)
  obtain cx3 where 3: "(if system_state (cx_sys cx) \<noteq> SECTION_ST_UNSET then cx_unset env cx else Some cx) = Some cx3" "cx_ok mem env cx3"
    "cx_acc cx3 = cx_acc cx" "cx_text cx3 = cx_text cx" using cx_set_unset_run(2) [OF assms] assms
    by (cases "system_state (cx_sys cx) \<noteq> SECTION_ST_UNSET") (simp_all, blast)
  obtain cx4 where 4: "cx_io env True SYSTEM_IO_UNLOCK cx3 = Some cx4" "cx_ok mem env cx4"
    "cx_acc cx4 = cx_acc cx3" "cx_text cx4 = cx_text cx3" using cx_io_run [OF 3(2), of True SYSTEM_IO_UNLOCK] by auto
  obtain cx5 where 5: "cx_io env False SYSTEM_IO_UNLOCK cx4 = Some cx5" "cx_ok mem env cx5"
    "cx_acc cx5 = cx_acc cx4" "cx_text cx5 = cx_text cx4" using cx_io_run [OF 4(2), of False SYSTEM_IO_UNLOCK] by auto
  show "\<exists>cx'. cmd_unlock env cx = Some cx' \<and> cx_after mem env cx cx'" unfolding cmd_unlock_def 3(1)
    using 3 4 5 by (simp add: cx_after_def)
qed

lemma set_after:
  assumes "cx_ok mem env cx"
  shows "\<exists>cx'. cmd_set env c cx = Some cx' \<and> cx_after mem env cx cx'" "\<exists>cx'. cmd_unset env c cx = Some cx' \<and> cx_after mem env cx cx'"
  using cx_set_unset_run [OF assms] assms by (auto simp: cmd_set_def cmd_unset_def cx_after_def)

lemma update_start_like:
  assumes "cfg_sound mem (up_cf u)"
  shows "\<exists>u' r. update_start env u = Some (u', r) \<and> flash_like mem (up_cf u) (up_cf u')"
proof -
  obtain cf1 r1 t1 where 1: "cfg_read (up_cf u) 24 ACCESS_SYSTEM = (cf1, Some (r1, t1))" "flash_like mem (up_cf u) cf1"
    using cfg_read_like [OF assms] by (metis surj_pair)
  obtain cf2 r2 t2 where 2: "cfg_read cf1 25 ACCESS_SYSTEM = (cf2, Some (r2, t2))" "flash_like mem cf1 cf2"
    using cfg_read_like [OF flash_like_sound(1) [OF 1(2) assms]] by (metis surj_pair)
  show ?thesis using 1 2 flash_like_trans [OF 1(2) 2(2)]
    by (cases r1; cases r2) (auto simp: update_start_def Let_def split: prod.splits)
qed

lemma update_after:
  assumes "cx_ok mem env cx"
  shows "\<exists>cx' r. cmd_update env cx = Some (cx', r) \<and> cx_after mem env cx cx'"
proof -
  define u where "u = (cm_up (cx_st cx))\<lparr>up_cf := sy_cfg (cx_sys cx)\<rparr>"
  have S: "cfg_sound mem (up_cf u)" "sys_inv (cx_sys cx)" using assms by (simp_all add: u_def cmd_inv_def es_ok_def)
  obtain u' r where s: "update_start (ce_update env) u = Some (u', r)" "flash_like mem (up_cf u) (up_cf u')"
    using update_start_like [OF S(1)] by blast
  have "cx_ok mem env (cx_set_sys cx ((cx_sys cx)\<lparr>sy_cfg := up_cf u'\<rparr>))"
    by (rule cmd_inv_sys [OF assms]) (use S(2) flash_like_sound(1) [OF s(2) S(1)] in simp_all)
  then have "cx_after mem env cx (cx_upd (\<lambda>s. s\<lparr>cm_up := u'\<rparr>) (cx_set_sys cx ((cx_sys cx)\<lparr>sy_cfg := up_cf u'\<rparr>)))"
    by (simp add: cx_after_def cmd_inv_def)
  then show ?thesis using s(1) by (simp add: cmd_update_def u_def [symmetric])
qed

subsection \<open>The event memory\<close>

lemma es_read_like:
  assumes "cfg_sound mem (es_cfg st)"
  shows "\<exists>st' r t. es_cfg_read st i = Some (st', r, t) \<and> es_like mem st st'"
proof -
  obtain cf r where "cfg_read (es_cfg st) i ACCESS_SYSTEM = (cf, Some r)" "flash_like mem (es_cfg st) cf"
    using cfg_read_like [OF assms] by blast
  then show ?thesis by (cases r) (auto simp: es_cfg_read_def es_like_def)
qed

lemma es_like_sound: "es_like mem st st' \<Longrightarrow> cfg_sound mem (es_cfg st) \<Longrightarrow> cfg_sound mem (es_cfg st')"
  unfolding es_like_def using flash_like_sound(1) by fastforce

lemma names_like:
  assumes S: "cfg_sound mem (es_cfg st)"
  shows "i < EVENT_ID_SIZE \<Longrightarrow> \<exists>st' t. event_name st i = Some (st', t) \<and> es_like mem st st'"
    and "i < EVENT_SOURCE_SIZE \<Longrightarrow> \<exists>st' t. source_name st i = Some (st', t) \<and> es_like mem st st'"
proof -
  assume i: "i < EVENT_ID_SIZE"
  then have n: "unat i < 16" by (simp add: word_less_nat_alt)
  obtain st' r t where "es_cfg_read st (et_text (EVENT_SETUP ! unat i)) = Some (st', r, t)" "es_like mem st st'"
    using es_read_like [OF S] by blast
  then show "\<exists>st' t. event_name st i = Some (st', t) \<and> es_like mem st st'"
    using i n event_setup_nth(1) [OF n] by (simp add: event_name_def length_event_setup)
next
  assume i: "i < EVENT_SOURCE_SIZE"
  then have n: "unat i < 16" by (simp add: word_less_nat_alt)
  obtain st' r t where "es_cfg_read st (snd (EVENT_SOURCE_SETUP ! unat i)) = Some (st', r, t)" "es_like mem st st'"
    using es_read_like [OF S] by blast
  then show "\<exists>st' t. source_name st i = Some (st', t) \<and> es_like mem st st'"
    using i n event_setup_nth(4) [OF n] by (simp add: source_name_def length_event_setup)
qed

lemma description_like:
  assumes "cfg_sound mem (es_cfg st)" "ev_id e < EVENT_ID_SIZE" "ev_source e < EVENT_SOURCE_SIZE"
  shows "\<exists>st' b. event_description env st buf e = Some (st', b) \<and> es_like mem st st'"
proof -
  obtain st1 t1 where 1: "event_name st (ev_id e) = Some (st1, t1)" "es_like mem st st1"
    using names_like(1) [OF assms(1,2)] by blast
  obtain st2 t2 where 2: "source_name st1 (ev_source e) = Some (st2, t2)" "es_like mem st1 st2"
    using names_like(2) [OF es_like_sound [OF 1(2) assms(1)] assms(3)] by blast
  show ?thesis using 1(1) 2(1) es_like_trans [OF 1(2) 2(2)] by (simp add: event_description_def buf_add_event_def Let_def)
qed

lemma em_read_like:
  assumes "codec_ok C" "flash_lawful mem (st_dev st)" "p < 8192"
  shows "\<exists>s e r. event_memory_read C \<lparr>em_st = st, em_ptr = slot_ptr p, em_cnt = n\<rparr> k = (\<lparr>em_st = s, em_ptr = slot_ptr p, em_cnt = n\<rparr>, e, r)
     \<and> st_same st s \<and> st_mem mem s = st_mem mem st \<and> (r \<longrightarrow> (\<exists>x. e = Some x \<and> event_valid (ec_rtc_valid C) x))"
proof (cases "unat k < 8191")
  case False
  have "em_read_loop C st (slot_ptr 0) (slot_ptr p) k = (st, None, False)"
    by (rule em_read_loop_far) (use assms(3) False in auto)
  then show ?thesis by (intro exI [of _ st] exI [of _ None] exI [of _ False]) (simp add: event_memory_read_def slot_ptr_def)
next
  case True
  define j where "j = slot_back p (unat k)"
  have "j < 8192" unfolding j_def by (rule slot_back_less) (use assms(3) True in auto)
  then have fit: "unat (slot_ptr j) + unat (ec_size C) \<le> 0x80000" using codec_size [OF assms(1)] by simp
  obtain s r where rd: "storage_read_event st (slot_ptr j) (ec_size C) = (s, r)" by fastforce
  note k = event_region.rd_law [OF assms(2) fit rd]
  have "em_read_loop C st (slot_ptr 0) (slot_ptr p) k = (case (s, r) of
        (st, Some bs) \<Rightarrow> (st, Some (ec_dec C bs), event_valid (ec_rtc_valid C) (ec_dec C bs))
      | (st, None) \<Rightarrow> (st, None, False))"
    unfolding rd [symmetric] j_def by (rule em_read_loop_slot) (use assms(3) True in auto)
  moreover have "slot_ptr 0 = 0" by (simp add: slot_ptr_def)
  ultimately show ?thesis using k by (cases r) (auto simp: event_memory_read_def)
qed

lemma mem_entry_after:
  assumes "cx_ok mem env cx"
  shows "\<exists>cx'. mem_entry env back cx = Some cx' \<and> cx_after mem env cx cx'"
proof -
  define es where "es = cm_es (cx_st cx)"
  have ok: "codec_ok (ee_codec (ce_ev env))" "cfg_sound mem (es_cfg es)" using assms by (simp_all add: cmd_inv_def es_ok_def es_def)
  then have lw: "flash_lawful mem (st_dev (cf_store (es_cfg es)))" by (simp add: cfg_sound_def)
  obtain p where p: "p < 8192" "es_em_ptr es = slot_ptr p" using assms by (auto simp: cmd_inv_def es_ok_def es_def)
  obtain s e r where rd: "event_memory_read (ee_codec (ce_ev env))
      \<lparr>em_st = cf_store (es_cfg es), em_ptr = es_em_ptr es, em_cnt = eq_cnt (es_q es)\<rparr> back
        = (\<lparr>em_st = s, em_ptr = es_em_ptr es, em_cnt = eq_cnt (es_q es)\<rparr>, e, r)"
    "st_same (cf_store (es_cfg es)) s" "st_mem mem s = st_mem mem (cf_store (es_cfg es))"
    "r \<longrightarrow> (\<exists>x. e = Some x \<and> event_valid (ec_rtc_valid (ee_codec (ce_ev env))) x)"
    using em_read_like [OF ok(1) lw p(1)] p(2) by metis
  define es1 where "es1 = es\<lparr>es_sys := (es_sys es)\<lparr>sy_cfg := (es_cfg es)\<lparr>cf_store := s\<rparr>\<rparr>\<rparr>"
  have l1: "es_like mem es es1"
    unfolding es_like_def by (rule exI [of _ "(es_cfg es)\<lparr>cf_store := s\<rparr>"]) (simp add: flash_like_def rd(2,3) es1_def)
  have e: "mem_entry env back cx = (case (if r then e else None) of
        None \<Rightarrow> Some (cmd_put env [45] (cx_upd (\<lambda>s. s\<lparr>cm_es := es1\<rparr>) cx))
      | Some e \<Rightarrow> do { (es, res) \<leftarrow> event_description (ce_ev env) es1 (cx_res cx) e;
                       Some ((cx_upd (\<lambda>s. s\<lparr>cm_es := es\<rparr>) (cx_upd (\<lambda>s. s\<lparr>cm_es := es1\<rparr>) cx))\<lparr>cx_res := res\<rparr>) })"
    unfolding mem_entry_def es_def [symmetric] Let_def rd(1) prod.case es1_def event_mem.select_convs cx_upd_simps by (rule refl)
  have like: "cmd_like mem (cx_st cx) ((cx_st cx)\<lparr>cm_es := es'\<rparr>)" if "es_like mem es es'" for es'
    using that by (auto simp: cmd_like_def es_def)
  show ?thesis
  proof (cases "if r then e else None")
    case None
    then show ?thesis unfolding e using like_after [of mem cx "cx_upd (\<lambda>s. s\<lparr>cm_es := es1\<rparr>) cx" env] like [OF l1] assms by simp
  next
    case (Some x)
    then have "ev_id x < EVENT_ID_SIZE" "ev_source x < EVENT_SOURCE_SIZE" using rd(4) by (auto simp: event_valid_iff split: if_splits)
    from description_like [OF es_like_sound [OF l1 ok(2)] this] obtain es2 b where
      d: "event_description (ce_ev env) es1 (cx_res cx) x = Some (es2, b)" "es_like mem es1 es2" by blast
    have "cmd_like mem (cx_st cx) ((cx_st cx)\<lparr>cm_es := es2\<rparr>)" by (rule like [OF es_like_trans [OF l1 d(2)]])
    then show ?thesis unfolding e Some using d(1) assms by (auto intro!: like_after)
  qed
qed

lemma append_mem_after:
  assumes "cx_ok mem env cx"
  shows "\<exists>cx'. append_mem env k n first cx = Some cx' \<and> cx_after mem env cx cx'"
  using assms
proof (induction n arbitrary: k first cx)
  case (Suc n)
  obtain cx1 where 1: "mem_entry env k (if first then cx else cmd_put env (str ''; '') cx) = Some cx1" "cx_after mem env cx cx1"
    using mem_entry_after [of mem env cx k] mem_entry_after [of mem env "cmd_put env (str ''; '') cx" k] Suc.prems
    by (cases first) auto
  obtain cx2 where "append_mem env (k + 1) n False cx1 = Some cx2" "cx_after mem env cx1 cx2"
    using Suc.IH [of cx1 "k + 1" False] 1(2) by (auto simp: cx_after_def)
  then show ?case using 1 cx_after_trans by fastforce
qed simp

lemma cmd_get_run:
  assumes "cx_ok mem env cx"
  shows "\<exists>cx' r. cmd_get env f c cx = Some (cx', r) \<and> cx_after mem env cx cx'"
proof -
  obtain cx1 where m: "append_mem env 0 3 True (cmd_put env (str ''MEM: '') cx) = Some cx1" "cx_after mem env cx cx1"
    using append_mem_after [of mem env "cmd_put env (str ''MEM: '') cx" 0 3 True] assms by auto
  obtain cx2 where g: "cmd_cfg_loop env c 1000 0 cx = Some cx2" "cx_after mem env cx cx2"
    using cfg_loop_after [OF assms] by blast
  obtain cx3 cx4 where l: "cmd_lock env cx = Some cx3" "cx_after mem env cx cx3" "cmd_unlock env cx = Some cx4" "cx_after mem env cx cx4"
    using lock_after [OF assms] by blast
  obtain cx5 cx6 where s: "cmd_set env c cx = Some cx5" "cx_after mem env cx cx5" "cmd_unset env c cx = Some cx6" "cx_after mem env cx cx6"
    using set_after [OF assms] by blast
  obtain cx7 r where u: "cmd_update env cx = Some (cx7, r)" "cx_after mem env cx cx7"
    using update_after [OF assms] by blast
  have "\<exists>r :: bool. r" by blast
  then show ?thesis
    using m g l s u
    by (cases f) (simp_all add: cmd_get_def cmd_cfg_def cmd_mem_def show_after [OF assms])
qed

subsection \<open>Handlers with a parameter\<close>

text \<open>A handler with a parameter leaves the invariant; the text gets no longer, that of a simulated message is shorter.\<close>

definition put_after :: "('f \<Rightarrow> nat \<Rightarrow> u8) \<Rightarrow> cmd_env \<Rightarrow> 'f cmd_cx \<Rightarrow> 'f cmd_set_result \<Rightarrow> bool" where
  "put_after mem env cx r \<longleftrightarrow> (case r of None \<Rightarrow> False
     | Some (cx', e) \<Rightarrow> cx_ok mem env cx' \<and> length (cx_text cx') \<le> length (cx_text cx)
         \<and> (case e of Done _ \<Rightarrow> True | Sms t \<Rightarrow> length t < length (cx_text cx)))"

lemma put_after_Some [simp]:
  "put_after mem env cx (Some (cx', Done r)) \<longleftrightarrow> cx_ok mem env cx' \<and> length (cx_text cx') \<le> length (cx_text cx)"
  "put_after mem env cx (set_done p) \<longleftrightarrow> cx_ok mem env (fst p) \<and> length (cx_text (fst p)) \<le> length (cx_text cx)"
  by (simp_all add: put_after_def set_done_def)

lemma put_afterD:
  assumes "put_after mem env cx r"
  shows "\<exists>cx' e. r = Some (cx', e) \<and> cx_ok mem env cx' \<and> length (cx_text cx') \<le> length (cx_text cx)
     \<and> (\<forall>t. e = Sms t \<longrightarrow> length t < length (cx_text cx))"
  using assms by (cases r) (auto simp: put_after_def)

lemma fetch_st:
  assumes "cmd_lib_ok env"
  shows "cmd_fetch_num env cx = Some (cx', n) \<Longrightarrow> cx_st cx' = cx_st cx \<and> cx_acc cx' = cx_acc cx \<and> length (cx_text cx') < length (cx_text cx)"
    and "cmd_fetch_separator env cx = Some cx' \<Longrightarrow> cx_st cx' = cx_st cx \<and> cx_acc cx' = cx_acc cx \<and> length (cx_text cx') < length (cx_text cx)"
    and "cmd_fetch_string env l cx = Some (cx', s) \<Longrightarrow> cx_st cx' = cx_st cx \<and> cx_acc cx' = cx_acc cx
      \<and> length (cx_text cx') < length (cx_text cx) \<and> length s < l \<and> 0 \<notin> set s"
  using assms
  by (auto simp: cmd_lib_ok_def cmd_fetch_num_def cmd_fetch_separator_def cmd_fetch_string_def intro!: suffix_length_less)

lemma mem_show_after:
  assumes "cx_ok mem env cx"
  shows "\<exists>cx' r. mem_show env i n cx = Some (cx', Done r) \<and> cx_after mem env cx cx'"
  using append_mem_after [of mem env "cmd_put env (str ''MEM -'' @ show_int i @ str '': '') cx" "word_of_int i" "nat n" True] assms
  by (auto simp: mem_show_def)

lemma mem_set_after:
  assumes L: "cmd_lib_ok env" and ok: "cx_ok mem env cx"
  shows "put_after mem env cx (cmd_mem_set env cx)"
proof (cases "cmd_fetch_num env cx")
  case (Some p)
  obtain cx1 i where p: "p = (cx1, i)" by (cases p)
  note 1 = fetch_st(1) [OF L Some [unfolded p]]
  then have ok1: "cx_ok mem env cx1" using ok by simp
  show ?thesis
  proof (cases "cmd_fetch_separator env cx1")
    case None
    then show ?thesis using mem_show_after [OF ok1, of i 3] Some 1 by (auto simp: cmd_mem_set_def p cx_after_def)
  next
    case (Some cx2)
    note 2 = fetch_st(2) [OF L this]
    then have ok2: "cx_ok mem env cx2" using ok1 by simp
    show ?thesis
    proof (cases "cmd_fetch_num env cx2")
      case None
      then show ?thesis using \<open>cmd_fetch_num env cx = Some p\<close> Some 1 2 ok2 by (simp add: cmd_mem_set_def p)
    next
      case (Some q)
      obtain cx3 n where q: "q = (cx3, n)" by (cases q)
      note 3 = fetch_st(1) [OF L Some [unfolded q]]
      then have "cx_ok mem env cx3" using ok2 by simp
      then show ?thesis using mem_show_after [of mem env cx3 i n] \<open>cmd_fetch_num env cx = Some p\<close>
          \<open>cmd_fetch_separator env cx1 = Some cx2\<close> Some 1 2 3 by (auto simp: cmd_mem_set_def p q cx_after_def)
    qed
  qed
qed (use ok in \<open>simp add: cmd_mem_set_def\<close>)

lemma cfg_set_after:
  assumes L: "cmd_lib_ok env" and ok: "cx_ok mem env cx"
  shows "put_after mem env cx (cmd_cfg_set env c cx)"
proof (cases "cmd_fetch_num env cx")
  case (Some p)
  obtain cx1 i where p: "p = (cx1, i)" by (cases p)
  note 1 = fetch_st(1) [OF L Some [unfolded p]]
  then have ok1: "cx_ok mem env cx1" using ok by simp
  show ?thesis
  proof (cases "cmd_fetch_separator env cx1")
    case None
    then show ?thesis using cfg_item_after [OF ok1, of c i] Some 1 by (auto simp: cmd_cfg_set_def p cx_after_def)
  next
    case (Some cx2)
    note 2 = fetch_st(2) [OF L this]
    then have ok2: "cx_ok mem env cx2" using ok1 by simp
    show ?thesis
    proof (cases "cmd_fetch_string env 62 cx2")
      case None
      then show ?thesis using \<open>cmd_fetch_num env cx = Some p\<close> Some 1 2 ok2 by (simp add: cmd_cfg_set_def p)
    next
      case (Some q)
      obtain cx3 t where q: "q = (cx3, t)" by (cases q)
      note 3 = fetch_st(3) [OF L Some [unfolded q]]
      then have ok3: "cx_ok mem env cx3" using ok2 by simp
      obtain cf r where w: "cfg_write (sy_cfg (cx_sys cx3)) (word_of_int i) (ce_full env t) (ac_auth (cx_acc cx3)) = (cf, r)" by fastforce
      have "ce_full env t = t" using L by (simp add: cmd_lib_ok_def)
      then have "cfg_sound mem cf" using cfg_write_sound [of mem "sy_cfg (cx_sys cx3)" t] w 3 ok3 by (auto simp: cmd_inv_def es_ok_def)
      moreover have "sys_inv (cx_sys cx3)" using ok3 by (simp add: cmd_inv_def es_ok_def)
      ultimately have "cx_ok mem env (cx_set_sys cx3 ((cx_sys cx3)\<lparr>sy_cfg := cf\<rparr>))" by (intro cmd_inv_sys [OF ok3]) simp_all
      then show ?thesis using w \<open>cmd_fetch_num env cx = Some p\<close>
          \<open>cmd_fetch_separator env cx1 = Some cx2\<close> Some 1 2 3 by (simp add: cmd_cfg_set_def p q)
    qed
  qed
qed (use ok in \<open>simp add: cmd_cfg_set_def\<close>)

lemma simple_set_after:
  assumes L: "cmd_lib_ok env" and ok: "cx_ok mem env cx"
  shows "put_after mem env cx (set_done (cmd_gps_set env cx))" "put_after mem env cx (set_done (cmd_dl_set env cx))"
    "put_after mem env cx (set_done (cmd_modem env cx))" "put_after mem env cx (set_done (cmd_echo_set env cx))"
proof -
  show "put_after mem env cx (set_done (cmd_gps_set env cx))" "put_after mem env cx (set_done (cmd_modem env cx))"
    "put_after mem env cx (set_done (cmd_echo_set env cx))"
    using ok by (auto dest!: fetch_st(1) [OF L] simp: cmd_gps_set_def cmd_modem_def cmd_echo_set_def cmd_inv_def less_imp_le split: option.splits)
  show "put_after mem env cx (set_done (cmd_dl_set env cx))"
  proof (cases "cmd_fetch_num env cx")
    case (Some p)
    obtain cx1 n where p: "p = (cx1, n)" by (cases p)
    define cx2 where "cx2 = cx_upd (\<lambda>s. s\<lparr>cm_log_level := n\<rparr>) cx1"
    have 2: "cx_ok mem env cx2" "length (cx_text cx2) < length (cx_text cx)"
      using fetch_st(1) [OF L Some [unfolded p]] ok by (simp_all add: cx2_def cmd_inv_def)
    have "snd (cmd_dl_set env cx) = True" "fst (cmd_dl_set env cx) = (case cmd_fetch_separator env cx2 of None \<Rightarrow> cx2
       | Some cx \<Rightarrow> (case cmd_fetch_num env cx of None \<Rightarrow> cx | Some (cx, n) \<Rightarrow> cx_upd (\<lambda>s. s\<lparr>cm_log_select := n\<rparr>) cx))"
      using Some by (auto simp: cmd_dl_set_def p cx2_def Let_def split: option.splits)
    then show ?thesis using 2
      by (auto dest!: fetch_st(1,2) [OF L] simp: cmd_inv_def split: option.splits)
  qed (use ok in \<open>simp add: cmd_dl_set_def\<close>)
qed

lemma flush_sound:
  assumes "cfg_sound mem cf"
  shows "cfg_sound mem (cf\<lparr>cf_store := storage_flush_cache (cf_store cf)\<rparr>)"
proof (rule cfg_keep(1) [OF assms])
  show "st_same (cf_store cf) (cf_store (cf\<lparr>cf_store := storage_flush_cache (cf_store cf)\<rparr>))"
    by (auto simp: st_same_def storage_flush_cache_def flash_flush_cache_def)
  have "flash_lawful mem (st_dev (cf_store cf))" using assms by (simp add: cfg_sound_def)
  then show "st_mem mem (cf_store (cf\<lparr>cf_store := storage_flush_cache (cf_store cf)\<rparr>)) i = st_mem mem (cf_store cf) i" for i
    by (simp add: st_mem_def storage_flush_cache_def flash_flush_cache_def flash_lawful_def)
qed

lemma reboot_after:
  assumes L: "cmd_lib_ok env" and ok: "cx_ok mem env cx"
  shows "put_after mem env cx (set_done (cmd_reboot_set env cx))"
proof (cases "cmd_fetch_num env cx")
  case (Some p)
  obtain cx1 n where p: "p = (cx1, n)" by (cases p)
  note 1 = fetch_st(1) [OF L Some [unfolded p]]
  have ok1: "cx_ok mem env cx1" using 1 ok by simp
  define cf where "cf = (sy_cfg (cx_sys cx1))\<lparr>cf_store := storage_flush_cache (cf_store (sy_cfg (cx_sys cx1)))\<rparr>"
  have S: "cfg_sound mem (sy_cfg (cx_sys cx1))" "sys_inv (cx_sys cx1)" using ok1 by (simp_all add: cmd_inv_def es_ok_def)
  have "cfg_sound mem cf" using flush_sound [OF S(1)] by (simp add: cf_def)
  then have "cx_ok mem env (cx_set_sys cx1 ((cx_sys cx1)\<lparr>sy_cfg := cf\<rparr>))" using S(2) by (intro cmd_inv_sys [OF ok1]) simp_all
  then show ?thesis using Some 1 ok1 by (simp add: cmd_reboot_set_def p cx_act_def cf_def Let_def cmd_inv_def)
qed (use ok in \<open>simp add: cmd_reboot_set_def\<close>)

lemma auth_set_after:
  assumes L: "cmd_lib_ok env" and ok: "cx_ok mem env cx"
  shows "put_after mem env cx (cmd_auth_set env cx)"
proof (cases "cmd_fetch_string env 62 cx")
  case (Some p)
  obtain cx1 t where p: "p = (cx1, t)" by (cases p)
  note 1 = fetch_st(3) [OF L Some [unfolded p]]
  have ok1: "cx_ok mem env cx1" using 1 ok by simp
  obtain cx2 n where "cmd_get_password_access env t cx1 = Some (cx2, n)" "cmd_like mem (cx_st cx1) (cx_st cx2)" "cx_text cx2 = cx_text cx1"
    using password_access [OF ok1, of t] by (auto split: option.splits)
  then show ?thesis using Some 1 cmd_like_inv [OF _ ok1, of "cx_st cx2"] by (simp add: cmd_auth_set_def p)
qed (use ok in \<open>simp add: cmd_auth_set_def\<close>)

lemma put_after_if: "put_after mem env cx x \<Longrightarrow> put_after mem env cx y \<Longrightarrow> put_after mem env cx (if b then x else y)"
  by simp

lemma dbg_after:
  assumes L: "cmd_lib_ok env" and ok: "cx_ok mem env cx"
  shows "put_after mem env cx (cmd_dbg env cx)"
proof (cases "ac_auth (cx_acc cx) < ACCESS_ADMIN \<or> cmd_fetch_num env cx = None")
  case True
  then show ?thesis using ok by (auto simp: cmd_dbg_def)
next
  case False
  then obtain cx1 n where f: "cmd_fetch_num env cx = Some (cx1, n)" "\<not> ac_auth (cx_acc cx) < ACCESS_ADMIN" by auto
  note 1 = fetch_st(1) [OF L f(1)]
  have ok1: "cx_ok mem env cx1" and le: "length (cx_text cx1) \<le> length (cx_text cx)" using 1 ok by simp_all
  have S: "cfg_sound mem (sy_cfg (cx_sys cx1))" "sys_inv (cx_sys cx1)" using ok1 by (simp_all add: cmd_inv_def es_ok_def)
  obtain y where y: "alarm_trigger (ee_sys (ce_ev env)) (cx_sys cx1) = Some y" "sys_inv y" using alarm_ops_run(2) [OF S(2)] by blast
  have "cfg_sound mem (sy_cfg y)" using alarm_cfg(2) [OF y(1)] S(1) by simp
  then have ok2: "cx_ok mem env (cx_set_sys cx1 y)" by (rule cmd_inv_sys [OF ok1 y(2)])
  have act: "put_after mem env cx (Some (cx_act a cx1, Done r))" for a r using ok1 le by (simp add: cx_act_def cmd_inv_def)
  have sms: "put_after mem env cx (case cmd_fetch_separator env cx1 of None \<Rightarrow> Some (cx1, Done False) | Some cx \<Rightarrow> Some (cx, Sms (cx_text cx)))"
  proof (cases "cmd_fetch_separator env cx1")
    case (Some cx2)
    from fetch_st(2) [OF L this] show ?thesis using Some 1 ok1 by (simp add: put_after_def)
  qed (use ok1 le in simp)
  have tr: "put_after mem env cx (do { y \<leftarrow> alarm_trigger (ee_sys (ce_ev env)) (cx_sys cx1); Some (cx_set_sys cx1 y, Done True) })"
    unfolding y(1) using ok2 le by simp
  have sh: "put_after mem env cx (Some (cx_upd (\<lambda>s. s\<lparr>cm_shock_debug := \<not> cm_shock_debug s\<rparr>) cx1, Done True))"
    using ok1 le by (simp add: cmd_inv_def)
  have nop: "put_after mem env cx (Some (cx1, Done r))" for r using ok1 le by simp
  show ?thesis unfolding cmd_dbg_def f(1) if_not_P [OF f(2)] option.case prod.case by (intro put_after_if act sms tr sh nop)
qed

lemma cmd_put_run_after:
  assumes L: "cmd_lib_ok env" and ok: "cx_ok mem env cx"
  shows "put_after mem env cx (cmd_put_run env f c cx)"
  using simple_set_after [OF assms] reboot_after [OF assms] auth_set_after [OF assms] dbg_after [OF assms] mem_set_after [OF assms]
    cfg_set_after [OF assms] ok
  by (cases f) (simp_all add: cmd_put_run_def cx_act_def cmd_inv_def)

subsection \<open>A text of commands\<close>

lemma suffix_skip: "suffix (skip_spaces s) s"
  unfolding skip_spaces_def by (rule suffix_dropWhile)

lemma length_skip: "length (skip_spaces s) \<le> length s"
  by (rule suffix_length_le [OF suffix_skip])

lemma process_cmd_after:
  assumes L: "cmd_lib_ok env" and ok: "cx_ok mem env cx"
  shows "put_after mem env cx (process_cmd env c cx)"
proof -
  define cx1 where "cx1 = cx\<lparr>cx_text := skip_spaces (cx_text cx)\<rparr>"
  have 1: "cx_ok mem env cx1" "length (cx_text cx1) \<le> length (cx_text cx)" using ok length_skip by (simp_all add: cx1_def)
  have err: "put_after mem env cx (set_done (cmd_error env t cx1))" for t using 1 by simp
  have get: "put_after mem env cx (do { r \<leftarrow> cmd_get env g c cx1; set_done r })" for g
  proof -
    obtain cx2 r where "cmd_get env g c cx1 = Some (cx2, r)" "cx_after mem env cx1 cx2" using cmd_get_run [OF 1(1)] by blast
    then show ?thesis using 1 by (simp add: set_done_def cx_after_def)
  qed
  have set: "put_after mem env cx (cmd_put_run env f c (cx1\<lparr>cx_text := skip_spaces t\<rparr>))" if "cx_text cx1 = ch # t" for f ch t
  proof -
    have "length (skip_spaces t) < length (cx_text cx)" using that length_skip [of t] 1(2) by simp
    then show ?thesis using cmd_put_run_after [OF L, of mem "cx1\<lparr>cx_text := skip_spaces t\<rparr>" f c] 1(1)
      by (auto simp: put_after_def split: option.splits cmd_end.splits)
  qed
  show ?thesis
  proof (cases "cx_text cx1")
    case Nil
    then show ?thesis unfolding process_cmd_def cx1_def [symmetric] Let_def using err get by (auto split: option.splits)
  next
    case (Cons ch t)
    then show ?thesis unfolding process_cmd_def cx1_def [symmetric] Let_def using err get set [OF Cons]
      by (auto split: option.splits)
  qed
qed

lemma cmd_table_names: "c \<in> set CMD_TABLE \<Longrightarrow> cd_text c \<noteq> [] \<and> length (cd_text c) \<le> 6 \<and> (\<forall>x \<in> set (cd_text c). is_letter x)"
proof -
  have "\<forall>c \<in> set CMD_TABLE. cd_text c \<noteq> [] \<and> length (cd_text c) \<le> 6 \<and> (\<forall>x \<in> set (cd_text c). is_letter x)"
    by (simp add: CMD_TABLE_def str_def is_letter_def)
  then show "c \<in> set CMD_TABLE \<Longrightarrow> cd_text c \<noteq> [] \<and> length (cd_text c) \<le> 6 \<and> (\<forall>x \<in> set (cd_text c). is_letter x)" by blast
qed

lemma find_cmd_loop_some:
  assumes "find_cmd_loop env text n auth tb found i = Some (c, t)"
    and "\<forall>c \<in> set tb. cd_text c \<noteq> []" and "\<And>d. i = Some d \<Longrightarrow> P d \<and> n > 0"
    and "\<And>d. d \<in> set tb \<Longrightarrow> cd_auth d \<le> auth \<Longrightarrow> P d"
  shows "P c \<and> (\<exists>k > 0. t = drop k text)"
  using assms
proof (induction tb arbitrary: found i)
  case Nil
  then show ?case by (auto split: if_splits)
next
  case (Cons d tb)
  define short where "short = (n < length (cd_text d) \<and> n > 0 \<and> ce_strnicmp env text (cd_text d) n)"
  show ?case
  proof (cases "cd_auth d > auth")
    case True
    then show ?thesis using Cons.IH [of found i] Cons.prems by simp
  next
    case False
    show ?thesis
    proof (cases "ce_strnicmp env text (cd_text d) (length (cd_text d)) \<and> \<not> is_char_at env text (length (cd_text d))")
      case True
      then show ?thesis using False Cons.prems(1,2,4) by (auto simp: Let_def)
    next
      case long: False
      have "find_cmd_loop env text n auth tb (if short then found + 1 else found) (if short then Some d else i) = Some (c, t)"
        using Cons.prems(1) False long unfolding short_def by (simp only: find_cmd_loop.simps Let_def if_False not_not)
      then show ?thesis
        by (rule Cons.IH) (use Cons.prems(2-4) False in \<open>auto simp: short_def split: if_splits\<close>)
    qed
  qed
qed

lemma find_cmd_some:
  assumes "find_cmd env text auth = Some (c, t)" "text \<noteq> []"
  shows "c \<in> set CMD_TABLE \<and> cd_auth c \<le> auth" "length t < length text" "suffix t text"
proof -
  have "(c \<in> set CMD_TABLE \<and> cd_auth c \<le> auth) \<and> (\<exists>k > 0. t = drop k text)"
    by (rule find_cmd_loop_some [OF assms(1) [unfolded find_cmd_def]]) (use cmd_table_names in auto)
  then show "c \<in> set CMD_TABLE \<and> cd_auth c \<le> auth" "length t < length text" "suffix t text"
    using assms(2) by (auto simp: suffix_drop)
qed

lemma sms_access_run:
  assumes "cx_ok mem env cx"
  shows "\<exists>inner. sms_access env t cx = Some inner \<and> cx_ok mem env inner \<and> length (cx_text inner) \<le> length t"
proof -
  obtain cx1 n where 1: "cmd_get_password_access env (skip_spaces t) cx = Some (cx1, n)" "cmd_like mem (cx_st cx) (cx_st cx1)"
    using password_access [OF assms, of "skip_spaces t"] by (auto split: option.splits)
  have "length (skip_spaces (drop n (skip_spaces t))) \<le> length t"
    using length_skip [of "drop n (skip_spaces t)"] length_skip [of t] by simp
  then show ?thesis using 1 cmd_like_inv [OF 1(2) assms] by (simp add: sms_access_def)
qed

lemma cmd_separator_some: "cmd_separator cx = Some cx' \<Longrightarrow> cx_st cx' = cx_st cx \<and> cx_acc cx' = cx_acc cx \<and> length (cx_text cx') < length (cx_text cx)"
proof -
  assume "cmd_separator cx = Some cx'"
  then obtain t where t: "skip_spaces (cx_text cx) = 59 # t" "cx' = cx\<lparr>cx_text := skip_spaces t\<rparr>"
    by (auto simp: cmd_separator_def split: list.splits if_splits)
  then show ?thesis using length_skip [of "cx_text cx"] length_skip [of t] by simp
qed

lemma cmd_loop_run:
  assumes L: "cmd_lib_ok env" and ok: "cx_ok mem env cx"
  shows "\<exists>cx' r. cmd_loop env cx = Some (cx', r) \<and> cx_ok mem env cx'"
  using ok
proof (induction "length (cx_text cx)" arbitrary: cx rule: less_induct)
  case less
  show ?case
  proof (cases "cx_text cx = [] \<or> find_cmd env (cx_text cx) (ac_auth (cx_acc cx)) = None")
    case True
    then show ?thesis using less.prems
      by (cases "cmd_error env (Some CMD_ERR_MSG_UNKNOWN_COMMAND) cx") (subst cmd_loop.simps, auto simp: prod_eq_iff dest: arg_cong [of _ _ fst])
  next
    case False
    then obtain c t where f: "cx_text cx \<noteq> []" "find_cmd env (cx_text cx) (ac_auth (cx_acc cx)) = Some (c, t)" by auto
    note t = find_cmd_some(2) [OF f(2,1)]
    obtain cx1 e where p: "process_cmd env c (cx\<lparr>cx_text := t\<rparr>) = Some (cx1, e)" "cx_ok mem env cx1" "length (cx_text cx1) \<le> length t"
      "\<And>t'. e = Sms t' \<Longrightarrow> length t' < length t"
      using put_afterD [OF process_cmd_after [OF L, of mem "cx\<lparr>cx_text := t\<rparr>" c]] less.prems by auto
    have "\<exists>cx2 r. (case e of
                        Done r \<Rightarrow> Some (cx1, r)
                      | Sms text \<Rightarrow>
                          do { inner \<leftarrow> sms_access env text cx1;
                               if ac_auth (cx_acc inner) \<le> ACCESS_NONE
                               then Some (inner\<lparr>cx_acc := cx_acc cx1, cx_text := cx_text cx1\<rparr>, False)
                               else do { (inner, _) \<leftarrow> cmd_loop env inner;
                                         Some ((add_rtc env inner)\<lparr>cx_acc := cx_acc cx1, cx_text := cx_text cx1\<rparr>, True) } }) = Some (cx2, r)
        \<and> cx_ok mem env cx2 \<and> length (cx_text cx2) \<le> length t"
    proof (cases e)
      case (Sms t')
      then obtain inner where i: "sms_access env t' cx1 = Some inner" "cx_ok mem env inner" "length (cx_text inner) < length t"
        using sms_access_run [OF p(2), of t'] p(4) by auto
      obtain cx3 r where "cmd_loop env inner = Some (cx3, r)" "cx_ok mem env cx3"
        using less.hyps [OF _ i(2)] i(3) t by auto
      then show ?thesis using Sms i p(3) by auto
    qed (use p in simp)
    then obtain cx2 r where 2: "(case e of
                        Done r \<Rightarrow> Some (cx1, r)
                      | Sms text \<Rightarrow>
                          do { inner \<leftarrow> sms_access env text cx1;
                               if ac_auth (cx_acc inner) \<le> ACCESS_NONE
                               then Some (inner\<lparr>cx_acc := cx_acc cx1, cx_text := cx_text cx1\<rparr>, False)
                               else do { (inner, _) \<leftarrow> cmd_loop env inner;
                                         Some ((add_rtc env inner)\<lparr>cx_acc := cx_acc cx1, cx_text := cx_text cx1\<rparr>, True) } }) = Some (cx2, r)"
      "cx_ok mem env cx2" "length (cx_text cx2) \<le> length t" by blast
    have e: "cmd_loop env cx = (if \<not> r then Some (cx2, False) else case cmd_separator cx2 of None \<Rightarrow> Some (cx2, True) | Some cx \<Rightarrow> cmd_loop env cx)"
      by (subst cmd_loop.simps) (use f p(1) 2(1) in simp)
    show ?thesis
    proof (cases "cmd_separator cx2")
      case None
      then show ?thesis using 2(2) by (auto simp: e)
    next
      case (Some cx3)
      note s = cmd_separator_some [OF this]
      have "\<exists>cx' r. cmd_loop env cx3 = Some (cx', r) \<and> cx_ok mem env cx'"
        by (rule less.hyps) (use s 2 t in auto)
      then show ?thesis using 2(2) Some by (auto simp: e)
    qed
  qed
qed

end
