(* ===== verification/CmdProps.thy ===== *)
theory CmdProps
  imports CmdRun EventTaskProps UpdateProps
begin

text \<open>
  Properties of the command interpreter: the lookup of a command against its description, every text of commands ends
  with the state of the device sound, a channel without access changes nothing, and text messages.
\<close>

unbundle bit_operations_syntax

subsection \<open>The lookup of a command\<close>

text \<open>
  A word names a command when it is its name or, if no name is meant, when it is the beginning of one name only among
  the commands that the access allows; letters are compared without regard to case.
\<close>

definition abbrev_of :: "u8 list \<Rightarrow> cmd \<Rightarrow> bool" where
  "abbrev_of w c \<longleftrightarrow> w \<noteq> [] \<and> length w < length (cd_text c) \<and> map to_lower w = map to_lower (take (length w) (cd_text c))"

definition find_spec :: "u8 list \<Rightarrow> u8 \<Rightarrow> cmd option" where
  "find_spec w auth =
     (let cs = filter (\<lambda>c. cd_auth c \<le> auth) CMD_TABLE
      in case filter (\<lambda>c. map to_lower w = map to_lower (cd_text c)) cs of
           c # _ \<Rightarrow> Some c
         | [] \<Rightarrow> (case filter (abbrev_of w) cs of [c] \<Rightarrow> Some c | _ \<Rightarrow> None))"

lemma find_cmd_loop_spec:
  assumes "\<And>c. c \<in> set tb \<Longrightarrow> ce_strnicmp env text (cd_text c) (length (cd_text c)) \<and> \<not> is_char_at env text (length (cd_text c)) \<longleftrightarrow> E c"
    "\<And>c. c \<in> set tb \<Longrightarrow> n < length (cd_text c) \<and> n > 0 \<and> ce_strnicmp env text (cd_text c) n \<longleftrightarrow> A c"
  shows "find_cmd_loop env text n auth tb found i =
     (case filter E (filter (\<lambda>c. cd_auth c \<le> auth) tb) of
        c # _ \<Rightarrow> Some (c, drop (length (cd_text c)) text)
      | [] \<Rightarrow> (let as = filter A (filter (\<lambda>c. cd_auth c \<le> auth) tb)
              in if found + length as = 1 then map_option (\<lambda>c. (c, drop n text)) (if as = [] then i else Some (last as)) else None))"
  using assms
proof (induction tb arbitrary: found i)
  case (Cons d tb)
  have E: "ce_strnicmp env text (cd_text d) (length (cd_text d)) \<and> \<not> is_char_at env text (length (cd_text d)) \<longleftrightarrow> E d"
    and A: "n < length (cd_text d) \<and> n > 0 \<and> ce_strnicmp env text (cd_text d) n \<longleftrightarrow> A d" using Cons.prems by simp_all
  define X where "X = filter (\<lambda>c. cd_auth c \<le> auth) tb"
  have IH: "find_cmd_loop env text n auth tb found i = (case filter E X of
        c # _ \<Rightarrow> Some (c, drop (length (cd_text c)) text)
      | [] \<Rightarrow> (let as = filter A X
              in if found + length as = 1 then map_option (\<lambda>c. (c, drop n text)) (if as = [] then i else Some (last as)) else None))"
    for found i unfolding X_def by (rule Cons.IH) (use Cons.prems in simp_all)
  show ?case
  proof (cases "cd_auth d > auth")
    case True
    then have f: "filter (\<lambda>c. cd_auth c \<le> auth) (d # tb) = X" by (simp add: X_def)
    have l: "find_cmd_loop env text n auth (d # tb) found i = find_cmd_loop env text n auth tb found i"
      using True by (simp add: Let_def)
    show ?thesis unfolding f l by (rule IH)
  next
    case False
    then have f: "filter (\<lambda>c. cd_auth c \<le> auth) (d # tb) = d # X" by (simp add: X_def)
    have l: "find_cmd_loop env text n auth (d # tb) found i = (if E d then Some (d, drop (length (cd_text d)) text)
       else find_cmd_loop env text n auth tb (if A d then found + 1 else found) (if A d then Some d else i))"
      unfolding find_cmd_loop.simps Let_def E A using False by simp
    show ?thesis unfolding f l IH by (cases "E d"; cases "A d"; cases "filter E X") (auto simp: Let_def)
  qed
qed simp

lemma to_lower_letter: "to_lower x = to_lower y \<Longrightarrow> is_letter y \<Longrightarrow> is_letter x"
proof -
  have "\<forall>x y :: u8. to_lower x = to_lower y \<longrightarrow> is_letter y \<longrightarrow> is_letter x"
  proof (intro allI impI)
    fix x y :: u8
    assume e: "to_lower x = to_lower y" and l: "is_letter y"
    have up: "uint (c + 32) = uint c + 32" if "65 \<le> c" "c \<le> 90" for c :: u8
      using that by (simp add: uint_word_ariths word_le_def)
    have y: "97 \<le> uint (to_lower y) \<and> uint (to_lower y) \<le> 122" using l up [of y] by (auto simp: to_lower_def is_letter_def word_le_def)
    have "uint (to_lower x) = (if 65 \<le> x \<and> x \<le> 90 then uint x + 32 else uint x)" using up by (simp add: to_lower_def)
    then show "is_letter x" using y e by (auto simp: is_letter_def word_le_def split: if_splits)
  qed
  then show "to_lower x = to_lower y \<Longrightarrow> is_letter y \<Longrightarrow> is_letter x" by blast
qed

lemma word_exact:
  assumes L: "cmd_lib_ok env" and d: "\<forall>x \<in> set d. is_letter x"
  shows "ce_strnicmp env text d (length d) \<and> \<not> is_char_at env text (length d)
     \<longleftrightarrow> map to_lower (takeWhile (ce_is_char env) text) = map to_lower d" (is "?l \<longleftrightarrow> map to_lower ?w = _")
proof
  have cmp: "ce_strnicmp env text d (length d) \<longleftrightarrow> map to_lower (take (length d) text) = map to_lower d"
    using L by (simp add: cmd_lib_ok_def)
  assume l: ?l
  then have e: "map to_lower (take (length d) text) = map to_lower d" using cmp by simp
  have "\<forall>x \<in> set (take (length d) text). ce_is_char env x"
  proof
    fix x assume "x \<in> set (take (length d) text)"
    then have "to_lower x \<in> to_lower ` set d" using arg_cong [OF e, of set] by auto
    then obtain y where "y \<in> set d" "to_lower x = to_lower y" by auto
    then have "is_letter x" using to_lower_letter d by blast
    then show "ce_is_char env x" using L by (simp add: cmd_lib_ok_def)
  qed
  moreover have "length (take (length d) text) = length d" using arg_cong [OF e, of length] by simp
  moreover have "takeWhile (ce_is_char env) (drop (length d) text) = []"
    using l by (cases "drop (length d) text") (auto simp: is_char_at_def nth_via_drop dest: arg_cong [of _ _ length])
  ultimately have "?w = take (length d) text"
    using takeWhile_append2 [of "take (length d) text" "ce_is_char env" "drop (length d) text"] by simp
  then show "map to_lower ?w = map to_lower d" using e by simp
next
  assume e: "map to_lower ?w = map to_lower d"
  then have len: "length ?w = length d" using map_eq_imp_length_eq by blast
  then have "take (length d) text = ?w" by (metis takeWhile_eq_take)
  moreover have "\<not> is_char_at env text (length d)"
    using nth_length_takeWhile [of "ce_is_char env" "text"] len by (auto simp: is_char_at_def)
  ultimately show ?l using e L by (simp add: cmd_lib_ok_def)
qed

lemma takeWhile_of_take: "takeWhile P (take n xs) = take n (takeWhile P xs)"
  by (induction xs arbitrary: n) (auto simp: take_Cons split: nat.splits)

lemma word_length:
  "cmd_text_len env text = (if length (takeWhile (ce_is_char env) text) < 64 then length (takeWhile (ce_is_char env) text) else 0)"
proof -
  have "takeWhile (ce_is_char env) (take 64 text) = take 64 (takeWhile (ce_is_char env) text)"
    by (rule takeWhile_of_take)
  then show ?thesis by (auto simp: cmd_text_len_def Let_def)
qed

lemma word_short:
  assumes L: "cmd_lib_ok env" and d: "length (cd_text c) \<le> 6"
  shows "cmd_text_len env text < length (cd_text c) \<and> cmd_text_len env text > 0 \<and> ce_strnicmp env text (cd_text c) (cmd_text_len env text)
     \<longleftrightarrow> abbrev_of (takeWhile (ce_is_char env) text) c"
proof -
  define w where "w = takeWhile (ce_is_char env) text"
  have n: "cmd_text_len env text = (if length w < 64 then length w else 0)" unfolding w_def by (rule word_length)
  have "take (length w) text = w" unfolding w_def by (metis takeWhile_eq_take)
  then have cmp: "ce_strnicmp env text (cd_text c) (length w) \<longleftrightarrow> map to_lower w = map to_lower (take (length w) (cd_text c))"
    using L by (simp add: cmd_lib_ok_def)
  show ?thesis unfolding w_def [symmetric] n using d cmp by (auto simp: abbrev_of_def)
qed

lemma find_cmd_eq:
  assumes "cmd_lib_ok env"
  shows "find_cmd env text auth =
     map_option (\<lambda>c. (c, dropWhile (ce_is_char env) text)) (find_spec (takeWhile (ce_is_char env) text) auth)"
proof -
  define w where "w = takeWhile (ce_is_char env) text"
  define cs where "cs = filter (\<lambda>c. cd_auth c \<le> auth) CMD_TABLE"
  define E where "E = (\<lambda>c :: cmd. map to_lower w = map to_lower (cd_text c))"
  have rest: "drop (length w) text = dropWhile (ce_is_char env) text" by (simp add: w_def dropWhile_eq_drop)
  have loop: "find_cmd env text auth = (case filter E cs of
        c # _ \<Rightarrow> Some (c, drop (length (cd_text c)) text)
      | [] \<Rightarrow> (let as = filter (abbrev_of w) cs
              in if 0 + length as = 1 then map_option (\<lambda>c. (c, drop (cmd_text_len env text) text)) (if as = [] then None else Some (last as)) else None))"
    unfolding find_cmd_def cs_def
    by (rule find_cmd_loop_spec) (use word_exact [OF assms] word_short [OF assms] cmd_table_names in \<open>simp_all add: E_def w_def\<close>)
  have full: "drop (length (cd_text c)) text = dropWhile (ce_is_char env) text" if "E c" for c
    using that map_eq_imp_length_eq [of to_lower w to_lower "cd_text c"] rest by (simp add: E_def)
  have abbr: "drop (cmd_text_len env text) text = dropWhile (ce_is_char env) text" if "abbrev_of w c" "c \<in> set cs" for c
    using that cmd_table_names [of c] rest word_length [of env "text"] by (auto simp: abbrev_of_def cs_def w_def)
  show ?thesis
  proof (cases "filter E cs")
    case (Cons c r)
    then have "c \<in> set (filter E cs)" by simp
    then have "E c" by simp
    then show ?thesis using loop Cons full by (simp add: find_spec_def E_def w_def cs_def)
  next
    case Nil
    then have s: "find_spec w auth = (case filter (abbrev_of w) cs of [c] \<Rightarrow> Some c | _ \<Rightarrow> None)"
      by (simp add: find_spec_def E_def cs_def)
    show ?thesis
    proof (cases "\<exists>c. filter (abbrev_of w) cs = [c]")
      case True
      then obtain c where c: "filter (abbrev_of w) cs = [c]" by blast
      then have "c \<in> set (filter (abbrev_of w) cs)" by simp
      then have "drop (cmd_text_len env text) text = dropWhile (ce_is_char env) text" by (intro abbr [of c]) simp_all
      then show ?thesis using loop Nil c s by (simp add: w_def)
    next
      case False
      then have "length (filter (abbrev_of w) cs) \<noteq> 1" by (auto simp: length_Suc_conv)
      then have "find_cmd env text auth = None" using loop Nil by (simp add: Let_def)
      moreover have "find_spec w auth = None" unfolding s using False by (auto split: list.splits)
      ultimately show ?thesis by (simp add: w_def)
    qed
  qed
qed

subsection \<open>A channel without access\<close>

text \<open>No quoted text in the line begins with a password that is long enough.\<close>

definition no_password :: "cmd_env \<Rightarrow> (u16 \<Rightarrow> u8 list) \<Rightarrow> u8 list \<Rightarrow> bool" where
  "no_password env T text \<longleftrightarrow>
     (\<forall>s v t. suffix s text \<longrightarrow> ce_string env s 62 = Some (v, t) \<longrightarrow> password_row env T v = None)"

lemma password_row_cong:
  assumes "\<And>i. table_get i \<noteq> None \<Longrightarrow> T i = T' i"
  shows "password_row env T text = password_row env T' text"
proof -
  have "list_all (\<lambda>p. T (fst p) = T' (fst p)) PASSWD_TABLE"
    using table_has_passwords assms by (auto simp: list_all_iff)
  then show ?thesis unfolding password_row_def by (intro find_cong) (auto simp: list_all_iff)
qed

lemma cmd_like_text:
  assumes "cmd_like mem st st'" "cmd_inv mem env st" "table_get i \<noteq> None"
  shows "cfg_text mem (es_cfg (cm_es st')) i = cfg_text mem (es_cfg (cm_es st)) i"
  using assms flash_like_sound(2) [OF _ _ assms(3)] by (fastforce simp: cmd_like_def es_like_def cmd_inv_def es_ok_def)

lemma none_commands:
  "c \<in> set CMD_TABLE \<Longrightarrow> cd_auth c \<le> ACCESS_NONE \<Longrightarrow>
     (cd_pfunc c, cd_pfunc_set c) \<in> {(Some C_auth, Some S_auth), (Some C_help, None), (Some C_ver, None)}"
proof -
  have "\<forall>c \<in> set CMD_TABLE. cd_auth c \<le> ACCESS_NONE \<longrightarrow>
     (cd_pfunc c, cd_pfunc_set c) \<in> {(Some C_auth, Some S_auth), (Some C_help, None), (Some C_ver, None)}"
    by (simp add: CMD_TABLE_def word_le_nat_alt)
  then show "c \<in> set CMD_TABLE \<Longrightarrow> cd_auth c \<le> ACCESS_NONE \<Longrightarrow>
     (cd_pfunc c, cd_pfunc_set c) \<in> {(Some C_auth, Some S_auth), (Some C_help, None), (Some C_ver, None)}" by blast
qed

text \<open>What a command leaves behind on such a channel.\<close>

definition inert :: "('f \<Rightarrow> nat \<Rightarrow> u8) \<Rightarrow> 'f cmd_cx \<Rightarrow> 'f cmd_set_result \<Rightarrow> bool" where
  "inert mem cx r \<longleftrightarrow> (\<exists>cx' b. r = Some (cx', Done b) \<and> cmd_like mem (cx_st cx) (cx_st cx')
     \<and> ac_auth (cx_acc cx') = ACCESS_NONE \<and> suffix (cx_text cx') (cx_text cx))"

lemma build_help_simps [simp]:
  "cx_st (build_help env tb full auth cx) = cx_st cx" "cx_acc (build_help env tb full auth cx) = cx_acc cx"
  "cx_text (build_help env tb full auth cx) = cx_text cx"
  by (induction tb arbitrary: cx) (auto simp: Let_def split: option.splits)

lemma inert_done:
  "cmd_like mem (cx_st cx) (cx_st (fst p)) \<Longrightarrow> ac_auth (cx_acc (fst p)) = ACCESS_NONE \<Longrightarrow> suffix (cx_text (fst p)) (cx_text cx) \<Longrightarrow>
   inert mem cx (set_done p)"
  by (auto simp: inert_def set_done_def)

lemma auth_set_inert:
  assumes L: "cmd_lib_ok env" and ok: "cx_ok mem env cx" and acc: "ac_auth (cx_acc cx) = ACCESS_NONE"
    and no: "no_password env (cx_text_of mem cx) (cx_text cx)"
  shows "inert mem cx (cmd_auth_set env cx)"
proof (cases "ce_string env (cx_text cx) 62")
  case None
  then show ?thesis using acc by (auto simp: cmd_auth_set_def cmd_fetch_string_def inert_def)
next
  case (Some p)
  obtain v t where p: "p = (v, t)" by (cases p)
  have row: "password_row env (cx_text_of mem cx) v = None" using no Some p by (auto simp: no_password_def)
  have "strict_suffix t (cx_text cx)" using L Some p by (auto simp: cmd_lib_ok_def)
  then have t: "suffix t (cx_text cx)" by simp
  define cx1 where "cx1 = cx\<lparr>cx_text := t\<rparr>"
  have "cx_ok mem env cx1" using ok by (simp add: cx1_def)
  from password_access [OF this, of v] row obtain cx2 where
    "cmd_get_password_access env v cx1 = Some (cx2, 0)" "cmd_like mem (cx_st cx) (cx_st cx2)" "cx_text cx2 = t"
    "ac_auth (cx_acc cx2) = ACCESS_NONE" by (auto simp: cx1_def)
  then show ?thesis using Some t by (auto simp: cmd_auth_set_def cmd_fetch_string_def p cx1_def inert_def)
qed

lemma process_cmd_inert:
  assumes L: "cmd_lib_ok env" and ok: "cx_ok mem env cx" and acc: "ac_auth (cx_acc cx) = ACCESS_NONE"
    and no: "no_password env (cx_text_of mem cx) (cx_text cx)" and c: "c \<in> set CMD_TABLE" "cd_auth c \<le> ACCESS_NONE"
  shows "inert mem cx (process_cmd env c cx)"
proof -
  define cx1 where "cx1 = cx\<lparr>cx_text := skip_spaces (cx_text cx)\<rparr>"
  have 1: "cx_st cx1 = cx_st cx" "cx_acc cx1 = cx_acc cx" "suffix (cx_text cx1) (cx_text cx)" using suffix_skip by (simp_all add: cx1_def)
  have err: "inert mem cx (set_done (cmd_error env t cx1))" for t using 1 acc by (intro inert_done) simp_all
  have get: "inert mem cx (do { r \<leftarrow> cmd_get env g c cx1; set_done r })" if "g \<in> {C_auth, C_help, C_ver}" for g
    using that 1 acc by (auto simp: cmd_get_def cmd_auth_def cmd_ver_def cmd_help_def intro!: inert_done)
  have auth: "inert mem cx (cmd_auth_set env (cx1\<lparr>cx_text := skip_spaces t\<rparr>))" if "cx_text cx1 = ch # t" for ch t
  proof -
    have "suffix (ch # t) (cx_text cx)" using 1(3) that by simp
    then have "suffix t (cx_text cx)" by (rule suffix_ConsD)
    then have s: "suffix (skip_spaces t) (cx_text cx)" using suffix_skip [of t] suffix_order.trans by blast
    then have "no_password env (cx_text_of mem cx) (skip_spaces t)" using no suffix_order.trans by (auto simp: no_password_def)
    with auth_set_inert [OF L, of mem "cx1\<lparr>cx_text := skip_spaces t\<rparr>"] have
      "inert mem (cx1\<lparr>cx_text := skip_spaces t\<rparr>) (cmd_auth_set env (cx1\<lparr>cx_text := skip_spaces t\<rparr>))"
      using ok acc 1 by simp
    then show ?thesis using s 1(1) suffix_order.trans by (auto simp: inert_def)
  qed
  from none_commands [OF c] consider "cd_pfunc c = Some C_auth" "cd_pfunc_set c = Some S_auth"
    | "cd_pfunc c = Some C_help" "cd_pfunc_set c = None" | "cd_pfunc c = Some C_ver" "cd_pfunc_set c = None" by auto
  then show ?thesis
    by cases (cases "cx_text cx1"; simp add: process_cmd_def cx1_def [symmetric] Let_def err get auth cmd_put_run_def)+
qed

lemma cmd_loop_inert:
  assumes L: "cmd_lib_ok env"
  shows "cx_ok mem env cx \<Longrightarrow> ac_auth (cx_acc cx) = ACCESS_NONE \<Longrightarrow> no_password env (cx_text_of mem cx) (cx_text cx) \<Longrightarrow>
     \<exists>cx' r. cmd_loop env cx = Some (cx', r) \<and> ac_auth (cx_acc cx') = ACCESS_NONE \<and> cmd_like mem (cx_st cx) (cx_st cx')"
proof (induction "length (cx_text cx)" arbitrary: cx rule: less_induct)
  case less
  show ?case
  proof (cases "cx_text cx = [] \<or> find_cmd env (cx_text cx) (ac_auth (cx_acc cx)) = None")
    case True
    obtain a where a: "cmd_error env (Some CMD_ERR_MSG_UNKNOWN_COMMAND) cx = (a, False)" "cx_st a = cx_st cx" "cx_acc a = cx_acc cx"
      using cmd_error_simps [of env "Some CMD_ERR_MSG_UNKNOWN_COMMAND" cx]
      by (cases "cmd_error env (Some CMD_ERR_MSG_UNKNOWN_COMMAND) cx") simp
    show ?thesis using True less.prems a by (subst cmd_loop.simps) auto
  next
    case False
    then obtain c t where f: "cx_text cx \<noteq> []" "find_cmd env (cx_text cx) (ac_auth (cx_acc cx)) = Some (c, t)" by auto
    note t = find_cmd_some [OF f(2,1)]
    have "no_password env (cx_text_of mem cx) t" using less.prems(3) suffix_order.trans [OF _ t(3)] by (auto simp: no_password_def)
    then have "inert mem (cx\<lparr>cx_text := t\<rparr>) (process_cmd env c (cx\<lparr>cx_text := t\<rparr>))"
      by (intro process_cmd_inert [OF L]) (use less.prems t in simp_all)
    then obtain cx1 b where p: "process_cmd env c (cx\<lparr>cx_text := t\<rparr>) = Some (cx1, Done b)" "cmd_like mem (cx_st cx) (cx_st cx1)"
      "ac_auth (cx_acc cx1) = ACCESS_NONE" "suffix (cx_text cx1) t" by (auto simp: inert_def)
    have e: "cmd_loop env cx = (if \<not> b then Some (cx1, False) else case cmd_separator cx1 of None \<Rightarrow> Some (cx1, True) | Some cx \<Rightarrow> cmd_loop env cx)"
      by (subst cmd_loop.simps) (use f p(1) in simp)
    show ?thesis
    proof (cases "cmd_separator cx1")
      case None
      then show ?thesis using p by (auto simp: e)
    next
      case (Some cx2)
      note s = cmd_separator_some [OF this]
      obtain r where r: "skip_spaces (cx_text cx1) = 59 # r" "cx_text cx2 = skip_spaces r"
        using Some by (auto simp: cmd_separator_def split: list.splits if_splits)
      have "suffix (59 # r) (cx_text cx1)" using suffix_skip [of "cx_text cx1"] r(1) by simp
      then have "suffix r (cx_text cx1)" by (rule suffix_ConsD)
      then have sx: "suffix (cx_text cx2) (cx_text cx)"
        using suffix_skip [of r] p(4) t(3) r(2) by (metis suffix_order.trans)
      have ok2: "cx_ok mem env cx2" using s cmd_like_inv [OF p(2) less.prems(1)] by simp
      have "no_password env (cx_text_of mem cx) (cx_text cx2)"
        using less.prems(3) suffix_order.trans [OF _ sx] by (auto simp: no_password_def)
      moreover have "password_row env (cx_text_of mem cx2) v = password_row env (cx_text_of mem cx) v" for v
        by (rule password_row_cong) (use cmd_like_text [OF p(2) less.prems(1)] s in simp)
      ultimately have no2: "no_password env (cx_text_of mem cx2) (cx_text cx2)" by (simp add: no_password_def)
      have "length (cx_text cx2) < length (cx_text cx)" using s t(2) suffix_length_le [OF p(4)] by simp
      from less.hyps [OF this ok2 _ no2] s p(3) obtain cx' r' where
        "cmd_loop env cx2 = Some (cx', r')" "ac_auth (cx_acc cx') = ACCESS_NONE" "cmd_like mem (cx_st cx2) (cx_st cx')" by auto
      then show ?thesis using e Some p s cmd_like_trans [OF p(2)] by auto
    qed
  qed
qed

subsection \<open>A concrete device\<close>

text \<open>Letters, decimal numbers, commas and quoted texts; a device that is armed, on a blank flash.\<close>

definition ex_cmd_env :: cmd_env where
  "ex_cmd_env = \<lparr>ce_ev = ex_ev_env, ce_update = ex_update_env, ce_is_char = is_letter,
     ce_strnicmp = (\<lambda>a b n. map to_lower (take n a) = map to_lower (take n b)),
     ce_number = scan_unsigned,
     ce_separator = (\<lambda>s. case s of [] \<Rightarrow> None | c # r \<Rightarrow> if c = 44 then Some r else None),
     ce_string = (\<lambda>s n. case s of [] \<Rightarrow> None | c # r \<Rightarrow>
        let v = takeWhile (\<lambda>c. c \<noteq> 34) r
        in if c = 34 \<and> length v < length r \<and> length v < n \<and> 0 \<notin> set v then Some (v, drop (Suc (length v)) r) else None),
     ce_full = id, ce_ticks = 0, ce_second = 1, ce_rtc_valid = (\<lambda>_. True), ce_hw_name = str ''unit'', ce_version = str ''1.0'',
     ce_power_text = [], ce_temp_text = [], ce_batt_ok = True, ce_speed_text = (\<lambda>_. []), ce_net_ok = True, ce_lte = True,
     ce_udp_ready = True, ce_udp_info = [], ce_net_connect = True, ce_udp_tx = True, ce_tracer_test = True,
     ce_modem_command = (\<lambda>_. True), ce_at_response = (\<lambda>_. [])\<rparr>"

lemma scan_digits_rest: "suffix (snd (scan_digits v s)) s"
  by (induction s arbitrary: v) (auto intro: suffix_ConsI)

lemma scan_unsigned_suffix: "scan_unsigned s = Some (v, t) \<Longrightarrow> strict_suffix t s"
proof -
  assume a: "scan_unsigned s = Some (v, t)"
  then obtain c r where s: "s = c # r" "is_digit c" "(v, t) = scan_digits (uint c - 48) r"
    by (auto simp: scan_unsigned_def split: list.splits if_splits)
  then have "suffix t r" using scan_digits_rest [of "uint c - 48" r] by (metis snd_conv)
  then show ?thesis by (auto simp: s(1) strict_suffix_def suffix_def)
qed

lemma ex_cmd_env_ok: "cmd_lib_ok ex_cmd_env"
proof -
  have "\<forall>s t. ce_separator ex_cmd_env s = Some t \<longrightarrow> strict_suffix t s"
    by (auto simp: ex_cmd_env_def strict_suffix_def suffix_def split: list.splits if_splits)
  moreover have "strict_suffix t s \<and> length v < l \<and> 0 \<notin> set v" if st: "ce_string ex_cmd_env s l = Some (v, t)" for s l v t
  proof -
    obtain r where r: "s = 34 # r" "t = drop (Suc (length v)) r" "length v < l" "0 \<notin> set v"
      using st by (auto simp: ex_cmd_env_def Let_def split: list.splits if_splits)
    have "suffix t s" unfolding r(1,2) by (rule suffix_ConsI [OF suffix_drop])
    moreover have "length t < length s" using r(1,2) by simp
    ultimately show ?thesis using r(3,4) by (auto simp: strict_suffix_def)
  qed
  moreover have "\<forall>s v t. ce_number ex_cmd_env s = Some (v, t) \<longrightarrow> strict_suffix t s"
    using scan_unsigned_suffix by (simp add: ex_cmd_env_def)
  moreover have "(\<forall>a b n. ce_strnicmp ex_cmd_env a b n \<longleftrightarrow> map to_lower (take n a) = map to_lower (take n b))
     \<and> (\<forall>c. is_letter c \<longrightarrow> ce_is_char ex_cmd_env c) \<and> (\<forall>c \<in> {32, 44, 59, 61, 63}. \<not> ce_is_char ex_cmd_env c)
     \<and> (\<forall>s. ce_full ex_cmd_env s = s)"
    by (simp add: ex_cmd_env_def is_letter_def word_le_nat_alt)
  ultimately show ?thesis unfolding cmd_lib_ok_def by blast
qed

definition ex_cmd_st :: "(nat \<Rightarrow> u8) cfg_st \<Rightarrow> cms_st \<Rightarrow> inp_st \<Rightarrow> gps \<Rightarrow> (nat \<Rightarrow> u8) cmd_st" where
  "ex_cmd_st cf cms inp g = \<lparr>cm_es = ex_ev_st cf cms, cm_inp = inp, cm_gps = g, cm_up = ex_update, cm_echo = False,
     cm_log_level = 0, cm_log_select = 0, cm_shock_debug = False, cm_acts = []\<rparr>"

lemma ex_cmd_inv: "cfg_sound id cf \<Longrightarrow> cmd_inv id ex_cmd_env (ex_cmd_st cf cms inp g)"
proof -
  have "\<exists>p < 8192. es_em_ptr (ex_ev_st cf cms) = slot_ptr p" by (rule exI [of _ 0]) (simp add: ex_ev_st_def)
  moreover have "es_cfg (ex_ev_st cf cms) = cf" by (simp add: ex_ev_st_def)
  ultimately show "cfg_sound id cf \<Longrightarrow> cmd_inv id ex_cmd_env (ex_cmd_st cf cms inp g)"
    using ex_rtc_codec_ok ex_ev_st_inv [of cf cms]
    by (simp add: cmd_inv_def es_ok_def ex_cmd_st_def ex_cmd_env_def ex_event_ok(2))
qed

subsection \<open>Properties\<close>

text \<open>C18: the lookup of a command in one pass over the table, with its counters, is the description: the word at the
beginning of the text is a name, or the beginning of the name of exactly one of the commands that the access allows; the
name of one always wins, and what follows the word stays.\<close>

theorem find_cmd_spec:
  assumes "cmd_lib_ok env"
  shows "find_cmd env text auth =
     map_option (\<lambda>c. (c, dropWhile (ce_is_char env) text)) (find_spec (takeWhile (ce_is_char env) text) auth)"
  using assms by (rule find_cmd_eq)

theorem find_cmd_spec_witness:
  "find_cmd ex_cmd_env (str ''uns?'') ACCESS_USER = map_option (\<lambda>c. (c, str ''?'')) (find_spec (str ''uns'') ACCESS_USER)
     \<and> map_option cd_text (find_spec (str ''uns'') ACCESS_USER) = Some (str ''UNSET'')
     \<and> find_spec (str ''un'') ACCESS_USER = None \<and> find_spec (str ''uns'') ACCESS_NONE = None"
proof -
  have w: "takeWhile (ce_is_char ex_cmd_env) (str ''uns?'') = str ''uns''" "dropWhile (ce_is_char ex_cmd_env) (str ''uns?'') = str ''?''"
    by (simp_all add: ex_cmd_env_def str_def is_letter_def word_le_nat_alt)
  have s: "map_option cd_text (find_spec (str ''uns'') ACCESS_USER) = Some (str ''UNSET'')"
    "find_spec (str ''un'') ACCESS_USER = None" "find_spec (str ''uns'') ACCESS_NONE = None" by code_simp+
  from find_cmd_spec [OF ex_cmd_env_ok, of "str ''uns?''" ACCESS_USER] s show ?thesis by (simp add: w)
qed

text \<open>C10: any text of commands, with any access, comes to an end without a failed assertion on a device with sound
configuration, alarm state and event log pointer, and leaves the device so: the loop over the commands takes something off
the text in each round, a text message simulated by a command (\<open>DBG=20\<close>) is shorter than the text it came in, and no
handler, configuration write or read of the event log can break the invariant.\<close>

theorem cmd_process_safe:
  assumes "cmd_lib_ok env" "cmd_inv mem env (cx_st cx)"
  shows "\<exists>cx' r. cmd_process_text env text cx = Some (cx', r) \<and> cmd_inv mem env (cx_st cx')"
  unfolding cmd_process_text_def by (rule cmd_loop_run) (use assms in simp_all)

abbreviation (input) ex_cx :: "(nat \<Rightarrow> u8) cmd_st \<Rightarrow> u8 \<Rightarrow> (nat \<Rightarrow> u8) cmd_cx" where
  "ex_cx st auth \<equiv> \<lparr>cx_st = st, cx_res = [], cx_acc = \<lparr>ac_auth = auth, ac_source = EVENT_SOURCE_UNKNOWN\<rparr>, cx_text = []\<rparr>"

theorem cmd_process_safe_witness:
  "\<exists>cf. \<forall>cms inp g. \<exists>cx' r. cmd_process_text ex_cmd_env (str ''UNSET;MEM;CFG=2,;DBG=20,admin'')
       (ex_cx (ex_cmd_st cf cms inp g) ACCESS_ADMIN) = Some (cx', r) \<and> cmd_inv id ex_cmd_env (cx_st cx')"
proof -
  have "cmd_inv id ex_cmd_env (cx_st (ex_cx (ex_cmd_st (ex_cfg (\<lambda>_. 0xFF)) cms inp g) ACCESS_ADMIN))" for cms inp g
    using ex_cmd_inv [OF ex_blank_sound] by simp
  from cmd_process_safe [OF ex_cmd_env_ok this] show ?thesis by blast
qed

text \<open>C4: a channel without access changes nothing: when no quoted text in the line begins with a password, whatever the
line holds, it is processed to its end with the access still denied, and the state of the device, its outputs, settings,
alarm state, event log and everything sent or recorded, is as before (the driver of the flash was asked for the
passwords).\<close>

theorem cmd_unauth_inert:
  assumes "cmd_lib_ok env" "cmd_inv mem env (cx_st cx)" "ac_auth (cx_acc cx) = ACCESS_NONE"
    and "no_password env (cx_text_of mem cx) text"
  shows "\<exists>cx' r. cmd_process_text env text cx = Some (cx', r) \<and> ac_auth (cx_acc cx') = ACCESS_NONE
     \<and> cmd_like mem (cx_st cx) (cx_st cx')"
proof -
  define cx1 where "cx1 = cx\<lparr>cx_text := skip_spaces text\<rparr>"
  have "no_password env (cx_text_of mem cx1) (cx_text cx1)"
    using assms(4) suffix_order.trans [OF _ suffix_skip] by (auto simp: cx1_def no_password_def)
  with cmd_loop_inert [OF assms(1), of mem cx1] show ?thesis using assms by (simp add: cmd_process_text_def cx1_def)
qed

lemma ex_password_text:
  "map (\<lambda>i. case table_get i of Some t \<Rightarrow> ct_data t | None \<Rightarrow> []) [2, 1, 151, 152, 153, 154] =
     [str ''admin'', str ''uhlokRopnude'', [], [], [], []]"
  by code_simp

lemma ex_password_row:
  assumes "\<And>i. i \<in> {2, 1, 151, 152, 153, 154} \<Longrightarrow> T i = (case table_get i of Some t \<Rightarrow> ct_data t | None \<Rightarrow> [])"
  shows "password_row ex_cmd_env T v =
     (if map to_lower (take 5 v) = str ''admin'' then Some (CFG_ID_PASSWD_ADMIN, ACCESS_ADMIN, EVENT_SOURCE_ADMIN)
      else if map to_lower (take 12 v) = str ''uhlokropnude'' then Some (CFG_ID_PASSWD_SYSTEM, ACCESS_SYSTEM, EVENT_SOURCE_ADMIN)
      else None)"
proof -
  have t: "T 2 = str ''admin''" "T 1 = str ''uhlokRopnude''" "T 151 = []" "T 152 = []" "T 153 = []" "T 154 = []"
    using ex_password_text by (simp_all add: assms)
  have l: "map to_lower (str ''admin'') = str ''admin''" "map to_lower (str ''uhlokRopnude'') = str ''uhlokropnude''"
    "length (str ''admin'') = 5" "length (str ''uhlokRopnude'') = 12" by (simp_all add: str_def to_lower_def word_le_nat_alt)
  show ?thesis by (simp add: password_row_def PASSWD_TABLE_def t ex_cmd_env_def l)
qed

theorem cmd_unauth_inert_witness:
  "\<exists>cf. \<forall>cms inp g. \<exists>cx' r. cmd_process_text ex_cmd_env (str ''AUTH='' @ [34] @ str ''1234'' @ [34] @ str '';UNSET'')
       (ex_cx (ex_cmd_st cf cms inp g) ACCESS_NONE) = Some (cx', r) \<and> cmd_like id (ex_cmd_st cf cms inp g) (cx_st cx')"
proof -
  define t where "t = str ''AUTH='' @ [34] @ str ''1234'' @ [34] @ str '';UNSET''"
  have eval: "\<forall>s \<in> set (suffixes t). case ce_string ex_cmd_env s 62 of None \<Rightarrow> True | Some (v, _) \<Rightarrow> v = str ''1234''"
    unfolding t_def by code_simp
  have str: "v = str ''1234''" if "suffix s t" "ce_string ex_cmd_env s 62 = Some (v, r)" for s v r
  proof -
    have "s \<in> set (suffixes t)" using that(1) by simp
    then show ?thesis using eval that(2) by fastforce
  qed
  have no: "no_password ex_cmd_env (cfg_text id (ex_cfg (\<lambda>_. 0xFF))) t"
    unfolding no_password_def
  proof (intro allI impI)
    fix s v r assume "suffix s t" "ce_string ex_cmd_env s 62 = Some (v, r)"
    then have "v = str ''1234''" by (rule str)
    then show "password_row ex_cmd_env (cfg_text id (ex_cfg (\<lambda>_. 0xFF))) v = None"
      by (subst ex_password_row) (simp_all add: ex_blank_text str_def to_lower_def)
  qed
  have "\<exists>cx' r. cmd_process_text ex_cmd_env t (ex_cx (ex_cmd_st (ex_cfg (\<lambda>_. 0xFF)) cms inp g) ACCESS_NONE) = Some (cx', r)
     \<and> cmd_like id (ex_cmd_st (ex_cfg (\<lambda>_. 0xFF)) cms inp g) (cx_st cx')" for cms inp g
  proof -
    let ?cx = "ex_cx (ex_cmd_st (ex_cfg (\<lambda>_. 0xFF)) cms inp g) ACCESS_NONE"
    have "cx_text_of id ?cx = cfg_text id (ex_cfg (\<lambda>_. 0xFF))" by (simp add: ex_cmd_st_def ex_ev_st_def)
    then show ?thesis using cmd_unauth_inert [OF ex_cmd_env_ok, of id ?cx t] ex_cmd_inv [OF ex_blank_sound] no by auto
  qed
  then show ?thesis unfolding t_def by blast
qed

subsubsection \<open>Text messages\<close>

lemma sms_access_row:
  assumes "cmd_inv mem env (cx_st cx)"
  shows "\<exists>cx'. cmd_like mem (cx_st cx) (cx_st cx') \<and> cx_res cx' = cx_res cx
     \<and> (case password_row env (cx_text_of mem cx) (skip_spaces data) of
          None \<Rightarrow> sms_access env data cx = Some cx' \<and> ac_auth (cx_acc cx') = ACCESS_NONE
        | Some (i, a, s) \<Rightarrow> sms_access env data cx = Some cx' \<and> cx_acc cx' = \<lparr>ac_auth = a, ac_source = s\<rparr>
             \<and> cx_text cx' = skip_spaces (drop (length (cx_text_of mem cx i)) (skip_spaces data)))"
proof (cases "password_row env (cx_text_of mem cx) (skip_spaces data)")
  case None
  with password_access [OF assms, of "skip_spaces data"] obtain cx1 where "cmd_like mem (cx_st cx) (cx_st cx1)" "cx_res cx1 = cx_res cx"
    "cmd_get_password_access env (skip_spaces data) cx = Some (cx1, 0)" "ac_auth (cx_acc cx1) = ACCESS_NONE" by auto
  then show ?thesis using None
    by (intro exI [of _ "cx1\<lparr>cx_text := skip_spaces (skip_spaces data)\<rparr>"]) (simp add: sms_access_def)
next
  case (Some p)
  obtain i a s where p: "p = (i, a, s)" by (cases p)
  with password_access [OF assms, of "skip_spaces data"] Some obtain cx1 where "cmd_like mem (cx_st cx) (cx_st cx1)" "cx_res cx1 = cx_res cx"
    "cmd_get_password_access env (skip_spaces data) cx = Some (cx1, length (cx_text_of mem cx i))"
    "cx_acc cx1 = \<lparr>ac_auth = a, ac_source = s\<rparr>" by auto
  then show ?thesis using Some p
    by (intro exI [of _ "cx1\<lparr>cx_text := skip_spaces (drop (length (cx_text_of mem cx i)) (skip_spaces data))\<rparr>"])
       (simp add: sms_access_def)
qed

text \<open>C19: a text message that does not begin with a password is dropped: no answer, and the device is as before.\<close>

theorem sms_wrong_password:
  assumes "cmd_inv mem env st" "password_row env (cfg_text mem (es_cfg (cm_es st))) (skip_spaces data) = None"
  shows "\<exists>st'. sms_parse env tel data st = Some st' \<and> cmd_like mem st st' \<and> es_sent (cm_es st') = es_sent (cm_es st)"
proof -
  define cx where "cx = \<lparr>cx_st = st, cx_res = [], cx_acc = \<lparr>ac_auth = ACCESS_NONE, ac_source = 0\<rparr>, cx_text = data\<rparr>"
  have "cmd_inv mem env (cx_st cx)" using assms(1) by (simp add: cx_def)
  from sms_access_row [OF this, of data] assms(2) obtain cx' where a: "sms_access env data cx = Some cx'"
    "ac_auth (cx_acc cx') = ACCESS_NONE" "cmd_like mem st (cx_st cx')" by (auto simp: cx_def)
  have "cmd_sms_process env data st [] = Some (cx_st cx', cx_res cx', False)"
    using a(1,2) by (simp add: cmd_sms_process_def cx_def)
  moreover have "es_sent (cm_es (cx_st cx')) = es_sent (cm_es st)" using a(3) by (auto simp: cmd_like_def es_like_def)
  ultimately show ?thesis using a(3) by (simp add: sms_parse_def)
qed

lemma unset_effect:
  assumes "sys_inv y" "system_state y \<noteq> SECTION_ST_UNSET" "length (pending (sy_q y)) < 30"
  shows "\<exists>y1 es. system_unset env y src = Some y1 \<and> system_state y1 = SECTION_ST_UNSET \<and> alarm_state y1 = ALARM_IDLE
     \<and> pending (sy_q y1) = pending (sy_q y) @ queued (en_rtc env) (sy_q y) EVENT_ID_UNSET src None # es"
proof -
  have wf: "section_wf (sy_sect y)" "event_q_wf (sy_q y)" using assms(1) by (auto simp: sys_inv_def sys_wf_def)
  obtain s q where s: "section_unset env (sy_sect y) (sy_q y) src = Some (s, q, True)" "section_wf s"
    "sd_state (sc_data s) = SECTION_ST_UNSET" "event_q_wf q"
    "pending q = pending (sy_q y) @ [queued (en_rtc env) (sy_q y) EVENT_ID_UNSET src None]"
    using event_q_create [OF wf(2), of env EVENT_ID_UNSET src] assms(2,3) set_state_run [OF wf(2,1), of env SECTION_ST_UNSET src]
    by (auto simp: section_unset_def set_state_def Let_def system_state_def)
  have "length (pending q) < 31" using s(5) assms(3) by simp
  with event_q_create [OF s(4), of env EVENT_ID_ALARM_CANCEL src] obtain q' where
    q': "section_event env q EVENT_ID_ALARM_CANCEL src = Some q'" "event_q_wf q'"
      "pending q' = pending q @ [queued (en_rtc env) q EVENT_ID_ALARM_CANCEL src None]" by auto
  define y0 where "y0 = y\<lparr>sy_sect := s, sy_q := (if alarm_state y = ALARM_ACTIVE then q' else q)\<rparr>"
  have "sys_wf y0" using assms(1) s q' by (simp add: y0_def sys_inv_def sys_wf_def)
  from siren_off_run [OF this, of env] obtain y2 where y2: "siren_off env y0 = Some y2"
    "io_only (upd_alarm (\<lambda>a. if al_siren_state a then a\<lparr>al_siren_tmr := 0, al_siren_state := False\<rparr> else a) y0) y2"
    by blast
  define y3 where "y3 = upd_alarm (\<lambda>a. a\<lparr>al_alarm_tmr := 0, al_cnt := 0, al_state := ALARM_IDLE\<rparr>) y2"
  have st: "alarm_stop env y0 = Some y3" using y2(1) by (simp add: alarm_stop_def y3_def)
  have y3: "sy_sect y3 = s" "sy_q y3 = sy_q y0" "al_state (sy_alarm y3) = ALARM_IDLE"
    using io_only_same [OF y2(2)] by (simp_all add: y3_def y0_def)
  define y1 where "y1 = save_state (do_act (Siren_beep 0x111 (if alarm_state y \<noteq> ALARM_IDLE then 12 else 8))
      (y3\<lparr>sy_inps := system_input_reset (sy_inps y3)\<rparr>))"
  have "system_unset env y src = Some y1"
    using s(1) q'(1) st by (cases "alarm_state y = ALARM_ACTIVE") (simp_all add: system_unset_def Let_def y0_def y1_def alarm_state_def)
  moreover have "sy_sect y1 = s \<and> sy_q y1 = sy_q y0 \<and> al_state (sy_alarm y1) = ALARM_IDLE"
    using y3 by (simp add: y1_def save_state_def do_act_def split: prod.splits)
  ultimately show ?thesis using s(3,5) q'(3) by (auto simp: system_state_def alarm_state_def y0_def)
qed

text \<open>The answer to a message with one command that succeeded: its name, a line end and the time.\<close>

definition ok_answer :: "cmd_env \<Rightarrow> cmd \<Rightarrow> u8 list" where
  "ok_answer env c =
     foldl (bf_append (ee_buf (ce_ev env))) [] [cd_text c @ str '' OK'', ee_nl (ce_ev env), rtc_text (ee_now (ce_ev env))]"

text \<open>C9: a text message of a password and the word for the command \<open>UNSET\<close>, or an abbreviation of it, disarms an armed
system in the name of the owner of the password: the section is unset, an alarm is over, the event of unsetting with that
source is the next in the queue (which has room for it), and the sender gets the answer (there is memory for it).\<close>

theorem sms_unset:
  assumes "cmd_lib_ok env" "cmd_inv mem env st" "ee_alloc (ce_ev env)"
    and "password_row env (cfg_text mem (es_cfg (cm_es st))) (skip_spaces data) = Some (i, a, s)"
    and "skip_spaces (drop (length (cfg_text mem (es_cfg (cm_es st)) i)) (skip_spaces data)) = w" "\<forall>x \<in> set w. ce_is_char env x"
    and "find_spec w a = Some c" "cd_pfunc c = Some C_unset"
    and "system_state (es_sys (cm_es st)) \<noteq> SECTION_ST_UNSET" "length (pending (es_q (cm_es st))) < 30"
  shows "\<exists>st' es. sms_parse env tel data st = Some st'
     \<and> system_state (es_sys (cm_es st')) = SECTION_ST_UNSET \<and> alarm_state (es_sys (cm_es st')) = ALARM_IDLE
     \<and> pending (es_q (cm_es st')) = pending (es_q (cm_es st))
          @ queued (en_rtc (ee_sys (ce_ev env))) (es_q (cm_es st)) EVENT_ID_UNSET s None # es
     \<and> es_sent (cm_es st') = es_sent (cm_es st)
          @ (if ok_answer env c \<noteq> [] \<and> ee_phone_ok (ce_ev env) tel then [(tel, ok_answer env c)] else [])"
proof -
  have wn: "w \<noteq> []" using assms(7) cmd_table_names
    by (auto simp: find_spec_def abbrev_of_def Let_def filter_empty_conv split: list.splits)
  have an: "\<not> a \<le> ACCESS_NONE"
    using assms(4) by (auto simp: password_row_def PASSWD_TABLE_def word_le_nat_alt split: if_splits)
  have dn: "data \<noteq> []" using assms(5) wn by (auto simp: skip_spaces_def)
  define cx where "cx = \<lparr>cx_st = st, cx_res = [], cx_acc = \<lparr>ac_auth = ACCESS_NONE, ac_source = 0\<rparr>, cx_text = data\<rparr>"
  have cx: "cmd_inv mem env (cx_st cx)" "cx_st cx = st" "cx_res cx = []" using assms(2) by (simp_all add: cx_def)
  from sms_access_row [OF cx(1), of data] obtain cx1 where 1: "sms_access env data cx = Some cx1" "cmd_like mem st (cx_st cx1)"
    "cx_acc cx1 = \<lparr>ac_auth = a, ac_source = s\<rparr>" "cx_text cx1 = w" "cx_res cx1 = []"
    using assms(4,5) cx by auto
  have same: "sy_sect (cx_sys cx1) = sy_sect (es_sys (cm_es st))" "sy_q (cx_sys cx1) = es_q (cm_es st)"
    "es_sent (cm_es (cx_st cx1)) = es_sent (cm_es st)" using 1(2) by (auto simp: cmd_like_def es_like_def)
  have "cmd_inv mem env (cx_st cx1)" by (rule cmd_like_inv [OF 1(2) assms(2)])
  then have "sys_inv (cx_sys cx1)" by (simp add: cmd_inv_def es_ok_def)
  moreover have su: "system_state (cx_sys cx1) \<noteq> SECTION_ST_UNSET" using assms(9) same by (simp add: system_state_def)
  ultimately obtain y es where y: "system_unset (ee_sys (ce_ev env)) (cx_sys cx1) s = Some y" "system_state y = SECTION_ST_UNSET"
    "alarm_state y = ALARM_IDLE" "pending (sy_q y) = pending (es_q (cm_es st))
          @ queued (en_rtc (ee_sys (ce_ev env))) (es_q (cm_es st)) EVENT_ID_UNSET s None # es"
    using unset_effect [of "cx_sys cx1" "ee_sys (ce_ev env)" s] assms(10) same by auto
  have sp: "skip_spaces w = w" using assms(1,6) wn by (cases w) (auto simp: skip_spaces_def cmd_lib_ok_def)
  have tw: "takeWhile (ce_is_char env) w = w" "dropWhile (ce_is_char env) w = []" using assms(6) by (simp_all add: takeWhile_eq_all_conv)
  have f: "find_cmd env w a = Some (c, [])" unfolding find_cmd_eq [OF assms(1)] tw assms(7) by simp
  define cx2 where "cx2 = cmd_nl env (cmd_put env (cd_text c @ str '' OK'') (cx_set_sys (cx1\<lparr>cx_text := []\<rparr>) y))"
  have "process_cmd env c (cx1\<lparr>cx_text := []\<rparr>) = Some (cx2, Done True)"
    using y(1) su assms(8) 1(3)
    by (simp add: process_cmd_def skip_spaces_def cmd_get_def cmd_unset_def cx_unset_def set_done_def cx2_def)
  moreover have "cmd_separator cx2 = None" by (simp add: cmd_separator_def cx2_def skip_spaces_def)
  ultimately have "cmd_loop env cx1 = Some (cx2, True)" using f wn 1(3,4) by (subst cmd_loop.simps) simp
  moreover have "cx1\<lparr>cx_text := w\<rparr> = cx1" using 1(4) by simp
  ultimately have "cmd_process_text env w cx1 = Some (cx2, True)" by (simp add: cmd_process_text_def sp)
  then have run: "cmd_sms_process env data st [] = Some (cx_st cx2, cx_res (add_rtc env cx2), True)"
    using 1 an by (simp add: cmd_sms_process_def cx_def)
  have res: "cx_res (add_rtc env cx2) = ok_answer env c"
    using 1(5) by (simp add: cx2_def add_rtc_def cmd_nl_def cmd_put_def ok_answer_def)
  have st2: "cx_st cx2 = (cx_st cx1)\<lparr>cm_es := (cm_es (cx_st cx1))\<lparr>es_sys := y\<rparr>\<rparr>" by (simp add: cx2_def)
  show ?thesis using run res y(2-4) same(3) assms(3) dn by (simp add: sms_parse_def st2)
qed

lemma ex_cmd_st_simps:
  "es_cfg (cm_es (ex_cmd_st cf cms inp g)) = cf" "system_state (es_sys (cm_es (ex_cmd_st cf cms inp g))) = SECTION_ST_SET"
  "es_sent (cm_es (ex_cmd_st cf cms inp g)) = []" "pending (es_q (cm_es (ex_cmd_st cf cms inp g))) = [ex_alarm]"
  using ex_pending [of cf cms] by (simp_all add: ex_cmd_st_def ex_ev_st_def system_state_def ex_section_def)

theorem sms_wrong_password_witness:
  "\<exists>cf. \<forall>cms inp g. \<exists>st'. sms_parse ex_cmd_env (str ''+420'') (str ''adnim UNSET'') (ex_cmd_st cf cms inp g) = Some st'
     \<and> system_state (es_sys (cm_es st')) = SECTION_ST_SET \<and> es_sent (cm_es st') = []"
proof -
  let ?cf = "ex_cfg (\<lambda>_. 0xFF)"
  have row: "password_row ex_cmd_env (cfg_text id ?cf) (skip_spaces (str ''adnim UNSET'')) = None"
    by (subst ex_password_row) (simp_all add: ex_blank_text str_def to_lower_def skip_spaces_def word_le_nat_alt)
  have "\<exists>st'. sms_parse ex_cmd_env (str ''+420'') (str ''adnim UNSET'') (ex_cmd_st ?cf cms inp g) = Some st'
     \<and> system_state (es_sys (cm_es st')) = SECTION_ST_SET \<and> es_sent (cm_es st') = []" for cms inp g
    using sms_wrong_password [of id ex_cmd_env "ex_cmd_st ?cf cms inp g" "str ''adnim UNSET''" "str ''+420''"] row
      ex_cmd_inv [OF ex_blank_sound, of cms inp g]
      ex_cmd_st_simps [of ?cf cms inp g] by (auto simp: cmd_like_def es_like_def system_state_def)
  then show ?thesis by blast
qed

theorem sms_unset_witness:
  "\<exists>cf. \<forall>cms inp g. \<exists>st' msg. sms_parse ex_cmd_env (str ''+420'') (str ''admin uns'') (ex_cmd_st cf cms inp g) = Some st'
     \<and> system_state (es_sys (cm_es st')) = SECTION_ST_UNSET \<and> es_sent (cm_es st') = [(str ''+420'', msg)]"
proof -
  let ?cf = "ex_cfg (\<lambda>_. 0xFF)"
  have row: "password_row ex_cmd_env (cfg_text id ?cf) (skip_spaces (str ''admin uns'')) = Some (2, ACCESS_ADMIN, EVENT_SOURCE_ADMIN)"
    by (subst ex_password_row) (simp_all add: ex_blank_text str_def to_lower_def skip_spaces_def word_le_nat_alt)
  have t2: "cfg_text id ?cf 2 = str ''admin''" using ex_password_text by (simp add: ex_blank_text)
  have w: "skip_spaces (drop (length (cfg_text id ?cf 2)) (skip_spaces (str ''admin uns''))) = str ''uns''"
    unfolding t2 by (simp add: str_def skip_spaces_def)
  have ch: "\<forall>x \<in> set (str ''uns''). ce_is_char ex_cmd_env x" by (simp add: ex_cmd_env_def str_def is_letter_def word_le_nat_alt)
  have "map_option (\<lambda>c. cd_pfunc c) (find_spec (str ''uns'') ACCESS_ADMIN) = Some (Some C_unset)" by code_simp
  then obtain c where c: "find_spec (str ''uns'') ACCESS_ADMIN = Some c" "cd_pfunc c = Some C_unset" by auto
  have e: "ee_alloc (ce_ev ex_cmd_env)" "ee_phone_ok (ce_ev ex_cmd_env) t" for t by (simp_all add: ex_cmd_env_def ex_ev_env_def)
  have a: "ok_answer ex_cmd_env c \<noteq> []" by (simp add: ok_answer_def ex_cmd_env_def ex_ev_env_def list_buf_def)
  have "\<exists>st' msg. sms_parse ex_cmd_env (str ''+420'') (str ''admin uns'') (ex_cmd_st ?cf cms inp g) = Some st'
     \<and> system_state (es_sys (cm_es st')) = SECTION_ST_UNSET \<and> es_sent (cm_es st') = [(str ''+420'', msg)]" for cms inp g
    using sms_unset [OF ex_cmd_env_ok ex_cmd_inv [OF ex_blank_sound, of cms inp g] e(1),
        where data = "str ''admin uns''" and i = 2 and a = ACCESS_ADMIN and s = EVENT_SOURCE_ADMIN and w = "str ''uns''"
          and c = c and tel = "str ''+420''"] row w ch c ex_cmd_st_simps [of ?cf cms inp g] e(2) a by auto
  then show ?thesis by blast
qed

subsubsection \<open>Settings\<close>

definition cfg_cmd :: cmd where
  "cfg_cmd = \<lparr>cd_text = str ''CFG'', cd_pfunc = Some C_cfg, cd_pfunc_set = Some S_cfg, cd_auth = ACCESS_USER,
     cd_help = Some (str ''CFG=<n>[,'' @ [34] @ str ''value'' @ [34] @ str '']'')\<rparr>"

lemma find_cfg:
  assumes L: "cmd_lib_ok env" and a: "ACCESS_USER \<le> a"
  shows "find_cmd env (str ''CFG='' @ r) a = Some (cfg_cmd, 61 # r)"
proof -
  have "is_letter x" if "x \<in> {67, 70, 71}" for x using that by (auto simp: is_letter_def word_le_nat_alt)
  then have ch: "ce_is_char env 67" "ce_is_char env 70" "ce_is_char env 71" "\<not> ce_is_char env 61" using L by (simp_all add: cmd_lib_ok_def)
  have t: "str ''CFG='' @ r = [67, 70, 71] @ 61 # r" "str ''CFG'' = [67, 70, 71]" by (simp_all add: str_def)
  have tw: "takeWhile (ce_is_char env) (str ''CFG='' @ r) = str ''CFG''" "dropWhile (ce_is_char env) (str ''CFG='' @ r) = 61 # r"
    unfolding t using ch by simp_all
  have e: "filter (\<lambda>c. map to_lower (str ''CFG'') = map to_lower (cd_text c)) CMD_TABLE = [cfg_cmd]" by code_simp
  have f: "filter P (filter Q xs) = filter Q (filter P xs)" for P Q and xs :: "cmd list"
    by (induction xs) auto
  have "filter (\<lambda>c. map to_lower (str ''CFG'') = map to_lower (cd_text c)) (filter (\<lambda>c. cd_auth c \<le> a) CMD_TABLE) = [cfg_cmd]"
    unfolding f [of _ "\<lambda>c. cd_auth c \<le> a"] e using a by (simp add: cfg_cmd_def)
  then have "find_spec (str ''CFG'') a = Some cfg_cmd" by (simp add: find_spec_def Let_def)
  then show ?thesis using find_cmd_eq [OF L, of "str ''CFG='' @ r" a] tw by simp
qed

lemma skip_show: "skip_spaces (show_nat n @ r) = show_nat n @ r"
proof -
  obtain c cs where s: "show_nat n = c # cs" by (cases "show_nat n") auto
  then have "is_digit c" using show_nat_digits [of c n] by simp
  then have "c \<noteq> 32" by (auto simp: is_digit_def word_le_nat_alt)
  then show ?thesis by (simp add: s skip_spaces_def)
qed

lemma cfg_put_step:
  assumes L: "cmd_lib_ok env" and P: "cmd_parse_ok env" and ok: "cx_ok mem env cx" and n: "n < 2 ^ 16"
    and acc: "cfg_table_access_write (of_nat n) (ac_auth (cx_acc cx))" and v: "length v < 62" "34 \<notin> set v" "0 \<notin> set v"
  shows "\<exists>cf. process_cmd env cfg_cmd (cx\<lparr>cx_text := 61 # show_nat n @ [44, 34] @ v @ 34 # r\<rparr>)
       = Some ((cx_set_sys cx ((cx_sys cx)\<lparr>sy_cfg := cf\<rparr>))\<lparr>cx_text := r\<rparr>, Done True)
     \<and> cfg_sound mem cf \<and> cfg_text mem cf (of_nat n) = v \<and> (\<forall>k. k \<noteq> of_nat n \<longrightarrow> cfg_text mem cf k = cfg_text mem (sy_cfg (cx_sys cx)) k)"
proof -
  have S: "cfg_sound mem (sy_cfg (cx_sys cx))" using ok by (simp add: cmd_inv_def es_ok_def)
  obtain cf where w: "cfg_write (sy_cfg (cx_sys cx)) (of_nat n) v (ac_auth (cx_acc cx)) = (cf, True)" "cfg_sound mem cf"
    "cfg_text mem cf (of_nat n) = v" "\<forall>k. k \<noteq> of_nat n \<longrightarrow> cfg_text mem cf k = cfg_text mem (sy_cfg (cx_sys cx)) k"
    using cfg_write_text [OF S acc v(1,3)] by blast
  have num: "ce_number env (show_nat n @ 44 # 34 # v @ 34 # r) = Some (int n, 44 # 34 # v @ 34 # r)"
    using P n by (simp add: cmd_parse_ok_def is_digit_def word_le_nat_alt)
  have sep: "ce_separator env (44 # 34 # v @ 34 # r) = Some (34 # v @ 34 # r)" using P by (simp add: cmd_parse_ok_def)
  have st: "ce_string env (34 # v @ 34 # r) 62 = Some (v, r)" using P v by (simp add: cmd_parse_ok_def)
  have full: "ce_full env v = v" using L by (simp add: cmd_lib_ok_def)
  have "process_cmd env cfg_cmd (cx\<lparr>cx_text := 61 # show_nat n @ [44, 34] @ v @ 34 # r\<rparr>)
     = cmd_cfg_set env cfg_cmd (cx\<lparr>cx_text := show_nat n @ 44 # 34 # v @ 34 # r\<rparr>)"
    using skip_show [of n "44 # 34 # v @ 34 # r"] by (simp add: process_cmd_def skip_spaces_def Let_def cfg_cmd_def cmd_put_run_def)
  also have "\<dots> = Some ((cx_set_sys cx ((cx_sys cx)\<lparr>sy_cfg := cf\<rparr>))\<lparr>cx_text := r\<rparr>, Done True)"
    using w(1) by (simp add: cmd_cfg_set_def cmd_fetch_num_def cmd_fetch_separator_def cmd_fetch_string_def num sep st full
        cx_set_sys_def cx_upd_def)
  finally show ?thesis using w(2-4) by blast
qed

text \<open>What the command shows of one item.\<close>

definition cfg_shown :: "cmd_env \<Rightarrow> u8 list \<Rightarrow> nat \<Rightarrow> u8 list \<Rightarrow> u8 list" where
  "cfg_shown env res n v =
     foldl (bf_append (ee_buf (ce_ev env))) res [str ''CFG:'' @ show_int (int n) @ [44, 34], v, [34], ee_nl (ce_ev env)]"

lemma cfg_get_step:
  assumes L: "cmd_lib_ok env" and P: "cmd_parse_ok env" and ok: "cx_ok mem env cx" and n: "n < 2 ^ 16"
    and acc: "cfg_table_access_read (of_nat n) (ac_auth (cx_acc cx))"
  shows "\<exists>cx'. process_cmd env cfg_cmd (cx\<lparr>cx_text := 61 # show_nat n\<rparr>) = Some (cx', Done True)
     \<and> cmd_like mem (cx_st cx) (cx_st cx') \<and> cx_text cx' = [] \<and> cx_acc cx' = cx_acc cx
     \<and> cx_res cx' = cfg_shown env (cx_res cx) n (cx_text_of mem cx (of_nat n))"
proof -
  have "n < 2 ^ 31" using n by simp
  then have "ce_number env (show_nat n @ []) = Some (int n, [])" using P unfolding cmd_parse_ok_def by blast
  then have num: "ce_number env (show_nat n) = Some (int n, [])" by simp
  have sep: "ce_separator env [] = None" using P by (simp add: cmd_parse_ok_def)
  define cx0 where "cx0 = cmd_put env (str ''CFG:'' @ show_int (int n) @ [44, 34]) (cx\<lparr>cx_text := []\<rparr>)"
  have 0: "cx_ok mem env cx0" "cx_st cx0 = cx_st cx" "cx_acc cx0 = cx_acc cx" "cx_text cx0 = []"
    "cx_res cx0 = bf_append (ee_buf (ce_ev env)) (cx_res cx) (str ''CFG:'' @ show_int (int n) @ [44, 34])"
    using ok by (simp_all add: cx0_def) (simp add: cmd_put_def)
  have t: "table_get (of_nat n) \<noteq> None" using acc by (auto simp: cfg_table_access_read_def split: option.splits)
  have "cfg_table_access_read (of_nat n) ACCESS_SYSTEM"
    using table_get_ok t by (auto simp: cfg_table_access_read_def row_ok_def split: option.splits)
  then have e: "cx_cfg_read cx0 (of_nat n) (ac_auth (cx_acc cx)) = cx_cfg_read cx0 (of_nat n) ACCESS_SYSTEM"
    using acc by (simp add: cx_cfg_read_def cfg_read_def)
  obtain cx1 where 1: "cx_cfg_read cx0 (of_nat n) ACCESS_SYSTEM = Some (cx1, True, cx_text_of mem cx (of_nat n))"
    "cmd_like mem (cx_st cx) (cx_st cx1)" "cx_res cx1 = cx_res cx0" "cx_acc cx1 = cx_acc cx" "cx_text cx1 = []"
    using cx_read_text [OF 0(1) t] 0 by auto
  define cx' where "cx' = cmd_nl env (cmd_put env [34] (cmd_put env (cx_text_of mem cx (of_nat n)) cx1))"
  have item: "cmd_cfg_item env cfg_cmd (int n) (cx\<lparr>cx_text := []\<rparr>) = Some (cx', True)"
  proof -
    have "cmd_put env (cd_text cfg_cmd @ [58] @ show_int (int n) @ [44, 34]) (cx\<lparr>cx_text := []\<rparr>) = cx0"
      by (simp add: cx0_def cfg_cmd_def str_def)
    moreover have "(word_of_int (int n) :: u16) = of_nat n" by simp
    ultimately show ?thesis unfolding cmd_cfg_item_def Let_def using 0(3) 1(1) e by (simp add: cx'_def)
  qed
  have "process_cmd env cfg_cmd (cx\<lparr>cx_text := 61 # show_nat n\<rparr>) = cmd_cfg_set env cfg_cmd (cx\<lparr>cx_text := show_nat n\<rparr>)"
    using skip_show [of n "[]"] by (simp add: process_cmd_def skip_spaces_def Let_def cfg_cmd_def cmd_put_run_def)
  also have "\<dots> = Some (cx', Done True)" using item
    by (simp add: cmd_cfg_set_def cmd_fetch_num_def cmd_fetch_separator_def num sep)
  finally show ?thesis using 1 0(5) by (simp add: cx'_def cmd_nl_def cmd_put_def cfg_shown_def)
qed

text \<open>C17: a setting goes in and comes out: on a channel whose access may write and read an item, the line
\<open>CFG=n,"value";CFG=n\<close> leaves exactly that item changed, to the value, and the answer shows it; the value is any text of at
most 61 characters without quotes.\<close>

theorem cmd_cfg_roundtrip:
  assumes "cmd_lib_ok env" "cmd_parse_ok env" "cmd_inv mem env (cx_st cx)" "n < 2 ^ 16"
    and "cfg_table_access_write (of_nat n) (ac_auth (cx_acc cx))" "cfg_table_access_read (of_nat n) (ac_auth (cx_acc cx))"
    and "ACCESS_USER \<le> ac_auth (cx_acc cx)" "length v < 62" "34 \<notin> set v" "0 \<notin> set v"
  shows "\<exists>cx'. cmd_process_text env (str ''CFG='' @ show_nat n @ [44, 34] @ v @ 34 # str '';CFG='' @ show_nat n) cx = Some (cx', True)
     \<and> (\<forall>k. table_get k \<noteq> None \<longrightarrow> cx_text_of mem cx' k = (if k = of_nat n then v else cx_text_of mem cx k))
     \<and> cx_res cx' = cfg_shown env (cx_res cx) n v"
proof -
  define r where "r = str '';CFG='' @ show_nat n"
  define a where "a = ac_auth (cx_acc cx)"
  define cx0 where "cx0 = cx\<lparr>cx_text := str ''CFG='' @ show_nat n @ [44, 34] @ v @ 34 # r\<rparr>"
  have sk: "skip_spaces (str ''CFG='' @ x) = str ''CFG='' @ x" "str ''CFG='' @ x \<noteq> []" for x by (simp_all add: str_def skip_spaces_def)
  have f: "find_cmd env (str ''CFG='' @ x) a = Some (cfg_cmd, 61 # x)" for x
    using find_cfg [OF assms(1,7)] by (simp add: a_def)
  obtain cf where p: "process_cmd env cfg_cmd (cx\<lparr>cx_text := 61 # show_nat n @ [44, 34] @ v @ 34 # r\<rparr>)
       = Some ((cx_set_sys cx ((cx_sys cx)\<lparr>sy_cfg := cf\<rparr>))\<lparr>cx_text := r\<rparr>, Done True)" "cfg_sound mem cf"
    "cfg_text mem cf (of_nat n) = v" "\<forall>k. k \<noteq> of_nat n \<longrightarrow> cfg_text mem cf k = cfg_text mem (sy_cfg (cx_sys cx)) k"
    using cfg_put_step [OF assms(1-5,8-10), of r] by blast
  define cx1 where "cx1 = cx_set_sys cx ((cx_sys cx)\<lparr>sy_cfg := cf\<rparr>)"
  have i: "sys_inv (cx_sys cx)" using assms(3) by (simp add: cmd_inv_def es_ok_def)
  have ok1: "cx_ok mem env cx1" unfolding cx1_def by (rule cmd_inv_sys [OF assms(3)]) (use i p(2) in simp_all)
  have 1: "cx_acc cx1 = cx_acc cx" "cx_res cx1 = cx_res cx" "sy_cfg (cx_sys cx1) = cf" by (simp_all add: cx1_def)
  have sep: "cmd_separator (cx1\<lparr>cx_text := r\<rparr>) = Some (cx1\<lparr>cx_text := str ''CFG='' @ show_nat n\<rparr>)"
    by (simp add: cmd_separator_def r_def str_def skip_spaces_def)
  have "cmd_loop env cx0 = cmd_loop env (cx1\<lparr>cx_text := str ''CFG='' @ show_nat n\<rparr>)"
    using f [of "show_nat n @ [44, 34] @ v @ 34 # r"] sk p(1) sep
    by (subst cmd_loop.simps) (simp add: cx0_def a_def [symmetric] cx1_def [symmetric])
  moreover obtain cx2 where 2: "process_cmd env cfg_cmd (cx1\<lparr>cx_text := 61 # show_nat n\<rparr>) = Some (cx2, Done True)"
    "cmd_like mem (cx_st cx1) (cx_st cx2)" "cx_text cx2 = []" "cx_res cx2 = cfg_shown env (cx_res cx) n v"
    using cfg_get_step [OF assms(1,2) ok1 assms(4)] assms(6) 1 p(3) by auto
  moreover have "cmd_separator cx2 = None" using 2(3) by (simp add: cmd_separator_def skip_spaces_def)
  ultimately have "cmd_loop env cx0 = Some (cx2, True)"
    using f [of "show_nat n"] sk 1(1) by (simp add: cmd_loop.simps [of env "cx1\<lparr>cx_text := str ''CFG='' @ show_nat n\<rparr>"] a_def [symmetric])
  moreover have "cx_text_of mem cx2 k = (if k = of_nat n then v else cx_text_of mem cx k)" if "table_get k \<noteq> None" for k
    using cmd_like_text [OF 2(2) ok1 that] p(3,4) 1(3) by simp
  moreover have "cmd_process_text env (str ''CFG='' @ show_nat n @ [44, 34] @ v @ 34 # r) cx = cmd_loop env cx0"
    unfolding cmd_process_text_def cx0_def by (simp only: sk(1))
  ultimately show ?thesis using 2(4) unfolding r_def by auto
qed

lemma ex_cmd_parse_ok: "cmd_parse_ok ex_cmd_env"
proof -
  have "scan_unsigned (show_nat n @ r) = Some (int n, r)" if "r = [] \<or> \<not> is_digit (hd r)" for n r
  proof -
    obtain c cs where s: "show_nat n = c # cs" by (cases "show_nat n") auto
    then have d: "is_digit c" using show_nat_digits [of c n] by simp
    have "scan_digits v r = (v, r)" for v using that by (cases r) auto
    then show ?thesis using d s scan_digits_append [of "show_nat n" 0 r] show_nat_digits [of _ n] scan_digits_show [of 0 n]
      by (simp add: scan_unsigned_def)
  qed
  moreover have "ce_string ex_cmd_env (34 # s @ 34 # r) l = Some (s, r)" if "length s < l" "34 \<notin> set s" "0 \<notin> set s" for s r l
  proof -
    have "takeWhile (\<lambda>c. c \<noteq> 34) (s @ 34 # r) = s" using that(2) by (subst takeWhile_append2) auto
    then show ?thesis using that by (simp add: ex_cmd_env_def Let_def)
  qed
  ultimately show ?thesis unfolding cmd_parse_ok_def by (simp add: ex_cmd_env_def)
qed

theorem cmd_cfg_roundtrip_witness:
  "\<exists>cf. \<forall>cms inp g. \<exists>cx'. cmd_process_text ex_cmd_env (str ''CFG=40,'' @ [34] @ str ''My car'' @ [34] @ str '';CFG=40'')
       (ex_cx (ex_cmd_st cf cms inp g) ACCESS_ADMIN) = Some (cx', True)
     \<and> cx_text_of id cx' CFG_ID_DEVICE_NAME = str ''My car''
     \<and> cx_res cx' = str ''CFG:40,'' @ [34] @ str ''My car'' @ [34, 13, 10]"
proof -
  have num: "show_nat 40 = str ''40''" "show_int 40 = str ''40''" by code_simp+
  have acc: "cfg_table_access_write (of_nat 40) ACCESS_ADMIN" "cfg_table_access_read (of_nat 40) ACCESS_ADMIN" by code_simp+
  have tg: "table_get CFG_ID_DEVICE_NAME \<noteq> None" by code_simp
  have v: "length (str ''My car'') < 62" "34 \<notin> set (str ''My car'')" "0 \<notin> set (str ''My car'')" by (simp_all add: str_def)
  have tx: "str ''CFG='' @ show_nat 40 @ [44, 34] @ str ''My car'' @ 34 # str '';CFG='' @ show_nat 40
      = str ''CFG=40,'' @ [34] @ str ''My car'' @ [34] @ str '';CFG=40''" unfolding num by (simp add: str_def)
  have sh: "cfg_shown ex_cmd_env [] 40 (str ''My car'') = str ''CFG:40,'' @ [34] @ str ''My car'' @ [34, 13, 10]"
    using num(2) by (simp add: cfg_shown_def ex_cmd_env_def ex_ev_env_def list_buf_def str_def)
  let ?cf = "ex_cfg (\<lambda>_. 0xFF)"
  have "\<exists>cx'. cmd_process_text ex_cmd_env (str ''CFG=40,'' @ [34] @ str ''My car'' @ [34] @ str '';CFG=40'')
       (ex_cx (ex_cmd_st ?cf cms inp g) ACCESS_ADMIN) = Some (cx', True)
     \<and> cx_text_of id cx' CFG_ID_DEVICE_NAME = str ''My car''
     \<and> cx_res cx' = str ''CFG:40,'' @ [34] @ str ''My car'' @ [34, 13, 10]" for cms inp g
    using cmd_cfg_roundtrip [OF ex_cmd_env_ok ex_cmd_parse_ok, of id "ex_cx (ex_cmd_st ?cf cms inp g) ACCESS_ADMIN" 40 "str ''My car''"]
      ex_cmd_inv [OF ex_blank_sound, of cms inp g] acc v tg
    unfolding tx by (auto simp: sh word_le_nat_alt)
  then show ?thesis by blast
qed

end
