(* ===== verification/Spec2Isabelle.thy ===== *)
theory Spec2Isabelle
  imports EventTaskProps EventMemory SystemCore Inp TracerDelivery CmsMainProps MultiSms UpdateProps GpsProps CmdProps
begin

text \<open>
  A model of the firmware of the GSM/GPS car alarm JCA-123: the application (\<open>src/app\<close>), its
  bootloader (\<open>src/bootloader\<close>), parts of the libraries beside them (\<open>src/lib\<close>, \<open>src/net\<close>,
  \<open>src/modem\<close>) and of the host tools that prepare a firmware image (\<open>src/ut\<close>).

  \<^bold>\<open>How the program works.\<close>  The inputs of the car are debounced (\<open>inp.c\<close>), become bits of the
  system word and signals of the guarded section (\<open>system.c\<close>, \<open>system_input.c\<close>, \<open>section.c\<close>), which
  may start the alarm and its siren (\<open>alarm.c\<close>, \<open>out.c\<close>).  What happens is recorded as events: they
  are created in a ring (\<open>event.c\<close>), stored in a log in the external flash (\<open>event_memory.c\<close>) and
  wait in buffers (\<open>event_buf.c\<close>) to be sent to users and to the security center (\<open>cms/\<close>).  The
  receiver of positions (\<open>gps.c\<close>, \<open>nmea.c\<close>) feeds the tracking (\<open>tracer/tracer.c\<close>), which decides when
  a track starts and which points it has, keeps them in a ring in the flash (\<open>tracer_buffer.c\<close>) and
  reports them to a server.  The owner talks to the unit by commands (\<open>cmd.c\<close>), from a terminal or in
  text messages, with the access that a password gives.  The flash is divided into regions (\<open>storage.c\<close>), one of which holds the
  configuration (\<open>cfg.c\<close>, \<open>cfg_table.c\<close>) and one a new firmware, which the bootloader checks and
  installs (\<open>bootloader/main.c\<close>).

  \<^bold>\<open>Conventions.\<close>  Machine integers are words of their width, the tick counter of
  \<open>os_timer_t\<close> among them; only the timers of the alarm theories, which hold a time to compare with,
  are \<open>int\<close>.  A record stands for the static variables of a
  source file or for a C structure; an operation takes it and returns it changed.  A step that may
  fail an \<open>OS_ASSERT\<close> or access an array outside its bounds is in the option monad, with
  \<open>None\<close> for the stopped device; error returns of the source are ordinary values.  Log output and
  mutexes have no counterpart.  The SDK (\<open>src/sdk\<close>) is a submodule whose files are not part of the
  repository: its flash driver, timer, clock, text buffers, checksum routine, internal flash and
  registers are arguments of the definitions, and \<open>Storage.flash_lawful\<close> and its like
  state what the code relies on.  Each witness instantiates them.

  \<^bold>\<open>The theories.\<close>
  \<^item> \<open>Prelude\<close>, \<open>CLib\<close>: word types, assertions, lemmas on lists; C strings, \<open>strncpy\<close>, the
    conversions of \<open>sscanf\<close> and \<open>printf\<close> that the code uses.
  \<^item> \<open>EventTypes\<close> (\<open>event.h\<close>); \<open>EventQueue\<close>: \<open>event_create_ext\<close> and the ring of 32 events.
  \<^item> \<open>EventBuf\<close>: all operations of \<open>event_buf.c\<close> on the linked list of array indices.  \<open>EventBufRep\<close>
    holds the representation \<open>eb_rep\<close> and the locales \<open>eb_body\<close> and \<open>eb_body_idle\<close>, the contract of
    the six traversing loops; \<open>EventBufBodies\<close> interprets them, \<open>EventBufSpec\<close> gives the abstract
    queue \<open>eb_abs\<close>, \<open>EventBufAdd\<close> and \<open>EventBufQueue\<close> show that the operations refine it, and
    \<open>EventBufProps\<close> has the properties: no assertion fails in any run, adding refines the queue
    operation, get and done, get and restore, replacement by priority.
  \<^item> \<open>Storage\<close>: \<open>storage.c\<close> and the firmware region; the locale \<open>flash_region\<close> is the contract of
    a region (isolation, read after write), interpreted for the three of the application.
  \<^item> \<open>EventMemory\<close>: \<open>event_memory.c\<close>, the ring log as a list of the latest events, also after a
    restart.
  \<^item> \<open>EventTask\<close>, \<open>EventTaskRun\<close>, \<open>EventTaskProps\<close>: \<open>event_task.c\<close>, from the created event to the
    log, the buffers, the outputs and the report to a user.  The loop of the task is a
    \<open>partial_function (option)\<close> and is shown to return; what it stores is the abstract list of the
    events it was given.
  \<^item> \<open>CfgTable\<close>, \<open>Cfg\<close>, \<open>CfgText\<close>: the table and \<open>cfg.c\<close>; a written item is read back, a damaged
    one gives the default.
  \<^item> \<open>SystemInput\<close>, \<open>Section\<close>, \<open>Out\<close>, \<open>SystemState\<close>, \<open>Alarm\<close>, \<open>SystemCore\<close>, \<open>Inp\<close>: the alarm
    system from the debounce filter to the outputs.  \<open>sys_wf\<close> is its invariant and \<open>sys_run\<close> the
    runs of its handlers; entry and exit delays, the end of an alarm, the restart from stored state.
  \<^item> \<open>TracerBuffer\<close>, \<open>TracerBufferProps\<close>: \<open>tracer_buffer.c\<close>, its ring as a queue of points, the two
    binary searches of the restart, the marking of delivered points.
  \<^item> \<open>TracerProto\<close>, \<open>TracerProtoProps\<close>: the position protocols H02 and SIA and the selection between
    them (the build option \<open>TRACER_SIA\<close> is an argument); the locale \<open>tracer_protocol\<close> is the contract
    both give to the tracer.
  \<^item> \<open>Tracer\<close>: all operations of \<open>tracer.c\<close>.  \<open>TracerParam\<close> shows the ranges and the storage of its
    parameters, \<open>TracerRun\<close> its runs \<open>tr_run\<close> (one pass of the task or one call from outside per
    step), \<open>TracerComm\<close> the communication task: the waiting loop for an
    acknowledgement is a \<open>partial_function (option)\<close> that is shown to end.  A pass of the
    communication task is one step; the signals of the LED are left out.  \<open>TracerDelivery\<close> has the
    delivery of the stored points to the server: \<open>delivery_inv\<close>, an invariant of all runs, ties the pending
    packet to a slot of the ring and counts the packets that were dropped (\<open>drops\<close>); only the last point a call marks
    was in the acknowledged packet, and without drops it is the only one.
  \<^item> \<open>NetTarget\<close>: \<open>net_target.c\<close>, \<open>udp.c\<close> and the dispatch of \<open>app/net.c\<close>.
  \<^item> \<open>CmsSia\<close>, \<open>CmsSiaProps\<close>: the SIA-DC-09 codec, its table-driven CRC against the bitwise one, and
    its frames against its own receiver.  \<open>CmsMain\<close>, \<open>CmsMainProps\<close>: the reporting state machine.
  \<^item> \<open>MultiSms\<close>: reassembly of long text messages (\<open>modem/multi_sms.c\<close>).
  \<^item> \<open>Nmea\<close>, \<open>Gps\<close>, \<open>GpsProps\<close>: \<open>nmea.c\<close> and \<open>gps.c\<close>: framing and checksum, the range of the
    published positions, the sleep cycle.
  \<^item> \<open>Ihex\<close>, \<open>IhexTransfer\<close>: the Intel HEX parser of the bootloader in its own buffer, with the bounds
    of its accesses, and the printer of the host tool; a transfer writes the file.
  \<^item> \<open>Boot\<close>, \<open>BootInstall\<close>, \<open>BootProps\<close>: the start decision, container check and installation;
    from the file of the container tool to the started application, and after interrupted or damaged
    installations.
  \<^item> \<open>Update\<close>, \<open>UpdateProps\<close>: \<open>update.c\<close>, the firmware over the network.  A pass of the task is a step,
    with the packets that arrive while it waits in its environment; \<open>up_reach\<close> are the runs with a server whose
    chunks belong to one image.  The device restarts only with the whole image in the flash, and the
    bootloader then installs it.
  \<^item> \<open>Cmd\<close>, \<open>CmdRun\<close>, \<open>CmdProps\<close>: \<open>cmd.c\<close>, the command interpreter for terminals and text messages, with
    the messages that come in through \<open>sms_processing.c\<close>.  \<open>Cmd\<close> has one definition per handler and the loop over a
    text as a \<open>partial_function (option)\<close>, because a command may simulate a message; \<open>CmdRun\<close> has the laws
    \<open>cmd_lib_ok\<close> and \<open>cmd_parse_ok\<close> of the parsing functions, the invariant \<open>cmd_inv\<close> of the device, and shows
    that each handler ends, keeps it and takes its parameters off the text; \<open>CmdProps\<close> has the lookup of a command
    against its description, the channel without access that changes nothing, settings that are read back, and the
    messages that disarm the system or are dropped.

  \<^bold>\<open>Bounds and fuel.\<close>  Loops of the source over arrays are recursions over their index or over the
  list; the traversals of \<open>event_buf.c\<close> and \<open>fl_\<close> loops carry the bound the source has (the buffer
  size).  The binary searches of \<open>tracer_buffer.c\<close> halve their step as in the source, sixteen times
  for 32768 slots.  No definition has a fuel that the source does not have, except
  \<open>bl_round\<close>, which is one pass of the endless command loop.

  \<^bold>\<open>Not modelled.\<close>  Hardware access (\<open>main.c\<close>, \<open>gps_io.c\<close>, \<open>can.c\<close>, \<open>analog.c\<close>, pin headers),
  the third-party AES, the tests, and the serial and command-line parts of the host tools.  The serial
  dialogue of \<open>gps_set_baudrate\<close> and the jump of the bootloader into the application are left out.
  The modem (\<open>modem_main.c\<close>, \<open>modem.c\<close>, \<open>modem_at.c\<close>, \<open>modem_bg95.c\<close>, \<open>modem_udp.c\<close>) is a parameter
  wherever a component calls it: its state machine is a dialogue of lines with a chip, and rests on the line and
  PDU libraries of submodules.  \<open>server.c\<close> is a stub that nothing starts.
\<close>

end
